(* ===== verification/Prelude.thy ===== *)
theory Prelude
  imports Main "HOL-Library.Char_ord" "HOL-Library.List_Lexorder" "HOL-Library.Multiset"
begin

text \<open>
  Shared vocabulary of the development: Go's machine integers with their wrap-around,
  instants and durations, association lists that stand for Go maps whose iteration order
  the code does not rely on, and comparator sorting. The collection \<open>go\<close> gathers the
  equations that evaluate concrete runs of the model.
\<close>

named_theorems go "equations that evaluate the models of Go standard library calls"

type_synonym bytes = string
type_synonym time = int
type_synonym duration = int

subsection \<open>Signed 64-bit arithmetic\<close>

text \<open>Go's \<open>int64\<close>, \<open>int\<close> and \<open>time.Duration\<close> wrap around silently.\<close>

definition max_int64 :: int where
  "max_int64 = 9223372036854775807"

definition min_int64 :: int where
  "min_int64 = - 9223372036854775808"

definition wrap64 :: "int \<Rightarrow> int" where
  "wrap64 x = (x + 9223372036854775808) mod 18446744073709551616 - 9223372036854775808"

lemma wrap64_id [simp]: "min_int64 \<le> x \<Longrightarrow> x \<le> max_int64 \<Longrightarrow> wrap64 x = x"
  by (simp add: wrap64_def min_int64_def max_int64_def)

lemma wrap64_range: "min_int64 \<le> wrap64 x \<and> wrap64 x \<le> max_int64"
  using pos_mod_bound [of 18446744073709551616 "x + 9223372036854775808"]
    pos_mod_sign [of 18446744073709551616 "x + 9223372036854775808"]
  unfolding wrap64_def min_int64_def max_int64_def by linarith

text \<open>Unsigned 64-bit counters wrap at \<open>2 ^ 64\<close>.\<close>

definition wrapu64 :: "nat \<Rightarrow> nat" where
  "wrapu64 x = x mod 18446744073709551616"

text \<open>Go's integer division truncates towards zero.\<close>

definition go_div :: "int \<Rightarrow> int \<Rightarrow> int" where
  "go_div a b = sgn a * sgn b * (\<bar>a\<bar> div \<bar>b\<bar>)"

lemma go_div_nonneg: "0 \<le> a \<Longrightarrow> 0 < b \<Longrightarrow> go_div a b = a div b"
  by (cases "a = 0") (simp_all add: go_div_def)

subsection \<open>Durations\<close>

definition millisecond :: duration where "millisecond = 1000000"
definition second :: duration where "second = 1000000000"
definition minute :: duration where "minute = 60000000000"
definition hour :: duration where "hour = 3600000000000"

text \<open>The zero \<open>time.Time\<close> (1 January of year 1) in nanoseconds since the Unix epoch.\<close>

definition zero_time :: time where
  "zero_time = - 62135596800000000000"

subsection \<open>Maps as association lists\<close>

text \<open>
  A Go map that the code ranges over is an association list with distinct keys; \<open>al_set\<close>
  is the assignment \<open>m[k] = v\<close>, \<open>al_get\<close> the lookup.
\<close>

fun al_get :: "('k \<times> 'v) list \<Rightarrow> 'k \<Rightarrow> 'v option" where
  "al_get [] k = None"
| "al_get ((k', v) # m) k = (if k = k' then Some v else al_get m k)"

fun al_set :: "'k \<Rightarrow> 'v \<Rightarrow> ('k \<times> 'v) list \<Rightarrow> ('k \<times> 'v) list" where
  "al_set k v [] = [(k, v)]"
| "al_set k v ((k', v') # m) = (if k = k' then (k, v) # m else (k', v') # al_set k v m)"

definition al_del :: "'k \<Rightarrow> ('k \<times> 'v) list \<Rightarrow> ('k \<times> 'v) list" where
  "al_del k m = filter (\<lambda>p. fst p \<noteq> k) m"

fun al_keys :: "('k \<times> 'v) list \<Rightarrow> 'k list" where
  "al_keys [] = []"
| "al_keys ((k, v) # m) = k # al_keys m"

lemma al_get_set [simp]: "al_get (al_set k v m) k' = (if k' = k then Some v else al_get m k')"
  by (induction m) auto

lemma al_get_del [simp]: "al_get (al_del k m) k' = (if k' = k then None else al_get m k')"
  by (induction m) (auto simp: al_del_def)

lemma al_keys_set [simp]: "set (al_keys (al_set k v m)) = insert k (set (al_keys m))"
  by (induction k v m rule: al_set.induct) auto

lemma al_keys_del [simp]: "set (al_keys (al_del k m)) = set (al_keys m) - {k}"
  by (induction m rule: al_keys.induct) (auto simp: al_del_def)

lemma distinct_al_set [intro]: "distinct (al_keys m) \<Longrightarrow> distinct (al_keys (al_set k v m))"
  by (induction k v m rule: al_set.induct) auto

lemma distinct_al_del [intro]: "distinct (al_keys m) \<Longrightarrow> distinct (al_keys (al_del k m))"
proof (induction m rule: al_keys.induct)
  case (2 k' v m)
  then show ?case using al_keys_del [of k m] by (auto simp: al_del_def)
qed (simp add: al_del_def)

lemma al_get_None_iff: "al_get m k = None \<longleftrightarrow> k \<notin> set (al_keys m)"
  by (induction m k rule: al_get.induct) auto

lemma al_keys_map: "al_keys m = map fst m"
  by (induction m rule: al_keys.induct) auto

lemma al_get_set_iff: "distinct (al_keys m) \<Longrightarrow> al_get m k = Some v \<longleftrightarrow> (k, v) \<in> set m"
  by (induction m rule: al_keys.induct) (auto simp: al_keys_map rev_image_eqI)

lemma al_del_absent: "k \<notin> set (al_keys m) \<Longrightarrow> al_del k m = m"
  by (induction m rule: al_keys.induct) (auto simp: al_del_def)

lemma set_al_del: "set (al_del k m) = {p \<in> set m. fst p \<noteq> k}"
  by (auto simp: al_del_def)

subsection \<open>Comparator sorting\<close>

text \<open>
  \<open>ORDER BY\<close> and \<open>sort.Slice\<close> sort by a comparison; the order of equal elements is never
  relied on, the model keeps the input's.
\<close>

fun insort_by :: "('a \<Rightarrow> 'a \<Rightarrow> bool) \<Rightarrow> 'a \<Rightarrow> 'a list \<Rightarrow> 'a list" where
  "insort_by le x [] = [x]"
| "insort_by le x (y # ys) = (if le x y then x # y # ys else y # insort_by le x ys)"

definition sort_by :: "('a \<Rightarrow> 'a \<Rightarrow> bool) \<Rightarrow> 'a list \<Rightarrow> 'a list" where
  "sort_by le xs = foldr (insort_by le) xs []"

lemma mset_insort_by [simp]: "mset (insort_by le x xs) = add_mset x (mset xs)"
  by (induction xs) auto

lemma mset_sort_by [simp]: "mset (sort_by le xs) = mset xs"
  by (induction xs) (auto simp: sort_by_def)

lemma set_insort_by [simp]: "set (insort_by le x xs) = insert x (set xs)"
  using mset_insort_by [of le x xs] by (metis set_mset_add_mset_insert set_mset_mset)

lemma set_sort_by [simp]: "set (sort_by le xs) = set xs"
  by (metis mset_sort_by set_mset_mset)

lemma length_sort_by [simp]: "length (sort_by le xs) = length xs"
  by (metis mset_sort_by size_mset)

locale comparator =
  fixes le :: "'a \<Rightarrow> 'a \<Rightarrow> bool"
  assumes le_total: "le x y \<or> le y x"
    and le_trans: "le x y \<Longrightarrow> le y z \<Longrightarrow> le x z"
begin

lemma sorted_insort_by: "sorted_wrt le xs \<Longrightarrow> sorted_wrt le (insort_by le x xs)"
proof (induction xs)
  case (Cons y ys)
  then show ?case
    using le_total [of x y] by (auto intro: le_trans)
qed simp

lemma sorted_sort_by: "sorted_wrt le (sort_by le xs)"
  by (induction xs) (auto simp: sort_by_def intro: sorted_insort_by)

end

subsection \<open>Lists\<close>

lemma filter_removes_one:
  assumes "distinct (map f xs)" "x \<in> set xs"
  shows "sum_list (map g (filter (\<lambda>y. f y \<noteq> f x) xs)) = sum_list (map g xs) - (g x :: int)"
  using assms
proof (induction xs)
  case (Cons y ys)
  show ?case
  proof (cases "y = x")
    case True
    with Cons.prems have "\<forall>z \<in> set ys. f z \<noteq> f x" by (auto simp: image_iff)
    then have "filter (\<lambda>z. f z \<noteq> f x) ys = ys" by simp
    with True show ?thesis by simp
  next
    case False
    with Cons have "x \<in> set ys" "f y \<noteq> f x" by force+
    with Cons show ?thesis by simp
  qed
qed simp

lemma find_unique:
  assumes "distinct (map f xs)" "\<And>x. P x \<Longrightarrow> f x = k"
  shows "find P xs = Some r \<longleftrightarrow> r \<in> set xs \<and> P r"
proof
  assume r: "r \<in> set xs \<and> P r"
  then obtain q where q: "find P xs = Some q"
    by (cases "find P xs") (auto simp: find_None_iff)
  then have "q \<in> set xs" "P q" by (auto simp: find_Some_iff)
  with r assms have "q = r" by (metis (no_types, lifting) distinct_map inj_onD)
  with q show "find P xs = Some r" by simp
qed (auto simp: find_Some_iff)

lemma find_map: "find P (map f xs) = map_option f (find (P \<circ> f) xs)"
  by (induction xs) auto

lemma find_append:
  "find P (xs @ ys) = (case find P xs of Some x \<Rightarrow> Some x | None \<Rightarrow> find P ys)"
  by (induction xs) auto

end
