(* ===== verification/LruCache.thy ===== *)
theory LruCache
  imports Prelude
begin

text \<open>
  The process-local response cache, \<open>internal/cache/cache.go\<close>. The doubly linked list of
  \<open>container/list\<close> is the list \<open>m_lru\<close>, front first, of elements with an identity; the map
  \<open>items\<close> goes from keys to identities, as the Go map goes to element pointers. Every
  operation runs under the mutex, so the operations are atomic steps. \<open>cancelled\<close> is
  \<open>ctx.Err() != nil\<close> and \<open>now\<close> the value of \<open>c.now()\<close>.
\<close>

type_synonym header = "(string \<times> string list) list"

record entry =
  e_status :: int
  e_header :: header
  e_body :: bytes
  e_omitted :: bool
  e_stored :: time
  e_tags :: "string list"

record item =
  i_key :: string
  i_entry :: entry
  i_expires :: time
  i_size :: int

record memory =
  m_items :: "string \<Rightarrow> nat option"
  m_lru :: "(nat \<times> item) list"
  m_maxBytes :: int
  m_maxItems :: int
  m_bytes :: int
  m_next :: nat

subsection \<open>Operations\<close>

definition newMemory :: "int \<Rightarrow> int \<Rightarrow> memory" where
  "newMemory maxBytes maxItems =
     \<lparr>m_items = (\<lambda>_. None), m_lru = [], m_maxBytes = maxBytes, m_maxItems = maxItems,
      m_bytes = 0, m_next = 0\<rparr>"

definition header_size :: "header \<Rightarrow> int" where
  "header_size h = sum_list (map (\<lambda>p. int (length (fst p)) + sum_list (map (int \<circ> length) (snd p))) h)"

definition entrySize :: "string \<Rightarrow> entry \<Rightarrow> int" where
  "entrySize key e =
     int (length key) + int (length (e_body e)) + header_size (e_header e) +
     sum_list (map (int \<circ> length) (e_tags e))"

definition hasTag :: "string list \<Rightarrow> string list \<Rightarrow> bool" where
  "hasTag tags wanted = list_ex (\<lambda>t. t \<in> set wanted) tags"

definition mem_remove :: "nat \<Rightarrow> memory \<Rightarrow> memory" where
  "mem_remove el c =
     (case al_get (m_lru c) el of
        None \<Rightarrow> c
      | Some v \<Rightarrow> c\<lparr>m_items := (m_items c)(i_key v := None),
                    m_bytes := wrap64 (m_bytes c - i_size v),
                    m_lru := al_del el (m_lru c)\<rparr>)"

text \<open>\<open>c.remove(c.lru.Back())\<close>; \<open>Back\<close> of an empty list is nil and removes nothing.\<close>

definition mem_remove_back :: "memory \<Rightarrow> memory" where
  "mem_remove_back c = (if m_lru c = [] then c else mem_remove (fst (last (m_lru c))) c)"

definition mem_Get :: "bool \<Rightarrow> time \<Rightarrow> string \<Rightarrow> memory \<Rightarrow> entry option \<times> memory" where
  "mem_Get cancelled now key c =
     (if cancelled then (None, c)
      else case m_items c key of
        None \<Rightarrow> (None, c)
      | Some el \<Rightarrow>
          (case al_get (m_lru c) el of
             None \<Rightarrow> (None, c)
           | Some v \<Rightarrow>
               if \<not> now < i_expires v then (None, mem_remove el c)
               else (Some (i_entry v), c\<lparr>m_lru := (el, v) # al_del el (m_lru c)\<rparr>)))"

text \<open>
  The eviction loop of \<open>Set\<close>. It would spin on an empty list whose byte counter is too
  high, so whether it ends is a theorem; \<open>None\<close> is a loop that does not return.
\<close>

partial_function (option) mem_evict :: "memory \<Rightarrow> memory option" where
  "mem_evict c =
     (if int (length (m_lru c)) > m_maxItems c \<or> m_bytes c > m_maxBytes c
      then mem_evict (mem_remove_back c)
      else Some c)"

definition mem_insert :: "item \<Rightarrow> memory \<Rightarrow> memory" where
  "mem_insert v c =
     c\<lparr>m_items := (m_items c)(i_key v := Some (m_next c)),
       m_lru := (m_next c, v) # m_lru c,
       m_next := Suc (m_next c),
       m_bytes := wrap64 (m_bytes c + i_size v)\<rparr>"

text \<open>The entry that \<open>Set\<close> would store: the body is dropped when it makes the entry too big.\<close>

definition mem_stored_entry :: "time \<Rightarrow> string \<Rightarrow> entry \<Rightarrow> memory \<Rightarrow> entry" where
  "mem_stored_entry now key entry c =
     (let entry = entry\<lparr>e_stored := now\<rparr>
      in if entrySize key entry > m_maxBytes c \<and> e_body entry \<noteq> []
         then entry\<lparr>e_body := [], e_omitted := True\<rparr> else entry)"

definition mem_Set ::
  "bool \<Rightarrow> time \<Rightarrow> string \<Rightarrow> entry \<Rightarrow> duration \<Rightarrow> memory \<Rightarrow> memory option" where
  "mem_Set cancelled now key entry ttl c =
     (if cancelled \<or> key = [] \<or> ttl \<le> 0 \<or> m_maxBytes c \<le> 0 \<or> m_maxItems c \<le> 0 then Some c
      else
        let entry = mem_stored_entry now key entry c;
            value = \<lparr>i_key = key, i_entry = entry, i_expires = now + ttl,
                     i_size = entrySize key entry\<rparr>
        in if i_size value > m_maxBytes c then Some c
           else
             let c1 = (case m_items c key of Some old \<Rightarrow> mem_remove old c | None \<Rightarrow> c)
             in mem_evict (mem_insert value c1))"

definition mem_Delete :: "bool \<Rightarrow> string \<Rightarrow> memory \<Rightarrow> memory" where
  "mem_Delete cancelled key c =
     (if cancelled then c
      else case m_items c key of Some el \<Rightarrow> mem_remove el c | None \<Rightarrow> c)"

text \<open>
  \<open>Invalidate\<close> walks from the back, remembering the previous element before it removes
  one, so it visits the elements that were there at the start.
\<close>

fun mem_invalidate_walk :: "string list \<Rightarrow> (nat \<times> item) list \<Rightarrow> memory \<Rightarrow> memory" where
  "mem_invalidate_walk wanted [] c = c"
| "mem_invalidate_walk wanted ((el, v) # rest) c =
     mem_invalidate_walk wanted rest
       (if hasTag (e_tags (i_entry v)) wanted then mem_remove el c else c)"

definition mem_Invalidate :: "bool \<Rightarrow> string list \<Rightarrow> memory \<Rightarrow> memory" where
  "mem_Invalidate cancelled tags c =
     (if cancelled \<or> tags = [] then c else mem_invalidate_walk tags (rev (m_lru c)) c)"

definition mem_Stats :: "memory \<Rightarrow> int \<times> nat" where
  "mem_Stats c = (m_bytes c, length (m_lru c))"

definition mem_EntryFits :: "string \<Rightarrow> entry \<Rightarrow> int \<Rightarrow> memory \<Rightarrow> bool" where
  "mem_EntryFits key entry bodyBytes c =
     (if bodyBytes < 0 then False
      else let metadataBytes = entrySize key (entry\<lparr>e_body := [], e_omitted := False\<rparr>)
           in metadataBytes \<le> m_maxBytes c \<and> bodyBytes \<le> m_maxBytes c - metadataBytes)"

definition mem_Close :: "memory \<Rightarrow> memory" where
  "mem_Close c = c\<lparr>m_items := (\<lambda>_. None), m_lru := [], m_bytes := 0\<rparr>"

subsection \<open>Well-formedness\<close>

text \<open>
  The map and the list describe the same set of entries, under distinct keys; the byte
  counter is the sum of the entry sizes. The configured byte limit is below \<open>2 ^ 62\<close>, which
  keeps the counter clear of the \<open>int64\<close> wrap-around between an insertion and the eviction
  that follows it. The bounds themselves are a separate clause, broken while \<open>Set\<close> runs.
\<close>

definition lru_keys :: "memory \<Rightarrow> string list" where
  "lru_keys c = map (i_key \<circ> snd) (m_lru c)"

definition lru_bytes :: "(nat \<times> item) list \<Rightarrow> int" where
  "lru_bytes l = sum_list (map (i_size \<circ> snd) l)"

definition item_ok :: "item \<Rightarrow> bool" where
  "item_ok v \<longleftrightarrow> i_size v = entrySize (i_key v) (i_entry v) \<and> i_key v \<noteq> []"

definition wf_core :: "memory \<Rightarrow> bool" where
  "wf_core c \<longleftrightarrow>
     distinct (al_keys (m_lru c)) \<and> distinct (lru_keys c) \<and>
     (\<forall>el v. (el, v) \<in> set (m_lru c) \<longrightarrow>
        m_items c (i_key v) = Some el \<and> el < m_next c \<and> item_ok v) \<and>
     (\<forall>k el. m_items c k = Some el \<longrightarrow> (\<exists>v. (el, v) \<in> set (m_lru c) \<and> i_key v = k)) \<and>
     m_bytes c = lru_bytes (m_lru c) \<and>
     m_maxBytes c \<le> 4611686018427387903 \<and> lru_bytes (m_lru c) \<le> 9223372036854775807"

definition within_bounds :: "memory \<Rightarrow> bool" where
  "within_bounds c \<longleftrightarrow>
     int (length (m_lru c)) \<le> max 0 (m_maxItems c) \<and> m_bytes c \<le> max 0 (m_maxBytes c)"

definition wf_mem :: "memory \<Rightarrow> bool" where
  "wf_mem c \<longleftrightarrow> wf_core c \<and> within_bounds c"

subsection \<open>Abstract specification\<close>

text \<open>
  What the cache promises, without the map, the element identities and the counter: a list
  of items, most recently used first. A lookup moves its item to the front, an insertion
  puts the item in front and keeps the longest prefix that fits both bounds.
\<close>

definition abs_mem :: "memory \<Rightarrow> item list" where
  "abs_mem c = map snd (m_lru c)"

definition spec_remove :: "string \<Rightarrow> item list \<Rightarrow> item list" where
  "spec_remove k A = filter (\<lambda>v. i_key v \<noteq> k) A"

definition spec_find :: "string \<Rightarrow> item list \<Rightarrow> item option" where
  "spec_find k A = find (\<lambda>v. i_key v = k) A"

fun keep_fit :: "nat \<Rightarrow> int \<Rightarrow> item list \<Rightarrow> item list" where
  "keep_fit n b [] = []"
| "keep_fit n b (v # A) =
     (if n = 0 \<or> i_size v > b then [] else v # keep_fit (n - 1) (b - i_size v) A)"

definition spec_Get :: "time \<Rightarrow> string \<Rightarrow> item list \<Rightarrow> entry option \<times> item list" where
  "spec_Get now k A =
     (case spec_find k A of
        None \<Rightarrow> (None, A)
      | Some v \<Rightarrow> if now < i_expires v then (Some (i_entry v), v # spec_remove k A)
                  else (None, spec_remove k A))"

definition spec_Set ::
  "int \<Rightarrow> int \<Rightarrow> item \<Rightarrow> item list \<Rightarrow> item list" where
  "spec_Set maxItems maxBytes v A =
     (if i_size v > maxBytes then A
      else keep_fit (nat maxItems) maxBytes (v # spec_remove (i_key v) A))"

definition items_bytes :: "item list \<Rightarrow> int" where
  "items_bytes A = sum_list (map i_size A)"

lemma keep_fit_all:
  "\<forall>v \<in> set A. 0 \<le> i_size v \<Longrightarrow> length A \<le> n \<Longrightarrow> items_bytes A \<le> b \<Longrightarrow> keep_fit n b A = A"
proof (induction n b A rule: keep_fit.induct)
  case (2 n b v A)
  then have "0 \<le> items_bytes A" by (auto simp: items_bytes_def intro!: sum_list_nonneg)
  with 2 show ?case by (auto simp: items_bytes_def)
qed simp

lemma keep_fit_drop_last:
  "\<forall>v \<in> set (A @ [x]). 0 \<le> i_size v \<Longrightarrow>
   length (A @ [x]) > n \<or> items_bytes (A @ [x]) > b \<Longrightarrow> keep_fit n b (A @ [x]) = keep_fit n b A"
proof (induction A arbitrary: n b)
  case (Cons y A)
  show ?case
  proof (cases "n = 0 \<or> i_size y > b")
    case False
    with Cons.prems have "length (A @ [x]) > n - 1 \<or> items_bytes (A @ [x]) > b - i_size y"
      by (auto simp: items_bytes_def)
    with Cons have "keep_fit (n - 1) (b - i_size y) (A @ [x]) = keep_fit (n - 1) (b - i_size y) A"
      by simp
    then show ?thesis by simp
  qed simp
qed (auto simp: items_bytes_def)

lemma keep_fit_bounds:
  "0 \<le> b \<Longrightarrow> length (keep_fit n b A) \<le> n \<and> items_bytes (keep_fit n b A) \<le> b"
proof (induction n b A rule: keep_fit.induct)
  case (2 n b v A)
  then show ?case by (cases "n = 0 \<or> i_size v > b") (auto simp: items_bytes_def)
qed (simp add: items_bytes_def)

lemma keep_fit_prefix: "\<exists>B. A = keep_fit n b A @ B"
  by (induction n b A rule: keep_fit.induct) auto

lemma set_keep_fit: "set (keep_fit n b A) \<subseteq> set A"
  by (metis keep_fit_prefix set_append sup_ge1)

subsection \<open>The operations on well-formed caches\<close>

lemma entrySize_pos: "0 \<le> entrySize k e" and entrySize_key: "k \<noteq> [] \<Longrightarrow> 0 < entrySize k e"
proof -
  have h: "0 \<le> header_size h" for h
    unfolding header_size_def by (rule sum_list_nonneg) (auto intro!: add_nonneg_nonneg sum_list_nonneg)
  have t: "0 \<le> sum_list (map (int \<circ> length) (ts :: string list))" for ts
    by (rule sum_list_nonneg) auto
  show "0 \<le> entrySize k e" using h t unfolding entrySize_def by (simp add: add_nonneg_nonneg)
  show "k \<noteq> [] \<Longrightarrow> 0 < entrySize k e"
    using h [of "e_header e"] t [of "e_tags e"] unfolding entrySize_def by (cases k) simp_all
qed

lemma entrySize_stored [simp]: "entrySize k (e\<lparr>e_stored := t\<rparr>) = entrySize k e"
  and entrySize_omitted [simp]: "entrySize k (e\<lparr>e_omitted := x\<rparr>) = entrySize k e"
  by (simp_all add: entrySize_def)

lemma item_ok_pos: "item_ok v \<Longrightarrow> 0 < i_size v"
  by (simp add: item_ok_def entrySize_key)

lemma lru_bytes_simps [simp]:
  "lru_bytes [] = 0" "lru_bytes (p # l) = i_size (snd p) + lru_bytes l"
  "lru_bytes (l @ l') = lru_bytes l + lru_bytes l'"
  by (simp_all add: lru_bytes_def)

lemma lru_bytes_abs: "lru_bytes (m_lru c) = items_bytes (abs_mem c)"
  by (simp add: lru_bytes_def items_bytes_def abs_mem_def)

lemma lru_bytes_nonneg: "(\<forall>p \<in> set l. item_ok (snd p)) \<Longrightarrow> 0 \<le> lru_bytes l"
  unfolding lru_bytes_def by (rule sum_list_nonneg) (auto dest: item_ok_pos less_imp_le)

lemma wf_core_item_ok: "wf_core c \<Longrightarrow> p \<in> set (m_lru c) \<Longrightarrow> item_ok (snd p)"
  unfolding wf_core_def by (metis prod.collapse)

lemma wf_core_lookup:
  assumes "wf_core c" "m_items c k = Some el"
  obtains v where "al_get (m_lru c) el = Some v" "(el, v) \<in> set (m_lru c)" "i_key v = k"
proof -
  from assms obtain v where v: "(el, v) \<in> set (m_lru c)" "i_key v = k"
    unfolding wf_core_def by blast
  moreover from v assms(1) have "al_get (m_lru c) el = Some v"
    by (simp add: wf_core_def al_get_set_iff)
  ultimately show ?thesis using that by blast
qed

lemma wf_core_items_None:
  "wf_core c \<Longrightarrow> m_items c k = None \<longleftrightarrow> k \<notin> set (lru_keys c)"
proof -
  assume wf: "wf_core c"
  show ?thesis
  proof
    assume none: "m_items c k = None"
    show "k \<notin> set (lru_keys c)"
    proof
      assume "k \<in> set (lru_keys c)"
      then obtain p where "p \<in> set (m_lru c)" "k = i_key (snd p)" by (auto simp: lru_keys_def)
      with wf have "m_items c k = Some (fst p)" unfolding wf_core_def by (metis prod.collapse)
      with none show False by simp
    qed
  next
    assume "k \<notin> set (lru_keys c)"
    then have "\<not> (\<exists>v. (el, v) \<in> set (m_lru c) \<and> i_key v = k)" for el
      by (force simp: lru_keys_def)
    with wf show "m_items c k = None" by (metis wf_core_lookup not_None_eq)
  qed
qed

lemma distinct_key_unique:
  "distinct (map (i_key \<circ> snd) l) \<Longrightarrow> p \<in> set l \<Longrightarrow> q \<in> set l \<Longrightarrow>
   i_key (snd p) = i_key (snd q) \<Longrightarrow> p = q"
  by (induction l) (auto simp: image_iff)

text \<open>Removing the element of an item removes the item with that key, and nothing else.\<close>

lemma al_del_by_key:
  assumes "wf_core c" "(el, v) \<in> set (m_lru c)"
  shows "al_del el (m_lru c) = filter (\<lambda>p. i_key (snd p) \<noteq> i_key v) (m_lru c)"
proof -
  have dk: "distinct (map fst (m_lru c))" "distinct (map (i_key \<circ> snd) (m_lru c))"
    using assms(1) by (auto simp: wf_core_def lru_keys_def al_keys_map)
  have "fst p = el \<longleftrightarrow> i_key (snd p) = i_key v" if "p \<in> set (m_lru c)" for p
  proof
    assume "fst p = el"
    with that assms(2) dk(1) have "p = (el, v)"
      by (metis eq_key_imp_eq_value prod.collapse)
    then show "i_key (snd p) = i_key v" by simp
  next
    assume "i_key (snd p) = i_key v"
    with that assms(2) dk(2) have "p = (el, v)" by (metis distinct_key_unique snd_conv)
    then show "fst p = el" by simp
  qed
  then show ?thesis unfolding al_del_def by (intro filter_cong) auto
qed

lemma mem_remove_spec:
  assumes "wf_core c" "(el, v) \<in> set (m_lru c)"
  shows "wf_core (mem_remove el c)" (is ?wf)
    and "abs_mem (mem_remove el c) = spec_remove (i_key v) (abs_mem c)" (is ?abs)
    and "m_maxBytes (mem_remove el c) = m_maxBytes c"
    and "m_maxItems (mem_remove el c) = m_maxItems c"
    and "m_lru (mem_remove el c) = al_del el (m_lru c)"
proof -
  have get: "al_get (m_lru c) el = Some v"
    using assms by (simp add: wf_core_def al_get_set_iff)
  let ?c = "mem_remove el c"
  have lru: "m_lru ?c = al_del el (m_lru c)" using get by (simp add: mem_remove_def)
  have dk: "distinct (map fst (m_lru c))"
    using assms(1) by (auto simp: wf_core_def al_keys_map)
  have bytes: "lru_bytes (al_del el (m_lru c)) = lru_bytes (m_lru c) - i_size v"
    using filter_removes_one [OF dk assms(2), of "i_size \<circ> snd"]
    by (simp add: lru_bytes_def al_del_def)
  have nn: "0 \<le> lru_bytes (al_del el (m_lru c))"
    by (rule lru_bytes_nonneg) (auto simp: set_al_del dest: wf_core_item_ok [OF assms(1)])
  have pos: "0 < i_size v" using wf_core_item_ok [OF assms] item_ok_pos by simp
  from get show "m_maxBytes ?c = m_maxBytes c" "m_maxItems ?c = m_maxItems c"
    by (simp_all add: mem_remove_def)
  show "m_lru ?c = al_del el (m_lru c)" by (rule lru)
  show ?abs
    using al_del_by_key [OF assms] by (simp add: abs_mem_def lru spec_remove_def filter_map comp_def)
  have by_key: "al_del el (m_lru c) = filter (\<lambda>p. i_key (snd p) \<noteq> i_key v) (m_lru c)"
    by (rule al_del_by_key [OF assms])
  have "m_bytes ?c = lru_bytes (m_lru ?c)"
    using assms(1) get bytes nn pos
    by (simp add: mem_remove_def wf_core_def min_int64_def max_int64_def)
  moreover have "distinct (lru_keys ?c)"
    using assms(1) by (simp add: wf_core_def lru_keys_def lru al_del_def distinct_map_filter)
  moreover have "distinct (al_keys (m_lru ?c))"
    using assms(1) by (auto simp: wf_core_def lru)
  moreover have "\<forall>e u. (e, u) \<in> set (m_lru ?c) \<longrightarrow>
      m_items ?c (i_key u) = Some e \<and> e < m_next ?c \<and> item_ok u"
    using assms(1) get unfolding lru by_key wf_core_def by (auto simp: mem_remove_def)
  moreover have "\<exists>u. (e, u) \<in> set (m_lru ?c) \<and> i_key u = k" if "m_items ?c k = Some e" for k e
  proof -
    from that get have k: "k \<noteq> i_key v" "m_items c k = Some e"
      by (auto simp: mem_remove_def split: if_splits)
    with assms(1) obtain u where "(e, u) \<in> set (m_lru c)" "i_key u = k"
      by (meson wf_core_lookup)
    with k show ?thesis unfolding lru by_key by auto
  qed
  moreover have "m_maxBytes ?c \<le> 4611686018427387903" "lru_bytes (m_lru ?c) \<le> 9223372036854775807"
    using assms(1) get bytes pos by (auto simp: mem_remove_def wf_core_def lru)
  ultimately show ?wf unfolding wf_core_def by blast
qed

lemma wf_core_abs_pos: "wf_core c \<Longrightarrow> v \<in> set (abs_mem c) \<Longrightarrow> 0 \<le> i_size v"
  unfolding abs_mem_def by (force dest: wf_core_item_ok item_ok_pos)

lemma mem_remove_back_spec:
  assumes "wf_core c" "m_lru c \<noteq> []"
  shows "wf_core (mem_remove_back c)"
    and "abs_mem (mem_remove_back c) = butlast (abs_mem c)"
    and "length (m_lru (mem_remove_back c)) < length (m_lru c)"
    and "m_maxBytes (mem_remove_back c) = m_maxBytes c"
    and "m_maxItems (mem_remove_back c) = m_maxItems c"
proof -
  obtain l el v where lru: "m_lru c = l @ [(el, v)]"
    using assms(2) by (metis rev_exhaust surj_pair)
  then have mem: "(el, v) \<in> set (m_lru c)" and rb: "mem_remove_back c = mem_remove el c"
    by (simp_all add: mem_remove_back_def)
  have "el \<notin> fst ` set l"
    using assms(1) lru by (auto simp: wf_core_def al_keys_map)
  then have del: "al_del el (l @ [(el, v)]) = l"
    by (auto simp: al_del_def filter_id_conv)
  note spec = mem_remove_spec [OF assms(1) mem]
  show "wf_core (mem_remove_back c)" by (simp add: rb spec)
  show "abs_mem (mem_remove_back c) = butlast (abs_mem c)"
    by (simp add: rb abs_mem_def spec(5) del lru)
  show "length (m_lru (mem_remove_back c)) < length (m_lru c)"
    by (simp add: rb spec(5) del lru)
  show "m_maxBytes (mem_remove_back c) = m_maxBytes c"
    "m_maxItems (mem_remove_back c) = m_maxItems c"
    by (simp_all add: rb spec)
qed

text \<open>The eviction loop ends, and leaves the longest prefix that fits.\<close>

lemma mem_evict_spec:
  assumes "wf_core c" "0 \<le> m_maxItems c" "0 \<le> m_maxBytes c"
  shows "\<exists>c'. mem_evict c = Some c' \<and> wf_core c' \<and> within_bounds c' \<and>
    abs_mem c' = keep_fit (nat (m_maxItems c)) (m_maxBytes c) (abs_mem c) \<and>
    m_maxBytes c' = m_maxBytes c \<and> m_maxItems c' = m_maxItems c"
  using assms
proof (induction "length (m_lru c)" arbitrary: c rule: less_induct)
  case less
  have bytes: "m_bytes c = items_bytes (abs_mem c)"
    using less.prems(1) by (simp add: wf_core_def lru_bytes_abs)
  have len: "length (abs_mem c) = length (m_lru c)" by (simp add: abs_mem_def)
  have pos: "\<forall>v \<in> set (abs_mem c). 0 \<le> i_size v"
    using wf_core_abs_pos [OF less.prems(1)] by blast
  show ?case
  proof (cases "int (length (m_lru c)) > m_maxItems c \<or> m_bytes c > m_maxBytes c")
    case False
    then have "mem_evict c = Some c" by (subst mem_evict.simps) simp
    moreover have "keep_fit (nat (m_maxItems c)) (m_maxBytes c) (abs_mem c) = abs_mem c"
      using False pos by (intro keep_fit_all) (auto simp: len bytes)
    ultimately show ?thesis using False less.prems by (auto simp: within_bounds_def)
  next
    case True
    then have ne: "m_lru c \<noteq> []" using less.prems bytes by (auto simp: abs_mem_def items_bytes_def)
    note rb = mem_remove_back_spec [OF less.prems(1) ne]
    obtain A x where Ax: "abs_mem c = A @ [x]"
      using ne by (metis abs_mem_def map_is_Nil_conv rev_exhaust)
    have "mem_evict c = mem_evict (mem_remove_back c)"
      using True by (subst mem_evict.simps) simp
    moreover have "keep_fit (nat (m_maxItems c)) (m_maxBytes c) (abs_mem c) =
        keep_fit (nat (m_maxItems c)) (m_maxBytes c) (abs_mem (mem_remove_back c))"
    proof -
      have "length (A @ [x]) > nat (m_maxItems c) \<or> items_bytes (A @ [x]) > m_maxBytes c"
        using True less.prems(2) by (auto simp: Ax [symmetric] len bytes)
      moreover have "\<forall>v \<in> set (A @ [x]). 0 \<le> i_size v"
        using pos unfolding Ax .
      ultimately show ?thesis using keep_fit_drop_last unfolding rb(2) Ax by simp
    qed
    ultimately show ?thesis using less.hyps [OF rb(3,1)] less.prems(2,3) rb(4,5) by simp
  qed
qed

lemma mem_insert_spec:
  assumes "wf_core c" "i_key v \<notin> set (lru_keys c)" "item_ok v"
    "i_size v \<le> m_maxBytes c" "m_bytes c \<le> m_maxBytes c"
  shows "wf_core (mem_insert v c)" and "abs_mem (mem_insert v c) = v # abs_mem c"
proof -
  have none: "m_items c (i_key v) = None"
    using assms(1,2) by (simp add: wf_core_items_None)
  have fresh: "(m_next c, u) \<notin> set (m_lru c)" for u
    using assms(1) by (auto simp: wf_core_def)
  have bytes: "m_bytes c = lru_bytes (m_lru c)" and max: "m_maxBytes c \<le> 4611686018427387903"
    using assms(1) by (simp_all add: wf_core_def)
  have nn: "0 \<le> lru_bytes (m_lru c)"
    by (rule lru_bytes_nonneg) (auto dest: wf_core_item_ok [OF assms(1)])
  have total: "m_bytes c + i_size v \<le> max_int64" "min_int64 \<le> m_bytes c + i_size v"
    using assms(4,5) max nn bytes item_ok_pos [OF assms(3)]
    by (simp_all add: max_int64_def min_int64_def)
  show "abs_mem (mem_insert v c) = v # abs_mem c" by (simp add: abs_mem_def mem_insert_def)
  have keys: "i_key u \<noteq> i_key v" if "(e, u) \<in> set (m_lru c)" for e u
    using that assms(2) by (force simp: lru_keys_def)
  show "wf_core (mem_insert v c)"
    using assms(1,2,3) fresh total max nn bytes keys none
    unfolding wf_core_def
    by (auto simp: mem_insert_def lru_keys_def al_keys_map less_Suc_eq max_int64_def
        min_int64_def image_iff) blast
qed

lemma spec_find_abs:
  assumes "wf_core c"
  shows "spec_find k (abs_mem c) = Some v \<longleftrightarrow>
    (\<exists>el. m_items c k = Some el \<and> al_get (m_lru c) el = Some v)"
    and "spec_find k (abs_mem c) = None \<longleftrightarrow> m_items c k = None"
proof -
  have dk: "distinct (map i_key (abs_mem c))"
    using assms by (simp add: wf_core_def lru_keys_def abs_mem_def comp_def)
  have find_iff: "find (\<lambda>u. i_key u = k) A = Some v \<longleftrightarrow> v \<in> set A \<and> i_key v = k"
    if "distinct (map i_key A)" for A using that by (induction A) auto
  have none_iff: "find (\<lambda>u. i_key u = k) A = None \<longleftrightarrow> k \<notin> i_key ` set A" for A
    by (induction A) auto
  show "spec_find k (abs_mem c) = None \<longleftrightarrow> m_items c k = None"
    using wf_core_items_None [OF assms, of k]
    by (auto simp: spec_find_def none_iff lru_keys_def abs_mem_def image_comp)
  show "spec_find k (abs_mem c) = Some v \<longleftrightarrow>
    (\<exists>el. m_items c k = Some el \<and> al_get (m_lru c) el = Some v)"
  proof
    assume "spec_find k (abs_mem c) = Some v"
    then obtain el where "(el, v) \<in> set (m_lru c)" "i_key v = k"
      using find_iff [OF dk] by (auto simp: spec_find_def abs_mem_def)
    then show "\<exists>el. m_items c k = Some el \<and> al_get (m_lru c) el = Some v"
      using assms by (metis wf_core_def al_get_set_iff)
  next
    assume "\<exists>el. m_items c k = Some el \<and> al_get (m_lru c) el = Some v"
    then obtain el where el: "m_items c k = Some el" "al_get (m_lru c) el = Some v" by blast
    from assms el(1) obtain u where "al_get (m_lru c) el = Some u" "(el, u) \<in> set (m_lru c)"
      "i_key u = k" by (rule wf_core_lookup)
    with el show "spec_find k (abs_mem c) = Some v"
      using find_iff [OF dk] by (force simp: spec_find_def abs_mem_def)
  qed
qed

lemma mem_touch_spec:
  assumes "wf_core c" "(el, v) \<in> set (m_lru c)"
  shows "wf_core (c\<lparr>m_lru := (el, v) # al_del el (m_lru c)\<rparr>)"
    and "abs_mem (c\<lparr>m_lru := (el, v) # al_del el (m_lru c)\<rparr>) =
         v # spec_remove (i_key v) (abs_mem c)"
    and "length ((el, v) # al_del el (m_lru c)) = length (m_lru c)"
proof -
  have dk: "distinct (map fst (m_lru c))" and ds: "distinct (map (i_key \<circ> snd) (m_lru c))"
    using assms(1) by (auto simp: wf_core_def al_keys_map lru_keys_def)
  have by_key: "al_del el (m_lru c) = filter (\<lambda>p. i_key (snd p) \<noteq> i_key v) (m_lru c)"
    by (rule al_del_by_key [OF assms])
  have bytes: "lru_bytes (al_del el (m_lru c)) = lru_bytes (m_lru c) - i_size v"
    using filter_removes_one [OF dk assms(2), of "i_size \<circ> snd"]
    by (simp add: lru_bytes_def al_del_def)
  have set_eq: "set ((el, v) # al_del el (m_lru c)) = set (m_lru c)"
    using assms(2) dk by (auto simp: set_al_del dest: eq_key_imp_eq_value)
  show len: "length ((el, v) # al_del el (m_lru c)) = length (m_lru c)"
    using filter_removes_one [OF dk assms(2), of "\<lambda>_. 1"]
    by (simp add: al_del_def sum_list_triv)
  show "abs_mem (c\<lparr>m_lru := (el, v) # al_del el (m_lru c)\<rparr>) =
         v # spec_remove (i_key v) (abs_mem c)"
    by (simp add: by_key abs_mem_def spec_remove_def filter_map comp_def)
  have "distinct (map fst ((el, v) # al_del el (m_lru c)))"
    using dk by (auto simp: al_del_def distinct_map_filter)
  moreover have "distinct (map (i_key \<circ> snd) ((el, v) # al_del el (m_lru c)))"
    using ds by (auto simp: by_key distinct_map_filter)
  ultimately show "wf_core (c\<lparr>m_lru := (el, v) # al_del el (m_lru c)\<rparr>)"
    using assms(1) bytes set_eq unfolding wf_core_def lru_keys_def al_keys_map
    by (simp del: set_simps list.map)
qed

lemma spec_remove_bounds:
  assumes "\<forall>v \<in> set A. 0 \<le> i_size v"
  shows "length (spec_remove k A) \<le> length A" "items_bytes (spec_remove k A) \<le> items_bytes A"
proof -
  show "length (spec_remove k A) \<le> length A" by (simp add: spec_remove_def)
  show "items_bytes (spec_remove k A) \<le> items_bytes A"
    using assms by (induction A) (auto simp: items_bytes_def spec_remove_def)
qed

lemma within_bounds_abs:
  "wf_core c \<Longrightarrow> within_bounds c \<longleftrightarrow>
     int (length (abs_mem c)) \<le> max 0 (m_maxItems c) \<and>
     items_bytes (abs_mem c) \<le> max 0 (m_maxBytes c)"
  by (simp add: within_bounds_def wf_core_def lru_bytes_abs) (simp add: abs_mem_def)

lemma set_lru_keys: "set (lru_keys c) = i_key ` set (abs_mem c)"
  by (simp add: lru_keys_def abs_mem_def image_comp)

lemma mem_remove_wf:
  assumes "wf_mem c" "(el, v) \<in> set (m_lru c)"
  shows "wf_mem (mem_remove el c)"
    and "abs_mem (mem_remove el c) = spec_remove (i_key v) (abs_mem c)"
    and "m_maxBytes (mem_remove el c) = m_maxBytes c"
    and "m_maxItems (mem_remove el c) = m_maxItems c"
proof -
  have wf: "wf_core c" and bounds: "within_bounds c" using assms(1) by (simp_all add: wf_mem_def)
  note spec = mem_remove_spec [OF wf assms(2)]
  have pos: "\<forall>v \<in> set (abs_mem c). 0 \<le> i_size v" using wf_core_abs_pos [OF wf] by blast
  have "within_bounds (mem_remove el c)"
    using bounds spec_remove_bounds [OF pos, of "i_key v"]
    unfolding within_bounds_abs [OF wf] within_bounds_abs [OF spec(1)] spec(2,3,4)
    by linarith
  with spec show "wf_mem (mem_remove el c)"
    and "abs_mem (mem_remove el c) = spec_remove (i_key v) (abs_mem c)"
    and "m_maxBytes (mem_remove el c) = m_maxBytes c"
    and "m_maxItems (mem_remove el c) = m_maxItems c"
    by (simp_all add: wf_mem_def)
qed

lemma mem_Get_refines:
  assumes "wf_mem c" "mem_Get False now k c = (r, c')"
  shows "wf_mem c'" and "spec_Get now k (abs_mem c) = (r, abs_mem c')"
    and "m_maxBytes c' = m_maxBytes c" and "m_maxItems c' = m_maxItems c"
proof -
  have wf: "wf_core c" using assms(1) by (simp add: wf_mem_def)
  have "wf_mem c' \<and> spec_Get now k (abs_mem c) = (r, abs_mem c') \<and>
      m_maxBytes c' = m_maxBytes c \<and> m_maxItems c' = m_maxItems c"
  proof (cases "m_items c k")
    case None
    then have "spec_find k (abs_mem c) = None" using spec_find_abs(2) [OF wf] by simp
    with None assms show ?thesis by (simp add: mem_Get_def spec_Get_def)
  next
    case (Some el)
    then obtain v where v: "al_get (m_lru c) el = Some v" "(el, v) \<in> set (m_lru c)" "i_key v = k"
      using wf_core_lookup [OF wf] by metis
    have found: "spec_find k (abs_mem c) = Some v"
      using spec_find_abs(1) [OF wf] Some v(1) by blast
    show ?thesis
    proof (cases "now < i_expires v")
      case False
      with Some v found assms(2) mem_remove_wf [OF assms(1) v(2)] show ?thesis
        by (auto simp: mem_Get_def spec_Get_def)
    next
      case True
      note t = mem_touch_spec [OF wf v(2)]
      from True Some v(1) assms(2) have c': "c' = c\<lparr>m_lru := (el, v) # al_del el (m_lru c)\<rparr>"
        and r: "r = Some (i_entry v)" by (auto simp: mem_Get_def)
      have "within_bounds c'"
        using assms(1) t(3) by (simp add: c' wf_mem_def within_bounds_def)
      with t True found v(3) show ?thesis by (simp add: c' r wf_mem_def spec_Get_def)
    qed
  qed
  then show "wf_mem c'" and "spec_Get now k (abs_mem c) = (r, abs_mem c')"
    and "m_maxBytes c' = m_maxBytes c" and "m_maxItems c' = m_maxItems c" by simp_all
qed

text \<open>The item that \<open>Set\<close> builds.\<close>

definition set_item :: "time \<Rightarrow> string \<Rightarrow> entry \<Rightarrow> duration \<Rightarrow> memory \<Rightarrow> item" where
  "set_item now k e ttl c =
     (let e' = mem_stored_entry now k e c
      in \<lparr>i_key = k, i_entry = e', i_expires = now + ttl, i_size = entrySize k e'\<rparr>)"

definition set_accepts :: "bool \<Rightarrow> string \<Rightarrow> duration \<Rightarrow> memory \<Rightarrow> bool" where
  "set_accepts cancelled k ttl c \<longleftrightarrow>
     \<not> cancelled \<and> k \<noteq> [] \<and> 0 < ttl \<and> 0 < m_maxBytes c \<and> 0 < m_maxItems c"

lemma mem_Set_refines:
  assumes "wf_mem c"
  shows "\<exists>c'. mem_Set x now k e ttl c = Some c' \<and> wf_mem c' \<and>
    m_maxBytes c' = m_maxBytes c \<and> m_maxItems c' = m_maxItems c \<and>
    abs_mem c' =
      (if set_accepts x k ttl c
       then spec_Set (m_maxItems c) (m_maxBytes c) (set_item now k e ttl c) (abs_mem c)
       else abs_mem c)"
proof (cases "set_accepts x k ttl c")
  case False
  then have "mem_Set x now k e ttl c = Some c" by (auto simp: mem_Set_def set_accepts_def)
  with assms False show ?thesis by simp
next
  case True
  let ?v = "set_item now k e ttl c"
  have wf: "wf_core c" and bounds: "within_bounds c" using assms by (simp_all add: wf_mem_def)
  have v: "i_key ?v = k" "item_ok ?v"
    using True by (simp_all add: set_item_def Let_def item_ok_def set_accepts_def)
  define c1 where "c1 = (case m_items c k of Some old \<Rightarrow> mem_remove old c | None \<Rightarrow> c)"
  have set_eq: "mem_Set x now k e ttl c =
      (if i_size ?v > m_maxBytes c then Some c else mem_evict (mem_insert ?v c1))"
    using True by (simp add: mem_Set_def set_accepts_def set_item_def Let_def c1_def)
  show ?thesis
  proof (cases "i_size ?v > m_maxBytes c")
    case True
    with \<open>set_accepts x k ttl c\<close> assms set_eq show ?thesis by (simp add: spec_Set_def)
  next
    case False
    have c1: "wf_mem c1 \<and> abs_mem c1 = spec_remove k (abs_mem c) \<and>
        m_maxBytes c1 = m_maxBytes c \<and> m_maxItems c1 = m_maxItems c"
    proof (cases "m_items c k")
      case None
      then have "k \<notin> set (lru_keys c)" using wf_core_items_None [OF wf] by simp
      then have "spec_remove k (abs_mem c) = abs_mem c"
        by (auto simp: spec_remove_def set_lru_keys filter_id_conv)
      with None assms show ?thesis by (simp add: c1_def)
    next
      case (Some old)
      then obtain u where u: "(old, u) \<in> set (m_lru c)" "i_key u = k"
        using wf_core_lookup [OF wf] by metis
      with mem_remove_wf [OF assms u(1)] Some show ?thesis by (simp add: c1_def)
    qed
    then have wf1: "wf_core c1" and b1: "within_bounds c1" by (simp_all add: wf_mem_def)
    have absent: "i_key ?v \<notin> set (lru_keys c1)"
      using c1 v(1) by (auto simp: set_lru_keys spec_remove_def)
    have "m_bytes c1 \<le> m_maxBytes c1"
      using b1 c1 True by (auto simp: within_bounds_def set_accepts_def)
    note ins = mem_insert_spec [OF wf1 absent v(2) _ this]
    have fits: "i_size ?v \<le> m_maxBytes c1" using False c1 by simp
    have maxes: "m_maxItems (mem_insert ?v c1) = m_maxItems c"
      "m_maxBytes (mem_insert ?v c1) = m_maxBytes c"
      using c1 by (simp_all add: mem_insert_def)
    obtain c' where "mem_evict (mem_insert ?v c1) = Some c'" "wf_core c'" "within_bounds c'"
      "abs_mem c' = keep_fit (nat (m_maxItems c)) (m_maxBytes c) (abs_mem (mem_insert ?v c1))"
      "m_maxBytes c' = m_maxBytes c" "m_maxItems c' = m_maxItems c"
      using mem_evict_spec [OF ins(1) [OF fits]] True unfolding maxes
      by (auto simp: set_accepts_def)
    with set_eq False True c1 ins(2) [OF fits] v(1) show ?thesis
      by (simp add: wf_mem_def spec_Set_def)
  qed
qed

lemma mem_Delete_refines:
  assumes "wf_mem c"
  shows "wf_mem (mem_Delete x k c)"
    and "abs_mem (mem_Delete x k c) = (if x then abs_mem c else spec_remove k (abs_mem c))"
    and "m_maxBytes (mem_Delete x k c) = m_maxBytes c"
    and "m_maxItems (mem_Delete x k c) = m_maxItems c"
proof -
  have wf: "wf_core c" using assms by (simp add: wf_mem_def)
  have "wf_mem (mem_Delete x k c) \<and> abs_mem (mem_Delete x k c) =
      (if x then abs_mem c else spec_remove k (abs_mem c)) \<and>
      m_maxBytes (mem_Delete x k c) = m_maxBytes c \<and> m_maxItems (mem_Delete x k c) = m_maxItems c"
  proof (cases "m_items c k")
    case None
    then have "spec_remove k (abs_mem c) = abs_mem c"
      using wf_core_items_None [OF wf, of k]
      by (auto simp: spec_remove_def set_lru_keys filter_id_conv)
    with None assms show ?thesis by (simp add: mem_Delete_def)
  next
    case (Some el)
    then obtain v where v: "(el, v) \<in> set (m_lru c)" "i_key v = k"
      using wf_core_lookup [OF wf] by metis
    with Some assms mem_remove_wf [OF assms v(1)] show ?thesis by (simp add: mem_Delete_def)
  qed
  then show "wf_mem (mem_Delete x k c)"
    and "abs_mem (mem_Delete x k c) = (if x then abs_mem c else spec_remove k (abs_mem c))"
    and "m_maxBytes (mem_Delete x k c) = m_maxBytes c"
    and "m_maxItems (mem_Delete x k c) = m_maxItems c" by simp_all
qed

lemma mem_invalidate_walk_spec:
  assumes "wf_mem c" "distinct (map fst L)" "set L \<subseteq> set (m_lru c)"
  shows "wf_mem (mem_invalidate_walk ts L c) \<and>
    m_lru (mem_invalidate_walk ts L c) =
      filter (\<lambda>p. \<not> (p \<in> set L \<and> hasTag (e_tags (i_entry (snd p))) ts)) (m_lru c) \<and>
    m_maxBytes (mem_invalidate_walk ts L c) = m_maxBytes c \<and>
    m_maxItems (mem_invalidate_walk ts L c) = m_maxItems c"
  using assms
proof (induction L arbitrary: c)
  case (Cons p L)
  obtain el v where p: "p = (el, v)" by fastforce
  with Cons.prems have mem: "(el, v) \<in> set (m_lru c)" by simp
  show ?case
  proof (cases "hasTag (e_tags (i_entry v)) ts")
    case False
    with Cons p show ?thesis by (auto intro: filter_cong)
  next
    case True
    have wf: "wf_core c" using Cons.prems by (simp add: wf_mem_def)
    have dk: "distinct (map fst (m_lru c))" using wf by (simp add: wf_core_def al_keys_map)
    note rem = mem_remove_wf [OF Cons.prems(1) mem] mem_remove_spec(5) [OF wf mem]
    have sub: "set L \<subseteq> set (m_lru (mem_remove el c))"
      using Cons.prems p unfolding rem(5) set_al_del by force
    have unique: "(el, u) \<in> set (m_lru c) \<Longrightarrow> u = v" for u
      using dk mem by (metis eq_key_imp_eq_value)
    have step: "(fst q \<noteq> el \<and> \<not> (q \<in> set L \<and> hasTag (e_tags (i_entry (snd q))) ts)) =
        (\<not> (q \<in> set (p # L) \<and> hasTag (e_tags (i_entry (snd q))) ts))"
      if "q \<in> set (m_lru c)" for q
    proof (cases "fst q = el")
      case eq: True
      then have "q = p" using that unique [of "snd q"] p by (cases q) simp
      with True p show ?thesis by simp
    next
      case False
      then have "q \<noteq> p" using p by auto
      with False show ?thesis by simp
    qed
    have "filter (\<lambda>p. \<not> (p \<in> set L \<and> hasTag (e_tags (i_entry (snd p))) ts)) (al_del el (m_lru c)) =
        filter (\<lambda>q. \<not> (q \<in> set (p # L) \<and> hasTag (e_tags (i_entry (snd q))) ts)) (m_lru c)"
      unfolding al_del_def filter_filter by (rule filter_cong [OF refl step])
    with Cons.IH [OF rem(1) _ sub] Cons.prems(2) True p rem show ?thesis by simp
  qed
qed simp

lemma mem_Invalidate_refines:
  assumes "wf_mem c"
  shows "wf_mem (mem_Invalidate x ts c)"
    and "abs_mem (mem_Invalidate x ts c) =
      (if x then abs_mem c else filter (\<lambda>v. \<not> hasTag (e_tags (i_entry v)) ts) (abs_mem c))"
    and "m_maxBytes (mem_Invalidate x ts c) = m_maxBytes c"
    and "m_maxItems (mem_Invalidate x ts c) = m_maxItems c"
proof -
  have dk: "distinct (map fst (rev (m_lru c)))"
    using assms by (simp add: wf_mem_def wf_core_def al_keys_map rev_map [symmetric])
  have "filter (\<lambda>p. \<not> (p \<in> set (rev (m_lru c)) \<and> hasTag (e_tags (i_entry (snd p))) ts)) (m_lru c) =
      filter (\<lambda>p. \<not> hasTag (e_tags (i_entry (snd p))) ts) (m_lru c)"
    by (rule filter_cong) auto
  with mem_invalidate_walk_spec [OF assms dk, of ts]
  have "wf_mem (mem_Invalidate x ts c) \<and> abs_mem (mem_Invalidate x ts c) =
      (if x then abs_mem c else filter (\<lambda>v. \<not> hasTag (e_tags (i_entry v)) ts) (abs_mem c)) \<and>
      m_maxBytes (mem_Invalidate x ts c) = m_maxBytes c \<and>
      m_maxItems (mem_Invalidate x ts c) = m_maxItems c"
    using assms
    by (auto simp: mem_Invalidate_def abs_mem_def filter_map comp_def hasTag_def list_ex_iff)
  then show "wf_mem (mem_Invalidate x ts c)"
    and "abs_mem (mem_Invalidate x ts c) =
      (if x then abs_mem c else filter (\<lambda>v. \<not> hasTag (e_tags (i_entry v)) ts) (abs_mem c))"
    and "m_maxBytes (mem_Invalidate x ts c) = m_maxBytes c"
    and "m_maxItems (mem_Invalidate x ts c) = m_maxItems c" by simp_all
qed

lemma mem_Close_wf: "wf_mem c \<Longrightarrow> wf_mem (mem_Close c) \<and> abs_mem (mem_Close c) = []"
  by (simp add: wf_mem_def wf_core_def within_bounds_def mem_Close_def abs_mem_def lru_keys_def)

lemma newMemory_wf: "maxBytes \<le> 4611686018427387903 \<Longrightarrow> wf_mem (newMemory maxBytes maxItems)"
  by (simp add: wf_mem_def wf_core_def within_bounds_def newMemory_def lru_keys_def)

subsection \<open>The states of a cache in use\<close>

inductive mem_reachable :: "int \<Rightarrow> int \<Rightarrow> memory \<Rightarrow> bool" for maxBytes maxItems where
  new: "mem_reachable maxBytes maxItems (newMemory maxBytes maxItems)"
| get: "mem_reachable maxBytes maxItems c \<Longrightarrow> mem_Get x now k c = (r, c') \<Longrightarrow>
    mem_reachable maxBytes maxItems c'"
| set: "mem_reachable maxBytes maxItems c \<Longrightarrow> mem_Set x now k e ttl c = Some c' \<Longrightarrow>
    mem_reachable maxBytes maxItems c'"
| delete: "mem_reachable maxBytes maxItems c \<Longrightarrow>
    mem_reachable maxBytes maxItems (mem_Delete x k c)"
| invalidate: "mem_reachable maxBytes maxItems c \<Longrightarrow>
    mem_reachable maxBytes maxItems (mem_Invalidate x ts c)"
| close: "mem_reachable maxBytes maxItems c \<Longrightarrow> mem_reachable maxBytes maxItems (mem_Close c)"

lemma mem_Get_cancelled: "mem_Get True now k c = (None, c)"
  by (simp add: mem_Get_def)

lemma mem_reachable_inv:
  assumes "mem_reachable maxBytes maxItems c" "maxBytes \<le> 4611686018427387903"
  shows "wf_mem c \<and> m_maxBytes c = maxBytes \<and> m_maxItems c = maxItems"
  using assms(1)
proof induction
  case new
  show ?case using newMemory_wf [OF assms(2)] by (simp add: newMemory_def)
next
  case (get c x now k r c')
  then show ?case by (cases x) (auto simp: mem_Get_cancelled dest: mem_Get_refines)
next
  case (set c x now k e ttl c')
  then show ?case using mem_Set_refines [of c x now k e ttl] by auto
next
  case (delete c x k)
  then show ?case by (simp add: mem_Delete_refines)
next
  case (invalidate c x ts)
  then show ?case by (simp add: mem_Invalidate_refines)
next
  case (close c)
  then show ?case using mem_Close_wf [of c] by (simp add: mem_Close_def)
qed

subsection \<open>The cache as its clients see it\<close>

text \<open>
  The contract behind the interface \<open>Cache\<close>: which entries a lookup may return. \<open>view\<close> is
  the set of entries that are addressable, expired or not. Everything addressable was handed
  to \<open>Set\<close> under that very key, perhaps without its body; an invalidated tag is gone.
\<close>

definition stored_variant :: "entry \<Rightarrow> entry \<Rightarrow> bool" where
  "stored_variant e e' \<longleftrightarrow>
     (\<exists>now. e' = e\<lparr>e_stored := now\<rparr> \<or> e' = e\<lparr>e_stored := now, e_body := [], e_omitted := True\<rparr>)"

locale response_cache =
  fixes cget :: "time \<Rightarrow> string \<Rightarrow> 'c \<Rightarrow> entry option \<times> 'c"
    and cset :: "time \<Rightarrow> string \<Rightarrow> entry \<Rightarrow> duration \<Rightarrow> 'c \<Rightarrow> 'c"
    and cinvalidate :: "string list \<Rightarrow> 'c \<Rightarrow> 'c"
    and cinv :: "'c \<Rightarrow> bool"
    and view :: "'c \<Rightarrow> string \<Rightarrow> entry option"
  assumes get_inv: "cinv c \<Longrightarrow> cget now k c = (r, c') \<Longrightarrow> cinv c'"
    and set_inv: "cinv c \<Longrightarrow> cinv (cset now k e ttl c)"
    and invalidate_inv: "cinv c \<Longrightarrow> cinv (cinvalidate ts c)"
    and get_found: "cinv c \<Longrightarrow> cget now k c = (Some e, c') \<Longrightarrow> view c k = Some e"
    and get_view: "cinv c \<Longrightarrow> cget now k c = (r, c') \<Longrightarrow> view c' k' = Some e \<Longrightarrow> view c k' = Some e"
    and set_view: "cinv c \<Longrightarrow> view (cset now k e ttl c) k' = Some e' \<Longrightarrow>
        view c k' = Some e' \<or> k' = k \<and> stored_variant e e'"
    and invalidate_view: "cinv c \<Longrightarrow> view (cinvalidate ts c) k = Some e \<Longrightarrow>
        view c k = Some e \<and> \<not> hasTag (e_tags e) ts"
begin

text \<open>
  A property of key and entry that holds of everything passed to \<open>Set\<close>, and that survives
  dropping the body, holds of everything a lookup returns.
\<close>

definition all_entries :: "(string \<Rightarrow> entry \<Rightarrow> bool) \<Rightarrow> 'c \<Rightarrow> bool" where
  "all_entries P c \<longleftrightarrow> cinv c \<and> (\<forall>k e. view c k = Some e \<longrightarrow> P k e)"

lemma all_entries_get:
  "all_entries P c \<Longrightarrow> cget now k c = (r, c') \<Longrightarrow> all_entries P c'"
  unfolding all_entries_def using get_inv get_view by blast

lemma all_entries_found:
  "all_entries P c \<Longrightarrow> cget now k c = (Some e, c') \<Longrightarrow> P k e"
  unfolding all_entries_def using get_found by blast

lemma all_entries_set:
  "all_entries P c \<Longrightarrow> (\<And>e'. stored_variant e e' \<Longrightarrow> P k e') \<Longrightarrow> all_entries P (cset now k e ttl c)"
  unfolding all_entries_def using set_inv set_view by blast

lemma all_entries_invalidate:
  "all_entries P c \<Longrightarrow> all_entries P (cinvalidate ts c)"
  unfolding all_entries_def using invalidate_inv invalidate_view by blast

lemma all_entries_untagged:
  "all_entries P c \<Longrightarrow> all_entries (\<lambda>k e. P k e \<and> \<not> hasTag (e_tags e) ts) (cinvalidate ts c)"
  unfolding all_entries_def using invalidate_inv invalidate_view by blast

end

text \<open>
  \<open>Set\<close> as a total step: \<open>mem_Set_refines\<close> shows that it returns on every well-formed cache.
\<close>

definition cache_Set :: "time \<Rightarrow> string \<Rightarrow> entry \<Rightarrow> duration \<Rightarrow> memory \<Rightarrow> memory" where
  "cache_Set now k e ttl c = (case mem_Set False now k e ttl c of Some c' \<Rightarrow> c' | None \<Rightarrow> c)"

definition mem_view :: "memory \<Rightarrow> string \<Rightarrow> entry option" where
  "mem_view c k = map_option i_entry (spec_find k (abs_mem c))"

lemma spec_find_Some: "spec_find k A = Some v \<Longrightarrow> v \<in> set A \<and> i_key v = k"
  by (auto simp: spec_find_def find_Some_iff)

lemma spec_find_Some_iff:
  "distinct (map i_key A) \<Longrightarrow> spec_find k A = Some v \<longleftrightarrow> v \<in> set A \<and> i_key v = k"
  unfolding spec_find_def by (induction A) auto

lemma spec_find_filter:
  assumes "distinct (map i_key A)"
  shows "spec_find k (filter P A) = Some v \<longleftrightarrow> spec_find k A = Some v \<and> P v"
  using assms by (auto simp: spec_find_Some_iff distinct_map_filter)

lemma spec_find_remove:
  "spec_find k (spec_remove k' A) = (if k = k' then None else spec_find k A)"
  unfolding spec_find_def spec_remove_def by (induction A) auto

lemma spec_find_Cons: "spec_find k (v # A) = (if i_key v = k then Some v else spec_find k A)"
  by (simp add: spec_find_def)

lemma spec_find_prefix: "spec_find k (keep_fit n b A) = Some v \<Longrightarrow> spec_find k A = Some v"
proof -
  have "find P B = Some v \<Longrightarrow> find P (B @ C) = Some v" for P B C by (induction B) auto
  then show "spec_find k (keep_fit n b A) = Some v \<Longrightarrow> spec_find k A = Some v"
    unfolding spec_find_def by (metis keep_fit_prefix)
qed

lemma wf_mem_distinct: "wf_mem c \<Longrightarrow> distinct (map i_key (abs_mem c))"
  by (simp add: wf_mem_def wf_core_def lru_keys_def abs_mem_def comp_def)

lemma cache_Set_refines:
  assumes "wf_mem c"
  shows "wf_mem (cache_Set now k e ttl c)"
    and "abs_mem (cache_Set now k e ttl c) =
      (if set_accepts False k ttl c
       then spec_Set (m_maxItems c) (m_maxBytes c) (set_item now k e ttl c) (abs_mem c)
       else abs_mem c)"
  using mem_Set_refines [OF assms, of False now k e ttl] by (auto simp: cache_Set_def)

lemma set_item_variant: "stored_variant e (i_entry (set_item now k e ttl c))"
  unfolding stored_variant_def
  by (rule exI [of _ now]) (simp add: set_item_def mem_stored_entry_def Let_def)

lemma mem_view_get:
  assumes "wf_mem c" "mem_Get False now k c = (r, c')"
  shows "r = Some e \<Longrightarrow> mem_view c k = Some e"
    and "mem_view c' k' = Some e' \<Longrightarrow> mem_view c k' = Some e'"
proof -
  have spec: "spec_Get now k (abs_mem c) = (r, abs_mem c')"
    using mem_Get_refines [OF assms] by simp
  then show "r = Some e \<Longrightarrow> mem_view c k = Some e"
    by (auto simp: spec_Get_def mem_view_def split: option.splits if_splits)
  have front: "spec_find k' (v # spec_remove k A) = spec_find k' A"
    if "spec_find k A = Some v" for v A
    using that spec_find_Some [OF that] spec_find_remove [of k' k A]
    by (auto simp: spec_find_def)
  show "mem_view c k' = Some e'" if "mem_view c' k' = Some e'"
    using spec that
    by (auto simp: spec_Get_def mem_view_def spec_find_remove front
        split: option.splits if_splits dest!: sym [of _ "abs_mem c'"])
qed

lemma mem_view_set:
  assumes "wf_mem c" "mem_view (cache_Set now k e ttl c) k' = Some e'"
  shows "mem_view c k' = Some e' \<or> k' = k \<and> stored_variant e e'"
proof -
  let ?v = "set_item now k e ttl c"
  have key: "i_key ?v = k" by (simp add: set_item_def Let_def)
  from assms(2) obtain u where u: "spec_find k' (abs_mem (cache_Set now k e ttl c)) = Some u"
    "e' = i_entry u" by (auto simp: mem_view_def)
  have "spec_find k' (abs_mem c) = Some u \<or> k' = k \<and> u = ?v"
  proof (cases "set_accepts False k ttl c \<and> \<not> m_maxBytes c < i_size ?v")
    case False
    with u(1) show ?thesis
      by (cases "set_accepts False k ttl c") (simp_all add: cache_Set_refines [OF assms(1)] spec_Set_def)
  next
    case True
    with u(1) have "spec_find k' (keep_fit (nat (m_maxItems c)) (m_maxBytes c)
        (?v # spec_remove k (abs_mem c))) = Some u"
      by (simp add: cache_Set_refines [OF assms(1)] spec_Set_def key del: keep_fit.simps)
    then have "spec_find k' (?v # spec_remove k (abs_mem c)) = Some u"
      by (rule spec_find_prefix)
    then show ?thesis by (auto simp: spec_find_Cons spec_find_remove key split: if_splits)
  qed
  then show ?thesis using u set_item_variant by (auto simp: mem_view_def)
qed

lemma mem_view_invalidate:
  assumes "wf_mem c" "mem_view (mem_Invalidate False ts c) k = Some e"
  shows "mem_view c k = Some e \<and> \<not> hasTag (e_tags e) ts"
  using assms(2) spec_find_filter [OF wf_mem_distinct [OF assms(1)]]
  by (auto simp: mem_view_def mem_Invalidate_refines [OF assms(1)])

interpretation mem_cache: response_cache "mem_Get False" cache_Set "mem_Invalidate False" wf_mem mem_view
proof unfold_locales
qed (auto intro: mem_Get_refines cache_Set_refines mem_Invalidate_refines mem_view_get
     dest: mem_view_get mem_view_set mem_view_invalidate)

subsection \<open>Properties\<close>

text \<open>C14: In every cache that the operations can produce, whatever the sequence of lookups,
  insertions, deletions, invalidations and closings, no two entries share a key, the byte counter
  that \<open>Stats\<close> reports is the sum of the sizes of the stored entries, and both the entry count
  and the byte count stay within the configured limits.\<close>

theorem cache_always_bounded:
  assumes "mem_reachable maxBytes maxItems c" and "maxBytes \<le> 4611686018427387903"
  shows "distinct (map i_key (abs_mem c)) \<and>
    fst (mem_Stats c) = sum_list (map (\<lambda>v. entrySize (i_key v) (i_entry v)) (abs_mem c)) \<and>
    fst (mem_Stats c) \<le> max 0 maxBytes \<and> int (snd (mem_Stats c)) \<le> max 0 maxItems"
proof -
  have inv: "wf_mem c" "m_maxBytes c = maxBytes" "m_maxItems c = maxItems"
    using mem_reachable_inv [OF assms] by simp_all
  then have wf: "wf_core c" by (simp add: wf_mem_def)
  have "map i_size (abs_mem c) = map (\<lambda>v. entrySize (i_key v) (i_entry v)) (abs_mem c)"
    using wf_core_item_ok [OF wf] by (auto simp: abs_mem_def item_ok_def)
  with inv wf lru_bytes_abs [of c] wf_mem_distinct [OF inv(1)] show ?thesis
    by (simp add: wf_mem_def within_bounds_def mem_Stats_def items_bytes_def wf_core_def)
qed

text \<open>C16: \<open>Set\<close> returns on every cache the operations can produce (its eviction loop ends), and
  does what an LRU cache promises: an accepted entry goes to the front in place of any older one
  under its key, and the longest prefix of the recency order that fits the item limit and the
  byte limit is kept; an entry too big even without its body changes nothing.\<close>

theorem cache_Set_is_lru:
  assumes "mem_reachable maxBytes maxItems c" and "maxBytes \<le> 4611686018427387903"
  shows "\<exists>c'. mem_Set cancelled now k e ttl c = Some c' \<and>
    mem_reachable maxBytes maxItems c' \<and>
    abs_mem c' =
      (if \<not> cancelled \<and> k \<noteq> [] \<and> 0 < ttl \<and> 0 < maxBytes \<and> 0 < maxItems
       then spec_Set maxItems maxBytes
              (let e' = mem_stored_entry now k e c
               in \<lparr>i_key = k, i_entry = e', i_expires = now + ttl, i_size = entrySize k e'\<rparr>)
              (abs_mem c)
       else abs_mem c)"
proof -
  have inv: "wf_mem c" "m_maxBytes c = maxBytes" "m_maxItems c = maxItems"
    using mem_reachable_inv [OF assms] by simp_all
  then obtain c' where "mem_Set cancelled now k e ttl c = Some c'" "abs_mem c' =
      (if set_accepts cancelled k ttl c
       then spec_Set (m_maxItems c) (m_maxBytes c) (set_item now k e ttl c) (abs_mem c)
       else abs_mem c)"
    using mem_Set_refines [OF inv(1)] by metis
  with assms(1) inv show ?thesis
    by (auto simp: set_accepts_def set_item_def intro: mem_reachable.set)
qed

text \<open>C17: An entry that \<open>EntryFits\<close> accepts for its body length is stored by \<open>Set\<close> with its body,
  and the next lookup returns exactly it until the entry's time to live has passed and nothing
  afterwards. An entry whose body \<open>EntryFits\<close> refuses is stored without the body and marked as
  such, or, when even that does not fit, not stored at all.\<close>

theorem cache_Get_after_Set:
  assumes "mem_reachable maxBytes maxItems c" and "maxBytes \<le> 4611686018427387903"
    and "k \<noteq> []" "0 < ttl" "0 < maxBytes" "0 < maxItems" "e_body e \<noteq> []"
    and "mem_Set False now k e ttl c = Some c'"
  shows "if mem_EntryFits k e (int (length (e_body e))) c
    then fst (mem_Get False later k c') =
           (if later < now + ttl then Some (e\<lparr>e_stored := now\<rparr>) else None)
    else mem_view c' k =
           (if entrySize k (e\<lparr>e_body := []\<rparr>) \<le> maxBytes
            then Some (e\<lparr>e_stored := now, e_body := [], e_omitted := True\<rparr>) else mem_view c k)"
proof -
  have inv: "wf_mem c" "m_maxBytes c = maxBytes" "m_maxItems c = maxItems"
    using mem_reachable_inv [OF assms(1,2)] by simp_all
  let ?v = "set_item now k e ttl c"
  have c': "wf_mem c'" "abs_mem c' = spec_Set maxItems maxBytes ?v (abs_mem c)"
    using mem_Set_refines [OF inv(1), of False now k e ttl] assms(3-8) inv
    by (auto simp: set_accepts_def)
  have fits: "mem_EntryFits k e (int (length (e_body e))) c \<longleftrightarrow> entrySize k e \<le> maxBytes"
    by (auto simp: mem_EntryFits_def entrySize_def inv Let_def)
  show ?thesis
  proof (cases "entrySize k e \<le> maxBytes")
    case True
    then have v: "?v = \<lparr>i_key = k, i_entry = e\<lparr>e_stored := now\<rparr>, i_expires = now + ttl,
        i_size = entrySize k e\<rparr>"
      by (simp add: set_item_def mem_stored_entry_def inv)
    with True c'(2) assms(6) obtain A where A: "abs_mem c' = ?v # A"
      by (auto simp: spec_Set_def)
    with v have found: "spec_find k (abs_mem c') = Some ?v" by (simp add: spec_find_Cons)
    obtain r c2 where get: "mem_Get False later k c' = (r, c2)" by fastforce
    with mem_Get_refines(2) [OF c'(1) get] found v True fits show ?thesis
      by (auto simp: spec_Get_def split: if_splits)
  next
    case False
    then have e': "mem_stored_entry now k e c = e\<lparr>e_stored := now, e_body := [], e_omitted := True\<rparr>"
      using assms(7) by (simp add: mem_stored_entry_def inv Let_def)
    have size: "entrySize k (e\<lparr>e_stored := now, e_body := [], e_omitted := True\<rparr>) =
        entrySize k (e\<lparr>e_body := []\<rparr>)" by (simp add: entrySize_def)
    have "mem_view c' k =
        (if i_size ?v \<le> maxBytes then Some (i_entry ?v) else mem_view c k)"
      using c'(2) assms(6)
      by (auto simp: mem_view_def spec_Set_def spec_find_Cons set_item_def Let_def)
    with False e' size fits show ?thesis by (simp add: set_item_def Let_def)
  qed
qed

text \<open>C19: \<open>Invalidate\<close> removes exactly the entries that carry one of the given tags, keeping the
  recency order of the others; with a cancelled context or without tags it removes nothing.\<close>

theorem cache_Invalidate_exact:
  assumes "mem_reachable maxBytes maxItems c" and "maxBytes \<le> 4611686018427387903"
  shows "abs_mem (mem_Invalidate cancelled tags c) =
    (if cancelled then abs_mem c
     else filter (\<lambda>v. set (e_tags (i_entry v)) \<inter> set tags = {}) (abs_mem c))"
proof -
  have "wf_mem c" using mem_reachable_inv [OF assms] by simp
  moreover have "(\<not> hasTag ts tags) = (set ts \<inter> set tags = {})" for ts
    by (auto simp: hasTag_def list_ex_iff)
  ultimately show ?thesis by (simp add: mem_Invalidate_refines)
qed

subsection \<open>Witnesses\<close>

definition demo_entry :: "string \<Rightarrow> string list \<Rightarrow> entry" where
  "demo_entry body tags =
     \<lparr>e_status = 200, e_header = [(''ETag'', [''a''])], e_body = body, e_omitted = False,
      e_stored = 0, e_tags = tags\<rparr>"

definition demo_cache :: memory where
  "demo_cache = cache_Set 5 ''k'' (demo_entry ''body'' [''t'']) 10 (newMemory 40 2)"

lemma newMemory_reachable_wf: "wf_mem (newMemory 40 2)"
  by (rule newMemory_wf) simp

lemma demo_cache_reachable: "mem_reachable 40 2 demo_cache"
proof -
  obtain c' where "mem_Set False 5 ''k'' (demo_entry ''body'' [''t'']) 10 (newMemory 40 2) = Some c'"
    using mem_Set_refines [OF newMemory_reachable_wf] by metis
  then show ?thesis
    by (auto simp: demo_cache_def cache_Set_def intro: mem_reachable.set mem_reachable.new)
qed

lemma demo_cache_abs:
  "abs_mem demo_cache =
     [\<lparr>i_key = ''k'', i_entry = (demo_entry ''body'' [''t''])\<lparr>e_stored := 5\<rparr>, i_expires = 15,
       i_size = 11\<rparr>]"
  unfolding demo_cache_def cache_Set_refines [OF newMemory_reachable_wf]
  by (simp add: set_accepts_def newMemory_def spec_Set_def set_item_def mem_stored_entry_def
      demo_entry_def entrySize_def header_size_def abs_mem_def spec_remove_def)

lemma cache_always_bounded_witness:
  "mem_reachable 40 2 demo_cache \<and> fst (mem_Stats demo_cache) = 11 \<and>
   fst (mem_Stats demo_cache) \<le> 40"
  using cache_always_bounded [OF demo_cache_reachable] demo_cache_reachable
  by (simp add: demo_cache_abs demo_entry_def entrySize_def header_size_def)

lemma cache_Set_is_lru_witness:
  "\<exists>c'. mem_Set False 6 ''l'' (demo_entry ''other'' []) 10 demo_cache = Some c' \<and>
     map i_key (abs_mem c') = [''l'', ''k'']"
proof -
  have max: "m_maxBytes demo_cache = 40"
    using mem_reachable_inv [OF demo_cache_reachable] by simp
  show ?thesis
    using cache_Set_is_lru [OF demo_cache_reachable, of False 6 "''l''" "demo_entry ''other'' []" 10]
    by (auto simp: demo_cache_abs max mem_stored_entry_def spec_Set_def spec_remove_def
        demo_entry_def entrySize_def header_size_def)
qed

lemma cache_Get_after_Set_witness:
  "fst (mem_Get False 7 ''l'' (cache_Set 6 ''l'' (demo_entry ''other'' []) 10 demo_cache)) =
     Some ((demo_entry ''other'' [])\<lparr>e_stored := 6\<rparr>)"
proof -
  have wf: "wf_mem demo_cache" and max: "m_maxBytes demo_cache = 40"
    using mem_reachable_inv [OF demo_cache_reachable] by simp_all
  obtain c' where c': "mem_Set False 6 ''l'' (demo_entry ''other'' []) 10 demo_cache = Some c'"
    using mem_Set_refines [OF wf] by metis
  show ?thesis
    using cache_Get_after_Set [OF demo_cache_reachable _ _ _ _ _ _ c', of 7] c'
    by (simp add: cache_Set_def mem_EntryFits_def max demo_entry_def entrySize_def header_size_def)
qed

lemma cache_Invalidate_exact_witness: "abs_mem (mem_Invalidate False [''t''] demo_cache) = []"
  using cache_Invalidate_exact [OF demo_cache_reachable, of False "[''t'']"]
  by (simp add: demo_cache_abs demo_entry_def)

end
