(* ===== verification/GoErrors.thy ===== *)
theory GoErrors
  imports Prelude
begin

text \<open>
  Error values. The sentinels are those of \<open>internal/domain/errors.go\<close>,
  \<open>internal/repository/repository.go\<close> and \<open>internal/blob/storage.go\<close>, together with the
  sentinels of the libraries the code tests with \<open>errors.Is\<close>. \<open>Wrapped\<close> is
  \<open>fmt.Errorf("...: %w", err)\<close>, \<open>Joined\<close> is \<open>errors.Join\<close>, \<open>PgError\<close> a
  \<open>*pgconn.PgError\<close> with its SQLSTATE, \<open>Panicked\<close> a panic that unwinds the handler.
  The second half of the theory is the threading of a state through calls that may fail.
\<close>

subsection \<open>Sentinels and wrapping\<close>

datatype sentinel =
    ErrInvalidArgument | ErrUnauthorized | ErrForbidden | ErrNotFound | ErrNotImplemented
  | RepoErrNotFound | RepoErrConflict | RepoErrForbidden | RepoErrInvalidArgument
  | RepoErrInternal
  | BlobErrInvalidKey | BlobErrNotFound
  | OsErrNotExist | PgxErrNoRows | ContextCanceled | ContextDeadlineExceeded
  | BcryptErrMismatch | HttpErrHandlerTimeout | HttpErrServerClosed

datatype goerr =
    Sentinel sentinel
  | Opaque string
  | PgError string
  | Panicked string
  | Wrapped string goerr
  | Joined "goerr list"

text \<open>\<open>errors.Is\<close> looks through \<open>%w\<close> wrapping and through every joined error.\<close>

fun errors_Is :: "goerr \<Rightarrow> sentinel \<Rightarrow> bool" where
  "errors_Is (Sentinel s) t = (s = t)"
| "errors_Is (Opaque m) t = False"
| "errors_Is (PgError c) t = False"
| "errors_Is (Panicked m) t = False"
| "errors_Is (Wrapped m e) t = errors_Is e t"
| "errors_Is (Joined es) t = list_ex (\<lambda>e. errors_Is e t) es"

text \<open>\<open>errors.As(err, &pgErr)\<close>: the first PostgreSQL error in the tree, by its code.\<close>

fun errors_As_pg :: "goerr \<Rightarrow> string option" and
    errors_As_pgs :: "goerr list \<Rightarrow> string option" where
  "errors_As_pg (Sentinel s) = None"
| "errors_As_pg (Opaque m) = None"
| "errors_As_pg (PgError c) = Some c"
| "errors_As_pg (Panicked m) = None"
| "errors_As_pg (Wrapped m e) = errors_As_pg e"
| "errors_As_pg (Joined es) = errors_As_pgs es"
| "errors_As_pgs [] = None"
| "errors_As_pgs (e # es) =
     (case errors_As_pg e of Some c \<Rightarrow> Some c | None \<Rightarrow> errors_As_pgs es)"

text \<open>\<open>errors.Join\<close> drops nil errors and is nil when nothing is left.\<close>

definition errors_Join :: "goerr option list \<Rightarrow> goerr option" where
  "errors_Join es = (case map the (filter (\<lambda>e. e \<noteq> None) es) of
     [] \<Rightarrow> None
   | xs \<Rightarrow> Some (Joined xs))"

lemma errors_Join_None_iff: "errors_Join es = None \<longleftrightarrow> (\<forall>e \<in> set es. e = None)"
  by (auto simp: errors_Join_def filter_empty_conv filter_eq_Cons_iff split: list.splits)

subsection \<open>Calls that may fail, threading a state\<close>

type_synonym ('w, 'a) op = "'w \<Rightarrow> (goerr + 'a) \<times> 'w"

definition ret :: "'a \<Rightarrow> ('w, 'a) op" where
  "ret a w = (Inr a, w)"

definition fail :: "goerr \<Rightarrow> ('w, 'a) op" where
  "fail e w = (Inl e, w)"

text \<open>\<open>x, err := m(); if err != nil { return err }; f(x)\<close>.\<close>

definition and_then :: "('w, 'a) op \<Rightarrow> ('a \<Rightarrow> ('w, 'b) op) \<Rightarrow> ('w, 'b) op" where
  "and_then m f w = (case m w of
     (Inl e, w') \<Rightarrow> (Inl e, w')
   | (Inr a, w') \<Rightarrow> f a w')"

text \<open>The same with the error mapped, as in \<open>return classify("...", err)\<close>.\<close>

definition map_err :: "(goerr \<Rightarrow> goerr) \<Rightarrow> ('w, 'a) op \<Rightarrow> ('w, 'a) op" where
  "map_err g m w = (case m w of
     (Inl e, w') \<Rightarrow> (Inl (g e), w')
   | (Inr a, w') \<Rightarrow> (Inr a, w'))"

lemma ret_simp [simp]: "ret a w = (Inr a, w)"
  by (simp add: ret_def)

lemma fail_simp [simp]: "fail e w = (Inl e, w)"
  by (simp add: fail_def)

lemma and_then_ok [simp]: "m w = (Inr a, w') \<Longrightarrow> and_then m f w = f a w'"
  by (simp add: and_then_def)

lemma and_then_err [simp]: "m w = (Inl e, w') \<Longrightarrow> and_then m f w = (Inl e, w')"
  by (simp add: and_then_def)

lemma and_then_InrE:
  assumes "and_then m f w = (Inr b, w2)"
  obtains a w1 where "m w = (Inr a, w1)" "f a w1 = (Inr b, w2)"
  using assms by (auto simp: and_then_def split: prod.splits sum.splits)

lemma map_err_InrE:
  assumes "map_err g m w = (Inr a, w')"
  obtains "m w = (Inr a, w')"
  using assms by (auto simp: map_err_def split: prod.splits sum.splits)

lemma map_err_ok [simp]: "m w = (Inr a, w') \<Longrightarrow> map_err g m w = (Inr a, w')"
  by (simp add: map_err_def)

lemma map_err_err [simp]: "m w = (Inl e, w') \<Longrightarrow> map_err g m w = (Inl (g e), w')"
  by (simp add: map_err_def)

text \<open>A predicate on states that an operation keeps, whatever it returns.\<close>

definition keeps :: "('w \<Rightarrow> bool) \<Rightarrow> ('w, 'a) op \<Rightarrow> bool" where
  "keeps P m \<longleftrightarrow> (\<forall>w. P w \<longrightarrow> P (snd (m w)))"

named_theorems keeps_intro "preservation of an invariant by composed operations"

lemma keepsD: "keeps P m \<Longrightarrow> P w \<Longrightarrow> m w = (r, w') \<Longrightarrow> P w'"
  unfolding keeps_def by (metis snd_conv)

lemma keepsI: "(\<And>w r w'. P w \<Longrightarrow> m w = (r, w') \<Longrightarrow> P w') \<Longrightarrow> keeps P m"
  unfolding keeps_def by (metis prod.collapse)

lemma keeps_ret [keeps_intro]: "keeps P (ret a)"
  by (simp add: keeps_def)

lemma keeps_fail [keeps_intro]: "keeps P (fail e)"
  by (simp add: keeps_def)

lemma keeps_and_then [keeps_intro]:
  "keeps P m \<Longrightarrow> (\<And>a. keeps P (f a)) \<Longrightarrow> keeps P (and_then m f)"
  by (force simp: keeps_def and_then_def split: prod.splits sum.splits)

lemma keeps_map_err [keeps_intro]: "keeps P m \<Longrightarrow> keeps P (map_err g m)"
  by (force simp: keeps_def map_err_def split: prod.splits sum.splits)

lemma keeps_if [keeps_intro]:
  "(c \<Longrightarrow> keeps P m) \<Longrightarrow> (\<not> c \<Longrightarrow> keeps P n) \<Longrightarrow> keeps P (if c then m else n)"
  by simp

lemma keeps_option [keeps_intro]:
  "(x = None \<Longrightarrow> keeps P m) \<Longrightarrow> (\<And>y. x = Some y \<Longrightarrow> keeps P (f y)) \<Longrightarrow>
   keeps P (case x of None \<Rightarrow> m | Some y \<Rightarrow> f y)"
  by (cases x) simp_all

end
