(* ===== verification/Domain.thy ===== *)
theory Domain
  imports GoErrors LruCache
begin

text \<open>
  The data types of \<open>internal/domain/models.go\<close>, the ports of
  \<open>internal/repository/repository.go\<close> and \<open>internal/blob/storage.go\<close> as records of functions
  over the state \<open>'w\<close> of the environment, and the parts of the Go library that the services
  are handed as values: readers, contexts and the library functions the model does not define.
\<close>

subsection \<open>Models\<close>

record user =
  u_ID :: string
  u_Login :: string
  u_CreatedAt :: time

record session =
  s_ID :: string
  s_UserID :: string
  s_TokenHash :: bytes
  s_CreatedAt :: time
  s_ExpiresAt :: time
  s_RevokedAt :: "time option"

text \<open>\<open>d_JSON\<close> is \<open>None\<close> for a nil \<open>json.RawMessage\<close>.\<close>

record document =
  d_ID :: string
  d_OwnerID :: string
  d_Name :: string
  d_MIME :: string
  d_IsFile :: bool
  d_IsPublic :: bool
  d_JSON :: "bytes option"
  d_StorageKey :: string
  d_SizeBytes :: int
  d_CreatedAt :: time
  d_UpdatedAt :: time
  d_Version :: int
  d_Grants :: "string list"

record documentFilter =
  f_OwnerLogin :: string
  f_Key :: string
  f_Value :: string
  f_Limit :: int

record blobCleanupTask =
  t_ID :: int
  t_StorageKey :: string
  t_Attempts :: int
  t_NextAttemptAt :: time

subsection \<open>Contexts and readers\<close>

text \<open>
  Of a \<open>context.Context\<close> the code uses whether it can be cancelled (\<open>context.Background\<close> and
  \<open>context.WithoutCancel\<close> cannot) and whether it carries the transaction of
  \<open>txContextKey\<close>.
\<close>

record ctx =
  c_cancellable :: bool
  c_tx :: bool

definition background_ctx :: ctx where
  "background_ctx = \<lparr>c_cancellable = False, c_tx = False\<rparr>"

definition request_ctx :: ctx where
  "request_ctx = \<lparr>c_cancellable = True, c_tx = False\<rparr>"

definition context_WithoutCancel :: "ctx \<Rightarrow> ctx" where
  "context_WithoutCancel c = c\<lparr>c_cancellable := False\<rparr>"

definition context_WithTimeout :: "ctx \<Rightarrow> ctx" where
  "context_WithTimeout c = c\<lparr>c_cancellable := True\<rparr>"

text \<open>An \<open>io.Reader\<close>: the bytes it delivers, then the error it ends with (\<open>None\<close> is EOF).\<close>

record reader =
  r_data :: bytes
  r_err :: "goerr option"

text \<open>\<open>io.LimitedReader\<close> reports EOF after \<open>N\<close> bytes without asking the reader again.\<close>

definition limited_reader :: "reader \<Rightarrow> int \<Rightarrow> reader" where
  "limited_reader r n =
     (if int (length (r_data r)) < n then r
      else \<lparr>r_data = take (nat n) (r_data r), r_err = None\<rparr>)"

record blob_object =
  o_Body :: "reader option"
  o_Size :: int

subsection \<open>Ports\<close>

record 'w user_repository =
  ur_Create :: "ctx \<Rightarrow> string \<Rightarrow> bytes \<Rightarrow> ('w, user) op"
  ur_ByLogin :: "ctx \<Rightarrow> string \<Rightarrow> ('w, user \<times> bytes) op"
  ur_ExistingLogins :: "ctx \<Rightarrow> string list \<Rightarrow> ('w, string list) op"

record 'w session_repository =
  sr_Create :: "ctx \<Rightarrow> string \<Rightarrow> bytes \<Rightarrow> time \<Rightarrow> ('w, session) op"
  sr_ByTokenHash :: "ctx \<Rightarrow> bytes \<Rightarrow> time \<Rightarrow> ('w, session \<times> user) op"
  sr_Revoke :: "ctx \<Rightarrow> bytes \<Rightarrow> time \<Rightarrow> ('w, unit) op"

record 'w document_repository =
  dr_Create :: "ctx \<Rightarrow> document \<Rightarrow> ('w, document) op"
  dr_ByID :: "ctx \<Rightarrow> string \<Rightarrow> ('w, document) op"
  dr_ByIDAccessible :: "ctx \<Rightarrow> string \<Rightarrow> string \<Rightarrow> ('w, document) op"
  dr_List :: "ctx \<Rightarrow> string \<Rightarrow> documentFilter \<Rightarrow> ('w, document list) op"
  dr_Delete :: "ctx \<Rightarrow> string \<Rightarrow> string \<Rightarrow> ('w, document) op"

record 'w cleanup_repository =
  cr_Claim :: "ctx \<Rightarrow> int \<Rightarrow> time \<Rightarrow> ('w, blobCleanupTask list) op"
  cr_Complete :: "ctx \<Rightarrow> int \<Rightarrow> ('w, unit) op"
  cr_CompleteByStorageKey :: "ctx \<Rightarrow> string \<Rightarrow> ('w, unit) op"
  cr_Retry :: "ctx \<Rightarrow> int \<Rightarrow> time \<Rightarrow> ('w, unit) op"

record 'w blob_storage =
  bs_Put :: "ctx \<Rightarrow> string \<Rightarrow> reader option \<Rightarrow> ('w, int) op"
  bs_Open :: "ctx \<Rightarrow> string \<Rightarrow> ('w, blob_object) op"
  bs_Delete :: "ctx \<Rightarrow> string \<Rightarrow> ('w, unit) op"

text \<open>
  The contract of \<open>blob.Storage\<close>: \<open>blobs w\<close> maps keys to the published objects, \<open>frame w\<close>
  is the part of the state that belongs to others. \<open>Put\<close> never replaces an object and, on
  error, publishes nothing; \<open>ErrNotFound\<close> is only reported for an absent object.
\<close>

locale blob_port =
  fixes S :: "'w blob_storage"
    and blobs :: "'w \<Rightarrow> string \<Rightarrow> bytes option"
    and frame :: "'w \<Rightarrow> 'f"
  assumes put_ok: "bs_Put S c k src w = (Inr n, w') \<Longrightarrow>
      \<exists>r. src = Some r \<and> r_err r = None \<and> n = int (length (r_data r)) \<and> blobs w k = None \<and>
        blobs w' = (blobs w)(k \<mapsto> r_data r)"
    and put_err: "bs_Put S c k src w = (Inl e, w') \<Longrightarrow> blobs w' = blobs w"
    and put_frame: "bs_Put S c k src w = (rp, w') \<Longrightarrow> frame w' = frame w"
    and open_ok: "bs_Open S c k w = (Inr ob, w') \<Longrightarrow>
      \<exists>data. blobs w k = Some data \<and>
        ob = \<lparr>o_Body = Some \<lparr>r_data = data, r_err = None\<rparr>, o_Size = int (length data)\<rparr>"
    and open_not_found: "bs_Open S c k w = (Inl e, w') \<Longrightarrow> errors_Is e BlobErrNotFound \<Longrightarrow>
      blobs w k = None"
    and open_keeps: "bs_Open S c k w = (ro, w') \<Longrightarrow> blobs w' = blobs w \<and> frame w' = frame w"
    and delete_ok: "bs_Delete S c k w = (Inr u, w') \<Longrightarrow>
      blobs w k \<noteq> None \<and> blobs w' = (blobs w)(k := None)"
    and delete_err: "bs_Delete S c k w = (Inl e, w') \<Longrightarrow>
      blobs w' = blobs w \<and> (errors_Is e BlobErrNotFound \<longrightarrow> blobs w k = None)"
    and delete_frame: "bs_Delete S c k w = (rd, w') \<Longrightarrow> frame w' = frame w"
begin

lemma delete_gone:
  assumes "bs_Delete S c k w = (r, w')" "r = Inr u \<or> (\<exists>e. r = Inl e \<and> errors_Is e BlobErrNotFound)"
  shows "blobs w' = (blobs w)(k := None)"
  using assms delete_ok delete_err by (metis fun_upd_triv)

lemma delete_other:
  assumes "bs_Delete S c k w = (r, w')" "k' \<noteq> k"
  shows "blobs w' k' = blobs w k'"
  using assms delete_ok delete_err by (cases r) (metis fun_upd_apply)+

text \<open>What was put is what is opened, until somebody deletes it.\<close>

lemma put_open:
  assumes "bs_Put S c k (Some r) w = (Inr n, w1)" "bs_Open S c' k w1 = (Inr ob, w2)"
  shows "o_Size ob = n \<and> o_Body ob = Some \<lparr>r_data = r_data r, r_err = None\<rparr>"
  using put_ok [OF assms(1)] open_ok [OF assms(2)] by auto

end

subsection \<open>Library functions that are parameters\<close>

text \<open>
  Functions whose code is not in the repository and whose result the development never
  computes: Unicode letter and digit classes, the hash and the password hash, JSON
  validation and compaction, media types and the two time layouts of the \<open>created\<close> filter.
  Times are parsed to instants, \<open>mime_parse\<close> gives the media type and its parameters.
\<close>

record golib =
  unicode_IsLetter :: "nat \<Rightarrow> bool"
  unicode_IsDigit :: "nat \<Rightarrow> bool"
  sha256 :: "bytes \<Rightarrow> bytes"
  bcrypt_generate :: "bytes \<Rightarrow> bytes \<Rightarrow> int \<Rightarrow> goerr + bytes"
  bcrypt_compare :: "bytes \<Rightarrow> bytes \<Rightarrow> goerr option"
  json_Valid :: "bytes \<Rightarrow> bool"
  mime_ParseMediaType :: "string \<Rightarrow> goerr + string \<times> (string \<times> string) list"
  mime_FormatMediaType :: "string \<Rightarrow> (string \<times> string) list \<Rightarrow> string"
  time_Parse_datetime :: "string \<Rightarrow> goerr + time"
  time_Parse_rfc3339 :: "string \<Rightarrow> goerr + time"

lemma limited_reader_length: "0 \<le> n \<Longrightarrow> int (length (r_data (limited_reader r n))) \<le> n"
  by (auto simp: limited_reader_def)

lemma limited_reader_small:
  "0 \<le> n \<Longrightarrow> int (length (r_data (limited_reader r (n + 1)))) \<le> n \<Longrightarrow> limited_reader r (n + 1) = r"
  by (auto simp: limited_reader_def split: if_splits)

end
