(* ===== verification/GoStrings.thy ===== *)
theory GoStrings
  imports Prelude
begin

text \<open>
  What the code uses of Go's strings: a string is its bytes, ranging over it decodes UTF-8
  (an invalid byte is the replacement rune, of width one). The functions model
  \<open>unicode/utf8\<close>, \<open>strings\<close>, \<open>strconv\<close>, \<open>path/filepath\<close> (Unix) and
  \<open>encoding/base64\<close> as the service calls them.
\<close>

subsection \<open>Runes\<close>

definition rune_error :: nat where
  "rune_error = 65533"

definition utf8_cont :: "nat \<Rightarrow> bool" where
  "utf8_cont b \<longleftrightarrow> 128 \<le> b \<and> b \<le> 191"

text \<open>\<open>utf8.DecodeRuneInString\<close>: the first rune and its width in bytes.\<close>

definition decode_rune :: "char \<Rightarrow> string \<Rightarrow> nat \<times> nat" where
  "decode_rune c cs =
     (let b = of_char c; bad = (rune_error, 1)
      in if b < 128 then (b, 1)
         else if b < 194 then bad
         else if b < 224 then
           (case cs of
              c1 # _ \<Rightarrow>
                (let b1 = of_char c1
                 in if utf8_cont b1 then ((b - 192) * 64 + (b1 - 128), 2) else bad)
            | _ \<Rightarrow> bad)
         else if b < 240 then
           (case cs of
              c1 # c2 # _ \<Rightarrow>
                (let b1 = of_char c1; b2 = of_char c2
                 in if (if b = 224 then 160 else 128) \<le> b1 \<and> b1 \<le> (if b = 237 then 159 else 191) \<and>
                       utf8_cont b2
                    then ((b - 224) * 4096 + (b1 - 128) * 64 + (b2 - 128), 3) else bad)
            | _ \<Rightarrow> bad)
         else if b < 245 then
           (case cs of
              c1 # c2 # c3 # _ \<Rightarrow>
                (let b1 = of_char c1; b2 = of_char c2; b3 = of_char c3
                 in if (if b = 240 then 144 else 128) \<le> b1 \<and> b1 \<le> (if b = 244 then 143 else 191) \<and>
                       utf8_cont b2 \<and> utf8_cont b3
                    then ((b - 240) * 262144 + (b1 - 128) * 4096 + (b2 - 128) * 64 + (b3 - 128), 4)
                    else bad)
            | _ \<Rightarrow> bad)
         else bad)"

text \<open>The runes of a string, each with the bytes it was decoded from.\<close>

fun rune_chunks :: "string \<Rightarrow> (nat \<times> string) list" where
  "rune_chunks [] = []"
| "rune_chunks (c # cs) =
     (let (r, w) = decode_rune c cs
      in (r, take w (c # cs)) # rune_chunks (drop (w - 1) cs))"

text \<open>Evaluation takes the ASCII case without looking at the others.\<close>

lemma rune_chunks_code [code]:
  "rune_chunks [] = []"
  "rune_chunks (c # cs) = (if of_char c < (128::nat) then (of_char c, [c]) # rune_chunks cs
     else let (r, w) = decode_rune c cs in (r, take w (c # cs)) # rune_chunks (drop (w - 1) cs))"
  by (simp_all add: decode_rune_def Let_def)

definition runes :: "string \<Rightarrow> nat list" where
  "runes s = map fst (rune_chunks s)"

lemma decode_rune_width:
  "decode_rune c cs = (r, w) \<Longrightarrow> 1 \<le> w \<and> w \<le> length (c # cs)"
  unfolding decode_rune_def Let_def by (auto split: if_splits list.splits)

lemma decode_rune_ascii: "of_char c < (128::nat) \<Longrightarrow> decode_rune c cs = (of_char c, 1)"
  by (simp add: decode_rune_def)

lemma decode_rune_non_ascii:
  assumes "\<not> of_char c < (128::nat)"
  shows "128 \<le> fst (decode_rune c cs)"
proof -
  define b :: nat where "b = of_char c"
  have "128 \<le> b" using assms by (simp add: b_def)
  consider "b < 194" | "194 \<le> b" "b < 224" | "224 \<le> b" "b < 240" | "240 \<le> b" "b < 245"
    | "245 \<le> b" by linarith
  then show ?thesis
  proof cases
    case 1
    with \<open>128 \<le> b\<close> show ?thesis by (simp add: decode_rune_def b_def [symmetric] rune_error_def)
  next
    case 2
    then have "128 \<le> (b - 192) * 64 + x" for x by linarith
    with 2 show ?thesis
      by (simp add: decode_rune_def b_def [symmetric] rune_error_def Let_def split: list.split)
  next
    case 3
    show ?thesis
    proof (cases "b = 224")
      case True
      have "128 \<le> (x - 128) * 64 + y" if "160 \<le> x" for x y :: nat
        using that by linarith
      with True show ?thesis
        by (simp add: decode_rune_def b_def [symmetric] rune_error_def Let_def split: list.split)
    next
      case False
      with 3 have "128 \<le> (b - 224) * 4096 + z + y" for z y by linarith
      with False 3 show ?thesis
        by (simp add: decode_rune_def b_def [symmetric] rune_error_def Let_def split: list.split)
    qed
  next
    case 4
    show ?thesis
    proof (cases "b = 240")
      case True
      have "128 \<le> (x - 128) * 4096 + y + z" if "144 \<le> x" for x y z :: nat
        using that by linarith
      with True show ?thesis
        by (simp add: decode_rune_def b_def [symmetric] rune_error_def Let_def split: list.split)
    next
      case False
      with 4 have "128 \<le> (b - 240) * 262144 + x + y + z" for x y z by linarith
      with False 4 show ?thesis
        by (simp add: decode_rune_def b_def [symmetric] rune_error_def Let_def split: list.split)
    qed
  next
    case 5
    then show ?thesis by (simp add: decode_rune_def b_def [symmetric] rune_error_def)
  qed
qed

lemma concat_rune_chunks [simp]: "concat (map snd (rune_chunks s)) = s"
proof (induction s rule: rune_chunks.induct)
  case (2 c cs)
  obtain r w where rw: "decode_rune c cs = (r, w)" by fastforce
  then have w: "1 \<le> w" using decode_rune_width by blast
  then have "take w (c # cs) @ drop (w - 1) cs = c # cs"
    by (cases w) simp_all
  with 2 rw show ?case by simp
qed simp

text \<open>
  A test that only accepts ASCII runes may be done byte by byte.
\<close>

lemma runes_all_ascii:
  assumes "\<And>r. P r \<Longrightarrow> r < 128"
  shows "list_all P (runes s) = list_all (\<lambda>c. P (of_char c)) s"
proof (induction s rule: rune_chunks.induct)
  case (2 c cs)
  show ?case
  proof (cases "of_char c < (128::nat)")
    case True
    with 2 show ?thesis by (simp add: runes_def decode_rune_ascii)
  next
    case False
    obtain r w where rw: "decode_rune c cs = (r, w)" by fastforce
    with False have "\<not> P r" using decode_rune_non_ascii [of c cs] assms by fastforce
    moreover have "\<not> P (of_char c)" using False assms by blast
    ultimately show ?thesis using rw by (simp add: runes_def)
  qed
qed (simp add: runes_def)

lemma runes_ascii: "list_all (\<lambda>c. of_char c < (128::nat)) s \<Longrightarrow> runes s = map of_char s"
proof (induction s rule: rune_chunks.induct)
  case (2 c cs)
  then show ?case by (simp add: runes_def decode_rune_ascii)
qed (simp add: runes_def)

lemma length_runes_le: "length (runes s) \<le> length s"
proof (induction s rule: rune_chunks.induct)
  case (2 c cs)
  obtain r w where rw: "decode_rune c cs = (r, w)" by fastforce
  with 2 have "length (runes (drop (w - 1) cs)) \<le> length (drop (w - 1) cs)" by simp
  with rw show ?case by (simp add: runes_def)
qed (simp add: runes_def)

definition lower_rune :: "nat \<Rightarrow> bool" where "lower_rune r \<longleftrightarrow> 97 \<le> r \<and> r \<le> 122"
definition upper_rune :: "nat \<Rightarrow> bool" where "upper_rune r \<longleftrightarrow> 65 \<le> r \<and> r \<le> 90"
definition digit_rune :: "nat \<Rightarrow> bool" where "digit_rune r \<longleftrightarrow> 48 \<le> r \<and> r \<le> 57"

text \<open>\<open>unicode.IsControl\<close>: category Cc lies in Latin-1.\<close>

definition unicode_IsControl :: "nat \<Rightarrow> bool" where
  "unicode_IsControl r \<longleftrightarrow> r \<le> 31 \<or> 127 \<le> r \<and> r \<le> 159"

text \<open>\<open>unicode.IsSpace\<close>.\<close>

definition unicode_IsSpace :: "nat \<Rightarrow> bool" where
  "unicode_IsSpace r \<longleftrightarrow> r \<in> {9, 10, 11, 12, 13, 32, 133, 160, 5760, 8232, 8233, 8239, 8287, 12288}
     \<or> 8192 \<le> r \<and> r \<le> 8202"

lemma unicode_IsSpace_code [code]: "unicode_IsSpace r \<longleftrightarrow>
    (let i = int r in i \<in> {9, 10, 11, 12, 13, 32, 133, 160, 5760, 8232, 8233, 8239, 8287, 12288} \<or>
       8192 \<le> i \<and> i \<le> 8202)"
  unfolding unicode_IsSpace_def Let_def by auto

subsection \<open>Package strings\<close>

fun strings_Contains :: "string \<Rightarrow> string \<Rightarrow> bool" where
  "strings_Contains [] t = (t = [])"
| "strings_Contains (c # cs) t = (take (length t) (c # cs) = t \<or> strings_Contains cs t)"

definition strings_ContainsAny :: "string \<Rightarrow> string \<Rightarrow> bool" where
  "strings_ContainsAny s chars = list_ex (\<lambda>c. c \<in> set chars) s"

definition strings_HasPrefix :: "string \<Rightarrow> string \<Rightarrow> bool" where
  "strings_HasPrefix s pre = (take (length pre) s = pre)"

definition strings_TrimPrefix :: "string \<Rightarrow> string \<Rightarrow> string" where
  "strings_TrimPrefix s pre = (if strings_HasPrefix s pre then drop (length pre) s else s)"

definition strings_TrimSpace :: "string \<Rightarrow> string" where
  "strings_TrimSpace s =
     (let sp = (\<lambda>p. unicode_IsSpace (fst p));
          front = dropWhile sp (rune_chunks s);
          both = rev (dropWhile sp (rev front))
      in concat (map snd both))"

fun strings_Join :: "string list \<Rightarrow> string \<Rightarrow> string" where
  "strings_Join [] sep = []"
| "strings_Join [s] sep = s"
| "strings_Join (s # t # ss) sep = s @ sep @ strings_Join (t # ss) sep"

text \<open>\<open>strings.Split\<close> at a one-byte separator, and \<open>SplitN(s, sep, 2)[0]\<close>.\<close>

fun strings_Split :: "char \<Rightarrow> string \<Rightarrow> string list" where
  "strings_Split d [] = [[]]"
| "strings_Split d (c # cs) =
     (if c = d then [] # strings_Split d cs
      else (case strings_Split d cs of
              [] \<Rightarrow> [[c]]
            | p # ps \<Rightarrow> (c # p) # ps))"

definition before_first :: "char \<Rightarrow> string \<Rightarrow> string" where
  "before_first d s = takeWhile (\<lambda>c. c \<noteq> d) s"

lemma strings_TrimPrefix_append [simp]: "strings_TrimPrefix (pre @ v) pre = v"
  by (simp add: strings_TrimPrefix_def strings_HasPrefix_def)

lemma strings_HasPrefix_iff: "strings_HasPrefix s pre \<longleftrightarrow> (\<exists>v. s = pre @ v)"
  by (metis append_eq_conv_conj append_take_drop_id strings_HasPrefix_def)

lemma strings_Contains_iff: "strings_Contains s t \<longleftrightarrow> (\<exists>a b. s = a @ t @ b)"
proof (induction s)
  case (Cons c cs)
  show ?case
  proof
    assume "strings_Contains (c # cs) t"
    then consider "take (length t) (c # cs) = t" | "strings_Contains cs t" by auto
    then show "\<exists>a b. c # cs = a @ t @ b"
    proof cases
      case 1
      then have "c # cs = [] @ t @ drop (length t) (c # cs)"
        by (metis append_Nil append_take_drop_id)
      then show ?thesis by blast
    next
      case 2
      with Cons obtain a b where "cs = a @ t @ b" by auto
      then have "c # cs = (c # a) @ t @ b" by simp
      then show ?thesis by blast
    qed
  next
    assume "\<exists>a b. c # cs = a @ t @ b"
    then obtain a b where eq: "c # cs = a @ t @ b" by blast
    show "strings_Contains (c # cs) t"
    proof (cases a)
      case Nil
      with eq show ?thesis by (metis append_Nil append_eq_conv_conj strings_Contains.simps(2))
    next
      case (Cons x a')
      with eq have "cs = a' @ t @ b" by simp
      then have "strings_Contains cs t" using \<open>strings_Contains cs t = _\<close> by blast
      then show ?thesis by simp
    qed
  qed
qed simp

lemma strings_TrimSpace_subset: "set (strings_TrimSpace s) \<subseteq> set s"
proof -
  let ?sp = "\<lambda>p. unicode_IsSpace (fst (p :: nat \<times> string))"
  have "set (rev (dropWhile ?sp (rev (dropWhile ?sp (rune_chunks s))))) \<subseteq> set (rune_chunks s)"
    by (auto dest!: set_dropWhileD)
  then have "set (concat (map snd (rev (dropWhile ?sp (rev (dropWhile ?sp (rune_chunks s)))))))
      \<subseteq> set (concat (map snd (rune_chunks s)))"
    unfolding set_concat set_map by blast
  then show ?thesis by (simp only: strings_TrimSpace_def Let_def concat_rune_chunks)
qed

lemma strings_TrimSpace_nonempty: "strings_TrimSpace s \<noteq> [] \<Longrightarrow> s \<noteq> []"
  using strings_TrimSpace_subset [of s] by auto

subsection \<open>Package path/filepath on Unix\<close>

definition filepath_Base :: "string \<Rightarrow> string" where
  "filepath_Base p =
     (if p = [] then ''.''
      else let q = rev (dropWhile (\<lambda>c. c = CHR ''/'') (rev p));
               b = rev (takeWhile (\<lambda>c. c \<noteq> CHR ''/'') (rev q))
           in if b = [] then ''/'' else b)"

lemma filepath_Base_no_slash:
  assumes "p \<noteq> []" "CHR ''/'' \<notin> set p"
  shows "filepath_Base p = p"
proof -
  have "dropWhile (\<lambda>c. c = CHR ''/'') (rev p) = rev p"
    using assms by (cases "rev p") auto
  moreover have "\<forall>c \<in> set (rev p). c \<noteq> CHR ''/''"
    using assms by auto
  then have "takeWhile (\<lambda>c. c \<noteq> CHR ''/'') (rev p) = rev p"
    by (simp only: takeWhile_eq_all_conv)
  ultimately show ?thesis using assms by (simp only: filepath_Base_def Let_def rev_rev_ident if_False rev_is_Nil_conv)
qed

lemma filepath_Base_fixed: "filepath_Base p = p \<Longrightarrow> p = ''/'' \<or> CHR ''/'' \<notin> set p"
proof -
  assume fixed: "filepath_Base p = p"
  let ?q = "rev (dropWhile (\<lambda>c. c = CHR ''/'') (rev p))"
  let ?b = "rev (takeWhile (\<lambda>c. c \<noteq> CHR ''/'') (rev ?q))"
  show ?thesis
  proof (cases "p = [] \<or> ?b = []")
    case True
    with fixed show ?thesis by (auto simp: filepath_Base_def Let_def split: if_splits)
  next
    case False
    with fixed have "p = ?b" by (auto simp: filepath_Base_def Let_def)
    moreover have "CHR ''/'' \<notin> set ?b" by (auto dest: set_takeWhileD)
    ultimately show ?thesis by metis
  qed
qed

end
