(* ===== verification/GoConv.thy ===== *)
theory GoConv
  imports GoStrings "HOL-Library.Word"
begin

unbundle bit_operations_syntax

text \<open>
  Conversions: decimal numbers (\<open>strconv.Itoa\<close>, \<open>FormatInt\<close>, \<open>Atoi\<close>, \<open>ParseInt(s, 10, 64)\<close>),
  unpadded URL-safe base64, and the UUIDs of the vendored \<open>google/uuid\<close>.
\<close>

subsection \<open>Decimal\<close>

definition dec_char :: "nat \<Rightarrow> char" where
  "dec_char d = char_of (48 + d)"

fun dec_digits :: "nat \<Rightarrow> string" where
  "dec_digits n = (if n < 10 then [dec_char n] else dec_digits (n div 10) @ [dec_char (n mod 10)])"

declare dec_digits.simps [simp del]

definition strconv_Itoa :: "int \<Rightarrow> string" where
  "strconv_Itoa i = (if i < 0 then CHR ''-'' # dec_digits (nat (- i)) else dec_digits (nat i))"

definition is_dec :: "char \<Rightarrow> bool" where
  "is_dec c = digit_rune (of_char c)"

definition dec_value :: "string \<Rightarrow> nat" where
  "dec_value s = foldl (\<lambda>v c. v * 10 + (of_char c - 48)) 0 s"

text \<open>\<open>strconv.ParseInt(s, 10, 64)\<close> and, on 64-bit platforms, \<open>strconv.Atoi\<close>; \<open>None\<close> is an error.\<close>

definition strconv_ParseInt :: "string \<Rightarrow> int option" where
  "strconv_ParseInt s =
     (let neg = (take 1 s = ''-'');
          ds = (if take 1 s = ''-'' \<or> take 1 s = ''+'' then drop 1 s else s)
      in if ds = [] \<or> \<not> list_all is_dec ds then None
         else let v = int (dec_value ds)
              in if neg then (if - v < min_int64 then None else Some (- v))
                 else (if v > max_int64 then None else Some v))"

definition strconv_Atoi :: "string \<Rightarrow> int option" where
  "strconv_Atoi s = strconv_ParseInt s"

text \<open>\<open>strconv.ParseBool\<close>.\<close>

definition strconv_ParseBool :: "string \<Rightarrow> bool option" where
  "strconv_ParseBool s =
     (if s \<in> {''1'', ''t'', ''T'', ''true'', ''TRUE'', ''True''} then Some True
      else if s \<in> {''0'', ''f'', ''F'', ''false'', ''FALSE'', ''False''} then Some False
      else None)"

lemma is_dec_dec_char [simp]: "d < 10 \<Longrightarrow> is_dec (dec_char d)"
  by (simp add: is_dec_def dec_char_def digit_rune_def)

lemma of_char_dec_char [simp]: "d < 10 \<Longrightarrow> of_char (dec_char d) = 48 + d"
  by (simp add: dec_char_def)

lemma dec_digits_spec:
  "list_all is_dec (dec_digits n) \<and> dec_digits n \<noteq> [] \<and> dec_value (dec_digits n) = n"
proof (induction n rule: dec_digits.induct)
  case (1 n)
  show ?case
  proof (cases "n < 10")
    case True
    then show ?thesis by (simp add: dec_digits.simps [of n] dec_value_def)
  next
    case False
    with 1 show ?thesis by (simp add: dec_digits.simps [of n] dec_value_def)
  qed
qed

lemma dec_digits_sign: "take 1 (dec_digits n) \<noteq> ''-'' \<and> take 1 (dec_digits n) \<noteq> ''+''"
  using dec_digits_spec [of n]
  by (cases "dec_digits n") (auto simp: is_dec_def digit_rune_def)

lemma ParseInt_Itoa:
  assumes "min_int64 \<le> i" "i \<le> max_int64"
  shows "strconv_ParseInt (strconv_Itoa i) = Some i"
  using assms dec_digits_spec dec_digits_sign
  by (auto simp: strconv_ParseInt_def strconv_Itoa_def Let_def)

lemma ParseInt_range: "strconv_ParseInt s = Some i \<Longrightarrow> min_int64 \<le> i \<and> i \<le> max_int64"
  by (auto simp: strconv_ParseInt_def Let_def min_int64_def max_int64_def split: if_splits)

lemma Itoa_inj: "strconv_Itoa i = strconv_Itoa j \<Longrightarrow> i = j"
proof -
  assume eq: "strconv_Itoa i = strconv_Itoa j"
  have digits: "dec_digits m = dec_digits n \<Longrightarrow> m = n" for m n
    using dec_digits_spec by metis
  have "take 1 (dec_digits n) \<noteq> take 1 (CHR ''-'' # t)" for n t
    using dec_digits_sign [of n] by simp
  then have sign: "dec_digits n \<noteq> CHR ''-'' # t" for n t by metis
  show ?thesis
    using eq by (auto simp: strconv_Itoa_def sign sign [symmetric] dest!: digits split: if_splits)
qed

subsection \<open>Base64 without padding, URL alphabet\<close>

definition b64_char :: "nat \<Rightarrow> char" where
  "b64_char n =
     (if n < 26 then char_of (65 + n) else if n < 52 then char_of (71 + n)
      else if n < 62 then char_of (n - 4) else if n = 62 then CHR ''-'' else CHR ''_'')"

fun b64_sextets :: "nat list \<Rightarrow> nat list" where
  "b64_sextets [] = []"
| "b64_sextets [a] = [a div 4, (a mod 4) * 16]"
| "b64_sextets [a, b] = [a div 4, (a mod 4) * 16 + b div 16, (b mod 16) * 4]"
| "b64_sextets (a # b # c # r) =
     [a div 4, (a mod 4) * 16 + b div 16, (b mod 16) * 4 + c div 64, c mod 64] @ b64_sextets r"

text \<open>\<open>base64.RawURLEncoding.EncodeToString\<close>.\<close>

definition base64_RawURL :: "bytes \<Rightarrow> string" where
  "base64_RawURL s = map b64_char (b64_sextets (map of_char s))"

definition b64_alphabet :: "char \<Rightarrow> bool" where
  "b64_alphabet c =
     (lower_rune (of_char c) \<or> upper_rune (of_char c) \<or> digit_rune (of_char c) \<or>
      c = CHR ''-'' \<or> c = CHR ''_'')"

lemma b64_alphabet_char: "b64_alphabet (b64_char n)"
  by (auto simp: b64_char_def b64_alphabet_def lower_rune_def upper_rune_def digit_rune_def)

lemma base64_RawURL_alphabet: "list_all b64_alphabet (base64_RawURL s)"
  by (auto simp: base64_RawURL_def list_all_iff b64_alphabet_char)

lemma base64_RawURL_nonempty: "s \<noteq> [] \<Longrightarrow> base64_RawURL s \<noteq> []"
  by (cases s rule: rev_cases) (auto simp: base64_RawURL_def elim: b64_sextets.elims)

lemma length_b64_sextets: "length (b64_sextets xs) = (4 * length xs + 2) div 3"
  by (induction xs rule: b64_sextets.induct) auto

lemma length_base64_RawURL: "length (base64_RawURL s) = (4 * length s + 2) div 3"
  by (simp add: base64_RawURL_def length_b64_sextets)

lemma b64_char_inj: "b64_char m = b64_char n \<Longrightarrow> m < 64 \<Longrightarrow> n < 64 \<Longrightarrow> m = n"
proof -
  assume eq: "b64_char m = b64_char n" and mn: "m < 64" "n < 64"
  have *: "of_char (b64_char k) =
      (if k < 26 then 65 + k else if k < 52 then 71 + k else if k < 62 then k - 4
       else if k = 62 then 45 else 95 :: nat)" if "k < 64" for k
    using that by (simp add: b64_char_def)
  from eq have "of_char (b64_char m) = (of_char (b64_char n) :: nat)" by simp
  with mn show "m = n" by (simp add: * split: if_splits)
qed

lemma b64_sextets_bound: "\<forall>x \<in> set xs. x < 256 \<Longrightarrow> y \<in> set (b64_sextets xs) \<Longrightarrow> y < 64"
  by (induction xs rule: b64_sextets.induct) (auto simp: less_mult_imp_div_less)

lemma digit_pair: "(x::nat) * k + y = x' * k + y' \<Longrightarrow> y < k \<Longrightarrow> y' < k \<Longrightarrow> x = x' \<and> y = y'"
  by (metis add.commute add_right_cancel div_less div_mult_self3 less_nat_zero_code
      plus_nat.add_0 mult.commute)

lemma eq_from_div_mod: "(a::nat) div k = a' div k \<Longrightarrow> a mod k = a' mod k \<Longrightarrow> a = a'"
  by (metis div_mult_mod_eq)

lemma b64_last_one: "(a::nat) div 4 = a' div 4 \<Longrightarrow> a mod 4 = a' mod 4 \<Longrightarrow> a = a'"
  by (rule eq_from_div_mod)

lemma b64_first: "(a::nat) div 4 = a' div 4 \<Longrightarrow> a mod 4 * 16 + b div 16 = a' mod 4 * 16 + b' div 16 \<Longrightarrow>
    b < 256 \<Longrightarrow> b' < 256 \<Longrightarrow> a = a' \<and> b div 16 = b' div 16"
  using digit_pair [of "a mod 4" 16 "b div 16" "a' mod 4" "b' div 16"]
  by (auto intro: eq_from_div_mod simp: less_mult_imp_div_less)

lemma b64_second: "(b::nat) div 16 = b' div 16 \<Longrightarrow> b mod 16 * 4 + c div 64 = b' mod 16 * 4 + c' div 64 \<Longrightarrow>
    c < 256 \<Longrightarrow> c' < 256 \<Longrightarrow> b = b' \<and> c div 64 = c' div 64"
  using digit_pair [of "b mod 16" 4 "c div 64" "b' mod 16" "c' div 64"]
  by (auto intro: eq_from_div_mod simp: less_mult_imp_div_less)

lemma b64_sextets_inj:
  "\<forall>x \<in> set xs. x < 256 \<Longrightarrow> \<forall>x \<in> set ys. x < 256 \<Longrightarrow>
   b64_sextets xs = b64_sextets ys \<Longrightarrow> xs = ys"
proof (induction xs arbitrary: ys rule: b64_sextets.induct)
  case 1
  then show ?case by (cases ys rule: b64_sextets.cases) auto
next
  case (2 a)
  then show ?case
    by (cases ys rule: b64_sextets.cases) (auto intro: eq_from_div_mod)
next
  case (3 a b)
  then show ?case
  proof (cases ys rule: b64_sextets.cases)
    case (3 a' b')
    with "3.prems" have "a = a' \<and> b div 16 = b' div 16"
      by (intro b64_first) auto
    with 3 "3.prems" show ?thesis by (auto intro: eq_from_div_mod)
  qed auto
next
  case (4 a b c r)
  then show ?case
  proof (cases ys rule: b64_sextets.cases)
    case (4 a' b' c' r')
    with "4.prems" have ab: "a = a' \<and> b div 16 = b' div 16"
      by (intro b64_first) auto
    with 4 "4.prems" have bc: "b = b' \<and> c div 64 = c' div 64"
      by (intro b64_second) auto
    with 4 "4.prems" have "c = c'" by (auto intro: eq_from_div_mod)
    with ab bc 4 "4.prems" "4.IH" [of r'] show ?thesis by simp
  qed auto
qed

lemma base64_RawURL_inj: "base64_RawURL s = base64_RawURL t \<Longrightarrow> s = t"
proof -
  assume eq: "base64_RawURL s = base64_RawURL t"
  have byte: "\<forall>x \<in> set (map of_char (u::string)). (x::nat) < 256" for u
    by auto
  have bound: "x \<in> set (b64_sextets (map of_char u)) \<Longrightarrow> x < 64" for x and u :: string
    by (rule b64_sextets_bound [OF byte])
  have "inj_on b64_char (set (b64_sextets (map of_char s)) \<union> set (b64_sextets (map of_char t)))"
    by (rule inj_onI) (use bound in \<open>blast intro: b64_char_inj\<close>)
  with eq have "b64_sextets (map of_char s) = b64_sextets (map of_char t)"
    unfolding base64_RawURL_def by (rule map_inj_on)
  then have "map of_char s = (map of_char t :: nat list)"
    by (rule b64_sextets_inj [OF byte byte])
  then show "s = t" by (simp add: inj_map_eq_map inj_of_char)
qed

end
