(* ===== verification/Uuid.thy ===== *)
theory Uuid
  imports GoConv
begin

text \<open>
  The part of the vendored \<open>github.com/google/uuid\<close> that the service calls:
  \<open>uuid.Parse\<close> (\<open>uuid.go\<close>), the canonical text form and \<open>NewRandomFromReader\<close>
  (\<open>version4.go\<close>). A UUID is the list of its 16 bytes.
\<close>

type_synonym uuid = "nat list"

definition wf_uuid :: "uuid \<Rightarrow> bool" where
  "wf_uuid u \<longleftrightarrow> length u = 16 \<and> list_all (\<lambda>b. b < 256) u"

definition hexval :: "char \<Rightarrow> nat option" where
  "hexval c =
     (let n = of_char c
      in if 48 \<le> n \<and> n \<le> 57 then Some (n - 48)
         else if 97 \<le> n \<and> n \<le> 102 then Some (n - 87)
         else if 65 \<le> n \<and> n \<le> 70 then Some (n - 55) else None)"

text \<open>\<open>xtob\<close> of \<open>util.go\<close>: two hexadecimal digits to a byte.\<close>

definition xtob :: "char \<Rightarrow> char \<Rightarrow> nat option" where
  "xtob c1 c2 =
     (case hexval c1 of
        None \<Rightarrow> None
      | Some h \<Rightarrow> (case hexval c2 of None \<Rightarrow> None | Some l \<Rightarrow> Some (h * 16 + l)))"

fun uuid_bytes_at :: "string \<Rightarrow> nat list \<Rightarrow> uuid option" where
  "uuid_bytes_at s [] = Some []"
| "uuid_bytes_at s (x # xs) =
     (case xtob (s ! x) (s ! (x + 1)) of
        None \<Rightarrow> None
      | Some v \<Rightarrow> map_option ((#) v) (uuid_bytes_at s xs))"

definition dashed_offsets :: "nat list" where
  "dashed_offsets = [0, 2, 4, 6, 9, 11, 14, 16, 19, 21, 24, 26, 28, 30, 32, 34]"

definition plain_offsets :: "nat list" where
  "plain_offsets = [0, 2, 4, 6, 8, 10, 12, 14, 16, 18, 20, 22, 24, 26, 28, 30]"

definition uuid_dashed :: "string \<Rightarrow> uuid option" where
  "uuid_dashed s =
     (if s ! 8 \<noteq> CHR ''-'' \<or> s ! 13 \<noteq> CHR ''-'' \<or> s ! 18 \<noteq> CHR ''-'' \<or> s ! 23 \<noteq> CHR ''-''
      then None else uuid_bytes_at s dashed_offsets)"

definition ascii_lower :: "char \<Rightarrow> char" where
  "ascii_lower c = (if upper_rune (of_char c) then char_of (of_char c + (32 :: nat)) else c)"

text \<open>
  The four accepted shapes, told apart by the length alone; of the 38-byte form only the
  middle 36 bytes are examined. The urn prefix is compared without regard to case.
\<close>

definition uuid_Parse :: "string \<Rightarrow> uuid option" where
  "uuid_Parse s =
     (if length s = 36 then uuid_dashed s
      else if length s = 45 then
        (if map ascii_lower (take 9 s) \<noteq> ''urn:uuid:'' then None else uuid_dashed (drop 9 s))
      else if length s = 38 then uuid_dashed (drop 1 s)
      else if length s = 32 then uuid_bytes_at s plain_offsets
      else None)"

definition hexdig :: "nat \<Rightarrow> char" where
  "hexdig n = (if n < 10 then char_of (48 + n) else char_of (87 + n))"

definition hexbytes :: "nat list \<Rightarrow> string" where
  "hexbytes bs = concat (map (\<lambda>b. [hexdig (b div 16), hexdig (b mod 16)]) bs)"

text \<open>\<open>UUID.String\<close> through \<open>encodeHex\<close>.\<close>

definition uuid_String :: "uuid \<Rightarrow> string" where
  "uuid_String u =
     hexbytes (take 4 u) @ ''-'' @ hexbytes (take 2 (drop 4 u)) @ ''-'' @
     hexbytes (take 2 (drop 6 u)) @ ''-'' @ hexbytes (take 2 (drop 8 u)) @ ''-'' @
     hexbytes (drop 10 u)"

text \<open>\<open>NewRandomFromReader\<close> on the 16 bytes read: version 4, variant 10.\<close>

definition uuid_v4 :: "bytes \<Rightarrow> uuid" where
  "uuid_v4 raw =
     (let u = map of_char raw
      in u[6 := unat ((word_of_nat (u ! 6) :: 8 word) AND 15 OR 64),
           8 := unat ((word_of_nat (u ! 8) :: 8 word) AND 63 OR 128)])"

definition uuid_canonical :: "string \<Rightarrow> bool" where
  "uuid_canonical s \<longleftrightarrow>
     (case uuid_Parse s of None \<Rightarrow> False | Some u \<Rightarrow> wf_uuid u \<and> uuid_String u = s)"

subsection \<open>Round trip\<close>

lemma hexval_hexdig [simp]: "n < 16 \<Longrightarrow> hexval (hexdig n) = Some n"
  by (auto simp: hexval_def hexdig_def Let_def)

lemma xtob_hexdig [simp]: "b < 256 \<Longrightarrow> xtob (hexdig (b div 16)) (hexdig (b mod 16)) = Some b"
  by (simp add: xtob_def less_mult_imp_div_less)

lemma wf_uuid_explode:
  assumes "wf_uuid u"
  obtains a b c d e f g h i j k l m n p q where
    "u = [a, b, c, d, e, f, g, h, i, j, k, l, m, n, p, q]"
  using assms unfolding wf_uuid_def
  by (auto simp: eval_nat_numeral length_Suc_conv)

lemma uuid_roundtrip:
  assumes "wf_uuid u"
  shows "uuid_Parse (uuid_String u) = Some u"
proof -
  obtain a b c d e f g h i j k l m n p q where
    u: "u = [a, b, c, d, e, f, g, h, i, j, k, l, m, n, p, q]"
    using wf_uuid_explode [OF assms] by blast
  with assms show ?thesis
    by (simp add: wf_uuid_def uuid_Parse_def uuid_String_def hexbytes_def uuid_dashed_def
        dashed_offsets_def)
qed

lemma uuid_canonical_String [simp]: "wf_uuid u \<Longrightarrow> uuid_canonical (uuid_String u)"
  by (simp add: uuid_canonical_def uuid_roundtrip)

lemma uuid_bytes_at_wf:
  "uuid_bytes_at s xs = Some u \<Longrightarrow> length u = length xs \<and> list_all (\<lambda>b. b < 256) u"
proof (induction xs arbitrary: u)
  case (Cons x xs)
  have "xtob c1 c2 = Some v \<Longrightarrow> v < 256" for c1 c2 v
    by (auto simp: xtob_def hexval_def Let_def split: option.splits if_splits)
  with Cons show ?case by (auto split: option.splits)
qed simp

lemma uuid_dashed_wf: "uuid_dashed s = Some u \<Longrightarrow> wf_uuid u"
proof -
  assume "uuid_dashed s = Some u"
  then have "uuid_bytes_at s dashed_offsets = Some u"
    by (simp only: uuid_dashed_def split: if_splits) simp
  from uuid_bytes_at_wf [OF this] show ?thesis
    by (simp add: wf_uuid_def dashed_offsets_def)
qed

lemma uuid_plain_wf: "uuid_bytes_at s plain_offsets = Some u \<Longrightarrow> wf_uuid u"
  by (drule uuid_bytes_at_wf) (simp add: wf_uuid_def plain_offsets_def)

lemma uuid_Parse_wf: "uuid_Parse s = Some u \<Longrightarrow> wf_uuid u"
  unfolding uuid_Parse_def
  by (auto dest: uuid_dashed_wf uuid_plain_wf simp del: One_nat_def split: if_splits)

lemma uuid_v4_wf: "length raw = 16 \<Longrightarrow> wf_uuid (uuid_v4 raw)"
proof -
  assume len: "length raw = 16"
  have byte: "unat (w :: 8 word) < 256" for w using unsigned_less [of w] by simp
  have "(uuid_v4 raw) ! k < 256" if "k < 16" for k
    using that len by (simp add: uuid_v4_def Let_def nth_list_update byte)
  moreover have "length (uuid_v4 raw) = 16"
    using len by (simp add: uuid_v4_def Let_def)
  ultimately show ?thesis by (simp add: wf_uuid_def list_all_length)
qed

lemma uuid_String_nonempty: "uuid_String u \<noteq> []"
  by (simp add: uuid_String_def)

lemma uuid_Parse_nonempty: "uuid_Parse s = Some u \<Longrightarrow> s \<noteq> []"
  by (auto simp: uuid_Parse_def split: if_splits)

end
