(* ===== verification/Ports.thy ===== *)
theory Ports
  imports Domain Uuid
begin

text \<open>
  The contracts of the repository interfaces (\<open>internal/repository/repository.go\<close>) as the
  services rely on them, over an arbitrary state: what a successful call has done, what an
  error may have left behind, and what every call keeps. The PostgreSQL store provides them;
  the services' lemmas are proved from them alone. All laws are for contexts without a
  transaction, as the services make every call.
\<close>

subsection \<open>Users\<close>

text \<open>\<open>accounts w\<close> maps a login to its user and password hash.\<close>

locale user_port =
  fixes U :: "'w user_repository"
    and inv :: "'w \<Rightarrow> bool"
    and accounts :: "'w \<Rightarrow> string \<Rightarrow> (user \<times> bytes) option"
  assumes ucreate_inv: "inv w \<Longrightarrow> \<not> c_tx c \<Longrightarrow> ur_Create U c l h w = (r, w') \<Longrightarrow> inv w'"
    and ulogin_keeps: "inv w \<Longrightarrow> \<not> c_tx c \<Longrightarrow> ur_ByLogin U c l w = (r1, w') \<Longrightarrow>
      inv w' \<and> accounts w' = accounts w"
    and uexist_keeps: "inv w \<Longrightarrow> \<not> c_tx c \<Longrightarrow> ur_ExistingLogins U c ls w = (r2, w') \<Longrightarrow>
      inv w' \<and> accounts w' = accounts w"
    and ucreate_ok: "inv w \<Longrightarrow> \<not> c_tx c \<Longrightarrow> ur_Create U c l h w = (Inr u, w') \<Longrightarrow>
      accounts w l = None \<and> u_Login u = l \<and> accounts w' = (accounts w)(l \<mapsto> (u, h))"
    and ucreate_err: "inv w \<Longrightarrow> \<not> c_tx c \<Longrightarrow> ur_Create U c l h w = (Inl e, w') \<Longrightarrow>
      accounts w' = accounts w \<or>
      accounts w l = None \<and> (\<exists>u. u_Login u = l \<and> accounts w' = (accounts w)(l \<mapsto> (u, h)))"
    and ulogin_ok: "inv w \<Longrightarrow> \<not> c_tx c \<Longrightarrow> ur_ByLogin U c l w = (Inr (u, h), w') \<Longrightarrow>
      accounts w l = Some (u, h)"
    and ulogin_not_found: "inv w \<Longrightarrow> \<not> c_tx c \<Longrightarrow> ur_ByLogin U c l w = (Inl e, w') \<Longrightarrow>
      errors_Is e RepoErrNotFound \<Longrightarrow> accounts w l = None"
    and uexist_ok: "inv w \<Longrightarrow> \<not> c_tx c \<Longrightarrow> ur_ExistingLogins U c ls w = (Inr found, w') \<Longrightarrow>
      distinct found \<and> set found = {l \<in> set ls. accounts w l \<noteq> None}"
    and accounts_login: "inv w \<Longrightarrow> accounts w l = Some (u, h) \<Longrightarrow> u_Login u = l"
begin

text \<open>An account, once there, stays as it is: no call replaces or removes it.\<close>

lemma account_stays_create:
  assumes "inv w" "\<not> c_tx c" "ur_Create U c l h w = (r, w')" "accounts w l' = Some a"
  shows "accounts w' l' = Some a"
proof (cases r)
  case (Inl e)
  with ucreate_err [OF assms(1,2)] assms(3,4) show ?thesis by fastforce
next
  case (Inr u)
  with ucreate_ok [OF assms(1,2)] assms(3,4) show ?thesis by fastforce
qed

end

subsection \<open>Sessions\<close>

text \<open>
  \<open>sessions w\<close> maps a token hash to the session and its user, whether or not the session is
  still good; \<open>prec\<close> is the precision to which the store keeps instants.
\<close>

definition live_session :: "(time \<Rightarrow> time) \<Rightarrow> time \<Rightarrow> session \<Rightarrow> bool" where
  "live_session prec now s \<longleftrightarrow> s_RevokedAt s = None \<and> prec now < s_ExpiresAt s"

locale session_port = user_port U inv accounts
  for U :: "'w user_repository"
    and inv :: "'w \<Rightarrow> bool"
    and accounts :: "'w \<Rightarrow> string \<Rightarrow> (user \<times> bytes) option" +
  fixes S :: "'w session_repository"
    and sessions :: "'w \<Rightarrow> bytes \<Rightarrow> (session \<times> user) option"
    and prec :: "time \<Rightarrow> time"
  assumes screate_keeps: "inv w \<Longrightarrow> \<not> c_tx c \<Longrightarrow> sr_Create S c i h x w = (r3, w') \<Longrightarrow>
      inv w' \<and> accounts w' = accounts w"
    and sfind_keeps: "inv w \<Longrightarrow> \<not> c_tx c \<Longrightarrow> sr_ByTokenHash S c h now w = (r4, w') \<Longrightarrow>
      inv w' \<and> accounts w' = accounts w \<and> sessions w' = sessions w"
    and srevoke_keeps: "inv w \<Longrightarrow> \<not> c_tx c \<Longrightarrow> sr_Revoke S c h now w = (r5, w') \<Longrightarrow>
      inv w' \<and> accounts w' = accounts w"
    and ucreate_sessions: "inv w \<Longrightarrow> \<not> c_tx c \<Longrightarrow> ur_Create U c l h w = (r6, w') \<Longrightarrow>
      sessions w' = sessions w"
    and ulogin_sessions: "inv w \<Longrightarrow> \<not> c_tx c \<Longrightarrow> ur_ByLogin U c l w = (r7, w') \<Longrightarrow>
      sessions w' = sessions w"
    and screate_ok: "inv w \<Longrightarrow> \<not> c_tx c \<Longrightarrow> accounts w l = Some (u, p) \<Longrightarrow>
      sr_Create S c (u_ID u) h x w = (Inr s, w') \<Longrightarrow>
      sessions w h = None \<and> s_RevokedAt s = None \<and> s_ExpiresAt s = prec x \<and>
      sessions w' = (sessions w)(h \<mapsto> (s, u))"
    and screate_err: "inv w \<Longrightarrow> \<not> c_tx c \<Longrightarrow> sr_Create S c i h x w = (Inl e, w') \<Longrightarrow>
      sessions w' = sessions w \<or>
      sessions w h = None \<and> (\<exists>s u. s_RevokedAt s = None \<and> s_ExpiresAt s = prec x \<and>
        sessions w' = (sessions w)(h \<mapsto> (s, u)))"
    and screate_conflict: "inv w \<Longrightarrow> \<not> c_tx c \<Longrightarrow> sr_Create S c i h x w = (Inl e, w') \<Longrightarrow>
      errors_Is e RepoErrConflict \<Longrightarrow> sessions w' = sessions w"
    and sfind_ok: "inv w \<Longrightarrow> \<not> c_tx c \<Longrightarrow> sr_ByTokenHash S c h now w = (Inr (s, u), w') \<Longrightarrow>
      sessions w h = Some (s, u) \<and> live_session prec now s"
    and sfind_not_found: "inv w \<Longrightarrow> \<not> c_tx c \<Longrightarrow> sr_ByTokenHash S c h now w = (Inl e, w') \<Longrightarrow>
      errors_Is e RepoErrNotFound \<Longrightarrow> \<not> (\<exists>s u. sessions w h = Some (s, u) \<and> live_session prec now s)"
    and srevoke_ok: "inv w \<Longrightarrow> \<not> c_tx c \<Longrightarrow> sr_Revoke S c h now w = (Inr y, w') \<Longrightarrow>
      \<exists>s u. sessions w h = Some (s, u) \<and> live_session prec now s \<and>
        sessions w' = (sessions w)(h \<mapsto> (s\<lparr>s_RevokedAt := Some (prec now)\<rparr>, u))"
    and srevoke_err: "inv w \<Longrightarrow> \<not> c_tx c \<Longrightarrow> sr_Revoke S c h now w = (Inl e, w') \<Longrightarrow>
      sessions w' = sessions w \<or>
      (\<exists>s u. sessions w h = Some (s, u) \<and>
        sessions w' = (sessions w)(h \<mapsto> (s\<lparr>s_RevokedAt := Some (prec now)\<rparr>, u)))"
begin

text \<open>A revoked session stays revoked under every call of the port, and a session's end is fixed.\<close>

definition revoked :: "'w \<Rightarrow> bytes \<Rightarrow> bool" where
  "revoked w h \<longleftrightarrow> (\<exists>s u. sessions w h = Some (s, u) \<and> s_RevokedAt s \<noteq> None)"

lemma revoked_create:
  assumes "inv w" "\<not> c_tx c" "accounts w l = Some (u, p)"
    "sr_Create S c (u_ID u) h' x w = (r, w')" "revoked w h"
  shows "revoked w' h"
proof (cases r)
  case (Inl e)
  with screate_err [OF assms(1,2)] assms(4,5) show ?thesis by (fastforce simp: revoked_def)
next
  case (Inr s)
  with screate_ok [OF assms(1-3)] assms(4,5) show ?thesis by (fastforce simp: revoked_def)
qed

lemma revoked_revoke:
  assumes "inv w" "\<not> c_tx c" "sr_Revoke S c h' now w = (r, w')" "revoked w h"
  shows "revoked w' h"
proof (cases r)
  case (Inl e)
  with srevoke_err [OF assms(1,2)] assms(3,4) show ?thesis
    by (fastforce simp: revoked_def split: if_splits)
next
  case (Inr u)
  with srevoke_ok [OF assms(1,2)] assms(3,4) show ?thesis
    by (fastforce simp: revoked_def split: if_splits)
qed

lemma revoked_not_found:
  assumes "inv w" "\<not> c_tx c" "sr_ByTokenHash S c h now w = (r, w')" "revoked w h"
  shows "\<exists>e. r = Inl e"
  using assms sfind_ok [OF assms(1,2)] by (cases r) (fastforce simp: revoked_def live_session_def)+

end

subsection \<open>Documents\<close>

text \<open>
  \<open>docs w\<close> maps document ids to the stored documents, \<open>queued w\<close> is the set of storage keys
  in the cleanup queue, \<open>canon w\<close> reads an id as the store does. Access is a matter between
  a registered user and the stored document.
\<close>

definition readable :: "user \<Rightarrow> document \<Rightarrow> bool" where
  "readable u x \<longleftrightarrow> d_OwnerID x = u_ID u \<or> d_IsPublic x \<or> u_Login u \<in> set (d_Grants x)"

text \<open>
  What of the document handed to \<open>Create\<close> is stored for the owner's login \<open>l\<close>: its JSON in the
  form \<open>json\<close> that the store keeps it in, its grants without the owner's, everything else as it is.
  The creation time is the store's; the first version is 1.
\<close>

definition json_kept :: "(bytes \<Rightarrow> bytes option) \<Rightarrow> bytes option \<Rightarrow> bytes option \<Rightarrow> bool" where
  "json_kept json j s \<longleftrightarrow>
     (case j of None \<Rightarrow> s = None | Some t \<Rightarrow> (case json t of None \<Rightarrow> False | Some t' \<Rightarrow> s = Some t'))"

definition stored_for :: "(bytes \<Rightarrow> bytes option) \<Rightarrow> document \<Rightarrow> string \<Rightarrow> document \<Rightarrow> bool" where
  "stored_for json x l s \<longleftrightarrow> d_ID s = d_ID x \<and> d_OwnerID s = d_OwnerID x \<and> d_Name s = d_Name x \<and>
     d_MIME s = d_MIME x \<and> d_IsFile s = d_IsFile x \<and> d_IsPublic s = d_IsPublic x \<and>
     (d_IsFile x \<longrightarrow> d_StorageKey s = d_StorageKey x \<and> d_SizeBytes s = d_SizeBytes x) \<and>
     json_kept json (d_JSON x) (d_JSON s) \<and> d_Version s = 1 \<and> set (d_Grants s) = set (d_Grants x) - {[], l}"

text \<open>Errors that say what the store holds, as opposed to those that only say that a call failed.\<close>

definition definite :: "goerr \<Rightarrow> bool" where
  "definite e \<longleftrightarrow> errors_Is e RepoErrNotFound \<or> errors_Is e RepoErrConflict \<or>
     errors_Is e RepoErrForbidden \<or> errors_Is e RepoErrInvalidArgument"

definition removed_keys :: "document \<Rightarrow> string set" where
  "removed_keys x = (if d_IsFile x then {d_StorageKey x} else {})"

locale document_port = user_port U inv accounts
  for U :: "'w user_repository"
    and inv :: "'w \<Rightarrow> bool"
    and accounts :: "'w \<Rightarrow> string \<Rightarrow> (user \<times> bytes) option" +
  fixes D :: "'w document_repository"
    and canon :: "'w \<Rightarrow> string \<Rightarrow> string option"
    and docs :: "'w \<Rightarrow> string \<Rightarrow> document option"
    and queued :: "'w \<Rightarrow> string set"
    and json :: "'w \<Rightarrow> bytes \<Rightarrow> bytes option"
  assumes dcreate_keeps: "inv w \<Longrightarrow> \<not> c_tx c \<Longrightarrow> dr_Create D c x w = (q1, w') \<Longrightarrow>
      inv w' \<and> accounts w' = accounts w \<and> queued w' = queued w"
    and dfind_keeps: "inv w \<Longrightarrow> \<not> c_tx c \<Longrightarrow> dr_ByIDAccessible D c i q w = (q2, w') \<Longrightarrow>
      inv w' \<and> accounts w' = accounts w \<and> docs w' = docs w \<and> queued w' = queued w"
    and dlist_keeps: "inv w \<Longrightarrow> \<not> c_tx c \<Longrightarrow> dr_List D c i f w = (q3, w') \<Longrightarrow>
      inv w' \<and> accounts w' = accounts w \<and> docs w' = docs w \<and> queued w' = queued w"
    and ddelete_keeps: "inv w \<Longrightarrow> \<not> c_tx c \<Longrightarrow> dr_Delete D c i q w = (q4, w') \<Longrightarrow>
      inv w' \<and> accounts w' = accounts w"
    and uexist_docs: "inv w \<Longrightarrow> \<not> c_tx c \<Longrightarrow> ur_ExistingLogins U c ls w = (q5, w') \<Longrightarrow>
      docs w' = docs w \<and> queued w' = queued w \<and> json w' = json w"
    and docs_id: "inv w \<Longrightarrow> docs w k = Some x \<Longrightarrow> d_ID x = k \<and> canon w k = Some k"
    and docs_file: "inv w \<Longrightarrow> docs w k = Some x \<Longrightarrow> \<not> d_IsFile x \<Longrightarrow> d_StorageKey x = []"
    and dcreate_ok: "inv w \<Longrightarrow> \<not> c_tx c \<Longrightarrow> accounts w l = Some (u, h) \<Longrightarrow> d_OwnerID x = u_ID u \<Longrightarrow>
      uuid_canonical (d_ID x) \<Longrightarrow> dr_Create D c x w = (Inr y, w') \<Longrightarrow>
      docs w (d_ID x) = None \<and> stored_for (json w) x l y \<and>
      (\<exists>s. stored_for (json w) x l s \<and> docs w' = (docs w)(d_ID x \<mapsto> s))"
    and dcreate_err: "inv w \<Longrightarrow> \<not> c_tx c \<Longrightarrow> accounts w l = Some (u, h) \<Longrightarrow> d_OwnerID x = u_ID u \<Longrightarrow>
      uuid_canonical (d_ID x) \<Longrightarrow> dr_Create D c x w = (Inl e, w') \<Longrightarrow>
      docs w' = docs w \<or> \<not> definite e \<and> docs w (d_ID x) = None \<and>
        (\<exists>s. stored_for (json w) x l s \<and> docs w' = (docs w)(d_ID x \<mapsto> s))"
    and dfind_ok: "inv w \<Longrightarrow> \<not> c_tx c \<Longrightarrow> accounts w l = Some (u, h) \<Longrightarrow>
      dr_ByIDAccessible D c i (u_ID u) w = (Inr x, w') \<Longrightarrow>
      \<exists>k. canon w i = Some k \<and> docs w k = Some x \<and> readable u x"
    and dfind_forbidden: "inv w \<Longrightarrow> \<not> c_tx c \<Longrightarrow> accounts w l = Some (u, h) \<Longrightarrow>
      dr_ByIDAccessible D c i (u_ID u) w = (Inl e, w') \<Longrightarrow> errors_Is e RepoErrForbidden \<Longrightarrow>
      \<exists>k x. canon w i = Some k \<and> docs w k = Some x \<and> \<not> readable u x"
    and dfind_not_found: "inv w \<Longrightarrow> \<not> c_tx c \<Longrightarrow> accounts w l = Some (u, h) \<Longrightarrow>
      dr_ByIDAccessible D c i (u_ID u) w = (Inl e, w') \<Longrightarrow> errors_Is e RepoErrNotFound \<Longrightarrow>
      \<exists>k. canon w i = Some k \<and> docs w k = None"
    and dlist_ok: "inv w \<Longrightarrow> \<not> c_tx c \<Longrightarrow> accounts w l = Some (u, h) \<Longrightarrow>
      dr_List D c (u_ID u) f w = (Inr xs, w') \<Longrightarrow>
      (\<forall>x \<in> set xs. docs w (d_ID x) = Some x \<and> readable u x) \<and> distinct (map d_ID xs) \<and>
      (0 < f_Limit f \<longrightarrow> int (length xs) \<le> f_Limit f)"
    and ddelete_ok: "inv w \<Longrightarrow> \<not> c_tx c \<Longrightarrow> dr_Delete D c i o' w = (Inr x, w') \<Longrightarrow>
      \<exists>k. canon w i = Some k \<and> docs w k = Some x \<and> d_OwnerID x = o' \<and>
        docs w' = (docs w)(k := None) \<and> queued w' = queued w \<union> removed_keys x"
    and ddelete_err: "inv w \<Longrightarrow> \<not> c_tx c \<Longrightarrow> dr_Delete D c i o' w = (Inl e, w') \<Longrightarrow>
      docs w' = docs w \<and> queued w' = queued w \<or> \<not> definite e \<and>
      (\<exists>k x. canon w i = Some k \<and> docs w k = Some x \<and> d_OwnerID x = o' \<and>
        docs w' = (docs w)(k := None) \<and> queued w' = queued w \<union> removed_keys x)"
    and ddelete_forbidden: "inv w \<Longrightarrow> \<not> c_tx c \<Longrightarrow> dr_Delete D c i o' w = (Inl e, w') \<Longrightarrow>
      errors_Is e RepoErrForbidden \<Longrightarrow>
      \<exists>k x. canon w i = Some k \<and> docs w k = Some x \<and> d_OwnerID x \<noteq> o'"
    and ddelete_not_found: "inv w \<Longrightarrow> \<not> c_tx c \<Longrightarrow> dr_Delete D c i o' w = (Inl e, w') \<Longrightarrow>
      errors_Is e RepoErrNotFound \<Longrightarrow> \<exists>k. canon w i = Some k \<and> docs w k = None"
begin

text \<open>A document is only ever removed by its owner.\<close>

lemma delete_by_owner:
  assumes "inv w" "\<not> c_tx c" "dr_Delete D c i o' w = (r, w')" "docs w k = Some x" "docs w' k \<noteq> Some x"
  shows "d_OwnerID x = o' \<and> canon w i = Some k \<and> docs w' k = None \<and> removed_keys x \<subseteq> queued w'"
proof -
  have "docs w' = docs w \<or> (\<exists>k x. canon w i = Some k \<and> docs w k = Some x \<and> d_OwnerID x = o' \<and>
      docs w' = (docs w)(k := None) \<and> queued w' = queued w \<union> removed_keys x)"
    (is "_ \<or> ?removed")
  proof (cases r)
    case (Inl e)
    from ddelete_err [OF assms(1,2) assms(3) [unfolded Inl]] show ?thesis by meson
  next
    case (Inr y)
    from ddelete_ok [OF assms(1,2) assms(3) [unfolded Inr]] show ?thesis by - (elim exE, intro disjI2 exI)
  qed
  with assms(4,5) have ?removed by metis
  then obtain k' x' where removed: "canon w i = Some k'" "docs w k' = Some x'" "d_OwnerID x' = o'"
    "docs w' = (docs w)(k' := None)" "queued w' = queued w \<union> removed_keys x'" by blast
  with assms(4,5) have "k' = k" by (metis fun_upd_other)
  with removed assms(4) show ?thesis by simp
qed

text \<open>Creating a document changes no other.\<close>

lemma create_keeps_others:
  assumes "inv w" "\<not> c_tx c" "accounts w l = Some (u, h)" "d_OwnerID x = u_ID u"
    "uuid_canonical (d_ID x)" "dr_Create D c x w = (r, w')" "docs w k = Some y"
  shows "docs w' k = Some y"
proof (cases r)
  case (Inl e)
  with dcreate_err [OF assms(1-5)] assms(6,7) show ?thesis by fastforce
next
  case (Inr z)
  with dcreate_ok [OF assms(1-5)] assms(6,7) show ?thesis by fastforce
qed

end

subsection \<open>The cleanup queue\<close>

text \<open>
  \<open>tasks w\<close> maps task ids to tasks, \<open>rest w\<close> is what other repositories own. A claim counts an
  attempt on each claimed task and leases it.
\<close>

definition leased :: "(time \<Rightarrow> time) \<Rightarrow> time \<Rightarrow> (int \<Rightarrow> blobCleanupTask option) \<Rightarrow> blobCleanupTask list \<Rightarrow> bool" where
  "leased prec lease T ts \<longleftrightarrow> distinct (map t_ID ts) \<and> (\<forall>t \<in> set ts. \<exists>t0. T (t_ID t) = Some t0 \<and>
     t = t0\<lparr>t_Attempts := t_Attempts t0 + 1, t_NextAttemptAt := prec lease\<rparr>)"

definition update_tasks :: "(int \<Rightarrow> blobCleanupTask option) \<Rightarrow> blobCleanupTask list \<Rightarrow> int \<Rightarrow> blobCleanupTask option" where
  "update_tasks T ts = T ++ map_of (map (\<lambda>t. (t_ID t, t)) ts)"

definition drop_key :: "string \<Rightarrow> (int \<Rightarrow> blobCleanupTask option) \<Rightarrow> int \<Rightarrow> blobCleanupTask option" where
  "drop_key k T i = (case T i of Some t \<Rightarrow> if t_StorageKey t = k then None else Some t | None \<Rightarrow> None)"

definition retried :: "time \<Rightarrow> int \<Rightarrow> (int \<Rightarrow> blobCleanupTask option) \<Rightarrow> int \<Rightarrow> blobCleanupTask option" where
  "retried at i T = T(i := map_option (\<lambda>t. t\<lparr>t_NextAttemptAt := at\<rparr>) (T i))"

definition task_keys :: "(int \<Rightarrow> blobCleanupTask option) \<Rightarrow> string set" where
  "task_keys T = t_StorageKey ` ran T"

lemma task_keys_iff: "k \<in> task_keys T \<longleftrightarrow> (\<exists>i x. T i = Some x \<and> t_StorageKey x = k)"
  by (auto simp: task_keys_def ran_def)

locale cleanup_port =
  fixes K :: "'w cleanup_repository"
    and inv :: "'w \<Rightarrow> bool"
    and tasks :: "'w \<Rightarrow> int \<Rightarrow> blobCleanupTask option"
    and rest :: "'w \<Rightarrow> 'r"
    and prec :: "time \<Rightarrow> time"
  assumes kclaim_keeps: "inv w \<Longrightarrow> \<not> c_tx c \<Longrightarrow> cr_Claim K c n t w = (r1, w') \<Longrightarrow> inv w' \<and> rest w' = rest w"
    and kcomplete_keeps: "inv w \<Longrightarrow> \<not> c_tx c \<Longrightarrow> cr_Complete K c i w = (r2, w') \<Longrightarrow> inv w' \<and> rest w' = rest w"
    and kbykey_keeps: "inv w \<Longrightarrow> \<not> c_tx c \<Longrightarrow> cr_CompleteByStorageKey K c k w = (r3, w') \<Longrightarrow>
      inv w' \<and> rest w' = rest w"
    and kretry_keeps: "inv w \<Longrightarrow> \<not> c_tx c \<Longrightarrow> cr_Retry K c i t w = (r4, w') \<Longrightarrow> inv w' \<and> rest w' = rest w"
    and ktask_id: "inv w \<Longrightarrow> tasks w i = Some x \<Longrightarrow> t_ID x = i"
    and ktask_key: "inv w \<Longrightarrow> tasks w i = Some x \<Longrightarrow> tasks w j = Some y \<Longrightarrow> t_StorageKey x = t_StorageKey y \<Longrightarrow> i = j"
    and kclaim_ok: "inv w \<Longrightarrow> \<not> c_tx c \<Longrightarrow> cr_Claim K c n t w = (Inr ts, w') \<Longrightarrow>
      leased prec t (tasks w) ts \<and> int (length ts) \<le> n \<and> tasks w' = update_tasks (tasks w) ts"
    and kclaim_err: "inv w \<Longrightarrow> \<not> c_tx c \<Longrightarrow> cr_Claim K c n t w = (Inl e, w') \<Longrightarrow>
      tasks w' = tasks w \<or> (\<exists>ts. leased prec t (tasks w) ts \<and> tasks w' = update_tasks (tasks w) ts)"
    and kcomplete_ok: "inv w \<Longrightarrow> \<not> c_tx c \<Longrightarrow> cr_Complete K c i w = (Inr u, w') \<Longrightarrow> tasks w' = (tasks w)(i := None)"
    and kcomplete_err: "inv w \<Longrightarrow> \<not> c_tx c \<Longrightarrow> cr_Complete K c i w = (Inl e, w') \<Longrightarrow>
      tasks w' = tasks w \<or> tasks w' = (tasks w)(i := None)"
    and kbykey_ok: "inv w \<Longrightarrow> \<not> c_tx c \<Longrightarrow> cr_CompleteByStorageKey K c k w = (Inr u, w') \<Longrightarrow>
      tasks w' = drop_key k (tasks w)"
    and kbykey_err: "inv w \<Longrightarrow> \<not> c_tx c \<Longrightarrow> cr_CompleteByStorageKey K c k w = (Inl e, w') \<Longrightarrow>
      tasks w' = tasks w \<or> tasks w' = drop_key k (tasks w)"
    and kretry_ok: "inv w \<Longrightarrow> \<not> c_tx c \<Longrightarrow> cr_Retry K c i t w = (Inr u, w') \<Longrightarrow> tasks w' = retried (prec t) i (tasks w)"
    and kretry_err: "inv w \<Longrightarrow> \<not> c_tx c \<Longrightarrow> cr_Retry K c i t w = (Inl e, w') \<Longrightarrow>
      tasks w' = tasks w \<or> tasks w' = retried (prec t) i (tasks w)"
begin

text \<open>Claiming and retrying leave the queued keys as they are; only completing removes one.\<close>

lemma leased_keys: "leased prec t T ts \<Longrightarrow> task_keys (update_tasks T ts) = task_keys T"
proof -
  assume l: "leased prec t T ts"
  have upd: "update_tasks T ts i = (if i \<in> t_ID ` set ts then
      map_option (\<lambda>t0. t0\<lparr>t_Attempts := t_Attempts t0 + 1, t_NextAttemptAt := prec t\<rparr>) (T i) else T i)" for i
  proof (cases "i \<in> t_ID ` set ts")
    case True
    then obtain x where x: "x \<in> set ts" "t_ID x = i" by blast
    with l have "map_of (map (\<lambda>t. (t_ID t, t)) ts) i = Some x"
      by (intro map_of_is_SomeI) (auto simp: leased_def comp_def)
    with l x show ?thesis by (fastforce simp: update_tasks_def leased_def)
  next
    case False
    then have "map_of (map (\<lambda>t. (t_ID t, t)) ts) i = None" by (auto simp: map_of_eq_None_iff)
    with False show ?thesis by (simp add: update_tasks_def map_add_def)
  qed
  have "(\<exists>i x. update_tasks T ts i = Some x \<and> t_StorageKey x = k) \<longleftrightarrow> (\<exists>i x. T i = Some x \<and> t_StorageKey x = k)" for k
    unfolding upd by (auto split: if_splits) (metis option.simps(9) blobCleanupTask.select_convs(2) blobCleanupTask.update_convs(3,4) blobCleanupTask.surjective)+
  then show ?thesis by (simp add: set_eq_iff task_keys_iff)
qed

lemma retried_keys: "task_keys (retried at i T) = task_keys T"
proof -
  have "(\<exists>j x. retried at i T j = Some x \<and> t_StorageKey x = k) \<longleftrightarrow> (\<exists>j x. T j = Some x \<and> t_StorageKey x = k)" for k
    by (auto simp: retried_def split: if_splits) force+
  then show ?thesis by (simp add: set_eq_iff task_keys_iff)
qed

end

end
