(* ===== verification/DocService.thy ===== *)
theory DocService
  imports Ports GoConv
begin

text \<open>
  The document use cases, \<open>internal/document/upload.go\<close>, \<open>read.go\<close>, \<open>list.go\<close> and
  \<open>delete.go\<close>, over the ports of an arbitrary state \<open>'w\<close>. The random source, the cleanup
  repository and the invalidation hook are functions of that state; \<open>L\<close> is the library.
\<close>

record upload =
  up_Document :: document
  up_File :: "reader option"

record content =
  ct_Document :: document
  ct_File :: "reader option"

record 'w doc_config =
  dc_MaxFileBytes :: int
  dc_MaxGrantItems :: int
  dc_MaxListLimit :: int
  dc_Cleanup :: "'w cleanup_repository option"
  dc_InvalidateDelete :: "(ctx \<Rightarrow> string \<Rightarrow> ('w, unit) op) option"
  dc_CleanupTimeout :: duration

record 'w doc_service =
  ds_documents :: "'w document_repository"
  ds_users :: "'w user_repository"
  ds_blobs :: "'w blob_storage"
  ds_maxFile :: int
  ds_maxGrants :: int
  ds_maxList :: int
  ds_rand :: "nat \<Rightarrow> ('w, bytes) op"
  ds_cleanup :: "'w cleanup_repository option"
  ds_invalidateDelete :: "(ctx \<Rightarrow> string \<Rightarrow> ('w, unit) op) option"
  ds_cleanupTimeout :: duration

definition storageKeyBytes :: nat where "storageKeyBytes = 32"

text \<open>\<open>own\<close> is the cleanup repository the document repository implements itself, if it does.\<close>

definition newDocService ::
  "'w document_repository option \<Rightarrow> 'w cleanup_repository option \<Rightarrow> 'w user_repository option \<Rightarrow>
   'w blob_storage option \<Rightarrow> 'w doc_config \<Rightarrow> (nat \<Rightarrow> ('w, bytes) op) \<Rightarrow> goerr + 'w doc_service" where
  "newDocService documents own users blobs cfg random =
     (case (documents, users, blobs) of
        (Some ds, Some us, Some bs) \<Rightarrow>
          if dc_MaxFileBytes cfg \<le> 0 \<or> dc_MaxGrantItems cfg \<le> 0
          then Inl (Wrapped ''configure document service'' (Sentinel ErrInvalidArgument))
          else Inr \<lparr>ds_documents = ds, ds_users = us, ds_blobs = bs, ds_maxFile = dc_MaxFileBytes cfg,
            ds_maxGrants = dc_MaxGrantItems cfg,
            ds_maxList = (if dc_MaxListLimit cfg \<le> 0 then 100 else dc_MaxListLimit cfg),
            ds_rand = random,
            ds_cleanup = (case dc_Cleanup cfg of Some k \<Rightarrow> Some k | None \<Rightarrow> own),
            ds_invalidateDelete = dc_InvalidateDelete cfg,
            ds_cleanupTimeout = (if dc_CleanupTimeout cfg \<le> 0 then 5 * second else dc_CleanupTimeout cfg)\<rparr>
      | _ \<Rightarrow> Inl (Wrapped ''configure document service'' (Sentinel ErrInvalidArgument)))"

subsection \<open>Validation\<close>

definition validName :: "string \<Rightarrow> bool" where
  "validName name =
     (if strings_TrimSpace name = [] \<or> name = ''.'' \<or> name = ''..'' \<or> strings_Contains name ''..'' \<or>
         filepath_Base name \<noteq> name \<or> strings_ContainsAny name [CHR ''/'', CHR 0x5C]
      then False
      else list_all (\<lambda>r. \<not> unicode_IsControl r) (runes name))"

definition normalizeMIME :: "golib \<Rightarrow> string \<Rightarrow> goerr + string" where
  "normalizeMIME L value =
     (case mime_ParseMediaType L value of
        Inl e \<Rightarrow> Inl (Sentinel ErrInvalidArgument)
      | Inr (mediaType, parameters) \<Rightarrow>
          if mediaType = [] \<or> \<not> strings_Contains mediaType ''/'' then Inl (Sentinel ErrInvalidArgument)
          else Inr (mime_FormatMediaType L mediaType parameters))"

definition uniqueGrants :: "string list \<Rightarrow> string \<Rightarrow> string list" where
  "uniqueGrants input owner =
     rev (foldl (\<lambda>seen login. if login = owner then seen
       else if login \<in> set seen then seen else login # seen) [] input)"

definition sameLoginSet :: "string list \<Rightarrow> string list \<Rightarrow> bool" where
  "sameLoginSet want got = (if length want \<noteq> length got then False else list_all (\<lambda>l. l \<in> set got) want)"

definition mapRepositoryError :: "goerr \<Rightarrow> goerr" where
  "mapRepositoryError err =
     (if errors_Is err RepoErrInvalidArgument \<or> errors_Is err RepoErrConflict then Sentinel ErrInvalidArgument
      else if errors_Is err RepoErrNotFound then Sentinel ErrNotFound
      else if errors_Is err RepoErrForbidden then Sentinel ErrForbidden
      else Wrapped ''document repository'' err)"

definition validateDocumentFilter :: "golib \<Rightarrow> string \<Rightarrow> string \<Rightarrow> goerr option" where
  "validateDocumentFilter L key value =
     (let invalid = Some (Sentinel ErrInvalidArgument)
      in if key = [] then (if value \<noteq> [] then invalid else None)
         else if value = [] then invalid
         else if key = ''id'' then (case uuid_Parse value of None \<Rightarrow> invalid | Some u \<Rightarrow> None)
         else if key = ''name'' \<or> key = ''mime'' then None
         else if key = ''file'' \<or> key = ''public'' then
           (if strconv_ParseBool value = None \<or> (value \<noteq> ''true'' \<and> value \<noteq> ''false'') then invalid else None)
         else if key = ''created'' then
           (case time_Parse_datetime L value of
              Inr t \<Rightarrow> None
            | Inl _ \<Rightarrow> (case time_Parse_rfc3339 L value of Inr t \<Rightarrow> None | Inl _ \<Rightarrow> invalid))
         else invalid)"

definition randomStorageKey :: "(nat \<Rightarrow> ('w, bytes) op) \<Rightarrow> ('w, string) op" where
  "randomStorageKey random =
     and_then (map_err (Wrapped ''generate document storage key'') (random storageKeyBytes))
       (\<lambda>value. ret (base64_RawURL value))"

subsection \<open>Upload\<close>

text \<open>The checks before the first call to a repository; the normalised document is the result.\<close>

definition upload_document :: "golib \<Rightarrow> 'w doc_service \<Rightarrow> user \<Rightarrow> upload \<Rightarrow> goerr + document" where
  "upload_document L S requester input =
     (let x = up_Document input; invalid = Inl (Sentinel ErrInvalidArgument)
      in if u_ID requester = [] \<or> u_Login requester = [] \<or> \<not> validName (d_Name x) then invalid
         else if int (length (d_Grants x)) > ds_maxGrants S then invalid
         else if (case d_JSON x of None \<Rightarrow> False | Some j \<Rightarrow> \<not> json_Valid L j) then invalid
         else if d_IsFile x \<and> (up_File input = None \<or> d_MIME x = []) then invalid
         else if \<not> d_IsFile x \<and> (up_File input \<noteq> None \<or> d_JSON x = None) then invalid
         else if d_MIME x \<noteq> [] then
           (case normalizeMIME L (d_MIME x) of Inl e \<Rightarrow> invalid | Inr m \<Rightarrow> Inr (x\<lparr>d_MIME := m\<rparr>))
         else Inr x)"

text \<open>Storing the file: the key and the size, or the error after giving the blob back.\<close>

definition upload_blob :: "'w doc_service \<Rightarrow> ctx \<Rightarrow> document \<Rightarrow> reader option \<Rightarrow> ('w, document) op" where
  "upload_blob S c x file w =
     (case randomStorageKey (ds_rand S) w of
        (Inl e, w1) \<Rightarrow> (Inl e, w1)
      | (Inr key, w1) \<Rightarrow>
          (case bs_Put (ds_blobs S) c key
                  (map_option (\<lambda>r. limited_reader r (wrap64 (ds_maxFile S + 1))) file) w1 of
             (Inl e, w2) \<Rightarrow> (Inl (Wrapped ''store document blob'' e), w2)
           | (Inr size', w2) \<Rightarrow>
               if size' > ds_maxFile S then
                 (case bs_Delete (ds_blobs S) (context_WithoutCancel c) key w2 of
                    (Inl e, w3) \<Rightarrow>
                      (Inl (if \<not> errors_Is e BlobErrNotFound
                            then Wrapped ''reject oversized blob and clean up''
                                   (Joined [Sentinel ErrInvalidArgument, e])
                            else Sentinel ErrInvalidArgument), w3)
                  | (Inr _, w3) \<Rightarrow> (Inl (Sentinel ErrInvalidArgument), w3))
               else (Inr (x\<lparr>d_StorageKey := key, d_SizeBytes := size'\<rparr>), w2)))"

text \<open>Creating the metadata; when that fails the blob is deleted again.\<close>

definition upload_create :: "'w doc_service \<Rightarrow> ctx \<Rightarrow> document \<Rightarrow> ('w, document) op" where
  "upload_create S c x w =
     (case dr_Create (ds_documents S) c x w of
        (Inr created, w1) \<Rightarrow> (Inr created, w1)
      | (Inl err, w1) \<Rightarrow>
          if d_IsFile x then
            (case bs_Delete (ds_blobs S) (context_WithoutCancel c) (d_StorageKey x) w1 of
               (Inl e, w2) \<Rightarrow>
                 (Inl (if \<not> errors_Is e BlobErrNotFound
                       then Wrapped ''create document and clean up blob'' (Joined [mapRepositoryError err, e])
                       else mapRepositoryError err), w2)
             | (Inr _, w2) \<Rightarrow> (Inl (mapRepositoryError err), w2))
          else (Inl (mapRepositoryError err), w1))"

definition doc_Upload :: "golib \<Rightarrow> 'w doc_service \<Rightarrow> ctx \<Rightarrow> user \<Rightarrow> upload \<Rightarrow> ('w, document) op" where
  "doc_Upload L S c requester input =
     (case upload_document L S requester input of
        Inl e \<Rightarrow> fail e
      | Inr x \<Rightarrow>
          let grants = uniqueGrants (d_Grants x) (u_Login requester)
          in and_then (map_err (Wrapped ''validate document grants'')
               (ur_ExistingLogins (ds_users S) c grants)) (\<lambda>existing.
             if \<not> sameLoginSet grants existing then fail (Sentinel ErrInvalidArgument)
             else and_then (map_err (Wrapped ''generate document id'') (ds_rand S 16)) (\<lambda>raw.
               let x = x\<lparr>d_ID := uuid_String (uuid_v4 raw), d_OwnerID := u_ID requester,
                         d_Grants := grants, d_StorageKey := [], d_SizeBytes := 0\<rparr>
               in and_then (if d_IsFile x then upload_blob S c x (up_File input) else ret x)
                    (upload_create S c))))"

subsection \<open>Reading\<close>

definition doc_getMetadata :: "'w doc_service \<Rightarrow> ctx \<Rightarrow> user \<Rightarrow> string \<Rightarrow> ('w, document) op" where
  "doc_getMetadata S c requester i =
     (if u_ID requester = [] \<or> u_Login requester = [] \<or> i = [] then fail (Sentinel ErrInvalidArgument)
      else map_err mapRepositoryError (dr_ByIDAccessible (ds_documents S) c i (u_ID requester)))"

definition doc_Get :: "'w doc_service \<Rightarrow> ctx \<Rightarrow> user \<Rightarrow> string \<Rightarrow> ('w, content) op" where
  "doc_Get S c requester i =
     and_then (doc_getMetadata S c requester i) (\<lambda>x.
       if \<not> d_IsFile x then ret \<lparr>ct_Document = x, ct_File = None\<rparr>
       else and_then (map_err (Wrapped ''open document blob'') (bs_Open (ds_blobs S) c (d_StorageKey x))) (\<lambda>ob.
         if o_Body ob = None \<or> o_Size ob < 0 then fail (Opaque ''open document blob: invalid object'')
         else ret \<lparr>ct_Document = x\<lparr>d_SizeBytes := o_Size ob\<rparr>, ct_File = o_Body ob\<rparr>))"

definition doc_List :: "golib \<Rightarrow> 'w doc_service \<Rightarrow> ctx \<Rightarrow> user \<Rightarrow> documentFilter \<Rightarrow> ('w, document list) op" where
  "doc_List L S c requester f =
     (if u_ID requester = [] \<or> u_Login requester = [] \<or> f_Limit f < 0 \<or> f_Limit f > ds_maxList S
      then fail (Sentinel ErrInvalidArgument)
      else case validateDocumentFilter L (f_Key f) (f_Value f) of
          Some e \<Rightarrow> fail e
        | None \<Rightarrow> map_err mapRepositoryError (dr_List (ds_documents S) c (u_ID requester) f))"

subsection \<open>Delete\<close>

definition invalidate_step :: "'w doc_service \<Rightarrow> ctx \<Rightarrow> string \<Rightarrow> 'w \<Rightarrow> goerr option \<times> 'w" where
  "invalidate_step S c i w =
     (case ds_invalidateDelete S of
        None \<Rightarrow> (None, w)
      | Some hook \<Rightarrow>
          (case hook c i w of
             (Inl e, w1) \<Rightarrow> (Some (Wrapped ''invalidate deleted document cache'' e), w1)
           | (Inr _, w1) \<Rightarrow> (None, w1)))"

definition complete_step :: "'w doc_service \<Rightarrow> ctx \<Rightarrow> string \<Rightarrow> goerr option \<Rightarrow> 'w \<Rightarrow> goerr option \<times> 'w" where
  "complete_step S c key result w =
     (case ds_cleanup S of
        None \<Rightarrow> (result, w)
      | Some k \<Rightarrow>
          (case cr_CompleteByStorageKey k c key w of
             (Inl e, w1) \<Rightarrow>
               (errors_Join [result, Some (Wrapped ''confirm document blob cleanup'' e)], w1)
           | (Inr _, w1) \<Rightarrow> (result, w1)))"

text \<open>The result is the error, \<open>None\<close> for success.\<close>

definition doc_Delete :: "'w doc_service \<Rightarrow> ctx \<Rightarrow> user \<Rightarrow> string \<Rightarrow> 'w \<Rightarrow> goerr option \<times> 'w" where
  "doc_Delete S c requester i w =
     (if u_ID requester = [] \<or> u_Login requester = [] \<or> i = [] then (Some (Sentinel ErrInvalidArgument), w)
      else case dr_Delete (ds_documents S) c i (u_ID requester) w of
          (Inl e, w1) \<Rightarrow> (Some (mapRepositoryError e), w1)
        | (Inr x, w1) \<Rightarrow>
            let cleanupCtx = context_WithTimeout background_ctx;
                (result, w2) = invalidate_step S cleanupCtx i w1
            in if \<not> d_IsFile x then (result, w2)
               else case bs_Delete (ds_blobs S) cleanupCtx (d_StorageKey x) w2 of
                   (Inr _, w3) \<Rightarrow> complete_step S cleanupCtx (d_StorageKey x) result w3
                 | (Inl e, w3) \<Rightarrow>
                     if \<not> errors_Is e BlobErrNotFound
                     then (errors_Join [result, Some (Wrapped ''delete document blob'' e)], w3)
                     else complete_step S cleanupCtx (d_StorageKey x) result w3)"

definition invalidatesDeleteCache :: "'w doc_service \<Rightarrow> bool" where
  "invalidatesDeleteCache S \<longleftrightarrow> ds_invalidateDelete S \<noteq> None"

subsection \<open>Pure parts\<close>

lemma uniqueGrants_spec: "distinct (uniqueGrants ls ow)" "set (uniqueGrants ls ow) = set ls - {ow}"
proof -
  let ?f = "\<lambda>seen login. if login = ow then seen else if login \<in> set seen then seen else login # seen"
  have "distinct seen \<Longrightarrow> distinct (foldl ?f seen ls) \<and> set (foldl ?f seen ls) = set seen \<union> (set ls - {ow})" for seen
    by (induction ls arbitrary: seen) auto
  from this [of "[]"] show "distinct (uniqueGrants ls ow)" "set (uniqueGrants ls ow) = set ls - {ow}"
    by (simp_all add: uniqueGrants_def)
qed

lemma sameLoginSet_iff: "distinct want \<Longrightarrow> distinct got \<Longrightarrow> sameLoginSet want got \<longleftrightarrow> set want = set got"
proof
  assume d: "distinct want" "distinct got" and "sameLoginSet want got"
  then have "length want = length got" "set want \<subseteq> set got"
    by (auto simp: sameLoginSet_def list_all_iff split: if_splits)
  with d show "set want = set got" by (metis List.finite_set card_subset_eq distinct_card)
next
  assume "distinct want" "distinct got" "set want = set got"
  then show "sameLoginSet want got"
    by (metis sameLoginSet_def distinct_card list_all_iff)
qed

lemma upload_document_Inr:
  assumes "upload_document L S u input = Inr x"
  shows "u_ID u \<noteq> []" "u_Login u \<noteq> []" "validName (d_Name x)" "d_Name x = d_Name (up_Document input)"
    "d_Grants x = d_Grants (up_Document input)" "int (length (d_Grants x)) \<le> ds_maxGrants S"
    "d_IsFile x = d_IsFile (up_Document input)" "d_IsFile x \<longleftrightarrow> up_File input \<noteq> None"
    "d_IsPublic x = d_IsPublic (up_Document input)" "d_JSON x = d_JSON (up_Document input)"
    "\<not> d_IsFile x \<Longrightarrow> d_JSON x \<noteq> None" "d_JSON x = Some j \<Longrightarrow> json_Valid L j"
    "if d_MIME (up_Document input) = [] then d_MIME x = [] else normalizeMIME L (d_MIME (up_Document input)) = Inr (d_MIME x)"
  using assms by (auto simp: upload_document_def Let_def split: if_splits sum.splits option.splits)

text \<open>What \<open>Upload\<close> reports when the store left it in doubt whether the document was created.\<close>

definition doubtful :: "goerr \<Rightarrow> bool" where
  "doubtful e \<longleftrightarrow> (\<exists>e'. \<not> definite e' \<and> (e = mapRepositoryError e' \<or>
     (\<exists>e2. e = Wrapped ''create document and clean up blob'' (Joined [mapRepositoryError e', e2]))))"

text \<open>What \<open>Upload\<close> reports when it could not take back the blob of an upload that failed.\<close>

definition cleanup_failed :: "goerr \<Rightarrow> bool" where
  "cleanup_failed e \<longleftrightarrow> (\<exists>e1 e2. e = Wrapped ''reject oversized blob and clean up'' (Joined [e1, e2]) \<or>
     e = Wrapped ''create document and clean up blob'' (Joined [e1, e2]))"

text \<open>
  The document an upload stores, as the caller's document determines it: \<open>x\<close> is what the service
  hands to the store, \<open>s\<close> what the store makes of it.
\<close>

definition uploaded ::
  "golib \<Rightarrow> (bytes \<Rightarrow> bytes option) \<Rightarrow> 'w doc_service \<Rightarrow> user \<Rightarrow> upload \<Rightarrow> document \<Rightarrow> document \<Rightarrow> bool" where
  "uploaded L json S u input x s \<longleftrightarrow> stored_for json x (u_Login u) s \<and> d_OwnerID x = u_ID u \<and> uuid_canonical (d_ID x) \<and>
     validName (d_Name x) \<and> d_Name x = d_Name (up_Document input) \<and>
     d_IsFile x = d_IsFile (up_Document input) \<and> d_IsPublic x = d_IsPublic (up_Document input) \<and>
     d_JSON x = d_JSON (up_Document input) \<and> (\<forall>j. d_JSON x = Some j \<longrightarrow> json_Valid L j) \<and>
     (if d_MIME (up_Document input) = [] then d_MIME x = []
      else normalizeMIME L (d_MIME (up_Document input)) = Inr (d_MIME x)) \<and>
     distinct (d_Grants x) \<and> set (d_Grants x) = set (d_Grants (up_Document input)) - {u_Login u} \<and>
     (d_IsFile x \<longrightarrow> (\<exists>src. up_File input = Some src \<and> r_err src = None \<and>
        d_SizeBytes x = int (length (r_data src)) \<and> d_SizeBytes x \<le> ds_maxFile S \<and>
        (\<exists>raw. length raw = storageKeyBytes \<and> d_StorageKey x = base64_RawURL raw)))"

subsection \<open>The environment of the service\<close>

text \<open>
  The ports over one state. The document and cleanup repositories do not touch blobs, the blob
  storage does not touch what the repositories own, and the random source touches nothing.
\<close>

locale doc_env = document_port U inv accounts D canon docs queued json + blob_port B blobs frame +
    cleanup_port K inv tasks rest prec
  for U :: "'w user_repository"
    and inv :: "'w \<Rightarrow> bool"
    and accounts :: "'w \<Rightarrow> string \<Rightarrow> (user \<times> bytes) option"
    and D :: "'w document_repository"
    and canon :: "'w \<Rightarrow> string \<Rightarrow> string option"
    and docs :: "'w \<Rightarrow> string \<Rightarrow> document option"
    and queued :: "'w \<Rightarrow> string set"
    and json :: "'w \<Rightarrow> bytes \<Rightarrow> bytes option"
    and B :: "'w blob_storage"
    and blobs :: "'w \<Rightarrow> string \<Rightarrow> bytes option"
    and frame :: "'w \<Rightarrow> 'f"
    and K :: "'w cleanup_repository"
    and tasks :: "'w \<Rightarrow> int \<Rightarrow> blobCleanupTask option"
    and rest :: "'w \<Rightarrow> 'r"
    and prec :: "time \<Rightarrow> time" +
  fixes random :: "nat \<Rightarrow> ('w, bytes) op"
  assumes blob_frame: "inv w \<Longrightarrow> frame w' = frame w \<Longrightarrow>
      inv w' \<and> accounts w' = accounts w \<and> docs w' = docs w \<and> queued w' = queued w \<and> tasks w' = tasks w \<and>
      json w' = json w"
    and queued_tasks: "inv w \<Longrightarrow> queued w = task_keys (tasks w)"
    and rest_docs: "rest w' = rest w \<Longrightarrow> accounts w' = accounts w \<and> docs w' = docs w"
    and exist_blobs: "ur_ExistingLogins U c ls w = (p1, w') \<Longrightarrow> blobs w' = blobs w"
    and create_blobs: "dr_Create D c x w = (p2, w') \<Longrightarrow> blobs w' = blobs w"
    and find_blobs: "dr_ByIDAccessible D c i q w = (p3, w') \<Longrightarrow> blobs w' = blobs w"
    and list_blobs: "dr_List D c i f w = (p4, w') \<Longrightarrow> blobs w' = blobs w"
    and remove_blobs: "dr_Delete D c i q w = (p5, w') \<Longrightarrow> blobs w' = blobs w"
    and claim_blobs: "cr_Claim K c n t w = (p6, w') \<Longrightarrow> blobs w' = blobs w"
    and complete_blobs: "cr_Complete K c j w = (p7, w') \<Longrightarrow> blobs w' = blobs w"
    and bykey_blobs: "cr_CompleteByStorageKey K c k w = (p8, w') \<Longrightarrow> blobs w' = blobs w"
    and retry_blobs: "cr_Retry K c j t w = (p9, w') \<Longrightarrow> blobs w' = blobs w"
    and random_keeps: "inv w \<Longrightarrow> random m w = (p0, w') \<Longrightarrow> inv w' \<and> accounts w' = accounts w \<and>
      docs w' = docs w \<and> queued w' = queued w \<and> tasks w' = tasks w \<and> blobs w' = blobs w \<and> json w' = json w"
    and random_length: "random m w = (Inr bs, w') \<Longrightarrow> length bs = m"
begin

text \<open>Nothing observable changed.\<close>

definition same :: "'w \<Rightarrow> 'w \<Rightarrow> bool" where
  "same w w' \<longleftrightarrow> inv w' \<and> accounts w' = accounts w \<and> docs w' = docs w \<and> queued w' = queued w \<and>
     tasks w' = tasks w \<and> blobs w' = blobs w"

definition serves :: "'w doc_service \<Rightarrow> bool" where
  "serves S \<longleftrightarrow> ds_documents S = D \<and> ds_users S = U \<and> ds_blobs S = B \<and> ds_rand S = random \<and>
     ds_cleanup S = Some K \<and> 0 < ds_maxFile S \<and> ds_maxFile S < max_int64 \<and>
     (\<forall>hook c i w r w'. ds_invalidateDelete S = Some hook \<longrightarrow> inv w \<longrightarrow> hook c i w = (r, w') \<longrightarrow> same w w')"

lemma same_trans: "same w w1 \<Longrightarrow> same w1 w2 \<Longrightarrow> same w w2"
  by (auto simp: same_def)

lemma blob_step:
  assumes "inv w" "frame w' = frame w"
  shows "inv w' \<and> accounts w' = accounts w \<and> docs w' = docs w \<and> queued w' = queued w \<and> tasks w' = tasks w \<and>
    json w' = json w"
  using blob_frame [OF assms] .

lemma upload_blob_cases:
  assumes S: "serves S" and inv: "inv w" and run: "upload_blob S c x file w = (r, w')"
  shows "inv w' \<and> accounts w' = accounts w \<and> docs w' = docs w \<and> queued w' = queued w \<and> tasks w' = tasks w \<and>
    json w' = json w \<and>
    (case r of
       Inr y \<Rightarrow> \<exists>raw src. length raw = storageKeyBytes \<and> file = Some src \<and> r_err src = None \<and>
         int (length (r_data src)) \<le> ds_maxFile S \<and>
         y = x\<lparr>d_StorageKey := base64_RawURL raw, d_SizeBytes := int (length (r_data src))\<rparr> \<and>
         blobs w (base64_RawURL raw) = None \<and> blobs w' = (blobs w)(base64_RawURL raw \<mapsto> r_data src)
     | Inl e \<Rightarrow> blobs w' = blobs w \<or>
         cleanup_failed e \<and> (\<exists>key b. blobs w key = None \<and> blobs w' = (blobs w)(key \<mapsto> b)))"
proof -
  have S': "ds_blobs S = B" "ds_rand S = random" "0 < ds_maxFile S" "ds_maxFile S < max_int64"
    using S by (simp_all add: serves_def)
  obtain r1 w1 where rnd: "random storageKeyBytes w = (r1, w1)" by fastforce
  note k1 = random_keeps [OF inv rnd]
  show ?thesis
  proof (cases r1)
    case (Inl e)
    with run S' rnd k1 show ?thesis by (auto simp: upload_blob_def randomStorageKey_def)
  next
    case (Inr raw)
    let ?key = "base64_RawURL raw" and ?file = "map_option (\<lambda>r. limited_reader r (ds_maxFile S + 1)) file"
    have len: "length raw = storageKeyBytes" using random_length rnd Inr by blast
    have key: "randomStorageKey (ds_rand S) w = (Inr ?key, w1)"
      using rnd Inr S' by (simp add: randomStorageKey_def)
    have lim: "wrap64 (ds_maxFile S + 1) = ds_maxFile S + 1"
      using S' by (simp add: min_int64_def max_int64_def)
    obtain r2 w2 where put: "bs_Put B c ?key ?file w1 = (r2, w2)" by fastforce
    have inv1: "inv w1" using k1 by simp
    note k2 = blob_step [OF inv1 put_frame [OF put]]
    show ?thesis
    proof (cases r2)
      case (Inl e)
      then have "blobs w2 = blobs w" using put_err put k1 by metis
      with run S' key lim put k1 k2 Inl show ?thesis by (auto simp: upload_blob_def)
    next
      case (Inr n)
      obtain src where src: "?file = Some src" "r_err src = None" "n = int (length (r_data src))"
        "blobs w1 ?key = None" "blobs w2 = (blobs w1)(?key \<mapsto> r_data src)"
        using put_ok [OF put [unfolded Inr]] by blast
      obtain f where f: "file = Some f" "src = limited_reader f (ds_maxFile S + 1)" using src(1) by auto
      show ?thesis
      proof (cases "n > ds_maxFile S")
        case False
        then have "src = f" using limited_reader_small [of "ds_maxFile S" f] S'(3) f(2) src(3) by simp
        with run S' key lim put k1 k2 Inr False src f len show ?thesis by (auto simp: upload_blob_def)
      next
        case True
        obtain r3 w3 where del: "bs_Delete B (context_WithoutCancel c) ?key w2 = (r3, w3)" by fastforce
        have inv2: "inv w2" using k2 by simp
        note k3 = blob_step [OF inv2 delete_frame [OF del]]
        have res: "w' = w3" "r = (case r3 of Inl e \<Rightarrow> Inl (if \<not> errors_Is e BlobErrNotFound
              then Wrapped ''reject oversized blob and clean up'' (Joined [Sentinel ErrInvalidArgument, e])
              else Sentinel ErrInvalidArgument) | Inr _ \<Rightarrow> Inl (Sentinel ErrInvalidArgument))"
          using run S' key lim put Inr True del by (auto simp: upload_blob_def split: sum.splits)
        show ?thesis
        proof (cases "r3 = Inr () \<or> (\<exists>e. r3 = Inl e \<and> errors_Is e BlobErrNotFound)")
          case True
          from delete_gone [OF del this] src(4,5) have "blobs w3 = blobs w1" by (auto simp: fun_eq_iff)
          with res k1 k2 k3 True show ?thesis by auto
        next
          case False
          then obtain e where e: "r3 = Inl e" "\<not> errors_Is e BlobErrNotFound" by (cases r3) auto
          then have "blobs w3 = (blobs w1)(?key \<mapsto> r_data src)"
            using delete_err del src(5) by metis
          with res k1 k2 k3 e src(4) show ?thesis by (auto simp: cleanup_failed_def)
        qed
      qed
    qed
  qed
qed

text \<open>
  Creating the metadata of a document with a fresh id, after the blob (if any) was stored. On
  an error that leaves the store in doubt the blob is deleted although the document may exist.
\<close>

lemma upload_create_cases:
  assumes S: "serves S" and inv: "inv w" and c: "\<not> c_tx c"
    and acc: "accounts w l = Some (u, h)" "d_OwnerID x = u_ID u" and id: "uuid_canonical (d_ID x)"
    and run: "upload_create S c x w = (r, w')"
  shows "inv w' \<and> accounts w' = accounts w \<and> queued w' = queued w \<and>
    (case r of
       Inr y \<Rightarrow> docs w (d_ID x) = None \<and> stored_for (json w) x l y \<and>
         (\<exists>s. stored_for (json w) x l s \<and> docs w' = (docs w)(d_ID x \<mapsto> s)) \<and> blobs w' = blobs w
     | Inl e \<Rightarrow> (docs w' = docs w \<or> docs w (d_ID x) = None \<and>
           doubtful e \<and> (\<exists>s. stored_for (json w) x l s \<and> docs w' = (docs w)(d_ID x \<mapsto> s))) \<and>
         (if d_IsFile x then blobs w' = (blobs w)(d_StorageKey x := None) \<or> cleanup_failed e \<and> blobs w' = blobs w
          else blobs w' = blobs w))"
proof -
  have S': "ds_blobs S = B" "ds_documents S = D" using S by (simp_all add: serves_def)
  obtain r1 w1 where cr: "dr_Create D c x w = (r1, w1)" by fastforce
  note k1 = dcreate_keeps [OF inv c cr] create_blobs [OF cr]
  show ?thesis
  proof (cases r1)
    case (Inr y)
    with run S' cr have "r = Inr y" "w' = w1" by (simp_all add: upload_create_def)
    with dcreate_ok [OF inv c acc id cr [unfolded Inr]] k1 show ?thesis by auto
  next
    case (Inl e)
    have d1: "docs w1 = docs w \<or> \<not> definite e \<and> docs w (d_ID x) = None \<and>
        (\<exists>s. stored_for (json w) x l s \<and> docs w1 = (docs w)(d_ID x \<mapsto> s))"
      using dcreate_err [OF inv c acc id cr [unfolded Inl]] by blast
    show ?thesis
    proof (cases "d_IsFile x")
      case False
      with run S' cr Inl have "r = Inl (mapRepositoryError e)" "w' = w1" by (simp_all add: upload_create_def)
      with d1 k1 False show ?thesis by (auto simp: doubtful_def)
    next
      case True
      obtain r2 w2 where del: "bs_Delete B (context_WithoutCancel c) (d_StorageKey x) w1 = (r2, w2)" by fastforce
      have inv1: "inv w1" using k1 by simp
      note k2 = blob_step [OF inv1 delete_frame [OF del]]
      have res: "w' = w2" "\<exists>e1. r = Inl e1 \<and> (e1 = mapRepositoryError e \<or>
          (\<exists>e2. e1 = Wrapped ''create document and clean up blob'' (Joined [mapRepositoryError e, e2])))"
        using run S' cr Inl True del by (auto simp: upload_create_def split: sum.splits)
      then have doubt: "\<exists>e1. r = Inl e1 \<and> (\<not> definite e \<longrightarrow> doubtful e1)" by (auto simp: doubtful_def)
      have "blobs w2 = (blobs w1)(d_StorageKey x := None) \<or> blobs w2 = blobs w1 \<and> (\<exists>e1. r = Inl e1 \<and> cleanup_failed e1)"
      proof (cases "r2 = Inr () \<or> (\<exists>e. r2 = Inl e \<and> errors_Is e BlobErrNotFound)")
        case True
        from delete_gone [OF del this] show ?thesis ..
      next
        case False
        then obtain e2 where e2: "r2 = Inl e2" "\<not> errors_Is e2 BlobErrNotFound" by (cases r2) auto
        have "r = Inl (Wrapped ''create document and clean up blob'' (Joined [mapRepositoryError e, e2]))"
          using run S' cr Inl True del e2 by (simp add: upload_create_def)
        then show ?thesis using delete_err [OF del [unfolded e2(1)]] by (auto simp: cleanup_failed_def)
      qed
      with res(1) doubt k1 k2 d1 True show ?thesis by auto
    qed
  qed
qed

text \<open>The file of an upload: \<open>filed S input x y w w'\<close> says that \<open>x\<close> became \<open>y\<close> by storing its file, if it has one.\<close>

definition filed :: "'w doc_service \<Rightarrow> upload \<Rightarrow> document \<Rightarrow> document \<Rightarrow> 'w \<Rightarrow> 'w \<Rightarrow> bool" where
  "filed S input x y w w' \<longleftrightarrow> (\<exists>key n. y = x\<lparr>d_StorageKey := key, d_SizeBytes := n\<rparr> \<and>
     (if d_IsFile x then \<exists>src raw. up_File input = Some src \<and> r_err src = None \<and> n = int (length (r_data src)) \<and>
        n \<le> ds_maxFile S \<and> length raw = storageKeyBytes \<and> key = base64_RawURL raw \<and>
        blobs w key = None \<and> blobs w' = (blobs w)(key \<mapsto> r_data src)
      else blobs w' = blobs w))"

lemma filed_cong: "filed S input x y w1 w' \<Longrightarrow> blobs w1 = blobs w \<Longrightarrow> filed S input x y w w'"
  unfolding filed_def by (simp only:)

lemma upload_file_cases:
  assumes S: "serves S" and inv: "inv w" and untouched: "d_StorageKey x = []" "d_SizeBytes x = 0"
    and run: "(if d_IsFile x then upload_blob S c x (up_File input) else ret x) w = (r, w')"
  shows "inv w' \<and> accounts w' = accounts w \<and> docs w' = docs w \<and> queued w' = queued w \<and> json w' = json w \<and>
    (case r of Inr y \<Rightarrow> filed S input x y w w'
     | Inl e \<Rightarrow> blobs w' = blobs w \<or> cleanup_failed e \<and> (\<exists>key b. blobs w key = None \<and> blobs w' = (blobs w)(key \<mapsto> b)))"
proof (cases "d_IsFile x")
  case True
  with run have blob: "upload_blob S c x (up_File input) w = (r, w')" by simp
  show ?thesis
  proof (cases r)
    case (Inl e)
    with upload_blob_cases [OF S inv blob] show ?thesis by auto
  next
    case (Inr y)
    from upload_blob_cases [OF S inv blob] Inr obtain raw src where
      "length raw = storageKeyBytes" "up_File input = Some src" "r_err src = None"
      "int (length (r_data src)) \<le> ds_maxFile S"
      "y = x\<lparr>d_StorageKey := base64_RawURL raw, d_SizeBytes := int (length (r_data src))\<rparr>"
      "blobs w (base64_RawURL raw) = None" "blobs w' = (blobs w)(base64_RawURL raw \<mapsto> r_data src)"
      "inv w'" "accounts w' = accounts w" "docs w' = docs w" "queued w' = queued w" "json w' = json w" by auto
    with True Inr show ?thesis by (auto simp: filed_def)
  qed
next
  case False
  with run inv untouched show ?thesis by (auto simp: filed_def intro!: exI [of _ "[]"] exI [of _ "0"])
qed

text \<open>What an upload leaves, as \<open>upload_cases\<close> spells it out.\<close>

definition upload_outcome :: "golib \<Rightarrow> 'w doc_service \<Rightarrow> user \<Rightarrow> upload \<Rightarrow> 'w \<Rightarrow> goerr + document \<Rightarrow> 'w \<Rightarrow> bool" where
  "upload_outcome L S u input w r w' \<longleftrightarrow> inv w' \<and> accounts w' = accounts w \<and> queued w' = queued w \<and>
    (\<forall>k b. blobs w k = Some b \<longrightarrow> blobs w' k = Some b) \<and>
    (case r of
       Inr y \<Rightarrow> \<exists>x s. uploaded L (json w) S u input x s \<and> uploaded L (json w) S u input x y \<and> docs w (d_ID x) = None \<and>
         docs w' = (docs w)(d_ID x \<mapsto> s) \<and> (\<forall>g \<in> set (d_Grants x). accounts w g \<noteq> None) \<and>
         (if d_IsFile x then blobs w (d_StorageKey x) = None \<and> (\<exists>src. up_File input = Some src \<and>
            blobs w' = (blobs w)(d_StorageKey x \<mapsto> r_data src)) else blobs w' = blobs w)
     | Inl e \<Rightarrow> docs w' = docs w \<and>
           (blobs w' = blobs w \<or> cleanup_failed e \<and> (\<exists>key b. blobs w key = None \<and> blobs w' = (blobs w)(key \<mapsto> b))) \<or>
         doubtful e \<and> (\<exists>x s. uploaded L (json w) S u input x s \<and> docs w (d_ID x) = None \<and>
           docs w' = (docs w)(d_ID x \<mapsto> s) \<and>
           (if d_IsFile x then blobs w (d_StorageKey x) = None \<and> (blobs w' = blobs w \<or> cleanup_failed e \<and>
              (\<exists>src. up_File input = Some src \<and> blobs w' = (blobs w)(d_StorageKey x \<mapsto> r_data src)))
            else blobs w' = blobs w)))"

text \<open>The last stage: the metadata of a document whose file is stored.\<close>

lemma upload_metadata_cases:
  assumes S: "serves S" and c: "\<not> c_tx c" and acc: "accounts w (u_Login u) = Some (u, h)"
    and w1: "inv w1" "accounts w1 = accounts w" "docs w1 = docs w" "queued w1 = queued w" "json w1 = json w"
    and x: "d_OwnerID x = u_ID u" "uuid_canonical (d_ID x)" "\<forall>g \<in> set (d_Grants x). accounts w g \<noteq> None"
    and filed: "filed S input x y w w1"
    and upl: "\<And>s. stored_for (json w) y (u_Login u) s \<Longrightarrow> uploaded L (json w) S u input y s"
    and run: "upload_create S c y w1 = (r, w')"
  shows "upload_outcome L S u input w r w'"
proof -
  have y: "d_OwnerID y = u_ID u" "uuid_canonical (d_ID y)" "\<forall>g \<in> set (d_Grants y). accounts w g \<noteq> None"
    using x filed by (auto simp: filed_def)
  have b: "if d_IsFile y then blobs w (d_StorageKey y) = None \<and> (\<exists>src. up_File input = Some src \<and>
      blobs w1 = (blobs w)(d_StorageKey y \<mapsto> r_data src)) else blobs w1 = blobs w"
    using filed by (auto simp: filed_def split: if_splits)
  have acc1: "accounts w1 (u_Login u) = Some (u, h)" using acc w1 by simp
  note cases = upload_create_cases [OF S w1(1) c acc1 y(1,2) run]
  show ?thesis
  proof (cases r)
    case (Inl e)
    have left: "if d_IsFile y then blobs w (d_StorageKey y) = None \<and> (blobs w' = blobs w \<or> cleanup_failed e \<and>
          (\<exists>src. up_File input = Some src \<and> blobs w' = (blobs w)(d_StorageKey y \<mapsto> r_data src)))
        else blobs w' = blobs w"
      using cases Inl b by (auto simp: fun_upd_idem split: if_splits)
    then have keep: "\<forall>k b. blobs w k = Some b \<longrightarrow> blobs w' k = Some b"
      by (auto split: if_splits)
    consider "docs w' = docs w" | s where "doubtful e" "docs w (d_ID y) = None" "uploaded L (json w) S u input y s"
        "docs w' = (docs w)(d_ID y \<mapsto> s)"
      using cases Inl w1(3,5) upl by auto
    then show ?thesis
    proof cases
      case 1
      moreover have "blobs w' = blobs w \<or> cleanup_failed e \<and> (\<exists>key b. blobs w key = None \<and> blobs w' = (blobs w)(key \<mapsto> b))"
        using left by (auto split: if_splits)
      ultimately show ?thesis using keep cases w1 Inl by (simp add: upload_outcome_def)
    next
      case 2
      have "\<exists>x s. uploaded L (json w) S u input x s \<and> docs w (d_ID x) = None \<and> docs w' = (docs w)(d_ID x \<mapsto> s) \<and>
          (if d_IsFile x then blobs w (d_StorageKey x) = None \<and> (blobs w' = blobs w \<or> cleanup_failed e \<and>
              (\<exists>src. up_File input = Some src \<and> blobs w' = (blobs w)(d_StorageKey x \<mapsto> r_data src)))
            else blobs w' = blobs w)"
        by (intro exI [of _ y] exI [of _ s] conjI 2 left)
      moreover have "inv w' \<and> accounts w' = accounts w \<and> queued w' = queued w" using cases w1 by simp
      ultimately show ?thesis unfolding upload_outcome_def using keep 2(1) by (simp only: Inl sum.case simp_thms)
    qed
  next
    case (Inr z)
    with cases w1 b upl y(3) show ?thesis by (auto simp: upload_outcome_def split: if_splits)
  qed
qed

lemma upload_cases:
  assumes S: "serves S" and inv: "inv w" and c: "\<not> c_tx c"
    and acc: "accounts w (u_Login u) = Some (u, h)"
    and run: "doc_Upload L S c u input w = (r, w')"
  shows "inv w' \<and> accounts w' = accounts w \<and> queued w' = queued w \<and>
    (\<forall>k b. blobs w k = Some b \<longrightarrow> blobs w' k = Some b) \<and>
    (case r of
       Inr y \<Rightarrow> \<exists>x s. uploaded L (json w) S u input x s \<and> uploaded L (json w) S u input x y \<and> docs w (d_ID x) = None \<and>
         docs w' = (docs w)(d_ID x \<mapsto> s) \<and> (\<forall>g \<in> set (d_Grants x). accounts w g \<noteq> None) \<and>
         (if d_IsFile x then blobs w (d_StorageKey x) = None \<and> (\<exists>src. up_File input = Some src \<and>
            blobs w' = (blobs w)(d_StorageKey x \<mapsto> r_data src)) else blobs w' = blobs w)
     | Inl e \<Rightarrow> docs w' = docs w \<and>
           (blobs w' = blobs w \<or> cleanup_failed e \<and> (\<exists>key b. blobs w key = None \<and> blobs w' = (blobs w)(key \<mapsto> b))) \<or>
         doubtful e \<and> (\<exists>x s. uploaded L (json w) S u input x s \<and> docs w (d_ID x) = None \<and>
           docs w' = (docs w)(d_ID x \<mapsto> s) \<and>
           (if d_IsFile x then blobs w (d_StorageKey x) = None \<and> (blobs w' = blobs w \<or> cleanup_failed e \<and>
              (\<exists>src. up_File input = Some src \<and> blobs w' = (blobs w)(d_StorageKey x \<mapsto> r_data src)))
            else blobs w' = blobs w)))"
proof -
  have "upload_outcome L S u input w r w'"
  proof (cases "upload_document L S u input")
    case (Inl e)
    with run have "r = Inl e" "w' = w" by (simp_all add: doc_Upload_def)
    with inv show ?thesis by (simp add: upload_outcome_def)
  next
    case x0: (Inr x0)
    have S': "ds_users S = U" "ds_rand S = random" using S by (simp_all add: serves_def)
    let ?gs = "uniqueGrants (d_Grants x0) (u_Login u)"
    obtain r1 w1 where ex: "ur_ExistingLogins U c ?gs w = (r1, w1)" by fastforce
    note k1 = uexist_keeps [OF inv c ex] uexist_docs [OF inv c ex] exist_blobs [OF ex]
    obtain r2 w2 where rnd: "random 16 w1 = (r2, w2)" by fastforce
    have inv1: "inv w1" using k1 by simp
    note k2 = random_keeps [OF inv1 rnd]
    have fails: ?thesis if "r = Inl e" "w' = w1 \<or> w' = w2" for e
      using that k1 k2 by (auto simp: upload_outcome_def)
    show ?thesis
    proof (cases "(\<exists>found. r1 = Inr found \<and> sameLoginSet ?gs found) \<and> (\<exists>raw. r2 = Inr raw)")
      case False
      then obtain e where "r = Inl e" "w' = w1 \<or> w' = w2"
        using run x0 S' ex rnd by (cases r1; cases r2) (auto simp: doc_Upload_def Let_def split: if_splits)
      then show ?thesis by (rule fails)
    next
      case True
      then obtain found raw where found: "r1 = Inr found" "sameLoginSet ?gs found" and raw: "r2 = Inr raw" by blast
      let ?x = "x0\<lparr>d_ID := uuid_String (uuid_v4 raw), d_OwnerID := u_ID u, d_Grants := ?gs,
          d_StorageKey := [], d_SizeBytes := 0\<rparr>"
      have x: "d_OwnerID ?x = u_ID u" "uuid_canonical (d_ID ?x)" "\<forall>g \<in> set (d_Grants ?x). accounts w g \<noteq> None"
        using uexist_ok [OF inv c ex [unfolded found(1)]] found(2) sameLoginSet_iff uniqueGrants_spec(1)
          uuid_v4_wf [OF random_length [OF rnd [unfolded raw]]] by auto
      obtain r3 w3 where store: "(if d_IsFile ?x then upload_blob S c ?x (up_File input) else ret ?x) w2 = (r3, w3)"
        by fastforce
      have run3: "(r, w') = (case r3 of Inl e \<Rightarrow> (Inl e, w3) | Inr y \<Rightarrow> upload_create S c y w3)"
        using run x0 S' ex found rnd raw store by (auto simp: doc_Upload_def Let_def and_then_def split: sum.splits)
      have inv2: "inv w2" using k2 by simp
      note k3 = upload_file_cases [OF S inv2 _ _ store]
      show ?thesis
      proof (cases r3)
        case (Inl e)
        with run3 k1 k2 k3 show ?thesis by (auto simp: upload_outcome_def)
      next
        case (Inr y)
        then have filed: "filed S input ?x y w w3" using k1 k2 k3 by (intro filed_cong [of S input ?x y w2 w3 w]) simp_all
        have "uploaded L (json w) S u input y s" if "stored_for (json w) y (u_Login u) s" for s
          using that upload_document_Inr [OF x0] filed x(1,2) uniqueGrants_spec unfolding uploaded_def filed_def
          by (auto split: if_splits)
        from upload_metadata_cases [OF S c acc _ _ _ _ _ x filed this, of r w'] show ?thesis
          using run3 Inr k1 k2 k3 by simp
      qed
    qed
  qed
  then show ?thesis unfolding upload_outcome_def .
qed

text \<open>Reading: access is decided on the stored document, and nothing changes.\<close>

lemma metadata_cases:
  assumes S: "serves S" and inv: "inv w" and c: "\<not> c_tx c" and acc: "accounts w (u_Login u) = Some (u, h)"
    and run: "doc_getMetadata S c u i w = (r, w')"
  shows "inv w' \<and> accounts w' = accounts w \<and> docs w' = docs w \<and> queued w' = queued w \<and> blobs w' = blobs w \<and>
    (case r of
       Inr x \<Rightarrow> \<exists>k. canon w i = Some k \<and> docs w k = Some x \<and> readable u x
     | Inl e \<Rightarrow> (e = Sentinel ErrForbidden \<longrightarrow> (\<exists>k x. canon w i = Some k \<and> docs w k = Some x \<and> \<not> readable u x)) \<and>
         (e = Sentinel ErrNotFound \<longrightarrow> (\<exists>k. canon w i = Some k \<and> docs w k = None)))"
proof (cases "u_ID u = [] \<or> u_Login u = [] \<or> i = []")
  case True
  with run inv show ?thesis by (auto simp: doc_getMetadata_def)
next
  case False
  obtain r1 w1 where find: "dr_ByIDAccessible D c i (u_ID u) w = (r1, w1)" by fastforce
  have res: "w' = w1" "r = (case r1 of Inl e \<Rightarrow> Inl (mapRepositoryError e) | Inr x \<Rightarrow> Inr x)"
    using run False find S by (auto simp: doc_getMetadata_def serves_def map_err_def split: sum.splits)
  note k1 = dfind_keeps [OF inv c find] find_blobs [OF find]
  show ?thesis
  proof (cases r1)
    case (Inr x)
    with dfind_ok [OF inv c acc find [unfolded Inr]] res k1 show ?thesis by simp
  next
    case (Inl e)
    have "mapRepositoryError e = Sentinel ErrForbidden \<Longrightarrow> errors_Is e RepoErrForbidden"
      "mapRepositoryError e = Sentinel ErrNotFound \<Longrightarrow> errors_Is e RepoErrNotFound"
      by (auto simp: mapRepositoryError_def split: if_splits)
    with dfind_forbidden [OF inv c acc find [unfolded Inl]] dfind_not_found [OF inv c acc find [unfolded Inl]]
      res k1 Inl show ?thesis by simp
  qed
qed

lemma get_cases:
  assumes S: "serves S" and inv: "inv w" and c: "\<not> c_tx c" and acc: "accounts w (u_Login u) = Some (u, h)"
    and run: "doc_Get S c u i w = (r, w')"
  shows "inv w' \<and> accounts w' = accounts w \<and> docs w' = docs w \<and> queued w' = queued w \<and> blobs w' = blobs w \<and>
    (case r of
       Inr ct \<Rightarrow> \<exists>k x. canon w i = Some k \<and> docs w k = Some x \<and> readable u x \<and>
         (if d_IsFile x then \<exists>data. blobs w (d_StorageKey x) = Some data \<and>
            ct = \<lparr>ct_Document = x\<lparr>d_SizeBytes := int (length data)\<rparr>,
                  ct_File = Some \<lparr>r_data = data, r_err = None\<rparr>\<rparr>
          else ct = \<lparr>ct_Document = x, ct_File = None\<rparr>)
     | Inl e \<Rightarrow> (e = Sentinel ErrForbidden \<longrightarrow> (\<exists>k x. canon w i = Some k \<and> docs w k = Some x \<and> \<not> readable u x)) \<and>
         (e = Sentinel ErrNotFound \<longrightarrow> (\<exists>k. canon w i = Some k \<and> docs w k = None)))"
proof -
  obtain r1 w1 where meta: "doc_getMetadata S c u i w = (r1, w1)" by fastforce
  note m = metadata_cases [OF S inv c acc meta]
  show ?thesis
  proof (cases r1)
    case (Inl e)
    with run meta have "r = Inl e" "w' = w1" by (simp_all add: doc_Get_def)
    with m Inl show ?thesis by simp
  next
    case (Inr x)
    show ?thesis
    proof (cases "d_IsFile x")
      case False
      have "r = Inr \<lparr>ct_Document = x, ct_File = None\<rparr>" "w' = w1"
        using run meta Inr False by (simp_all add: doc_Get_def)
      with m Inr False show ?thesis by fastforce
    next
      case True
      obtain r2 w2 where op: "bs_Open B c (d_StorageKey x) w1 = (r2, w2)" by fastforce
      have inv1: "inv w1" using m by simp
      note k2 = open_keeps [OF op] blob_step [OF inv1 open_keeps [OF op, THEN conjunct2]]
      show ?thesis
      proof (cases r2)
        case (Inl e)
        with run meta Inr True op S k2 m show ?thesis by (auto simp: doc_Get_def serves_def)
      next
        case ob: (Inr ob)
        from open_ok [OF op [unfolded ob]] obtain data where data: "blobs w1 (d_StorageKey x) = Some data"
          "ob = \<lparr>o_Body = Some \<lparr>r_data = data, r_err = None\<rparr>, o_Size = int (length data)\<rparr>" by blast
        have S': "ds_blobs S = B" using S by (simp add: serves_def)
        have r: "r = Inr \<lparr>ct_Document = x\<lparr>d_SizeBytes := int (length data)\<rparr>,
            ct_File = Some \<lparr>r_data = data, r_err = None\<rparr>\<rparr>" "w' = w2"
          using run meta Inr True op ob data(2) by (simp_all add: doc_Get_def S')
        obtain k where k: "canon w i = Some k" "docs w k = Some x" "readable u x" using m Inr by auto
        have keep: "inv w2 \<and> accounts w2 = accounts w \<and> docs w2 = docs w \<and> queued w2 = queued w \<and> blobs w2 = blobs w"
          using k2 m by simp
        have "blobs w (d_StorageKey x) = Some data" using data(1) m by simp
        with k True have "\<exists>k x'. canon w i = Some k \<and> docs w k = Some x' \<and> readable u x' \<and>
            (if d_IsFile x' then \<exists>data'. blobs w (d_StorageKey x') = Some data' \<and>
               \<lparr>ct_Document = x\<lparr>d_SizeBytes := int (length data)\<rparr>, ct_File = Some \<lparr>r_data = data, r_err = None\<rparr>\<rparr> =
               \<lparr>ct_Document = x'\<lparr>d_SizeBytes := int (length data')\<rparr>,
                  ct_File = Some \<lparr>r_data = data', r_err = None\<rparr>\<rparr>
             else \<lparr>ct_Document = x\<lparr>d_SizeBytes := int (length data)\<rparr>,
               ct_File = Some \<lparr>r_data = data, r_err = None\<rparr>\<rparr> = \<lparr>ct_Document = x', ct_File = None\<rparr>)"
          by (intro exI [of _ k] exI [of _ x]) simp
        then show ?thesis unfolding r sum.case using keep by blast
      qed
    qed
  qed
qed

lemma list_cases:
  assumes S: "serves S" and inv: "inv w" and c: "\<not> c_tx c" and acc: "accounts w (u_Login u) = Some (u, h)"
    and run: "doc_List L S c u f w = (r, w')"
  shows "inv w' \<and> accounts w' = accounts w \<and> docs w' = docs w \<and> queued w' = queued w \<and> blobs w' = blobs w \<and>
    (\<forall>xs. r = Inr xs \<longrightarrow> 0 \<le> f_Limit f \<and> f_Limit f \<le> ds_maxList S \<and> distinct (map d_ID xs) \<and>
      (\<forall>x \<in> set xs. docs w (d_ID x) = Some x \<and> readable u x) \<and> (0 < f_Limit f \<longrightarrow> int (length xs) \<le> f_Limit f))"
proof (cases "u_ID u = [] \<or> u_Login u = [] \<or> f_Limit f < 0 \<or> f_Limit f > ds_maxList S \<or>
    validateDocumentFilter L (f_Key f) (f_Value f) \<noteq> None")
  case True
  then have "\<exists>e. r = Inl e" "w' = w" using run by (auto simp: doc_List_def split: if_splits option.splits)
  with inv show ?thesis by auto
next
  case False
  obtain r1 w1 where ls: "dr_List D c (u_ID u) f w = (r1, w1)" by fastforce
  have res: "w' = w1" "r = (case r1 of Inl e \<Rightarrow> Inl (mapRepositoryError e) | Inr x \<Rightarrow> Inr x)"
    using run False ls S by (auto simp: doc_List_def serves_def map_err_def split: sum.splits)
  note k1 = dlist_keeps [OF inv c ls] list_blobs [OF ls]
  show ?thesis
  proof (cases r1)
    case (Inr xs)
    with dlist_ok [OF inv c acc ls [unfolded Inr]] res k1 False show ?thesis by simp
  qed (use res k1 in simp)
qed

text \<open>
  Deleting. Only the owner's document disappears; its blob and its queue entry go in that order,
  so that a key leaves the queue only when its blob is gone.
\<close>

lemma complete_step_cases:
  assumes S: "serves S" and inv: "inv w" and c: "\<not> c_tx c" and run: "complete_step S c key res w = (res', w')"
  shows "inv w' \<and> accounts w' = accounts w \<and> docs w' = docs w \<and> blobs w' = blobs w \<and>
    (queued w' = queued w \<or> queued w' = queued w - {key}) \<and>
    (res' = None \<longrightarrow> res = None \<and> queued w' = queued w - {key})"
proof -
  obtain r1 w1 where run1: "cr_CompleteByStorageKey K c key w = (r1, w1)" by fastforce
  have res: "w' = w1" "res' = (case r1 of Inl e \<Rightarrow>
      errors_Join [res, Some (Wrapped ''confirm document blob cleanup'' e)] | Inr _ \<Rightarrow> res)"
    using run run1 S by (auto simp: complete_step_def serves_def split: sum.splits)
  note k1 = kbykey_keeps [OF inv c run1] bykey_blobs [OF run1]
  have inv1: "inv w1" using k1 by simp
  have drop: "task_keys (drop_key key T) = task_keys T - {key}" for T
    by (auto simp: task_keys_iff drop_key_def set_eq_iff split: option.splits)
  have "tasks w1 = tasks w \<and> (\<exists>e. r1 = Inl e) \<or> tasks w1 = drop_key key (tasks w)"
  proof (cases r1)
    case (Inl e)
    with kbykey_err [OF inv c run1 [unfolded Inl]] show ?thesis by simp
  next
    case (Inr v)
    with kbykey_ok [OF inv c run1 [unfolded Inr]] show ?thesis by simp
  qed
  moreover have "queued w1 = task_keys (tasks w1)" "queued w = task_keys (tasks w)"
    using queued_tasks inv inv1 by simp_all
  ultimately have "queued w1 = queued w \<and> (\<exists>e. r1 = Inl e) \<or> queued w1 = queued w - {key}"
    using drop by auto
  then show ?thesis
    using res k1 rest_docs [of w1 w] by (auto simp: errors_Join_None_iff split: sum.splits)
qed

lemma delete_blob_cases:
  assumes S: "serves S" and inv: "inv w" and c: "\<not> c_tx c" and isf: "d_IsFile x"
    and run: "(case bs_Delete B c (d_StorageKey x) w of
            (Inr _, w3) \<Rightarrow> complete_step S c (d_StorageKey x) res0 w3
          | (Inl e, w3) \<Rightarrow>
              if \<not> errors_Is e BlobErrNotFound
              then (errors_Join [res0, Some (Wrapped ''delete document blob'' e)], w3)
              else complete_step S c (d_StorageKey x) res0 w3) = (res, w')"
  shows "inv w' \<and> accounts w' = accounts w \<and> docs w' = docs w \<and>
    ((\<exists>e. res = Some e) \<and> queued w' = queued w \<and> blobs w' = blobs w \<or>
     blobs w' = (blobs w)(d_StorageKey x := None) \<and>
       (queued w' = queued w \<and> (\<exists>e. res = Some e) \<or> queued w' = queued w - {d_StorageKey x}))"
proof -
  obtain r3 w3 where bd: "bs_Delete B c (d_StorageKey x) w = (r3, w3)" by fastforce
  note k3 = blob_step [OF inv delete_frame [OF bd]]
  have inv3: "inv w3" using k3 by simp
  show ?thesis
  proof (cases "\<exists>e. r3 = Inl e \<and> \<not> errors_Is e BlobErrNotFound")
    case True
    then obtain e where e: "r3 = Inl e" "\<not> errors_Is e BlobErrNotFound" by blast
    then have "res = errors_Join [res0, Some (Wrapped ''delete document blob'' e)]" "w' = w3"
      using run bd by simp_all
    moreover have "blobs w3 = blobs w" using delete_err [OF bd [unfolded e(1)]] by simp
    moreover have "errors_Join [res0, Some (Wrapped ''delete document blob'' e)] \<noteq> None"
      by (simp add: errors_Join_None_iff del: not_None_eq)
    ultimately show ?thesis using k3 by auto
  next
    case False
    then have gone: "r3 = Inr () \<or> (\<exists>e. r3 = Inl e \<and> errors_Is e BlobErrNotFound)" by (cases r3) auto
    have "complete_step S c (d_StorageKey x) res0 w3 = (res, w')" using run bd gone by auto
    from complete_step_cases [OF S inv3 c this] show ?thesis
      using k3 delete_gone [OF bd gone] by auto
  qed
qed

lemma invalidate_step_same:
  assumes "serves S" "inv w" "invalidate_step S c i w = (res, w')"
  shows "same w w'"
proof (cases "ds_invalidateDelete S")
  case None
  with assms(2,3) show ?thesis by (auto simp: invalidate_step_def same_def)
next
  case (Some h)
  obtain r3 w3 where h: "h c i w = (r3, w3)" by fastforce
  then have "same w w3" using assms(1,2) Some unfolding serves_def by blast
  with assms(3) Some h show ?thesis by (auto simp: invalidate_step_def split: sum.splits)
qed

lemma delete_cases:
  assumes S: "serves S" and inv: "inv w" and c: "\<not> c_tx c" and run: "doc_Delete S c u i w = (res, w')"
  shows "inv w' \<and> accounts w' = accounts w \<and>
    ((\<exists>e. res = Some e) \<and> docs w' = docs w \<and> queued w' = queued w \<and> blobs w' = blobs w \<or>
     (\<exists>k x. canon w i = Some k \<and> docs w k = Some x \<and> d_OwnerID x = u_ID u \<and> docs w' = (docs w)(k := None) \<and>
       (queued w' = queued w \<union> removed_keys x \<and> blobs w' = blobs w \<and> (d_IsFile x \<longrightarrow> (\<exists>e. res = Some e)) \<or>
        d_IsFile x \<and> blobs w' = (blobs w)(d_StorageKey x := None) \<and>
        (queued w' = queued w \<union> removed_keys x \<and> (\<exists>e. res = Some e) \<or>
         queued w' = queued w - {d_StorageKey x}))))"
proof (cases "u_ID u = [] \<or> u_Login u = [] \<or> i = []")
  case True
  with run inv show ?thesis by (auto simp: doc_Delete_def)
next
  case False
  obtain r1 w1 where del: "dr_Delete D c i (u_ID u) w = (r1, w1)" by fastforce
  note k1 = ddelete_keeps [OF inv c del] remove_blobs [OF del]
  have inv1: "inv w1" using k1 by simp
  let ?c = "context_WithTimeout background_ctx"
  have c': "\<not> c_tx ?c" by (simp add: context_WithTimeout_def background_ctx_def)
  show ?thesis
  proof (cases r1)
    case (Inl e)
    then have r: "res = Some (mapRepositoryError e)" "w' = w1"
      using run False del S by (auto simp: doc_Delete_def serves_def)
    from ddelete_err [OF inv c del [unfolded Inl]] show ?thesis
      using r k1 by (elim disjE conjE exE) auto
  next
    case (Inr x)
    obtain k where k: "canon w i = Some k" "docs w k = Some x" "d_OwnerID x = u_ID u"
      "docs w1 = (docs w)(k := None)" "queued w1 = queued w \<union> removed_keys x"
      using ddelete_ok [OF inv c del [unfolded Inr]] by blast
    obtain res1 w2 where hook: "invalidate_step S ?c i w1 = (res1, w2)" by fastforce
    have s2: "same w1 w2" by (rule invalidate_step_same [OF S inv1 hook])
    then have inv2: "inv w2" by (simp add: same_def)
    have run2: "(res, w') = (if \<not> d_IsFile x then (res1, w2)
        else case bs_Delete B ?c (d_StorageKey x) w2 of
            (Inr _, w3) \<Rightarrow> complete_step S ?c (d_StorageKey x) res1 w3
          | (Inl e, w3) \<Rightarrow>
              if \<not> errors_Is e BlobErrNotFound
              then (errors_Join [res1, Some (Wrapped ''delete document blob'' e)], w3)
              else complete_step S ?c (d_StorageKey x) res1 w3)"
      using run False del Inr S hook by (auto simp: doc_Delete_def serves_def Let_def split: sum.splits)
    have base: "accounts w2 = accounts w" "docs w2 = (docs w)(k := None)" "queued w2 = queued w \<union> removed_keys x"
      "blobs w2 = blobs w" using s2 k k1 by (simp_all add: same_def)
    show ?thesis
    proof (cases "d_IsFile x")
      case False
      with run2 base inv2 k(1-3) show ?thesis by auto
    next
      case True
      then have keys: "removed_keys x = {d_StorageKey x}" by (simp add: removed_keys_def)
      have "inv w' \<and> accounts w' = accounts w2 \<and> docs w' = docs w2 \<and>
          ((\<exists>e. res = Some e) \<and> queued w' = queued w2 \<and> blobs w' = blobs w2 \<or>
           blobs w' = (blobs w2)(d_StorageKey x := None) \<and>
             (queued w' = queued w2 \<and> (\<exists>e. res = Some e) \<or> queued w' = queued w2 - {d_StorageKey x}))"
        by (rule delete_blob_cases [OF S inv2 c' True, of res1 res]) (use run2 True in simp)
      moreover have "queued w2 - {d_StorageKey x} = queued w - {d_StorageKey x}" unfolding base keys by blast
      ultimately have "inv w' \<and> accounts w' = accounts w" "docs w' = (docs w)(k := None)"
        "queued w' = queued w \<union> removed_keys x \<and> blobs w' = blobs w \<and> (d_IsFile x \<longrightarrow> (\<exists>e. res = Some e)) \<or>
         d_IsFile x \<and> blobs w' = (blobs w)(d_StorageKey x := None) \<and>
           (queued w' = queued w \<union> removed_keys x \<and> (\<exists>e. res = Some e) \<or> queued w' = queued w - {d_StorageKey x})"
        using True unfolding base by metis+
      with k(1-3) show ?thesis by blast
    qed
  qed
qed

end

end
