(* ===== verification/AuthService.thy ===== *)
theory AuthService
  imports Ports GoConv
begin

text \<open>
  The authentication use cases, \<open>internal/auth/service.go\<close>, over the user and session ports
  of an arbitrary state \<open>'w\<close>. The service's random source, clock and password hash are
  functions of that state; \<open>L\<close> is the library.
\<close>

record auth_config =
  ac_AdminToken :: string
  ac_SessionTTL :: duration
  ac_PasswordCost :: int

record 'w auth_service =
  as_users :: "'w user_repository"
  as_sessions :: "'w session_repository"
  as_adminDigest :: bytes
  as_sessionTTL :: duration
  as_passwordCost :: int
  as_rand :: "nat \<Rightarrow> ('w, bytes) op"
  as_now :: "'w \<Rightarrow> time \<times> 'w"
  as_bcrypt :: "bytes \<Rightarrow> int \<Rightarrow> ('w, bytes) op"

definition defaultPasswordCost :: int where "defaultPasswordCost = 12"
definition tokenBytes :: nat where "tokenBytes = 32"
definition maxTokenAttempts :: nat where "maxTokenAttempts = 5"

text \<open>\<open>bcrypt.MinCost\<close> and \<open>bcrypt.MaxCost\<close>.\<close>

definition bcrypt_MinCost :: int where "bcrypt_MinCost = 4"
definition bcrypt_MaxCost :: int where "bcrypt_MaxCost = 31"

definition newAuthService ::
  "golib \<Rightarrow> 'w user_repository option \<Rightarrow> 'w session_repository option \<Rightarrow> auth_config \<Rightarrow>
   (nat \<Rightarrow> ('w, bytes) op) \<Rightarrow> ('w \<Rightarrow> time \<times> 'w) \<Rightarrow> (bytes \<Rightarrow> int \<Rightarrow> ('w, bytes) op) \<Rightarrow>
   goerr + 'w auth_service" where
  "newAuthService L users sessions cfg random now bcrypt =
     (case (users, sessions) of
        (Some us, Some ss) \<Rightarrow>
          if ac_AdminToken cfg = [] \<or> ac_SessionTTL cfg \<le> 0
          then Inl (Wrapped ''configure auth'' (Sentinel ErrInvalidArgument))
          else
            let cost = (if ac_PasswordCost cfg = 0 then defaultPasswordCost else ac_PasswordCost cfg)
            in if cost < bcrypt_MinCost \<or> cost > bcrypt_MaxCost
               then Inl (Wrapped ''configure auth'' (Sentinel ErrInvalidArgument))
               else Inr \<lparr>as_users = us, as_sessions = ss, as_adminDigest = sha256 L (ac_AdminToken cfg),
                 as_sessionTTL = ac_SessionTTL cfg, as_passwordCost = cost, as_rand = random,
                 as_now = now, as_bcrypt = bcrypt\<rparr>
      | _ \<Rightarrow> Inl (Wrapped ''configure auth'' (Sentinel ErrInvalidArgument)))"

subsection \<open>Credentials\<close>

definition validLogin :: "string \<Rightarrow> bool" where
  "validLogin login =
     (\<not> length login < 8 \<and>
      list_all (\<lambda>r. lower_rune r \<or> upper_rune r \<or> digit_rune r) (runes login))"

text \<open>\<open>case !unicode.IsLetter(char) && !unicode.IsDigit(char)\<close> comes after the ASCII classes.\<close>

definition special_rune :: "golib \<Rightarrow> nat \<Rightarrow> bool" where
  "special_rune L r \<longleftrightarrow> \<not> lower_rune r \<and> \<not> upper_rune r \<and> \<not> digit_rune r \<and>
     \<not> unicode_IsLetter L r \<and> \<not> unicode_IsDigit L r"

definition validPassword :: "golib \<Rightarrow> string \<Rightarrow> bool" where
  "validPassword L password =
     (\<not> length (runes password) < 8 \<and>
      list_ex lower_rune (runes password) \<and> list_ex upper_rune (runes password) \<and>
      list_ex digit_rune (runes password) \<and> list_ex (special_rune L) (runes password))"

definition tokenDigest :: "golib \<Rightarrow> string \<Rightarrow> bytes" where
  "tokenDigest L token = sha256 L token"

definition dummyPasswordHash :: bytes where
  "dummyPasswordHash = ''$2a$12$4pGEX9fXW/.nQI8dJmPKX.9c4XqQ0GJX8dM/hU.9mVvCbHfYpViX2''"

subsection \<open>Use cases\<close>

definition auth_Register ::
  "golib \<Rightarrow> 'w auth_service \<Rightarrow> ctx \<Rightarrow> string \<Rightarrow> string \<Rightarrow> string \<Rightarrow> ('w, user) op" where
  "auth_Register L A c adminToken login password w =
     (if sha256 L adminToken \<noteq> as_adminDigest A then (Inl (Sentinel ErrUnauthorized), w)
      else if \<not> validLogin login \<or> \<not> validPassword L password
      then (Inl (Sentinel ErrInvalidArgument), w)
      else case as_bcrypt A password (as_passwordCost A) w of
          (Inl e, w1) \<Rightarrow> (Inl (Wrapped ''register user'' (Sentinel ErrInvalidArgument)), w1)
        | (Inr hash, w1) \<Rightarrow>
            map_err (\<lambda>e.
                if errors_Is e RepoErrConflict \<or> errors_Is e RepoErrInvalidArgument
                then Sentinel ErrInvalidArgument else Wrapped ''register user'' e)
              (ur_Create (as_users A) c login hash) w1)"

text \<open>The loop over token attempts, \<open>n\<close> of them left.\<close>

fun auth_token_loop :: "golib \<Rightarrow> 'w auth_service \<Rightarrow> ctx \<Rightarrow> string \<Rightarrow> nat \<Rightarrow> ('w, string) op" where
  "auth_token_loop L A c userID 0 w =
     (Inl (Wrapped ''create session'' (Sentinel RepoErrConflict)), w)"
| "auth_token_loop L A c userID (Suc n) w =
     (case as_rand A tokenBytes w of
        (Inl e, w1) \<Rightarrow> (Inl (Wrapped ''generate session token'' e), w1)
      | (Inr raw, w1) \<Rightarrow>
          let token = base64_RawURL raw;
              digest = tokenDigest L token;
              (now, w2) = as_now A w1
          in case sr_Create (as_sessions A) c userID digest (now + as_sessionTTL A) w2 of
               (Inr _, w3) \<Rightarrow> (Inr token, w3)
             | (Inl e, w3) \<Rightarrow>
                 if \<not> errors_Is e RepoErrConflict then (Inl (Wrapped ''create session'' e), w3)
                 else auth_token_loop L A c userID n w3)"

definition auth_Authenticate ::
  "golib \<Rightarrow> 'w auth_service \<Rightarrow> ctx \<Rightarrow> string \<Rightarrow> string \<Rightarrow> ('w, string) op" where
  "auth_Authenticate L A c login password w =
     (if login = [] \<or> password = [] then (Inl (Sentinel ErrUnauthorized), w)
      else case ur_ByLogin (as_users A) c login w of
          (Inl e, w1) \<Rightarrow>
            (Inl (if errors_Is e RepoErrNotFound
                  then (case bcrypt_compare L dummyPasswordHash password of _ \<Rightarrow> Sentinel ErrUnauthorized)
                  else Wrapped ''authenticate user'' e), w1)
        | (Inr (user, passwordHash), w1) \<Rightarrow>
            (case bcrypt_compare L passwordHash password of
               Some e \<Rightarrow>
                 (Inl (if errors_Is e BcryptErrMismatch then Sentinel ErrUnauthorized
                       else Opaque ''authenticate user: invalid stored credential''), w1)
             | None \<Rightarrow> auth_token_loop L A c (u_ID user) maxTokenAttempts w1))"

definition session_err :: "string \<Rightarrow> goerr \<Rightarrow> goerr" where
  "session_err op e =
     (if errors_Is e RepoErrNotFound \<or> errors_Is e RepoErrInvalidArgument
      then Sentinel ErrUnauthorized else Wrapped op e)"

definition auth_Authorize :: "golib \<Rightarrow> 'w auth_service \<Rightarrow> ctx \<Rightarrow> string \<Rightarrow> ('w, user) op" where
  "auth_Authorize L A c token w =
     (if token = [] then (Inl (Sentinel ErrUnauthorized), w)
      else
        let (now, w1) = as_now A w
        in map_err (session_err ''authorize session'')
             (and_then (sr_ByTokenHash (as_sessions A) c (tokenDigest L token) now)
               (\<lambda>(s, user). ret user)) w1)"

definition auth_Logout :: "golib \<Rightarrow> 'w auth_service \<Rightarrow> ctx \<Rightarrow> string \<Rightarrow> ('w, unit) op" where
  "auth_Logout L A c token w =
     (if token = [] then (Inl (Sentinel ErrUnauthorized), w)
      else
        let (now, w1) = as_now A w
        in map_err (session_err ''logout session'')
             (sr_Revoke (as_sessions A) c (tokenDigest L token) now) w1)"

text \<open>Any sequence of calls by anybody, with any arguments and any outcome.\<close>

inductive auth_step :: "golib \<Rightarrow> 'w auth_service \<Rightarrow> 'w \<Rightarrow> 'w \<Rightarrow> bool" for L A where
  register: "\<not> c_tx c \<Longrightarrow> auth_Register L A c tok l p w = (ru, w') \<Longrightarrow> auth_step L A w w'"
| authenticate: "\<not> c_tx c \<Longrightarrow> auth_Authenticate L A c l p w = (rt, w') \<Longrightarrow> auth_step L A w w'"
| authorize: "\<not> c_tx c \<Longrightarrow> auth_Authorize L A c t w = (ra, w') \<Longrightarrow> auth_step L A w w'"
| logout: "\<not> c_tx c \<Longrightarrow> auth_Logout L A c t w = (rl, w') \<Longrightarrow> auth_step L A w w'"

subsection \<open>What the use cases promise\<close>

text \<open>
  The service's environment: the two ports, and a random source, clock and password hash that
  touch neither accounts nor sessions. \<open>passed w w'\<close> says that \<open>w'\<close> is not earlier than \<open>w\<close>.
\<close>

locale auth_env = session_port U inv accounts S sessions prec
  for U :: "'w user_repository"
    and inv :: "'w \<Rightarrow> bool"
    and accounts :: "'w \<Rightarrow> string \<Rightarrow> (user \<times> bytes) option"
    and S :: "'w session_repository"
    and sessions :: "'w \<Rightarrow> bytes \<Rightarrow> (session \<times> user) option"
    and prec :: "time \<Rightarrow> time" +
  fixes random :: "nat \<Rightarrow> ('w, bytes) op"
    and clock :: "'w \<Rightarrow> time \<times> 'w"
    and bcrypt :: "bytes \<Rightarrow> int \<Rightarrow> ('w, bytes) op"
    and passed :: "'w \<Rightarrow> 'w \<Rightarrow> bool"
  assumes rand_keeps: "inv w \<Longrightarrow> random n w = (r8, w') \<Longrightarrow>
      inv w' \<and> accounts w' = accounts w \<and> sessions w' = sessions w"
    and clock_keeps: "inv w \<Longrightarrow> clock w = (t, w') \<Longrightarrow>
      inv w' \<and> accounts w' = accounts w \<and> sessions w' = sessions w"
    and bcrypt_keeps: "inv w \<Longrightarrow> bcrypt p k w = (r9, w') \<Longrightarrow>
      inv w' \<and> accounts w' = accounts w \<and> sessions w' = sessions w"
    and passed_refl: "passed w w"
    and passed_trans: "passed w w1 \<Longrightarrow> passed w1 w2 \<Longrightarrow> passed w w2"
    and rand_passed: "random n w = (r8, w') \<Longrightarrow> passed w w'"
    and clock_passed: "clock w = (t, w') \<Longrightarrow> passed w w'"
    and ulogin_passed: "ur_ByLogin U c l w = (r10, w') \<Longrightarrow> passed w w'"
    and screate_passed: "sr_Create S c i h x w = (r11, w') \<Longrightarrow> passed w w'"
begin

definition runs_on :: "'w auth_service \<Rightarrow> bool" where
  "runs_on A \<longleftrightarrow> as_users A = U \<and> as_sessions A = S \<and> as_rand A = random \<and> as_now A = clock \<and>
     as_bcrypt A = bcrypt"

lemma register_cases:
  assumes "runs_on A" "inv w" "\<not> c_tx c" "auth_Register L A c tok l p w = (r, w')"
  shows "inv w' \<and> sessions w' = sessions w \<and>
    (case r of
       Inr u \<Rightarrow> sha256 L tok = as_adminDigest A \<and> validLogin l \<and> validPassword L p \<and>
         accounts w l = None \<and> u_Login u = l \<and>
         (\<exists>h. fst (bcrypt p (as_passwordCost A) w) = Inr h \<and> accounts w' = (accounts w)(l \<mapsto> (u, h)))
     | Inl e \<Rightarrow> accounts w' = accounts w \<or>
         sha256 L tok = as_adminDigest A \<and> validLogin l \<and> validPassword L p \<and> accounts w l = None \<and>
         (\<exists>u h. u_Login u = l \<and> fst (bcrypt p (as_passwordCost A) w) = Inr h \<and>
           accounts w' = (accounts w)(l \<mapsto> (u, h))))"
proof (cases "sha256 L tok \<noteq> as_adminDigest A \<or> \<not> validLogin l \<or> \<not> validPassword L p")
  case True
  with assms(2,4) show ?thesis by (auto simp: auth_Register_def split: if_splits)
next
  case False
  obtain r1 w1 where b: "bcrypt p (as_passwordCost A) w = (r1, w1)" by fastforce
  note keep1 = bcrypt_keeps [OF assms(2) b]
  show ?thesis
  proof (cases r1)
    case (Inl e)
    with assms False b keep1 show ?thesis by (auto simp: auth_Register_def runs_on_def)
  next
    case (Inr h)
    obtain r2 w2 where cr: "ur_Create U c l h w1 = (r2, w2)" by fastforce
    have w': "w' = w2" and res: "case r2 of Inl e \<Rightarrow> \<exists>e'. r = Inl e' | Inr u \<Rightarrow> r = Inr u"
      using assms False b Inr cr by (auto simp: auth_Register_def runs_on_def map_err_def split: sum.splits)
    have inv1: "inv w1" using keep1 by simp
    note k = ucreate_inv [OF inv1 assms(3) cr] ucreate_sessions [OF inv1 assms(3) cr]
    show ?thesis
    proof (cases r2)
      case (Inl e)
      with ucreate_err [OF inv1 assms(3)] cr k keep1 res w' False b Inr show ?thesis by fastforce
    next
      case (Inr u)
      with ucreate_ok [OF inv1 assms(3)] cr k keep1 res w' False b \<open>r1 = Inr h\<close> show ?thesis by auto
    qed
  qed
qed

text \<open>\<open>now\<close> is what the clock read at some moment from \<open>w\<close> to \<open>w'\<close>.\<close>

definition read_between :: "'w \<Rightarrow> 'w \<Rightarrow> time \<Rightarrow> bool" where
  "read_between w w' now \<longleftrightarrow> (\<exists>v v'. passed w v \<and> clock v = (now, v') \<and> passed v' w')"

lemma read_between_later: "passed w w1 \<Longrightarrow> read_between w1 w' now \<Longrightarrow> read_between w w' now"
  using passed_trans by (auto simp: read_between_def)

lemma token_loop_spec:
  assumes "runs_on A" "\<not> c_tx c"
  shows "inv w \<Longrightarrow> accounts w l = Some (u, h) \<Longrightarrow>
    auth_token_loop L A c (u_ID u) n w = (r, w') \<Longrightarrow>
    inv w' \<and> accounts w' = accounts w \<and>
    (\<forall>k. revoked w k \<longrightarrow> revoked w' k) \<and>
    (\<forall>token. r = Inr token \<longrightarrow>
      (\<exists>s now. sessions w (tokenDigest L token) = None \<and> s_RevokedAt s = None \<and>
        s_ExpiresAt s = prec (now + as_sessionTTL A) \<and> read_between w w' now \<and>
        sessions w' = (sessions w)(tokenDigest L token \<mapsto> (s, u))))"
proof (induction n arbitrary: w)
  case 0
  then show ?case by auto
next
  case (Suc n)
  obtain r1 w1 where rnd: "random tokenBytes w = (r1, w1)" by fastforce
  note keep1 = rand_keeps [OF Suc.prems(1) rnd]
  show ?case
  proof (cases r1)
    case (Inl e)
    with Suc.prems assms(1) rnd keep1 show ?thesis by (auto simp: runs_on_def revoked_def)
  next
    case (Inr raw)
    let ?token = "base64_RawURL raw"
    let ?h = "tokenDigest L ?token"
    obtain now w2 where clk: "clock w1 = (now, w2)" by fastforce
    have inv1: "inv w1" using keep1 by simp
    note keep2 = clock_keeps [OF inv1 clk]
    have inv2: "inv w2" and acc2: "accounts w2 l = Some (u, h)"
      using keep2 keep1 Suc.prems(2) by simp_all
    obtain r3 w3 where cr: "sr_Create S c (u_ID u) ?h (now + as_sessionTTL A) w2 = (r3, w3)" by fastforce
    note keep3 = screate_keeps [OF inv2 assms(2) cr]
    have "passed w w3"
      using passed_trans rand_passed [OF rnd] clock_passed [OF clk] screate_passed [OF cr] by blast
    have read: "read_between w w3 now"
      using rand_passed [OF rnd] clk screate_passed [OF cr] unfolding read_between_def by blast
    have rev3: "revoked w3 k" if "revoked w k" for k
      using revoked_create [OF inv2 assms(2) acc2 cr] that keep1 keep2 by (simp add: revoked_def)
    have run: "(r, w') = (case r3 of Inr _ \<Rightarrow> (Inr ?token, w3)
        | Inl e \<Rightarrow> if \<not> errors_Is e RepoErrConflict then (Inl (Wrapped ''create session'' e), w3)
                  else auth_token_loop L A c (u_ID u) n w3)"
      using Suc.prems(3) assms(1) rnd Inr clk cr
      by (auto simp: runs_on_def Let_def split: sum.splits)
    show ?thesis
    proof (cases r3)
      case (Inr s)
      with screate_ok [OF inv2 assms(2) acc2] cr keep1 keep2
      have "sessions w ?h = None \<and> s_RevokedAt s = None \<and>
          s_ExpiresAt s = prec (now + as_sessionTTL A) \<and> sessions w3 = (sessions w)(?h \<mapsto> (s, u))"
        by simp
      moreover have "r = Inr ?token" "w' = w3" using run Inr by simp_all
      ultimately show ?thesis using keep1 keep2 keep3 rev3 read by (simp only: sum.inject) blast
    next
      case (Inl e)
      show ?thesis
      proof (cases "errors_Is e RepoErrConflict")
        case False
        with Inl run keep1 keep2 keep3 rev3 show ?thesis by auto
      next
        case True
        then have same: "sessions w3 = sessions w"
          using screate_conflict [OF inv2 assms(2)] cr Inl keep1 keep2 by simp
        from True Inl run have rest: "auth_token_loop L A c (u_ID u) n w3 = (r, w')" by simp
        have "inv w3" "accounts w3 l = Some (u, h)" using keep3 acc2 by simp_all
        from Suc.IH [OF this rest] same keep1 keep2 keep3 rev3 read_between_later [OF \<open>passed w w3\<close>]
        show ?thesis by (auto 0 4)
      qed
    qed
  qed
qed

lemma authenticate_cases:
  assumes "runs_on A" "inv w" "\<not> c_tx c" "auth_Authenticate L A c l p w = (r, w')"
  shows "inv w' \<and> accounts w' = accounts w \<and> (\<forall>k. revoked w k \<longrightarrow> revoked w' k) \<and>
    (\<forall>token. r = Inr token \<longrightarrow>
      (\<exists>u h s now. accounts w l = Some (u, h) \<and> bcrypt_compare L h p = None \<and>
        sessions w (tokenDigest L token) = None \<and> s_RevokedAt s = None \<and>
        s_ExpiresAt s = prec (now + as_sessionTTL A) \<and> read_between w w' now \<and>
        sessions w' = (sessions w)(tokenDigest L token \<mapsto> (s, u))))"
proof (cases "l = [] \<or> p = []")
  case True
  with assms show ?thesis by (auto simp: auth_Authenticate_def)
next
  case False
  obtain r1 w1 where find: "ur_ByLogin U c l w = (r1, w1)" by fastforce
  note keep1 = ulogin_keeps [OF assms(2,3) find] ulogin_sessions [OF assms(2,3) find]
  have rev1: "revoked w1 k = revoked w k" for k using keep1 by (simp add: revoked_def)
  show ?thesis
  proof (cases r1)
    case (Inl e)
    with assms False find keep1 rev1 show ?thesis by (auto simp: auth_Authenticate_def runs_on_def)
  next
    case (Inr uh)
    obtain u h where uh: "uh = (u, h)" by fastforce
    have acc: "accounts w l = Some (u, h)" using ulogin_ok [OF assms(2,3)] find Inr uh by simp
    show ?thesis
    proof (cases "bcrypt_compare L h p")
      case (Some e)
      with assms False find Inr uh keep1 rev1 show ?thesis
        by (auto simp: auth_Authenticate_def runs_on_def)
    next
      case None
      with assms False find Inr uh have loop: "auth_token_loop L A c (u_ID u) maxTokenAttempts w1 = (r, w')"
        by (simp add: auth_Authenticate_def runs_on_def)
      have "inv w1" "accounts w1 l = Some (u, h)" using keep1 acc by simp_all
      from token_loop_spec [OF assms(1,3) this loop] acc None keep1 rev1
        read_between_later [OF ulogin_passed [OF find]]
      show ?thesis by (auto 0 4)
    qed
  qed
qed

lemma authorize_cases:
  assumes "runs_on A" "inv w" "\<not> c_tx c" "auth_Authorize L A c token w = (r, w')"
  shows "inv w' \<and> accounts w' = accounts w \<and> sessions w' = sessions w \<and>
    (\<forall>u. r = Inr u \<longrightarrow> (\<exists>s. sessions w (tokenDigest L token) = Some (s, u) \<and>
      live_session prec (fst (clock w)) s))"
proof (cases "token = []")
  case True
  with assms show ?thesis by (auto simp: auth_Authorize_def)
next
  case False
  obtain now w1 where clk: "clock w = (now, w1)" by fastforce
  note keep1 = clock_keeps [OF assms(2) clk]
  obtain r2 w2 where find: "sr_ByTokenHash S c (tokenDigest L token) now w1 = (r2, w2)" by fastforce
  have inv1: "inv w1" using keep1 by simp
  note keep2 = sfind_keeps [OF inv1 assms(3) find]
  have "w' = w2" "case r2 of Inl e \<Rightarrow> \<exists>e'. r = Inl e' | Inr (s, u) \<Rightarrow> r = Inr u"
    using assms(1,4) False clk find
    by (auto simp: auth_Authorize_def runs_on_def map_err_def and_then_def split: sum.splits prod.splits)
  with keep1 keep2 sfind_ok [OF inv1 assms(3)] find clk show ?thesis
    by (auto split: sum.splits)
qed

lemma logout_cases:
  assumes "runs_on A" "inv w" "\<not> c_tx c" "auth_Logout L A c token w = (r, w')"
  shows "inv w' \<and> accounts w' = accounts w \<and> (\<forall>k. revoked w k \<longrightarrow> revoked w' k) \<and>
    (r = Inr () \<longrightarrow> revoked w' (tokenDigest L token))"
proof (cases "token = []")
  case True
  with assms show ?thesis by (auto simp: auth_Logout_def)
next
  case False
  obtain now w1 where clk: "clock w = (now, w1)" by fastforce
  note keep1 = clock_keeps [OF assms(2) clk]
  obtain r2 w2 where rev: "sr_Revoke S c (tokenDigest L token) now w1 = (r2, w2)" by fastforce
  have inv1: "inv w1" using keep1 by simp
  have rev1: "revoked w1 k = revoked w k" for k using keep1 by (simp add: revoked_def)
  have res: "w' = w2" "case r2 of Inl e \<Rightarrow> \<exists>e'. r = Inl e' | Inr u \<Rightarrow> r = Inr ()"
    using assms(1,4) False clk rev
    by (auto simp: auth_Logout_def runs_on_def map_err_def split: sum.splits prod.splits)
  have "revoked w2 (tokenDigest L token)" if "r2 = Inr u" for u
    using srevoke_ok [OF inv1 assms(3)] rev that by (fastforce simp: revoked_def)
  with res keep1 srevoke_keeps [OF inv1 assms(3) rev] revoked_revoke [OF inv1 assms(3) rev] rev1
  show ?thesis by (cases r2) auto
qed

lemma auth_step_keeps:
  assumes "auth_step L A w w'" "runs_on A" "inv w"
  shows "inv w' \<and> (revoked w k \<longrightarrow> revoked w' k) \<and>
    (\<forall>l a. accounts w l = Some a \<longrightarrow> accounts w' l = Some a)"
  using assms(1)
proof (cases rule: auth_step.cases)
  case (register c tok l p ru)
  from register_cases [OF assms(2,3) this] show ?thesis
    by (cases ru) (fastforce simp: revoked_def)+
next
  case (authenticate c l p rt)
  from authenticate_cases [OF assms(2,3) this] show ?thesis by auto
next
  case (authorize c t ra)
  from authorize_cases [OF assms(2,3) this] show ?thesis by (auto simp: revoked_def)
next
  case (logout c t rl)
  from logout_cases [OF assms(2,3) this] show ?thesis by auto
qed

lemma auth_steps_keep:
  assumes "(auth_step L A)\<^sup>*\<^sup>* w w'" "runs_on A" "inv w"
  shows "inv w' \<and> (revoked w k \<longrightarrow> revoked w' k) \<and>
    (\<forall>l a. accounts w l = Some a \<longrightarrow> accounts w' l = Some a)"
  using assms(1)
proof induction
  case (step y z)
  then show ?case using auth_step_keeps [OF step.hyps(2) assms(2), of k] by auto
qed (simp add: assms(3))

lemma logout_is_final:
  assumes "runs_on A" "inv w" "\<not> c_tx c" "auth_Logout L A c token w = (Inr (), w1)"
    "(auth_step L A)\<^sup>*\<^sup>* w1 w2" "\<not> c_tx c'" "auth_Authorize L A c' token w2 = (r, w3)"
  shows "\<exists>e. r = Inl e"
proof (cases r)
  case (Inr u)
  note out = logout_cases [OF assms(1-4)]
  then have "inv w2" "revoked w2 (tokenDigest L token)"
    using auth_steps_keep [OF assms(5,1)] by auto
  with authorize_cases [OF assms(1) _ assms(6,7)] Inr show ?thesis
    by (auto simp: revoked_def live_session_def)
qed simp

end

end
