(* ===== verification/GoQuote.thy ===== *)
theory GoQuote
  imports GoConv
begin

text \<open>
  \<open>strconv.Quote\<close>, the \<open>%q\<close> of \<open>fmt\<close>, which builds cache keys and metric labels, and the proof
  that it loses nothing: the quoted form determines the string byte by byte, even where the
  string is not valid UTF-8. Which runes above \<open>U+00FF\<close> are printable is a parameter.
\<close>

definition encode_rune :: "nat \<Rightarrow> string" where
  "encode_rune r = map char_of
     (if r < 128 then [r]
      else if r < 2048 then [192 + r div 64, 128 + r mod 64]
      else if r < 65536 then [224 + r div 4096, 128 + r div 64 mod 64, 128 + r mod 64]
      else [240 + r div 262144, 128 + r div 4096 mod 64, 128 + r div 64 mod 64, 128 + r mod 64])"

definition hex_char :: "nat \<Rightarrow> char" where
  "hex_char d = (if d < 10 then char_of (48 + d) else char_of (87 + d))"

fun hex_digits :: "nat \<Rightarrow> nat \<Rightarrow> string" where
  "hex_digits 0 n = []"
| "hex_digits (Suc k) n = hex_digits k (n div 16) @ [hex_char (n mod 16)]"

text \<open>\<open>strconv.IsPrint\<close>.\<close>

definition strconv_IsPrint :: "(nat \<Rightarrow> bool) \<Rightarrow> nat \<Rightarrow> bool" where
  "strconv_IsPrint wide r =
     (if r \<le> 255 then 32 \<le> r \<and> r < 127 \<or> 161 \<le> r \<and> r \<noteq> 173 else wide r)"

definition bell_escapes :: "(nat \<times> string) list" where
  "bell_escapes = [(7, ''a''), (8, ''b''), (12, ''f''), (10, ''n''), (13, ''r''), (9, ''t''), (11, ''v'')]"

definition quote_chunk :: "(nat \<Rightarrow> bool) \<Rightarrow> nat \<times> string \<Rightarrow> string" where
  "quote_chunk wide p =
     (let r = fst p; bs = snd p; esc = CHR 0x5C
      in if r = rune_error \<and> length bs = 1 then esc # CHR ''x'' # hex_digits 2 (of_char (hd bs))
         else if r = 34 \<or> r = 92 then esc # bs
         else if strconv_IsPrint wide r then bs
         else case al_get bell_escapes r of
             Some e \<Rightarrow> esc # e
           | None \<Rightarrow>
               if r < 32 \<or> r = 127 then esc # CHR ''x'' # hex_digits 2 r
               else if r < 65536 then esc # CHR ''u'' # hex_digits 4 r
               else esc # CHR ''U'' # hex_digits 8 r)"

definition strconv_Quote :: "(nat \<Rightarrow> bool) \<Rightarrow> string \<Rightarrow> string" where
  "strconv_Quote wide s =
     CHR 0x22 # concat (map (quote_chunk wide) (rune_chunks s)) @ [CHR 0x22]"

subsection \<open>Reading a quoted string back\<close>

definition hex_val1 :: "char \<Rightarrow> nat" where
  "hex_val1 c = (if of_char c < (58::nat) then of_char c - 48 else of_char c - 87)"

definition hex_value :: "string \<Rightarrow> nat" where
  "hex_value s = foldl (\<lambda>v c. v * 16 + hex_val1 c) 0 s"

text \<open>The reader also consumes up to the closing quote, so it gives the string and the rest.\<close>

function unquote_body :: "string \<Rightarrow> string \<times> string" where
  "unquote_body [] = ([], [])"
| "unquote_body (c # cs) =
     (if c = CHR 0x22 then ([], cs)
      else if c \<noteq> CHR 0x5C then apfst ((#) c) (unquote_body cs)
      else case cs of
          [] \<Rightarrow> ([], [])
        | d # ds \<Rightarrow>
            if d = CHR ''x'' then
              apfst ((#) (char_of (hex_value (take 2 ds)))) (unquote_body (drop 2 ds))
            else if d = CHR ''u'' then
              apfst ((@) (encode_rune (hex_value (take 4 ds)))) (unquote_body (drop 4 ds))
            else if d = CHR ''U'' then
              apfst ((@) (encode_rune (hex_value (take 8 ds)))) (unquote_body (drop 8 ds))
            else apfst ((#) (case al_get (map (\<lambda>p. (hd (snd p), fst p)) bell_escapes) d of
                Some r \<Rightarrow> char_of r | None \<Rightarrow> d)) (unquote_body ds))"
  by pat_completeness auto
termination
  by (relation "measure length") auto

lemma hex_val1_hex_char: "d < 16 \<Longrightarrow> hex_val1 (hex_char d) = d"
  by (auto simp: hex_val1_def hex_char_def)

lemma hex_value_snoc: "hex_value (s @ [c]) = hex_value s * 16 + hex_val1 c"
  by (simp add: hex_value_def)

lemma length_hex_digits [simp]: "length (hex_digits k n) = k"
  by (induction k arbitrary: n) auto

lemma hex_value_digits: "n < 16 ^ k \<Longrightarrow> hex_value (hex_digits k n) = n"
proof (induction k arbitrary: n)
  case (Suc k)
  then have "n div 16 < 16 ^ k" by (simp add: less_mult_imp_div_less mult.commute)
  with Suc.IH have "hex_value (hex_digits k (n div 16)) = n div 16" .
  then show ?case by (simp add: hex_value_snoc hex_val1_hex_char)
qed (simp add: hex_value_def)

text \<open>What decoding produces: either one invalid byte, or the encoding of the rune.\<close>

definition chunk_ok :: "nat \<times> string \<Rightarrow> bool" where
  "chunk_ok p \<longleftrightarrow>
     (fst p = rune_error \<and> length (snd p) = 1) \<or>
     (snd p = encode_rune (fst p) \<and> fst p < 1114112)"

lemma split_64: "c < 64 \<Longrightarrow> (x * 64 + c) div 64 = x \<and> (x * 64 + c) mod 64 = (c::nat)"
  by simp

lemma encode_two:
  assumes "(2::nat) \<le> k" "k < 32" "c < 64"
  shows "encode_rune (k * 64 + c) = [char_of (192 + k), char_of (128 + c)]"
    and "k * 64 + c < 1114112"
proof -
  have r: "\<not> k * 64 + c < 128" "k * 64 + c < 2048" using assms by linarith+
  show "encode_rune (k * 64 + c) = [char_of (192 + k), char_of (128 + c)]"
    unfolding encode_rune_def using r split_64 [OF assms(3), of k]
    by (simp only: if_True if_False simp_thms list.map)
  show "k * 64 + c < 1114112" using r by linarith
qed

lemma encode_three:
  assumes "32 \<le> k * 64 + c" "k < (16::nat)" "c < 64" "d < 64"
  shows "encode_rune ((k * 64 + c) * 64 + d) =
      [char_of (224 + k), char_of (128 + c), char_of (128 + d)]"
    and "(k * 64 + c) * 64 + d < 1114112"
proof -
  let ?r = "(k * 64 + c) * 64 + d"
  have "x * 64 + d < 65536" if "x < 1024" for x :: nat using that assms(4) by linarith
  moreover have "k * 64 + c < 1024" using assms by linarith
  moreover have "2048 \<le> x * 64 + d" if "32 \<le> x" for x using that by linarith
  ultimately have "2048 \<le> ?r" "?r < 65536" using assms(1) by blast+
  then have r: "\<not> ?r < 128" "\<not> ?r < 2048" "?r < 65536" by linarith+
  have "?r div 4096 = ?r div 64 div 64" by (simp only: div_mult2_eq [symmetric]) simp
  then have "?r div 4096 = k" "?r div 64 mod 64 = c" "?r mod 64 = d"
    using split_64 [OF assms(4), of "k * 64 + c"] split_64 [OF assms(3), of k] by simp_all
  then show "encode_rune ?r = [char_of (224 + k), char_of (128 + c), char_of (128 + d)]"
    unfolding encode_rune_def using r by (simp only: if_True if_False simp_thms list.map)
  show "?r < 1114112" using r by linarith
qed

lemma encode_four:
  assumes "16 \<le> k * 64 + c" "k * 64 + c < (272::nat)" "c < 64" "d < 64" "e < 64"
  shows "encode_rune (((k * 64 + c) * 64 + d) * 64 + e) =
      [char_of (240 + k), char_of (128 + c), char_of (128 + d), char_of (128 + e)]"
    and "((k * 64 + c) * 64 + d) * 64 + e < 1114112"
proof -
  let ?r = "((k * 64 + c) * 64 + d) * 64 + e"
  have "x * 64 + d < 17408" "1024 \<le> x * 64 + d" if "16 \<le> x" "x < 272" for x :: nat
    using that assms(4) by linarith+
  moreover have "y * 64 + e < 1114112" "65536 \<le> y * 64 + e" if "1024 \<le> y" "y < 17408" for y :: nat
    using that assms(5) by linarith+
  ultimately have "65536 \<le> ?r" "?r < 1114112" using assms(1,2) by blast+
  then have r: "\<not> ?r < 128" "\<not> ?r < 2048" "\<not> ?r < 65536" "?r < 1114112" by linarith+
  have "?r div 4096 = ?r div 64 div 64" "?r div 262144 = ?r div 64 div 64 div 64"
    by (simp_all only: div_mult2_eq [symmetric]) simp_all
  then have "?r div 262144 = k" "?r div 4096 mod 64 = c" "?r div 64 mod 64 = d" "?r mod 64 = e"
    using split_64 [OF assms(5), of "(k * 64 + c) * 64 + d"] split_64 [OF assms(4), of "k * 64 + c"]
      split_64 [OF assms(3), of k] by simp_all
  then show "encode_rune ?r =
      [char_of (240 + k), char_of (128 + c), char_of (128 + d), char_of (128 + e)]"
    unfolding encode_rune_def using r by (simp only: if_True if_False simp_thms list.map)
  show "?r < 1114112" using r by linarith
qed

lemma char_of_add: "of_char c = a + (n::nat) \<Longrightarrow> char_of (a + n) = (c :: char)"
  by (metis char_of_char)

lemma decode_two_chunk_ok:
  assumes "decode_rune c cs = (r, w)" "194 \<le> (of_char c :: nat)" "of_char c < (224 :: nat)" "(r, w) \<noteq> (rune_error, 1)"
  shows "chunk_ok (r, take w (c # cs))"
proof -
  define b :: nat where "b = of_char c"
  have bounds: "194 \<le> b" "b < 224" using assms(2,3) by (simp_all add: b_def)
  from bounds assms(1,4) obtain c1 cs' where cs: "cs = c1 # cs'" and c1: "utf8_cont (of_char c1)"
    and rw: "r = (b - 192) * 64 + (of_char c1 - 128)" "w = 2"
    by (auto simp: decode_rune_def b_def [symmetric] Let_def split: list.splits if_splits)
  define k where "k = b - 192"
  define m where "m = of_char c1 - (128 :: nat)"
  have k: "b = 192 + k" using bounds by (simp add: k_def)
  have m: "of_char c1 = 128 + m"
    using c1 by (simp add: m_def utf8_cont_def split: if_splits)
  have "2 \<le> k" "k < 32" "m < 64" using bounds c1 k m by (auto simp: utf8_cont_def)
  note enc = encode_two [OF this]
  have "char_of (192 + k) = c" "char_of (128 + m) = c1"
    using k m by (auto simp: b_def intro: char_of_add)
  with enc rw cs k m show ?thesis by (simp add: chunk_ok_def)
qed

lemma decode_three_chunk_ok:
  assumes "decode_rune c cs = (r, w)" "224 \<le> (of_char c :: nat)" "of_char c < (240 :: nat)" "(r, w) \<noteq> (rune_error, 1)"
  shows "chunk_ok (r, take w (c # cs))"
proof -
  define b :: nat where "b = of_char c"
  have bounds: "224 \<le> b" "b < 240" using assms(2,3) by (simp_all add: b_def)
  from bounds assms(1,4) obtain c1 c2 cs' where cs: "cs = c1 # c2 # cs'"
    and c1: "(if b = 224 then 160 else 128) \<le> (of_char c1 :: nat)" "of_char c1 \<le> (191 :: nat)"
    and c2: "utf8_cont (of_char c2)"
    and rw: "r = (b - 224) * 4096 + (of_char c1 - 128) * 64 + (of_char c2 - 128)" "w = 3"
    by (auto simp: decode_rune_def b_def [symmetric] Let_def split: list.splits if_splits)
  define k where "k = b - 224"
  define m where "m = of_char c1 - (128 :: nat)"
  define n where "n = of_char c2 - (128 :: nat)"
  have k: "b = 224 + k" using bounds by (simp add: k_def)
  have m: "of_char c1 = 128 + m"
    using c1 by (simp add: m_def utf8_cont_def split: if_splits)
  have n: "of_char c2 = 128 + n"
    using c2 by (simp add: n_def utf8_cont_def split: if_splits)
  have "32 \<le> k * 64 + m" using c1 k m by (cases "k = 0") simp_all
  moreover have "k < 16" "m < 64" "n < 64" using bounds c1 c2 k m n by (auto simp: utf8_cont_def)
  ultimately have enc: "encode_rune ((k * 64 + m) * 64 + n) =
      [char_of (224 + k), char_of (128 + m), char_of (128 + n)]"
    "(k * 64 + m) * 64 + n < 1114112"
    using encode_three [of k m n] by blast+
  have "char_of (224 + k) = c" "char_of (128 + m) = c1" "char_of (128 + n) = c2"
    using k m n by (auto simp: b_def intro: char_of_add)
  moreover have "r = (k * 64 + m) * 64 + n" using rw k m n by simp
  ultimately show ?thesis using enc rw cs by (simp add: chunk_ok_def)
qed

lemma decode_four_chunk_ok:
  assumes "decode_rune c cs = (r, w)" "240 \<le> (of_char c :: nat)" "of_char c < (245 :: nat)" "(r, w) \<noteq> (rune_error, 1)"
  shows "chunk_ok (r, take w (c # cs))"
proof -
  define b :: nat where "b = of_char c"
  have bounds: "240 \<le> b" "b < 245" using assms(2,3) by (simp_all add: b_def)
  from bounds assms(1,4) obtain c1 c2 c3 cs' where cs: "cs = c1 # c2 # c3 # cs'"
    and c1: "(if b = 240 then 144 else 128) \<le> (of_char c1 :: nat)"
      "of_char c1 \<le> (if b = 244 then 143 else 191 :: nat)"
    and c2: "utf8_cont (of_char c2)" and c3: "utf8_cont (of_char c3)"
    and rw: "r = (b - 240) * 262144 + (of_char c1 - 128) * 4096 + (of_char c2 - 128) * 64 +
      (of_char c3 - 128)" "w = 4"
    by (auto simp: decode_rune_def b_def [symmetric] Let_def split: list.splits if_splits)
  define k where "k = b - 240"
  define m where "m = of_char c1 - (128 :: nat)"
  define n where "n = of_char c2 - (128 :: nat)"
  define l where "l = of_char c3 - (128 :: nat)"
  have k: "b = 240 + k" using bounds by (simp add: k_def)
  have m: "of_char c1 = 128 + m"
    using c1 by (simp add: m_def utf8_cont_def split: if_splits)
  have n: "of_char c2 = 128 + n"
    using c2 by (simp add: n_def utf8_cont_def split: if_splits)
  have l: "of_char c3 = 128 + l"
    using c3 by (simp add: l_def utf8_cont_def split: if_splits)
  have "16 \<le> k * 64 + m" using c1 k m by (cases "k = 0") simp_all
  moreover have "k * 64 + m < 272"
    using c1 k m bounds by (cases "k = 4") (simp_all split: if_splits)
  moreover have "m < 64" "n < 64" "l < 64"
    using c1 c2 c3 m n l by (auto simp: utf8_cont_def split: if_splits)
  ultimately have enc: "encode_rune (((k * 64 + m) * 64 + n) * 64 + l) =
      [char_of (240 + k), char_of (128 + m), char_of (128 + n), char_of (128 + l)]"
    "((k * 64 + m) * 64 + n) * 64 + l < 1114112"
    using encode_four [of k m n l] by blast+
  have "char_of (240 + k) = c" "char_of (128 + m) = c1" "char_of (128 + n) = c2"
    "char_of (128 + l) = c3"
    using k m n l by (auto simp: b_def intro: char_of_add)
  moreover have "r = ((k * 64 + m) * 64 + n) * 64 + l" using rw k m n l by simp
  ultimately show ?thesis using enc rw cs by (simp add: chunk_ok_def)
qed

lemma decode_rune_chunk_ok:
  assumes "decode_rune c cs = (r, w)"
  shows "chunk_ok (r, take w (c # cs))"
proof -
  define b :: nat where "b = of_char c"
  have ascii: "chunk_ok (b, [c])" if "b < 128"
    using that by (simp add: chunk_ok_def encode_rune_def b_def)
  have bad: "chunk_ok (rune_error, [c])" by (simp add: chunk_ok_def)
  consider "(r, w) = (rune_error, 1)" | "b < 128" | "128 \<le> b \<and> b < 194 \<or> 245 \<le> b"
    | "(r, w) \<noteq> (rune_error, 1)" "194 \<le> b" "b < 245" by linarith
  then show ?thesis
  proof cases
    case 2
    with assms ascii show ?thesis by (auto simp: decode_rune_def b_def [symmetric])
  next
    case 3
    with assms bad show ?thesis by (auto simp: decode_rune_def b_def [symmetric])
  next
    case 4
    then consider "b < 224" | "224 \<le> b" "b < 240" | "240 \<le> b" by linarith
    then show ?thesis
      by cases (use 4 assms decode_two_chunk_ok decode_three_chunk_ok decode_four_chunk_ok in \<open>auto simp: b_def\<close>)
  qed (use bad in simp)
qed

lemma rune_chunks_ok: "list_all chunk_ok (rune_chunks s)"
proof (induction s rule: rune_chunks.induct)
  case (2 c cs)
  obtain r w where "decode_rune c cs = (r, w)" by fastforce
  with 2 decode_rune_chunk_ok [OF this] show ?case by simp
qed simp

lemma unquote_plain:
  "list_all (\<lambda>c. c \<noteq> CHR 0x22 \<and> c \<noteq> CHR 0x5C) bs \<Longrightarrow>
   unquote_body (bs @ rest) = apfst ((@) bs) (unquote_body rest)"
  by (induction bs) (auto simp: apfst_def map_prod_def split: prod.splits)

lemma encode_rune_small: "r < 128 \<Longrightarrow> encode_rune r = [char_of r]"
  by (simp add: encode_rune_def)

lemma encode_rune_high: "128 \<le> r \<Longrightarrow> r < 1114112 \<Longrightarrow> c \<in> set (encode_rune r) \<Longrightarrow> 128 \<le> (of_char c :: nat)"
  by (auto simp: encode_rune_def split: if_splits)

lemma unquote_hex:
  assumes "n < 16 ^ 2"
  shows "unquote_body (CHR 0x5C # CHR ''x'' # hex_digits 2 n @ rest) =
    apfst ((#) (char_of n)) (unquote_body rest)"
  using hex_value_digits [OF assms] by simp

lemma unquote_u4:
  assumes "n < 16 ^ 4"
  shows "unquote_body (CHR 0x5C # CHR ''u'' # hex_digits 4 n @ rest) =
    apfst ((@) (encode_rune n)) (unquote_body rest)"
  using hex_value_digits [OF assms] by simp

lemma unquote_u8:
  assumes "n < 16 ^ 8"
  shows "unquote_body (CHR 0x5C # CHR ''U'' # hex_digits 8 n @ rest) =
    apfst ((@) (encode_rune n)) (unquote_body rest)"
  using hex_value_digits [OF assms] by simp

lemma unquote_bell:
  assumes "al_get bell_escapes r = Some e"
  shows "unquote_body (CHR 0x5C # e @ rest) = apfst ((@) (encode_rune r)) (unquote_body rest)"
  using assms
  by (auto simp: bell_escapes_def encode_rune_def apfst_def map_prod_def
      split: if_splits prod.splits)

lemma quote_chars: "char_of (34 :: nat) = CHR 0x22" "char_of (92 :: nat) = CHR 0x5C"
  by code_simp+

lemma append_single: "(@) [c] = (#) c"
  by auto

lemma unquote_chunk:
  assumes "chunk_ok p"
  shows "unquote_body (quote_chunk wide p @ rest) = apfst ((@) (snd p)) (unquote_body rest)"
proof -
  obtain r bs where p: "p = (r, bs)" by fastforce
  show ?thesis
  proof (cases "r = rune_error \<and> length bs = 1")
    case True
    then obtain c where bs: "bs = [c]" by (auto simp: length_Suc_conv)
    have "of_char c < (16 :: nat) ^ 2" using nat_of_char_less_256 [of c] by simp
    from unquote_hex [OF this, of rest] True show ?thesis
      by (simp add: p bs quote_chunk_def append_single Let_def del: hex_digits.simps)
  next
    case False
    with assms have bs: "bs = encode_rune r" and r: "r < 1114112"
      by (auto simp: chunk_ok_def p)
    have q: "quote_chunk wide p =
        (if r = 34 \<or> r = 92 then CHR 0x5C # bs
         else if strconv_IsPrint wide r then bs
         else case al_get bell_escapes r of
             Some e \<Rightarrow> CHR 0x5C # e
           | None \<Rightarrow>
               if r < 32 \<or> r = 127 then CHR 0x5C # CHR ''x'' # hex_digits 2 r
               else if r < 65536 then CHR 0x5C # CHR ''u'' # hex_digits 4 r
               else CHR 0x5C # CHR ''U'' # hex_digits 8 r)"
      using False unfolding quote_chunk_def Let_def p fst_conv snd_conv by (simp only: if_False)
    consider (esc) "r = 34 \<or> r = 92"
      | (print) "r \<noteq> 34" "r \<noteq> 92" "strconv_IsPrint wide r"
      | (bell) e where "r \<noteq> 34" "r \<noteq> 92" "\<not> strconv_IsPrint wide r" "al_get bell_escapes r = Some e"
      | (hex) "r \<noteq> 34" "r \<noteq> 92" "\<not> strconv_IsPrint wide r" "al_get bell_escapes r = None"
          "r < 32 \<or> r = 127"
      | (u4) "r \<noteq> 34" "r \<noteq> 92" "\<not> strconv_IsPrint wide r" "al_get bell_escapes r = None"
          "\<not> (r < 32 \<or> r = 127)" "r < 65536"
      | (u8) "r \<noteq> 34" "r \<noteq> 92" "\<not> strconv_IsPrint wide r" "al_get bell_escapes r = None"
          "\<not> (r < 32 \<or> r = 127)" "\<not> r < 65536"
      by (cases "al_get bell_escapes r") blast+
    then show ?thesis
    proof cases
      case esc
      then show ?thesis
        unfolding q by (auto simp: p bs encode_rune_small append_single bell_escapes_def quote_chars)
    next
      case print
      have "list_all (\<lambda>c. c \<noteq> CHR 0x22 \<and> c \<noteq> CHR 0x5C) (encode_rune r)"
      proof (cases "r < 128")
        case True
        then have "(char_of r = c) = (r = of_char c)" for c :: char by auto
        with print True show ?thesis by (auto simp: encode_rune_small)
      next
        case False
        then show ?thesis
          using encode_rune_high [of r] r by (fastforce simp: list_all_iff)
      qed
      with print show ?thesis unfolding q by (simp add: p bs unquote_plain)
    next
      case bell
      with unquote_bell [OF bell(4), of rest] show ?thesis
        unfolding q by (simp add: p bs del: unquote_body.simps)
    next
      case hex
      then have "r < 16 ^ 2" "encode_rune r = [char_of r]" by (auto simp: encode_rune_small)
      with unquote_hex [OF this(1), of rest] hex show ?thesis
        unfolding q by (simp add: p bs append_single del: hex_digits.simps unquote_body.simps)
    next
      case u4
      then have "r < 16 ^ 4" by simp
      from unquote_u4 [OF this, of rest] u4 show ?thesis
        unfolding q by (simp add: p bs del: hex_digits.simps unquote_body.simps)
    next
      case u8
      have "r < 16 ^ 8" using r by simp
      from unquote_u8 [OF this, of rest] u8 show ?thesis
        unfolding q by (simp add: p bs del: hex_digits.simps unquote_body.simps)
    qed
  qed
qed

lemma unquote_chunks:
  "list_all chunk_ok ps \<Longrightarrow>
   unquote_body (concat (map (quote_chunk wide) ps) @ CHR 0x22 # rest) = (concat (map snd ps), rest)"
  by (induction ps) (simp_all add: unquote_chunk)

text \<open>The quoted string ends where it says, whatever follows, and determines its content.\<close>

lemma unquote_Quote: "unquote_body (drop 1 (strconv_Quote wide s @ rest)) = (s, rest)"
  using unquote_chunks [OF rune_chunks_ok, of wide s rest] by (simp add: strconv_Quote_def)

lemma Quote_append_inj:
  "strconv_Quote wide s @ x = strconv_Quote wide t @ y \<longleftrightarrow> s = t \<and> x = y"
  by (metis unquote_Quote prod.inject)

end
