(* ===== verification/Observability.thy ===== *)
theory Observability
  imports GoErrors GoQuote "HOL-Library.List_Lexorder"
begin

text \<open>
  The metrics registry, \<open>internal/observability/observability.go\<close>. Every method runs under the
  mutex and is one step. The Go maps are association lists; \<open>ServeHTTP\<close> sorts the keys before
  it prints them, so the map order never shows. A \<open>float64\<close> is its bit pattern, added and
  printed by the operations in \<open>float_ops\<close>; the counters are \<open>uint64\<close> and wrap.
\<close>

type_synonym float64 = nat

record float_ops =
  fl_add :: "float64 \<Rightarrow> float64 \<Rightarrow> float64"
  fl_seconds :: "duration \<Rightarrow> float64"
  fl_show :: "float64 \<Rightarrow> string"

datatype requestKey = RequestKey (rk_route: string) (rk_method: string) (rk_status: int)

datatype timeoutKey = TimeoutKey (tk_route: string) (tk_method: string) (tk_mode: string)

record requestValue =
  rv_count :: nat
  rv_seconds :: float64

record registry =
  rg_requests :: "(requestKey \<times> requestValue) list"
  rg_cacheMisses :: nat
  rg_cacheHits :: nat
  rg_cacheBytes :: int
  rg_cacheItems :: int
  rg_dbCount :: nat
  rg_dbErrors :: nat
  rg_dbSeconds :: float64
  rg_fileBytes :: "(string \<times> nat) list"
  rg_timeouts :: "(timeoutKey \<times> nat) list"

definition newMetrics :: registry where
  "newMetrics = \<lparr>rg_requests = [], rg_cacheMisses = 0, rg_cacheHits = 0, rg_cacheBytes = 0,
     rg_cacheItems = 0, rg_dbCount = 0, rg_dbErrors = 0, rg_dbSeconds = 0, rg_fileBytes = [],
     rg_timeouts = []\<rparr>"

subsection \<open>The order of the exported series\<close>

text \<open>The comparison functions handed to \<open>sort.Slice\<close>; each is the strict order of its type of keys.\<close>

definition request_before :: "requestKey \<Rightarrow> requestKey \<Rightarrow> bool" where
  "request_before a b =
     (if rk_route a \<noteq> rk_route b then rk_route a < rk_route b
      else if rk_method a \<noteq> rk_method b then rk_method a < rk_method b
      else rk_status a < rk_status b)"

definition timeout_before :: "timeoutKey \<Rightarrow> timeoutKey \<Rightarrow> bool" where
  "timeout_before a b =
     (if tk_route a \<noteq> tk_route b then tk_route a < tk_route b
      else if tk_method a \<noteq> tk_method b then tk_method a < tk_method b
      else tk_mode a < tk_mode b)"

instantiation requestKey :: linorder
begin

definition less_requestKey :: "requestKey \<Rightarrow> requestKey \<Rightarrow> bool" where
  "less_requestKey = request_before"

definition less_eq_requestKey :: "requestKey \<Rightarrow> requestKey \<Rightarrow> bool" where
  "less_eq_requestKey a b = (a = b \<or> a < b)"

instance
proof
  fix x y z :: requestKey
  show "(x < y) = (x \<le> y \<and> \<not> y \<le> x)"
    by (cases x; cases y) (auto simp: less_requestKey_def request_before_def less_eq_requestKey_def split: if_splits)
  show "x \<le> x" by (simp add: less_eq_requestKey_def)
  show "x \<le> y \<Longrightarrow> y \<le> x \<Longrightarrow> x = y"
    by (cases x; cases y) (auto simp: less_requestKey_def request_before_def less_eq_requestKey_def split: if_splits)
  show "x \<le> y \<or> y \<le> x"
    by (cases x; cases y) (auto simp: less_requestKey_def request_before_def less_eq_requestKey_def split: if_splits)
  show "x \<le> y \<Longrightarrow> y \<le> z \<Longrightarrow> x \<le> z"
    by (cases x; cases y; cases z)
      (auto simp: less_requestKey_def request_before_def less_eq_requestKey_def split: if_splits)
qed

end

instantiation timeoutKey :: linorder
begin

definition less_timeoutKey :: "timeoutKey \<Rightarrow> timeoutKey \<Rightarrow> bool" where
  "less_timeoutKey = timeout_before"

definition less_eq_timeoutKey :: "timeoutKey \<Rightarrow> timeoutKey \<Rightarrow> bool" where
  "less_eq_timeoutKey a b = (a = b \<or> a < b)"

instance
proof
  fix x y z :: timeoutKey
  show "(x < y) = (x \<le> y \<and> \<not> y \<le> x)"
    by (cases x; cases y) (auto simp: less_timeoutKey_def timeout_before_def less_eq_timeoutKey_def split: if_splits)
  show "x \<le> x" by (simp add: less_eq_timeoutKey_def)
  show "x \<le> y \<Longrightarrow> y \<le> x \<Longrightarrow> x = y"
    by (cases x; cases y) (auto simp: less_timeoutKey_def timeout_before_def less_eq_timeoutKey_def split: if_splits)
  show "x \<le> y \<or> y \<le> x"
    by (cases x; cases y) (auto simp: less_timeoutKey_def timeout_before_def less_eq_timeoutKey_def split: if_splits)
  show "x \<le> y \<Longrightarrow> y \<le> z \<Longrightarrow> x \<le> z"
    by (cases x; cases y; cases z)
      (auto simp: less_timeoutKey_def timeout_before_def less_eq_timeoutKey_def split: if_splits)
qed

end

interpretation request_order: comparator "(\<le>) :: requestKey \<Rightarrow> requestKey \<Rightarrow> bool"
  by unfold_locales auto

interpretation timeout_order: comparator "(\<le>) :: timeoutKey \<Rightarrow> timeoutKey \<Rightarrow> bool"
  by unfold_locales auto

subsection \<open>Observations\<close>

definition observeRequest ::
  "float_ops \<Rightarrow> string \<Rightarrow> string \<Rightarrow> int \<Rightarrow> float64 \<Rightarrow> registry \<Rightarrow> registry" where
  "observeRequest fl route method status seconds m =
     (let k = RequestKey route method status;
          v = (case al_get (rg_requests m) k of
                 None \<Rightarrow> \<lparr>rv_count = 0, rv_seconds = 0\<rparr> | Some v \<Rightarrow> v)
      in m\<lparr>rg_requests := al_set k
             \<lparr>rv_count = wrapu64 (rv_count v + 1), rv_seconds = fl_add fl (rv_seconds v) seconds\<rparr>
             (rg_requests m)\<rparr>)"

definition observeCache :: "bool \<Rightarrow> registry \<Rightarrow> registry" where
  "observeCache hit m =
     (if hit then m\<lparr>rg_cacheHits := wrapu64 (rg_cacheHits m + 1)\<rparr>
      else m\<lparr>rg_cacheMisses := wrapu64 (rg_cacheMisses m + 1)\<rparr>)"

definition setCacheSize :: "int \<Rightarrow> int \<Rightarrow> registry \<Rightarrow> registry" where
  "setCacheSize bytes items m = m\<lparr>rg_cacheBytes := bytes, rg_cacheItems := items\<rparr>"

definition observeDatabase :: "float_ops \<Rightarrow> duration \<Rightarrow> goerr option \<Rightarrow> registry \<Rightarrow> registry" where
  "observeDatabase fl elapsed err m =
     (let m' = m\<lparr>rg_dbCount := wrapu64 (rg_dbCount m + 1),
                 rg_dbSeconds := fl_add fl (rg_dbSeconds m) (fl_seconds fl elapsed)\<rparr>
      in if err \<noteq> None then m'\<lparr>rg_dbErrors := wrapu64 (rg_dbErrors m' + 1)\<rparr> else m')"

definition file_bytes :: "registry \<Rightarrow> string \<Rightarrow> nat" where
  "file_bytes m direction = (case al_get (rg_fileBytes m) direction of None \<Rightarrow> 0 | Some n \<Rightarrow> n)"

definition observeFile :: "string \<Rightarrow> int \<Rightarrow> registry \<Rightarrow> registry" where
  "observeFile direction bytes m =
     (if bytes < 0 \<or> direction \<noteq> ''upload'' \<and> direction \<noteq> ''download'' then m
      else m\<lparr>rg_fileBytes := al_set direction (wrapu64 (file_bytes m direction + nat bytes))
               (rg_fileBytes m)\<rparr>)"

definition observeTimeout :: "string \<Rightarrow> string \<Rightarrow> bool \<Rightarrow> registry \<Rightarrow> registry" where
  "observeTimeout route method streaming m =
     (let k = TimeoutKey route method (if streaming then ''streaming'' else ''response'');
          n = (case al_get (rg_timeouts m) k of None \<Rightarrow> 0 | Some n \<Rightarrow> n)
      in m\<lparr>rg_timeouts := al_set k (wrapu64 (n + 1)) (rg_timeouts m)\<rparr>)"

subsection \<open>The exported text\<close>

definition nl :: string where "nl = [CHR 0x0A]"

definition request_labels :: "(nat \<Rightarrow> bool) \<Rightarrow> requestKey \<Rightarrow> string" where
  "request_labels wide k =
     ''route='' @ strconv_Quote wide (rk_route k) @ '',method='' @ strconv_Quote wide (rk_method k) @
     '',status='' @ strconv_Quote wide (strconv_Itoa (rk_status k))"

definition show_nat :: "nat \<Rightarrow> string" where
  "show_nat n = strconv_Itoa (int n)"

definition request_lines :: "(nat \<Rightarrow> bool) \<Rightarrow> float_ops \<Rightarrow> requestKey \<times> requestValue \<Rightarrow> string" where
  "request_lines wide fl p =
     (let labels = request_labels wide (fst p); v = snd p
      in ''documents_http_requests_total{'' @ labels @ ''} '' @ show_nat (rv_count v) @ nl @
         ''documents_http_request_duration_seconds_sum{'' @ labels @ ''} '' @
           fl_show fl (rv_seconds v) @ nl @
         ''documents_http_request_duration_seconds_count{'' @ labels @ ''} '' @
           show_nat (rv_count v) @ nl @
         (if rk_status (fst p) \<ge> 500
          then ''documents_http_errors_total{'' @ labels @ ''} '' @ show_nat (rv_count v) @ nl
          else []))"

definition timeout_line :: "(nat \<Rightarrow> bool) \<Rightarrow> timeoutKey \<times> nat \<Rightarrow> string" where
  "timeout_line wide p =
     ''documents_http_timeouts_total{route='' @ strconv_Quote wide (tk_route (fst p)) @
     '',method='' @ strconv_Quote wide (tk_method (fst p)) @
     '',mode='' @ strconv_Quote wide (tk_mode (fst p)) @ ''} '' @ show_nat (snd p) @ nl"

definition sorted_series :: "('k :: linorder \<times> 'v) list \<Rightarrow> ('k \<times> 'v) list" where
  "sorted_series m =
     map (\<lambda>k. (k, the (al_get m k))) (sort_by (\<le>) (al_keys m))"

definition metrics_text :: "(nat \<Rightarrow> bool) \<Rightarrow> float_ops \<Rightarrow> registry \<Rightarrow> string" where
  "metrics_text wide fl m =
     concat (map (request_lines wide fl) (sorted_series (rg_requests m))) @
     concat (map (timeout_line wide) (sorted_series (rg_timeouts m))) @
     ''documents_cache_requests_total{result='' @ strconv_Quote wide ''miss'' @ ''} '' @
       show_nat (rg_cacheMisses m) @ nl @
     ''documents_cache_requests_total{result='' @ strconv_Quote wide ''hit'' @ ''} '' @
       show_nat (rg_cacheHits m) @ nl @
     ''documents_cache_size_bytes '' @ strconv_Itoa (rg_cacheBytes m) @ nl @
     ''documents_cache_items '' @ strconv_Itoa (rg_cacheItems m) @ nl @
     ''documents_database_operation_duration_seconds_sum '' @ fl_show fl (rg_dbSeconds m) @ nl @
     ''documents_database_operation_duration_seconds_count '' @ show_nat (rg_dbCount m) @ nl @
     ''documents_database_errors_total '' @ show_nat (rg_dbErrors m) @ nl @
     ''documents_file_bytes_total{direction='' @ strconv_Quote wide ''upload'' @ ''} '' @
       show_nat (file_bytes m ''upload'') @ nl @
     ''documents_file_bytes_total{direction='' @ strconv_Quote wide ''download'' @ ''} '' @
       show_nat (file_bytes m ''download'') @ nl"

datatype logLevel = LevelDebug | LevelInfo | LevelWarn | LevelError

definition newLogger :: "string \<Rightarrow> logLevel" where
  "newLogger level =
     (if level = ''debug'' then LevelDebug else if level = ''warn'' then LevelWarn
      else if level = ''error'' then LevelError else LevelInfo)"

subsection \<open>Sequences of observations\<close>

text \<open>A registry in use is the result of a sequence of observations.\<close>

datatype observation =
    ObsRequest string string int float64
  | ObsCache bool
  | ObsCacheSize int int
  | ObsDatabase duration "goerr option"
  | ObsFile string int
  | ObsTimeout string string bool

fun observe :: "float_ops \<Rightarrow> observation \<Rightarrow> registry \<Rightarrow> registry" where
  "observe fl (ObsRequest route method status seconds) m = observeRequest fl route method status seconds m"
| "observe fl (ObsCache hit) m = observeCache hit m"
| "observe fl (ObsCacheSize bytes items) m = setCacheSize bytes items m"
| "observe fl (ObsDatabase elapsed err) m = observeDatabase fl elapsed err m"
| "observe fl (ObsFile direction bytes) m = observeFile direction bytes m"
| "observe fl (ObsTimeout route method streaming) m = observeTimeout route method streaming m"

definition registry_after :: "float_ops \<Rightarrow> observation list \<Rightarrow> registry" where
  "registry_after fl os = foldl (\<lambda>m ob. observe fl ob m) newMetrics os"

lemma registry_after_snoc: "registry_after fl (os @ [ob]) = observe fl ob (registry_after fl os)"
  by (simp add: registry_after_def)

lemma registry_after_Nil: "registry_after fl [] = newMetrics"
  by (simp add: registry_after_def)

lemmas observe_defs = observeRequest_def observeCache_def setCacheSize_def observeDatabase_def
  observeFile_def observeTimeout_def Let_def

subsection \<open>What a scrape should say\<close>

text \<open>
  The reference for the exported text is computed from the observations alone, without a
  registry: the samples of the Prometheus text format, in the order of their series. Counters
  are taken modulo \<open>2 ^ 64\<close>, as a \<open>uint64\<close> holds them; sums of seconds are added in the
  order of the observations, because the addition of floats is not associative.
\<close>

record sample =
  sm_name :: string
  sm_labels :: "(string \<times> string) list"
  sm_value :: string

definition sample_line :: "(nat \<Rightarrow> bool) \<Rightarrow> sample \<Rightarrow> string" where
  "sample_line wide s =
     sm_name s @
     (if sm_labels s = [] then []
      else ''{'' @ strings_Join (map (\<lambda>(l, v). l @ ''='' @ strconv_Quote wide v) (sm_labels s)) '','' @ ''}'') @
     '' '' @ sm_value s @ nl"

definition selected :: "(observation \<Rightarrow> 'b option) \<Rightarrow> observation list \<Rightarrow> 'b list" where
  "selected f os = List.map_filter f os"

fun seconds_of :: "requestKey \<Rightarrow> observation \<Rightarrow> float64 option" where
  "seconds_of k (ObsRequest route method status seconds) =
     (if k = RequestKey route method status then Some seconds else None)"
| "seconds_of _ _ = None"

fun request_of :: "observation \<Rightarrow> requestKey option" where
  "request_of (ObsRequest route method status _) = Some (RequestKey route method status)"
| "request_of _ = None"

fun timeout_of :: "observation \<Rightarrow> timeoutKey option" where
  "timeout_of (ObsTimeout route method True) = Some (TimeoutKey route method ''streaming'')"
| "timeout_of (ObsTimeout route method False) = Some (TimeoutKey route method ''response'')"
| "timeout_of _ = None"

fun cache_of :: "observation \<Rightarrow> bool option" where
  "cache_of (ObsCache hit) = Some hit"
| "cache_of _ = None"

fun size_of :: "observation \<Rightarrow> (int \<times> int) option" where
  "size_of (ObsCacheSize bytes items) = Some (bytes, items)"
| "size_of _ = None"

fun database_of :: "observation \<Rightarrow> (duration \<times> bool) option" where
  "database_of (ObsDatabase elapsed err) = Some (elapsed, err \<noteq> None)"
| "database_of _ = None"

fun bytes_of :: "string \<Rightarrow> observation \<Rightarrow> nat option" where
  "bytes_of d (ObsFile direction n) = (if direction = d \<and> 0 \<le> n then Some (nat n) else None)"
| "bytes_of _ _ = None"

definition counter_of :: "nat \<Rightarrow> string" where
  "counter_of n = strconv_Itoa (int (wrapu64 n))"

definition request_samples :: "float_ops \<Rightarrow> observation list \<Rightarrow> requestKey \<Rightarrow> sample list" where
  "request_samples fl os k =
     (let xs = selected (seconds_of k) os;
          labels = [(''route'', rk_route k), (''method'', rk_method k),
                    (''status'', strconv_Itoa (rk_status k))];
          total = counter_of (length xs)
      in [\<lparr>sm_name = ''documents_http_requests_total'', sm_labels = labels, sm_value = total\<rparr>,
          \<lparr>sm_name = ''documents_http_request_duration_seconds_sum'', sm_labels = labels,
            sm_value = fl_show fl (foldl (fl_add fl) 0 xs)\<rparr>,
          \<lparr>sm_name = ''documents_http_request_duration_seconds_count'', sm_labels = labels,
            sm_value = total\<rparr>] @
         (if 500 \<le> rk_status k
          then [\<lparr>sm_name = ''documents_http_errors_total'', sm_labels = labels, sm_value = total\<rparr>]
          else []))"

definition timeout_sample :: "observation list \<Rightarrow> timeoutKey \<Rightarrow> sample" where
  "timeout_sample os k =
     \<lparr>sm_name = ''documents_http_timeouts_total'',
      sm_labels = [(''route'', tk_route k), (''method'', tk_method k), (''mode'', tk_mode k)],
      sm_value = counter_of (length (filter (\<lambda>k'. k' = k) (selected timeout_of os)))\<rparr>"

definition cache_sample :: "observation list \<Rightarrow> bool \<Rightarrow> sample" where
  "cache_sample os hit =
     \<lparr>sm_name = ''documents_cache_requests_total'',
      sm_labels = [(''result'', if hit then ''hit'' else ''miss'')],
      sm_value = counter_of (length (filter (\<lambda>b. b = hit) (selected cache_of os)))\<rparr>"

definition plain_sample :: "string \<Rightarrow> string \<Rightarrow> sample" where
  "plain_sample name value = \<lparr>sm_name = name, sm_labels = [], sm_value = value\<rparr>"

definition file_sample :: "observation list \<Rightarrow> string \<Rightarrow> sample" where
  "file_sample os d =
     \<lparr>sm_name = ''documents_file_bytes_total'', sm_labels = [(''direction'', d)],
      sm_value = counter_of (sum_list (selected (bytes_of d) os))\<rparr>"

definition expected_samples :: "float_ops \<Rightarrow> observation list \<Rightarrow> sample list" where
  "expected_samples fl os =
     (let dbs = selected database_of os;
          size = last ((0, 0) # selected size_of os)
      in concat (map (request_samples fl os) (sorted_list_of_set (set (selected request_of os)))) @
         map (timeout_sample os) (sorted_list_of_set (set (selected timeout_of os))) @
         [cache_sample os False, cache_sample os True,
          plain_sample ''documents_cache_size_bytes'' (strconv_Itoa (fst size)),
          plain_sample ''documents_cache_items'' (strconv_Itoa (snd size)),
          plain_sample ''documents_database_operation_duration_seconds_sum''
            (fl_show fl (foldl (fl_add fl) 0 (map (fl_seconds fl \<circ> fst) dbs))),
          plain_sample ''documents_database_operation_duration_seconds_count''
            (counter_of (length dbs)),
          plain_sample ''documents_database_errors_total'' (counter_of (length (filter snd dbs))),
          file_sample os ''upload'', file_sample os ''download''])"

subsection \<open>What the registry has counted\<close>

lemma selected_simps [simp]:
  "selected f [] = []"
  "selected f (os @ [ob]) = selected f os @ (case f ob of None \<Rightarrow> [] | Some x \<Rightarrow> [x])"
  by (simp_all add: selected_def map_filter_def split: option.splits)

lemma wrapu64_simps [simp]:
  "wrapu64 (wrapu64 a + b) = wrapu64 (a + b)" "wrapu64 (wrapu64 a) = wrapu64 a" "wrapu64 0 = 0"
  "wrapu64 (Suc (wrapu64 a)) = wrapu64 (Suc a)"
  by (simp_all add: wrapu64_def mod_simps)

lemma request_after:
  "al_get (rg_requests (registry_after fl os)) k =
     (case selected (seconds_of k) os of [] \<Rightarrow> None
      | xs \<Rightarrow> Some \<lparr>rv_count = wrapu64 (length xs), rv_seconds = foldl (fl_add fl) 0 xs\<rparr>)"
proof (induction os rule: rev_induct)
  case Nil
  show ?case by (simp add: registry_after_Nil newMetrics_def)
next
  case (snoc ob os)
  then show ?case
    by (cases ob) (auto simp: registry_after_snoc observe_defs split: list.splits option.splits)
qed

lemma timeout_after:
  "al_get (rg_timeouts (registry_after fl os)) k =
     (case filter (\<lambda>k'. k' = k) (selected timeout_of os) of [] \<Rightarrow> None
      | xs \<Rightarrow> Some (wrapu64 (length xs)))"
proof (induction os rule: rev_induct)
  case Nil
  show ?case by (simp add: registry_after_Nil newMetrics_def)
next
  case (snoc ob os)
  then show ?case
    by (cases "(ob, timeout_of ob)" rule: prod.exhaust; cases ob rule: timeout_of.cases)
      (auto simp: registry_after_snoc observe_defs split: list.splits option.splits)
qed

lemma keys_after:
  "set (al_keys (rg_requests (registry_after fl os))) = set (selected request_of os)"
  "set (al_keys (rg_timeouts (registry_after fl os))) = set (selected timeout_of os)"
  "distinct (al_keys (rg_requests (registry_after fl os)))"
  "distinct (al_keys (rg_timeouts (registry_after fl os)))"
proof (induction os rule: rev_induct)
  case Nil
  { case 1 show ?case by (simp add: registry_after_Nil newMetrics_def) }
  { case 2 show ?case by (simp add: registry_after_Nil newMetrics_def) }
  { case 3 show ?case by (simp add: registry_after_Nil newMetrics_def) }
  { case 4 show ?case by (simp add: registry_after_Nil newMetrics_def) }
next
  case (snoc ob os)
  { case 1 show ?case using snoc(1)
      by (cases ob) (auto simp: registry_after_snoc observe_defs) }
  { case 2 show ?case using snoc(2)
      by (cases ob rule: timeout_of.cases) (auto simp: registry_after_snoc observe_defs) }
  { case 3 show ?case using snoc(3)
      by (cases ob) (auto simp: registry_after_snoc observe_defs) }
  { case 4 show ?case using snoc(4)
      by (cases ob) (auto simp: registry_after_snoc observe_defs) }
qed

lemma cache_after:
  "rg_cacheHits (registry_after fl os) = wrapu64 (length (filter (\<lambda>b. b = True) (selected cache_of os)))"
  "rg_cacheMisses (registry_after fl os) = wrapu64 (length (filter (\<lambda>b. b = False) (selected cache_of os)))"
proof (induction os rule: rev_induct)
  case Nil
  { case 1 show ?case by (simp add: registry_after_Nil newMetrics_def) }
  { case 2 show ?case by (simp add: registry_after_Nil newMetrics_def) }
next
  case (snoc ob os)
  { case 1 show ?case using snoc(1) by (cases ob) (auto simp: registry_after_snoc observe_defs) }
  { case 2 show ?case using snoc(2) by (cases ob) (auto simp: registry_after_snoc observe_defs) }
qed

lemma size_after:
  "(rg_cacheBytes (registry_after fl os), rg_cacheItems (registry_after fl os)) =
     last ((0, 0) # selected size_of os)"
proof (induction os rule: rev_induct)
  case Nil
  show ?case by (simp add: registry_after_Nil newMetrics_def)
next
  case (snoc ob os)
  then show ?case by (cases ob) (auto simp: registry_after_snoc observe_defs)
qed

lemma database_after:
  fixes fl :: float_ops
  defines "dbs \<equiv> \<lambda>os. selected database_of os"
  shows "rg_dbCount (registry_after fl os) = wrapu64 (length (dbs os)) \<and>
    rg_dbErrors (registry_after fl os) = wrapu64 (length (filter snd (dbs os))) \<and>
    rg_dbSeconds (registry_after fl os) = foldl (fl_add fl) 0 (map (fl_seconds fl \<circ> fst) (dbs os))"
proof (induction os rule: rev_induct)
  case Nil
  show ?case by (simp add: registry_after_Nil newMetrics_def dbs_def)
next
  case (snoc ob os)
  then show ?case by (cases ob) (auto simp: registry_after_snoc observe_defs dbs_def)
qed

lemma file_bytes_observe:
  assumes "d = ''upload'' \<or> d = ''download''"
  shows "file_bytes (observe fl ob m) d =
    (case bytes_of d ob of None \<Rightarrow> file_bytes m d | Some n \<Rightarrow> wrapu64 (file_bytes m d + n))"
  using assms by (cases ob) (auto simp: observe_defs file_bytes_def split: option.splits)

lemma file_bytes_after:
  assumes "d = ''upload'' \<or> d = ''download''"
  shows "file_bytes (registry_after fl os) d = wrapu64 (sum_list (selected (bytes_of d) os))"
proof (induction os rule: rev_induct)
  case Nil
  show ?case by (simp add: registry_after_Nil newMetrics_def file_bytes_def)
next
  case (snoc ob os)
  then show ?case
    by (auto simp: registry_after_snoc file_bytes_observe [OF assms] split: option.splits)
qed

lemma sorted_series_eq:
  assumes "comparator ((\<le>) :: 'k :: linorder \<Rightarrow> 'k \<Rightarrow> bool)" and "distinct (al_keys m)"
  shows "sorted_series (m :: ('k \<times> 'v) list) =
    map (\<lambda>k. (k, the (al_get m k))) (sorted_list_of_set (set (al_keys m)))"
proof -
  let ?ks = "sort_by (\<le>) (al_keys m)"
  have "sorted_wrt (\<le>) ?ks" using assms(1) by (rule comparator.sorted_sort_by)
  moreover have ms: "mset ?ks = mset (al_keys m)" by simp
  then have "distinct ?ks" using assms(2) mset_eq_imp_distinct_iff by blast
  moreover have "set ?ks = set (al_keys m)" using ms by (rule mset_eq_setD)
  ultimately have "?ks = sorted_list_of_set (set (al_keys m))"
    by (metis sorted_list_of_set.idem_if_sorted_distinct)
  then show ?thesis by (simp add: sorted_series_def)
qed

lemmas series_eq = sorted_series_eq [OF request_order.comparator_axioms keys_after(3)]
  sorted_series_eq [OF timeout_order.comparator_axioms keys_after(4)]

lemma selected_request:
  "k \<in> set (selected request_of os) \<longleftrightarrow> selected (seconds_of k) os \<noteq> []"
proof (induction os rule: rev_induct)
  case (snoc ob os)
  then show ?case by (cases ob) auto
qed simp

lemma request_lines_expected:
  assumes "k \<in> set (selected request_of os)"
  shows "request_lines wide fl (k, the (al_get (rg_requests (registry_after fl os)) k)) =
    concat (map (sample_line wide) (request_samples fl os k))"
proof -
  obtain x xs where "selected (seconds_of k) os = x # xs"
    using assms by (auto simp: selected_request neq_Nil_conv)
  then show ?thesis
    by (simp add: request_after request_lines_def request_samples_def request_labels_def
        sample_line_def show_nat_def counter_of_def Let_def)
qed

lemma timeout_line_expected:
  assumes "k \<in> set (selected timeout_of os)"
  shows "timeout_line wide (k, the (al_get (rg_timeouts (registry_after fl os)) k)) =
    sample_line wide (timeout_sample os k)"
proof -
  have "filter (\<lambda>k'. k' = k) (selected timeout_of os) \<noteq> []"
    using assms by (auto simp: filter_empty_conv)
  then obtain x xs where "filter (\<lambda>k'. k' = k) (selected timeout_of os) = x # xs"
    by (cases "filter (\<lambda>k'. k' = k) (selected timeout_of os)") auto
  then show ?thesis
    by (simp add: timeout_after timeout_line_def timeout_sample_def sample_line_def show_nat_def
        counter_of_def)
qed

lemmas counted = cache_after file_bytes_after [of "''upload''"] file_bytes_after [of "''download''"]
  database_after

lemma concat_map_concat: "concat (map f (concat xss)) = concat (map (\<lambda>xs. concat (map f xs)) xss)"
  by (induction xss) simp_all

lemma series_text:
  "concat (map (request_lines wide fl) (sorted_series (rg_requests (registry_after fl os)))) =
     concat (map (sample_line wide) (concat (map (request_samples fl os)
       (sorted_list_of_set (set (selected request_of os))))))"
  "concat (map (timeout_line wide) (sorted_series (rg_timeouts (registry_after fl os)))) =
     concat (map (sample_line wide) (map (timeout_sample os)
       (sorted_list_of_set (set (selected timeout_of os)))))"
  by (auto simp: series_eq keys_after request_lines_expected timeout_line_expected
      concat_map_concat comp_def intro!: arg_cong [where f = concat])

text \<open>C40: After any sequence of observations - requests, cache lookups and sizes, database
  operations, file transfers, timeouts, in any order - the text the registry exports is the text
  of the samples computed from that sequence alone: one request series for each combination of
  route, method and status observed, in increasing order, with the number of such requests, the
  sum of their seconds and, from status 500 on, the error count; one timeout series for each
  route, method and mode observed, in increasing order, with its count; the misses and the hits
  of the cache; its size as last set; the seconds, the number and the failures of the database
  operations; and the bytes uploaded and downloaded. Counters are modulo \<open>2 ^ 64\<close>.\<close>

theorem metrics_count_exactly:
  "metrics_text wide fl (registry_after fl os) =
     concat (map (sample_line wide) (expected_samples fl os))"
  using size_after [of fl os]
  by (simp add: metrics_text_def expected_samples_def series_text counted Let_def cache_sample_def
      file_sample_def plain_sample_def sample_line_def show_nat_def counter_of_def prod_eq_iff)

end
