(* ===== verification/GoHttp.thy ===== *)
theory GoHttp
  imports LruCache DocService AuthService Observability
begin

text \<open>
  What the HTTP transport uses of \<open>net/http\<close>, \<open>net/url\<close> and \<open>encoding/json\<close>: headers, query
  strings, request bodies, JSON values, and the response writer of the server.
\<close>

subsection \<open>Headers\<close>

text \<open>\<open>http.Header\<close>; the code only uses canonical names.\<close>

definition hdr_set :: "string \<Rightarrow> string \<Rightarrow> header \<Rightarrow> header" where
  "hdr_set name value h = al_set name [value] h"

definition hdr_get :: "string \<Rightarrow> header \<Rightarrow> string" where
  "hdr_get name h = (case al_get h name of Some (v # vs) \<Rightarrow> v | _ \<Rightarrow> [])"

lemma hdr_get_set [simp]: "hdr_get n (hdr_set m v h) = (if n = m then v else hdr_get n h)"
  by (simp add: hdr_get_def hdr_set_def)

subsection \<open>Query strings\<close>

type_synonym url_values = "(string \<times> string list) list"

definition hex_digit :: "char \<Rightarrow> bool" where
  "hex_digit c \<longleftrightarrow> (let n = of_char c :: nat in (48 \<le> n \<and> n \<le> 57) \<or> (97 \<le> n \<and> n \<le> 102) \<or> (65 \<le> n \<and> n \<le> 70))"

definition unhex :: "char \<Rightarrow> nat" where
  "unhex c = (let n = of_char c in if n \<le> 57 then n - 48 else if n \<le> 70 then n - 55 else n - 87)"

text \<open>\<open>url.QueryUnescape\<close>; \<open>None\<close> is an error.\<close>

fun query_unescape :: "string \<Rightarrow> string option" where
  "query_unescape [] = Some []"
| "query_unescape (c # cs) =
     (if c = CHR ''%'' then
        (case cs of
           a # b # rest \<Rightarrow>
             if hex_digit a \<and> hex_digit b
             then map_option (\<lambda>s. char_of (unhex a * 16 + unhex b) # s) (query_unescape rest) else None
         | _ \<Rightarrow> None)
      else map_option (\<lambda>s. (if c = CHR ''+'' then CHR '' '' else c) # s) (query_unescape cs))"

text \<open>\<open>strings.Cut(s, sep)\<close> for one character: before, after.\<close>

definition strings_Cut :: "char \<Rightarrow> string \<Rightarrow> string \<times> string" where
  "strings_Cut c s = (takeWhile (\<lambda>x. x \<noteq> c) s, drop 1 (dropWhile (\<lambda>x. x \<noteq> c) s))"

definition values_add :: "string \<Rightarrow> string \<Rightarrow> url_values \<Rightarrow> url_values" where
  "values_add k v m = al_set k ((case al_get m k of None \<Rightarrow> [] | Some vs \<Rightarrow> vs) @ [v]) m"

text \<open>One \<open>key=value\<close> pair; the flag says whether an error was met.\<close>

definition parse_pair :: "string \<Rightarrow> bool \<times> url_values \<Rightarrow> bool \<times> url_values" where
  "parse_pair part s =
     (case s of (bad, m) \<Rightarrow>
        if CHR '';'' \<in> set part then (True, m)
        else if part = [] then (bad, m)
        else case strings_Cut (CHR ''='') part of
            (key, value) \<Rightarrow>
              (case query_unescape key of
                 None \<Rightarrow> (True, m)
               | Some k \<Rightarrow>
                   (case query_unescape value of
                      None \<Rightarrow> (True, m)
                    | Some v \<Rightarrow> (bad, values_add k v m))))"

text \<open>\<open>url.ParseQuery\<close>: the values so far are dropped by every caller when there is an error.\<close>

definition url_ParseQuery :: "string \<Rightarrow> url_values option" where
  "url_ParseQuery query =
     (case foldl (\<lambda>s part. parse_pair part s) (False, []) (strings_Split (CHR ''&'') query) of
        (bad, m) \<Rightarrow> if bad then None else Some m)"

definition values_Get :: "string \<Rightarrow> url_values \<Rightarrow> string" where
  "values_Get k m = (case al_get m k of Some (v # vs) \<Rightarrow> v | _ \<Rightarrow> [])"

subsection \<open>JSON\<close>

text \<open>Values handed to \<open>json.Marshal\<close>; a raw message is text that must be valid JSON.\<close>

datatype jvalue =
    JBool bool
  | JStr string
  | JRaw bytes
  | JArr "jvalue list"
  | JObj "(string \<times> jvalue) list"

subsection \<open>Requests\<close>

text \<open>
  A file of a multipart form: its size, and its content or the error of opening it. The parsed
  form of a body is a library matter.
\<close>

record multipart_file =
  mf_Size :: int
  mf_content :: "goerr + reader"

record multipart_form =
  mp_Value :: "(string \<times> string list) list"
  mp_File :: "(string \<times> multipart_file list) list"

record request =
  rq_Method :: string
  rq_Path :: string
  rq_RawQuery :: string
  rq_Header :: header
  rq_ContentLength :: int
  rq_Body :: "reader option"

text \<open>
  The rest of the library: \<open>json.Marshal\<close>, \<open>ParseMultipartForm\<close> of a body for a content type and
  memory allowance, decoding the metadata of an upload, the response time layout and the
  normal form of a time filter.
\<close>

record ('m) http_lib =
  json_Marshal :: "jvalue \<Rightarrow> bytes option"
  multipart_parse :: "string \<Rightarrow> reader option \<Rightarrow> int \<Rightarrow> multipart_form option"
  json_decode_meta :: "bytes \<Rightarrow> 'm option"
  time_Format :: "time \<Rightarrow> string"
  time_Format_nano :: "time \<Rightarrow> string"
  is_wide :: "nat \<Rightarrow> bool"

definition max_bytes_reader :: "reader \<Rightarrow> int \<Rightarrow> reader" where
  "max_bytes_reader r n =
     (if int (length (r_data r)) \<le> n then r
      else \<lparr>r_data = take (nat n) (r_data r), r_err = Some (Opaque ''http: request body too large'')\<rparr>)"

text \<open>\<open>io.ReadAll\<close>.\<close>

definition io_ReadAll :: "reader \<Rightarrow> goerr + bytes" where
  "io_ReadAll r = (case r_err r of None \<Rightarrow> Inr (r_data r) | Some e \<Rightarrow> Inl e)"

text \<open>
  \<open>Request.ParseForm\<close> for a request with a form content type: the form of the body, unless the body
  or the query string is malformed. \<open>ParseForm\<close> itself limits only bodies that are not limited yet.
\<close>

definition parse_form :: "golib \<Rightarrow> request \<Rightarrow> url_values option" where
  "parse_form L r =
     (let post = (if rq_Method r \<in> {''POST'', ''PUT'', ''PATCH''} then
            (case rq_Body r of
               None \<Rightarrow> Some []
             | Some b \<Rightarrow>
                 let ct = hdr_get ''Content-Type'' (rq_Header r);
                     ct = (if ct = [] then ''application/octet-stream'' else ct)
                 in case mime_ParseMediaType L ct of
                     Inl e \<Rightarrow> None
                   | Inr (mt, ps) \<Rightarrow>
                       if mt = ''application/x-www-form-urlencoded''
                       then (case io_ReadAll b of Inl e \<Rightarrow> None | Inr body \<Rightarrow> url_ParseQuery body)
                       else Some [])
          else Some [])
      in case (post, url_ParseQuery (rq_RawQuery r)) of (Some f, Some q) \<Rightarrow> Some f | _ \<Rightarrow> None)"

subsection \<open>The server's response writer\<close>

text \<open>
  \<open>http.ResponseWriter\<close>: the header map until \<open>WriteHeader\<close>, then what was sent. A second
  \<open>WriteHeader\<close> is ignored, the first \<open>Write\<close> sends status 200. \<open>ds_broken\<close> says after how many
  written bytes the connection fails.
\<close>

record dst =
  ds_header :: header
  ds_sent :: "(int \<times> header) option"
  ds_body :: bytes
  ds_calls :: nat
  ds_broken :: "nat option"

definition new_dst :: "nat option \<Rightarrow> dst" where
  "new_dst broken = \<lparr>ds_header = [], ds_sent = None, ds_body = [], ds_calls = 0, ds_broken = broken\<rparr>"

definition dst_WriteHeader :: "int \<Rightarrow> dst \<Rightarrow> dst" where
  "dst_WriteHeader status d =
     (let d = d\<lparr>ds_calls := Suc (ds_calls d)\<rparr>
      in case ds_sent d of None \<Rightarrow> d\<lparr>ds_sent := Some (status, ds_header d)\<rparr> | Some _ \<Rightarrow> d)"

definition dst_Write :: "bytes \<Rightarrow> dst \<Rightarrow> (int \<times> goerr option) \<times> dst" where
  "dst_Write data d0 =
     (let d = (if ds_sent d0 = None then dst_WriteHeader 200 d0 else d0);
          room = (case ds_broken d of None \<Rightarrow> length data | Some n \<Rightarrow> n - length (ds_body d));
          sent = take room data
      in ((int (length sent), if length sent < length data then Some (Opaque ''write: broken pipe'') else None),
          d\<lparr>ds_body := ds_body d @ sent\<rparr>))"

end
