(* ===== verification/HttpWriter.thy ===== *)
theory HttpWriter
  imports GoHttp
begin

text \<open>
  The response writers of \<open>internal/httptransport\<close>: \<open>observedResponse\<close> of \<open>handler.go\<close>,
  \<open>bufferedResponse\<close> of \<open>response_cache.go\<close> and \<open>headerWriter\<close> of \<open>read_handler.go\<close>. A handler works
  on one of them through the methods of \<open>http.ResponseWriter\<close>.

  An \<open>observedResponse\<close> is shared by two goroutines: the handler, which calls the methods, and
  \<open>serveHTTP\<close>, which calls \<open>timeout\<close> once the deadline has passed. The environment decides at
  which moment the deadline passes (\<open>ob_closedAt\<close>) and at which moment \<open>serveHTTP\<close> acts
  (\<open>ob_timeoutAt\<close>); \<open>interleave\<close> marks the places where the other goroutine may run: before
  each method and before each critical section. Moments are counted by \<open>ob_tick\<close>.
\<close>

subsection \<open>State\<close>

datatype response_state =
  ResponsePending | ResponseStreaming | ResponseCompleted | ResponseTimedOut | ResponseStreamingTimedOut

record observedResponse =
  ob_dst :: dst
  ob_head :: bool
  ob_header :: header
  ob_body :: bytes
  ob_status :: int
  ob_wroteHeader :: bool
  ob_state :: response_state
  ob_bytesWritten :: int
  ob_requestID :: string
  ob_tick :: nat
  ob_closedAt :: "nat option"
  ob_timeoutAt :: "nat option"
  ob_timedOut :: "bool option"

definition cloneHeader :: "header \<Rightarrow> header" where
  "cloneHeader h = foldl (\<lambda>result (name, vs). al_set name vs result) [] h"

definition copyResponseHeader :: "header \<Rightarrow> header \<Rightarrow> header" where
  "copyResponseHeader dst src =
     foldl (\<lambda>d (name, vs). al_set name vs d) (foldl (\<lambda>d (name, vs). al_del name d) dst dst) src"

definition newObservedResponse :: "dst \<Rightarrow> bool \<Rightarrow> string \<Rightarrow> nat option \<Rightarrow> nat option \<Rightarrow> observedResponse" where
  "newObservedResponse dst head requestID closedAt timeoutAt =
     \<lparr>ob_dst = dst, ob_head = head, ob_header = cloneHeader (ds_header dst), ob_body = [], ob_status = 0,
      ob_wroteHeader = False, ob_state = ResponsePending, ob_bytesWritten = 0, ob_requestID = requestID,
      ob_tick = 0, ob_closedAt = closedAt, ob_timeoutAt = timeoutAt, ob_timedOut = None\<rparr>"

definition deadlineExceeded :: "observedResponse \<Rightarrow> bool" where
  "deadlineExceeded w = (case ob_closedAt w of None \<Rightarrow> False | Some t \<Rightarrow> t \<le> ob_tick w)"

definition responseMayHaveBody :: "int \<Rightarrow> bool" where
  "responseMayHaveBody status \<longleftrightarrow> 200 \<le> status \<and> status \<noteq> 204 \<and> status \<noteq> 304"

subsection \<open>The timeout\<close>

definition timeout_body :: string where
  \<open>timeout_body = ''{"error":{"code":503,"text":"request timed out"}}'' @ nl\<close>

definition timeout_header :: "string \<Rightarrow> header" where
  "timeout_header requestID =
     hdr_set ''Content-Length'' (strconv_Itoa (int (length timeout_body)))
       (hdr_set ''Content-Type'' ''application/json; charset=utf-8'' (hdr_set ''X-Request-ID'' requestID []))"

text \<open>Writing to the server's writer under the lock, with the count of bytes.\<close>

definition send_body :: "bytes \<Rightarrow> observedResponse \<Rightarrow> (int \<times> goerr option) \<times> observedResponse" where
  "send_body data w =
     (case dst_Write data (ob_dst w) of
        ((n, err), d) \<Rightarrow> ((n, err), w\<lparr>ob_dst := d, ob_bytesWritten := ob_bytesWritten w + n\<rparr>))"

definition send_header :: "header \<Rightarrow> int \<Rightarrow> observedResponse \<Rightarrow> observedResponse" where
  "send_header h status w =
     (let d = ob_dst w; d = d\<lparr>ds_header := copyResponseHeader (ds_header d) h\<rparr>
      in w\<lparr>ob_dst := dst_WriteHeader status d\<rparr>)"

definition resp_timeout :: "string \<Rightarrow> observedResponse \<Rightarrow> bool \<times> observedResponse" where
  "resp_timeout requestID w =
     (if ob_state w = ResponsePending then
        let w = w\<lparr>ob_state := ResponseTimedOut, ob_status := 503\<rparr>;
            w = send_header (timeout_header requestID) 503 w
        in (False, if ob_head w then w else snd (send_body timeout_body w))
      else if ob_state w = ResponseStreaming then (True, w\<lparr>ob_state := ResponseStreamingTimedOut\<rparr>)
      else (ob_state w = ResponseStreamingTimedOut, w))"

text \<open>A moment passes; \<open>serveHTTP\<close> may act on the deadline.\<close>

definition interleave :: "observedResponse \<Rightarrow> observedResponse" where
  "interleave w0 =
     (let w = w0\<lparr>ob_tick := Suc (ob_tick w0)\<rparr>
      in case ob_timeoutAt w of
           None \<Rightarrow> w
         | Some t \<Rightarrow>
             if t \<le> ob_tick w then
               (case resp_timeout (ob_requestID w) w of
                  (streaming, w') \<Rightarrow> w'\<lparr>ob_timeoutAt := None, ob_timedOut := Some streaming\<rparr>)
             else w)"

subsection \<open>The methods of \<open>observedResponse\<close>\<close>

definition ob_putHeader :: "string \<Rightarrow> string list \<Rightarrow> observedResponse \<Rightarrow> observedResponse" where
  "ob_putHeader name vs w0 =
     (let w = interleave w0
      in if ob_state w = ResponseStreaming
         then w\<lparr>ob_dst := (ob_dst w)\<lparr>ds_header := al_set name vs (ds_header (ob_dst w))\<rparr>\<rparr>
         else w\<lparr>ob_header := al_set name vs (ob_header w)\<rparr>)"

definition ob_WriteHeader :: "int \<Rightarrow> observedResponse \<Rightarrow> observedResponse" where
  "ob_WriteHeader status w0 =
     (let w = interleave w0
      in if deadlineExceeded w then w
         else if ob_wroteHeader w then w
         else
           let w = (interleave w)\<lparr>ob_status := status, ob_wroteHeader := True\<rparr>
           in if ob_state w = ResponseStreaming then
                let w = interleave w
                in if ob_state w \<noteq> ResponseStreaming \<or> deadlineExceeded w then w
                   else w\<lparr>ob_dst := dst_WriteHeader status (ob_dst w)\<rparr>
              else w)"

definition handlerTimeout :: goerr where "handlerTimeout = Sentinel HttpErrHandlerTimeout"

definition ob_Write :: "bytes \<Rightarrow> observedResponse \<Rightarrow> (int \<times> goerr option) \<times> observedResponse" where
  "ob_Write data w0 =
     (let w = interleave w0
      in if deadlineExceeded w then ((0, Some handlerTimeout), w)
         else
           let w = (if \<not> ob_wroteHeader w then ob_WriteHeader 200 w else w)
           in if ob_head w then ((int (length data), None), w)
              else if ob_state w = ResponsePending
                then ((int (length data), None), w\<lparr>ob_body := ob_body w @ data\<rparr>)
              else if ob_state w = ResponseTimedOut \<or> ob_state w = ResponseStreamingTimedOut
                then ((0, Some handlerTimeout), w)
              else
                let w = interleave w
                in if ob_state w \<noteq> ResponseStreaming \<or> deadlineExceeded w
                   then ((0, Some handlerTimeout), w) else send_body data w)"

definition ob_startStreaming :: "observedResponse \<Rightarrow> observedResponse" where
  "ob_startStreaming w0 =
     (let w = interleave w0
      in if deadlineExceeded w then w
         else if ob_state w \<noteq> ResponsePending then w
         else
           let w = w\<lparr>ob_state := ResponseStreaming\<rparr>;
               w = (if \<not> ob_wroteHeader w then w\<lparr>ob_status := 200, ob_wroteHeader := True\<rparr> else w);
               w = send_header (ob_header w) (ob_status w) w;
               w = (if \<not> ob_head w \<and> ob_body w \<noteq> [] then snd (send_body (ob_body w) w) else w)
           in w\<lparr>ob_body := []\<rparr>)"

text \<open>Flushing the server's writer sends what it holds; nothing here depends on it.\<close>

definition ob_Flush :: "observedResponse \<Rightarrow> observedResponse" where
  "ob_Flush w = interleave (ob_startStreaming w)"

definition ob_finish :: "observedResponse \<Rightarrow> observedResponse" where
  "ob_finish w =
     (if ob_state w \<noteq> ResponsePending then w
      else
        let w = w\<lparr>ob_state := ResponseCompleted\<rparr>;
            w = (if \<not> ob_wroteHeader w then w\<lparr>ob_status := 200, ob_wroteHeader := True\<rparr> else w);
            status = ob_status w;
            w = (if hdr_get ''Content-Length'' (ob_header w) = [] \<and> responseMayHaveBody status
                 then w\<lparr>ob_header := hdr_set ''Content-Length'' (strconv_Itoa (int (length (ob_body w)))) (ob_header w)\<rparr>
                 else w);
            w = send_header (ob_header w) status w;
            w = (if \<not> ob_head w \<and> responseMayHaveBody status then snd (send_body (ob_body w) w) else w)
        in w\<lparr>ob_body := []\<rparr>)"

definition ob_reset :: "observedResponse \<Rightarrow> observedResponse" where
  "ob_reset w = w\<lparr>ob_header := [], ob_body := [], ob_status := 0, ob_wroteHeader := False\<rparr>"

definition statusCode :: "observedResponse \<Rightarrow> int" where
  "statusCode w = (if ob_status w = 0 then 200 else ob_status w)"

definition responseHeader :: "observedResponse \<Rightarrow> header" where
  "responseHeader w =
     (if ob_state w \<noteq> ResponsePending \<and> ob_state w \<noteq> ResponseCompleted then ds_header (ob_dst w) else ob_header w)"

definition writtenBytes :: "observedResponse \<Rightarrow> int" where
  "writtenBytes w = ob_bytesWritten w"

subsection \<open>The other writers\<close>

record bufferedResponse =
  bf_header :: header
  bf_body :: bytes
  bf_status :: int

definition newBufferedResponse :: bufferedResponse where
  "newBufferedResponse = \<lparr>bf_header = [], bf_body = [], bf_status = 0\<rparr>"

definition bf_WriteHeader :: "int \<Rightarrow> bufferedResponse \<Rightarrow> bufferedResponse" where
  "bf_WriteHeader status w = (if bf_status w = 0 then w\<lparr>bf_status := status\<rparr> else w)"

definition bf_Write :: "bytes \<Rightarrow> bufferedResponse \<Rightarrow> (int \<times> goerr option) \<times> bufferedResponse" where
  "bf_Write data w =
     (let w = (if bf_status w = 0 then w\<lparr>bf_status := 200\<rparr> else w)
      in ((int (length data), None), w\<lparr>bf_body := bf_body w @ data\<rparr>))"

text \<open>A response writer is one of the three; the header writer keeps only headers.\<close>

datatype writer = Observed observedResponse | Buffered bufferedResponse | HeaderWriter header

fun wr_putHeader :: "string \<Rightarrow> string list \<Rightarrow> writer \<Rightarrow> writer" where
  "wr_putHeader name vs (Observed w) = Observed (ob_putHeader name vs w)"
| "wr_putHeader name vs (Buffered w) = Buffered (w\<lparr>bf_header := al_set name vs (bf_header w)\<rparr>)"
| "wr_putHeader name vs (HeaderWriter h) = HeaderWriter (al_set name vs h)"

fun wr_WriteHeader :: "int \<Rightarrow> writer \<Rightarrow> writer" where
  "wr_WriteHeader status (Observed w) = Observed (ob_WriteHeader status w)"
| "wr_WriteHeader status (Buffered w) = Buffered (bf_WriteHeader status w)"
| "wr_WriteHeader status (HeaderWriter h) = HeaderWriter h"

fun wr_Write :: "bytes \<Rightarrow> writer \<Rightarrow> (int \<times> goerr option) \<times> writer" where
  "wr_Write data (Observed w) = (case ob_Write data w of (r, w') \<Rightarrow> (r, Observed w'))"
| "wr_Write data (Buffered w) = (case bf_Write data w of (r, w') \<Rightarrow> (r, Buffered w'))"
| "wr_Write data (HeaderWriter h) = ((int (length data), None), HeaderWriter h)"

text \<open>\<open>beginStreaming\<close> of \<open>read_handler.go\<close>: only \<open>observedResponse\<close> can stream.\<close>

fun beginStreaming :: "writer \<Rightarrow> writer" where
  "beginStreaming (Observed w) = Observed (ob_startStreaming w)"
| "beginStreaming w = w"

end
