(* ===== verification/HttpWriterInv.thy ===== *)
theory HttpWriterInv
  imports HttpWriter
begin

text \<open>
  What the writers guarantee, whatever the handler does with them and whenever the deadline passes:
  one header, one body, no mixture of the handler's response and the timeout response.
\<close>

subsection \<open>Headers\<close>

lemma clear_header: "foldl (\<lambda>d (name, vs). al_del name d) h l = filter (\<lambda>p. fst p \<notin> fst ` set l) h"
proof (induction l arbitrary: h)
  case (Cons p l)
  have "filter (\<lambda>q. fst q \<notin> fst ` set l) (al_del (fst p) h) = filter (\<lambda>q. fst q \<notin> fst ` set (p # l)) h"
    unfolding al_del_def filter_filter by (rule filter_cong) auto
  then show ?case using Cons.IH by (simp add: case_prod_beta)
qed simp

lemma copyResponseHeader_clone: "copyResponseHeader d s = cloneHeader s"
proof -
  have "filter (\<lambda>p. fst p \<notin> fst ` set d) d = []" by (auto simp: filter_empty_conv)
  then show ?thesis by (simp add: copyResponseHeader_def cloneHeader_def clear_header)
qed

lemma al_set_append: "k \<notin> set (al_keys m) \<Longrightarrow> al_set k v m = m @ [(k, v)]"
  by (induction m) auto

lemma cloneHeader_id: "distinct (map fst h) \<Longrightarrow> cloneHeader h = h"
proof -
  have "distinct (map fst (r @ h)) \<Longrightarrow> foldl (\<lambda>result (name, vs). al_set name vs result) r h = r @ h" for r
    by (induction h arbitrary: r) (auto simp: al_set_append al_keys_map)
  from this [of "[]"] show "distinct (map fst h) \<Longrightarrow> cloneHeader h = h" by (simp add: cloneHeader_def)
qed

lemma timeout_header_clone [simp]: "cloneHeader (timeout_header rid) = timeout_header rid"
  by (rule cloneHeader_id) (simp add: timeout_header_def hdr_set_def)

subsection \<open>The invariant\<close>

definition sent_room :: "dst \<Rightarrow> bytes \<Rightarrow> bytes" where
  "sent_room d data = take (case ds_broken d of None \<Rightarrow> length data | Some n \<Rightarrow> n) data"

definition dst_untouched :: "observedResponse \<Rightarrow> bool" where
  "dst_untouched w \<longleftrightarrow> ds_sent (ob_dst w) = None \<and> ds_body (ob_dst w) = [] \<and> ds_calls (ob_dst w) = 0 \<and> ob_timedOut w = None"

definition dst_once :: "observedResponse \<Rightarrow> bool" where
  "dst_once w \<longleftrightarrow> ds_sent (ob_dst w) \<noteq> None \<and> ds_calls (ob_dst w) = 1"

definition dst_timed_out :: "observedResponse \<Rightarrow> bool" where
  "dst_timed_out w \<longleftrightarrow> ds_sent (ob_dst w) = Some (503, timeout_header (ob_requestID w)) \<and> ds_calls (ob_dst w) = 1 \<and>
     ds_body (ob_dst w) = (if ob_head w then [] else sent_room (ob_dst w) timeout_body)"

definition obs_inv :: "observedResponse \<Rightarrow> bool" where
  "obs_inv w \<longleftrightarrow>
     (\<forall>t. ob_timeoutAt w = Some t \<longrightarrow> (\<exists>c. ob_closedAt w = Some c \<and> c \<le> t)) \<and>
     (ob_timedOut w \<noteq> None \<longrightarrow> deadlineExceeded w) \<and>
     (ob_head w \<longrightarrow> ds_body (ob_dst w) = []) \<and> ob_bytesWritten w = int (length (ds_body (ob_dst w))) \<and>
     (case ob_state w of
        ResponsePending \<Rightarrow> dst_untouched w
      | ResponseStreaming \<Rightarrow> ob_wroteHeader w \<and> dst_once w \<and> ob_timedOut w = None
      | ResponseCompleted \<Rightarrow> dst_once w \<and> ob_timedOut w = None
      | ResponseTimedOut \<Rightarrow> dst_timed_out w
      | ResponseStreamingTimedOut \<Rightarrow> dst_once w)"

lemmas dst_defs = dst_untouched_def dst_once_def dst_timed_out_def

text \<open>What sending changes.\<close>

lemma send_body_frame [simp]:
  "ob_head (snd (send_body data w)) = ob_head w" "ob_header (snd (send_body data w)) = ob_header w"
  "ob_body (snd (send_body data w)) = ob_body w" "ob_status (snd (send_body data w)) = ob_status w"
  "ob_wroteHeader (snd (send_body data w)) = ob_wroteHeader w" "ob_state (snd (send_body data w)) = ob_state w"
  "ob_requestID (snd (send_body data w)) = ob_requestID w" "ob_tick (snd (send_body data w)) = ob_tick w"
  "ob_closedAt (snd (send_body data w)) = ob_closedAt w" "ob_timeoutAt (snd (send_body data w)) = ob_timeoutAt w"
  "ob_timedOut (snd (send_body data w)) = ob_timedOut w"
  "deadlineExceeded (snd (send_body data w)) = deadlineExceeded w"
  by (simp_all add: send_body_def deadlineExceeded_def split: prod.split option.split)

lemma send_body_dst:
  assumes "ds_sent (ob_dst w) \<noteq> None"
  shows "ds_sent (ob_dst (snd (send_body data w))) = ds_sent (ob_dst w)"
    "ds_calls (ob_dst (snd (send_body data w))) = ds_calls (ob_dst w)"
    "ds_broken (ob_dst (snd (send_body data w))) = ds_broken (ob_dst w)"
    "ds_body (ob_dst (snd (send_body data w))) = ds_body (ob_dst w) @
       take (case ds_broken (ob_dst w) of None \<Rightarrow> length data | Some m \<Rightarrow> m - length (ds_body (ob_dst w))) data"
    "ob_bytesWritten w = int (length (ds_body (ob_dst w))) \<Longrightarrow>
     ob_bytesWritten (snd (send_body data w)) = int (length (ds_body (ob_dst (snd (send_body data w)))))"
proof -
  obtain x where "ds_sent (ob_dst w) = Some x" using assms by blast
  then show "ds_sent (ob_dst (snd (send_body data w))) = ds_sent (ob_dst w)"
    "ds_calls (ob_dst (snd (send_body data w))) = ds_calls (ob_dst w)"
    "ds_broken (ob_dst (snd (send_body data w))) = ds_broken (ob_dst w)"
    "ds_body (ob_dst (snd (send_body data w))) = ds_body (ob_dst w) @
       take (case ds_broken (ob_dst w) of None \<Rightarrow> length data | Some m \<Rightarrow> m - length (ds_body (ob_dst w))) data"
    "ob_bytesWritten w = int (length (ds_body (ob_dst w))) \<Longrightarrow>
     ob_bytesWritten (snd (send_body data w)) = int (length (ds_body (ob_dst (snd (send_body data w)))))"
    by (simp_all add: send_body_def dst_Write_def Let_def split: option.split)
qed

lemma send_header_simps [simp]:
  "ob_head (send_header h st w) = ob_head w" "ob_header (send_header h st w) = ob_header w"
  "ob_body (send_header h st w) = ob_body w" "ob_status (send_header h st w) = ob_status w"
  "ob_wroteHeader (send_header h st w) = ob_wroteHeader w" "ob_state (send_header h st w) = ob_state w"
  "ob_requestID (send_header h st w) = ob_requestID w" "ob_tick (send_header h st w) = ob_tick w"
  "ob_closedAt (send_header h st w) = ob_closedAt w" "ob_timeoutAt (send_header h st w) = ob_timeoutAt w"
  "ob_timedOut (send_header h st w) = ob_timedOut w" "ob_bytesWritten (send_header h st w) = ob_bytesWritten w"
  "deadlineExceeded (send_header h st w) = deadlineExceeded w"
  by (simp_all add: send_header_def deadlineExceeded_def Let_def split: option.split)

lemma send_header_dst:
  assumes "ds_sent (ob_dst w) = None"
  shows "ds_sent (ob_dst (send_header h st w)) = Some (st, cloneHeader h)"
    "ds_calls (ob_dst (send_header h st w)) = Suc (ds_calls (ob_dst w))"
    "ds_broken (ob_dst (send_header h st w)) = ds_broken (ob_dst w)"
    "ds_body (ob_dst (send_header h st w)) = ds_body (ob_dst w)"
  using assms by (simp_all add: send_header_def dst_WriteHeader_def Let_def copyResponseHeader_clone)

lemma deadline_update [simp]:
  "deadlineExceeded (w\<lparr>ob_state := s\<rparr>) = deadlineExceeded w" "deadlineExceeded (w\<lparr>ob_status := st\<rparr>) = deadlineExceeded w"
  "deadlineExceeded (w\<lparr>ob_wroteHeader := b\<rparr>) = deadlineExceeded w" "deadlineExceeded (w\<lparr>ob_body := x\<rparr>) = deadlineExceeded w"
  "deadlineExceeded (w\<lparr>ob_header := h\<rparr>) = deadlineExceeded w" "deadlineExceeded (w\<lparr>ob_dst := d\<rparr>) = deadlineExceeded w"
  "deadlineExceeded (w\<lparr>ob_timeoutAt := t\<rparr>) = deadlineExceeded w" "deadlineExceeded (w\<lparr>ob_timedOut := b'\<rparr>) = deadlineExceeded w"
  by (simp_all add: deadlineExceeded_def split: option.split)

lemma resp_timeout_inv:
  assumes inv: "obs_inv w" and dl: "deadlineExceeded w" and st: "ob_state w \<noteq> ResponseCompleted"
    and run: "resp_timeout (ob_requestID w) w = (s, w')"
  shows "obs_inv (w'\<lparr>ob_timeoutAt := None, ob_timedOut := Some s\<rparr>) \<and>
    ob_state w' = (if ob_state w = ResponsePending \<or> ob_state w = ResponseTimedOut then ResponseTimedOut
      else ResponseStreamingTimedOut)"
proof (cases "ob_state w = ResponsePending")
  case True
  let ?w1 = "w\<lparr>ob_state := ResponseTimedOut, ob_status := 503\<rparr>"
  let ?w2 = "send_header (timeout_header (ob_requestID w)) 503 ?w1"
  have u: "ds_sent (ob_dst w) = None" "ds_body (ob_dst w) = []" "ds_calls (ob_dst w) = 0" "ob_bytesWritten w = 0"
    using inv True by (simp_all add: obs_inv_def dst_untouched_def)
  have u1: "ds_sent (ob_dst ?w1) = None" using u by simp
  note d2 = send_header_dst [OF u1, of "timeout_header (ob_requestID w)" 503]
  have sent: "ds_sent (ob_dst ?w2) \<noteq> None" using d2 by simp
  note d3 = send_body_dst [OF sent, of timeout_body]
  show ?thesis
  proof (cases "ob_head w")
    case True
    with run \<open>ob_state w = ResponsePending\<close> have "w' = ?w2" "s = False" by (simp_all add: resp_timeout_def Let_def)
    then show ?thesis using d2 u dl True \<open>ob_state w = ResponsePending\<close> by (simp add: obs_inv_def dst_timed_out_def)
  next
    case False
    with run \<open>ob_state w = ResponsePending\<close> have "w' = snd (send_body timeout_body ?w2)" "s = False"
      by (simp_all add: resp_timeout_def Let_def)
    then show ?thesis using d2 d3 u dl False \<open>ob_state w = ResponsePending\<close>
      by (simp add: obs_inv_def dst_timed_out_def sent_room_def split: option.split)
  qed
next
  case False
  with run inv dl st show ?thesis
    by (cases "ob_state w") (auto simp: resp_timeout_def obs_inv_def dst_defs split: if_splits)
qed

lemma tick_inv: "obs_inv w \<Longrightarrow> obs_inv (w\<lparr>ob_tick := Suc (ob_tick w)\<rparr>)"
  by (auto simp: obs_inv_def dst_defs deadlineExceeded_def split: response_state.splits option.splits)

text \<open>
  While the handler runs the response is not completed, so that acting on the deadline is always one
  of the two kinds of timeout. After a moment in which the deadline had not passed nothing happened.
\<close>

lemma interleave_inv:
  assumes inv: "obs_inv w" and st: "ob_state w \<noteq> ResponseCompleted"
  shows "obs_inv (interleave w) \<and> ob_state (interleave w) \<noteq> ResponseCompleted \<and>
    (\<not> deadlineExceeded (interleave w) \<longrightarrow> interleave w = w\<lparr>ob_tick := Suc (ob_tick w)\<rparr>) \<and>
    (ob_state (interleave w) = ResponsePending \<or> ob_state (interleave w) = ResponseStreaming \<longrightarrow>
       interleave w = w\<lparr>ob_tick := Suc (ob_tick w)\<rparr>)"
proof -
  let ?w = "w\<lparr>ob_tick := Suc (ob_tick w)\<rparr>"
  have inv1: "obs_inv ?w" by (rule tick_inv [OF inv])
  show ?thesis
  proof (cases "\<exists>t. ob_timeoutAt w = Some t \<and> t \<le> Suc (ob_tick w)")
    case False
    then have "interleave w = ?w" by (auto simp: interleave_def Let_def split: option.splits)
    with inv1 st show ?thesis by simp
  next
    case True
    then obtain t where t: "ob_timeoutAt w = Some t" "t \<le> Suc (ob_tick w)" by blast
    with inv obtain c where "ob_closedAt w = Some c" "c \<le> t" by (auto simp: obs_inv_def)
    with t have dl: "deadlineExceeded ?w" by (simp add: deadlineExceeded_def)
    obtain s w' where run: "resp_timeout (ob_requestID ?w) ?w = (s, w')" by fastforce
    have i: "interleave w = w'\<lparr>ob_timeoutAt := None, ob_timedOut := Some s\<rparr>"
      using run t by (simp add: interleave_def Let_def)
    have "ob_state ?w \<noteq> ResponseCompleted" using st by simp
    note k = resp_timeout_inv [OF inv1 dl this run]
    then have "deadlineExceeded (interleave w)" using i by (simp add: obs_inv_def)
    then show ?thesis using k i st by auto
  qed
qed

definition live :: "observedResponse \<Rightarrow> bool" where
  "live w \<longleftrightarrow> obs_inv w \<and> ob_state w \<noteq> ResponseCompleted"

lemma live_interleave: "live w \<Longrightarrow> live (interleave w)"
  using interleave_inv by (auto simp: live_def)

lemma interleave_same:
  "live w \<Longrightarrow> ob_state (interleave w) = ResponsePending \<or> ob_state (interleave w) = ResponseStreaming \<or>
     \<not> deadlineExceeded (interleave w) \<Longrightarrow> interleave w = w\<lparr>ob_tick := Suc (ob_tick w)\<rparr>"
  using interleave_inv by (auto simp: live_def)

lemma live_putHeader: "live w \<Longrightarrow> live (ob_putHeader name vs w)"
  using live_interleave [of w]
  by (auto simp: ob_putHeader_def Let_def live_def obs_inv_def dst_defs sent_room_def split: response_state.splits)

lemma live_mark: "live w \<Longrightarrow> live (w\<lparr>ob_status := st, ob_wroteHeader := True\<rparr>)"
  by (auto simp: live_def obs_inv_def dst_defs split: response_state.splits)

lemma streaming_wrote: "live w \<Longrightarrow> ob_state w = ResponseStreaming \<Longrightarrow> ob_wroteHeader w"
  by (simp add: live_def obs_inv_def)

lemma live_WriteHeader: "live w \<Longrightarrow> live (ob_WriteHeader st w)"
proof -
  assume w: "live w"
  let ?w1 = "interleave w" and ?w2 = "interleave (interleave w)"
  have w1: "live ?w1" and w2: "live ?w2" using w live_interleave by blast+
  show ?thesis
  proof (cases "deadlineExceeded ?w1 \<or> ob_wroteHeader ?w1")
    case True
    with w1 show ?thesis by (auto simp: ob_WriteHeader_def Let_def)
  next
    case False
    have "ob_state ?w2 \<noteq> ResponseStreaming"
      using interleave_same [OF w1] streaming_wrote [OF w2] False by auto
    with False live_mark [OF w2] show ?thesis by (simp add: ob_WriteHeader_def Let_def)
  qed
qed

lemma live_send_body:
  assumes w: "live w" and st: "ob_state w = ResponseStreaming" and head: "\<not> ob_head w"
  shows "live (snd (send_body data w))"
proof -
  have "ds_sent (ob_dst w) \<noteq> None" using w st by (simp add: live_def obs_inv_def dst_once_def del: not_None_eq)
  note d = send_body_dst [OF this, of data]
  show ?thesis using w st head d by (simp add: live_def obs_inv_def dst_once_def)
qed

lemma live_body: "live w \<Longrightarrow> live (w\<lparr>ob_body := x\<rparr>)"
  by (auto simp: live_def obs_inv_def dst_defs split: response_state.splits)

lemma live_Write: "live w \<Longrightarrow> live (snd (ob_Write data w))"
proof -
  assume w: "live w"
  let ?w1 = "interleave w"
  define w2 where "w2 = (if \<not> ob_wroteHeader ?w1 then ob_WriteHeader 200 ?w1 else ?w1)"
  have w1: "live ?w1" by (rule live_interleave [OF w])
  have w2: "live w2" using w1 live_WriteHeader by (simp add: w2_def)
  have w3: "live (interleave w2)" by (rule live_interleave [OF w2])
  have head: "ob_state (interleave w2) = ResponseStreaming \<Longrightarrow> ob_head (interleave w2) = ob_head w2"
    using interleave_same [OF w2] by simp
  show ?thesis
    using w1 w2 w3 live_body [OF w2] live_send_body [OF w3] head
    by (simp add: ob_Write_def Let_def w2_def [symmetric])
qed

lemma live_startStreaming: "live w \<Longrightarrow> live (ob_startStreaming w)"
proof -
  assume w: "live w"
  let ?w1 = "interleave w"
  have w1: "live ?w1" by (rule live_interleave [OF w])
  show ?thesis
  proof (cases "deadlineExceeded ?w1 \<or> ob_state ?w1 \<noteq> ResponsePending")
    case True
    with w1 show ?thesis by (auto simp: ob_startStreaming_def Let_def)
  next
    case False
    define w2 where "w2 = (let w = ?w1\<lparr>ob_state := ResponseStreaming\<rparr>
      in if \<not> ob_wroteHeader w then w\<lparr>ob_status := 200, ob_wroteHeader := True\<rparr> else w)"
    define w3 where "w3 = send_header (ob_header w2) (ob_status w2) w2"
    have u: "ds_sent (ob_dst w2) = None" "ds_body (ob_dst w2) = []" "ds_calls (ob_dst w2) = 0" "ob_bytesWritten w2 = 0"
      "ob_timedOut w2 = None" "ob_state w2 = ResponseStreaming" "ob_wroteHeader w2"
      "\<forall>t. ob_timeoutAt w2 = Some t \<longrightarrow> (\<exists>c. ob_closedAt w2 = Some c \<and> c \<le> t)"
      using w1 False by (auto simp: w2_def Let_def live_def obs_inv_def dst_untouched_def)
    have w3: "live w3" using send_header_dst [OF u(1), of "ob_header w2" "ob_status w2"] u
      by (simp add: w3_def live_def obs_inv_def dst_once_def)
    have "ob_startStreaming w = (if \<not> ob_head w3 \<and> ob_body w3 \<noteq> [] then snd (send_body (ob_body w3) w3) else w3)\<lparr>ob_body := []\<rparr>"
      using False by (simp add: ob_startStreaming_def Let_def w3_def w2_def)
    moreover have "ob_state w3 = ResponseStreaming" using u by (simp add: w3_def)
    ultimately show ?thesis using w3 live_send_body [OF w3] live_body by simp
  qed
qed

subsection \<open>Everything a handler may do\<close>

text \<open>A handler changes its writer only through these methods, in any order; it never writes status 0.\<close>

inductive writer_step :: "writer \<Rightarrow> writer \<Rightarrow> bool" where
  put_header: "writer_step w (wr_putHeader name vs w)"
| write_header: "status \<noteq> 0 \<Longrightarrow> writer_step w (wr_WriteHeader status w)"
| write_data: "writer_step w (snd (wr_Write data w))"
| begin_streaming: "writer_step w (beginStreaming w)"

inductive_cases writer_stepE: "writer_step w w'"

text \<open>What no method changes.\<close>

definition ob_setup :: "observedResponse \<Rightarrow> bool \<times> string \<times> nat option" where
  "ob_setup w = (ob_head w, ob_requestID w, ob_closedAt w)"

lemma setup_update [simp]:
  "ob_setup (w\<lparr>ob_state := s\<rparr>) = ob_setup w" "ob_setup (w\<lparr>ob_status := st\<rparr>) = ob_setup w"
  "ob_setup (w\<lparr>ob_wroteHeader := b\<rparr>) = ob_setup w" "ob_setup (w\<lparr>ob_body := x\<rparr>) = ob_setup w"
  "ob_setup (w\<lparr>ob_header := h\<rparr>) = ob_setup w" "ob_setup (w\<lparr>ob_dst := d\<rparr>) = ob_setup w"
  "ob_setup (w\<lparr>ob_timeoutAt := t\<rparr>) = ob_setup w" "ob_setup (w\<lparr>ob_timedOut := b'\<rparr>) = ob_setup w"
  "ob_setup (w\<lparr>ob_tick := n\<rparr>) = ob_setup w" "ob_setup (snd (send_body data w)) = ob_setup w"
  "ob_setup (send_header h st w) = ob_setup w"
  by (simp_all add: ob_setup_def)

lemma setup_timeout: "resp_timeout rid w = (s, w') \<Longrightarrow> ob_setup w' = ob_setup w"
  by (auto simp: resp_timeout_def Let_def split: if_splits)

lemma setup_interleave [simp]: "ob_setup (interleave w) = ob_setup w"
  by (auto simp: interleave_def Let_def setup_timeout split: option.split prod.split dest!: setup_timeout)

lemma setup_methods [simp]:
  "ob_setup (ob_putHeader name vs w) = ob_setup w" "ob_setup (ob_WriteHeader st w) = ob_setup w"
  "ob_setup (ob_startStreaming w) = ob_setup w"
  by (simp_all add: ob_putHeader_def ob_WriteHeader_def ob_startStreaming_def Let_def)

lemma setup_Write [simp]: "ob_setup (snd (ob_Write data w)) = ob_setup w"
proof -
  define w2 where "w2 = (if \<not> ob_wroteHeader (interleave w) then ob_WriteHeader 200 (interleave w) else interleave w)"
  have "ob_setup w2 = ob_setup w" by (simp add: w2_def)
  then show ?thesis by (simp add: ob_Write_def Let_def w2_def [symmetric])
qed

lemma writer_step_live:
  assumes "writer_step (Observed w) x" "live w"
  shows "\<exists>w'. x = Observed w' \<and> live w' \<and> ob_setup w' = ob_setup w"
  using assms
  by (cases rule: writer_step.cases)
    (auto simp: live_putHeader live_WriteHeader live_startStreaming case_prod_beta intro: live_Write)

lemma writer_steps_live:
  assumes "writer_step\<^sup>*\<^sup>* x y" "x = Observed w" "live w"
  shows "\<exists>w'. y = Observed w' \<and> live w' \<and> ob_setup w' = ob_setup w"
  using assms by (induction rule: rtranclp_induct) (auto dest: writer_step_live)

lemma live_new:
  assumes "\<forall>t. timeoutAt = Some t \<longrightarrow> (\<exists>c. closedAt = Some c \<and> c \<le> t)"
  shows "live (newObservedResponse (d\<lparr>ds_sent := None, ds_body := [], ds_calls := 0\<rparr>) head rid closedAt timeoutAt)"
  using assms by (simp add: live_def obs_inv_def newObservedResponse_def dst_untouched_def)

end
