(* ===== verification/HttpResponse.thy ===== *)
theory HttpResponse
  imports HttpWriterInv
begin

text \<open>
  The response envelopes, \<open>internal/httptransport/response.go\<close>, and the parts of \<open>handler.go\<close> that
  only write a response.
\<close>

text \<open>
  \<open>json.Marshal\<close> of an error envelope: its two fields in order, the text being one of the constants
  of the code, which need no escapes.
\<close>

definition error_json :: "int \<Rightarrow> string \<Rightarrow> bytes" where
  \<open>error_json code text = ''{"error":{"code":'' @ strconv_Itoa code @ '',"text":"'' @ text @ ''"}}''\<close>

definition write_encoded :: "int \<Rightarrow> bytes \<Rightarrow> writer \<Rightarrow> writer" where
  "write_encoded status encoded w =
     (let encoded = encoded @ nl;
          w = wr_putHeader ''Content-Type'' [''application/json; charset=utf-8''] w;
          w = wr_putHeader ''Content-Length'' [strconv_Itoa (int (length encoded))] w;
          w = wr_WriteHeader status w
      in snd (wr_Write encoded w))"

definition writeAPIError :: "int \<Rightarrow> int \<Rightarrow> string \<Rightarrow> writer \<Rightarrow> writer" where
  "writeAPIError status code text = write_encoded status (error_json code text)"

definition writeJSON :: "'m http_lib \<Rightarrow> int \<Rightarrow> jvalue \<Rightarrow> writer \<Rightarrow> writer" where
  "writeJSON H status value =
     (case json_Marshal H value of
        None \<Rightarrow> writeAPIError 500 500 ''internal server error''
      | Some encoded \<Rightarrow> write_encoded status encoded)"

definition writeResponse :: "'m http_lib \<Rightarrow> int \<Rightarrow> jvalue \<Rightarrow> writer \<Rightarrow> writer" where
  "writeResponse H status response = writeJSON H status (JObj [(''response'', response)])"

definition writeData :: "'m http_lib \<Rightarrow> int \<Rightarrow> jvalue \<Rightarrow> writer \<Rightarrow> writer" where
  "writeData H status data = writeJSON H status (JObj [(''data'', data)])"

definition writeDomainError :: "goerr \<Rightarrow> writer \<Rightarrow> writer" where
  "writeDomainError err =
     (if errors_Is err ErrInvalidArgument then writeAPIError 400 400 ''bad request''
      else if errors_Is err ErrUnauthorized then writeAPIError 401 401 ''unauthorized''
      else if errors_Is err ErrForbidden then writeAPIError 403 403 ''forbidden''
      else if errors_Is err ErrNotFound then writeAPIError 404 404 ''resource not found''
      else if errors_Is err ErrNotImplemented then writeAPIError 501 501 ''operation not implemented''
      else writeAPIError 500 500 ''internal server error'')"

definition badRequest :: "writer \<Rightarrow> writer" where
  "badRequest = writeAPIError 400 400 ''bad request''"

definition notImplemented :: "writer \<Rightarrow> writer" where
  "notImplemented = writeAPIError 501 501 ''operation not implemented''"

definition internalError :: "writer \<Rightarrow> writer" where
  "internalError = writeAPIError 500 500 ''internal server error''"

definition methodNotAllowed :: "string list \<Rightarrow> writer \<Rightarrow> writer" where
  "methodNotAllowed allowed w =
     writeAPIError 405 405 ''method not allowed'' (wr_putHeader ''Allow'' [strings_Join allowed '', ''] w)"

text \<open>\<open>operation\<close> of \<open>handler.go\<close>: a declared method without an implementation.\<close>

definition operation :: "string \<Rightarrow> string list \<Rightarrow> writer \<Rightarrow> writer" where
  "operation method allowed = (if method \<in> set allowed then notImplemented else methodNotAllowed allowed)"

text \<open>After a panic: the response is replaced unless it is on the wire already.\<close>

definition replaceWithInternalError :: "observedResponse \<Rightarrow> observedResponse" where
  "replaceWithInternalError w =
     (if ob_state w \<noteq> ResponsePending then w
      else
        let requestID = hdr_get ''X-Request-ID'' (ob_header w);
            w = ob_reset w;
            w = w\<lparr>ob_header := hdr_set ''X-Request-ID'' requestID (ob_header w)\<rparr>
        in case internalError (Observed w) of Observed w' \<Rightarrow> w' | _ \<Rightarrow> w)"

subsection \<open>Through the methods only\<close>

definition writes :: "(writer \<Rightarrow> writer) \<Rightarrow> bool" where
  "writes f \<longleftrightarrow> (\<forall>w. writer_step\<^sup>*\<^sup>* w (f w))"

named_theorems writes_intro

lemma writes_id [writes_intro]: "writes (\<lambda>w. w)"
  by (simp add: writes_def)

lemma writes_comp: "writes f \<Longrightarrow> writes g \<Longrightarrow> writes (\<lambda>w. g (f w))"
  by (auto simp: writes_def intro: rtranclp_trans)

lemma writes_method [writes_intro]:
  "writes (wr_putHeader n vs)" "st \<noteq> 0 \<Longrightarrow> writes (wr_WriteHeader st)" "writes (\<lambda>w. snd (wr_Write data w))" "writes beginStreaming"
  by (auto simp: writes_def intro: writer_step.intros)

lemma writes_if [writes_intro]: "writes f \<Longrightarrow> writes g \<Longrightarrow> writes (if b then f else g)"
  by simp

lemma writes_write_encoded [writes_intro]: "st \<noteq> 0 \<Longrightarrow> writes (write_encoded st enc)"
proof -
  assume st: "st \<noteq> 0"
  have step: "writer_step\<^sup>*\<^sup>* w (wr_putHeader n vs w)" "writer_step\<^sup>*\<^sup>* w (wr_WriteHeader st w)"
    "writer_step\<^sup>*\<^sup>* w (snd (wr_Write data w))" for w n vs data
    by (rule r_into_rtranclp, rule writer_step.intros, (rule st)?)+
  show ?thesis unfolding writes_def write_encoded_def Let_def
    by (intro allI, rule rtranclp_trans [OF rtranclp_trans [OF rtranclp_trans [OF step(1) step(1)] step(2)] step(3)])
qed

lemma writes_responses [writes_intro]:
  "st \<noteq> 0 \<Longrightarrow> writes (writeAPIError st code msg)" "st \<noteq> 0 \<Longrightarrow> writes (writeJSON H st v)"
  "st \<noteq> 0 \<Longrightarrow> writes (writeResponse H st v)" "st \<noteq> 0 \<Longrightarrow> writes (writeData H st v)"
  "writes (writeDomainError e)" "writes badRequest" "writes notImplemented" "writes internalError"
  "writes (methodNotAllowed ms)" "writes (operation m ms)"
proof -
  show api: "st \<noteq> 0 \<Longrightarrow> writes (writeAPIError st code msg)" for st code msg
    unfolding writeAPIError_def by (rule writes_intro)
  show "st \<noteq> 0 \<Longrightarrow> writes (writeJSON H st v)" for st v
    unfolding writeJSON_def using api by (simp add: writes_write_encoded split: option.split)
  then show "st \<noteq> 0 \<Longrightarrow> writes (writeResponse H st v)" "st \<noteq> 0 \<Longrightarrow> writes (writeData H st v)"
    by (simp_all add: writeResponse_def writeData_def)
  show "writes (writeDomainError e)" unfolding writeDomainError_def using api by simp
  show "writes badRequest" "writes notImplemented" "writes internalError"
    using api by (simp_all add: badRequest_def notImplemented_def internalError_def)
  show mna: "writes (methodNotAllowed ms)"
    unfolding methodNotAllowed_def by (rule writes_comp [OF writes_method(1) api]) simp
  show "writes (operation m ms)" unfolding operation_def using mna api by (simp add: notImplemented_def)
qed

end
