(* ===== verification/HttpApi.thy ===== *)
theory HttpApi
  imports HttpResponse "HOL-Library.State_Monad"
begin

text \<open>
  The dependencies of the HTTP handlers (\<open>Limits\<close>, \<open>Dependencies\<close>, \<open>handler\<close> of
  \<open>internal/httptransport/handler.go\<close>) as records of functions over a state \<open>'w\<close>, the state a handler
  works on, and the cached responses of \<open>response_cache.go\<close>.

  A handler is a program of the state monad over the backend, the response writer and the request's
  observation. A nil dependency is \<open>None\<close>, a type assertion on a dependency an optional function.
\<close>

subsection \<open>Dependencies\<close>

record 'w auth_api =
  aa_Register :: "ctx \<Rightarrow> string \<Rightarrow> string \<Rightarrow> string \<Rightarrow> ('w, user) op"
  aa_Authenticate :: "ctx \<Rightarrow> string \<Rightarrow> string \<Rightarrow> ('w, string) op"
  aa_Authorize :: "ctx \<Rightarrow> string \<Rightarrow> ('w, user) op"
  aa_Logout :: "ctx \<Rightarrow> string \<Rightarrow> ('w, unit) op"

record 'w doc_api =
  da_Upload :: "ctx \<Rightarrow> user \<Rightarrow> upload \<Rightarrow> ('w, document) op"
  da_List :: "ctx \<Rightarrow> user \<Rightarrow> documentFilter \<Rightarrow> ('w, document list) op"
  da_Get :: "ctx \<Rightarrow> user \<Rightarrow> string \<Rightarrow> ('w, content) op"
  da_Delete :: "ctx \<Rightarrow> user \<Rightarrow> string \<Rightarrow> 'w \<Rightarrow> goerr option \<times> 'w"
  da_GetMetadata :: "(ctx \<Rightarrow> user \<Rightarrow> string \<Rightarrow> ('w, document) op) option"
  da_InvalidatesDeleteCache :: "bool option"

record 'w cache_api =
  ca_Get :: "ctx \<Rightarrow> string \<Rightarrow> 'w \<Rightarrow> entry option \<times> 'w"
  ca_Set :: "ctx \<Rightarrow> string \<Rightarrow> entry \<Rightarrow> duration \<Rightarrow> 'w \<Rightarrow> 'w"
  ca_Invalidate :: "ctx \<Rightarrow> string list \<Rightarrow> 'w \<Rightarrow> 'w"
  ca_Stats :: "('w \<Rightarrow> int \<times> int) option"
  ca_EntryFits :: "(string \<Rightarrow> entry \<Rightarrow> int \<Rightarrow> 'w \<Rightarrow> bool) option"

text \<open>A metrics sink takes the duration of a request; the registry converts it to seconds.\<close>

record 'w metrics_api =
  me_ObserveRequest :: "string \<Rightarrow> string \<Rightarrow> int \<Rightarrow> duration \<Rightarrow> 'w \<Rightarrow> 'w"
  me_ObserveCache :: "bool \<Rightarrow> 'w \<Rightarrow> 'w"
  me_SetCacheSize :: "int \<Rightarrow> int \<Rightarrow> 'w \<Rightarrow> 'w"
  me_ObserveFile :: "string \<Rightarrow> int \<Rightarrow> 'w \<Rightarrow> 'w"
  me_ObserveTimeout :: "(string \<Rightarrow> string \<Rightarrow> bool \<Rightarrow> 'w \<Rightarrow> 'w) option"

text \<open>The lines a request logs.\<close>

datatype log_line =
    PanicRecovered (ll_requestID: string) (ll_route: string) (ll_method: string)
  | RequestCompleted (ll_level: logLevel) (ll_requestID: string) (ll_route: string) (ll_method: string)
      (ll_status: int) (ll_duration_ms: int) (ll_cache: string) (ll_outcome: string)

text \<open>An \<open>atomic.Uint64\<close>.\<close>

record 'w epoch =
  ep_Load :: "'w \<Rightarrow> nat"
  ep_Add1 :: "'w \<Rightarrow> 'w"

record limits =
  lm_MaxRequestBytes :: int
  lm_MaxFileBytes :: int
  lm_MaxJSONBytes :: int
  lm_MaxGrantItems :: int
  lm_MaxListLimit :: int

record 'w dependencies =
  dp_Auth :: "'w auth_api option"
  dp_Documents :: "'w doc_api option"
  dp_Cache :: "'w cache_api option"
  dp_CacheEpoch :: "'w epoch option"
  dp_CacheTTL :: duration
  dp_ExposeCacheHeader :: bool
  dp_Logger :: "(log_line \<Rightarrow> 'w \<Rightarrow> 'w) option"
  dp_Metrics :: "'w metrics_api option"
  dp_Readiness :: "(ctx \<Rightarrow> 'w \<Rightarrow> goerr option \<times> 'w) option"
  dp_ProcessingTimeout :: duration
  dp_Limits :: limits

text \<open>\<open>cacheLoad\<close>: what one load of a cached response gives to all who wait for it.\<close>

record cacheLoad =
  cl_entry :: entry
  cl_hit :: bool

text \<open>
  \<open>singleflight.Group.DoChan\<close> is not part of the repository. For a key the environment decides whether
  the caller runs the function itself, and then whether its context ends before the result is there,
  or whether it waits for a call in flight, and then gets its result or gives up.
\<close>

datatype flight = Leads | LeadsLate | Joins cacheLoad | Abandons

record 'w handler =
  h_deps :: "'w dependencies"
  h_loads :: "string \<Rightarrow> 'w \<Rightarrow> flight \<times> 'w"
  h_cacheEpoch :: "'w epoch"

subsection \<open>The state of a request\<close>

record 'w conn =
  cn_back :: 'w
  cn_rw :: writer
  cn_cache :: string

text \<open>A handler returns or panics.\<close>

datatype outcome = Returned | Panicked

definition backend :: "('w \<Rightarrow> 'a \<times> 'w) \<Rightarrow> ('w conn, 'a) state" where
  "backend f = State (\<lambda>k. case f (cn_back k) of (a, w) \<Rightarrow> (a, k\<lparr>cn_back := w\<rparr>))"

definition effect :: "('w \<Rightarrow> 'w) \<Rightarrow> ('w conn, unit) state" where
  "effect f = State (\<lambda>k. ((), k\<lparr>cn_back := f (cn_back k)\<rparr>))"

definition asks :: "('w \<Rightarrow> 'a) \<Rightarrow> ('w conn, 'a) state" where
  "asks f = State (\<lambda>k. (f (cn_back k), k))"

definition respond :: "(writer \<Rightarrow> writer) \<Rightarrow> ('w conn, outcome) state" where
  "respond f = State (\<lambda>k. (Returned, k\<lparr>cn_rw := f (cn_rw k)\<rparr>))"

definition with_rw :: "(writer \<Rightarrow> 'a \<times> writer) \<Rightarrow> ('w conn, 'a) state" where
  "with_rw f = State (\<lambda>k. case f (cn_rw k) of (a, rw) \<Rightarrow> (a, k\<lparr>cn_rw := rw\<rparr>))"

text \<open>\<open>requestObservation.setCache\<close>.\<close>

definition setCache :: "string \<Rightarrow> ('w conn, unit) state" where
  "setCache value = State (\<lambda>k. ((), k\<lparr>cn_cache := value\<rparr>))"

text \<open>Running a load on a response writer of its own.\<close>

definition on_buffer :: "writer \<Rightarrow> ('w conn, 'a) state \<Rightarrow> ('w conn, 'a \<times> writer) state" where
  "on_buffer rw m = State (\<lambda>k. case run_state m (k\<lparr>cn_rw := rw\<rparr>) of (a, k') \<Rightarrow> ((a, cn_rw k'), k'\<lparr>cn_rw := cn_rw k\<rparr>))"

lemma run_handler [simp]:
  "run_state (backend f) k = (case f (cn_back k) of (a, w) \<Rightarrow> (a, k\<lparr>cn_back := w\<rparr>))"
  "run_state (effect g) k = ((), k\<lparr>cn_back := g (cn_back k)\<rparr>)"
  "run_state (asks h) k = (h (cn_back k), k)"
  "run_state (respond x) k = (Returned, k\<lparr>cn_rw := x (cn_rw k)\<rparr>)"
  "run_state (with_rw y) k = (case y (cn_rw k) of (a, rw) \<Rightarrow> (a, k\<lparr>cn_rw := rw\<rparr>))"
  "run_state (setCache s) k = ((), k\<lparr>cn_cache := s\<rparr>)"
  by (simp_all add: backend_def effect_def asks_def respond_def with_rw_def setCache_def)

lemma run_on_buffer [simp]:
  "run_state (on_buffer rw m) k = (case run_state m (k\<lparr>cn_rw := rw\<rparr>) of (a, k') \<Rightarrow> ((a, cn_rw k'), k'\<lparr>cn_rw := cn_rw k\<rparr>))"
  by (simp add: on_buffer_def)

subsection \<open>Cached responses\<close>

definition listCacheTag :: string where "listCacheTag = ''documents:list''"

definition observeCacheResult :: "'w handler \<Rightarrow> bool \<Rightarrow> ('w conn, unit) state" where
  "observeCacheResult h hit =
     do {
       setCache (if hit then ''hit'' else ''miss'');
       (case dp_Metrics (h_deps h) of
          None \<Rightarrow> State_Monad.return ()
        | Some m \<Rightarrow> effect (me_ObserveCache m hit))
     }"

definition observeCacheSize :: "'w handler \<Rightarrow> ('w conn, unit) state" where
  "observeCacheSize h =
     (case (dp_Metrics (h_deps h), dp_Cache (h_deps h)) of
        (Some m, Some cache) \<Rightarrow>
          (case ca_Stats cache of
             None \<Rightarrow> State_Monad.return ()
           | Some stats \<Rightarrow> do {
               (bytes, items) \<leftarrow> asks stats;
               effect (me_SetCacheSize m bytes items)
             })
      | _ \<Rightarrow> State_Monad.return ())"

definition exposeCacheStatus :: "'w handler \<Rightarrow> bool \<Rightarrow> writer \<Rightarrow> writer" where
  "exposeCacheStatus h hit rw =
     (if \<not> dp_ExposeCacheHeader (h_deps h) then rw
      else wr_putHeader ''X-Cache'' [if hit then ''HIT'' else ''MISS''] rw)"

definition empty_entry :: entry where
  "empty_entry = \<lparr>e_status = 0, e_header = [], e_body = [], e_omitted = False, e_stored = zero_time, e_tags = []\<rparr>"

text \<open>The entry a load leaves in its buffer.\<close>

definition buffered_entry :: "string list \<Rightarrow> writer \<Rightarrow> entry" where
  "buffered_entry tags rw =
     (case rw of
        Buffered b \<Rightarrow> empty_entry\<lparr>e_status := bf_status b, e_header := cloneHeader (bf_header b), e_body := bf_body b, e_tags := tags\<rparr>
      | _ \<Rightarrow> empty_entry)"

definition usable :: "bool \<Rightarrow> entry option \<Rightarrow> entry option" where
  "usable acceptBodyOmitted found =
     (case found of
        Some entry \<Rightarrow> if acceptBodyOmitted \<or> \<not> e_omitted entry then Some entry else None
      | None \<Rightarrow> None)"

text \<open>The function handed to the flight group.\<close>

definition run_load ::
  "'w handler \<Rightarrow> 'w cache_api \<Rightarrow> ctx \<Rightarrow> string \<Rightarrow> string list \<Rightarrow> bool \<Rightarrow> ('w conn, bool) state \<Rightarrow> ('w conn, cacheLoad) state" where
  "run_load h cache c key tags acceptBodyOmitted load =
     do {
       found \<leftarrow> backend (ca_Get cache c key);
       (case usable acceptBodyOmitted found of
          Some entry \<Rightarrow> State_Monad.return \<lparr>cl_entry = entry, cl_hit = True\<rparr>
        | None \<Rightarrow> do {
            (complete, rw) \<leftarrow> on_buffer (Buffered newBufferedResponse) load;
            let entry = buffered_entry tags rw;
            _ \<leftarrow> (if complete \<and> 200 \<le> e_status entry \<and> e_status entry < 300
                  then effect (ca_Set cache (context_WithoutCancel c) key entry (dp_CacheTTL (h_deps h)))
                  else State_Monad.return ());
            State_Monad.return \<lparr>cl_entry = entry, cl_hit = False\<rparr>
          })
     }"

definition cachedResponse ::
  "'w handler \<Rightarrow> 'w cache_api \<Rightarrow> ctx \<Rightarrow> string \<Rightarrow> string list \<Rightarrow> bool \<Rightarrow> ('w conn, bool) state \<Rightarrow> ('w conn, entry \<times> bool) state" where
  "cachedResponse h cache c key tags acceptBodyOmitted load =
     do {
       found \<leftarrow> backend (ca_Get cache c key);
       (case usable acceptBodyOmitted found of
          Some entry \<Rightarrow> do {
            observeCacheResult h True;
            State_Monad.return (entry, True)
          }
        | None \<Rightarrow> do {
            flight \<leftarrow> backend (h_loads h key);
            let finish = (\<lambda>value. do {
              observeCacheResult h (cl_hit value);
              observeCacheSize h;
              State_Monad.return (cl_entry value, cl_hit value)
            });
            (case flight of
               Abandons \<Rightarrow> State_Monad.return (empty_entry, False)
             | Joins value \<Rightarrow> finish value
             | Leads \<Rightarrow> do {
                 value \<leftarrow> run_load h cache c key tags acceptBodyOmitted load;
                 finish value
               }
             | LeadsLate \<Rightarrow> do {
                 value \<leftarrow> run_load h cache c key tags acceptBodyOmitted load;
                 State_Monad.return (empty_entry, False)
               })
          })
     }"

text \<open>\<open>w.Header()[name] = values\<close> for every header of an entry.\<close>

definition put_headers :: "header \<Rightarrow> writer \<Rightarrow> writer" where
  "put_headers header rw = foldl (\<lambda>rw (name, vs). wr_putHeader name vs rw) rw header"

definition writeCachedResponse :: "entry \<Rightarrow> writer \<Rightarrow> writer" where
  "writeCachedResponse entry rw =
     (let rw = put_headers (e_header entry) rw;
          status = (if e_status entry = 0 then 200 else e_status entry)
      in snd (wr_Write (e_body entry) (wr_WriteHeader status rw)))"

subsection \<open>Cache keys\<close>

definition documentCacheKey :: "'m http_lib \<Rightarrow> nat \<Rightarrow> string \<Rightarrow> int \<Rightarrow> string" where
  "documentCacheKey H ep i version =
     ''document:v'' @ strconv_Itoa (int ep) @ '':id='' @ strconv_Quote (is_wide H) i @ '':version='' @ strconv_Itoa version"

definition normalizedFilterValue :: "golib \<Rightarrow> 'm http_lib \<Rightarrow> string \<Rightarrow> string \<Rightarrow> string" where
  "normalizedFilterValue L H key value =
     (if key = ''id'' then (case uuid_Parse value of Some u \<Rightarrow> uuid_String u | None \<Rightarrow> value)
      else if key = ''created'' then
        (case (case time_Parse_datetime L value of Inl e \<Rightarrow> time_Parse_rfc3339 L value | Inr t \<Rightarrow> Inr t) of
           Inr t \<Rightarrow> time_Format_nano H t
         | Inl e \<Rightarrow> value)
      else value)"

definition listCacheKey :: "golib \<Rightarrow> 'm http_lib \<Rightarrow> nat \<Rightarrow> string \<Rightarrow> string \<Rightarrow> string \<Rightarrow> string \<Rightarrow> int \<Rightarrow> string" where
  "listCacheKey L H ep userID own filterKey value limit =
     ''list:v'' @ strconv_Itoa (int ep) @ '':u='' @ strconv_Quote (is_wide H) userID @ '':o='' @ strconv_Quote (is_wide H) own @
     '':k='' @ strconv_Quote (is_wide H) filterKey @
     '':value='' @ strconv_Quote (is_wide H) (normalizedFilterValue L H filterKey value) @ '':limit='' @ strconv_Itoa limit"

end
