(* ===== verification/HttpRead.thy ===== *)
theory HttpRead
  imports HttpApi
begin

text \<open>
  Listing and reading documents: \<open>internal/httptransport/list_handler.go\<close> and \<open>read_handler.go\<close>.
\<close>

subsection \<open>Query values\<close>

definition singleQueryValue :: "url_values \<Rightarrow> string \<Rightarrow> string option" where
  "singleQueryValue query name =
     (case al_get query name of Some [v] \<Rightarrow> Some v | _ \<Rightarrow> None)"

definition queryValue :: "url_values \<Rightarrow> string \<Rightarrow> string option" where
  "queryValue query name = (case al_get query name of Some (v # vs) \<Rightarrow> Some v | _ \<Rightarrow> None)"

text \<open>\<open>len(query[name])\<close>.\<close>

definition query_count :: "url_values \<Rightarrow> string \<Rightarrow> nat" where
  "query_count query name = (case al_get query name of None \<Rightarrow> 0 | Some vs \<Rightarrow> length vs)"

subsection \<open>Listing\<close>

definition validDocumentListFilterValue :: "golib \<Rightarrow> string \<Rightarrow> string \<Rightarrow> bool" where
  "validDocumentListFilterValue L key value =
     (if key = ''id'' then uuid_Parse value \<noteq> None
      else if key = ''name'' \<or> key = ''mime'' then True
      else if key = ''file'' \<or> key = ''public'' then value = ''true'' \<or> value = ''false''
      else if key = ''created'' then \<not> isl (time_Parse_datetime L value) \<or> \<not> isl (time_Parse_rfc3339 L value)
      else False)"

definition or_empty :: "string option \<Rightarrow> string" where
  "or_empty x = (case x of None \<Rightarrow> [] | Some s \<Rightarrow> s)"

definition parseDocumentListFilter :: "golib \<Rightarrow> int \<Rightarrow> url_values \<Rightarrow> documentFilter option" where
  "parseDocumentListFilter L maxListLimit query =
     (if \<not> list_all (\<lambda>(name, vs). name \<in> {''token'', ''login'', ''key'', ''value'', ''limit''} \<and> length vs = 1) query then None
      else
        let login = queryValue query ''login''; key = queryValue query ''key''; value = queryValue query ''value''
        in if (key \<noteq> None \<and> (value = None \<or> key = Some [] \<or> value = Some [])) \<or> (key = None \<and> value \<noteq> None) then None
           else if login = Some [] then None
           else if key \<noteq> None \<and> \<not> validDocumentListFilterValue L (or_empty key) (or_empty value) then None
           else
             let filter = \<lparr>f_OwnerLogin = or_empty login, f_Key = or_empty key, f_Value = or_empty value, f_Limit = 0\<rparr>
             in case queryValue query ''limit'' of
                  None \<Rightarrow> Some filter
                | Some rawLimit \<Rightarrow>
                    (case strconv_Atoi rawLimit of
                       None \<Rightarrow> None
                     | Some limit \<Rightarrow>
                         if limit \<le> 0 \<or> limit > maxListLimit then None else Some (filter\<lparr>f_Limit := limit\<rparr>)))"

text \<open>\<open>documentListItem\<close>: an empty MIME type is omitted, nil grants are an empty list.\<close>

definition documentListItem :: "'m http_lib \<Rightarrow> document \<Rightarrow> jvalue" where
  "documentListItem H x =
     JObj ([(''id'', JStr (d_ID x)), (''name'', JStr (d_Name x))] @
       (if d_MIME x = [] then [] else [(''mime'', JStr (d_MIME x))]) @
       [(''file'', JBool (d_IsFile x)), (''public'', JBool (d_IsPublic x)),
        (''created'', JStr (time_Format H (d_CreatedAt x))), (''grant'', JArr (map JStr (d_Grants x)))])"

definition loadDocumentList ::
  "'m http_lib \<Rightarrow> 'w doc_api \<Rightarrow> user \<Rightarrow> documentFilter \<Rightarrow> ('w conn, bool) state" where
  "loadDocumentList H docs requester f =
     do {
       r \<leftarrow> backend (da_List docs request_ctx requester f);
       (case r of
          Inl err \<Rightarrow> do { _ \<leftarrow> respond (writeDomainError err); State_Monad.return False }
        | Inr documents \<Rightarrow> do {
            _ \<leftarrow> respond (writeData H 200 (JObj [(''docs'', JArr (map (documentListItem H) documents))]));
            State_Monad.return True
          })
     }"

definition listDocuments :: "golib \<Rightarrow> 'm http_lib \<Rightarrow> 'w handler \<Rightarrow> request \<Rightarrow> ('w conn, outcome) state" where
  "listDocuments L H h r =
     (case (dp_Auth (h_deps h), dp_Documents (h_deps h)) of
        (Some auth, Some docs) \<Rightarrow>
          (case url_ParseQuery (rq_RawQuery r) of
             None \<Rightarrow> respond badRequest
           | Some query \<Rightarrow>
               if singleQueryValue query ''token'' = None \<and> query_count query ''token'' > 1 then respond badRequest
               else do {
                 a \<leftarrow> backend (aa_Authorize auth request_ctx (or_empty (singleQueryValue query ''token'')));
                 (case a of
                    Inl err \<Rightarrow> respond (writeDomainError err)
                  | Inr requester \<Rightarrow>
                      (case parseDocumentListFilter L (lm_MaxListLimit (dp_Limits (h_deps h))) query of
                         None \<Rightarrow> respond badRequest
                       | Some f \<Rightarrow>
                           (case dp_Cache (h_deps h) of
                              Some cache \<Rightarrow> do {
                                ep \<leftarrow> asks (ep_Load (h_cacheEpoch h));
                                (entry, hit) \<leftarrow> cachedResponse h cache request_ctx
                                  (listCacheKey L H ep (u_ID requester) (f_OwnerLogin f) (f_Key f) (f_Value f) (f_Limit f))
                                  [listCacheTag] (rq_Method r = ''HEAD'') (loadDocumentList H docs requester f);
                                _ \<leftarrow> respond (exposeCacheStatus h hit);
                                respond (writeCachedResponse entry)
                              }
                            | None \<Rightarrow> do {
                                _ \<leftarrow> loadDocumentList H docs requester f;
                                State_Monad.return Returned
                              })))
               })
      | _ \<Rightarrow> respond notImplemented)"

subsection \<open>Streams\<close>

text \<open>
  The context may end while a file is being copied: \<open>closeReaderOnCancellation\<close> then closes the
  file, so that reading fails from some byte on. The environment decides.
\<close>

definition closed_reader :: "nat option \<Rightarrow> reader \<Rightarrow> reader" where
  "closed_reader at r =
     (case at of
        None \<Rightarrow> r
      | Some n \<Rightarrow> \<lparr>r_data = take n (r_data r), r_err = Some (Opaque ''file already closed'')\<rparr>)"

record boundedCapture =
  cp_buffer :: bytes
  cp_remaining :: int
  cp_overflow :: bool

definition cap_Write :: "bytes \<Rightarrow> boundedCapture \<Rightarrow> boundedCapture" where
  "cap_Write data w =
     (if int (length data) > cp_remaining w then
        let w = (if cp_remaining w > 0 then w\<lparr>cp_buffer := cp_buffer w @ take (nat (cp_remaining w)) data\<rparr> else w)
        in w\<lparr>cp_remaining := 0, cp_overflow := True\<rparr>
      else w\<lparr>cp_remaining := cp_remaining w - int (length data), cp_buffer := cp_buffer w @ data\<rparr>)"

text \<open>\<open>io.MultiWriter(w, capture)\<close>, or just \<open>w\<close> without a capture: one chunk.\<close>

definition multi_Write :: "bytes \<Rightarrow> writer \<times> boundedCapture option \<Rightarrow> goerr option \<times> writer \<times> boundedCapture option" where
  "multi_Write data d =
     (case d of (rw, capture) \<Rightarrow>
        (case wr_Write data rw of
           ((n, Some e), rw') \<Rightarrow> (Some e, rw', capture)
         | ((n, None), rw') \<Rightarrow>
             if n \<noteq> int (length data) then (Some (Opaque ''short write''), rw', capture)
             else (None, rw', map_option (cap_Write data) capture)))"

definition fileCopyBufferBytes :: nat where "fileCopyBufferBytes = 32768"

function chunks :: "bytes \<Rightarrow> bytes list" where
  "chunks data =
     (if data = [] then []
      else if int (length data) \<le> 32768 then [data]
      else take fileCopyBufferBytes data # chunks (drop fileCopyBufferBytes data))"
  by pat_completeness auto
termination
  by (relation "measure length") (auto simp: fileCopyBufferBytes_def)

declare chunks.simps [simp del]

fun copy_chunks :: "bytes list \<Rightarrow> writer \<times> boundedCapture option \<Rightarrow> goerr option \<times> writer \<times> boundedCapture option" where
  "copy_chunks [] d = (None, d)"
| "copy_chunks (c # cs) d =
     (case multi_Write c d of (Some e, d') \<Rightarrow> (Some e, d') | (None, d') \<Rightarrow> copy_chunks cs d')"

text \<open>\<open>io.CopyBuffer\<close>: a read error is reported after the bytes read before it.\<close>

definition io_CopyBuffer :: "reader \<Rightarrow> writer \<times> boundedCapture option \<Rightarrow> goerr option \<times> writer \<times> boundedCapture option" where
  "io_CopyBuffer r d =
     (case copy_chunks (chunks (r_data r)) d of (Some e, d') \<Rightarrow> (Some e, d') | (None, d') \<Rightarrow> (r_err r, d'))"

definition file_headers :: "golib \<Rightarrow> document \<Rightarrow> (string \<times> string) list" where
  "file_headers L x =
     [(''Content-Type'', d_MIME x), (''X-Content-Type-Options'', ''nosniff''),
      (''Content-Security-Policy'', ''sandbox; default-src '' @ [CHR 0x27] @ ''none'' @ [CHR 0x27]),
      (''Content-Length'', strconv_Itoa (d_SizeBytes x)),
      (''Content-Disposition'', mime_FormatMediaType L ''inline'' [(''filename'', d_Name x)])]"

definition writeFileHeaders :: "golib \<Rightarrow> document \<Rightarrow> writer \<Rightarrow> writer" where
  "writeFileHeaders L x rw = put_headers (map (\<lambda>(n, v). (n, [v])) (file_headers L x)) rw"

definition writeFileStream ::
  "golib \<Rightarrow> nat option \<Rightarrow> document \<Rightarrow> reader \<Rightarrow> boundedCapture option \<Rightarrow> writer \<Rightarrow>
   (goerr option \<times> boundedCapture option) \<times> writer" where
  "writeFileStream L closedAt x file capture rw =
     (let rw = writeFileHeaders L x rw;
          rw = beginStreaming rw;
          rw = wr_WriteHeader 200 rw
      in case io_CopyBuffer (closed_reader closedAt file) (rw, capture) of (err, rw', capture') \<Rightarrow> ((err, capture'), rw'))"

subsection \<open>Reading\<close>

text \<open>\<open>json.RawMessage\<close>; a nil message is encoded as null.\<close>

definition raw_json :: "document \<Rightarrow> jvalue" where
  "raw_json x = JRaw (case d_JSON x of None \<Rightarrow> ''null'' | Some j \<Rightarrow> j)"

definition fileMetadataEntry :: "golib \<Rightarrow> document \<Rightarrow> string list \<Rightarrow> entry" where
  "fileMetadataEntry L metadata tags =
     (let header = (case writeFileHeaders L metadata (HeaderWriter []) of HeaderWriter hs \<Rightarrow> hs | _ \<Rightarrow> [])
      in empty_entry\<lparr>e_status := 200, e_header := header, e_omitted := True, e_tags := tags\<rparr>)"

definition writeDocumentMetadata :: "golib \<Rightarrow> 'm http_lib \<Rightarrow> document \<Rightarrow> writer \<Rightarrow> writer" where
  "writeDocumentMetadata L H metadata rw =
     (if \<not> d_IsFile metadata then writeData H 200 (raw_json metadata) rw
      else wr_WriteHeader 200 (writeFileHeaders L metadata rw))"

text \<open>The result says whether the whole document was written.\<close>

definition writeDocumentContent :: "golib \<Rightarrow> 'm http_lib \<Rightarrow> nat option \<Rightarrow> content \<Rightarrow> writer \<Rightarrow> bool \<times> writer" where
  "writeDocumentContent L H closedAt ct rw =
     (if \<not> d_IsFile (ct_Document ct) then (True, writeData H 200 (raw_json (ct_Document ct)) rw)
      else case ct_File ct of
          None \<Rightarrow> (False, internalError rw)
        | Some file \<Rightarrow>
            (case writeFileStream L closedAt (ct_Document ct) file None rw of ((err, cap), rw') \<Rightarrow> (err = None, rw')))"

definition loadDocumentContent ::
  "golib \<Rightarrow> 'm http_lib \<Rightarrow> nat option \<Rightarrow> 'w doc_api \<Rightarrow> user \<Rightarrow> string \<Rightarrow> ('w conn, bool) state" where
  "loadDocumentContent L H closedAt docs requester i =
     do {
       r \<leftarrow> backend (da_Get docs request_ctx requester i);
       (case r of
          Inl err \<Rightarrow> do { _ \<leftarrow> respond (writeDomainError err); State_Monad.return False }
        | Inr ct \<Rightarrow> with_rw (writeDocumentContent L H closedAt ct))
     }"

text \<open>\<open>writeCachedFileResponse\<close>: as \<open>writeCachedResponse\<close>, but streaming.\<close>

definition writeCachedFileResponse :: "entry \<Rightarrow> writer \<Rightarrow> writer" where
  "writeCachedFileResponse entry rw =
     (let rw = beginStreaming (put_headers (e_header entry) rw);
          status = (if e_status entry = 0 then 200 else e_status entry)
      in snd (wr_Write (e_body entry) (wr_WriteHeader status rw)))"

text \<open>The branches of \<open>readFileWithCache\<close>: a HEAD request, and a GET the cache cannot answer.\<close>

definition headFile ::
  "golib \<Rightarrow> 'w handler \<Rightarrow> 'w cache_api \<Rightarrow> string \<Rightarrow> string list \<Rightarrow> entry option \<Rightarrow> document \<Rightarrow> ('w conn, outcome) state" where
  "headFile L h cache key tags found metadata =
     (case found of
        Some entry \<Rightarrow> do {
          observeCacheResult h True;
          _ \<leftarrow> respond (exposeCacheStatus h True);
          respond (writeCachedResponse entry)
        }
      | None \<Rightarrow> do {
          let entry = fileMetadataEntry L metadata tags;
          effect (ca_Set cache (context_WithoutCancel request_ctx) key entry (dp_CacheTTL (h_deps h)));
          observeCacheResult h False;
          observeCacheSize h;
          _ \<leftarrow> respond (exposeCacheStatus h False);
          respond (writeCachedResponse entry)
        })"

definition streamFile ::
  "golib \<Rightarrow> 'w handler \<Rightarrow> 'w cache_api \<Rightarrow> nat option \<Rightarrow> string \<Rightarrow> string list \<Rightarrow> document \<Rightarrow> reader \<Rightarrow> ('w conn, outcome) state" where
  "streamFile L h cache closedAt key tags x file =
     do {
       let entry = fileMetadataEntry L x tags;
       cacheBody \<leftarrow> (case ca_EntryFits cache of
           None \<Rightarrow> State_Monad.return False
         | Some fits \<Rightarrow> asks (fits key entry (d_SizeBytes x)));
       (if \<not> cacheBody then do {
          effect (ca_Set cache (context_WithoutCancel request_ctx) key entry (dp_CacheTTL (h_deps h)));
          observeCacheSize h;
          _ \<leftarrow> with_rw (writeFileStream L closedAt x file None);
          State_Monad.return Returned
        }
        else do {
          (err, capture) \<leftarrow> with_rw (writeFileStream L closedAt x file
            (Some \<lparr>cp_buffer = [], cp_remaining = d_SizeBytes x, cp_overflow = False\<rparr>));
          (case capture of
             None \<Rightarrow> State_Monad.return Returned
           | Some cap \<Rightarrow>
               if err \<noteq> None \<or> cp_overflow cap \<or> int (length (cp_buffer cap)) \<noteq> d_SizeBytes x
               then State_Monad.return Returned
               else do {
                 effect (ca_Set cache (context_WithoutCancel request_ctx) key
                   (entry\<lparr>e_body := cp_buffer cap, e_omitted := False\<rparr>) (dp_CacheTTL (h_deps h)));
                 observeCacheSize h;
                 State_Monad.return Returned
               })
        })
     }"

definition readFileWithCache ::
  "golib \<Rightarrow> 'm http_lib \<Rightarrow> 'w handler \<Rightarrow> 'w cache_api \<Rightarrow> 'w doc_api \<Rightarrow> nat option \<Rightarrow> request \<Rightarrow> user \<Rightarrow> string \<Rightarrow> document \<Rightarrow>
   ('w conn, outcome) state" where
  "readFileWithCache L H h cache docs closedAt r requester i metadata =
     do {
       ep \<leftarrow> asks (ep_Load (h_cacheEpoch h));
       let key = documentCacheKey H ep i (d_Version metadata);
       let tags = [''document:'' @ i];
       found \<leftarrow> backend (ca_Get cache request_ctx key);
       (if rq_Method r = ''HEAD'' then headFile L h cache key tags found metadata
        else case usable False found of
            Some entry \<Rightarrow> do {
              observeCacheResult h True;
              _ \<leftarrow> respond (exposeCacheStatus h True);
              respond (writeCachedFileResponse entry)
            }
          | None \<Rightarrow> do {
              observeCacheResult h False;
              _ \<leftarrow> respond (exposeCacheStatus h False);
              g \<leftarrow> backend (da_Get docs request_ctx requester i);
              (case g of
                 Inl err \<Rightarrow> respond (writeDomainError err)
               | Inr ct \<Rightarrow>
                   (case ct_File ct of
                      None \<Rightarrow> respond internalError
                    | Some file \<Rightarrow> streamFile L h cache closedAt key tags (ct_Document ct) file))
            })
     }"

text \<open>The token of the query string: \<open>None\<close> is a malformed query.\<close>

definition read_token :: "string \<Rightarrow> string option" where
  "read_token rawQuery =
     (case url_ParseQuery rawQuery of
        None \<Rightarrow> None
      | Some query \<Rightarrow>
          if length query > 1 then None
          else if length query = 1 then
            (case singleQueryValue query ''token'' of
               None \<Rightarrow> None
             | Some token \<Rightarrow> if query_count query ''token'' > 1 then None else Some token)
          else Some [])"

text \<open>After authorization: with the cache and metadata, by metadata alone for HEAD, or by the content.\<close>

definition readAuthorized ::
  "golib \<Rightarrow> 'm http_lib \<Rightarrow> 'w handler \<Rightarrow> 'w doc_api \<Rightarrow> nat option \<Rightarrow> request \<Rightarrow> user \<Rightarrow> string \<Rightarrow> ('w conn, outcome) state" where
  "readAuthorized L H h docs closedAt r requester i =
     (case (dp_Cache (h_deps h), da_GetMetadata docs) of
        (Some cache, Some getMetadata) \<Rightarrow> do {
          g \<leftarrow> backend (getMetadata request_ctx requester i);
          (case g of
             Inl err \<Rightarrow> respond (writeDomainError err)
           | Inr metadata \<Rightarrow>
               if d_IsFile metadata then readFileWithCache L H h cache docs closedAt r requester i metadata
               else do {
                 ep \<leftarrow> asks (ep_Load (h_cacheEpoch h));
                 (entry, hit) \<leftarrow> cachedResponse h cache request_ctx (documentCacheKey H ep i (d_Version metadata))
                   [''document:'' @ i] (rq_Method r = ''HEAD'') (loadDocumentContent L H closedAt docs requester i);
                 _ \<leftarrow> respond (exposeCacheStatus h hit);
                 respond (writeCachedResponse entry)
               })
        }
      | (_, getMetadata) \<Rightarrow>
          if rq_Method r = ''HEAD'' then
            (case getMetadata of
               None \<Rightarrow> respond internalError
             | Some getMetadata \<Rightarrow> do {
                 g \<leftarrow> backend (getMetadata request_ctx requester i);
                 (case g of
                    Inl err \<Rightarrow> respond (writeDomainError err)
                  | Inr metadata \<Rightarrow> respond (writeDocumentMetadata L H metadata))
               })
          else do {
            _ \<leftarrow> loadDocumentContent L H closedAt docs requester i;
            State_Monad.return Returned
          })"

definition readDocument ::
  "golib \<Rightarrow> 'm http_lib \<Rightarrow> 'w handler \<Rightarrow> nat option \<Rightarrow> request \<Rightarrow> string \<Rightarrow> ('w conn, outcome) state" where
  "readDocument L H h closedAt r i =
     (case (dp_Auth (h_deps h), dp_Documents (h_deps h)) of
        (Some auth, Some docs) \<Rightarrow>
          (case read_token (rq_RawQuery r) of
             None \<Rightarrow> respond badRequest
           | Some token \<Rightarrow> do {
               a \<leftarrow> backend (aa_Authorize auth request_ctx token);
               (case a of
                  Inl err \<Rightarrow> respond (writeDomainError err)
                | Inr requester \<Rightarrow> readAuthorized L H h docs closedAt r requester i)
             })
      | _ \<Rightarrow> respond notImplemented)"

end
