(* ===== verification/HttpUpdate.thy ===== *)
theory HttpUpdate
  imports HttpRead
begin

text \<open>
  Uploading and deleting documents: \<open>internal/httptransport/upload_handler.go\<close> and
  \<open>delete_handler.go\<close>. The temporary files of a multipart form are not modelled.
\<close>

subsection \<open>Upload\<close>

text \<open>\<open>uploadMeta\<close> as decoded; a pointer is an option.\<close>

record uploadMeta =
  um_Name :: "string option"
  um_File :: "bool option"
  um_Public :: "bool option"
  um_Token :: "string option"
  um_MIME :: "string option"
  um_Grant :: "string list"

text \<open>The decoder gives the first value of the text and whether only white space follows it.\<close>

type_synonym meta_lib = "(uploadMeta \<times> bool) http_lib"

text \<open>The metadata with every required field: name, file, public and token.\<close>

definition decodeUploadMeta :: "meta_lib \<Rightarrow> bytes \<Rightarrow> (uploadMeta \<times> string \<times> bool \<times> bool \<times> string) option" where
  "decodeUploadMeta H raw =
     (case json_decode_meta H raw of
        None \<Rightarrow> None
      | Some (meta, atEOF) \<Rightarrow>
          (case (um_Name meta, um_File meta, um_Public meta, um_Token meta) of
             (Some name, Some file, Some public, Some token) \<Rightarrow>
               if \<not> atEOF then None else Some (meta, name, file, public, token)
           | _ \<Rightarrow> None))"

definition validUploadShape :: "bool \<Rightarrow> string option \<Rightarrow> bool \<Rightarrow> bool \<Rightarrow> bool" where
  "validUploadShape file mime jsonPresent filePresent =
     (if file then filePresent \<and> mime \<noteq> None \<and> mime \<noteq> Some []
      else if filePresent \<or> \<not> jsonPresent then False
      else mime = None \<or> mime \<noteq> Some [])"

definition knownUploadParts :: "multipart_form \<Rightarrow> bool" where
  "knownUploadParts form \<longleftrightarrow>
     list_all (\<lambda>(name, vs). name \<in> {''meta'', ''json'', ''file''}) (mp_Value form) \<and>
     list_all (\<lambda>(name, fs). name \<in> {''meta'', ''json'', ''file''}) (mp_File form)"

definition form_values :: "multipart_form \<Rightarrow> string \<Rightarrow> string list" where
  "form_values form name = (case al_get (mp_Value form) name of None \<Rightarrow> [] | Some vs \<Rightarrow> vs)"

definition form_files :: "multipart_form \<Rightarrow> string \<Rightarrow> multipart_file list" where
  "form_files form name = (case al_get (mp_File form) name of None \<Rightarrow> [] | Some fs \<Rightarrow> fs)"

definition readAtMost :: "reader \<Rightarrow> int \<Rightarrow> goerr + bytes" where
  "readAtMost r limit =
     (case io_ReadAll (limited_reader r (wrap64 (limit + 1))) of
        Inl err \<Rightarrow> Inl err
      | Inr content \<Rightarrow>
          if int (length content) > limit then Inl (Opaque (''multipart part exceeds '' @ strconv_Itoa limit @ '' bytes''))
          else Inr content)"

text \<open>The part's bytes; \<open>Inr None\<close> when it is absent.\<close>

definition readMultipartValue :: "multipart_form \<Rightarrow> string \<Rightarrow> int \<Rightarrow> goerr + bytes option" where
  "readMultipartValue form name limit =
     (let vs = form_values form name; files = form_files form name
      in if length vs + length files = 0 then Inr None
         else if length vs + length files \<noteq> 1 then Inl (Opaque ''multipart part occurs more than once'')
         else case vs of
             v # _ \<Rightarrow>
               if int (length v) > limit then Inl (Opaque ''multipart part is too large'') else Inr (Some v)
           | [] \<Rightarrow>
               (case mf_content (hd files) of
                  Inl err \<Rightarrow> Inl err
                | Inr r \<Rightarrow> map_sum id Some (readAtMost r limit)))"

text \<open>The file and its size; \<open>Inr None\<close> when it is absent.\<close>

definition openMultipartFile :: "multipart_form \<Rightarrow> string \<Rightarrow> goerr + (reader \<times> int) option" where
  "openMultipartFile form name =
     (let vs = form_values form name; files = form_files form name
      in if length vs + length files = 0 then Inr None
         else if length vs + length files \<noteq> 1 then Inl (Opaque ''multipart part occurs more than once'')
         else case files of
             f # _ \<Rightarrow> map_sum id (\<lambda>r. Some (r, mf_Size f)) (mf_content f)
           | [] \<Rightarrow> Inr (Some (\<lparr>r_data = hd vs, r_err = None\<rparr>, int (length (hd vs)))))"

text \<open>What is checked before the token is looked at: the form and its metadata.\<close>

definition upload_form ::
  "golib \<Rightarrow> meta_lib \<Rightarrow> limits \<Rightarrow> request \<Rightarrow> (multipart_form \<times> uploadMeta \<times> string \<times> bool \<times> bool \<times> string) option" where
  "upload_form L H lim r =
     (case mime_ParseMediaType L (hdr_get ''Content-Type'' (rq_Header r)) of
        Inl err \<Rightarrow> None
      | Inr (mediaType, params) \<Rightarrow>
          if mediaType \<noteq> ''multipart/form-data'' then None
          else case multipart_parse H (hdr_get ''Content-Type'' (rq_Header r)) (rq_Body r) (lm_MaxJSONBytes lim) of
              None \<Rightarrow> None
            | Some form \<Rightarrow>
                if \<not> knownUploadParts form then None
                else case readMultipartValue form ''meta'' (lm_MaxRequestBytes lim) of
                    Inr (Some metaBody) \<Rightarrow>
                      (case decodeUploadMeta H metaBody of
                         None \<Rightarrow> None
                       | Some (meta, name, file, public, token) \<Rightarrow>
                           if int (length (um_Grant meta)) > lm_MaxGrantItems lim then None
                           else Some (form, meta, name, file, public, token))
                  | _ \<Rightarrow> None)"

text \<open>
  What is checked after authorization, and the input it makes: the upload, and the JSON and file
  parts that were present.
\<close>

definition upload_input ::
  "golib \<Rightarrow> limits \<Rightarrow> multipart_form \<Rightarrow> uploadMeta \<Rightarrow> string \<Rightarrow> bool \<Rightarrow> bool \<Rightarrow>
   (upload \<times> bytes option \<times> (reader \<times> int) option) option" where
  "upload_input L lim form meta name file public =
     (case readMultipartValue form ''json'' (lm_MaxJSONBytes lim) of
        Inl err \<Rightarrow> None
      | Inr json \<Rightarrow>
          if (case json of None \<Rightarrow> False | Some body \<Rightarrow> \<not> json_Valid L body) then None
          else case openMultipartFile form ''file'' of
              Inl err \<Rightarrow> None
            | Inr content \<Rightarrow>
                if (case content of None \<Rightarrow> 0 | Some (_, bytes) \<Rightarrow> bytes) > lm_MaxFileBytes lim \<or>
                   \<not> validUploadShape file (um_MIME meta) (json \<noteq> None) (content \<noteq> None) then None
                else Some
                  (\<lparr>up_Document = \<lparr>d_ID = [], d_OwnerID = [], d_Name = name, d_MIME = or_empty (um_MIME meta),
                      d_IsFile = file, d_IsPublic = public, d_JSON = json, d_StorageKey = [], d_SizeBytes = 0,
                      d_CreatedAt = zero_time, d_UpdatedAt = zero_time, d_Version = 0, d_Grants = um_Grant meta\<rparr>,
                    up_File = map_option fst content\<rparr>, json, content))"

text \<open>After a successful upload: the metrics, and the listings in the cache are void.\<close>

definition after_upload :: "'w handler \<Rightarrow> (reader \<times> int) option \<Rightarrow> ('w conn, unit) state" where
  "after_upload h content =
     do {
       (case (content, dp_Metrics (h_deps h)) of
          (Some (_, fileSize), Some m) \<Rightarrow> effect (me_ObserveFile m ''upload'' fileSize)
        | _ \<Rightarrow> State_Monad.return ());
       (case dp_Cache (h_deps h) of
          None \<Rightarrow> State_Monad.return ()
        | Some cache \<Rightarrow> do {
            effect (ep_Add1 (h_cacheEpoch h));
            effect (ca_Invalidate cache (context_WithoutCancel request_ctx) [listCacheTag]);
            observeCacheSize h
          })
     }"

definition uploadDocument :: "golib \<Rightarrow> meta_lib \<Rightarrow> 'w handler \<Rightarrow> request \<Rightarrow> ('w conn, outcome) state" where
  "uploadDocument L H h r =
     (case (dp_Auth (h_deps h), dp_Documents (h_deps h)) of
        (Some auth, Some docs) \<Rightarrow>
          (case upload_form L H (dp_Limits (h_deps h)) r of
             None \<Rightarrow> respond badRequest
           | Some (form, meta, name, file, public, token) \<Rightarrow> do {
               a \<leftarrow> backend (aa_Authorize auth request_ctx token);
               (case a of
                  Inl err \<Rightarrow> respond (writeDomainError err)
                | Inr requester \<Rightarrow>
                    (case upload_input L (dp_Limits (h_deps h)) form meta name file public of
                       None \<Rightarrow> respond badRequest
                     | Some (input, json, content) \<Rightarrow> do {
                         u \<leftarrow> backend (da_Upload docs request_ctx requester input);
                         (case u of
                            Inl err \<Rightarrow> respond (writeDomainError err)
                          | Inr _ \<Rightarrow> do {
                              after_upload h content;
                              respond (writeData H 200 (JObj
                                ((case content of None \<Rightarrow> [] | Some _ \<Rightarrow> [(''file'', JStr name)]) @
                                 (case json of None \<Rightarrow> [] | Some body \<Rightarrow> [(''json'', JRaw body)]))))
                            })
                       }))
             })
      | _ \<Rightarrow> respond notImplemented)"

subsection \<open>Delete\<close>

text \<open>The media type of a header, without its parameters.\<close>

definition bare_media_type :: "request \<Rightarrow> string" where
  "bare_media_type r = strings_TrimSpace (before_first (CHR '';'') (hdr_get ''Content-Type'' (rq_Header r)))"

text \<open>\<open>None\<close> is a malformed form. A request without a body makes \<open>io.ReadAll\<close> panic.\<close>

definition parseDeleteForm :: "request \<Rightarrow> reader \<Rightarrow> url_values option" where
  "parseDeleteForm r body =
     (if bare_media_type r \<noteq> ''application/x-www-form-urlencoded'' then None
      else case io_ReadAll body of
          Inl err \<Rightarrow> None
        | Inr encoded \<Rightarrow> url_ParseQuery encoded)"

definition after_delete :: "'w handler \<Rightarrow> 'w doc_api \<Rightarrow> string \<Rightarrow> ('w conn, unit) state" where
  "after_delete h docs i =
     (let invalidatedByService = (case da_InvalidatesDeleteCache docs of None \<Rightarrow> False | Some b \<Rightarrow> b)
      in case dp_Cache (h_deps h) of
           Some cache \<Rightarrow>
             if invalidatedByService then State_Monad.return ()
             else do {
               effect (ep_Add1 (h_cacheEpoch h));
               effect (ca_Invalidate cache (context_WithoutCancel request_ctx) [listCacheTag, ''document:'' @ i]);
               observeCacheSize h
             }
         | None \<Rightarrow> State_Monad.return ())"

definition deleteAuthorized ::
  "'m http_lib \<Rightarrow> 'w handler \<Rightarrow> 'w auth_api \<Rightarrow> 'w doc_api \<Rightarrow> string \<Rightarrow> string \<Rightarrow> ('w conn, outcome) state" where
  "deleteAuthorized H h auth docs token i =
     do {
       a \<leftarrow> backend (aa_Authorize auth request_ctx token);
       (case a of
          Inl err \<Rightarrow> respond (writeDomainError err)
        | Inr requester \<Rightarrow> do {
            res \<leftarrow> backend (da_Delete docs request_ctx requester i);
            (case res of
               Some err \<Rightarrow> respond (writeDomainError err)
             | None \<Rightarrow> do {
                 after_delete h docs i;
                 respond (writeResponse H 200 (JObj [(i, JBool True)]))
               })
          })
     }"

definition deleteDocument :: "'m http_lib \<Rightarrow> 'w handler \<Rightarrow> request \<Rightarrow> string \<Rightarrow> ('w conn, outcome) state" where
  "deleteDocument H h r i =
     (case (dp_Auth (h_deps h), dp_Documents (h_deps h)) of
        (Some auth, Some docs) \<Rightarrow>
          if rq_RawQuery r \<noteq> [] then respond badRequest
          else if bare_media_type r \<noteq> ''application/x-www-form-urlencoded'' then respond badRequest
          else case rq_Body r of
              None \<Rightarrow> State_Monad.return Panicked
            | Some body \<Rightarrow>
                (case parseDeleteForm r body of
                   None \<Rightarrow> respond badRequest
                 | Some form \<Rightarrow>
                     if length form \<noteq> 1 \<or> query_count form ''token'' \<noteq> 1 then respond badRequest
                     else deleteAuthorized H h auth docs (values_Get ''token'' form) i)
      | _ \<Rightarrow> respond notImplemented)"

end
