(* ===== verification/HttpHandler.thy ===== *)
theory HttpHandler
  imports HttpUpdate
begin

text \<open>
  \<open>internal/httptransport/handler.go\<close>: construction, routing, the authentication operations and the
  processing of a request under a deadline.
\<close>

subsection \<open>Construction\<close>

definition default_limits :: limits where
  "default_limits = \<lparr>lm_MaxRequestBytes = 33554432, lm_MaxFileBytes = 26214400, lm_MaxJSONBytes = 1048576,
     lm_MaxGrantItems = 100, lm_MaxListLimit = 100\<rparr>"

definition or_default :: "int \<Rightarrow> int \<Rightarrow> int" where
  "or_default d x = (if x \<le> 0 then d else x)"

definition newHandler ::
  "(log_line \<Rightarrow> 'w \<Rightarrow> 'w) \<Rightarrow> 'w epoch \<Rightarrow> (string \<Rightarrow> 'w \<Rightarrow> flight \<times> 'w) \<Rightarrow> 'w dependencies \<Rightarrow> 'w handler" where
  "newHandler defaultLogger newEpoch loads deps =
     (let lim = dp_Limits deps;
          lim = \<lparr>lm_MaxRequestBytes = or_default (lm_MaxRequestBytes default_limits) (lm_MaxRequestBytes lim),
                 lm_MaxFileBytes = or_default (lm_MaxFileBytes default_limits) (lm_MaxFileBytes lim),
                 lm_MaxJSONBytes = or_default (lm_MaxJSONBytes default_limits) (lm_MaxJSONBytes lim),
                 lm_MaxGrantItems = or_default (lm_MaxGrantItems default_limits) (lm_MaxGrantItems lim),
                 lm_MaxListLimit = or_default (lm_MaxListLimit default_limits) (lm_MaxListLimit lim)\<rparr>;
          logger = (case dp_Logger deps of None \<Rightarrow> defaultLogger | Some l \<Rightarrow> l);
          ttl = (if dp_Cache deps \<noteq> None \<and> dp_CacheTTL deps \<le> 0 then 5 * minute else dp_CacheTTL deps);
          ep = (case dp_CacheEpoch deps of None \<Rightarrow> newEpoch | Some e \<Rightarrow> e)
      in \<lparr>h_deps = deps\<lparr>dp_Logger := Some logger, dp_Limits := lim, dp_CacheTTL := ttl, dp_CacheEpoch := Some ep\<rparr>,
          h_loads = loads, h_cacheEpoch = ep\<rparr>)"

subsection \<open>Paths\<close>

definition singlePathValue :: "string \<Rightarrow> string \<Rightarrow> bool" where
  "singlePathValue path prefix =
     (let v = strings_TrimPrefix path prefix in v \<noteq> path \<and> v \<noteq> [] \<and> \<not> strings_Contains v ''/'')"

definition normalizedRoute :: "string \<Rightarrow> string" where
  "normalizedRoute path =
     (if path \<in> {''/health/live'', ''/health/ready'', ''/metrics'', ''/api/register'', ''/api/auth'', ''/api/docs''} then path
      else if singlePathValue path ''/api/auth/'' then ''/api/auth/{token}''
      else if singlePathValue path ''/api/docs/'' then ''/api/docs/{id}''
      else ''not_found'')"

subsection \<open>Authentication\<close>

text \<open>\<open>parseURLForm\<close>; \<open>None\<close> is a request that was answered.\<close>

definition parseURLForm :: "golib \<Rightarrow> request \<Rightarrow> ('w conn, url_values option) state" where
  "parseURLForm L r =
     (if bare_media_type r \<noteq> ''application/x-www-form-urlencoded''
      then do { _ \<leftarrow> respond badRequest; State_Monad.return None }
      else case parse_form L r of
          None \<Rightarrow> do { _ \<leftarrow> respond badRequest; State_Monad.return None }
        | Some form \<Rightarrow> State_Monad.return (Some form))"

definition register :: "golib \<Rightarrow> 'm http_lib \<Rightarrow> 'w handler \<Rightarrow> request \<Rightarrow> ('w conn, outcome) state" where
  "register L H h r =
     (case dp_Auth (h_deps h) of
        None \<Rightarrow> respond notImplemented
      | Some auth \<Rightarrow> do {
          parsed \<leftarrow> parseURLForm L r;
          (case parsed of
             None \<Rightarrow> State_Monad.return Returned
           | Some form \<Rightarrow> do {
               u \<leftarrow> backend (aa_Register auth request_ctx (values_Get ''token'' form) (values_Get ''login'' form)
                 (values_Get ''pswd'' form));
               (case u of
                  Inl err \<Rightarrow> respond (writeDomainError err)
                | Inr user \<Rightarrow> respond (writeResponse H 200 (JObj [(''login'', JStr (u_Login user))])))
             })
        })"

definition authenticate :: "golib \<Rightarrow> 'm http_lib \<Rightarrow> 'w handler \<Rightarrow> request \<Rightarrow> ('w conn, outcome) state" where
  "authenticate L H h r =
     (case dp_Auth (h_deps h) of
        None \<Rightarrow> respond notImplemented
      | Some auth \<Rightarrow> do {
          parsed \<leftarrow> parseURLForm L r;
          (case parsed of
             None \<Rightarrow> State_Monad.return Returned
           | Some form \<Rightarrow> do {
               t \<leftarrow> backend (aa_Authenticate auth request_ctx (values_Get ''login'' form) (values_Get ''pswd'' form));
               (case t of
                  Inl err \<Rightarrow> respond (writeDomainError err)
                | Inr token \<Rightarrow> respond (writeResponse H 200 (JObj [(''token'', JStr token)])))
             })
        })"

definition logout :: "'m http_lib \<Rightarrow> 'w handler \<Rightarrow> string \<Rightarrow> ('w conn, outcome) state" where
  "logout H h token =
     (case dp_Auth (h_deps h) of
        None \<Rightarrow> respond notImplemented
      | Some auth \<Rightarrow> do {
          res \<leftarrow> backend (aa_Logout auth request_ctx token);
          (case res of
             Inl err \<Rightarrow> respond (writeDomainError err)
           | Inr _ \<Rightarrow> respond (writeResponse H 200 (JObj [(token, JBool True)])))
        })"

subsection \<open>Routing\<close>

definition writeOK :: "'m http_lib \<Rightarrow> writer \<Rightarrow> writer" where
  "writeOK H = writeResponse H 200 (JObj [(''status'', JStr ''ok'')])"

definition ready :: "'m http_lib \<Rightarrow> 'w handler \<Rightarrow> ('w conn, outcome) state" where
  "ready H h =
     (case dp_Readiness (h_deps h) of
        None \<Rightarrow> respond (writeOK H)
      | Some readiness \<Rightarrow> do {
          err \<leftarrow> backend (readiness request_ctx);
          (case err of
             Some e \<Rightarrow> respond (writeAPIError 503 500 ''service unavailable'')
           | None \<Rightarrow> respond (writeOK H))
        })"

text \<open>\<open>closedAt\<close> is the moment at which the end of the context closes a file being sent.\<close>

definition route :: "golib \<Rightarrow> meta_lib \<Rightarrow> 'w handler \<Rightarrow> nat option \<Rightarrow> request \<Rightarrow> ('w conn, outcome) state" where
  "route L H h closedAt r =
     (let path = rq_Path r; method = rq_Method r
      in if path = ''/health/live'' then
           if method \<noteq> ''GET'' then respond (methodNotAllowed [''GET'']) else respond (writeOK H)
         else if path = ''/health/ready'' then
           if method \<noteq> ''GET'' then respond (methodNotAllowed [''GET'']) else ready H h
         else if path = ''/api/register'' then
           if method \<noteq> ''POST'' then respond (methodNotAllowed [''POST'']) else register L H h r
         else if path = ''/api/auth'' then
           if method \<noteq> ''POST'' then respond (methodNotAllowed [''POST'']) else authenticate L H h r
         else if singlePathValue path ''/api/auth/'' then
           if method \<noteq> ''DELETE'' then respond (methodNotAllowed [''DELETE''])
           else logout H h (strings_TrimPrefix path ''/api/auth/'')
         else if path = ''/api/docs'' then
           if method = ''POST'' then uploadDocument L H h r
           else if method = ''GET'' \<or> method = ''HEAD'' then listDocuments L H h r
           else respond (operation method [''GET'', ''HEAD'', ''POST''])
         else if singlePathValue path ''/api/docs/'' then
           if method = ''GET'' \<or> method = ''HEAD'' then readDocument L H h closedAt r (strings_TrimPrefix path ''/api/docs/'')
           else if method = ''DELETE'' then deleteDocument H h r (strings_TrimPrefix path ''/api/docs/'')
           else respond (methodNotAllowed [''DELETE'', ''GET'', ''HEAD''])
         else respond (writeAPIError 404 404 ''resource not found''))"

subsection \<open>One request\<close>

text \<open>
  What the environment decides about a request: its id, its duration, and when the deadline passes
  (a moment of the response's writer) and how much later \<open>serveHTTP\<close> acts on it.
\<close>

record exchange =
  ex_requestID :: string
  ex_elapsed :: duration
  ex_deadline :: "(nat \<times> nat) option"

definition begin_response :: "exchange \<Rightarrow> bool \<Rightarrow> request \<Rightarrow> dst \<Rightarrow> observedResponse" where
  "begin_response x limited r d =
     (let d = d\<lparr>ds_header := hdr_set ''X-Request-ID'' (ex_requestID x) (ds_header d)\<rparr>;
          deadline = (if limited then ex_deadline x else None)
      in newObservedResponse d (rq_Method r = ''HEAD'') (ex_requestID x) (map_option fst deadline)
           (map_option (\<lambda>(c, late). c + late) deadline))"

text \<open>The goroutine that runs the handler.\<close>

definition run_next :: "'w handler \<Rightarrow> (request \<Rightarrow> ('w conn, outcome) state) \<Rightarrow> request \<Rightarrow> ('w conn, outcome) state" where
  "run_next h handle r =
     (let limit = lm_MaxRequestBytes (dp_Limits (h_deps h))
      in if rq_ContentLength r > limit then respond (writeAPIError 400 400 ''request body is too large'')
         else handle (r\<lparr>rq_Body := map_option (\<lambda>b. max_bytes_reader b limit) (rq_Body r)\<rparr>))"

text \<open>
  The two \<open>select\<close> statements: the deadline was acted upon while the handler ran, or had passed when
  it was done; otherwise the response is finished, after a panic with an internal error. From here on
  only this goroutine uses the writer. The results are timed out, streaming, and panicked.
\<close>

definition settle :: "exchange \<Rightarrow> outcome \<Rightarrow> observedResponse \<Rightarrow> (bool \<times> bool \<times> bool) \<times> observedResponse" where
  "settle x out w0 =
     (let w = w0\<lparr>ob_timeoutAt := None\<rparr>
      in case ob_timedOut w of
           Some streaming \<Rightarrow> ((True, streaming, False), w)
         | None \<Rightarrow>
             if deadlineExceeded w then
               (case resp_timeout (ex_requestID x) w of (streaming, w') \<Rightarrow> ((True, streaming, False), w'))
             else if out = Panicked then ((False, False, True), ob_finish (replaceWithInternalError w))
             else ((False, False, False), ob_finish w))"

text \<open>
  The log line and the metrics of a request. After a timeout the code reads the status and the cache result
  at once, while the handler may still be running; here they are read when the handler has finished.
\<close>

definition report ::
  "'w handler \<Rightarrow> exchange \<Rightarrow> request \<Rightarrow> bool \<times> bool \<times> bool \<Rightarrow> string \<Rightarrow> observedResponse \<Rightarrow> 'w \<Rightarrow> 'w" where
  "report h x r ending cache response w0 =
     (case ending of (timedOut, streamingTimeout, panicked) \<Rightarrow>
        let log = (case dp_Logger (h_deps h) of None \<Rightarrow> (\<lambda>l w. w) | Some f \<Rightarrow> f);
            line = (if panicked then Some (PanicRecovered (ex_requestID x) (normalizedRoute (rq_Path r)) (rq_Method r)) else None);
            w = (case line of None \<Rightarrow> w0 | Some l \<Rightarrow> log l w0);
            status = statusCode response;
            level = (if status \<ge> 500 \<or> timedOut then LevelError else LevelInfo);
            outcome = (if \<not> timedOut then ''completed'' else if streamingTimeout then ''streaming_timeout'' else ''timeout'');
            w = log (RequestCompleted level (ex_requestID x) (normalizedRoute (rq_Path r)) (rq_Method r) status
              (go_div (ex_elapsed x) millisecond) cache outcome) w
        in case dp_Metrics (h_deps h) of
             None \<Rightarrow> w
           | Some m \<Rightarrow>
               let w = me_ObserveRequest m (normalizedRoute (rq_Path r)) (rq_Method r) status (ex_elapsed x) w;
                   w = (case me_ObserveTimeout m of
                          Some f \<Rightarrow> if timedOut then f (normalizedRoute (rq_Path r)) (rq_Method r) streamingTimeout w else w
                        | None \<Rightarrow> w)
               in if rq_Method r \<noteq> ''HEAD'' \<and> hdr_get ''Content-Disposition'' (responseHeader response) \<noteq> []
                  then me_ObserveFile m ''download'' (writtenBytes response) w else w)"

definition serveHTTP ::
  "'w handler \<Rightarrow> exchange \<Rightarrow> bool \<Rightarrow> (request \<Rightarrow> ('w conn, outcome) state) \<Rightarrow> request \<Rightarrow> dst \<Rightarrow> 'w \<Rightarrow> dst \<times> 'w" where
  "serveHTTP h x limited handle r d w =
     (case run_state (run_next h handle r)
             \<lparr>cn_back = w, cn_rw = Observed (begin_response x limited r d), cn_cache = ''none''\<rparr> of
        (out, k) \<Rightarrow>
          (case cn_rw k of
             Observed response \<Rightarrow>
               (case settle x out response of
                  (ending, response) \<Rightarrow> (ob_dst response, report h x r ending (cn_cache k) response (cn_back k)))
           | _ \<Rightarrow> (d, cn_back k)))"

definition serve :: "golib \<Rightarrow> meta_lib \<Rightarrow> 'w handler \<Rightarrow> exchange \<Rightarrow> nat option \<Rightarrow> request \<Rightarrow> dst \<Rightarrow> 'w \<Rightarrow> dst \<times> 'w" where
  "serve L H h x closedAt r d w =
     serveHTTP h x (dp_ProcessingTimeout (h_deps h) > 0) (route L H h closedAt) r d w"

end
