(* ===== verification/HttpVia.thy ===== *)
theory HttpVia
  imports HttpHandler
begin

text \<open>
  Every operation of the handler touches its response writer only through the writer's methods, so
  that what holds of the methods holds of all responses.
\<close>

definition via :: "('w conn, 'a) state \<Rightarrow> bool" where
  "via m \<longleftrightarrow> (\<forall>k. writer_step\<^sup>*\<^sup>* (cn_rw k) (cn_rw (snd (run_state m k))))"

named_theorems via_intro

lemma viaD: "via m \<Longrightarrow> run_state m k = (a, k') \<Longrightarrow> writer_step\<^sup>*\<^sup>* (cn_rw k) (cn_rw k')"
  by (metis via_def snd_conv)

lemma via_return [via_intro]: "via (State_Monad.return a)"
  by (simp add: via_def)

lemma via_bind [via_intro]: "via m \<Longrightarrow> (\<And>a. via (f a)) \<Longrightarrow> via (State_Monad.bind m f)"
  unfolding via_def by (simp split: prod.split) (metis rtranclp_trans snd_conv)

lemma via_backend [via_intro]: "via (backend f)" "via (effect g)" "via (asks g')" "via (setCache s)"
  by (simp_all add: via_def split: prod.split)

lemma via_respond [via_intro]: "writes f \<Longrightarrow> via (respond f)"
  by (simp add: via_def writes_def)

lemma via_with_rw [via_intro]: "writes (\<lambda>rw. snd (f rw)) \<Longrightarrow> via (with_rw f)"
  by (auto simp: via_def writes_def split: prod.split) (metis snd_conv)

lemma via_on_buffer [via_intro]: "via (on_buffer rw m)"
  by (simp add: via_def split: prod.split)

lemma via_split [via_intro]:
  "(b \<Longrightarrow> via m) \<Longrightarrow> (\<not> b \<Longrightarrow> via m') \<Longrightarrow> via (if b then m else m')"
  "(x = None \<Longrightarrow> via n) \<Longrightarrow> (\<And>y. x = Some y \<Longrightarrow> via (g y)) \<Longrightarrow> via (case x of None \<Rightarrow> n | Some y \<Rightarrow> g y)"
  "(\<And>e. z = Inl e \<Longrightarrow> via (p e)) \<Longrightarrow> (\<And>y. z = Inr y \<Longrightarrow> via (q y)) \<Longrightarrow> via (case z of Inl e \<Rightarrow> p e | Inr y \<Rightarrow> q y)"
  "(\<And>a c. pr = (a, c) \<Longrightarrow> via (s a c)) \<Longrightarrow> via (case pr of (a, c) \<Rightarrow> s a c)"
  by (simp_all split: option.split sum.split prod.split)

subsection \<open>The writer functions\<close>

lemma writes_put_headers [writes_intro]: "writes (put_headers hs)"
proof -
  have "writer_step\<^sup>*\<^sup>* w (foldl (\<lambda>rw (name, vs). wr_putHeader name vs rw) w hs)" for w
  proof (induction hs arbitrary: w)
    case (Cons p hs)
    have "writer_step w (wr_putHeader (fst p) (snd p) w)" by (rule writer_step.intros)
    with Cons show ?case by (simp add: case_prod_beta) (meson converse_rtranclp_into_rtranclp)
  qed simp
  then show ?thesis by (simp add: writes_def put_headers_def)
qed

lemma writes_cached [writes_intro]: "writes (writeCachedResponse entry)" "writes (writeCachedFileResponse entry)"
proof -
  let ?st = "if e_status entry = 0 then 200 else e_status entry"
  have st: "?st \<noteq> 0" by simp
  show "writes (writeCachedResponse entry)" "writes (writeCachedFileResponse entry)"
    unfolding writeCachedResponse_def writeCachedFileResponse_def Let_def
    by (intro writes_comp [OF writes_comp [OF writes_put_headers writes_method(2) [OF st]] writes_method(3)]
        writes_comp [OF writes_comp [OF writes_comp [OF writes_put_headers writes_method(4)] writes_method(2) [OF st]] writes_method(3)])+
qed

lemma writes_expose [writes_intro]: "writes (exposeCacheStatus h hit)"
  unfolding exposeCacheStatus_def using writes_method(1) by (auto simp: writes_def)

lemma writes_file_headers [writes_intro]: "writes (writeFileHeaders L x)"
  unfolding writeFileHeaders_def by (rule writes_put_headers)

lemma multi_Write_step: "writer_step\<^sup>*\<^sup>* rw (fst (snd (multi_Write data (rw, cap))))"
proof -
  have "writer_step rw (snd (wr_Write data rw))" by (rule write_data)
  then have "writer_step\<^sup>*\<^sup>* rw (snd (wr_Write data rw))" by (rule r_into_rtranclp)
  then show ?thesis by (auto simp: multi_Write_def split: prod.split option.split)
qed

lemma copy_chunks_steps: "writer_step\<^sup>*\<^sup>* (fst d) (fst (snd (copy_chunks cs d)))"
proof (induction cs arbitrary: d)
  case (Cons c cs)
  obtain e d' where m: "multi_Write c d = (e, d')" by (cases "multi_Write c d")
  have "writer_step\<^sup>*\<^sup>* (fst d) (fst d')" using multi_Write_step [of "fst d" c "snd d"] m by simp
  with m Cons [of d'] show ?case by (auto split: option.split intro: rtranclp_trans)
qed simp

lemma writes_file_stream [writes_intro]: "writes (\<lambda>rw. snd (writeFileStream L at x src cap rw))"
proof -
  have copy: "writes (\<lambda>rw. fst (snd (io_CopyBuffer r (rw, cap))))" for r :: reader
    using copy_chunks_steps [of "(rw, cap)" for rw]
    by (auto simp: writes_def io_CopyBuffer_def split: prod.split option.split) (metis fst_conv snd_conv)+
  have ok: "writes (wr_WriteHeader 200)" by (rule writes_method) simp
  have "writes (\<lambda>rw. fst (snd (io_CopyBuffer (closed_reader at src)
      (wr_WriteHeader 200 (beginStreaming (writeFileHeaders L x rw)), cap))))"
    by (rule writes_comp [OF writes_comp [OF writes_comp [OF writes_file_headers writes_method(4)] ok] copy])
  then show ?thesis unfolding writes_def
    by (simp add: writeFileStream_def Let_def case_prod_beta)
qed

lemma writes_document [writes_intro]:
  "writes (writeDocumentMetadata L H x)" "writes (\<lambda>rw. snd (writeDocumentContent L H at ct rw))"
proof -
  show "writes (writeDocumentMetadata L H x)"
    using writes_responses(4) [of 200 H "raw_json x"] writes_comp [OF writes_file_headers writes_method(2) [of 200]]
    by (auto simp: writes_def writeDocumentMetadata_def)
  have "writes (\<lambda>rw. snd (case writeFileStream L at x src None rw of ((err, cap), rw') \<Rightarrow> (err = None, rw')))" for x src
    using writes_file_stream [of L at x src None] by (simp add: writes_def case_prod_beta)
  then show "writes (\<lambda>rw. snd (writeDocumentContent L H at ct rw))"
    using writes_responses(4) [of 200 H "raw_json (ct_Document ct)"] writes_responses(8)
    by (auto simp: writes_def writeDocumentContent_def split: option.split)
qed

subsection \<open>The handlers\<close>

lemma via_cache [via_intro]: "via (observeCacheResult h hit)" "via (observeCacheSize h)"
  unfolding observeCacheResult_def observeCacheSize_def by (intro via_intro | simp split: prod.split)+

lemma via_run_load [via_intro]: "via (run_load h cache c key tags omit load)"
  unfolding run_load_def Let_def by (intro via_intro)

lemma via_cachedResponse [via_intro]: "via (cachedResponse h cache c key tags omit load)"
proof -
  have "via (case flight of
      Abandons \<Rightarrow> State_Monad.return (empty_entry, False)
    | Joins v \<Rightarrow> finish v
    | Leads \<Rightarrow> State_Monad.bind (run_load h cache c key tags omit load) finish
    | LeadsLate \<Rightarrow> State_Monad.bind (run_load h cache c key tags omit load) (\<lambda>value. State_Monad.return (empty_entry, False)))"
    if "\<And>v. via (finish v)" for flight and finish :: "cacheLoad \<Rightarrow> ('a conn, entry \<times> bool) state"
    using that by (cases flight) (auto intro!: via_intro)
  then show ?thesis unfolding cachedResponse_def Let_def by (intro via_intro) (simp_all add: via_intro)
qed

lemma via_list [via_intro]: "via (loadDocumentList H docs u f)" "via (listDocuments L H h r)"
proof -
  show load: "via (loadDocumentList H docs u f)" for docs u f
    unfolding loadDocumentList_def by (intro via_intro writes_intro; simp)
  show "via (listDocuments L H h r)"
    unfolding listDocuments_def by (intro via_intro writes_intro load; simp)
qed

lemma via_read [via_intro]: "via (readDocument L H h at r i)"
proof -
  have load: "via (loadDocumentContent L H at docs u i)" for docs :: "'a doc_api" and u
    unfolding loadDocumentContent_def by (intro via_intro writes_intro; simp)
  have stream: "via (streamFile L h cache at key tags x src)" for cache key tags x src
    unfolding streamFile_def Let_def by (intro via_intro writes_intro; simp)
  have whole: "via (readFileWithCache L H h cache docs at r u i x)" for cache docs u x
    unfolding readFileWithCache_def headFile_def Let_def by (intro via_intro writes_intro stream; simp)
  have "via (readAuthorized L H h docs at r u i)" for docs u
    unfolding readAuthorized_def by (intro via_intro writes_intro load whole; simp)
  then show ?thesis unfolding readDocument_def by (intro via_intro writes_intro; simp)
qed

lemma via_update [via_intro]: "via (uploadDocument L H h r)" "via (deleteDocument H' h r i)"
proof -
  have "via (after_upload h ct)" for ct unfolding after_upload_def by (intro via_intro)
  then show "via (uploadDocument L H h r)"
    unfolding uploadDocument_def by (intro via_intro writes_intro; simp)
  have "via (after_delete h docs i)" for docs
    unfolding after_delete_def Let_def by (intro via_intro)
  then show "via (deleteDocument H' h r i)"
    unfolding deleteDocument_def deleteAuthorized_def by (intro via_intro writes_intro; simp)
qed

lemma via_auth [via_intro]: "via (register L H h r)" "via (authenticate L H h r)" "via (logout H h t)" "via (ready H h)"
  unfolding register_def authenticate_def logout_def ready_def parseURLForm_def writeOK_def
  by (intro via_intro writes_intro; simp)+

lemma via_route: "via (route L H h at r)"
  unfolding route_def Let_def writeOK_def by (intro via_intro writes_intro; simp)

lemma via_run_next: "(\<And>r. via (handle r)) \<Longrightarrow> via (run_next h handle r)"
  unfolding run_next_def Let_def by (intro via_intro writes_intro; simp)

end
