(* ===== verification/World.thy ===== *)
theory World
  imports Domain Observability Uuid
begin

text \<open>
  The environment the service runs in, as one state: the tables of the migrations under
  \<open>internal/repository/postgres/migrations\<close>, the blob directory, and everything the
  environment decides. \<open>w_env\<close> is what the environment does at each step: whether the call
  fails (before or after it took effect), whether the request's context is cancelled, what the
  clocks read and which random bytes are delivered. Every call to the environment consumes
  one step, so a theorem about all worlds is a theorem about all failures and timings.
\<close>

subsection \<open>Tables\<close>

record user_row =
  ru_id :: string
  ru_login :: string
  ru_hash :: bytes
  ru_created :: time

record session_row =
  rs_id :: string
  rs_user :: string
  rs_hash :: bytes
  rs_created :: time
  rs_expires :: time
  rs_revoked :: "time option"

record document_row =
  rd_id :: string
  rd_owner :: string
  rd_name :: string
  rd_mime :: "string option"
  rd_is_file :: bool
  rd_is_public :: bool
  rd_json :: "bytes option"
  rd_key :: "string option"
  rd_size :: "int option"
  rd_created :: time
  rd_version :: int

record task_row =
  rt_id :: int
  rt_key :: string
  rt_attempts :: int
  rt_next :: time
  rt_created :: time

text \<open>UUID columns hold the canonical text of the value; \<open>db_taskseq\<close> is the identity sequence.\<close>

record database =
  db_users :: "user_row list"
  db_sessions :: "session_row list"
  db_documents :: "document_row list"
  db_grants :: "(string \<times> string) list"
  db_tasks :: "task_row list"
  db_taskseq :: int

definition empty_db :: database where
  "empty_db = \<lparr>db_users = [], db_sessions = [], db_documents = [], db_grants = [], db_tasks = [],
     db_taskseq = 1\<rparr>"

text \<open>
  The constraints of the migrations: keys, foreign keys and checks. The identity sequence is
  ahead of every task it has numbered.
\<close>

definition user_ids :: "database \<Rightarrow> string set" where
  "user_ids d = set (map ru_id (db_users d))"

definition wf_users :: "database \<Rightarrow> bool" where
  "wf_users d \<longleftrightarrow> distinct (map ru_id (db_users d)) \<and> distinct (map ru_login (db_users d)) \<and>
     list_all (\<lambda>u. ru_login u \<noteq> [] \<and> uuid_canonical (ru_id u)) (db_users d)"

definition session_row_ok :: "database \<Rightarrow> session_row \<Rightarrow> bool" where
  "session_row_ok d s \<longleftrightarrow> rs_user s \<in> user_ids d \<and> rs_created s < rs_expires s"

definition wf_sessions :: "database \<Rightarrow> bool" where
  "wf_sessions d \<longleftrightarrow> distinct (map rs_id (db_sessions d)) \<and> distinct (map rs_hash (db_sessions d)) \<and>
     list_all (session_row_ok d) (db_sessions d)"

definition file_metadata_ok :: "document_row \<Rightarrow> bool" where
  "file_metadata_ok r \<longleftrightarrow>
     (if rd_is_file r then rd_mime r \<noteq> None \<and> rd_key r \<noteq> None \<and> rd_size r \<noteq> None
      else rd_key r = None \<and> rd_size r = None)"

definition document_checks :: "document_row \<Rightarrow> bool" where
  "document_checks r \<longleftrightarrow> rd_name r \<noteq> [] \<and> (case rd_size r of None \<Rightarrow> True | Some n \<Rightarrow> 0 \<le> n) \<and>
     0 < rd_version r \<and> file_metadata_ok r"

definition wf_documents :: "database \<Rightarrow> bool" where
  "wf_documents d \<longleftrightarrow> distinct (map rd_id (db_documents d)) \<and>
     list_all (\<lambda>r. uuid_canonical (rd_id r) \<and> rd_owner r \<in> user_ids d \<and> document_checks r)
       (db_documents d) \<and>
     distinct (db_grants d) \<and>
     list_all (\<lambda>g. fst g \<in> set (map rd_id (db_documents d)) \<and> snd g \<in> user_ids d) (db_grants d)"

definition wf_tasks :: "database \<Rightarrow> bool" where
  "wf_tasks d \<longleftrightarrow> distinct (map rt_id (db_tasks d)) \<and> distinct (map rt_key (db_tasks d)) \<and>
     list_all (\<lambda>t. rt_key t \<noteq> [] \<and> 0 \<le> rt_attempts t \<and> 0 < rt_id t \<and> rt_id t < db_taskseq d) (db_tasks d) \<and>
     0 < db_taskseq d"

definition wf_db :: "database \<Rightarrow> bool" where
  "wf_db d \<longleftrightarrow> wf_users d \<and> wf_sessions d \<and> wf_documents d \<and> wf_tasks d"

lemma user_ids_update [simp]:
  "user_ids (d\<lparr>db_sessions := ss\<rparr>) = user_ids d" "user_ids (d\<lparr>db_documents := ds\<rparr>) = user_ids d"
  "user_ids (d\<lparr>db_grants := gs\<rparr>) = user_ids d" "user_ids (d\<lparr>db_tasks := ts\<rparr>) = user_ids d"
  "user_ids (d\<lparr>db_taskseq := q\<rparr>) = user_ids d"
  by (simp_all add: user_ids_def)

lemma session_row_ok_update [simp]:
  "session_row_ok (d\<lparr>db_sessions := ss\<rparr>) = session_row_ok d"
  "session_row_ok (d\<lparr>db_documents := ds\<rparr>) = session_row_ok d"
  "session_row_ok (d\<lparr>db_grants := gs\<rparr>) = session_row_ok d"
  "session_row_ok (d\<lparr>db_tasks := ts\<rparr>) = session_row_ok d"
  "session_row_ok (d\<lparr>db_taskseq := q\<rparr>) = session_row_ok d"
  by (simp_all add: session_row_ok_def fun_eq_iff)

text \<open>Each part of the schema concerns its own tables.\<close>

lemma wf_update [simp]:
  "wf_users (d\<lparr>db_sessions := ss\<rparr>) = wf_users d" "wf_users (d\<lparr>db_documents := ds\<rparr>) = wf_users d"
  "wf_users (d\<lparr>db_grants := gs\<rparr>) = wf_users d" "wf_users (d\<lparr>db_tasks := ts\<rparr>) = wf_users d"
  "wf_users (d\<lparr>db_taskseq := q\<rparr>) = wf_users d"
  "wf_sessions (d\<lparr>db_documents := ds\<rparr>) = wf_sessions d" "wf_sessions (d\<lparr>db_grants := gs\<rparr>) = wf_sessions d"
  "wf_sessions (d\<lparr>db_tasks := ts\<rparr>) = wf_sessions d" "wf_sessions (d\<lparr>db_taskseq := q\<rparr>) = wf_sessions d"
  "wf_documents (d\<lparr>db_sessions := ss\<rparr>) = wf_documents d" "wf_documents (d\<lparr>db_tasks := ts\<rparr>) = wf_documents d"
  "wf_documents (d\<lparr>db_taskseq := q\<rparr>) = wf_documents d"
  "wf_tasks (d\<lparr>db_users := us\<rparr>) = wf_tasks d" "wf_tasks (d\<lparr>db_sessions := ss\<rparr>) = wf_tasks d"
  "wf_tasks (d\<lparr>db_documents := ds\<rparr>) = wf_tasks d" "wf_tasks (d\<lparr>db_grants := gs\<rparr>) = wf_tasks d"
  by (simp_all add: wf_users_def wf_sessions_def wf_documents_def wf_tasks_def)

lemma wf_db_empty: "wf_db empty_db"
  by (simp add: wf_db_def wf_users_def wf_sessions_def wf_documents_def wf_tasks_def empty_db_def)

text \<open>
  PostgreSQL's own functions, which are parameters: reading a UUID, which strings it accepts as
  text, what \<open>jsonb\<close> makes of a JSON text, and the collation of the database.
\<close>

record pg_params =
  pg_uuid_in :: "string \<Rightarrow> string option"
  pg_text_ok :: "string \<Rightarrow> bool"
  pg_jsonb :: "bytes \<Rightarrow> bytes option"
  pg_collate :: "string \<Rightarrow> string \<Rightarrow> bool"

text \<open>
  What PostgreSQL documents of them: a UUID is shown in canonical form and reads itself back, a
  collation is a total preorder.
\<close>

definition pg_ok :: "pg_params \<Rightarrow> bool" where
  "pg_ok p \<longleftrightarrow>
     (\<forall>s u. pg_uuid_in p s = Some u \<longrightarrow> uuid_canonical u) \<and>
     (\<forall>u. uuid_canonical u \<longrightarrow> pg_uuid_in p u = Some u) \<and>
     (\<forall>a b. pg_collate p a b \<or> pg_collate p b a) \<and>
     (\<forall>a b c. pg_collate p a b \<longrightarrow> pg_collate p b c \<longrightarrow> pg_collate p a c)"

subsection \<open>The environment\<close>

text \<open>
  What can go wrong by itself: cancellation of the context, an error the server reports (other
  than the two constraint violations that the statements below report themselves), or any
  other failure of the connection, the disk or the operating system.
\<close>

datatype ctx_error = Canceled | DeadlineExceeded

datatype io_error = IoCtx ctx_error | IoPg string | IoOther string

fun ctx_goerr :: "ctx_error \<Rightarrow> goerr" where
  "ctx_goerr Canceled = Sentinel ContextCanceled"
| "ctx_goerr DeadlineExceeded = Sentinel ContextDeadlineExceeded"

fun io_goerr :: "io_error \<Rightarrow> goerr" where
  "io_goerr (IoCtx e) = ctx_goerr e"
| "io_goerr (IoPg code) =
     PgError (if code = ''23505'' \<or> code = ''23503'' then ''XX000'' else code)"
| "io_goerr (IoOther m) = Opaque m"

datatype fault = Fine | Fails io_error | FailsAfter io_error

record env_step =
  es_fault :: fault
  es_cancel :: "ctx_error option"
  es_clock :: time
  es_dbnow :: time
  es_random :: "nat \<Rightarrow> char"

text \<open>\<open>w_tx\<close> is the open transaction: its working copy and its start time.\<close>

record world =
  w_pg :: pg_params
  w_env :: "nat \<Rightarrow> env_step"
  w_tick :: nat
  w_db :: database
  w_tx :: "(database \<times> time) option"
  w_dir :: "(string \<times> bytes) list"

definition env_next :: "world \<Rightarrow> env_step \<times> world" where
  "env_next w = (w_env w (w_tick w), w\<lparr>w_tick := Suc (w_tick w)\<rparr>)"

text \<open>A call that may fail before or after its effect \<open>f\<close>.\<close>

definition env_call :: "(env_step \<Rightarrow> (world, 'a) op) \<Rightarrow> (world, 'a) op" where
  "env_call f w =
     (let (s, w1) = env_next w
      in case es_fault s of
           Fine \<Rightarrow> f s w1
         | Fails e \<Rightarrow> (Inl (io_goerr e), w1)
         | FailsAfter e \<Rightarrow> (Inl (io_goerr e), snd (f s w1)))"

text \<open>
  A system call on a local filesystem: when it fails it has done nothing.
\<close>

definition sys_call :: "(world, 'a) op \<Rightarrow> (world, 'a) op" where
  "sys_call f w =
     (let (s, w1) = env_next w
      in case es_fault s of
           Fine \<Rightarrow> f w1
         | Fails e \<Rightarrow> (Inl (io_goerr e), w1)
         | FailsAfter e \<Rightarrow> (Inl (io_goerr e), w1))"

text \<open>\<open>time.Now()\<close>, \<open>ctx.Err()\<close>, and \<open>io.ReadFull(rand, make([]byte, n))\<close>.\<close>

definition time_Now :: "world \<Rightarrow> time \<times> world" where
  "time_Now w = (let (s, w1) = env_next w in (es_clock s, w1))"

definition ctx_Err :: "ctx \<Rightarrow> world \<Rightarrow> goerr option \<times> world" where
  "ctx_Err c w =
     (if c_cancellable c then (let (s, w1) = env_next w in (map_option ctx_goerr (es_cancel s), w1)) else (None, w))"

definition rand_Read :: "nat \<Rightarrow> (world, bytes) op" where
  "rand_Read n = env_call (\<lambda>s. ret (map (es_random s) [0..<n]))"

lemma rand_Read_length: "rand_Read n w = (Inr bs, w') \<Longrightarrow> length bs = n"
  by (auto simp: rand_Read_def env_call_def env_next_def split: fault.splits)

subsection \<open>What a call to the environment leaves alone\<close>

lemma keeps_env_call [keeps_intro]:
  assumes "\<And>s. keeps P (f s)" "\<And>w. P w \<Longrightarrow> P (w\<lparr>w_tick := Suc (w_tick w)\<rparr>)"
  shows "keeps P (env_call f)"
proof (rule keepsI)
  fix w r w'
  assume P: "P w" and run: "env_call f w = (r, w')"
  let ?s = "w_env w (w_tick w)" and ?w1 = "w\<lparr>w_tick := Suc (w_tick w)\<rparr>"
  have "P ?w1" using assms(2) P .
  then have "P (snd (f ?s ?w1))" using assms(1) [of ?s] by (simp add: keeps_def)
  with run \<open>P ?w1\<close> show "P w'"
    by (auto simp: env_call_def env_next_def split: fault.splits)
qed

lemma keeps_sys_call [keeps_intro]:
  assumes "keeps P f" "\<And>w. P w \<Longrightarrow> P (w\<lparr>w_tick := Suc (w_tick w)\<rparr>)"
  shows "keeps P (sys_call f)"
proof (rule keepsI)
  fix w r w'
  assume P: "P w" and run: "sys_call f w = (r, w')"
  let ?w1 = "w\<lparr>w_tick := Suc (w_tick w)\<rparr>"
  have "P ?w1" using assms(2) P .
  then have "P (snd (f ?w1))" using assms(1) by (simp add: keeps_def)
  with run \<open>P ?w1\<close> show "P w'"
    by (auto simp: sys_call_def env_next_def split: fault.splits)
qed

lemma keeps_rand_Read [keeps_intro]:
  "(\<And>w. P w \<Longrightarrow> P (w\<lparr>w_tick := Suc (w_tick w)\<rparr>)) \<Longrightarrow> keeps P (rand_Read n)"
  unfolding rand_Read_def by (intro keeps_intro) auto

lemma ctx_Err_keeps:
  "(\<And>w. P w \<Longrightarrow> P (w\<lparr>w_tick := Suc (w_tick w)\<rparr>)) \<Longrightarrow> ctx_Err c w = (e, w') \<Longrightarrow> P w \<Longrightarrow> P w'"
  by (auto simp: ctx_Err_def env_next_def split: if_splits)

lemma time_Now_keeps:
  "(\<And>w. P w \<Longrightarrow> P (w\<lparr>w_tick := Suc (w_tick w)\<rparr>)) \<Longrightarrow> time_Now w = (t, w') \<Longrightarrow> P w \<Longrightarrow> P w'"
  by (auto simp: time_Now_def env_next_def)

subsection \<open>An environment in which nothing fails\<close>

definition calm :: "world \<Rightarrow> bool" where
  "calm w \<longleftrightarrow> (\<forall>n. es_fault (w_env w n) = Fine \<and> es_cancel (w_env w n) = None)"

lemma calm_update [simp]:
  "calm (w\<lparr>w_tick := t\<rparr>) = calm w" "calm (w\<lparr>w_db := d\<rparr>) = calm w"
  "calm (w\<lparr>w_tx := x\<rparr>) = calm w" "calm (w\<lparr>w_dir := f\<rparr>) = calm w"
  by (simp_all add: calm_def)

lemma calm_sys_call: "calm w \<Longrightarrow> sys_call f w = f (w\<lparr>w_tick := Suc (w_tick w)\<rparr>)"
  by (simp add: calm_def sys_call_def env_next_def)

lemma calm_env_call: "calm w \<Longrightarrow> env_call f w = f (w_env w (w_tick w)) (w\<lparr>w_tick := Suc (w_tick w)\<rparr>)"
  by (simp add: calm_def env_call_def env_next_def)

lemma calm_ctx_Err: "calm w \<Longrightarrow> \<exists>t. ctx_Err c w = (None, w\<lparr>w_tick := t\<rparr>)"
  unfolding calm_def ctx_Err_def env_next_def
  by (cases "c_cancellable c") (auto intro: exI [of _ "w_tick w"])

definition calm_env :: "time \<Rightarrow> nat \<Rightarrow> env_step" where
  "calm_env t n = \<lparr>es_fault = Fine, es_cancel = None, es_clock = t, es_dbnow = t,
     es_random = (\<lambda>i. char_of (n + i))\<rparr>"

subsection \<open>A concrete environment\<close>

text \<open>
  Simple functions that behave as documented stand for PostgreSQL and the library; witnesses of
  the theorems evaluate the model on them.
\<close>

definition demo_pg :: pg_params where
  "demo_pg = \<lparr>pg_uuid_in = (\<lambda>s. map_option uuid_String (uuid_Parse s)), pg_text_ok = (\<lambda>_. True), pg_jsonb = (\<lambda>j. Some j),
     pg_collate = (\<lambda>a b. a \<le> b)\<rparr>"

lemma pg_ok_demo: "pg_ok demo_pg"
  by (auto simp: pg_ok_def demo_pg_def uuid_canonical_def uuid_Parse_wf uuid_roundtrip
      split: option.splits)

definition demo_lib :: golib where
  "demo_lib = \<lparr>unicode_IsLetter = (\<lambda>r. lower_rune r \<or> upper_rune r), unicode_IsDigit = digit_rune,
     sha256 = (\<lambda>s. CHR ''#'' # s),
     bcrypt_generate = (\<lambda>p salt k. Inr (CHR ''h'' # p)),
     bcrypt_compare = (\<lambda>h p. if h = CHR ''h'' # p then None else Some (Sentinel BcryptErrMismatch)),
     json_Valid = (\<lambda>j. j \<noteq> []), mime_ParseMediaType = (\<lambda>m. Inr (m, [])),
     mime_FormatMediaType = (\<lambda>m ps. m), time_Parse_datetime = (\<lambda>s. Inl (Opaque ''time'')),
     time_Parse_rfc3339 = (\<lambda>s. Inl (Opaque ''time''))\<rparr>"

definition uid1 :: string where "uid1 = ''00000000-0000-4000-8000-000000000001''"
definition uid2 :: string where "uid2 = ''00000000-0000-4000-8000-000000000002''"
definition did1 :: string where "did1 = ''00000000-0000-4000-8000-0000000000d1''"
definition did2 :: string where "did2 = ''00000000-0000-4000-8000-0000000000d2''"
definition sid1 :: string where "sid1 = ''00000000-0000-4000-8000-0000000000a1''"

text \<open>Two users; the first has a session and owns a private file and a public JSON document.\<close>

definition demo_db :: database where
  "demo_db = \<lparr>db_users =
      [\<lparr>ru_id = uid1, ru_login = ''alice001'', ru_hash = ''hPassw0rd!'', ru_created = 1700000000000000000\<rparr>,
       \<lparr>ru_id = uid2, ru_login = ''bob00002'', ru_hash = ''hPassw0rd?'', ru_created = 1700000000000000000\<rparr>],
     db_sessions =
      [\<lparr>rs_id = sid1, rs_user = uid1, rs_hash = ''#tok'', rs_created = 1700000000000000000,
        rs_expires = 1900000000000000000, rs_revoked = None\<rparr>],
     db_documents =
      [\<lparr>rd_id = did1, rd_owner = uid1, rd_name = ''a.txt'', rd_mime = Some ''text/plain'',
        rd_is_file = True, rd_is_public = False, rd_json = None, rd_key = Some ''key1'',
        rd_size = Some 3, rd_created = 1700000000000000000, rd_version = 1\<rparr>,
       \<lparr>rd_id = did2, rd_owner = uid1, rd_name = ''b'', rd_mime = None,
        rd_is_file = False, rd_is_public = True, rd_json = Some ''{}'', rd_key = None,
        rd_size = None, rd_created = 1700000000000000000, rd_version = 1\<rparr>],
     db_grants = [(did1, uid2)], db_tasks = [], db_taskseq = 1\<rparr>"

lemma canonical_demo [simp]:
  "uuid_canonical uid1" "uuid_canonical uid2" "uuid_canonical did1" "uuid_canonical did2"
  "uuid_canonical sid1"
  by code_simp+

lemma demo_ids_differ [simp]:
  "uid1 \<noteq> uid2" "uid2 \<noteq> uid1" "did1 \<noteq> did2" "did2 \<noteq> did1"
  by (simp_all add: uid1_def uid2_def did1_def did2_def)

lemma wf_demo_db: "wf_db demo_db"
  by (simp add: wf_db_def wf_users_def wf_sessions_def wf_documents_def wf_tasks_def demo_db_def
      user_ids_def session_row_ok_def document_checks_def file_metadata_ok_def)

definition busy_world :: world where
  "busy_world = \<lparr>w_pg = demo_pg, w_env = calm_env 1800000000000000000, w_tick = 0, w_db = demo_db,
     w_tx = None, w_dir = [(''key1'', ''xyz'')]\<rparr>"

lemma calm_busy_world [simp]: "calm busy_world"
  by (simp add: calm_def busy_world_def calm_env_def)

end
