(* ===== verification/HttpServe.thy ===== *)
theory HttpServe
  imports HttpVia World
begin

text \<open>
  What one request leaves on the wire and in the log, whatever the handler does and whenever the
  deadline passes.
\<close>

subsection \<open>The recorded status\<close>

text \<open>Once the response is on the wire, its status is the one that was recorded.\<close>

definition recorded :: "observedResponse \<Rightarrow> bool" where
  "recorded w \<longleftrightarrow>
     (ob_state w \<in> {ResponseStreaming, ResponseCompleted, ResponseStreamingTimedOut} \<longrightarrow>
        ob_wroteHeader w \<and> map_option fst (ds_sent (ob_dst w)) = Some (ob_status w)) \<and>
     (ob_state w \<noteq> ResponseTimedOut \<and> ob_wroteHeader w \<longrightarrow> ob_status w \<noteq> 0)"

lemma recorded_update [simp]:
  "recorded (w\<lparr>ob_tick := n\<rparr>) = recorded w" "recorded (w\<lparr>ob_body := x\<rparr>) = recorded w" "recorded (w\<lparr>ob_header := h\<rparr>) = recorded w"
  "recorded (w\<lparr>ob_timeoutAt := t\<rparr>) = recorded w" "recorded (w\<lparr>ob_timedOut := b\<rparr>) = recorded w"
  by (simp_all add: recorded_def)

lemma recorded_timed_out: "ob_state w = ResponseTimedOut \<Longrightarrow> recorded w"
  by (simp add: recorded_def)

lemma recorded_timeout:
  assumes "recorded w" "resp_timeout rid w = (s, w')"
  shows "recorded w'"
proof (cases "ob_state w = ResponsePending")
  case True
  with assms(2) have "ob_state w' = ResponseTimedOut" by (auto simp: resp_timeout_def Let_def split: if_splits)
  then show ?thesis by (rule recorded_timed_out)
next
  case False
  with assms show ?thesis by (auto simp: resp_timeout_def recorded_def split: if_splits)
qed

lemma recorded_interleave: "recorded w \<Longrightarrow> recorded (interleave w)"
  using recorded_timeout [of "w\<lparr>ob_tick := Suc (ob_tick w)\<rparr>"]
  by (auto simp: interleave_def Let_def split: option.split prod.split)

lemma recorded_mark:
  assumes "ob_state w = ResponsePending \<or> ob_state w = ResponseTimedOut" "st \<noteq> 0"
  shows "recorded (w\<lparr>ob_status := st, ob_wroteHeader := True\<rparr>)"
  using assms by (auto simp: recorded_def)

lemma unwritten_state:
  assumes "live w" "recorded w" "\<not> ob_wroteHeader w"
  shows "ob_state w = ResponsePending \<or> ob_state w = ResponseTimedOut"
  using assms by (cases "ob_state w") (auto simp: recorded_def live_def)

lemma interleave_wrote: "ob_wroteHeader (interleave w) = ob_wroteHeader w"
proof -
  have "ob_wroteHeader w' = ob_wroteHeader v" if "resp_timeout rid v = (s, w')" for rid v s w'
    using that by (auto simp: resp_timeout_def Let_def split: if_splits)
  then show ?thesis by (auto simp: interleave_def Let_def split: option.split prod.split)
qed

lemma recorded_WriteHeader:
  assumes "live w" "recorded w" "st \<noteq> 0"
  shows "recorded (ob_WriteHeader st w)"
proof -
  let ?w1 = "interleave w" and ?w2 = "interleave (interleave w)"
  have r: "recorded ?w1" "recorded ?w2" "live ?w1" "live ?w2" using assms recorded_interleave live_interleave by blast+
  show ?thesis
  proof (cases "deadlineExceeded ?w1 \<or> ob_wroteHeader ?w1")
    case True
    with r show ?thesis by (auto simp: ob_WriteHeader_def Let_def)
  next
    case False
    then have "ob_state ?w2 = ResponsePending \<or> ob_state ?w2 = ResponseTimedOut"
      using unwritten_state [OF r(4,2)] interleave_wrote [of ?w1] by simp
    with False recorded_mark [OF this assms(3)] show ?thesis by (auto simp: ob_WriteHeader_def Let_def)
  qed
qed

lemma recorded_send_body: "live w \<Longrightarrow> recorded w \<Longrightarrow> ob_state w = ResponseStreaming \<Longrightarrow> recorded (snd (send_body data w))"
  using send_body_dst(1) [of w data] by (auto simp: recorded_def live_def obs_inv_def dst_once_def)

lemma recorded_Write:
  assumes "live w" "recorded w"
  shows "recorded (snd (ob_Write data w))"
proof -
  let ?w1 = "interleave w"
  define w2 where "w2 = (if \<not> ob_wroteHeader ?w1 then ob_WriteHeader 200 ?w1 else ?w1)"
  have w1: "live ?w1" "recorded ?w1" using assms live_interleave recorded_interleave by blast+
  have w2: "live w2" "recorded w2" using w1 live_WriteHeader recorded_WriteHeader by (simp_all add: w2_def)
  have w3: "live (interleave w2)" "recorded (interleave w2)" using w2 live_interleave recorded_interleave by blast+
  show ?thesis
    using w1 w2 w3 recorded_send_body [OF w3] by (simp add: ob_Write_def Let_def w2_def [symmetric])
qed

lemma recorded_startStreaming:
  assumes "live w" "recorded w"
  shows "recorded (ob_startStreaming w)"
proof -
  let ?w1 = "interleave w"
  have w1: "live ?w1" "recorded ?w1" using assms live_interleave recorded_interleave by blast+
  show ?thesis
  proof (cases "deadlineExceeded ?w1 \<or> ob_state ?w1 \<noteq> ResponsePending")
    case True
    with w1 show ?thesis by (auto simp: ob_startStreaming_def Let_def)
  next
    case False
    define w2 where "w2 = (let w = ?w1\<lparr>ob_state := ResponseStreaming\<rparr>
      in if \<not> ob_wroteHeader w then w\<lparr>ob_status := 200, ob_wroteHeader := True\<rparr> else w)"
    define w3 where "w3 = send_header (ob_header w2) (ob_status w2) w2"
    have u: "ds_sent (ob_dst w2) = None" "ob_state w2 = ResponseStreaming" "ob_wroteHeader w2" "ob_status w2 \<noteq> 0"
      using w1 False by (auto simp: w2_def Let_def live_def obs_inv_def dst_untouched_def recorded_def)
    have w3: "recorded w3" "ds_sent (ob_dst w3) \<noteq> None" "ob_state w3 = ResponseStreaming"
      using send_header_dst [OF u(1), of "ob_header w2" "ob_status w2"] u by (simp_all add: w3_def recorded_def)
    have body: "recorded (snd (send_body x w3))" for x
      using send_body_dst(1) [OF w3(2), of x] w3 by (simp add: recorded_def)
    have "ob_startStreaming w = (if \<not> ob_head w3 \<and> ob_body w3 \<noteq> [] then snd (send_body (ob_body w3) w3) else w3)\<lparr>ob_body := []\<rparr>"
      using False by (simp add: ob_startStreaming_def Let_def w3_def w2_def)
    with w3 body show ?thesis by simp
  qed
qed

lemma recorded_putHeader: "recorded w \<Longrightarrow> recorded (ob_putHeader n vs w)"
  using recorded_interleave [of w] by (auto simp: ob_putHeader_def Let_def recorded_def)

text \<open>What \<open>serveHTTP\<close> knows of the timeout is the state of the response.\<close>

definition ended :: "observedResponse \<Rightarrow> bool" where
  "ended w \<longleftrightarrow> ob_timedOut w =
     (if ob_state w = ResponseTimedOut then Some False
      else if ob_state w = ResponseStreamingTimedOut then Some True else None)"

lemma ended_update [simp]:
  "ended (w\<lparr>ob_tick := n\<rparr>) = ended w" "ended (w\<lparr>ob_body := x\<rparr>) = ended w" "ended (w\<lparr>ob_header := h\<rparr>) = ended w"
  "ended (w\<lparr>ob_timeoutAt := t\<rparr>) = ended w" "ended (w\<lparr>ob_status := st\<rparr>) = ended w" "ended (w\<lparr>ob_dst := d\<rparr>) = ended w"
  "ended (w\<lparr>ob_wroteHeader := b\<rparr>) = ended w" "ended (snd (send_body data w)) = ended w" "ended (send_header h' st' w) = ended w"
  by (simp_all add: ended_def)

lemma timeout_state:
  assumes "ob_state w \<noteq> ResponseCompleted" "resp_timeout rid w = (s, w')"
  shows "ob_state w' = (if s then ResponseStreamingTimedOut else ResponseTimedOut)"
  using assms by (cases "ob_state w") (auto simp: resp_timeout_def Let_def split: if_splits)

lemma ended_interleave:
  assumes "live w" "ended w"
  shows "ended (interleave w)"
proof -
  obtain s w' where run: "resp_timeout (ob_requestID w) (w\<lparr>ob_tick := Suc (ob_tick w)\<rparr>) = (s, w')"
    by (cases "resp_timeout (ob_requestID w) (w\<lparr>ob_tick := Suc (ob_tick w)\<rparr>)")
  have "ob_state (w\<lparr>ob_tick := Suc (ob_tick w)\<rparr>) \<noteq> ResponseCompleted" using assms by (simp add: live_def)
  from timeout_state [OF this run] have "ended (w'\<lparr>ob_timeoutAt := None, ob_timedOut := Some s\<rparr>)"
    by (simp add: ended_def)
  with assms(2) show ?thesis by (simp add: interleave_def Let_def run split: option.split)
qed

lemma ended_WriteHeader: "live w \<Longrightarrow> ended w \<Longrightarrow> ended (ob_WriteHeader st w)"
  by (simp add: ob_WriteHeader_def Let_def ended_interleave live_interleave live_mark)

lemma ended_Write:
  assumes "live w" "ended w"
  shows "ended (snd (ob_Write data w))"
proof -
  define w2 where "w2 = (if \<not> ob_wroteHeader (interleave w) then ob_WriteHeader 200 (interleave w) else interleave w)"
  have w1: "live (interleave w)" "ended (interleave w)" using assms live_interleave ended_interleave by blast+
  have "live w2" "ended w2" using w1 live_WriteHeader ended_WriteHeader by (simp_all add: w2_def)
  then show ?thesis using w1 ended_interleave by (simp add: ob_Write_def Let_def w2_def [symmetric])
qed

lemma ended_startStreaming: "live w \<Longrightarrow> ended w \<Longrightarrow> ended (ob_startStreaming w)"
  using ended_interleave [of w] by (auto simp: ob_startStreaming_def Let_def ended_def)

lemma ended_putHeader: "live w \<Longrightarrow> ended w \<Longrightarrow> ended (ob_putHeader n vs w)"
  by (simp add: ob_putHeader_def Let_def ended_interleave)

text \<open>After \<open>serveHTTP\<close> has stopped waiting, no timeout happens any more.\<close>

definition still :: "observedResponse \<Rightarrow> bool" where
  "still w \<longleftrightarrow> ob_timeoutAt w = None"

lemma still_interleave: "still w \<Longrightarrow> interleave w = w\<lparr>ob_tick := Suc (ob_tick w)\<rparr>"
  by (simp add: still_def interleave_def Let_def)

lemma still_methods:
  assumes "still w"
  shows "still (ob_putHeader n vs w)" "still (ob_WriteHeader st w)" "still (snd (ob_Write data w))"
    "ob_timedOut (ob_putHeader n vs w) = ob_timedOut w" "ob_timedOut (ob_WriteHeader st w) = ob_timedOut w"
    "ob_timedOut (snd (ob_Write data w)) = ob_timedOut w"
proof -
  have tick: "still (w\<lparr>ob_tick := t\<rparr>)" for t using assms by (simp add: still_def)
  note simps = still_interleave [OF assms] still_interleave [OF tick] Let_def
  show "still (ob_putHeader n vs w)" "ob_timedOut (ob_putHeader n vs w) = ob_timedOut w"
    using assms by (simp_all add: ob_putHeader_def simps still_def)
  have header: "still (ob_WriteHeader st v) \<and> ob_timedOut (ob_WriteHeader st v) = ob_timedOut v" if "still v" for v st
  proof -
    have tick: "still (v\<lparr>ob_tick := t\<rparr>)" "still (v\<lparr>ob_tick := t, ob_status := st, ob_wroteHeader := True\<rparr>)" for t
      using that by (simp_all add: still_def)
    show ?thesis using that
      by (simp add: ob_WriteHeader_def still_interleave [OF that] still_interleave [OF tick(1)] still_interleave [OF tick(2)] Let_def)
        (simp add: still_def)
  qed
  then show "still (ob_WriteHeader st w)" "ob_timedOut (ob_WriteHeader st w) = ob_timedOut w" using assms by blast+
  define w2 where "w2 = (if \<not> ob_wroteHeader (interleave w) then ob_WriteHeader 200 (interleave w) else interleave w)"
  have w1: "still (interleave w)" "ob_timedOut (interleave w) = ob_timedOut w" using assms tick by (simp_all add: still_interleave)
  then have w2: "still w2" "ob_timedOut w2 = ob_timedOut w" using header by (simp_all add: w2_def)
  then show "still (snd (ob_Write data w))" "ob_timedOut (snd (ob_Write data w)) = ob_timedOut w"
    using w1 still_interleave [OF w2(1)] by (simp_all add: ob_Write_def Let_def w2_def [symmetric] still_def)
qed

definition good :: "observedResponse \<Rightarrow> bool" where
  "good w \<longleftrightarrow> live w \<and> recorded w \<and> ended w"

lemma writer_steps_good:
  assumes "writer_step\<^sup>*\<^sup>* x y" "x = Observed w" "good w"
  shows "\<exists>w'. y = Observed w' \<and> good w' \<and> ob_setup w' = ob_setup w"
  using assms
proof (induction rule: rtranclp_induct)
  case (step y z)
  then obtain w1 where w1: "y = Observed w1" "good w1" "ob_setup w1 = ob_setup w" by blast
  with step.hyps(2) obtain w2 where w2: "z = Observed w2" "live w2" "ob_setup w2 = ob_setup w1"
    using writer_step_live [of w1 z] by (auto simp: good_def)
  have "recorded w2 \<and> ended w2"
    using step.hyps(2) w1 w2(1)
    by (cases rule: writer_step.cases)
      (auto simp: good_def case_prod_beta recorded_putHeader recorded_WriteHeader recorded_startStreaming
        ended_putHeader ended_WriteHeader ended_startStreaming intro: recorded_Write ended_Write)
  with w1 w2 show ?case by (auto simp: good_def)
qed simp

lemma good_pending:
  assumes "good w" "ob_timedOut w = None"
  shows "ob_state w = ResponsePending \<or> ob_state w = ResponseStreaming"
  using assms by (cases "ob_state w") (auto simp: good_def ended_def live_def)

lemma good_begin:
  assumes "ds_sent d = None" "ds_body d = []" "ds_calls d = 0"
  shows "good (begin_response x limited r d) \<and>
    ob_setup (begin_response x limited r d) = (rq_Method r = ''HEAD'', ex_requestID x,
      if limited then map_option fst (ex_deadline x) else None)"
  using assms
  by (auto simp: good_def live_def obs_inv_def dst_untouched_def recorded_def ended_def begin_response_def
      newObservedResponse_def Let_def ob_setup_def split: option.split)

subsection \<open>Settling\<close>

text \<open>What is sent for an ending: the timeout response, or the recorded status.\<close>

definition sent_for :: "bool \<times> bool \<times> bool \<Rightarrow> observedResponse \<Rightarrow> bool" where
  "sent_for ending w \<longleftrightarrow>
     ds_calls (ob_dst w) = 1 \<and> writtenBytes w = int (length (ds_body (ob_dst w))) \<and>
     (ob_head w \<longrightarrow> ds_body (ob_dst w) = []) \<and>
     (case ending of (timedOut, streaming, panicked) \<Rightarrow>
        if timedOut \<and> \<not> streaming then
          ds_sent (ob_dst w) = Some (503, timeout_header (ob_requestID w)) \<and>
          ds_body (ob_dst w) = (if ob_head w then [] else sent_room (ob_dst w) timeout_body)
        else map_option fst (ds_sent (ob_dst w)) = Some (statusCode w))"

lemma finish_sent:
  assumes g: "good w" and pend: "ob_state w = ResponsePending \<or> ob_state w = ResponseStreaming"
  shows "sent_for (False, s, p) (ob_finish w) \<and> ob_setup (ob_finish w) = ob_setup w"
proof (cases "ob_state w = ResponsePending")
  case False
  with assms show ?thesis
    by (auto simp: ob_finish_def sent_for_def good_def recorded_def live_def obs_inv_def dst_once_def statusCode_def writtenBytes_def)
next
  case True
  define w1 where "w1 = (let w = w\<lparr>ob_state := ResponseCompleted\<rparr>
    in if \<not> ob_wroteHeader w then w\<lparr>ob_status := 200, ob_wroteHeader := True\<rparr> else w)"
  define w2 where "w2 = (if hdr_get ''Content-Length'' (ob_header w1) = [] \<and> responseMayHaveBody (ob_status w1)
    then w1\<lparr>ob_header := hdr_set ''Content-Length'' (strconv_Itoa (int (length (ob_body w1)))) (ob_header w1)\<rparr> else w1)"
  define w3 where "w3 = send_header (ob_header w2) (ob_status w1) w2"
  define w4 where "w4 = (if \<not> ob_head w3 \<and> responseMayHaveBody (ob_status w1) then snd (send_body (ob_body w3) w3) else w3)"
  have fin: "ob_finish w = w4\<lparr>ob_body := []\<rparr>"
    unfolding ob_finish_def Let_def w4_def w3_def w2_def w1_def by (simp only: True simp_thms if_False)
  have v: "ds_sent (ob_dst w) = None" "ds_body (ob_dst w) = []" "ds_calls (ob_dst w) = 0" "ob_bytesWritten w = 0"
    "ob_wroteHeader w \<Longrightarrow> ob_status w \<noteq> 0"
    using g True by (simp_all add: good_def live_def obs_inv_def dst_untouched_def recorded_def)
  have u: "ds_sent (ob_dst w2) = None" "ds_body (ob_dst w2) = []" "ds_calls (ob_dst w2) = 0" "ob_bytesWritten w2 = 0"
    "ob_status w2 = ob_status w1" "ob_status w1 \<noteq> 0" "ob_setup w2 = ob_setup w"
    using v by (cases "ob_wroteHeader w"; simp add: w2_def w1_def)+
  note d = send_header_dst [OF u(1), of "ob_header w2" "ob_status w1"]
  have w3: "ds_sent (ob_dst w3) = Some (ob_status w1, cloneHeader (ob_header w2))" "ds_calls (ob_dst w3) = 1"
    "ds_body (ob_dst w3) = []" "ob_bytesWritten w3 = 0" "ob_status w3 = ob_status w1" "ob_setup w3 = ob_setup w"
    using d u by (simp_all add: w3_def)
  have some: "ds_sent (ob_dst w3) \<noteq> None" using w3 by simp
  note b = send_body_dst [OF some, of "ob_body w3"]
  have "ob_head w4 = ob_head w3" by (simp add: w4_def)
  then show ?thesis unfolding fin sent_for_def
    using w3 b u by (simp add: w4_def statusCode_def writtenBytes_def)
qed

lemma timeout_sent:
  assumes g: "good w" and dl: "deadlineExceeded w" and run: "resp_timeout (ob_requestID w) w = (s, w')"
    and st: "ob_timedOut w = None"
  shows "sent_for (True, s, p) w' \<and> ob_setup w' = ob_setup w"
proof -
  have inv: "obs_inv (w'\<lparr>ob_timeoutAt := None, ob_timedOut := Some s\<rparr>)"
    using resp_timeout_inv [OF _ dl _ run] g by (simp add: good_def live_def)
  have rec: "recorded w'" using g recorded_timeout [OF _ run] by (simp add: good_def)
  have state: "ob_state w' = (if s then ResponseStreamingTimedOut else ResponseTimedOut)"
    using timeout_state [OF _ run] g by (simp add: good_def live_def)
  show ?thesis using inv rec state setup_timeout [OF run]
    by (auto simp: sent_for_def obs_inv_def recorded_def dst_once_def dst_timed_out_def statusCode_def writtenBytes_def sent_room_def)
qed


lemma internalError_good:
  assumes g: "good w" and q: "still w" "ob_timedOut w = None"
  shows "good (replaceWithInternalError w) \<and> ob_timedOut (replaceWithInternalError w) = None \<and>
    ob_setup (replaceWithInternalError w) = ob_setup w"
proof (cases "ob_state w = ResponsePending")
  case False
  with assms show ?thesis by (simp add: replaceWithInternalError_def)
next
  case True
  define w1 where "w1 = (ob_reset w)\<lparr>ob_header := hdr_set ''X-Request-ID'' (hdr_get ''X-Request-ID'' (ob_header w)) (ob_header (ob_reset w))\<rparr>"
  have g1: "good w1" "still w1" "ob_timedOut w1 = None" "ob_setup w1 = ob_setup w"
    using g q True
    by (auto simp: w1_def ob_reset_def good_def live_def obs_inv_def dst_untouched_def recorded_def ended_def still_def ob_setup_def
        deadlineExceeded_def)
  have "writes internalError" by (rule writes_intro)
  then obtain w2 where w2: "internalError (Observed w1) = Observed w2" "good w2" "ob_setup w2 = ob_setup w1"
    using writer_steps_good [of "Observed w1" "internalError (Observed w1)" w1] g1(1) by (auto simp: writes_def)
  have "ob_timedOut w2 = None"
    using w2(1) g1(2,3) by (auto simp: internalError_def writeAPIError_def write_encoded_def Let_def case_prod_beta still_methods)
  moreover have "replaceWithInternalError w = w2"
    using True w2(1) by (simp add: replaceWithInternalError_def Let_def w1_def)
  ultimately show ?thesis using w2 g1 by simp
qed

lemma settle_sent:
  assumes g: "good w" and run: "settle x out w = (ending, w')" and rid: "ex_requestID x = ob_requestID w"
  shows "sent_for ending w' \<and> ob_setup w' = ob_setup w"
proof -
  let ?w = "w\<lparr>ob_timeoutAt := None\<rparr>"
  have g': "good ?w" "still ?w" using g by (auto simp: good_def live_def obs_inv_def dst_defs still_def split: response_state.splits)
  show ?thesis
  proof (cases "ob_timedOut w")
    case (Some streaming)
    then have "ending = (True, streaming, False)" "w' = ?w" using run by (simp_all add: settle_def Let_def)
    moreover have "ob_state w = (if streaming then ResponseStreamingTimedOut else ResponseTimedOut)"
      using g Some by (auto simp: good_def ended_def split: if_splits)
    ultimately show ?thesis using g
      by (cases streaming) (simp_all add: sent_for_def good_def live_def obs_inv_def recorded_def dst_once_def
          dst_timed_out_def statusCode_def writtenBytes_def)
  next
    case None
    then have none: "ob_timedOut ?w = None" by simp
    show ?thesis
    proof (cases "deadlineExceeded ?w")
      case True
      with run None obtain s where s: "resp_timeout (ob_requestID ?w) ?w = (s, w')" "ending = (True, s, False)"
        by (auto simp: settle_def Let_def rid split: prod.splits)
      from timeout_sent [OF g'(1) True s(1) none] s(2) show ?thesis by simp
    next
      case False
      then have w': "w' = ob_finish (if out = Panicked then replaceWithInternalError ?w else ?w)" "ending = (False, False, out = Panicked)"
        using run None by (auto simp: settle_def Let_def split: if_splits)
      have "good (if out = Panicked then replaceWithInternalError ?w else ?w)"
        "ob_timedOut (if out = Panicked then replaceWithInternalError ?w else ?w) = None"
        "ob_setup (if out = Panicked then replaceWithInternalError ?w else ?w) = ob_setup ?w"
        using internalError_good [OF g' none] g' none by simp_all
      from finish_sent [OF this(1) good_pending [OF this(1,2)]] this(3) w' show ?thesis by simp
    qed
  qed
qed

subsection \<open>Properties\<close>

lemma serveHTTP_sent:
  assumes handle: "\<And>r. via (handle r)" and fresh: "ds_sent d = None" "ds_body d = []" "ds_calls d = 0"
    and run: "serveHTTP h x limited handle r d w = (d', w')"
  shows "\<exists>response ending cache w1. d' = ob_dst response \<and> w' = report h x r ending cache response w1 \<and>
    sent_for ending response \<and> ob_head response = (rq_Method r = ''HEAD'') \<and> ob_requestID response = ex_requestID x"
proof -
  let ?b = "begin_response x limited r d"
  note b = good_begin [OF fresh, of x limited r]
  obtain out k where k: "run_state (run_next h handle r) \<lparr>cn_back = w, cn_rw = Observed ?b, cn_cache = ''none''\<rparr> = (out, k)"
    by (cases "run_state (run_next h handle r) \<lparr>cn_back = w, cn_rw = Observed ?b, cn_cache = ''none''\<rparr>")
  have steps: "writer_step\<^sup>*\<^sup>* (Observed ?b) (cn_rw k)" using viaD [OF via_run_next [OF handle] k] by simp
  from writer_steps_good [OF steps refl conjunct1 [OF b]]
  obtain o1 where o1: "cn_rw k = Observed o1" "good o1" "ob_setup o1 = ob_setup ?b" by blast
  obtain ending o2 where o2: "settle x out o1 = (ending, o2)" by (cases "settle x out o1")
  have "ex_requestID x = ob_requestID o1" using o1(3) b by (simp add: ob_setup_def)
  note sent = settle_sent [OF o1(2) o2 this]
  have "d' = ob_dst o2" "w' = report h x r ending (cn_cache k) o2 (cn_back k)"
    using run k o1(1) o2 by (simp_all add: serveHTTP_def)
  moreover have "ob_head o2 = (rq_Method r = ''HEAD'')" "ob_requestID o2 = ex_requestID x"
    using sent o1(3) b by (simp_all add: ob_setup_def)
  ultimately show ?thesis using sent by blast
qed

text \<open>C15: Every request gets exactly one response header, whatever the handler does and whenever the
  deadline passes; a HEAD request gets no body. A request that times out before it streams gets the
  timeout response and nothing of the handler's; any other gets the status that is logged and counted.
  The download metric counts the bytes that were sent.\<close>

theorem one_response:
  assumes "ds_sent d = None" "ds_body d = []" "ds_calls d = 0" "serve L H h x closedAt r d w = (d', w')"
  shows "\<exists>response timedOut streaming panicked cache w1.
    d' = ob_dst response \<and> w' = report h x r (timedOut, streaming, panicked) cache response w1 \<and>
    ds_calls d' = 1 \<and> writtenBytes response = int (length (ds_body d')) \<and>
    (rq_Method r = ''HEAD'' \<longrightarrow> ds_body d' = []) \<and>
    (if timedOut \<and> \<not> streaming then
       ds_sent d' = Some (503, timeout_header (ex_requestID x)) \<and>
       ds_body d' = (if rq_Method r = ''HEAD'' then [] else sent_room d' timeout_body)
     else map_option fst (ds_sent d') = Some (statusCode response))"
proof -
  obtain response ending cache w1 where sent: "d' = ob_dst response" "w' = report h x r ending cache response w1"
    "sent_for ending response" "ob_head response = (rq_Method r = ''HEAD'')" "ob_requestID response = ex_requestID x"
    using serveHTTP_sent [OF via_route assms(1-3) assms(4) [unfolded serve_def]] by blast
  obtain timedOut streaming panicked where e: "ending = (timedOut, streaming, panicked)" by (cases ending)
  show ?thesis
    by (rule exI [of _ response], rule exI [of _ timedOut], rule exI [of _ streaming], rule exI [of _ panicked],
        rule exI [of _ cache], rule exI [of _ w1])
      (use sent e in \<open>simp add: sent_for_def\<close>)
qed

text \<open>C21: Of a request, what is logged and counted depends on its method and normalized route only:
  on nothing else of its path, and neither on its query nor on its header or body; of the response it depends
  on the status, the number of bytes and whether it is a download. The route is one of nine names, so
  session tokens and document ids, which travel in paths, queries and bodies, never reach logs or metric
  labels. The method is reported as the client sent it.\<close>

theorem reports_hide_paths:
  assumes "normalizedRoute (rq_Path r') = normalizedRoute (rq_Path r)" "rq_Method r' = rq_Method r"
    "statusCode response' = statusCode response" "writtenBytes response' = writtenBytes response"
    "hdr_get ''Content-Disposition'' (responseHeader response') = [] \<longleftrightarrow>
     hdr_get ''Content-Disposition'' (responseHeader response) = []"
  shows "report h x r' ending cache response' w = report h x r ending cache response w \<and>
    normalizedRoute (rq_Path r) \<in> {''/health/live'', ''/health/ready'', ''/metrics'', ''/api/register'', ''/api/auth'', ''/api/docs'',
      ''/api/auth/{token}'', ''/api/docs/{id}'', ''not_found''}"
proof
  show "report h x r' ending cache response' w = report h x r ending cache response w"
    unfolding report_def assms by (rule refl)
  show "normalizedRoute (rq_Path r) \<in> {''/health/live'', ''/health/ready'', ''/metrics'', ''/api/register'', ''/api/auth'', ''/api/docs'',
      ''/api/auth/{token}'', ''/api/docs/{id}'', ''not_found''}"
    unfolding normalizedRoute_def by simp
qed

subsection \<open>Races at the deadline\<close>

text \<open>An internal error that is written when the deadline passes is not written at all.\<close>

lemma internalError_late:
  assumes "still w" "ob_state w = ResponsePending" "\<not> ob_wroteHeader w" "ob_body w = []"
    "ob_closedAt w = Some c" "c \<le> ob_tick w + 3"
  shows "\<exists>w'. internalError (Observed w) = Observed w' \<and> ob_state w' = ResponsePending \<and> \<not> ob_wroteHeader w' \<and>
    ob_body w' = [] \<and> ob_dst w' = ob_dst w"
proof -
  have put: "\<exists>x. ob_putHeader n vs v = v\<lparr>ob_tick := Suc (ob_tick v), ob_header := x\<rparr>"
    if "still v" "ob_state v = ResponsePending" for n vs v
    using that by (auto simp: ob_putHeader_def Let_def still_interleave)
  have head: "ob_WriteHeader st v = v\<lparr>ob_tick := Suc (ob_tick v)\<rparr>"
    if "still v" "ob_closedAt v = Some c" "c \<le> Suc (ob_tick v)" for st v
    using that by (simp add: ob_WriteHeader_def Let_def still_interleave deadlineExceeded_def)
  have body: "snd (ob_Write data v) = v\<lparr>ob_tick := Suc (ob_tick v)\<rparr>"
    if "still v" "ob_closedAt v = Some c" "c \<le> Suc (ob_tick v)" for data v
    using that by (simp add: ob_Write_def Let_def still_interleave deadlineExceeded_def)
  obtain x1 where x1: "ob_putHeader ''Content-Type'' [''application/json; charset=utf-8''] w =
      w\<lparr>ob_tick := Suc (ob_tick w), ob_header := x1\<rparr>" using put [OF assms(1,2)] by blast
  let ?w1 = "w\<lparr>ob_tick := Suc (ob_tick w), ob_header := x1\<rparr>"
  have w1: "still ?w1" "ob_state ?w1 = ResponsePending" using assms(1,2) by (simp_all add: still_def)
  let ?e = "error_json 500 ''internal server error'' @ nl"
  obtain x2 where x2: "ob_putHeader ''Content-Length'' [strconv_Itoa (int (length ?e))] ?w1 =
      ?w1\<lparr>ob_tick := Suc (ob_tick ?w1), ob_header := x2\<rparr>" using put [OF w1] by blast
  let ?w2 = "?w1\<lparr>ob_tick := Suc (ob_tick ?w1), ob_header := x2\<rparr>"
  have w2: "still ?w2" "ob_closedAt ?w2 = Some c" "c \<le> Suc (ob_tick ?w2)" using assms by (simp_all add: still_def)
  let ?w3 = "?w2\<lparr>ob_tick := Suc (ob_tick ?w2)\<rparr>"
  have w3: "still ?w3" "ob_closedAt ?w3 = Some c" "c \<le> Suc (ob_tick ?w3)" using assms by (simp_all add: still_def)
  have "internalError (Observed w) = Observed (snd (ob_Write ?e ?w3))"
    by (simp only: internalError_def writeAPIError_def write_encoded_def Let_def wr_putHeader.simps wr_WriteHeader.simps
        wr_Write.simps x1 x2 head [OF w2] case_prod_beta snd_conv)
  then have "internalError (Observed w) = Observed (?w3\<lparr>ob_tick := Suc (ob_tick ?w3)\<rparr>)" by (simp only: body [OF w3])
  then show ?thesis using assms by simp
qed

lemma settle_late_panic:
  assumes g: "good w" and st: "ob_state w = ResponsePending"
    and c: "ob_closedAt w = Some c" "ob_tick w < c" "c \<le> ob_tick w + 3"
    and run: "settle x Panicked w = (ending, w')"
  shows "ending = (False, False, True) \<and> statusCode w' = 200 \<and> map_option fst (ds_sent (ob_dst w')) = Some 200 \<and>
    ds_body (ob_dst w') = []"
proof -
  let ?w = "w\<lparr>ob_timeoutAt := None\<rparr>"
  define w1 where "w1 = (ob_reset ?w)\<lparr>ob_header := hdr_set ''X-Request-ID'' (hdr_get ''X-Request-ID'' (ob_header ?w)) (ob_header (ob_reset ?w))\<rparr>"
  have none: "ob_timedOut w = None" using g st by (simp add: good_def ended_def)
  have w1: "still w1" "ob_state w1 = ResponsePending" "\<not> ob_wroteHeader w1" "ob_body w1 = []"
    "ob_closedAt w1 = Some c" "c \<le> ob_tick w1 + 3" "ob_dst w1 = ob_dst w"
    using st c by (simp_all add: w1_def ob_reset_def still_def)
  obtain w2 where w2: "internalError (Observed w1) = Observed w2" "ob_state w2 = ResponsePending" "\<not> ob_wroteHeader w2"
    "ob_body w2 = []" "ob_dst w2 = ob_dst w"
    using internalError_late [OF w1(1-6)] w1(7) by auto
  have rep: "replaceWithInternalError ?w = w2" using st w2(1) by (simp add: replaceWithInternalError_def Let_def w1_def)
  have e: "ending = (False, False, True)" "w' = ob_finish w2"
    using run none c st rep by (simp_all add: settle_def Let_def deadlineExceeded_def)
  define w3 where "w3 = w2\<lparr>ob_state := ResponseCompleted, ob_status := 200, ob_wroteHeader := True\<rparr>"
  define w4 where "w4 = (if hdr_get ''Content-Length'' (ob_header w3) = [] \<and> responseMayHaveBody 200
    then w3\<lparr>ob_header := hdr_set ''Content-Length'' (strconv_Itoa (int (length (ob_body w3)))) (ob_header w3)\<rparr> else w3)"
  define w5 where "w5 = send_header (ob_header w4) 200 w4"
  have fin: "ob_finish w2 = (if \<not> ob_head w5 \<and> responseMayHaveBody 200 then snd (send_body (ob_body w5) w5) else w5)\<lparr>ob_body := []\<rparr>"
    using w2(2,3) by (simp add: ob_finish_def Let_def w5_def w4_def w3_def)
  have dst: "ds_sent (ob_dst w) = None" "ds_body (ob_dst w) = []"
    using g st by (simp_all add: good_def live_def obs_inv_def dst_untouched_def)
  have w4: "ds_sent (ob_dst w4) = None" "ds_body (ob_dst w4) = []" "ob_body w4 = []" "ob_status w4 = 200"
    using w2 dst by (simp_all add: w4_def w3_def)
  note d = send_header_dst [OF w4(1), of "ob_header w4" 200]
  have w5: "map_option fst (ds_sent (ob_dst w5)) = Some 200" "ds_body (ob_dst w5) = []" "ob_body w5 = []" "ob_status w5 = 200"
    "ds_sent (ob_dst w5) \<noteq> None"
    using d w4 by (simp_all add: w5_def send_header_def Let_def)
  note b = send_body_dst [OF w5(5), of "ob_body w5"]
  show ?thesis using e fin w5 b by (simp add: statusCode_def sent_room_def)
qed

text \<open>C38: Whatever a handler has done, if it panics before its response has started and the deadline passes
  within the three steps in which the response is being replaced, then the internal error is not written:
  the request is answered with status 200 and an empty body, and logged and counted as completed with
  status 200.\<close>

theorem panic_answered_ok:
  assumes "\<And>r. via (handle r)" "ds_sent d = None" "ds_body d = []" "ds_calls d = 0"
    "serveHTTP h x True handle r d w = (d', w')" "ex_deadline x = Some (c, late)"
    "run_state (run_next h handle r) \<lparr>cn_back = w, cn_rw = Observed (begin_response x True r d), cn_cache = ''none''\<rparr> =
      (Panicked, k)"
    "cn_rw k = Observed o1" "ob_state o1 = ResponsePending" "ob_tick o1 < c" "c \<le> ob_tick o1 + 3"
  shows "map_option fst (ds_sent d') = Some 200 \<and> ds_body d' = [] \<and>
    (\<exists>response. statusCode response = 200 \<and>
       w' = report h x r (False, False, True) (cn_cache k) response (cn_back k))"
proof -
  let ?b = "begin_response x True r d"
  note b = good_begin [OF assms(2-4), of x True r]
  have steps: "writer_step\<^sup>*\<^sup>* (Observed ?b) (cn_rw k)" using viaD [OF via_run_next [OF assms(1)] assms(7)] by simp
  from writer_steps_good [OF steps refl conjunct1 [OF b]] assms(8)
  have o1: "good o1" "ob_setup o1 = ob_setup ?b" by auto
  have "ob_closedAt o1 = Some c" using o1(2) b assms(6) by (simp add: ob_setup_def)
  obtain ending o2 where o2: "settle x Panicked o1 = (ending, o2)" by (cases "settle x Panicked o1")
  from settle_late_panic [OF o1(1) assms(9) \<open>ob_closedAt o1 = Some c\<close> assms(10,11) o2]
  show ?thesis using assms(5,7,8) o2 by (auto simp: serveHTTP_def)
qed







subsection \<open>Witnesses\<close>

definition bare_deps :: "log_line list dependencies" where
  "bare_deps = \<lparr>dp_Auth = None, dp_Documents = None, dp_Cache = None, dp_CacheEpoch = None, dp_CacheTTL = 0,
     dp_ExposeCacheHeader = False, dp_Logger = Some (\<lambda>l ls. ls @ [l]), dp_Metrics = None, dp_Readiness = None,
     dp_ProcessingTimeout = second, dp_Limits = default_limits\<rparr>"

definition bare_handler :: "log_line list handler" where
  "bare_handler = newHandler (\<lambda>l ls. ls) \<lparr>ep_Load = (\<lambda>w. 0), ep_Add1 = (\<lambda>w. w)\<rparr> (\<lambda>k w. (Leads, w)) bare_deps"

definition demo_http :: meta_lib where
  "demo_http = \<lparr>json_Marshal = (\<lambda>v. Some ''{}''), multipart_parse = (\<lambda>t b n. None), json_decode_meta = (\<lambda>b. None),
     time_Format = (\<lambda>t. strconv_Itoa t), time_Format_nano = (\<lambda>t. strconv_Itoa t), is_wide = (\<lambda>n. False)\<rparr>"

definition demo_request :: "string \<Rightarrow> string \<Rightarrow> request" where
  "demo_request method path = \<lparr>rq_Method = method, rq_Path = path, rq_RawQuery = [], rq_Header = [], rq_ContentLength = 0,
     rq_Body = Some \<lparr>r_data = [], r_err = None\<rparr>\<rparr>"

definition demo_exchange :: "(nat \<times> nat) option \<Rightarrow> exchange" where
  "demo_exchange deadline = \<lparr>ex_requestID = ''id-1'', ex_elapsed = millisecond, ex_deadline = deadline\<rparr>"

lemma bare_handler_parts [simp]:
  "dp_Logger (h_deps bare_handler) = Some (\<lambda>l ls. ls @ [l])" "dp_Metrics (h_deps bare_handler) = None"
  "0 < dp_ProcessingTimeout (h_deps bare_handler)" "\<not> lm_MaxRequestBytes (dp_Limits (h_deps bare_handler)) < 0"
  by (simp_all add: bare_handler_def newHandler_def bare_deps_def Let_def second_def default_limits_def or_default_def)

lemma one_response_witness:
  "\<exists>d' w'. serve demo_lib demo_http bare_handler (demo_exchange None) None (demo_request ''HEAD'' ''/api/docs'')
     (new_dst None) [] = (d', w') \<and> ds_calls d' = 1 \<and> ds_body d' = []"
proof -
  obtain d' w' where run: "serve demo_lib demo_http bare_handler (demo_exchange None) None (demo_request ''HEAD'' ''/api/docs'')
     (new_dst None) [] = (d', w')" by (meson surj_pair)
  from one_response [OF _ _ _ this] show ?thesis using run by (auto simp: new_dst_def demo_request_def)
qed

lemma reports_hide_paths_witness:
  "report bare_handler (demo_exchange None) (demo_request ''GET'' ''/api/docs/secret2'')
     (False, False, False) ''none'' (begin_response (demo_exchange None) False (demo_request ''GET'' []) (new_dst None)) [] =
   report bare_handler (demo_exchange None) ((demo_request ''GET'' ''/api/docs/secret1'')\<lparr>rq_RawQuery := ''token=secret3''\<rparr>)
     (False, False, False) ''none'' (begin_response (demo_exchange None) False (demo_request ''GET'' []) (new_dst None)) []"
proof -
  have "normalizedRoute (rq_Path (demo_request ''GET'' ''/api/docs/secret2'')) =
      normalizedRoute (rq_Path ((demo_request ''GET'' ''/api/docs/secret1'')\<lparr>rq_RawQuery := ''token=secret3''\<rparr>))"
    by code_simp
  moreover have "rq_Method (demo_request ''GET'' ''/api/docs/secret2'') =
      rq_Method ((demo_request ''GET'' ''/api/docs/secret1'')\<lparr>rq_RawQuery := ''token=secret3''\<rparr>)"
    by (simp add: demo_request_def)
  ultimately show ?thesis by (rule reports_hide_paths [THEN conjunct1]) (rule refl)+
qed

definition demo_panic :: "request \<Rightarrow> (log_line list conn, outcome) state" where
  "demo_panic r = State_Monad.return Panicked"

lemma panic_answered_ok_witness:
  "\<exists>d' w' response. serveHTTP bare_handler (demo_exchange (Some (3, 10))) True demo_panic
       (demo_request ''GET'' ''/health/live'') (new_dst None) [] = (d', w') \<and>
     map_option fst (ds_sent d') = Some 200 \<and> ds_body d' = [] \<and> statusCode response = 200 \<and>
     w' = [PanicRecovered ''id-1'' ''/health/live'' ''GET'',
           RequestCompleted LevelInfo ''id-1'' ''/health/live'' ''GET'' 200 1 ''none'' ''completed'']"
proof -
  let ?r = "demo_request ''GET'' ''/health/live''" and ?x = "demo_exchange (Some (3, 10))"
  let ?b = "begin_response ?x True ?r (new_dst None)"
  obtain d' w' where run: "serveHTTP bare_handler ?x True demo_panic ?r (new_dst None) [] = (d', w')" by (meson surj_pair)
  have via: "via (demo_panic r)" for r unfolding demo_panic_def by (rule via_intro)
  have panics: "run_state (run_next bare_handler demo_panic ?r) \<lparr>cn_back = [], cn_rw = Observed ?b, cn_cache = ''none''\<rparr> =
      (Panicked, \<lparr>cn_back = [], cn_rw = Observed ?b, cn_cache = ''none''\<rparr>)"
    by (simp add: run_next_def demo_panic_def demo_request_def)
  have b: "ob_state ?b = ResponsePending" "ob_tick ?b < 3" "3 \<le> ob_tick ?b + 3"
    by (simp_all add: begin_response_def newObservedResponse_def Let_def)
  have fresh: "ds_sent (new_dst None) = None" "ds_body (new_dst None) = []" "ds_calls (new_dst None) = 0"
    by (simp_all add: new_dst_def)
  have deadline: "ex_deadline ?x = Some (3, 10)" by (simp add: demo_exchange_def)
  obtain response where ok: "map_option fst (ds_sent d') = Some 200" "ds_body d' = []" "statusCode response = 200"
    "w' = report bare_handler ?x ?r (False, False, True) ''none'' response []"
    using panic_answered_ok [OF via fresh run deadline panics _ b] by auto
  have "w' = [PanicRecovered ''id-1'' ''/health/live'' ''GET'',
      RequestCompleted LevelInfo ''id-1'' ''/health/live'' ''GET'' 200 1 ''none'' ''completed'']"
    unfolding ok(4) report_def ok(3)
    by (simp add: demo_request_def demo_exchange_def normalizedRoute_def go_div_def millisecond_def Let_def)
  with run ok show ?thesis by blast
qed


end
