(* ===== verification/PgStore.thy ===== *)
theory PgStore
  imports World Uuid
begin

text \<open>
  The PostgreSQL store, \<open>internal/repository/postgres/postgres.go\<close>: the pool configuration,
  the choice of executor, transactions and the classification of errors. A statement is a
  function on the database; run with a transaction's context it works on the transaction's
  copy, otherwise on the committed state. A statement that fails changes nothing.
\<close>

subsection \<open>Pool configuration\<close>

record pg_config =
  pc_DSN :: string
  pc_MaxConns :: int
  pc_MinConns :: int
  pc_MaxConnLifetime :: duration
  pc_MaxConnIdleTime :: duration
  pc_HealthCheckPeriod :: duration

definition defaultMaxConns :: int where "defaultMaxConns = 10"
definition defaultMinConns :: int where "defaultMinConns = 1"
definition defaultMaxConnLifetime :: duration where "defaultMaxConnLifetime = hour"
definition defaultMaxConnIdleTime :: duration where "defaultMaxConnIdleTime = 30 * minute"
definition defaultHealthCheckPeriod :: duration where "defaultHealthCheckPeriod = minute"

definition applyPoolDefaults :: "pg_config \<Rightarrow> pg_config" where
  "applyPoolDefaults cfg = cfg
     \<lparr>pc_MaxConns := (if pc_MaxConns cfg = 0 then defaultMaxConns else pc_MaxConns cfg),
      pc_MinConns := (if pc_MinConns cfg = 0 then defaultMinConns else pc_MinConns cfg),
      pc_MaxConnLifetime := (if pc_MaxConnLifetime cfg = 0 then defaultMaxConnLifetime
        else pc_MaxConnLifetime cfg),
      pc_MaxConnIdleTime := (if pc_MaxConnIdleTime cfg = 0 then defaultMaxConnIdleTime
        else pc_MaxConnIdleTime cfg),
      pc_HealthCheckPeriod := (if pc_HealthCheckPeriod cfg = 0 then defaultHealthCheckPeriod
        else pc_HealthCheckPeriod cfg)\<rparr>"

text \<open>
  \<open>Open\<close>: \<open>dsn_ok\<close> is \<open>pgxpool.ParseConfig\<close>; creating the pool and the first ping are calls
  to the environment. The result is the configuration the pool runs with.
\<close>

definition pg_Open :: "(string \<Rightarrow> bool) \<Rightarrow> pg_config \<Rightarrow> (world, pg_config) op" where
  "pg_Open dsn_ok cfg0 =
     (if \<not> dsn_ok (pc_DSN cfg0) then fail (Wrapped ''open postgres'' (Sentinel RepoErrInternal))
      else
        let cfg = applyPoolDefaults cfg0
        in if pc_MaxConns cfg < 1 \<or> pc_MinConns cfg < 0 \<or> pc_MinConns cfg > pc_MaxConns cfg \<or>
              pc_MaxConnLifetime cfg < 0 \<or> pc_MaxConnIdleTime cfg < 0 \<or> pc_HealthCheckPeriod cfg \<le> 0
           then fail (Wrapped ''open postgres'' (Sentinel RepoErrInvalidArgument))
           else
             and_then (map_err (\<lambda>_. Wrapped ''open postgres'' (Sentinel RepoErrInternal))
               (env_call (\<lambda>s. ret ()))) (\<lambda>_.
             and_then (map_err (\<lambda>_. Wrapped ''ping postgres'' (Sentinel RepoErrInternal))
               (env_call (\<lambda>s. ret ()))) (\<lambda>_. ret cfg)))"

definition pg_Ping :: "(world, unit) op" where
  "pg_Ping = map_err (\<lambda>_. Sentinel RepoErrInternal) (env_call (\<lambda>s. ret ()))"

text \<open>\<open>queryTracer\<close>: a query is reported with its duration unless its start is unknown.\<close>

definition traceQueryEnd :: "time option \<Rightarrow> time \<Rightarrow> goerr option \<Rightarrow> observation option" where
  "traceQueryEnd started now err =
     (case started of
        None \<Rightarrow> None
      | Some t \<Rightarrow> if t = zero_time then None else Some (ObsDatabase (now - t) err))"

subsection \<open>Errors\<close>

definition classify :: "string \<Rightarrow> goerr \<Rightarrow> goerr" where
  "classify operation err =
     (if errors_Is err PgxErrNoRows then Wrapped operation (Sentinel RepoErrNotFound)
      else if errors_Is err ContextCanceled \<or> errors_Is err ContextDeadlineExceeded
        then Wrapped operation err
      else case errors_As_pg err of
          Some code \<Rightarrow>
            if code = ''23505'' then Wrapped operation (Sentinel RepoErrConflict)
            else if code = ''23503'' then Wrapped operation (Sentinel RepoErrNotFound)
            else Wrapped operation (Sentinel RepoErrInternal)
        | None \<Rightarrow> Wrapped operation (Sentinel RepoErrInternal))"

text \<open>What an error becomes: failures of the environment are never taken for an answer.\<close>

lemma ctx_goerr_Is: "errors_Is (ctx_goerr e) s \<longleftrightarrow>
    (e = Canceled \<and> s = ContextCanceled \<or> e = DeadlineExceeded \<and> s = ContextDeadlineExceeded)"
  by (cases e) auto

lemma io_goerr_Is: "errors_Is (io_goerr e) s \<longleftrightarrow>
    (e = IoCtx Canceled \<and> s = ContextCanceled \<or>
     e = IoCtx DeadlineExceeded \<and> s = ContextDeadlineExceeded)"
  by (cases e) (auto simp: ctx_goerr_Is)

lemma classify_io:
  "errors_Is (classify m (io_goerr e)) s \<Longrightarrow>
   s \<in> {RepoErrInternal, ContextCanceled, ContextDeadlineExceeded}"
proof (cases e)
  case (IoCtx x)
  then show "errors_Is (classify m (io_goerr e)) s \<Longrightarrow> ?thesis"
    by (cases x) (auto simp: classify_def)
qed (auto simp: classify_def split: if_splits)

lemma classify_pg [simp]:
  "classify m (PgError code) =
     (if code = ''23505'' then Wrapped m (Sentinel RepoErrConflict)
      else if code = ''23503'' then Wrapped m (Sentinel RepoErrNotFound)
      else Wrapped m (Sentinel RepoErrInternal))"
  by (simp add: classify_def)

lemma classify_no_rows [simp]:
  "classify m (Sentinel PgxErrNoRows) = Wrapped m (Sentinel RepoErrNotFound)"
  by (simp add: classify_def)

subsection \<open>Statements\<close>

type_synonym 'a statement = "pg_params \<Rightarrow> time \<Rightarrow> database \<Rightarrow> (goerr + 'a) \<times> database"

definition pg_exec :: "ctx \<Rightarrow> 'a statement \<Rightarrow> (world, 'a) op" where
  "pg_exec c f = env_call (\<lambda>s w.
     (if c_tx c then
        (case w_tx w of
           None \<Rightarrow> (Inl (Opaque ''tx is closed''), w)
         | Some (d, t) \<Rightarrow> (let (r, d') = f (w_pg w) t d in (r, w\<lparr>w_tx := Some (d', t)\<rparr>)))
      else (let (r, d') = f (w_pg w) (es_dbnow s) (w_db w) in (r, w\<lparr>w_db := d'\<rparr>))))"

definition select :: "(pg_params \<Rightarrow> time \<Rightarrow> database \<Rightarrow> goerr + 'a) \<Rightarrow> 'a statement" where
  "select q p now d = (q p now d, d)"

text \<open>Parameters of statements: text must be valid UTF-8 without NUL, a UUID must be readable.\<close>

definition text_param :: "pg_params \<Rightarrow> string \<Rightarrow> goerr + string" where
  "text_param p s = (if pg_text_ok p s then Inr s else Inl (PgError ''22021''))"

definition uuid_param :: "pg_params \<Rightarrow> string \<Rightarrow> goerr + string" where
  "uuid_param p s = (case pg_uuid_in p s of None \<Rightarrow> Inl (PgError ''22P02'') | Some u \<Rightarrow> Inr u)"

fun texts_param :: "pg_params \<Rightarrow> string list \<Rightarrow> goerr + string list" where
  "texts_param p ss = (if list_all (pg_text_ok p) ss then Inr ss else Inl (PgError ''22021''))"

definition sum_bind :: "'e + 'a \<Rightarrow> ('a \<Rightarrow> 'e + 'b) \<Rightarrow> 'e + 'b" where
  "sum_bind m f = (case m of Inl e \<Rightarrow> Inl e | Inr a \<Rightarrow> f a)"

lemma sum_bind_simps [simp]: "sum_bind (Inl e) f = Inl e" "sum_bind (Inr a) f = f a"
  by (simp_all add: sum_bind_def)

text \<open>\<open>timestamptz\<close> keeps microseconds, \<open>timestamptz(0)\<close> rounds to the nearest second.\<close>

definition pg_micros :: "time \<Rightarrow> time" where
  "pg_micros t = t div 1000 * 1000"

definition pg_seconds :: "time \<Rightarrow> time" where
  "pg_seconds t = (t + 500000000) div 1000000000 * 1000000000"

subsection \<open>Transactions\<close>

definition begin_tx :: "(world, unit) op" where
  "begin_tx w =
     (let (s, w1) = env_next w
      in case es_fault s of
           Fine \<Rightarrow> (Inr (), w1\<lparr>w_tx := Some (w_db w1, es_dbnow s)\<rparr>)
         | Fails e \<Rightarrow> (Inl (io_goerr e), w1)
         | FailsAfter e \<Rightarrow> (Inl (io_goerr e), w1))"

text \<open>
  Rolling back throws the copy away, but never gives back the numbers a sequence has handed
  out. Its own error is ignored: a broken connection rolls back by itself.
\<close>

definition drop_tx :: "world \<Rightarrow> world" where
  "drop_tx w =
     (case w_tx w of
        None \<Rightarrow> w
      | Some (d, t) \<Rightarrow> w\<lparr>w_db := (w_db w)\<lparr>db_taskseq := db_taskseq d\<rparr>, w_tx := None\<rparr>)"

definition rollback_tx :: "world \<Rightarrow> world" where
  "rollback_tx w = drop_tx (snd (env_next w))"

definition commit_tx :: "(world, unit) op" where
  "commit_tx w =
     (let (s, w1) = env_next w;
          done = (case w_tx w1 of None \<Rightarrow> w1 | Some (d, t) \<Rightarrow> w1\<lparr>w_db := d, w_tx := None\<rparr>)
      in case es_fault s of
           Fine \<Rightarrow> (Inr (), done)
         | Fails e \<Rightarrow> (Inl (io_goerr e), drop_tx w1)
         | FailsAfter e \<Rightarrow> (Inl (io_goerr e), done))"

definition withinTransaction :: "ctx \<Rightarrow> (ctx \<Rightarrow> (world, 'a) op) option \<Rightarrow> (world, 'a) op" where
  "withinTransaction c fn w =
     (case fn of
        None \<Rightarrow> (Inl (Wrapped ''transaction'' (Sentinel RepoErrInvalidArgument)), w)
      | Some f \<Rightarrow>
          if c_tx c then f c w
          else case begin_tx w of
              (Inl e, w1) \<Rightarrow> (Inl (classify ''begin transaction'' e), w1)
            | (Inr _, w1) \<Rightarrow>
                (case f (c\<lparr>c_tx := True\<rparr>) w1 of
                   (Inl e, w2) \<Rightarrow> (Inl e, rollback_tx w2)
                 | (Inr a, w2) \<Rightarrow>
                     (case commit_tx w2 of
                        (Inl e, w3) \<Rightarrow> (Inl (classify ''commit transaction'' e), w3)
                      | (Inr _, w3) \<Rightarrow> (Inr a, w3))))"

text \<open>\<open>uuid.NewString()\<close> panics when the random source fails.\<close>

definition uuid_NewString :: "(world, string) op" where
  "uuid_NewString = map_err (\<lambda>_. Panicked ''uuid'')
     (and_then (rand_Read 16) (\<lambda>raw. ret (uuid_String (uuid_v4 raw))))"

subsection \<open>What database calls leave alone\<close>

definition pg_frame :: "world \<Rightarrow> (string \<times> bytes) list \<times> pg_params \<times> (nat \<Rightarrow> env_step)" where
  "pg_frame w = (w_dir w, w_pg w, w_env w)"

lemma pg_frame_simps [simp]:
  "pg_frame (w\<lparr>w_tick := t\<rparr>) = pg_frame w" "pg_frame (w\<lparr>w_db := d\<rparr>) = pg_frame w"
  "pg_frame (w\<lparr>w_tx := x\<rparr>) = pg_frame w"
  by (simp_all add: pg_frame_def)

lemma keeps_pg_exec_frame [keeps_intro]: "keeps (\<lambda>w. pg_frame w = X) (pg_exec c f)"
  unfolding pg_exec_def
  by (intro keeps_env_call keepsI) (auto split: if_splits option.splits prod.splits)

text \<open>A transaction's body works on the copy: the committed state stays, the copy stays open.\<close>

definition local_to :: "database \<Rightarrow> time \<Rightarrow> world \<Rightarrow> bool" where
  "local_to D T w \<longleftrightarrow> w_db w = D \<and> (\<exists>d. w_tx w = Some (d, T))"

lemma local_to_tick [simp]: "local_to D T (w\<lparr>w_tick := t\<rparr>) = local_to D T w"
  by (simp add: local_to_def)

lemma keeps_pg_exec_local [keeps_intro]: "c_tx c \<Longrightarrow> keeps (local_to D T) (pg_exec c f)"
  unfolding pg_exec_def
  by (intro keeps_env_call keepsI) (auto simp: local_to_def split: if_splits option.splits prod.splits)

lemma pg_exec_tx:
  assumes "pg_exec c f w = (Inr a, w')" "c_tx c" "w_tx w = Some (d, t)"
  shows "\<exists>d'. f (w_pg w) t d = (Inr a, d') \<and> w_tx w' = Some (d', t) \<and> w_db w' = w_db w"
  using assms by (auto simp: pg_exec_def env_call_def env_next_def split: fault.splits prod.splits)

text \<open>An autocommitted statement: it took effect, or an error says so or not.\<close>

lemma pg_exec_auto:
  assumes "pg_exec c f w = (r, w')" "\<not> c_tx c"
  shows "w_tx w' = w_tx w \<and>
    (\<exists>r' d'. f (w_pg w) (es_dbnow (w_env w (w_tick w))) (w_db w) = (r', d') \<and>
      (r = r' \<and> w_db w' = d' \<or> (\<exists>e. r = Inl (io_goerr e)) \<and> (w_db w' = w_db w \<or> w_db w' = d')))"
proof -
  obtain r' d' where "f (w_pg w) (es_dbnow (w_env w (w_tick w))) (w_db w) = (r', d')" by fastforce
  with assms show ?thesis by (auto simp: pg_exec_def env_call_def env_next_def split: fault.splits)
qed

lemma pg_exec_select:
  assumes "pg_exec c (select q) w = (r, w')" "\<not> c_tx c"
  shows "w_db w' = w_db w \<and> w_tx w' = w_tx w \<and>
    (r = q (w_pg w) (es_dbnow (w_env w (w_tick w))) (w_db w) \<or> (\<exists>e. r = Inl (io_goerr e)))"
  using pg_exec_auto [OF assms] by (auto simp: select_def)

lemma pg_exec_select_frame:
  assumes "pg_exec c (select q) w = (r, w')" "\<not> c_tx c"
  shows "w' = w\<lparr>w_tick := Suc (w_tick w)\<rparr>"
  using assms by (auto simp: pg_exec_def select_def env_call_def env_next_def split: fault.splits)

lemma keeps_frame_begin: "begin_tx w = (r, w') \<Longrightarrow> pg_frame w' = pg_frame w"
  by (auto simp: begin_tx_def env_next_def split: fault.splits)

lemma drop_tx_frame [simp]: "pg_frame (drop_tx w) = pg_frame w"
  by (simp add: drop_tx_def split: option.splits prod.splits)

lemma commit_tx_frame: "commit_tx w = (r, w') \<Longrightarrow> pg_frame w' = pg_frame w"
  by (auto simp: commit_tx_def env_next_def Let_def split: fault.splits option.splits)

lemma keeps_within_frame [keeps_intro]:
  assumes "\<And>c'. keeps (\<lambda>w. pg_frame w = X) (f c')"
  shows "keeps (\<lambda>w. pg_frame w = X) (withinTransaction c (Some f))"
proof (rule keepsI)
  fix w r w' assume P: "pg_frame w = X" and run: "withinTransaction c (Some f) w = (r, w')"
  have roll: "pg_frame (rollback_tx v) = pg_frame v" for v
    by (simp add: rollback_tx_def env_next_def)
  show "pg_frame w' = X"
  proof (cases "c_tx c")
    case True
    with run P keepsD [OF assms] show ?thesis by (auto simp: withinTransaction_def)
  next
    case False
    obtain r1 w1 where b: "begin_tx w = (r1, w1)" by fastforce
    obtain r2 w2 where body: "f (c\<lparr>c_tx := True\<rparr>) w1 = (r2, w2)" by fastforce
    obtain r3 w3 where com: "commit_tx w2 = (r3, w3)" by fastforce
    have "pg_frame w1 = X" using keeps_frame_begin [OF b] P by simp
    with keepsD [OF assms _ body] have "pg_frame w2 = X" by simp
    with \<open>pg_frame w1 = X\<close> commit_tx_frame [OF com] roll [of w2] run False b body com
    show ?thesis by (auto simp: withinTransaction_def split: sum.splits)
  qed
qed

lemma within_nested: "c_tx c \<Longrightarrow> withinTransaction c (Some f) = f c"
  by (rule ext) (simp add: withinTransaction_def)

text \<open>
  The outcomes of a transaction: nothing happened (but for the sequence), or the body ran to
  its end on a copy of the state at the start and the copy has become the state. In the second
  case an error may still be reported, when the answer to \<open>COMMIT\<close> was lost.
\<close>

definition tx_body_ran :: "(world, 'a) op \<Rightarrow> world \<Rightarrow> 'a \<Rightarrow> database \<Rightarrow> bool" where
  "tx_body_ran f w a d \<longleftrightarrow>
     (\<exists>w1 w2 t. f w1 = (Inr a, w2) \<and> w_tx w1 = Some (w_db w, t) \<and> w_tx w2 = Some (d, t) \<and>
       w_pg w1 = w_pg w \<and> w_env w1 = w_env w \<and> w_db w1 = w_db w)"

definition tx_body_failed :: "(world, 'a) op \<Rightarrow> world \<Rightarrow> goerr \<Rightarrow> bool" where
  "tx_body_failed f w e \<longleftrightarrow>
     (\<exists>w1 w2 t. f w1 = (Inl e, w2) \<and> w_tx w1 = Some (w_db w, t) \<and> w_pg w1 = w_pg w)"

lemma withinTransaction_outcomes:
  assumes run: "withinTransaction c (Some f) w = (r, w')" and "\<not> c_tx c" "w_tx w = None"
    and local: "\<And>D T. keeps (local_to D T) (f (c\<lparr>c_tx := True\<rparr>))"
  shows "w_tx w' = None"
    and "(\<exists>e q. r = Inl e \<and> w_db w' = (w_db w)\<lparr>db_taskseq := q\<rparr> \<and>
        (tx_body_failed (f (c\<lparr>c_tx := True\<rparr>)) w e \<or> (\<exists>m x. e = classify m (io_goerr x)))) \<or>
      (\<exists>a. tx_body_ran (f (c\<lparr>c_tx := True\<rparr>)) w a (w_db w') \<and>
        (r = Inr a \<or> (\<exists>m x. r = Inl (classify m (io_goerr x)))))"
proof -
  let ?f = "f (c\<lparr>c_tx := True\<rparr>)"
  have self: "\<exists>q. w_db w = (w_db w)\<lparr>db_taskseq := q\<rparr>" by (rule exI [of _ "db_taskseq (w_db w)"]) simp
  obtain r1 w1 where b: "begin_tx w = (r1, w1)" by fastforce
  have "w_tx w' = None \<and> ((\<exists>e q. r = Inl e \<and> w_db w' = (w_db w)\<lparr>db_taskseq := q\<rparr> \<and>
        (tx_body_failed ?f w e \<or> (\<exists>m x. e = classify m (io_goerr x)))) \<or>
      (\<exists>a. tx_body_ran ?f w a (w_db w') \<and> (r = Inr a \<or> (\<exists>m x. r = Inl (classify m (io_goerr x))))))"
  proof (cases r1)
    case (Inl e)
    with b obtain x where "e = io_goerr x" "w_db w1 = w_db w" "w_tx w1 = w_tx w"
      by (auto simp: begin_tx_def env_next_def split: fault.splits)
    with run b assms(2,3) self Inl show ?thesis by (auto simp: withinTransaction_def)
  next
    case (Inr u)
    then obtain t where w1: "w_tx w1 = Some (w_db w, t)" "w_db w1 = w_db w" "w_pg w1 = w_pg w"
      "w_env w1 = w_env w"
      using b by (auto simp: begin_tx_def env_next_def split: fault.splits)
    obtain r2 w2 where body: "?f w1 = (r2, w2)" by fastforce
    have "local_to (w_db w) t w2" using keepsD [OF local _ body] w1 by (simp add: local_to_def)
    then obtain d where w2: "w_db w2 = w_db w" "w_tx w2 = Some (d, t)" by (auto simp: local_to_def)
    have drop: "w_tx (drop_tx v) = None \<and> (\<exists>q. w_db (drop_tx v) = (w_db w)\<lparr>db_taskseq := q\<rparr>)"
      if "w_db v = w_db w" "w_tx v = Some (d, t)" for v
      using that by (auto simp: drop_tx_def)
    show ?thesis
    proof (cases r2)
      case (Inl e)
      then have "tx_body_failed ?f w e"
        unfolding tx_body_failed_def using body w1 by blast
      with run b Inr body Inl assms(2) drop [of "snd (env_next w2)"] w2 show ?thesis
        by (auto simp: withinTransaction_def rollback_tx_def env_next_def)
    next
      case r2: (Inr a)
      then have ran: "tx_body_ran ?f w a d"
        unfolding tx_body_ran_def using body w1 w2 by blast
      obtain r3 w3 where com: "commit_tx w2 = (r3, w3)" by fastforce
      have w3: "w_tx w3 = None \<and> (r3 = Inr () \<and> w_db w3 = d \<or> (\<exists>x. r3 = Inl (io_goerr x)) \<and>
          (w_db w3 = d \<or> (\<exists>q. w_db w3 = (w_db w)\<lparr>db_taskseq := q\<rparr>)))"
        using com w2 drop [of "w2\<lparr>w_tick := Suc (w_tick w2)\<rparr>"]
        by (auto simp: commit_tx_def env_next_def Let_def split: fault.splits)
      have end': "w' = w3" "r = (case r3 of Inl e \<Rightarrow> Inl (classify ''commit transaction'' e) | Inr u \<Rightarrow> Inr a)"
        using run b Inr body r2 com assms(2) by (auto simp: withinTransaction_def split: sum.splits)
      consider "r = Inr a" "w_db w' = d" | x where "r = Inl (classify ''commit transaction'' (io_goerr x))"
          "w_db w' = d" | x q where "r = Inl (classify ''commit transaction'' (io_goerr x))"
          "w_db w' = (w_db w)\<lparr>db_taskseq := q\<rparr>"
        using w3 end' by auto
      then show ?thesis using ran w3 end'(1) by cases blast+
    qed
  qed
  then show "w_tx w' = None"
    and "(\<exists>e q. r = Inl e \<and> w_db w' = (w_db w)\<lparr>db_taskseq := q\<rparr> \<and>
        (tx_body_failed ?f w e \<or> (\<exists>m x. e = classify m (io_goerr x)))) \<or>
      (\<exists>a. tx_body_ran ?f w a (w_db w') \<and> (r = Inr a \<or> (\<exists>m x. r = Inl (classify m (io_goerr x)))))"
    by blast+
qed

subsection \<open>The schema's constraints\<close>

definition wf_world :: "world \<Rightarrow> bool" where
  "wf_world w \<longleftrightarrow> pg_ok (w_pg w) \<and> wf_db (w_db w) \<and> (\<forall>d t. w_tx w = Some (d, t) \<longrightarrow>
     wf_db d \<and> db_taskseq (w_db w) \<le> db_taskseq d)"

text \<open>A statement respects the constraints and never turns the sequence back.\<close>

definition stmt_wf :: "'a statement \<Rightarrow> bool" where
  "stmt_wf f \<longleftrightarrow> (\<forall>p t d r d'. pg_ok p \<longrightarrow> wf_db d \<longrightarrow> f p t d = (r, d') \<longrightarrow> wf_db d' \<and> db_taskseq d \<le> db_taskseq d')"

lemma stmt_wfI:
  "(\<And>p t d r d'. pg_ok p \<Longrightarrow> wf_db d \<Longrightarrow> f p t d = (r, d') \<Longrightarrow> wf_db d' \<and> db_taskseq d \<le> db_taskseq d') \<Longrightarrow> stmt_wf f"
  unfolding stmt_wf_def by blast

lemma stmt_wf_select [intro]: "stmt_wf (select q)"
  by (rule stmt_wfI) (simp add: select_def)

lemma wf_world_tick [simp]: "wf_world (w\<lparr>w_tick := t\<rparr>) = wf_world w"
  by (simp add: wf_world_def)

lemma wf_db_taskseq: "wf_db d \<Longrightarrow> db_taskseq d \<le> q \<Longrightarrow> wf_db (d\<lparr>db_taskseq := q\<rparr>)"
  by (auto simp: wf_db_def wf_users_def wf_sessions_def wf_documents_def wf_tasks_def user_ids_def
      list_all_iff session_row_ok_def)

lemma wf_world_drop: "wf_world w \<Longrightarrow> wf_world (drop_tx w)"
  by (auto simp: wf_world_def drop_tx_def wf_db_taskseq split: option.splits)

lemma wf_world_commit: "wf_world w \<Longrightarrow> commit_tx w = (r, w') \<Longrightarrow> wf_world w'"
  using wf_world_drop [of "w\<lparr>w_tick := Suc (w_tick w)\<rparr>"]
  by (auto simp: commit_tx_def env_next_def Let_def wf_world_def split: fault.splits option.splits)

lemma wf_world_begin: "wf_world w \<Longrightarrow> begin_tx w = (r, w') \<Longrightarrow> wf_world w'"
  by (auto simp: begin_tx_def env_next_def wf_world_def split: fault.splits)

text \<open>
  Inside a transaction the committed state waits, so a body is judged by what it does to the
  copy; outside, \<open>w_tx\<close> is empty.
\<close>

definition wf_in :: "bool \<Rightarrow> world \<Rightarrow> bool" where
  "wf_in tx w \<longleftrightarrow> wf_world w \<and> (w_tx w \<noteq> None \<longleftrightarrow> tx)"

lemma keeps_pg_exec_wf [keeps_intro]:
  assumes "stmt_wf f"
  shows "keeps (wf_in (c_tx c)) (pg_exec c f)"
  unfolding pg_exec_def
proof (intro keeps_env_call keepsI)
  fix s w r w'
  assume "wf_in (c_tx c) w" and "(if c_tx c then case w_tx w of None \<Rightarrow> (Inl (Opaque ''tx is closed''), w)
      | Some (d, t) \<Rightarrow> let (r, d') = f (w_pg w) t d in (r, w\<lparr>w_tx := Some (d', t)\<rparr>)
    else let (r, d') = f (w_pg w) (es_dbnow s) (w_db w) in (r, w\<lparr>w_db := d'\<rparr>)) = (r, w')"
  then show "wf_in (c_tx c) w'"
    using assms unfolding stmt_wf_def
    by (fastforce simp: wf_in_def wf_world_def split: if_splits option.splits prod.splits)
qed (simp add: wf_in_def)

lemma keeps_within_wf [keeps_intro]:
  assumes "keeps (wf_in True) (f (c\<lparr>c_tx := True\<rparr>))" "c_tx c \<Longrightarrow> keeps (wf_in True) (f c)"
  shows "keeps (wf_in (c_tx c)) (withinTransaction c (Some f))"
proof (cases "c_tx c")
  case True
  with assms show ?thesis by (simp add: within_nested)
next
  case False
  show ?thesis
  proof (rule keepsI)
    fix w r w' assume P: "wf_in (c_tx c) w" and run: "withinTransaction c (Some f) w = (r, w')"
    obtain r1 w1 where b: "begin_tx w = (r1, w1)" by fastforce
    obtain r2 w2 where body: "f (c\<lparr>c_tx := True\<rparr>) w1 = (r2, w2)" by fastforce
    obtain r3 w3 where com: "commit_tx w2 = (r3, w3)" by fastforce
    have none: "w_tx w = None" using P False unfolding wf_in_def by blast
    have w1: "wf_world w1" using wf_world_begin b P by (auto simp: wf_in_def)
    have tx1: "w_tx w1 \<noteq> None" if "r1 = Inr u" for u
      using b that by (auto simp: begin_tx_def env_next_def split: fault.splits)
    have fail1: "w_tx w1 = None" if "r1 = Inl e" for e
      using b that none by (auto simp: begin_tx_def env_next_def split: fault.splits)
    show "wf_in (c_tx c) w'"
    proof (cases r1)
      case (Inl e)
      with run False b w1 fail1 show ?thesis by (auto simp: withinTransaction_def wf_in_def)
    next
      case (Inr u)
      with w1 tx1 have "wf_in True w1" by (simp add: wf_in_def)
      with keepsD [OF assms(1) _ body] have w2: "wf_in True w2" by blast
      have roll: "wf_in False (rollback_tx w2)"
        using w2 wf_world_drop [of "w2\<lparr>w_tick := Suc (w_tick w2)\<rparr>"]
        by (auto simp: wf_in_def rollback_tx_def env_next_def drop_tx_def split: option.splits)
      have "w_tx w3 = None" using com w2
        by (auto simp: commit_tx_def env_next_def Let_def drop_tx_def wf_in_def
            split: fault.splits option.splits)
      with wf_world_commit [OF _ com] w2 have "wf_in False w3" by (simp add: wf_in_def)
      with run False b Inr body com roll show ?thesis
        by (auto simp: withinTransaction_def split: sum.splits)
    qed
  qed
qed

lemma keeps_uuid_wf [keeps_intro]: "keeps (wf_in tx) uuid_NewString"
  unfolding uuid_NewString_def by (intro keeps_intro) (simp_all add: wf_in_def)

lemma keeps_uuid_frame [keeps_intro]: "keeps (\<lambda>w. pg_frame w = X) uuid_NewString"
  unfolding uuid_NewString_def by (intro keeps_intro) simp_all

lemma uuid_NewString_spec:
  assumes "uuid_NewString w = (r, w')"
  shows "\<exists>t. w' = w\<lparr>w_tick := t\<rparr>" and "r = Inr u \<Longrightarrow> uuid_canonical u"
  using assms
  by (auto simp: uuid_NewString_def and_then_def map_err_def rand_Read_def env_call_def env_next_def
      uuid_v4_wf split: fault.splits sum.splits prod.splits)

end
