(* ===== verification/PgUsers.thy ===== *)
theory PgUsers
  imports PgStore Ports
begin

text \<open>
  \<open>internal/repository/postgres/users.go\<close>: the user repository and its statements on the
  table \<open>users\<close>, and the proof that it meets the contract of \<open>user_port\<close>.
\<close>

subsection \<open>Statements\<close>

definition user_of_row :: "user_row \<Rightarrow> user" where
  "user_of_row r = \<lparr>u_ID = ru_id r, u_Login = ru_login r, u_CreatedAt = ru_created r\<rparr>"

definition insert_user :: "string \<Rightarrow> string \<Rightarrow> bytes \<Rightarrow> user statement" where
  "insert_user i login hash p now d =
     (case sum_bind (uuid_param p i) (\<lambda>u. sum_bind (text_param p login) (\<lambda>l. Inr (u, l))) of
        Inl e \<Rightarrow> (Inl e, d)
      | Inr (u, l) \<Rightarrow>
          if l = [] then (Inl (PgError ''23514''), d)
          else if u \<in> user_ids d \<or> l \<in> set (map ru_login (db_users d))
          then (Inl (PgError ''23505''), d)
          else
            let row = \<lparr>ru_id = u, ru_login = l, ru_hash = hash, ru_created = pg_seconds now\<rparr>
            in (Inr (user_of_row row), d\<lparr>db_users := db_users d @ [row]\<rparr>))"

definition find_user :: "string \<Rightarrow> database \<Rightarrow> user_row option" where
  "find_user login d = find (\<lambda>r. ru_login r = login) (db_users d)"

definition select_user :: "string \<Rightarrow> (user \<times> bytes) statement" where
  "select_user login = select (\<lambda>p now d.
     sum_bind (text_param p login) (\<lambda>l.
       case find_user l d of
         None \<Rightarrow> Inl (Sentinel PgxErrNoRows)
       | Some r \<Rightarrow> Inr (user_of_row r, ru_hash r)))"

definition select_logins :: "string list \<Rightarrow> string list statement" where
  "select_logins logins = select (\<lambda>p now d.
     sum_bind (texts_param p logins) (\<lambda>ls.
       Inr (sort_by (pg_collate p) (filter (\<lambda>l. l \<in> set ls) (map ru_login (db_users d))))))"

subsection \<open>The repository\<close>

definition pg_CreateUser :: "ctx \<Rightarrow> string \<Rightarrow> bytes \<Rightarrow> (world, user) op" where
  "pg_CreateUser c login passwordHash =
     (if login = [] \<or> passwordHash = []
      then fail (Wrapped ''create user'' (Sentinel RepoErrInvalidArgument))
      else and_then uuid_NewString (\<lambda>i.
        map_err (classify ''create user'') (pg_exec c (insert_user i login passwordHash))))"

definition pg_ByLogin :: "ctx \<Rightarrow> string \<Rightarrow> (world, user \<times> bytes) op" where
  "pg_ByLogin c login = map_err (classify ''find user by login'') (pg_exec c (select_user login))"

definition pg_ExistingLogins :: "ctx \<Rightarrow> string list \<Rightarrow> (world, string list) op" where
  "pg_ExistingLogins c logins =
     (if logins = [] then ret []
      else map_err (classify ''find existing logins'') (pg_exec c (select_logins logins)))"

definition pg_users :: "world user_repository" where
  "pg_users = \<lparr>ur_Create = pg_CreateUser, ur_ByLogin = pg_ByLogin,
     ur_ExistingLogins = pg_ExistingLogins\<rparr>"

subsection \<open>The statements respect the schema\<close>

lemma user_ids_append: "user_ids (d\<lparr>db_users := db_users d @ rs\<rparr>) = user_ids d \<union> set (map ru_id rs)"
  by (simp add: user_ids_def)

lemma uuid_param_canonical: "pg_ok p \<Longrightarrow> uuid_param p s = Inr u \<Longrightarrow> uuid_canonical u"
  by (auto simp: uuid_param_def pg_ok_def split: option.splits)

lemma stmt_wf_insert_user [intro]: "stmt_wf (insert_user i l h)"
proof (rule stmt_wfI)
  fix p t d r d'
  assume p: "pg_ok p" and wf: "wf_db d" and run: "insert_user i l h p t d = (r, d')"
  show "wf_db d' \<and> db_taskseq d \<le> db_taskseq d'"
  proof (cases "d' = d")
    case False
    with run obtain u where "uuid_param p i = Inr u" and l: "l \<noteq> []" "u \<notin> user_ids d"
      "l \<notin> set (map ru_login (db_users d))"
      and d': "d' = d\<lparr>db_users := db_users d @ [\<lparr>ru_id = u, ru_login = l, ru_hash = h,
          ru_created = pg_seconds t\<rparr>]\<rparr>"
      by (auto simp: insert_user_def sum_bind_def text_param_def Let_def split: sum.splits if_splits)
    moreover from this p have "uuid_canonical u" by (simp add: uuid_param_canonical)
    ultimately show ?thesis using wf
      by (auto simp: wf_db_def wf_users_def wf_sessions_def wf_documents_def wf_tasks_def
          user_ids_append session_row_ok_def list_all_iff) (auto simp: user_ids_def)
  qed (use wf in simp)
qed

lemma stmt_wf_selects [intro]: "stmt_wf (select_user l)" "stmt_wf (select_logins ls)"
  by (auto simp: select_user_def select_logins_def)

lemma keeps_CreateUser [keeps_intro]: "keeps (wf_in (c_tx c)) (pg_CreateUser c l h)"
  unfolding pg_CreateUser_def by (intro keeps_intro) auto

lemma keeps_ByLogin [keeps_intro]: "keeps (wf_in (c_tx c)) (pg_ByLogin c l)"
  unfolding pg_ByLogin_def by (intro keeps_intro) auto

lemma keeps_ExistingLogins [keeps_intro]: "keeps (wf_in (c_tx c)) (pg_ExistingLogins c ls)"
  unfolding pg_ExistingLogins_def by (intro keeps_intro) auto

lemma keeps_users_frame [keeps_intro]:
  "keeps (\<lambda>w. pg_frame w = X) (pg_CreateUser c l h)" "keeps (\<lambda>w. pg_frame w = X) (pg_ByLogin c l)"
  "keeps (\<lambda>w. pg_frame w = X) (pg_ExistingLogins c ls)"
  unfolding pg_CreateUser_def pg_ByLogin_def pg_ExistingLogins_def by (intro keeps_intro)+

subsection \<open>The contract\<close>

definition pg_accounts :: "world \<Rightarrow> string \<Rightarrow> (user \<times> bytes) option" where
  "pg_accounts w l = map_option (\<lambda>r. (user_of_row r, ru_hash r)) (find_user l (w_db w))"

lemma find_user_Some: "find_user l d = Some r \<Longrightarrow> r \<in> set (db_users d) \<and> ru_login r = l"
  by (auto simp: find_user_def find_Some_iff)

lemma find_user_None: "find_user l d = None \<longleftrightarrow> l \<notin> set (map ru_login (db_users d))"
  by (auto simp: find_user_def find_None_iff)

lemma find_user_append:
  "find_user l (d\<lparr>db_users := db_users d @ [r]\<rparr>) =
     (case find_user l d of Some q \<Rightarrow> Some q | None \<Rightarrow> if ru_login r = l then Some r else None)"
  by (simp add: find_user_def find_append split: option.split)

lemma pg_accounts_cong: "db_users (w_db w') = db_users (w_db w) \<Longrightarrow> pg_accounts w' = pg_accounts w"
  by (simp add: pg_accounts_def find_user_def fun_eq_iff)

lemma insert_user_effect:
  assumes "insert_user i l h p t d = (r, d')"
  shows "(\<exists>e. r = Inl e) \<and> d' = d \<or>
    (\<exists>row. r = Inr (user_of_row row) \<and> ru_login row = l \<and> ru_hash row = h \<and> find_user l d = None \<and>
      d' = d\<lparr>db_users := db_users d @ [row]\<rparr>)"
proof (cases r)
  case (Inl e)
  with assms show ?thesis
    by (auto simp: insert_user_def Let_def split: sum.splits if_splits)
next
  case (Inr u)
  with assms show ?thesis
    by (auto simp: insert_user_def sum_bind_def text_param_def Let_def find_user_None
        split: sum.splits if_splits)
qed

lemma pg_CreateUser_effect:
  assumes "pg_CreateUser c l h w = (r, w')" "\<not> c_tx c"
  shows "(\<exists>e. r = Inl e) \<and> w_db w' = w_db w \<or>
    (\<exists>row. (r = Inr (user_of_row row) \<or> (\<exists>e. r = Inl e)) \<and> ru_login row = l \<and> ru_hash row = h \<and>
      find_user l (w_db w) = None \<and> w_db w' = (w_db w)\<lparr>db_users := db_users (w_db w) @ [row]\<rparr>)"
proof (cases "l = [] \<or> h = []")
  case True
  with assms show ?thesis by (auto simp: pg_CreateUser_def)
next
  case False
  obtain r1 w1 where u: "uuid_NewString w = (r1, w1)" by fastforce
  then have w1: "w_db w1 = w_db w" using uuid_NewString_spec(1) by fastforce
  show ?thesis
  proof (cases r1)
    case (Inl e)
    with assms False u w1 show ?thesis by (auto simp: pg_CreateUser_def)
  next
    case (Inr i)
    obtain r2 w2 where ex: "pg_exec c (insert_user i l h) w1 = (r2, w2)" by fastforce
    obtain r' d' where st: "insert_user i l h (w_pg w1) (es_dbnow (w_env w1 (w_tick w1))) (w_db w1) = (r', d')"
      and res: "r2 = r' \<and> w_db w2 = d' \<or> (\<exists>e. r2 = Inl (io_goerr e)) \<and> (w_db w2 = w_db w1 \<or> w_db w2 = d')"
      using pg_exec_auto [OF ex assms(2)] by blast
    have "r = (case r2 of Inl e \<Rightarrow> Inl (classify ''create user'' e) | Inr u \<Rightarrow> Inr u)" "w' = w2"
      using assms(1) False u Inr ex by (auto simp: pg_CreateUser_def map_err_def split: sum.splits)
    with res insert_user_effect [OF st] w1 show ?thesis by fastforce
  qed
qed

lemma wf_in_distinct_logins: "wf_in tx w \<Longrightarrow> distinct (map ru_login (db_users (w_db w)))"
  by (simp add: wf_in_def wf_world_def wf_db_def wf_users_def)

lemma find_user_iff:
  "distinct (map ru_login (db_users d)) \<Longrightarrow>
   find_user l d = Some r \<longleftrightarrow> r \<in> set (db_users d) \<and> ru_login r = l"
  unfolding find_user_def by (rule find_unique)

lemma pg_ByLogin_effect:
  assumes "pg_ByLogin c l w = (r, w')" "\<not> c_tx c"
  shows "w_db w' = w_db w"
    and "r = Inr a \<Longrightarrow> pg_accounts w l = Some a"
    and "r = Inl e \<Longrightarrow> errors_Is e RepoErrNotFound \<Longrightarrow> pg_accounts w l = None"
proof -
  obtain r1 w1 where ex: "pg_exec c (select_user l) w = (r1, w1)" by fastforce
  note sel = pg_exec_select [OF ex [unfolded select_user_def] assms(2)]
  have rw: "r = (case r1 of Inl e \<Rightarrow> Inl (classify ''find user by login'' e) | Inr a \<Rightarrow> Inr a)" "w' = w1"
    using assms(1) ex by (auto simp: pg_ByLogin_def map_err_def split: sum.splits)
  show "w_db w' = w_db w" using sel rw by simp
  show "r = Inr a \<Longrightarrow> pg_accounts w l = Some a"
    using sel rw by (auto simp: pg_accounts_def sum_bind_def text_param_def
        split: sum.splits option.splits if_splits)
  show "r = Inl e \<Longrightarrow> errors_Is e RepoErrNotFound \<Longrightarrow> pg_accounts w l = None"
    using sel rw
    by (auto simp: pg_accounts_def sum_bind_def text_param_def dest: classify_io
        split: sum.splits option.splits if_splits)
qed

lemma pg_ExistingLogins_effect:
  assumes "pg_ExistingLogins c ls w = (r, w')" "\<not> c_tx c"
  shows "w_db w' = w_db w"
    and "r = Inr found \<Longrightarrow> set found = {l \<in> set ls. pg_accounts w l \<noteq> None}"
    and "r = Inr found \<Longrightarrow> distinct (map ru_login (db_users (w_db w))) \<Longrightarrow> distinct found"
proof -
  have "w_db w' = w_db w \<and> (\<forall>found. r = Inr found \<longrightarrow>
      set found = {l \<in> set ls. pg_accounts w l \<noteq> None} \<and>
      (distinct (map ru_login (db_users (w_db w))) \<longrightarrow> distinct found))"
  proof (cases "ls = []")
    case True
    with assms show ?thesis by (auto simp: pg_ExistingLogins_def)
  next
    case False
    obtain r1 w1 where ex: "pg_exec c (select_logins ls) w = (r1, w1)" by fastforce
    note sel = pg_exec_select [OF ex [unfolded select_logins_def] assms(2)]
    have rw: "r = (case r1 of Inl e \<Rightarrow> Inl (classify ''find existing logins'' e) | Inr a \<Rightarrow> Inr a)" "w' = w1"
      using assms(1) ex False by (auto simp: pg_ExistingLogins_def map_err_def split: sum.splits)
    have dist: "distinct (sort_by le (filter P (map ru_login us)))"
      if "distinct (map ru_login us)" for le P us
      using that by (metis distinct_filter mset_eq_imp_distinct_iff mset_sort_by)
    have acc: "pg_accounts w l \<noteq> None \<longleftrightarrow> l \<in> set (map ru_login (db_users (w_db w)))" for l
      using find_user_None [of l "w_db w"] by (auto simp: pg_accounts_def)
    show ?thesis
      using sel rw dist unfolding acc
      by (auto simp: sum_bind_def split: sum.splits if_splits)
  qed
  then show "w_db w' = w_db w"
    and "r = Inr found \<Longrightarrow> set found = {l \<in> set ls. pg_accounts w l \<noteq> None}"
    and "r = Inr found \<Longrightarrow> distinct (map ru_login (db_users (w_db w))) \<Longrightarrow> distinct found"
    by blast+
qed

lemma pg_accounts_append:
  "find_user (ru_login row) (w_db w) = None \<Longrightarrow>
   w_db w' = (w_db w)\<lparr>db_users := db_users (w_db w) @ [row]\<rparr> \<Longrightarrow>
   pg_accounts w' = (pg_accounts w)(ru_login row \<mapsto> (user_of_row row, ru_hash row))"
  by (auto simp: pg_accounts_def find_user_append fun_eq_iff split: option.splits)

text \<open>The laws of \<open>user_port\<close>, one by one.\<close>

lemma pg_user_ucreate_inv:
  assumes a: "wf_in False w" "\<not> c_tx c" "ur_Create pg_users c l h w = (r, w')"
  shows "wf_in False w'"
  using a keepsD [OF keeps_CreateUser [of c l h]]
  by (simp add: pg_users_def)

lemma pg_user_ulogin_keeps:
  fixes r :: "goerr + user \<times> bytes"
  assumes a: "wf_in False w" "\<not> c_tx c" "ur_ByLogin pg_users c l w = (r, w')"
  shows "wf_in False w' \<and> pg_accounts w' = pg_accounts w"
  using a keepsD [OF keeps_ByLogin [of c l]] pg_ByLogin_effect(1)
  by (simp add: pg_users_def) (metis pg_accounts_cong)

lemma pg_user_uexist_keeps:
  fixes r :: "goerr + string list"
  assumes a: "wf_in False w" "\<not> c_tx c" "ur_ExistingLogins pg_users c ls w = (r, w')"
  shows "wf_in False w' \<and> pg_accounts w' = pg_accounts w"
  using a keepsD [OF keeps_ExistingLogins [of c ls]] pg_ExistingLogins_effect(1)
  by (simp add: pg_users_def) (metis pg_accounts_cong)

lemma pg_user_ucreate_ok:
  assumes a: "wf_in False w" "\<not> c_tx c" "ur_Create pg_users c l h w = (Inr u, w')"
  shows "pg_accounts w l = None \<and> u_Login u = l \<and> pg_accounts w' = (pg_accounts w)(l \<mapsto> (u, h))"
  using a pg_CreateUser_effect [of c l h w "Inr u" w'] pg_accounts_append [of _ w w']
  by (auto simp: pg_users_def pg_accounts_def [of w] user_of_row_def)

lemma pg_user_ucreate_err:
  assumes a: "wf_in False w" "\<not> c_tx c" "ur_Create pg_users c l h w = (Inl e, w')"
  shows "pg_accounts w' = pg_accounts w \<or> pg_accounts w l = None \<and>
    (\<exists>u. u_Login u = l \<and> pg_accounts w' = (pg_accounts w)(l \<mapsto> (u, h)))"
proof -
  from a consider "w_db w' = w_db w" | row where "ru_login row = l" "ru_hash row = h"
      "find_user l (w_db w) = None" "w_db w' = (w_db w)\<lparr>db_users := db_users (w_db w) @ [row]\<rparr>"
    using pg_CreateUser_effect [of c l h w "Inl e" w'] by (auto simp: pg_users_def)
  then show ?thesis
  proof cases
    case 1
    then show ?thesis using pg_accounts_cong [of w' w] by simp
  next
    case 2
    then have "pg_accounts w' = (pg_accounts w)(l \<mapsto> (user_of_row row, h))"
      using pg_accounts_append [of row w w'] by simp
    moreover have "pg_accounts w l = None" "u_Login (user_of_row row) = l"
      using 2 by (simp_all add: pg_accounts_def user_of_row_def)
    ultimately show ?thesis by blast
  qed
qed

lemma pg_user_ulogin_ok:
  assumes a: "wf_in False w" "\<not> c_tx c" "ur_ByLogin pg_users c l w = (Inr (u, h), w')"
  shows "pg_accounts w l = Some (u, h)"
  using a pg_ByLogin_effect(2)
  by (simp add: pg_users_def)

lemma pg_user_ulogin_not_found:
  assumes a: "wf_in False w" "\<not> c_tx c" "ur_ByLogin pg_users c l w = (Inl e, w')" "errors_Is e RepoErrNotFound"
  shows "pg_accounts w l = None"
  using a pg_ByLogin_effect(3)
  by (simp add: pg_users_def)

lemma pg_user_uexist_ok:
  assumes a: "wf_in False w" "\<not> c_tx c" "ur_ExistingLogins pg_users c ls w = (Inr found, w')"
  shows "distinct found \<and> set found = {l \<in> set ls. pg_accounts w l \<noteq> None}"
  using a pg_ExistingLogins_effect(2,3) wf_in_distinct_logins
  by (simp add: pg_users_def)

lemma pg_user_accounts_login:
  assumes a: "pg_accounts w l = Some (u, h)"
  shows "u_Login u = l"
  using a find_user_Some
  by (auto simp: pg_accounts_def user_of_row_def)

lemmas pg_user_laws =
  pg_user_ucreate_inv pg_user_ulogin_keeps pg_user_uexist_keeps pg_user_ucreate_ok pg_user_ucreate_err
  pg_user_ulogin_ok pg_user_ulogin_not_found pg_user_uexist_ok pg_user_accounts_login

interpretation pg_user_port: user_port pg_users "wf_in False" pg_accounts
  by unfold_locales (rule pg_user_laws; assumption)+

end
