(* ===== verification/PgSessions.thy ===== *)
theory PgSessions
  imports PgUsers
begin

text \<open>
  \<open>internal/repository/postgres/sessions.go\<close>: the session repository on the table
  \<open>sessions\<close>, and the proof that it meets the contract of \<open>session_port\<close>.
\<close>

subsection \<open>Statements\<close>

definition session_of_row :: "session_row \<Rightarrow> session" where
  "session_of_row r = \<lparr>s_ID = rs_id r, s_UserID = rs_user r, s_TokenHash = rs_hash r,
     s_CreatedAt = rs_created r, s_ExpiresAt = rs_expires r, s_RevokedAt = rs_revoked r\<rparr>"

definition insert_session :: "string \<Rightarrow> string \<Rightarrow> bytes \<Rightarrow> time \<Rightarrow> session statement" where
  "insert_session i userID hash expiresAt p now d =
     (case sum_bind (uuid_param p i) (\<lambda>k. sum_bind (uuid_param p userID) (\<lambda>u. Inr (k, u))) of
        Inl e \<Rightarrow> (Inl e, d)
      | Inr (k, u) \<Rightarrow>
          let row = \<lparr>rs_id = k, rs_user = u, rs_hash = hash, rs_created = pg_seconds now,
                     rs_expires = pg_micros expiresAt, rs_revoked = None\<rparr>
          in if \<not> rs_created row < rs_expires row then (Inl (PgError ''23514''), d)
             else if k \<in> set (map rs_id (db_sessions d)) \<or> hash \<in> set (map rs_hash (db_sessions d))
             then (Inl (PgError ''23505''), d)
             else if u \<notin> user_ids d then (Inl (PgError ''23503''), d)
             else (Inr (session_of_row row), d\<lparr>db_sessions := db_sessions d @ [row]\<rparr>))"

definition find_session :: "bytes \<Rightarrow> database \<Rightarrow> session_row option" where
  "find_session hash d = find (\<lambda>r. rs_hash r = hash) (db_sessions d)"

definition user_by_id :: "string \<Rightarrow> database \<Rightarrow> user_row option" where
  "user_by_id i d = find (\<lambda>r. ru_id r = i) (db_users d)"

definition session_live :: "time \<Rightarrow> session_row \<Rightarrow> bool" where
  "session_live now r \<longleftrightarrow> rs_revoked r = None \<and> now < rs_expires r"

definition select_session :: "bytes \<Rightarrow> time \<Rightarrow> (session \<times> user) statement" where
  "select_session hash now = select (\<lambda>p _ d.
     (case find (\<lambda>r. rs_hash r = hash \<and> session_live (pg_micros now) r \<and>
                     user_by_id (rs_user r) d \<noteq> None) (db_sessions d) of
        None \<Rightarrow> Inl (Sentinel PgxErrNoRows)
      | Some r \<Rightarrow> Inr (session_of_row r, user_of_row (the (user_by_id (rs_user r) d)))))"

text \<open>The number of rows affected is the result of the update.\<close>

definition update_revoked :: "bytes \<Rightarrow> time \<Rightarrow> nat statement" where
  "update_revoked hash now p _ d =
     (let hit = (\<lambda>r. rs_hash r = hash \<and> session_live (pg_micros now) r)
      in (Inr (length (filter hit (db_sessions d))),
          d\<lparr>db_sessions := map (\<lambda>r. if hit r then r\<lparr>rs_revoked := Some (pg_micros now)\<rparr> else r)
              (db_sessions d)\<rparr>))"

subsection \<open>The repository\<close>

definition pg_CreateSession :: "ctx \<Rightarrow> string \<Rightarrow> bytes \<Rightarrow> time \<Rightarrow> (world, session) op" where
  "pg_CreateSession c userID tokenHash expiresAt =
     (if uuid_Parse userID = None \<or> tokenHash = [] \<or> expiresAt = zero_time
      then fail (Wrapped ''create session'' (Sentinel RepoErrInvalidArgument))
      else and_then uuid_NewString (\<lambda>i.
        map_err (classify ''create session'') (pg_exec c (insert_session i userID tokenHash expiresAt))))"

definition pg_ByTokenHash :: "ctx \<Rightarrow> bytes \<Rightarrow> time \<Rightarrow> (world, session \<times> user) op" where
  "pg_ByTokenHash c tokenHash now =
     (if tokenHash = [] \<or> now = zero_time
      then fail (Wrapped ''find session'' (Sentinel RepoErrInvalidArgument))
      else map_err (classify ''find session'') (pg_exec c (select_session tokenHash now)))"

definition pg_Revoke :: "ctx \<Rightarrow> bytes \<Rightarrow> time \<Rightarrow> (world, unit) op" where
  "pg_Revoke c tokenHash now =
     (if tokenHash = [] \<or> now = zero_time
      then fail (Wrapped ''revoke session'' (Sentinel RepoErrInvalidArgument))
      else and_then (map_err (classify ''revoke session'') (pg_exec c (update_revoked tokenHash now)))
        (\<lambda>n. if n = 0 then fail (Wrapped ''revoke session'' (Sentinel RepoErrNotFound)) else ret ()))"

definition pg_sessions :: "world session_repository" where
  "pg_sessions = \<lparr>sr_Create = pg_CreateSession, sr_ByTokenHash = pg_ByTokenHash, sr_Revoke = pg_Revoke\<rparr>"

subsection \<open>The statements respect the schema\<close>

lemma stmt_wf_insert_session [intro]: "stmt_wf (insert_session i u h x)"
proof (rule stmt_wfI)
  fix p t d r d'
  assume p: "pg_ok p" and wf: "wf_db d" and run: "insert_session i u h x p t d = (r, d')"
  show "wf_db d' \<and> db_taskseq d \<le> db_taskseq d'"
  proof (cases "d' = d")
    case False
    with run obtain row where "d' = d\<lparr>db_sessions := db_sessions d @ [row]\<rparr>"
      "rs_created row < rs_expires row" "rs_id row \<notin> set (map rs_id (db_sessions d))"
      "rs_hash row \<notin> set (map rs_hash (db_sessions d))" "rs_user row \<in> user_ids d"
      by (auto simp: insert_session_def Let_def split: sum.splits if_splits)
    with wf show ?thesis
      by (auto simp: wf_db_def wf_users_def wf_sessions_def wf_documents_def wf_tasks_def
          user_ids_def session_row_ok_def list_all_iff)
  qed (use wf in simp)
qed

lemma stmt_wf_select_session [intro]: "stmt_wf (select_session h now)"
  by (auto simp: select_session_def)

lemma stmt_wf_update_revoked [intro]: "stmt_wf (update_revoked h now)"
proof (rule stmt_wfI)
  fix p t d r d'
  assume wf: "wf_db d" and run: "update_revoked h now p t d = (r, d')"
  let ?f = "\<lambda>r. if rs_hash r = h \<and> session_live (pg_micros now) r
    then r\<lparr>rs_revoked := Some (pg_micros now)\<rparr> else r"
  have d': "d' = d\<lparr>db_sessions := map ?f (db_sessions d)\<rparr>"
    using run by (simp add: update_revoked_def Let_def)
  have eq: "rs_id \<circ> ?f = rs_id" "rs_hash \<circ> ?f = rs_hash"
    by (simp_all add: fun_eq_iff)
  have "wf_sessions d" using wf by (simp add: wf_db_def)
  then have "wf_sessions d'"
    unfolding d' wf_sessions_def by (auto simp: eq list_all_iff session_row_ok_def)
  with wf show "wf_db d' \<and> db_taskseq d \<le> db_taskseq d'" by (simp add: wf_db_def d')
qed

lemma keeps_sessions_wf [keeps_intro]:
  "keeps (wf_in (c_tx c)) (pg_CreateSession c i h x)" "keeps (wf_in (c_tx c)) (pg_ByTokenHash c h now)"
  "keeps (wf_in (c_tx c)) (pg_Revoke c h now)"
  unfolding pg_CreateSession_def pg_ByTokenHash_def pg_Revoke_def by (intro keeps_intro; auto)+

lemma keeps_sessions_frame [keeps_intro]:
  "keeps (\<lambda>w. pg_frame w = X) (pg_CreateSession c i h x)"
  "keeps (\<lambda>w. pg_frame w = X) (pg_ByTokenHash c h now)"
  "keeps (\<lambda>w. pg_frame w = X) (pg_Revoke c h now)"
  unfolding pg_CreateSession_def pg_ByTokenHash_def pg_Revoke_def by (intro keeps_intro)+

subsection \<open>The contract\<close>

definition pg_session_view :: "world \<Rightarrow> bytes \<Rightarrow> (session \<times> user) option" where
  "pg_session_view w h =
     (case find_session h (w_db w) of
        None \<Rightarrow> None
      | Some r \<Rightarrow> map_option (\<lambda>u. (session_of_row r, user_of_row u)) (user_by_id (rs_user r) (w_db w)))"

lemma wf_in_sessions: "wf_in tx w \<Longrightarrow> wf_sessions (w_db w) \<and> wf_users (w_db w) \<and> pg_ok (w_pg w)"
  by (simp add: wf_in_def wf_world_def wf_db_def)

lemma user_by_id_iff:
  "wf_users d \<Longrightarrow> user_by_id i d = Some u \<longleftrightarrow> u \<in> set (db_users d) \<and> ru_id u = i"
  unfolding user_by_id_def by (rule find_unique [of ru_id]) (auto simp: wf_users_def)

lemma user_by_id_None: "user_by_id i d = None \<longleftrightarrow> i \<notin> user_ids d"
  by (auto simp: user_by_id_def find_None_iff user_ids_def)

lemma find_session_iff:
  "wf_sessions d \<Longrightarrow> find_session h d = Some r \<longleftrightarrow> r \<in> set (db_sessions d) \<and> rs_hash r = h"
  unfolding find_session_def by (rule find_unique [of rs_hash]) (auto simp: wf_sessions_def)

lemma find_session_None: "find_session h d = None \<longleftrightarrow> h \<notin> set (map rs_hash (db_sessions d))"
  by (auto simp: find_session_def find_None_iff)

lemma session_user_exists:
  assumes "wf_sessions d" "find_session h d = Some r"
  shows "\<exists>u. user_by_id (rs_user r) d = Some u"
proof -
  have "r \<in> set (db_sessions d)" using assms find_session_iff by blast
  with assms(1) have "rs_user r \<in> user_ids d" by (auto simp: wf_sessions_def list_all_iff session_row_ok_def)
  then show ?thesis using user_by_id_None [of "rs_user r" d] by auto
qed

text \<open>The query finds the live session of the hash, if there is one.\<close>

lemma select_session_spec:
  assumes "wf_sessions d"
  shows "find (\<lambda>r. rs_hash r = h \<and> session_live now r \<and> user_by_id (rs_user r) d \<noteq> None) (db_sessions d) =
    (case find_session h d of
       None \<Rightarrow> None | Some r \<Rightarrow> if session_live now r then Some r else None)"
proof (cases "find_session h d")
  case None
  then have "find (\<lambda>r. rs_hash r = h \<and> session_live now r \<and> user_by_id (rs_user r) d \<noteq> None)
      (db_sessions d) = None"
    by (auto simp: find_session_None find_None_iff)
  with None show ?thesis by simp
next
  case (Some r)
  then have r: "r \<in> set (db_sessions d)" "rs_hash r = h" using find_session_iff [OF assms] by simp_all
  have dist: "distinct (map rs_hash (db_sessions d))" using assms by (simp add: wf_sessions_def)
  have same: "q = r" if "q \<in> set (db_sessions d)" "rs_hash q = h" for q
    using that r dist by (metis (no_types, lifting) distinct_map inj_onD)
  show ?thesis
  proof (cases "session_live now r")
    case True
    have "find (\<lambda>r. rs_hash r = h \<and> session_live now r \<and> user_by_id (rs_user r) d \<noteq> None)
        (db_sessions d) = Some r"
      by (rule find_unique [OF dist, THEN iffD2]) (use r True session_user_exists [OF assms Some] in auto)
    with Some True show ?thesis by simp
  next
    case False
    with same Some show ?thesis by (auto simp: find_None_iff)
  qed
qed

lemma pg_session_view_cong:
  "db_users (w_db w') = db_users (w_db w) \<Longrightarrow> db_sessions (w_db w') = db_sessions (w_db w) \<Longrightarrow>
   pg_session_view w' = pg_session_view w"
  by (simp only: pg_session_view_def find_session_def user_by_id_def fun_eq_iff simp_thms)

lemma pg_session_view_users:
  assumes "wf_users (w_db w)" "wf_sessions (w_db w)" "pg_CreateUser c l h w = (r, w')" "\<not> c_tx c"
    "wf_users (w_db w')"
  shows "pg_session_view w' = pg_session_view w"
proof -
  consider "w_db w' = w_db w" | row where "w_db w' = (w_db w)\<lparr>db_users := db_users (w_db w) @ [row]\<rparr>"
    using pg_CreateUser_effect [OF assms(3,4)] by blast
  then show ?thesis
  proof cases
    case 1
    then show ?thesis by (intro pg_session_view_cong) simp_all
  next
    case 2
    have "user_by_id (rs_user r) (w_db w') = user_by_id (rs_user r) (w_db w)"
      if found: "find_session k (w_db w) = Some r" for k r
    proof -
      obtain u where "user_by_id (rs_user r) (w_db w) = Some u"
        using session_user_exists [OF assms(2) found] by blast
      then show ?thesis by (simp add: 2 user_by_id_def find_append)
    qed
    then show ?thesis
      by (auto simp: pg_session_view_def fun_eq_iff 2 find_session_def [symmetric] split: option.splits)
        (simp_all add: find_session_def)
  qed
qed

lemma insert_session_effect:
  assumes "insert_session i u h x p t d = (r, d')" "pg_ok p"
  shows "(\<exists>e. r = Inl e) \<and> d' = d \<or>
    (\<exists>row. r = Inr (session_of_row row) \<and> rs_hash row = h \<and> rs_revoked row = None \<and>
      rs_expires row = pg_micros x \<and> (uuid_canonical u \<longrightarrow> rs_user row = u) \<and> find_session h d = None \<and>
      rs_user row \<in> user_ids d \<and> d' = d\<lparr>db_sessions := db_sessions d @ [row]\<rparr>)"
proof (cases r)
  case (Inl e)
  with assms show ?thesis by (auto simp: insert_session_def Let_def split: sum.splits if_splits)
next
  case (Inr s)
  with assms(1) obtain k v where k: "uuid_param p i = Inr k" "uuid_param p u = Inr v"
    "h \<notin> set (map rs_hash (db_sessions d))" "v \<in> user_ids d"
    and res: "s = session_of_row \<lparr>rs_id = k, rs_user = v, rs_hash = h, rs_created = pg_seconds t,
        rs_expires = pg_micros x, rs_revoked = None\<rparr>"
      "d' = d\<lparr>db_sessions := db_sessions d @ [\<lparr>rs_id = k, rs_user = v, rs_hash = h,
        rs_created = pg_seconds t, rs_expires = pg_micros x, rs_revoked = None\<rparr>]\<rparr>"
    by (auto simp: insert_session_def sum_bind_def Let_def split: sum.splits if_splits)
  have "v = u" if "uuid_canonical u"
    using that k(2) assms(2) by (auto simp: uuid_param_def pg_ok_def)
  with Inr k res show ?thesis by (auto simp: find_session_None)
qed

lemma pg_CreateSession_effect:
  assumes "pg_CreateSession c i h x w = (r, w')" "\<not> c_tx c" "pg_ok (w_pg w)"
  shows "(\<exists>e. r = Inl e) \<and> w_db w' = w_db w \<or>
    (\<exists>row. (r = Inr (session_of_row row) \<or> (\<exists>e. r = Inl e)) \<and> rs_hash row = h \<and>
      rs_revoked row = None \<and> rs_expires row = pg_micros x \<and> (uuid_canonical i \<longrightarrow> rs_user row = i) \<and>
      find_session h (w_db w) = None \<and> rs_user row \<in> user_ids (w_db w) \<and>
      w_db w' = (w_db w)\<lparr>db_sessions := db_sessions (w_db w) @ [row]\<rparr>)"
proof (cases "uuid_Parse i = None \<or> h = [] \<or> x = zero_time")
  case True
  with assms show ?thesis by (auto simp: pg_CreateSession_def)
next
  case False
  obtain r1 w1 where u: "uuid_NewString w = (r1, w1)" by fastforce
  then have w1: "w_db w1 = w_db w" "w_pg w1 = w_pg w" using uuid_NewString_spec(1) by fastforce+
  show ?thesis
  proof (cases r1)
    case (Inl e)
    with assms False u w1 show ?thesis by (auto simp: pg_CreateSession_def)
  next
    case (Inr k)
    obtain r2 w2 where ex: "pg_exec c (insert_session k i h x) w1 = (r2, w2)" by fastforce
    obtain r' d' where st: "insert_session k i h x (w_pg w1) (es_dbnow (w_env w1 (w_tick w1))) (w_db w1) = (r', d')"
      and res: "r2 = r' \<and> w_db w2 = d' \<or> (\<exists>e. r2 = Inl (io_goerr e)) \<and> (w_db w2 = w_db w1 \<or> w_db w2 = d')"
      using pg_exec_auto [OF ex assms(2)] by blast
    have eff: "(\<exists>e. r' = Inl e) \<and> d' = w_db w \<or>
      (\<exists>row. r' = Inr (session_of_row row) \<and> rs_hash row = h \<and> rs_revoked row = None \<and>
        rs_expires row = pg_micros x \<and> (uuid_canonical i \<longrightarrow> rs_user row = i) \<and>
        find_session h (w_db w) = None \<and> rs_user row \<in> user_ids (w_db w) \<and>
        d' = (w_db w)\<lparr>db_sessions := db_sessions (w_db w) @ [row]\<rparr>)"
      using insert_session_effect [OF st] assms(3) unfolding w1 by blast
    have "r = (case r2 of Inl e \<Rightarrow> Inl (classify ''create session'' e) | Inr u \<Rightarrow> Inr u)" "w' = w2"
      using assms(1) False u Inr ex by (auto simp: pg_CreateSession_def map_err_def split: sum.splits)
    with res eff w1 show ?thesis by fastforce
  qed
qed

text \<open>A conflict is the statement's own answer, and the statement has then done nothing.\<close>

lemma pg_CreateSession_conflict:
  assumes "pg_CreateSession c i h x w = (Inl e, w')" "\<not> c_tx c" "errors_Is e RepoErrConflict"
    "pg_ok (w_pg w)"
  shows "w_db w' = w_db w"
proof (cases "uuid_Parse i = None \<or> h = [] \<or> x = zero_time")
  case True
  with assms show ?thesis by (auto simp: pg_CreateSession_def)
next
  case False
  obtain r1 w1 where u: "uuid_NewString w = (r1, w1)" by fastforce
  then have w1: "w_db w1 = w_db w" "w_pg w1 = w_pg w" using uuid_NewString_spec(1) by fastforce+
  show ?thesis
  proof (cases r1)
    case (Inl e)
    with assms False u w1 show ?thesis by (auto simp: pg_CreateSession_def)
  next
    case (Inr k)
    obtain r2 w2 where ex: "pg_exec c (insert_session k i h x) w1 = (r2, w2)" by fastforce
    obtain r' d' where st: "insert_session k i h x (w_pg w1) (es_dbnow (w_env w1 (w_tick w1))) (w_db w1) = (r', d')"
      and res: "r2 = r' \<and> w_db w2 = d' \<or> (\<exists>e. r2 = Inl (io_goerr e)) \<and> (w_db w2 = w_db w1 \<or> w_db w2 = d')"
      using pg_exec_auto [OF ex assms(2)] by blast
    have rw: "\<exists>e'. r2 = Inl e' \<and> e = classify ''create session'' e'" "w' = w2"
      using assms(1) False u Inr ex by (auto simp: pg_CreateSession_def map_err_def split: sum.splits)
    then obtain e' where e': "r2 = Inl e'" "e = classify ''create session'' e'" by blast
    have "r2 = r'" "w_db w2 = d'" using res e' assms(3) classify_io by auto
    moreover have "d' = w_db w"
      using insert_session_effect [OF st] e' \<open>r2 = r'\<close> assms(4) w1 by auto
    ultimately show ?thesis using rw by simp
  qed
qed

lemma pg_CreateSession_users:
  assumes "pg_CreateSession c i h x w = (r, w')" "\<not> c_tx c" "pg_ok (w_pg w)"
  shows "db_users (w_db w') = db_users (w_db w)"
  using pg_CreateSession_effect [OF assms]
proof
  assume "\<exists>row. (r = Inr (session_of_row row) \<or> (\<exists>e. r = Inl e)) \<and> rs_hash row = h \<and>
      rs_revoked row = None \<and> rs_expires row = pg_micros x \<and> (uuid_canonical i \<longrightarrow> rs_user row = i) \<and>
      find_session h (w_db w) = None \<and> rs_user row \<in> user_ids (w_db w) \<and>
      w_db w' = (w_db w)\<lparr>db_sessions := db_sessions (w_db w) @ [row]\<rparr>"
  then obtain row where "w_db w' = (w_db w)\<lparr>db_sessions := db_sessions (w_db w) @ [row]\<rparr>" by blast
  then show ?thesis by simp
qed simp

lemma pg_ByTokenHash_effect:
  assumes "pg_ByTokenHash c h now w = (r, w')" "\<not> c_tx c" "wf_sessions (w_db w)"
  shows "w_db w' = w_db w"
    and "r = Inr (s, u) \<Longrightarrow> pg_session_view w h = Some (s, u) \<and> live_session pg_micros now s"
    and "r = Inl e \<Longrightarrow> errors_Is e RepoErrNotFound \<Longrightarrow>
      \<not> (\<exists>s u. pg_session_view w h = Some (s, u) \<and> live_session pg_micros now s)"
proof -
  have "w_db w' = w_db w \<and>
    (\<forall>s u. r = Inr (s, u) \<longrightarrow> pg_session_view w h = Some (s, u) \<and> live_session pg_micros now s) \<and>
    (\<forall>e. r = Inl e \<longrightarrow> errors_Is e RepoErrNotFound \<longrightarrow>
      \<not> (\<exists>s u. pg_session_view w h = Some (s, u) \<and> live_session pg_micros now s))"
  proof (cases "h = [] \<or> now = zero_time")
    case True
    with assms(1) show ?thesis by (auto simp: pg_ByTokenHash_def)
  next
    case False
    obtain r1 w1 where ex: "pg_exec c (select_session h now) w = (r1, w1)" by fastforce
    note sel = pg_exec_select [OF ex [unfolded select_session_def] assms(2)]
    have rw: "r = (case r1 of Inl e \<Rightarrow> Inl (classify ''find session'' e) | Inr a \<Rightarrow> Inr a)" "w' = w1"
      using assms(1) ex False by (auto simp: pg_ByTokenHash_def map_err_def split: sum.splits)
    have live: "live_session pg_micros now (session_of_row q) = session_live (pg_micros now) q" for q
      by (simp add: live_session_def session_live_def session_of_row_def)
    show ?thesis
    proof (cases "find_session h (w_db w)")
      case None
      with sel rw show ?thesis
        unfolding select_session_spec [OF assms(3)]
        by (auto simp: pg_session_view_def dest: classify_io)
    next
      case (Some q)
      obtain u where u: "user_by_id (rs_user q) (w_db w) = Some u"
        using session_user_exists [OF assms(3) Some] by blast
      from sel rw Some u show ?thesis
        unfolding select_session_spec [OF assms(3)]
        by (cases "session_live (pg_micros now) q")
          (auto simp: pg_session_view_def live dest: classify_io)
    qed
  qed
  then show "w_db w' = w_db w"
    and "r = Inr (s, u) \<Longrightarrow> pg_session_view w h = Some (s, u) \<and> live_session pg_micros now s"
    and "r = Inl e \<Longrightarrow> errors_Is e RepoErrNotFound \<Longrightarrow>
      \<not> (\<exists>s u. pg_session_view w h = Some (s, u) \<and> live_session pg_micros now s)"
    by blast+
qed

text \<open>Revoking touches the one live session of the hash.\<close>

lemma update_revoked_effect:
  assumes "update_revoked h now p t (w_db w) = (r, w_db w')" "wf_sessions (w_db w)"
  shows "case r of Inl e \<Rightarrow> False
    | Inr 0 \<Rightarrow> pg_session_view w' = pg_session_view w
    | Inr (Suc n) \<Rightarrow> \<exists>s u. pg_session_view w h = Some (s, u) \<and> live_session pg_micros now s \<and>
        pg_session_view w' = (pg_session_view w)(h \<mapsto> (s\<lparr>s_RevokedAt := Some (pg_micros now)\<rparr>, u))"
proof -
  let ?hit = "\<lambda>r. rs_hash r = h \<and> session_live (pg_micros now) r"
  let ?f = "\<lambda>r. if ?hit r then r\<lparr>rs_revoked := Some (pg_micros now)\<rparr> else r"
  have r: "r = Inr (length (filter ?hit (db_sessions (w_db w))))"
    and d': "w_db w' = (w_db w)\<lparr>db_sessions := map ?f (db_sessions (w_db w))\<rparr>"
    using assms(1) by (simp_all add: update_revoked_def Let_def)
  have find': "find_session k (w_db w') = map_option ?f (find_session k (w_db w))" for k
  proof -
    have "(\<lambda>r. rs_hash r = k) \<circ> ?f = (\<lambda>r. rs_hash r = k)" by (simp add: fun_eq_iff)
    then show ?thesis by (simp add: d' find_session_def find_map)
  qed
  have user': "user_by_id i (w_db w') = user_by_id i (w_db w)" for i
    by (simp add: d' user_by_id_def)
  have fuser: "rs_user (?f q) = rs_user q" for q by simp
  show ?thesis
  proof (cases "\<exists>q. find_session h (w_db w) = Some q \<and> session_live (pg_micros now) q")
    case False
    then have none: "\<not> ?hit q" if "q \<in> set (db_sessions (w_db w))" for q
      using that find_session_iff [OF assms(2)] by blast
    then have "r = Inr 0" using r by (simp add: filter_empty_conv)
    moreover have "map ?f (db_sessions (w_db w)) = db_sessions (w_db w)"
      by (intro map_idI) (use none in auto)
    ultimately show ?thesis using d' by (auto intro!: pg_session_view_cong)
  next
    case True
    then obtain q where q: "find_session h (w_db w) = Some q" "session_live (pg_micros now) q" by blast
    obtain u where u: "user_by_id (rs_user q) (w_db w) = Some u"
      using session_user_exists [OF assms(2) q(1)] by blast
    have hash: "rs_hash q = h" "q \<in> set (db_sessions (w_db w))"
      using q(1) find_session_iff [OF assms(2)] by blast+
    have "filter ?hit (db_sessions (w_db w)) \<noteq> []" using hash q(2) by (auto simp: filter_empty_conv)
    then obtain n where n: "r = Inr (Suc n)" using r by (cases "filter ?hit (db_sessions (w_db w))") auto
    have "pg_session_view w' k = ((pg_session_view w)(h \<mapsto>
        ((session_of_row q)\<lparr>s_RevokedAt := Some (pg_micros now)\<rparr>, user_of_row u))) k" for k
    proof (cases "k = h")
      case True
      with q u hash show ?thesis
        by (simp add: pg_session_view_def find' user' session_of_row_def)
    next
      case False
      have "?f p = p" if "find_session k (w_db w) = Some p" for p
        using that False find_session_iff [OF assms(2)] by auto
      with False show ?thesis by (auto simp: pg_session_view_def find' user' split: option.split)
    qed
    moreover have "live_session pg_micros now (session_of_row q)"
      using q(2) by (simp add: live_session_def session_live_def session_of_row_def)
    ultimately show ?thesis using n q u by (auto simp: pg_session_view_def fun_eq_iff)
  qed
qed

lemma pg_Revoke_effect:
  assumes "pg_Revoke c h now w = (r, w')" "\<not> c_tx c" "wf_sessions (w_db w)"
  shows "(\<exists>e. r = Inl e) \<and> pg_session_view w' = pg_session_view w \<or>
    (\<exists>s u. pg_session_view w h = Some (s, u) \<and> live_session pg_micros now s \<and>
      pg_session_view w' = (pg_session_view w)(h \<mapsto> (s\<lparr>s_RevokedAt := Some (pg_micros now)\<rparr>, u)))"
    and "db_users (w_db w') = db_users (w_db w)"
proof -
  have "((\<exists>e. r = Inl e) \<and> pg_session_view w' = pg_session_view w \<or>
    (\<exists>s u. pg_session_view w h = Some (s, u) \<and> live_session pg_micros now s \<and>
      pg_session_view w' = (pg_session_view w)(h \<mapsto> (s\<lparr>s_RevokedAt := Some (pg_micros now)\<rparr>, u)))) \<and>
    db_users (w_db w') = db_users (w_db w)"
  proof (cases "h = [] \<or> now = zero_time")
    case True
    with assms(1) show ?thesis by (auto simp: pg_Revoke_def)
  next
    case False
    obtain r1 w1 where ex: "pg_exec c (update_revoked h now) w = (r1, w1)" by fastforce
    obtain r' d' where st: "update_revoked h now (w_pg w) (es_dbnow (w_env w (w_tick w))) (w_db w) = (r', d')"
      and res: "r1 = r' \<and> w_db w1 = d' \<or> (\<exists>e. r1 = Inl (io_goerr e)) \<and> (w_db w1 = w_db w \<or> w_db w1 = d')"
      using pg_exec_auto [OF ex assms(2)] by blast
    have users: "db_users d' = db_users (w_db w)" using st by (auto simp: update_revoked_def Let_def)
    obtain n where n: "r' = Inr n" using st by (auto simp: update_revoked_def Let_def)
    have rw: "w' = w1" "r = (case r1 of Inl e \<Rightarrow> Inl (classify ''revoke session'' e)
        | Inr n \<Rightarrow> if n = 0 then Inl (Wrapped ''revoke session'' (Sentinel RepoErrNotFound)) else Inr ())"
      using assms(1) ex False
      by (auto simp: pg_Revoke_def map_err_def and_then_def split: sum.splits if_splits)
    show ?thesis
    proof (cases "w_db w1 = w_db w \<and> (\<exists>e. r1 = Inl (io_goerr e))")
      case True
      with rw pg_session_view_cong [of w1 w] show ?thesis by auto
    next
      case False
      with res have d': "w_db w1 = d'" and r1: "r1 = r' \<or> (\<exists>e. r1 = Inl (io_goerr e))" by auto
      from st have "update_revoked h now (w_pg w) (es_dbnow (w_env w (w_tick w))) (w_db w) = (r', w_db w1)"
        by (simp add: d')
      from update_revoked_effect [OF this assms(3)] n r1 rw d' users show ?thesis
        by (cases n) auto
    qed
  qed
  then show "(\<exists>e. r = Inl e) \<and> pg_session_view w' = pg_session_view w \<or>
    (\<exists>s u. pg_session_view w h = Some (s, u) \<and> live_session pg_micros now s \<and>
      pg_session_view w' = (pg_session_view w)(h \<mapsto> (s\<lparr>s_RevokedAt := Some (pg_micros now)\<rparr>, u)))"
    and "db_users (w_db w') = db_users (w_db w)" by blast+
qed

lemma pg_session_view_append:
  assumes "find_session (rs_hash row) (w_db w) = None" "user_by_id (rs_user row) (w_db w) = Some u"
    "w_db w' = (w_db w)\<lparr>db_sessions := db_sessions (w_db w) @ [row]\<rparr>"
  shows "pg_session_view w' = (pg_session_view w)(rs_hash row \<mapsto> (session_of_row row, user_of_row u))"
proof
  fix k
  have "find_session k (w_db w') = (if k = rs_hash row then Some row else find_session k (w_db w))"
    using assms(1) by (auto simp: assms(3) find_session_def find_append split: option.split)
  moreover have "user_by_id i (w_db w') = user_by_id i (w_db w)" for i
    by (simp add: assms(3) user_by_id_def)
  ultimately show "pg_session_view w' k =
      ((pg_session_view w)(rs_hash row \<mapsto> (session_of_row row, user_of_row u))) k"
    using assms(2) by (simp add: pg_session_view_def split: option.split)
qed

lemma pg_account_row:
  assumes "wf_users (w_db w)" "pg_accounts w l = Some (u, p)"
  shows "\<exists>q. user_by_id (u_ID u) (w_db w) = Some q \<and> user_of_row q = u \<and> uuid_canonical (u_ID u)"
proof -
  obtain q where q: "find_user l (w_db w) = Some q" "u = user_of_row q"
    using assms(2) by (auto simp: pg_accounts_def)
  then have "q \<in> set (db_users (w_db w))" using find_user_Some by blast
  then have "user_by_id (u_ID u) (w_db w) = Some q" "uuid_canonical (u_ID u)"
    using assms(1) q(2) by (auto simp: user_by_id_iff user_of_row_def wf_users_def list_all_iff)
  with q show ?thesis by blast
qed

text \<open>The laws of \<open>session_port\<close>, one by one.\<close>

lemma pg_session_screate_keeps:
  fixes r :: "goerr + session"
  assumes a: "wf_in False w" "\<not> c_tx c" "sr_Create pg_sessions c i h x w = (r, w')"
  shows "wf_in False w' \<and> pg_accounts w' = pg_accounts w"
proof -
  from a have run: "pg_CreateSession c i h x w = (r, w')" by (simp add: pg_sessions_def)
  have "keeps (wf_in False) (pg_CreateSession c i h x)"
    using keeps_sessions_wf(1) [of c i h x] a(2) by simp
  with run a(1) have "wf_in False w'" by (metis keepsD)
  moreover have "db_users (w_db w') = db_users (w_db w)"
    using pg_CreateSession_users [OF run a(2)] wf_in_sessions [OF a(1)] by metis
  ultimately show ?thesis by (simp add: pg_accounts_cong [of w' w])
qed

lemma pg_session_sfind_keeps:
  fixes r :: "goerr + session \<times> user"
  assumes a: "wf_in False w" "\<not> c_tx c" "sr_ByTokenHash pg_sessions c h now w = (r, w')"
  shows "wf_in False w' \<and> pg_accounts w' = pg_accounts w \<and> pg_session_view w' = pg_session_view w"
proof -
  from a have run: "pg_ByTokenHash c h now w = (r, w')" by (simp add: pg_sessions_def)
  have "wf_in False w'" using keepsD [OF keeps_sessions_wf(2) _ run] a by simp
  moreover have "w_db w' = w_db w"
    using pg_ByTokenHash_effect(1) [OF run a(2)] wf_in_sessions [OF a(1)] by blast
  ultimately show ?thesis
    by (simp add: pg_accounts_cong [of w' w] pg_session_view_cong [of w' w])
qed

lemma pg_session_srevoke_keeps:
  fixes r :: "goerr + unit"
  assumes a: "wf_in False w" "\<not> c_tx c" "sr_Revoke pg_sessions c h now w = (r, w')"
  shows "wf_in False w' \<and> pg_accounts w' = pg_accounts w"
proof -
  from a have run: "pg_Revoke c h now w = (r, w')" by (simp add: pg_sessions_def)
  have "wf_in False w'" using keepsD [OF keeps_sessions_wf(3) _ run] a(1,2) by simp
  moreover have "db_users (w_db w') = db_users (w_db w)"
    by (rule pg_Revoke_effect(2) [OF run a(2)]) (use wf_in_sessions [OF a(1)] in simp)
  ultimately show ?thesis by (simp add: pg_accounts_cong [of w' w])
qed

lemma pg_session_ucreate_sessions:
  fixes r :: "goerr + user"
  assumes a: "wf_in False w" "\<not> c_tx c" "ur_Create pg_users c l h w = (r, w')"
  shows "pg_session_view w' = pg_session_view w"
proof -
  from a have run: "pg_CreateUser c l h w = (r, w')" by (simp add: pg_users_def)
  have "wf_in False w'" using keepsD [OF keeps_CreateUser _ run] a by simp
  then show ?thesis
    using pg_session_view_users [OF _ _ run a(2)] wf_in_sessions a(1) by blast
qed

lemma pg_session_ulogin_sessions:
  fixes r :: "goerr + user \<times> bytes"
  assumes a: "wf_in False w" "\<not> c_tx c" "ur_ByLogin pg_users c l w = (r, w')"
  shows "pg_session_view w' = pg_session_view w"
proof -
  from a have "w_db w' = w_db w" using pg_ByLogin_effect(1) by (simp add: pg_users_def)
  then show ?thesis by (simp add: pg_session_view_cong [of w' w])
qed

lemma pg_session_screate_ok:
  assumes a: "wf_in False w" "\<not> c_tx c" "pg_accounts w l = Some (u, p)" "sr_Create pg_sessions c (u_ID u) h x w = (Inr s, w')"
  shows "pg_session_view w h = None \<and> s_RevokedAt s = None \<and> s_ExpiresAt s = pg_micros x \<and>
    pg_session_view w' = (pg_session_view w)(h \<mapsto> (s, u))"
proof -
  from a have run: "pg_CreateSession c (u_ID u) h x w = (Inr s, w')" by (simp add: pg_sessions_def)
  obtain q where q: "user_by_id (u_ID u) (w_db w) = Some q" "user_of_row q = u" "uuid_canonical (u_ID u)"
    using pg_account_row a(3) wf_in_sessions [OF a(1)] by blast
  obtain row where row: "s = session_of_row row" "rs_hash row = h" "rs_revoked row = None"
    "rs_expires row = pg_micros x" "rs_user row = u_ID u" "find_session h (w_db w) = None"
    "w_db w' = (w_db w)\<lparr>db_sessions := db_sessions (w_db w) @ [row]\<rparr>"
    using pg_CreateSession_effect [OF run a(2)] wf_in_sessions [OF a(1)] q(3) by auto
  then have "pg_session_view w' = (pg_session_view w)(h \<mapsto> (s, u))"
    using pg_session_view_append [of row w q w'] q by simp
  with row show ?thesis
    by (simp add: pg_session_view_def [of w] session_of_row_def)
qed

lemma pg_session_screate_err:
  assumes a: "wf_in False w" "\<not> c_tx c" "sr_Create pg_sessions c i h x w = (Inl e, w')"
  shows "pg_session_view w' = pg_session_view w \<or> pg_session_view w h = None \<and>
    (\<exists>s u. s_RevokedAt s = None \<and> s_ExpiresAt s = pg_micros x \<and>
    pg_session_view w' = (pg_session_view w)(h \<mapsto> (s, u)))"
proof -
  from a have run: "pg_CreateSession c i h x w = (Inl e, w')" by (simp add: pg_sessions_def)
  consider "w_db w' = w_db w" | row where "rs_hash row = h" "rs_revoked row = None"
    "rs_expires row = pg_micros x" "find_session h (w_db w) = None" "rs_user row \<in> user_ids (w_db w)"
    "w_db w' = (w_db w)\<lparr>db_sessions := db_sessions (w_db w) @ [row]\<rparr>"
    using pg_CreateSession_effect [OF run a(2)] wf_in_sessions [OF a(1)] by blast
  then show ?thesis
  proof cases
    case 1
    then show ?thesis by (simp add: pg_session_view_cong [of w' w])
  next
    case 2
    obtain q where "user_by_id (rs_user row) (w_db w) = Some q"
      using 2(5) user_by_id_None [of "rs_user row" "w_db w"] by auto
    from pg_session_view_append [OF _ this 2(6)] 2
    have "pg_session_view w' = (pg_session_view w)(h \<mapsto> (session_of_row row, user_of_row q))" by simp
    moreover have "s_RevokedAt (session_of_row row) = None" "s_ExpiresAt (session_of_row row) = pg_micros x"
      "pg_session_view w h = None"
      using 2 by (simp_all add: pg_session_view_def session_of_row_def)
    ultimately show ?thesis by blast
  qed
qed

lemma pg_session_screate_conflict:
  assumes a: "wf_in False w" "\<not> c_tx c" "sr_Create pg_sessions c i h x w = (Inl e, w')" "errors_Is e RepoErrConflict"
  shows "pg_session_view w' = pg_session_view w"
proof -
  from a have "w_db w' = w_db w"
    using pg_CreateSession_conflict [of c i h x w e w'] wf_in_sessions [OF a(1)]
    by (simp add: pg_sessions_def)
  then show ?thesis
    by (simp add: pg_session_view_cong [of w' w])
qed

lemma pg_session_sfind_ok:
  assumes a: "wf_in False w" "\<not> c_tx c" "sr_ByTokenHash pg_sessions c h now w = (Inr (s, u), w')"
  shows "pg_session_view w h = Some (s, u) \<and> live_session pg_micros now s"
  using a pg_ByTokenHash_effect(2) wf_in_sessions [OF a(1)]
  by (simp add: pg_sessions_def)

lemma pg_session_sfind_not_found:
  assumes a: "wf_in False w" "\<not> c_tx c" "sr_ByTokenHash pg_sessions c h now w = (Inl e, w')" "errors_Is e RepoErrNotFound"
  shows "\<not> (\<exists>s u. pg_session_view w h = Some (s, u) \<and> live_session pg_micros now s)"
  using a pg_ByTokenHash_effect(3) wf_in_sessions [OF a(1)]
  by (simp add: pg_sessions_def)

lemma pg_session_srevoke_ok:
  assumes a: "wf_in False w" "\<not> c_tx c" "sr_Revoke pg_sessions c h now w = (Inr y, w')"
  shows "\<exists>s u. pg_session_view w h = Some (s, u) \<and> live_session pg_micros now s \<and>
    pg_session_view w' = (pg_session_view w)(h \<mapsto> (s\<lparr>s_RevokedAt := Some (pg_micros now)\<rparr>, u))"
  using a pg_Revoke_effect(1) [of c h now w "Inr y" w'] wf_in_sessions [OF a(1)]
  by (simp add: pg_sessions_def)

lemma pg_session_srevoke_err:
  assumes a: "wf_in False w" "\<not> c_tx c" "sr_Revoke pg_sessions c h now w = (Inl e, w')"
  shows "pg_session_view w' = pg_session_view w \<or> (\<exists>s u. pg_session_view w h = Some (s, u) \<and>
    pg_session_view w' = (pg_session_view w)(h \<mapsto> (s\<lparr>s_RevokedAt := Some (pg_micros now)\<rparr>, u)))"
  using a pg_Revoke_effect(1) [of c h now w "Inl e" w'] wf_in_sessions [OF a(1)]
  by (auto simp: pg_sessions_def)

lemmas pg_session_laws =
  pg_session_screate_keeps pg_session_sfind_keeps pg_session_srevoke_keeps pg_session_ucreate_sessions
  pg_session_ulogin_sessions pg_session_screate_ok pg_session_screate_err pg_session_screate_conflict
  pg_session_sfind_ok pg_session_sfind_not_found pg_session_srevoke_ok pg_session_srevoke_err

interpretation pg_session_port: session_port pg_users "wf_in False" pg_accounts pg_sessions pg_session_view pg_micros
  by unfold_locales (rule pg_session_laws; assumption)+

end
