(* ===== verification/PgDocuments.thy ===== *)
theory PgDocuments
  imports PgSessions
begin

text \<open>
  \<open>internal/repository/postgres/documents.go\<close>: documents and their grants. The statements come
  first, then the operations, which run several statements in one transaction; \<open>L\<close> is the
  library, whose JSON and time parsers the operations call.
\<close>

subsection \<open>Rows\<close>

text \<open>\<open>finishDocumentScan\<close>: NULL columns become zero values, absent grants the empty list.\<close>

definition document_of_row :: "document_row \<Rightarrow> string list \<Rightarrow> document" where
  "document_of_row r grants =
     \<lparr>d_ID = rd_id r, d_OwnerID = rd_owner r, d_Name = rd_name r,
      d_MIME = (case rd_mime r of None \<Rightarrow> [] | Some m \<Rightarrow> m),
      d_IsFile = rd_is_file r, d_IsPublic = rd_is_public r, d_JSON = rd_json r,
      d_StorageKey = (case rd_key r of None \<Rightarrow> [] | Some k \<Rightarrow> k),
      d_SizeBytes = (case rd_size r of None \<Rightarrow> 0 | Some n \<Rightarrow> n),
      d_CreatedAt = rd_created r, d_UpdatedAt = zero_time, d_Version = rd_version r,
      d_Grants = grants\<rparr>"

definition document_by_id :: "string \<Rightarrow> database \<Rightarrow> document_row option" where
  "document_by_id i d = find (\<lambda>r. rd_id r = i) (db_documents d)"

text \<open>\<open>array_agg(gu.login ORDER BY gu.login)\<close> over the joined grants.\<close>

definition grant_logins :: "pg_params \<Rightarrow> database \<Rightarrow> string \<Rightarrow> string list" where
  "grant_logins p d i =
     sort_by (pg_collate p) (map ru_login (filter (\<lambda>u. (i, ru_id u) \<in> set (db_grants d)) (db_users d)))"

definition full_document :: "pg_params \<Rightarrow> database \<Rightarrow> document_row \<Rightarrow> document" where
  "full_document p d r = document_of_row r (grant_logins p d (rd_id r))"

text \<open>The access condition of \<open>ByIDAccessible\<close> and \<open>List\<close>.\<close>

definition row_accessible :: "database \<Rightarrow> document_row \<Rightarrow> string \<Rightarrow> bool" where
  "row_accessible d r requester \<longleftrightarrow>
     rd_owner r = requester \<or> rd_is_public r \<or> (rd_id r, requester) \<in> set (db_grants d)"

subsection \<open>Statements\<close>

definition select_owner_login :: "string \<Rightarrow> string statement" where
  "select_owner_login i = select (\<lambda>p now d.
     sum_bind (uuid_param p i) (\<lambda>u.
       case user_by_id u d of None \<Rightarrow> Inl (Sentinel PgxErrNoRows) | Some r \<Rightarrow> Inr (ru_login r)))"

definition option_param :: "('a \<Rightarrow> goerr + 'b) \<Rightarrow> 'a option \<Rightarrow> goerr + 'b option" where
  "option_param f x = (case x of None \<Rightarrow> Inr None | Some a \<Rightarrow> sum_bind (f a) (\<lambda>b. Inr (Some b)))"

definition json_param :: "pg_params \<Rightarrow> bytes \<Rightarrow> goerr + bytes" where
  "json_param p j = (case pg_jsonb p j of None \<Rightarrow> Inl (PgError ''22P02'') | Some t \<Rightarrow> Inr t)"

definition document_row_param ::
  "pg_params \<Rightarrow> time \<Rightarrow> document \<Rightarrow> string option \<Rightarrow> string option \<Rightarrow> int option \<Rightarrow> goerr + document_row" where
  "document_row_param p now x mime key sz =
     sum_bind (uuid_param p (d_ID x)) (\<lambda>i.
     sum_bind (uuid_param p (d_OwnerID x)) (\<lambda>ow.
     sum_bind (text_param p (d_Name x)) (\<lambda>name.
     sum_bind (option_param (text_param p) mime) (\<lambda>m.
     sum_bind (option_param (json_param p) (d_JSON x)) (\<lambda>j.
     sum_bind (option_param (text_param p) key) (\<lambda>k.
       Inr \<lparr>rd_id = i, rd_owner = ow, rd_name = name, rd_mime = m, rd_is_file = d_IsFile x,
            rd_is_public = d_IsPublic x, rd_json = j, rd_key = k, rd_size = sz,
            rd_created = pg_seconds now, rd_version = 1\<rparr>))))))"

definition insert_document ::
  "document \<Rightarrow> string option \<Rightarrow> string option \<Rightarrow> int option \<Rightarrow> document statement" where
  "insert_document x mime key sz p now d =
     (case document_row_param p now x mime key sz of
        Inl e \<Rightarrow> (Inl e, d)
      | Inr row \<Rightarrow>
          if \<not> document_checks row then (Inl (PgError ''23514''), d)
          else if rd_id row \<in> set (map rd_id (db_documents d)) then (Inl (PgError ''23505''), d)
          else if rd_owner row \<notin> user_ids d then (Inl (PgError ''23503''), d)
          else (Inr (document_of_row row []), d\<lparr>db_documents := db_documents d @ [row]\<rparr>))"

text \<open>The number of grants actually inserted: unknown logins and existing grants do not count.\<close>

definition insert_grants :: "string \<Rightarrow> string list \<Rightarrow> nat statement" where
  "insert_grants i logins p now d =
     (case sum_bind (uuid_param p i) (\<lambda>k. sum_bind (texts_param p logins) (\<lambda>ls. Inr (k, ls))) of
        Inl e \<Rightarrow> (Inl e, d)
      | Inr (k, ls) \<Rightarrow>
          let new = filter (\<lambda>g. g \<notin> set (db_grants d))
                (map (\<lambda>u. (k, ru_id u)) (filter (\<lambda>u. ru_login u \<in> set ls) (db_users d)))
          in if new \<noteq> [] \<and> k \<notin> set (map rd_id (db_documents d)) then (Inl (PgError ''23503''), d)
             else (Inr (length new), d\<lparr>db_grants := db_grants d @ new\<rparr>))"

definition select_document :: "string \<Rightarrow> document statement" where
  "select_document i = select (\<lambda>p now d.
     sum_bind (uuid_param p i) (\<lambda>u.
       case document_by_id u d of
         None \<Rightarrow> Inl (Sentinel PgxErrNoRows) | Some r \<Rightarrow> Inr (full_document p d r)))"

definition select_accessible :: "string \<Rightarrow> string \<Rightarrow> (document \<times> bool) statement" where
  "select_accessible i requesterID = select (\<lambda>p now d.
     sum_bind (uuid_param p i) (\<lambda>u. sum_bind (uuid_param p requesterID) (\<lambda>q.
       case document_by_id u d of
         None \<Rightarrow> Inl (Sentinel PgxErrNoRows)
       | Some r \<Rightarrow> Inr (full_document p d r, row_accessible d r q))))"

definition select_user_id :: "string \<Rightarrow> string statement" where
  "select_user_id login = select (\<lambda>p now d.
     sum_bind (text_param p login) (\<lambda>l.
       case find_user l d of None \<Rightarrow> Inl (Sentinel PgxErrNoRows) | Some r \<Rightarrow> Inr (ru_id r)))"

text \<open>The filter as \<open>buildDocumentFilter\<close> gives it: a column and the value it must equal.\<close>

datatype column_filter =
    NoFilter | IdIs string | NameIs string | MimeIs string | FileIs bool | PublicIs bool | CreatedIs time

definition second_floor :: "time \<Rightarrow> time" where
  "second_floor t = t div second * second"

definition filter_param :: "pg_params \<Rightarrow> column_filter \<Rightarrow> goerr + column_filter" where
  "filter_param p f =
     (case f of
        IdIs s \<Rightarrow> sum_bind (uuid_param p s) (\<lambda>u. Inr (IdIs u))
      | NameIs s \<Rightarrow> sum_bind (text_param p s) (\<lambda>t. Inr (NameIs t))
      | MimeIs s \<Rightarrow> sum_bind (text_param p s) (\<lambda>t. Inr (MimeIs t))
      | _ \<Rightarrow> Inr f)"

fun row_matches :: "column_filter \<Rightarrow> document_row \<Rightarrow> bool" where
  "row_matches NoFilter r = True"
| "row_matches (IdIs s) r = (rd_id r = s)"
| "row_matches (NameIs s) r = (rd_name r = s)"
| "row_matches (MimeIs s) r = (rd_mime r = Some s)"
| "row_matches (FileIs b) r = (rd_is_file r = b)"
| "row_matches (PublicIs b) r = (rd_is_public r = b)"
| "row_matches (CreatedIs t) r = (second_floor (rd_created r) = t)"

text \<open>\<open>ORDER BY d.name ASC, d.created_at DESC, d.id ASC\<close>.\<close>

definition row_le :: "pg_params \<Rightarrow> document_row \<Rightarrow> document_row \<Rightarrow> bool" where
  "row_le p a b =
     (if \<not> pg_collate p (rd_name b) (rd_name a) then True
      else if \<not> pg_collate p (rd_name a) (rd_name b) then False
      else if rd_created a \<noteq> rd_created b then rd_created b < rd_created a
      else rd_id a \<le> rd_id b)"

definition list_rows :: "pg_params \<Rightarrow> database \<Rightarrow> string \<Rightarrow> string \<Rightarrow> column_filter \<Rightarrow> document_row list" where
  "list_rows p d ow q f = sort_by (row_le p) (filter (\<lambda>r. rd_owner r = ow \<and>
     (ow = q \<or> rd_is_public r \<or> (rd_id r, q) \<in> set (db_grants d)) \<and> row_matches f r) (db_documents d))"

definition select_documents :: "string \<Rightarrow> string \<Rightarrow> column_filter \<Rightarrow> int \<Rightarrow> document list statement" where
  "select_documents ownerID requesterID f limit = select (\<lambda>p now d.
     sum_bind (uuid_param p ownerID) (\<lambda>ow. sum_bind (uuid_param p requesterID) (\<lambda>q.
     sum_bind (filter_param p f) (\<lambda>f.
       Inr (map (full_document p d) (if limit > 0 then take (nat limit) (list_rows p d ow q f)
            else list_rows p d ow q f))))))"

definition lock_document_owner :: "string \<Rightarrow> string statement" where
  "lock_document_owner i = select (\<lambda>p now d.
     sum_bind (uuid_param p i) (\<lambda>u.
       case document_by_id u d of
         None \<Rightarrow> Inl (Sentinel PgxErrNoRows) | Some r \<Rightarrow> Inr (rd_owner r)))"

text \<open>The identity column takes its number before the conflict on the key is noticed.\<close>

definition insert_task :: "string \<Rightarrow> unit statement" where
  "insert_task key p now d =
     (case text_param p key of
        Inl e \<Rightarrow> (Inl e, d)
      | Inr k \<Rightarrow>
          if k = [] then (Inl (PgError ''23514''), d)
          else if k \<in> set (map rt_key (db_tasks d))
          then (Inr (), d\<lparr>db_taskseq := db_taskseq d + 1\<rparr>)
          else (Inr (), d\<lparr>db_tasks := db_tasks d @
                  [\<lparr>rt_id = db_taskseq d, rt_key = k, rt_attempts = 0, rt_next = pg_micros now,
                    rt_created = pg_micros now\<rparr>],
                db_taskseq := db_taskseq d + 1\<rparr>))"

text \<open>Deleting a document cascades to its grants.\<close>

definition delete_document :: "string \<Rightarrow> nat statement" where
  "delete_document i p now d =
     (case uuid_param p i of
        Inl e \<Rightarrow> (Inl e, d)
      | Inr u \<Rightarrow>
          (Inr (length (filter (\<lambda>r. rd_id r = u) (db_documents d))),
           d\<lparr>db_documents := filter (\<lambda>r. rd_id r \<noteq> u) (db_documents d),
             db_grants := filter (\<lambda>g. fst g \<noteq> u) (db_grants d)\<rparr>))"

subsection \<open>The repository\<close>

definition uniqueNonOwnerLogins :: "string list \<Rightarrow> string \<Rightarrow> string list" where
  "uniqueNonOwnerLogins logins owner =
     rev (foldl (\<lambda>seen login. if login = [] \<or> login = owner then seen
       else if login \<in> set seen then seen else login # seen) [] logins)"

definition nullableString :: "string \<Rightarrow> string option" where
  "nullableString v = (if v = [] then None else Some v)"

definition fileStorageKey :: "document \<Rightarrow> string option" where
  "fileStorageKey x = (if \<not> d_IsFile x then None else Some (d_StorageKey x))"

definition fileSize :: "document \<Rightarrow> int option" where
  "fileSize x = (if \<not> d_IsFile x then None else Some (d_SizeBytes x))"

definition create_body :: "document \<Rightarrow> ctx \<Rightarrow> (world, document) op" where
  "create_body x c =
     and_then (map_err (classify ''find document owner'') (pg_exec c (select_owner_login (d_OwnerID x)))) (\<lambda>ownerLogin.
     (let grants = uniqueNonOwnerLogins (d_Grants x) ownerLogin
      in and_then (map_err (classify ''create document'')
           (pg_exec c (insert_document x (nullableString (d_MIME x)) (fileStorageKey x) (fileSize x)))) (\<lambda>result.
         if grants = [] then ret (result\<lparr>d_Grants := grants\<rparr>)
         else and_then (map_err (classify ''create document grants'')
             (pg_exec c (insert_grants (d_ID result) grants))) (\<lambda>n.
           if n \<noteq> length grants
           then fail (Wrapped ''create document grants'' (Sentinel RepoErrNotFound))
           else ret (result\<lparr>d_Grants := grants\<rparr>)))))"

definition pg_CreateDocument :: "golib \<Rightarrow> ctx \<Rightarrow> document \<Rightarrow> (world, document) op" where
  "pg_CreateDocument L c x =
     (if uuid_Parse (d_OwnerID x) = None \<or> strings_TrimSpace (d_Name x) = []
      then fail (Wrapped ''create document'' (Sentinel RepoErrInvalidArgument))
      else
        and_then
          (if d_ID x = [] then uuid_NewString
           else if uuid_Parse (d_ID x) = None
           then fail (Wrapped ''create document'' (Sentinel RepoErrInvalidArgument))
           else ret (d_ID x))
        (\<lambda>i.
          if d_IsFile x \<and> (d_MIME x = [] \<or> d_StorageKey x = [] \<or> d_SizeBytes x < 0)
          then fail (Wrapped ''create document'' (Sentinel RepoErrInvalidArgument))
          else if \<not> d_IsFile x \<and> d_StorageKey x \<noteq> []
          then fail (Wrapped ''create document'' (Sentinel RepoErrInvalidArgument))
          else if (case d_JSON x of None \<Rightarrow> False | Some j \<Rightarrow> \<not> json_Valid L j)
          then fail (Wrapped ''create document'' (Sentinel RepoErrInvalidArgument))
          else withinTransaction c (Some (create_body (x\<lparr>d_ID := i\<rparr>)))))"

definition pg_ByID :: "ctx \<Rightarrow> string \<Rightarrow> (world, document) op" where
  "pg_ByID c i =
     (if uuid_Parse i = None then fail (Wrapped ''find document'' (Sentinel RepoErrInvalidArgument))
      else map_err (classify ''find document'') (pg_exec c (select_document i)))"

definition pg_ByIDAccessible :: "ctx \<Rightarrow> string \<Rightarrow> string \<Rightarrow> (world, document) op" where
  "pg_ByIDAccessible c i requesterID =
     (if uuid_Parse i = None \<or> uuid_Parse requesterID = None
      then fail (Wrapped ''find accessible document'' (Sentinel RepoErrInvalidArgument))
      else and_then (map_err (classify ''find accessible document'')
             (pg_exec c (select_accessible i requesterID))) (\<lambda>(x, accessible).
        if \<not> accessible then fail (Wrapped ''find accessible document'' (Sentinel RepoErrForbidden))
        else ret x))"

definition parse_created :: "golib \<Rightarrow> string \<Rightarrow> goerr + time" where
  "parse_created L raw =
     (case time_Parse_datetime L raw of
        Inr t \<Rightarrow> Inr t
      | Inl _ \<Rightarrow> time_Parse_rfc3339 L raw)"

definition buildDocumentFilter :: "golib \<Rightarrow> string \<Rightarrow> string \<Rightarrow> goerr + column_filter" where
  "buildDocumentFilter L key raw =
     (let invalid = Inl (Wrapped ''document filter'' (Sentinel RepoErrInvalidArgument))
      in if key \<noteq> [] \<and> raw = [] then invalid
         else if key = [] then (if raw \<noteq> [] then invalid else Inr NoFilter)
         else if key = ''id'' then
           (case uuid_Parse raw of None \<Rightarrow> invalid | Some u \<Rightarrow> Inr (IdIs (uuid_String u)))
         else if key = ''name'' then Inr (NameIs raw)
         else if key = ''mime'' then Inr (MimeIs raw)
         else if key = ''file'' \<or> key = ''public'' then
           (if raw \<noteq> ''true'' \<and> raw \<noteq> ''false'' then invalid
            else let value = (case strconv_ParseBool raw of Some b \<Rightarrow> b | None \<Rightarrow> False)
                 in Inr (if key = ''public'' then PublicIs value else FileIs value))
         else if key = ''created'' then
           (case parse_created L raw of Inl _ \<Rightarrow> invalid | Inr t \<Rightarrow> Inr (CreatedIs (second_floor t)))
         else invalid)"

definition pg_List :: "golib \<Rightarrow> ctx \<Rightarrow> string \<Rightarrow> documentFilter \<Rightarrow> (world, document list) op" where
  "pg_List L c requesterID f =
     (if uuid_Parse requesterID = None \<or> f_Limit f < 0
      then fail (Wrapped ''list documents'' (Sentinel RepoErrInvalidArgument))
      else and_then
        (if f_OwnerLogin f \<noteq> []
         then map_err (classify ''find list owner'') (pg_exec c (select_user_id (f_OwnerLogin f)))
         else ret requesterID)
        (\<lambda>ownerID.
          case buildDocumentFilter L (f_Key f) (f_Value f) of
            Inl e \<Rightarrow> fail e
          | Inr flt \<Rightarrow> map_err (classify ''list documents'')
              (pg_exec c (select_documents ownerID requesterID flt (f_Limit f)))))"

definition delete_body :: "string \<Rightarrow> string \<Rightarrow> ctx \<Rightarrow> (world, document) op" where
  "delete_body i ownerID c =
     and_then (map_err (classify ''find document to delete'') (pg_exec c (lock_document_owner i))) (\<lambda>actualOwner.
     if actualOwner \<noteq> ownerID then fail (Wrapped ''delete document'' (Sentinel RepoErrForbidden))
     else and_then (pg_ByID c i) (\<lambda>deleted.
     and_then
       (if d_IsFile deleted
        then map_err (classify ''enqueue blob cleanup'') (pg_exec c (insert_task (d_StorageKey deleted)))
        else ret ())
     (\<lambda>_. and_then (map_err (classify ''delete document'') (pg_exec c (delete_document i))) (\<lambda>n.
       if n \<noteq> 1 then fail (Wrapped ''delete document'' (Sentinel RepoErrNotFound)) else ret deleted))))"

definition pg_DeleteDocument :: "ctx \<Rightarrow> string \<Rightarrow> string \<Rightarrow> (world, document) op" where
  "pg_DeleteDocument c i ownerID =
     (if uuid_Parse i = None \<or> uuid_Parse ownerID = None
      then fail (Wrapped ''delete document'' (Sentinel RepoErrInvalidArgument))
      else withinTransaction c (Some (delete_body i ownerID)))"

definition pg_documents :: "golib \<Rightarrow> world document_repository" where
  "pg_documents L = \<lparr>dr_Create = pg_CreateDocument L, dr_ByID = pg_ByID,
     dr_ByIDAccessible = pg_ByIDAccessible, dr_List = pg_List L, dr_Delete = pg_DeleteDocument\<rparr>"

subsection \<open>The statements respect the schema\<close>

lemma sum_bind_Inr: "sum_bind m f = Inr b \<longleftrightarrow> (\<exists>a. m = Inr a \<and> f a = Inr b)"
  by (cases m) (auto simp: sum_bind_def)

lemma text_param_Inr [simp]: "text_param p s = Inr t \<longleftrightarrow> t = s \<and> pg_text_ok p s"
  by (auto simp: text_param_def)

lemma uuid_param_self: "pg_ok p \<Longrightarrow> uuid_canonical u \<Longrightarrow> uuid_param p u = Inr v \<longleftrightarrow> v = u"
  by (auto simp: uuid_param_def pg_ok_def)

lemma option_param_text: "option_param (text_param p) x = Inr y \<Longrightarrow> y = x"
  by (cases x) (auto simp: option_param_def sum_bind_Inr)

lemma document_row_param_Inr:
  assumes "document_row_param p now x mime key sz = Inr row"
  shows "uuid_param p (d_ID x) = Inr (rd_id row)" "uuid_param p (d_OwnerID x) = Inr (rd_owner row)"
    "rd_name row = d_Name x" "rd_mime row = mime" "rd_is_file row = d_IsFile x"
    "rd_is_public row = d_IsPublic x" "rd_key row = key" "rd_size row = sz"
    "rd_version row = 1" "rd_created row = pg_seconds now"
    "option_param (json_param p) (d_JSON x) = Inr (rd_json row)"
  using assms by (auto simp: document_row_param_def sum_bind_Inr dest: option_param_text)

lemma stmt_wf_insert_document [intro]: "stmt_wf (insert_document x mime key sz)"
proof (rule stmt_wfI)
  fix p t d r d'
  assume p: "pg_ok p" and wf: "wf_db d" and run: "insert_document x mime key sz p t d = (r, d')"
  show "wf_db d' \<and> db_taskseq d \<le> db_taskseq d'"
  proof (cases "d' = d")
    case False
    with run obtain row where row: "document_row_param p t x mime key sz = Inr row"
      "document_checks row" "rd_id row \<notin> set (map rd_id (db_documents d))" "rd_owner row \<in> user_ids d"
      "d' = d\<lparr>db_documents := db_documents d @ [row]\<rparr>"
      by (auto simp: insert_document_def split: sum.splits if_splits)
    then have "uuid_canonical (rd_id row)"
      using document_row_param_Inr(1) uuid_param_canonical [OF p] by blast
    with row wf show ?thesis
      by (auto simp: wf_db_def wf_documents_def list_all_iff)
  qed (use wf in simp)
qed

text \<open>What the grant statement adds: pairs of the document and the users with these logins.\<close>

definition grant_pairs :: "database \<Rightarrow> string \<Rightarrow> string list \<Rightarrow> (string \<times> string) list" where
  "grant_pairs d k ls = map (\<lambda>u. (k, ru_id u)) (filter (\<lambda>u. ru_login u \<in> set ls) (db_users d))"

lemma insert_grants_effect:
  assumes "insert_grants i logins p t d = (r, d')"
  shows "(\<exists>e. r = Inl e) \<and> d' = d \<or>
    (\<exists>k new. uuid_param p i = Inr k \<and> new = filter (\<lambda>g. g \<notin> set (db_grants d)) (grant_pairs d k logins) \<and>
      (new = [] \<or> k \<in> set (map rd_id (db_documents d))) \<and>
      r = Inr (length new) \<and> d' = d\<lparr>db_grants := db_grants d @ new\<rparr>)"
proof (cases "uuid_param p i")
  case (Inl e)
  with assms show ?thesis by (auto simp: insert_grants_def sum_bind_def)
next
  case (Inr k)
  with assms show ?thesis
    by (auto simp: insert_grants_def sum_bind_def grant_pairs_def Let_def split: if_splits)
qed

lemma grant_pairs_ok:
  assumes "wf_users d"
  shows "distinct (grant_pairs d k ls)" "g \<in> set (grant_pairs d k ls) \<Longrightarrow> snd g \<in> user_ids d \<and> fst g = k"
proof -
  have "inj_on ru_id (set (db_users d))" "distinct (db_users d)"
    using assms by (simp_all add: wf_users_def distinct_map)
  then show "distinct (grant_pairs d k ls)"
    by (auto simp: grant_pairs_def distinct_map inj_on_def)
qed (auto simp: grant_pairs_def user_ids_def)

lemma stmt_wf_insert_grants [intro]: "stmt_wf (insert_grants i logins)"
proof (rule stmt_wfI)
  fix p t d r d'
  assume p: "pg_ok p" and wf: "wf_db d" and run: "insert_grants i logins p t d = (r, d')"
  show "wf_db d' \<and> db_taskseq d \<le> db_taskseq d'"
  proof (cases "d' = d")
    case False
    then obtain k new where new: "new = filter (\<lambda>g. g \<notin> set (db_grants d)) (grant_pairs d k logins)"
      "k \<in> set (map rd_id (db_documents d))" "d' = d\<lparr>db_grants := db_grants d @ new\<rparr>"
      using insert_grants_effect [OF run] by auto
    have "wf_users d" using wf by (simp add: wf_db_def)
    from grant_pairs_ok(1) [OF this, of k logins] grant_pairs_ok(2) [OF this, of _ k logins] new wf
    show ?thesis by (auto simp: wf_db_def wf_documents_def list_all_iff)
  qed (use wf in simp)
qed

lemma stmt_wf_insert_task [intro]: "stmt_wf (insert_task key)"
proof (rule stmt_wfI)
  fix p t d r d'
  assume wf: "wf_db d" and run: "insert_task key p t d = (r, d')"
  have "wf_tasks d" using wf by (simp add: wf_db_def)
  then have lt: "\<forall>t \<in> set (db_tasks d). rt_id t < db_taskseq d" and pos: "0 < db_taskseq d"
    by (auto simp: wf_tasks_def list_all_iff)
  then have fresh: "db_taskseq d \<notin> rt_id ` set (db_tasks d)"
    and le: "\<forall>t \<in> set (db_tasks d). rt_id t < db_taskseq d + 1" by force+
  have "d' = d \<or> d' = d\<lparr>db_taskseq := db_taskseq d + 1\<rparr> \<or>
      key \<notin> set (map rt_key (db_tasks d)) \<and> key \<noteq> [] \<and>
      d' = d\<lparr>db_tasks := db_tasks d @ [\<lparr>rt_id = db_taskseq d, rt_key = key, rt_attempts = 0,
          rt_next = pg_micros t, rt_created = pg_micros t\<rparr>], db_taskseq := db_taskseq d + 1\<rparr>"
    using run by (simp add: insert_task_def text_param_def split: if_splits)
  then show "wf_db d' \<and> db_taskseq d \<le> db_taskseq d'"
  proof (elim disjE conjE)
    assume new: "key \<notin> set (map rt_key (db_tasks d))" "key \<noteq> []"
      "d' = d\<lparr>db_tasks := db_tasks d @ [\<lparr>rt_id = db_taskseq d, rt_key = key, rt_attempts = 0,
          rt_next = pg_micros t, rt_created = pg_micros t\<rparr>], db_taskseq := db_taskseq d + 1\<rparr>"
    with wf fresh pos show ?thesis
      by (simp add: wf_db_def wf_tasks_def list_all_iff) (use le in force)
  qed (use wf wf_db_taskseq in simp_all)
qed

lemma stmt_wf_delete_document [intro]: "stmt_wf (delete_document i)"
proof (rule stmt_wfI)
  fix p t d r d'
  assume wf: "wf_db d" and run: "delete_document i p t d = (r, d')"
  show "wf_db d' \<and> db_taskseq d \<le> db_taskseq d'"
  proof (cases "uuid_param p i")
    case (Inr u)
    with run have d': "d' = d\<lparr>db_documents := filter (\<lambda>r. rd_id r \<noteq> u) (db_documents d),
        db_grants := filter (\<lambda>g. fst g \<noteq> u) (db_grants d)\<rparr>" by (simp add: delete_document_def)
    have "wf_documents d" using wf by (simp add: wf_db_def)
    then have "wf_documents d'"
      by (auto simp: d' wf_documents_def list_all_iff distinct_map_filter)
    with wf show ?thesis by (simp add: wf_db_def d')
  qed (use run wf in \<open>auto simp: delete_document_def\<close>)
qed

lemma stmt_wf_document_selects [intro]:
  "stmt_wf (select_owner_login i)" "stmt_wf (select_document i)" "stmt_wf (select_accessible i q)"
  "stmt_wf (select_user_id l)" "stmt_wf (select_documents i q f n)" "stmt_wf (lock_document_owner i)"
  by (auto simp: select_owner_login_def select_document_def select_accessible_def select_user_id_def
      select_documents_def lock_document_owner_def)

text \<open>One pass over every operation: the constraints hold afterwards, the rest is untouched.\<close>

lemma keeps_ByID [keeps_intro]:
  "keeps (wf_in (c_tx c)) (pg_ByID c i)" "keeps (\<lambda>w. pg_frame w = X) (pg_ByID c i)"
  "c_tx c \<Longrightarrow> keeps (local_to D T) (pg_ByID c i)"
  unfolding pg_ByID_def by (intro keeps_intro; auto)+

lemma keeps_create_body_wf:
  "c_tx c \<Longrightarrow> keeps (wf_in True) (create_body x c)"
proof -
  assume c: "c_tx c"
  have ex: "keeps (wf_in True) (pg_exec c f)" if "stmt_wf f" for f :: "'a statement"
    using keeps_pg_exec_wf [OF that, of c] c by simp
  show ?thesis
    unfolding create_body_def Let_def by (intro keeps_intro ex) auto
qed

lemma keeps_create_body_local: "c_tx c \<Longrightarrow> keeps (local_to D T) (create_body x c)"
  unfolding create_body_def Let_def by (intro keeps_intro) auto

lemma keeps_create_body_frame [keeps_intro]: "keeps (\<lambda>w. pg_frame w = X) (create_body x c)"
  unfolding create_body_def Let_def by (intro keeps_intro)

lemma keeps_delete_body_wf:
  "c_tx c \<Longrightarrow> keeps (wf_in True) (delete_body i ow c)"
proof -
  assume c: "c_tx c"
  have ex: "keeps (wf_in True) (pg_exec c f)" if "stmt_wf f" for f :: "'a statement"
    using keeps_pg_exec_wf [OF that, of c] c by simp
  have by_id: "keeps (wf_in True) (pg_ByID c i)" using keeps_ByID(1) [of c i] c by simp
  show ?thesis
    unfolding delete_body_def by (intro keeps_intro ex by_id) auto
qed

lemma keeps_delete_body_local: "c_tx c \<Longrightarrow> keeps (local_to D T) (delete_body i ow c)"
  unfolding delete_body_def by (intro keeps_intro) auto

lemma keeps_delete_body_frame [keeps_intro]: "keeps (\<lambda>w. pg_frame w = X) (delete_body i ow c)"
  unfolding delete_body_def by (intro keeps_intro)

lemma keeps_documents_wf:
  "keeps (wf_in (c_tx c)) (pg_CreateDocument L c x)" "keeps (wf_in (c_tx c)) (pg_DeleteDocument c i ow)"
  "keeps (wf_in (c_tx c)) (pg_ByIDAccessible c i q)" "keeps (wf_in (c_tx c)) (pg_List L c q f)"
  unfolding pg_CreateDocument_def pg_DeleteDocument_def pg_ByIDAccessible_def pg_List_def
  by (intro keeps_intro keeps_create_body_wf keeps_delete_body_wf; auto intro!: keeps_intro split: prod.split sum.split)+

lemma keeps_documents_frame:
  "keeps (\<lambda>w. pg_frame w = X) (pg_CreateDocument L c x)" "keeps (\<lambda>w. pg_frame w = X) (pg_DeleteDocument c i ow)"
  "keeps (\<lambda>w. pg_frame w = X) (pg_ByIDAccessible c i q)" "keeps (\<lambda>w. pg_frame w = X) (pg_List L c q f)"
  unfolding pg_CreateDocument_def pg_DeleteDocument_def pg_ByIDAccessible_def pg_List_def
  by (intro keeps_intro; auto intro!: keeps_intro split: prod.split sum.split)+

end
