(* ===== verification/HttpKeys.thy ===== *)
theory HttpKeys
  imports HttpServe PgDocuments
begin

text \<open>
  The keys of cached responses and the filters of listings: a key determines the query it stands for,
  and the checks of the transport, of the service and of the store agree.
\<close>

subsection \<open>Keys\<close>

lemma Itoa_chars: "c \<in> set (strconv_Itoa i) \<Longrightarrow> is_dec c \<or> c = CHR ''-''"
  using dec_digits_spec by (fastforce simp: strconv_Itoa_def list_all_iff split: if_splits)

lemma Itoa_colon: "CHR '':'' \<notin> set (strconv_Itoa i)"
  using Itoa_chars [of "CHR '':''" i] by (auto simp: is_dec_def digit_rune_def)

text \<open>A number and the colon after it can be read back, whatever follows.\<close>

lemma append_sep_inj: "c \<notin> set a \<Longrightarrow> c \<notin> set b \<Longrightarrow> a @ c # x = b @ c # y \<longleftrightarrow> a = b \<and> x = y"
proof (induction a arbitrary: b)
  case Nil then show ?case by (cases b) auto
next
  case (Cons z a) then show ?case by (cases b) auto
qed

lemma Itoa_append_inj: "strconv_Itoa i @ CHR '':'' # x = strconv_Itoa j @ CHR '':'' # y \<longleftrightarrow> i = j \<and> x = y"
  using append_sep_inj [OF Itoa_colon Itoa_colon] Itoa_inj by metis

lemma list_key_inj:
  "listCacheKey L H ep1 u1 o1 k1 v1 n1 = listCacheKey L H ep2 u2 o2 k2 v2 n2 \<longleftrightarrow>
   ep1 = ep2 \<and> u1 = u2 \<and> o1 = o2 \<and> k1 = k2 \<and> normalizedFilterValue L H k1 v1 = normalizedFilterValue L H k2 v2 \<and> n1 = n2"
  by (auto simp: listCacheKey_def Itoa_append_inj Quote_append_inj dest: Itoa_inj)

lemma document_key_inj:
  "documentCacheKey H ep1 i1 v1 = documentCacheKey H ep2 i2 v2 \<longleftrightarrow> ep1 = ep2 \<and> i1 = i2 \<and> v1 = v2"
  by (auto simp: documentCacheKey_def Itoa_append_inj Quote_append_inj dest: Itoa_inj)

lemma keys_disjoint: "documentCacheKey H ep i v \<noteq> listCacheKey L H' ep' u ow k x n"
  by (simp add: documentCacheKey_def listCacheKey_def)

subsection \<open>Filters\<close>

lemma parsed_filter:
  assumes "parseDocumentListFilter L mx query = Some f"
  shows "f_Limit f \<le> max 0 mx \<and> 0 \<le> f_Limit f \<and>
    (f_Key f = [] \<and> f_Value f = [] \<or> f_Key f \<noteq> [] \<and> f_Value f \<noteq> [] \<and> validDocumentListFilterValue L (f_Key f) (f_Value f))"
proof -
  have shape: "f_Key f = [] \<and> f_Value f = [] \<or> f_Key f \<noteq> [] \<and> f_Value f \<noteq> [] \<and> validDocumentListFilterValue L (f_Key f) (f_Value f)"
    using assms
    by (auto simp: parseDocumentListFilter_def Let_def or_empty_def split: if_splits option.splits)
  moreover have "f_Limit f \<le> max 0 mx \<and> 0 \<le> f_Limit f"
    using assms by (auto simp: parseDocumentListFilter_def Let_def split: if_splits option.splits)
  ultimately show ?thesis by blast
qed

lemma valid_value_cases:
  assumes "validDocumentListFilterValue L k v"
  obtains "k = ''id''" "uuid_Parse v \<noteq> None" | "k = ''name'' \<or> k = ''mime''"
  | "k = ''file'' \<or> k = ''public''" "v = ''true'' \<or> v = ''false''" | "k = ''created''" "\<exists>t. parse_created L v = Inr t"
  using assms
  by (cases "time_Parse_datetime L v"; cases "time_Parse_rfc3339 L v")
    (auto simp: validDocumentListFilterValue_def parse_created_def split: if_splits)

lemma valid_value_builds:
  assumes "validDocumentListFilterValue L k v" "v \<noteq> []"
  shows "validateDocumentFilter L k v = None" "\<exists>c. buildDocumentFilter L k v = Inr c"
proof -
  have created: "validateDocumentFilter L ''created'' v = None" if "parse_created L v = Inr t" for t
    using that assms(2) by (auto simp: validateDocumentFilter_def parse_created_def split: sum.splits)
  show "validateDocumentFilter L k v = None"
    using assms(1) by (cases rule: valid_value_cases)
      (use assms(2) created in \<open>auto simp: validateDocumentFilter_def strconv_ParseBool_def\<close>)
  show "\<exists>c. buildDocumentFilter L k v = Inr c"
    using assms(1) by (cases rule: valid_value_cases)
      (use assms(2) in \<open>auto simp: buildDocumentFilter_def\<close>)
qed

text \<open>C34: A query that the transport accepts is never rejected by the service or the store for its filter:
  the three validations agree, and the limit is within the configured one.\<close>

theorem accepted_filters_valid:
  assumes "parseDocumentListFilter L mx query = Some f"
  shows "validateDocumentFilter L (f_Key f) (f_Value f) = None \<and>
    (\<exists>c. buildDocumentFilter L (f_Key f) (f_Value f) = Inr c) \<and> 0 \<le> f_Limit f \<and> f_Limit f \<le> max 0 mx"
proof (cases "f_Key f = []")
  case True
  with parsed_filter [OF assms] show ?thesis
    by (simp add: validateDocumentFilter_def buildDocumentFilter_def Let_def)
next
  case False
  with parsed_filter [OF assms] valid_value_builds [of L "f_Key f" "f_Value f"] show ?thesis by blast
qed

lemma valid_created:
  assumes "validDocumentListFilterValue L ''created'' v"
  obtains t where "parse_created L v = Inr t" "normalizedFilterValue L H ''created'' v = time_Format_nano H t"
  using assms
  by (cases "time_Parse_datetime L v"; cases "time_Parse_rfc3339 L v")
    (auto simp: validDocumentListFilterValue_def normalizedFilterValue_def parse_created_def)

lemma normalized_builds:
  assumes "validDocumentListFilterValue L k v1" "validDocumentListFilterValue L k v2" "v1 \<noteq> []" "v2 \<noteq> []"
    "normalizedFilterValue L H k v1 = normalizedFilterValue L H k v2" "inj (time_Format_nano H)"
  shows "buildDocumentFilter L k v1 = buildDocumentFilter L k v2"
proof -
  consider "k = ''id''" | "k = ''created''" | "k \<noteq> ''id''" "k \<noteq> ''created''" by blast
  then show ?thesis
  proof cases
    case 1
    with assms show ?thesis
      by (auto simp: validDocumentListFilterValue_def normalizedFilterValue_def buildDocumentFilter_def Let_def split: option.splits)
  next
    case 2
    obtain t1 where "parse_created L v1 = Inr t1" "normalizedFilterValue L H k v1 = time_Format_nano H t1"
      using valid_created assms(1) 2 by blast
    moreover obtain t2 where "parse_created L v2 = Inr t2" "normalizedFilterValue L H k v2 = time_Format_nano H t2"
      using valid_created assms(2) 2 by blast
    ultimately show ?thesis using 2 assms by (simp add: buildDocumentFilter_def Let_def inj_eq)
  next
    case 3
    with assms(5) show ?thesis by (simp add: normalizedFilterValue_def)
  qed
qed

text \<open>C24: Two listings with the same cache key are the same query: the same epoch, requester, owner and
  limit, and filters for which the store builds the same condition, although values that are written
  differently share a key. A listing never shares a key with a document.\<close>

theorem list_key_determines_query:
  assumes "parseDocumentListFilter L mx query1 = Some f1" "parseDocumentListFilter L mx query2 = Some f2"
    "inj (time_Format_nano H)"
    "listCacheKey L H ep1 u1 (f_OwnerLogin f1) (f_Key f1) (f_Value f1) (f_Limit f1) =
     listCacheKey L H ep2 u2 (f_OwnerLogin f2) (f_Key f2) (f_Value f2) (f_Limit f2)"
  shows "ep1 = ep2 \<and> u1 = u2 \<and> f_OwnerLogin f1 = f_OwnerLogin f2 \<and> f_Limit f1 = f_Limit f2 \<and>
    buildDocumentFilter L (f_Key f1) (f_Value f1) = buildDocumentFilter L (f_Key f2) (f_Value f2) \<and>
    (\<forall>i v. documentCacheKey H ep1 i v \<noteq> listCacheKey L H ep1 u1 (f_OwnerLogin f1) (f_Key f1) (f_Value f1) (f_Limit f1))"
proof -
  have key: "ep1 = ep2" "u1 = u2" "f_OwnerLogin f1 = f_OwnerLogin f2" "f_Limit f1 = f_Limit f2" "f_Key f1 = f_Key f2"
    "normalizedFilterValue L H (f_Key f2) (f_Value f1) = normalizedFilterValue L H (f_Key f2) (f_Value f2)"
    using assms(4) by (auto simp: list_key_inj)
  have "buildDocumentFilter L (f_Key f2) (f_Value f1) = buildDocumentFilter L (f_Key f2) (f_Value f2)"
    using parsed_filter [OF assms(1)] parsed_filter [OF assms(2)] key normalized_builds [OF _ _ _ _ key(6) assms(3)]
    by auto
  with key show ?thesis by (simp add: keys_disjoint)
qed

subsection \<open>Uploads\<close>

lemma part_within_limit:
  assumes "readMultipartValue form name limit = Inr (Some b)"
  shows "int (length b) \<le> limit"
  using assms
  by (auto simp: readMultipartValue_def readAtMost_def Let_def map_sum_def split: if_splits list.splits sum.splits)

text \<open>C35: The uploads that the transport hands to the service have the shape the service asks for: a file
  exactly when the metadata say so, a file no larger than the limit and with a media type, JSON
  for anything else, JSON that is valid and within its own limit wherever there is any, and no more
  grants than allowed.\<close>

theorem upload_shape:
  assumes "upload_form L H lim r = Some (form, meta, name, file, public, token)"
    "upload_input L lim form meta name file public = Some (input, json, content)"
  shows "(up_File input \<noteq> None) = d_IsFile (up_Document input) \<and> int (length (d_Grants (up_Document input))) \<le> lm_MaxGrantItems lim \<and>
    (d_IsFile (up_Document input) \<longrightarrow> d_MIME (up_Document input) \<noteq> [] \<and>
       (\<exists>src n. content = Some (src, n) \<and> up_File input = Some src \<and> n \<le> lm_MaxFileBytes lim)) \<and>
    (\<not> d_IsFile (up_Document input) \<longrightarrow> d_JSON (up_Document input) \<noteq> None) \<and>
    (\<forall>j. d_JSON (up_Document input) = Some j \<longrightarrow> json_Valid L j \<and> int (length j) \<le> lm_MaxJSONBytes lim)"
proof -
  have "int (length (um_Grant meta)) \<le> lm_MaxGrantItems lim"
    using assms(1) by (auto simp: upload_form_def split: sum.splits if_splits option.splits)
  moreover have "up_Document input = \<lparr>d_ID = [], d_OwnerID = [], d_Name = name, d_MIME = or_empty (um_MIME meta),
      d_IsFile = file, d_IsPublic = public, d_JSON = json, d_StorageKey = [], d_SizeBytes = 0,
      d_CreatedAt = zero_time, d_UpdatedAt = zero_time, d_Version = 0, d_Grants = um_Grant meta\<rparr>"
    "up_File input = map_option fst content" "\<forall>j. json = Some j \<longrightarrow> json_Valid L j"
    "readMultipartValue form ''json'' (lm_MaxJSONBytes lim) = Inr json"
    "\<not> (case content of None \<Rightarrow> 0 | Some (s, bytes) \<Rightarrow> bytes) > lm_MaxFileBytes lim"
    "validUploadShape file (um_MIME meta) (json \<noteq> None) (content \<noteq> None)"
    using assms(2) by (auto simp: upload_input_def split: sum.splits if_splits option.splits)
  ultimately show ?thesis
    using part_within_limit by (auto simp: validUploadShape_def or_empty_def split: if_splits option.splits)
qed

subsection \<open>Witnesses\<close>

lemma accepted_filters_valid_witness:
  "\<exists>f. parseDocumentListFilter demo_lib 10 [(''token'', [''t'']), (''key'', [''public'']), (''value'', [''true'']), (''limit'', [''5''])] = Some f \<and>
     validateDocumentFilter demo_lib (f_Key f) (f_Value f) = None \<and> f_Limit f \<le> 10"
proof -
  have "parseDocumentListFilter demo_lib 10 [(''token'', [''t'']), (''key'', [''public'']), (''value'', [''true'']), (''limit'', [''5''])] =
      Some \<lparr>f_OwnerLogin = [], f_Key = ''public'', f_Value = ''true'', f_Limit = 5\<rparr>" by code_simp
  from this accepted_filters_valid [OF this] show ?thesis by auto
qed

lemma list_key_determines_query_witness:
  "buildDocumentFilter demo_lib ''id'' ''00000000-0000-4000-8000-0000000000D1'' = buildDocumentFilter demo_lib ''id'' did1"
proof -
  have p1: "parseDocumentListFilter demo_lib 10 [(''token'', [''t'']), (''key'', [''id'']), (''value'', [''00000000-0000-4000-8000-0000000000D1''])] =
      Some \<lparr>f_OwnerLogin = [], f_Key = ''id'', f_Value = ''00000000-0000-4000-8000-0000000000D1'', f_Limit = 0\<rparr>" by code_simp
  have p2: "parseDocumentListFilter demo_lib 10 [(''key'', [''id'']), (''value'', [did1]), (''token'', [''t''])] =
      Some \<lparr>f_OwnerLogin = [], f_Key = ''id'', f_Value = did1, f_Limit = 0\<rparr>" by code_simp
  have inj: "inj (time_Format_nano demo_http)" by (rule injI) (simp add: demo_http_def Itoa_inj)
  have "normalizedFilterValue demo_lib demo_http ''id'' ''00000000-0000-4000-8000-0000000000D1'' =
      normalizedFilterValue demo_lib demo_http ''id'' did1" by code_simp
  then have "listCacheKey demo_lib demo_http 3 uid1 [] ''id'' ''00000000-0000-4000-8000-0000000000D1'' 0 =
      listCacheKey demo_lib demo_http 3 uid1 [] ''id'' did1 0" by (simp add: list_key_inj)
  then show ?thesis
    using list_key_determines_query [OF p1 p2 inj, of 3 uid1 3 uid1] by simp
qed

definition demo_meta :: uploadMeta where
  "demo_meta = \<lparr>um_Name = Some ''n.txt'', um_File = Some True, um_Public = Some False, um_Token = Some ''t'',
     um_MIME = Some ''text/plain'', um_Grant = [''bob00002'']\<rparr>"

definition demo_form :: multipart_form where
  "demo_form = \<lparr>mp_Value = [(''meta'', [''m''])],
     mp_File = [(''file'', [\<lparr>mf_Size = 5, mf_content = Inr \<lparr>r_data = ''hello'', r_err = None\<rparr>\<rparr>])]\<rparr>"

definition demo_upload_http :: meta_lib where
  "demo_upload_http = demo_http\<lparr>multipart_parse := (\<lambda>t b n. Some demo_form), json_decode_meta := (\<lambda>b. Some (demo_meta, True))\<rparr>"

definition demo_upload_request :: request where
  "demo_upload_request = (demo_request ''POST'' ''/api/docs'')\<lparr>rq_Header := [(''Content-Type'', [''multipart/form-data''])]\<rparr>"

definition demo_upload_lib :: golib where
  "demo_upload_lib = demo_lib\<lparr>mime_ParseMediaType := (\<lambda>s. Inr (s, []))\<rparr>"

definition demo_http_limits :: limits where
  "demo_http_limits = \<lparr>lm_MaxRequestBytes = 99, lm_MaxFileBytes = 9, lm_MaxJSONBytes = 9, lm_MaxGrantItems = 5, lm_MaxListLimit = 9\<rparr>"

lemma upload_shape_witness:
  "\<exists>input json content. upload_input demo_upload_lib demo_http_limits demo_form demo_meta ''n.txt'' True False = Some (input, json, content) \<and>
     up_File input \<noteq> None \<and> d_MIME (up_Document input) \<noteq> []"
proof -
  have form: "upload_form demo_upload_lib demo_upload_http demo_http_limits demo_upload_request =
      Some (demo_form, demo_meta, ''n.txt'', True, False, ''t'')"
    by code_simp
  have "(case upload_input demo_upload_lib demo_http_limits demo_form demo_meta ''n.txt'' True False of None \<Rightarrow> False
      | Some (input, json, content) \<Rightarrow> d_IsFile (up_Document input))"
    by code_simp
  then obtain input json content where
    input: "upload_input demo_upload_lib demo_http_limits demo_form demo_meta ''n.txt'' True False = Some (input, json, content)"
      "d_IsFile (up_Document input)"
    by (auto split: option.splits)
  from upload_shape [OF form input(1)] input show ?thesis by blast
qed

end
