(* ===== verification/HttpAccess.thy ===== *)
theory HttpAccess
  imports HttpServe
begin

text \<open>
  Which requests reach the documents: the table of routes and methods, and the session check that comes
  before every operation on documents.
\<close>

subsection \<open>Routes and methods\<close>

text \<open>The API as a table: the methods of each normalized route.\<close>

definition route_methods :: "string \<Rightarrow> string list option" where
  "route_methods name =
     (if name \<in> {''/health/live'', ''/health/ready''} then Some [''GET'']
      else if name \<in> {''/api/register'', ''/api/auth''} then Some [''POST'']
      else if name = ''/api/auth/{token}'' then Some [''DELETE'']
      else if name = ''/api/docs'' then Some [''GET'', ''HEAD'', ''POST'']
      else if name = ''/api/docs/{id}'' then Some [''DELETE'', ''GET'', ''HEAD'']
      else None)"

lemma singlePathValue_prefix: "singlePathValue path prefix \<Longrightarrow> \<exists>v. path = prefix @ v \<and> v \<noteq> [] \<and> \<not> strings_Contains v ''/''"
proof (cases "strings_HasPrefix path prefix")
  case True
  then have "path = prefix @ strings_TrimPrefix path prefix"
    by (simp add: strings_TrimPrefix_def strings_HasPrefix_def) (metis append_take_drop_id)
  then show "singlePathValue path prefix \<Longrightarrow> ?thesis" by (auto simp: singlePathValue_def Let_def)
qed (simp add: singlePathValue_def strings_TrimPrefix_def)

lemma single_values:
  "\<not> singlePathValue ''/api/register'' ''/api/auth/''" "\<not> singlePathValue ''/api/register'' ''/api/docs/''"
  "\<not> singlePathValue ''/api/auth'' ''/api/auth/''" "\<not> singlePathValue ''/api/auth'' ''/api/docs/''"
  "\<not> singlePathValue ''/api/docs'' ''/api/auth/''" "\<not> singlePathValue ''/api/docs'' ''/api/docs/''"
  "\<not> singlePathValue ''/metrics'' ''/api/auth/''" "\<not> singlePathValue ''/metrics'' ''/api/docs/''"
  "singlePathValue path ''/api/docs/'' \<Longrightarrow> \<not> singlePathValue path ''/api/auth/''"
  by (auto dest!: singlePathValue_prefix)

text \<open>C33: A request for a path without a route is answered 404, one whose method the route does not have is
  answered 405 with the methods it has; neither touches anything but the response.\<close>

theorem unrouted_requests_answered:
  "case route_methods (normalizedRoute (rq_Path r)) of
     None \<Rightarrow> run_state (route L H h closedAt r) k = (Returned, k\<lparr>cn_rw := writeAPIError 404 404 ''resource not found'' (cn_rw k)\<rparr>)
   | Some ms \<Rightarrow> rq_Method r \<in> set ms \<or>
       run_state (route L H h closedAt r) k = (Returned, k\<lparr>cn_rw := methodNotAllowed ms (cn_rw k)\<rparr>)"
proof -
  consider (fixed) "rq_Path r \<in> {''/health/live'', ''/health/ready'', ''/metrics'', ''/api/register'', ''/api/auth'', ''/api/docs''}"
    | (token) "rq_Path r \<notin> {''/health/live'', ''/health/ready'', ''/metrics'', ''/api/register'', ''/api/auth'', ''/api/docs''}"
        "singlePathValue (rq_Path r) ''/api/auth/''"
    | (doc) "rq_Path r \<notin> {''/health/live'', ''/health/ready'', ''/metrics'', ''/api/register'', ''/api/auth'', ''/api/docs''}"
        "\<not> singlePathValue (rq_Path r) ''/api/auth/''" "singlePathValue (rq_Path r) ''/api/docs/''"
    | (none) "rq_Path r \<notin> {''/health/live'', ''/health/ready'', ''/metrics'', ''/api/register'', ''/api/auth'', ''/api/docs''}"
        "\<not> singlePathValue (rq_Path r) ''/api/auth/''" "\<not> singlePathValue (rq_Path r) ''/api/docs/''"
    by blast
  then show ?thesis
  proof cases
    case fixed
    have imp: "(\<not> a \<longrightarrow> b) \<Longrightarrow> a \<or> b" for a b by blast
    note defs = normalizedRoute_def route_methods_def route_def operation_def single_values Let_def
    from fixed show ?thesis unfolding insert_iff
      by (elim disjE emptyE) (simp_all add: defs imp cong: if_cong)
  next
    case token
    then show ?thesis by (simp add: normalizedRoute_def route_methods_def route_def Let_def)
  next
    case doc
    then show ?thesis by (simp add: normalizedRoute_def route_methods_def route_def Let_def)
  next
    case none
    then show ?thesis by (simp add: normalizedRoute_def route_methods_def route_def Let_def)
  qed
qed

subsection \<open>Sessions\<close>

definition with_documents :: "'w handler \<Rightarrow> 'w doc_api \<Rightarrow> 'w cache_api option \<Rightarrow> 'w handler" where
  "with_documents h docs cache = h\<lparr>h_deps := (h_deps h)\<lparr>dp_Documents := Some docs, dp_Cache := cache\<rparr>\<rparr>"

text \<open>What a request without a session may do: ask for authorization once, and answer.\<close>

definition turned_away :: "'w auth_api \<Rightarrow> 'w conn \<Rightarrow> (outcome \<times> 'w conn) \<Rightarrow> bool" where
  "turned_away auth k res \<longleftrightarrow>
     (case res of (out, k') \<Rightarrow> cn_cache k' = cn_cache k \<and>
        (cn_back k' = cn_back k \<or> (\<exists>t e. aa_Authorize auth request_ctx t (cn_back k) = (Inl e, cn_back k'))))"

lemma turned_awayI:
  "turned_away auth k (Returned, k\<lparr>cn_rw := rw\<rparr>)"
  "aa_Authorize auth request_ctx t (cn_back k) = (Inl e, w) \<Longrightarrow> turned_away auth k (Returned, k\<lparr>cn_back := w, cn_rw := rw\<rparr>)"
  by (auto simp: turned_away_def)

definition same_denial :: "'w auth_api \<Rightarrow> 'w conn \<Rightarrow> ('w conn, outcome) state \<Rightarrow> ('w conn, outcome) state \<Rightarrow> bool" where
  "same_denial auth k m m' \<longleftrightarrow> run_state m k = run_state m' k \<and> turned_away auth k (run_state m k)"

lemma denial_respond: "same_denial auth k (respond f) (respond f)"
  by (simp add: same_denial_def turned_awayI)

lemma denial_authorize:
  assumes "\<forall>t. isl (fst (aa_Authorize auth request_ctx t (cn_back k)))"
    "\<And>e. f (Inl e) = respond (writeDomainError e)" "\<And>e. f' (Inl e) = respond (writeDomainError e)"
  shows "same_denial auth k (State_Monad.bind (backend (aa_Authorize auth request_ctx t)) f)
    (State_Monad.bind (backend (aa_Authorize auth request_ctx t)) f')"
proof -
  obtain e w where "aa_Authorize auth request_ctx t (cn_back k) = (Inl e, w)"
    using assms(1) by (metis isl_def prod.collapse)
  then show ?thesis by (simp add: same_denial_def assms(2,3) turned_awayI)
qed

lemma denial_split:
  "(b \<Longrightarrow> same_denial auth k m m') \<Longrightarrow> (\<not> b \<Longrightarrow> same_denial auth k n n') \<Longrightarrow>
   same_denial auth k (if b then m else n) (if b then m' else n')"
  "same_denial auth k m m' \<Longrightarrow> (\<And>y. x = Some y \<Longrightarrow> same_denial auth k (g y) (g' y)) \<Longrightarrow>
   same_denial auth k (case x of None \<Rightarrow> m | Some y \<Rightarrow> g y) (case x of None \<Rightarrow> m' | Some y \<Rightarrow> g' y)"
  by (simp_all split: option.split)

lemma denial_panic: "same_denial auth k (State_Monad.return Panicked) (State_Monad.return Panicked)"
  by (simp add: same_denial_def turned_away_def)

lemma with_documents_simps [simp]:
  "dp_Documents (h_deps (with_documents h docs cache)) = Some docs" "dp_Auth (h_deps (with_documents h docs cache)) = dp_Auth (h_deps h)"
  "dp_Limits (h_deps (with_documents h docs cache)) = dp_Limits (h_deps h)"
  by (simp_all add: with_documents_def)

lemma denial_handlers:
  assumes auth: "dp_Auth (h_deps h) = Some auth" and denied: "\<forall>t. isl (fst (aa_Authorize auth request_ctx t (cn_back k)))"
  shows "same_denial auth k (listDocuments L H (with_documents h D C) r) (listDocuments L H (with_documents h D' C') r)"
    "same_denial auth k (readDocument L H (with_documents h D C) at r i) (readDocument L H (with_documents h D' C') at r i)"
    "same_denial auth k (uploadDocument L H' (with_documents h D C) r) (uploadDocument L H' (with_documents h D' C') r)"
    "same_denial auth k (deleteDocument H (with_documents h D C) r i) (deleteDocument H (with_documents h D' C') r i)"
  unfolding listDocuments_def readDocument_def uploadDocument_def deleteDocument_def deleteAuthorized_def
    with_documents_simps auth option.case prod.case
  by (intro denial_split denial_respond denial_panic denial_authorize [OF denied];
      simp add: denial_respond denial_authorize [OF denied] split: prod.split)+

text \<open>C18: While no session is accepted, no request reaches the documents or the response cache, whatever they
  hold: the answer, the backend and the observation of every request on documents are the same for any
  document service and cache, and the backend is changed by one authorization at most.\<close>

theorem documents_need_session:
  assumes "dp_Auth (h_deps h) = Some auth" "\<forall>t. isl (fst (aa_Authorize auth request_ctx t (cn_back k)))"
    "rq_Path r = ''/api/docs'' \<or> singlePathValue (rq_Path r) ''/api/docs/''"
  shows "run_state (route L H (with_documents h D C) at r) k = run_state (route L H (with_documents h D' C') at r) k \<and>
    turned_away auth k (run_state (route L H (with_documents h D C) at r) k)"
proof -
  note d = denial_handlers [OF assms(1,2)]
  have "same_denial auth k (route L H (with_documents h D C) at r) (route L H (with_documents h D' C') at r)"
    using assms(3)
  proof
    assume "rq_Path r = ''/api/docs''"
    then show ?thesis by (simp add: route_def single_values Let_def d denial_respond)
  next
    assume p: "singlePathValue (rq_Path r) ''/api/docs/''"
    then have "rq_Path r \<notin> {''/health/live'', ''/health/ready'', ''/api/register'', ''/api/auth'', ''/api/docs''}"
      by (auto dest!: singlePathValue_prefix)
    with p single_values(9) [OF p] show ?thesis by (simp add: route_def Let_def d denial_respond)
  qed
  then show ?thesis unfolding same_denial_def .
qed

subsection \<open>Witness\<close>

text \<open>Users who are all unknown.\<close>

definition closed_auth :: "'w auth_api" where
  "closed_auth = \<lparr>aa_Register = (\<lambda>c t l p w. (Inl (Sentinel ErrForbidden), w)), aa_Authenticate = (\<lambda>c l p w. (Inl (Sentinel ErrUnauthorized), w)),
     aa_Authorize = (\<lambda>c t w. (Inl (Sentinel ErrUnauthorized), w)), aa_Logout = (\<lambda>c t w. (Inl (Sentinel ErrUnauthorized), w))\<rparr>"

definition closed_handler :: "log_line list handler" where
  "closed_handler = bare_handler\<lparr>h_deps := bare_deps\<lparr>dp_Auth := Some closed_auth\<rparr>\<rparr>"

lemma documents_need_session_witness:
  "\<forall>D C. turned_away closed_auth \<lparr>cn_back = [], cn_rw = Buffered newBufferedResponse, cn_cache = ''none''\<rparr>
     (run_state (route demo_lib demo_http (with_documents closed_handler D C) None (demo_request ''DELETE'' ''/api/docs/d1''))
        \<lparr>cn_back = [], cn_rw = Buffered newBufferedResponse, cn_cache = ''none''\<rparr>)"
  by (intro allI documents_need_session [THEN conjunct2])
    (simp_all add: closed_handler_def closed_auth_def demo_request_def singlePathValue_def strings_TrimPrefix_def
      strings_HasPrefix_def Let_def)

end
