(* ===== verification/HttpLogic.thy ===== *)
theory HttpLogic
  imports HttpKeys HttpAccess
begin

text \<open>
  Pre- and postconditions for the handler's programs: \<open>valid P m Q\<close> says that \<open>m\<close>, started in a state
  with \<open>P\<close>, ends in a state and with a result that have \<open>Q\<close>. The rules follow the program.
\<close>

definition valid :: "('s \<Rightarrow> bool) \<Rightarrow> ('s, 'a) state \<Rightarrow> ('a \<Rightarrow> 's \<Rightarrow> bool) \<Rightarrow> bool" where
  "valid P m Q \<longleftrightarrow> (\<forall>s. P s \<longrightarrow> (case run_state m s of (a, s') \<Rightarrow> Q a s'))"

lemma validD: "valid P m Q \<Longrightarrow> P s \<Longrightarrow> run_state m s = (a, s') \<Longrightarrow> Q a s'"
  by (fastforce simp: valid_def)

lemma validI: "(\<And>s a s'. P s \<Longrightarrow> run_state m s = (a, s') \<Longrightarrow> Q a s') \<Longrightarrow> valid P m Q"
  by (auto simp: valid_def)

lemma valid_return: "(\<And>s. P s \<Longrightarrow> Q a s) \<Longrightarrow> valid P (State_Monad.return a) Q"
  by (simp add: valid_def)

lemma valid_bind: "valid P m R \<Longrightarrow> (\<And>a. valid (R a) (f a) Q) \<Longrightarrow> valid P (State_Monad.bind m f) Q"
  by (fastforce simp: valid_def split: prod.splits)

lemma valid_weaken: "valid P m Q \<Longrightarrow> (\<And>s. P' s \<Longrightarrow> P s) \<Longrightarrow> (\<And>a s. Q a s \<Longrightarrow> Q' a s) \<Longrightarrow> valid P' m Q'"
  by (fastforce simp: valid_def)

lemma valid_if: "(b \<Longrightarrow> valid P m Q) \<Longrightarrow> (\<not> b \<Longrightarrow> valid P n Q) \<Longrightarrow> valid P (if b then m else n) Q"
  by simp

lemma valid_case:
  "(x = None \<Longrightarrow> valid P n Q) \<Longrightarrow> (\<And>y. x = Some y \<Longrightarrow> valid P (g y) Q) \<Longrightarrow> valid P (case x of None \<Rightarrow> n | Some y \<Rightarrow> g y) Q"
  "(\<And>e. z = Inl e \<Longrightarrow> valid P (p e) Q) \<Longrightarrow> (\<And>y. z = Inr y \<Longrightarrow> valid P (q y) Q) \<Longrightarrow> valid P (case z of Inl e \<Rightarrow> p e | Inr y \<Rightarrow> q y) Q"
  "(\<And>a c. pr = (a, c) \<Longrightarrow> valid P (s a c) Q) \<Longrightarrow> valid P (case pr of (a, c) \<Rightarrow> s a c) Q"
  by (simp_all split: option.split sum.split prod.split)

lemma valid_prims:
  "(\<And>k a w. P k \<Longrightarrow> f (cn_back k) = (a, w) \<Longrightarrow> Q a (k\<lparr>cn_back := w\<rparr>)) \<Longrightarrow> valid P (backend f) Q"
  "(\<And>k. P k \<Longrightarrow> Q1 () (k\<lparr>cn_back := g (cn_back k)\<rparr>)) \<Longrightarrow> valid P (effect g) Q1"
  "(\<And>k. P k \<Longrightarrow> Q2 (h (cn_back k)) k) \<Longrightarrow> valid P (asks h) Q2"
  "(\<And>k. P k \<Longrightarrow> Q3 Returned (k\<lparr>cn_rw := x (cn_rw k)\<rparr>)) \<Longrightarrow> valid P (respond x) Q3"
  "(\<And>k a rw. P k \<Longrightarrow> y (cn_rw k) = (a, rw) \<Longrightarrow> Q a (k\<lparr>cn_rw := rw\<rparr>)) \<Longrightarrow> valid P (with_rw y) Q"
  "(\<And>k. P k \<Longrightarrow> Q1 () (k\<lparr>cn_cache := c\<rparr>)) \<Longrightarrow> valid P (setCache c) Q1"
  by (auto simp: valid_def split: prod.splits)

lemma valid_on_buffer:
  assumes "valid (\<lambda>k. P (cn_back k) \<and> cn_rw k = rw) m (\<lambda>a k. Q (a, cn_rw k) (cn_back k))"
  shows "valid (\<lambda>k. P (cn_back k)) (on_buffer rw m) (\<lambda>a k. Q a (cn_back k))"
proof (rule validI)
  fix k a k'
  assume P: "P (cn_back k)" and run: "run_state (on_buffer rw m) k = (a, k')"
  obtain b k1 where m: "run_state m (k\<lparr>cn_rw := rw\<rparr>) = (b, k1)" by (cases "run_state m (k\<lparr>cn_rw := rw\<rparr>)")
  have "Q (b, cn_rw k1) (cn_back k1)" by (rule validD [OF assms _ m]) (simp add: P)
  with run m show "Q a (cn_back k')" by auto
qed

text \<open>A condition on the backend alone, kept by everything a program does.\<close>

definition keeps_back :: "('w \<Rightarrow> bool) \<Rightarrow> ('w conn, 'a) state \<Rightarrow> bool" where
  "keeps_back I m \<longleftrightarrow> (\<forall>k. I (cn_back k) \<longrightarrow> I (cn_back (snd (run_state m k))))"

named_theorems back_intro

lemma keeps_backD: "keeps_back I m \<Longrightarrow> run_state m k = (a, k') \<Longrightarrow> I (cn_back k) \<Longrightarrow> I (cn_back k')"
  by (metis keeps_back_def snd_conv)

lemma back_rules [back_intro]:
  "keeps_back I (State_Monad.return a)" "keeps_back I (asks g)" "keeps_back I (respond x)" "keeps_back I (with_rw y)"
  "keeps_back I (setCache c)"
  by (auto simp: keeps_back_def split: prod.split)

lemma back_bind [back_intro]:
  fixes m :: "('w conn, 'a) state"
  assumes "keeps_back I m" "\<And>a. keeps_back I (f a)"
  shows "keeps_back I (State_Monad.bind m f)"
  unfolding keeps_back_def
proof (intro allI impI)
  fix k :: "'w conn"
  assume I: "I (cn_back k)"
  obtain a k1 where m: "run_state m k = (a, k1)" by (cases "run_state m k")
  with keeps_backD [OF assms(1) m I] assms(2) show "I (cn_back (snd (run_state (State_Monad.bind m f) k)))"
    by (simp add: keeps_back_def)
qed

lemma back_split [back_intro]:
  "(b \<Longrightarrow> keeps_back I m) \<Longrightarrow> (\<not> b \<Longrightarrow> keeps_back I n) \<Longrightarrow> keeps_back I (if b then m else n)"
  "(x = None \<Longrightarrow> keeps_back I n) \<Longrightarrow> (\<And>y. x = Some y \<Longrightarrow> keeps_back I (g y)) \<Longrightarrow> keeps_back I (case x of None \<Rightarrow> n | Some y \<Rightarrow> g y)"
  "(\<And>e. z = Inl e \<Longrightarrow> keeps_back I (p e)) \<Longrightarrow> (\<And>y. z = Inr y \<Longrightarrow> keeps_back I (q y)) \<Longrightarrow> keeps_back I (case z of Inl e \<Rightarrow> p e | Inr y \<Rightarrow> q y)"
  "(\<And>a c. pr = (a, c) \<Longrightarrow> keeps_back I (s a c)) \<Longrightarrow> keeps_back I (case pr of (a, c) \<Rightarrow> s a c)"
  by (simp_all split: option.split sum.split prod.split)

lemma back_on_buffer [back_intro]:
  fixes m :: "('w conn, 'a) state"
  assumes "keeps_back I m"
  shows "keeps_back I (on_buffer rw m)"
  unfolding keeps_back_def
proof (intro allI impI)
  fix k :: "'w conn"
  assume I: "I (cn_back k)"
  obtain b k1 where m: "run_state m (k\<lparr>cn_rw := rw\<rparr>) = (b, k1)" by (cases "run_state m (k\<lparr>cn_rw := rw\<rparr>)")
  have "I (cn_back k1)" by (rule keeps_backD [OF assms m]) (simp add: I)
  with m show "I (cn_back (snd (run_state (on_buffer rw m) k)))" by simp
qed

lemma back_ops: "(\<And>w a w'. I w \<Longrightarrow> f w = (a, w') \<Longrightarrow> I w') \<Longrightarrow> keeps_back I (backend f)"
  "(\<And>w. I w \<Longrightarrow> I (g w)) \<Longrightarrow> keeps_back I (effect g)"
  by (auto simp: keeps_back_def split: prod.split)

end
