(* ===== verification/HttpBody.thy ===== *)
theory HttpBody
  imports HttpServe "HOL-Library.Sublist"
begin

text \<open>
  What a response with status 200 carries: \<open>tells c p\<close> holds of a writer whose successful response,
  if there is to be one, is a part of \<open>c\<close> from its beginning, \<open>p\<close> being how far the handler has come.
\<close>

subsection \<open>Writers\<close>

definition says :: "bytes \<Rightarrow> observedResponse \<Rightarrow> bool" where
  "says c w \<longleftrightarrow>
     (ob_state w = ResponsePending \<longrightarrow>
        (if ob_wroteHeader w then ob_status w = 200 \<longrightarrow> prefix (ob_body w) c else ob_body w = [])) \<and>
     (ob_state w = ResponseStreaming \<or> ob_state w = ResponseStreamingTimedOut \<longrightarrow>
        map_option fst (ds_sent (ob_dst w)) = Some 200 \<longrightarrow> prefix (ds_body (ob_dst w)) c)"

datatype progress = Fresh | Told bytes | Refused | Broken

definition placed :: "progress \<Rightarrow> observedResponse \<Rightarrow> bool" where
  "placed p w \<longleftrightarrow> deadlineExceeded w \<or>
     (case p of
        Fresh \<Rightarrow> ob_state w = ResponsePending \<and> \<not> ob_wroteHeader w
      | Told b \<Rightarrow> ob_wroteHeader w \<and> ob_status w = 200 \<and>
          (ob_state w = ResponsePending \<and> (ob_head w \<or> ob_body w = b) \<or>
           ob_state w = ResponseStreaming \<and> (ob_head w \<or> ds_body (ob_dst w) = b))
      | Refused \<Rightarrow> ob_wroteHeader w \<and> ob_status w \<noteq> 200 \<and> (ob_state w = ResponsePending \<or> ob_state w = ResponseStreaming)
      | Broken \<Rightarrow> True)"

lemma says_update [simp]:
  "says c (w\<lparr>ob_tick := n\<rparr>) = says c w" "says c (w\<lparr>ob_header := h\<rparr>) = says c w" "says c (w\<lparr>ob_timeoutAt := t\<rparr>) = says c w"
  "says c (w\<lparr>ob_timedOut := b\<rparr>) = says c w" "says c (w\<lparr>ob_dst := (ob_dst w)\<lparr>ds_header := h\<rparr>\<rparr>) = says c w"
  by (simp_all add: says_def)

lemma placed_update [simp]:
  "placed p (w\<lparr>ob_header := h\<rparr>) = placed p w" "placed p (w\<lparr>ob_dst := (ob_dst w)\<lparr>ds_header := h\<rparr>\<rparr>) = placed p w"
  by (cases p; simp add: placed_def)+

lemma placed_tick: "placed p w \<Longrightarrow> placed p (w\<lparr>ob_tick := Suc (ob_tick w)\<rparr>)"
  by (cases p) (auto simp: placed_def deadlineExceeded_def split: option.splits)

lemma exceeded_placed: "deadlineExceeded w \<Longrightarrow> placed p w"
  by (simp add: placed_def)

lemma says_timeout:
  assumes "says c w" "resp_timeout rid w = (s, w')"
  shows "says c w'"
  using assms by (auto simp: resp_timeout_def says_def Let_def split: if_splits)

lemma says_interleave: "says c w \<Longrightarrow> says c (interleave w)"
  using says_timeout [of c "w\<lparr>ob_tick := Suc (ob_tick w)\<rparr>"]
  by (auto simp: interleave_def Let_def split: option.split prod.split)

lemma placed_interleave: "live w \<Longrightarrow> placed p w \<Longrightarrow> placed p (interleave w)"
  using interleave_same [of w] placed_tick exceeded_placed by metis

text \<open>A writer on its way.\<close>

definition on_way :: "bytes \<Rightarrow> progress \<Rightarrow> observedResponse \<Rightarrow> bool" where
  "on_way c p w \<longleftrightarrow> good w \<and> says c w \<and> placed p w"

lemma good_interleave: "good w \<Longrightarrow> good (interleave w)"
  by (simp add: good_def live_interleave recorded_interleave ended_interleave)

lemma on_way_interleave: "on_way c p w \<Longrightarrow> on_way c p (interleave w)"
  by (simp add: on_way_def good_interleave says_interleave) (simp add: placed_interleave good_def)

lemma on_way_broken: "on_way c p w \<Longrightarrow> on_way c Broken w"
  by (simp add: on_way_def placed_def)

lemma good_putHeader: "good w \<Longrightarrow> good (ob_putHeader n vs w)"
  by (simp add: good_def live_putHeader recorded_putHeader ended_putHeader)

lemma on_way_putHeader: "on_way c p w \<Longrightarrow> on_way c p (ob_putHeader n vs w)"
  using good_putHeader [of w n vs] on_way_interleave [of c p w]
  by (auto simp: on_way_def ob_putHeader_def Let_def)

lemma good_WriteHeader: "good w \<Longrightarrow> st \<noteq> 0 \<Longrightarrow> good (ob_WriteHeader st w)"
  by (simp add: good_def live_WriteHeader recorded_WriteHeader ended_WriteHeader)

text \<open>A header of the handler is recorded once; after that, writing another changes nothing.\<close>

lemma on_way_WriteHeader:
  assumes w: "on_way c Fresh w" and st: "st \<noteq> 0"
  shows "on_way c (if st = 200 then Told [] else Refused) (ob_WriteHeader st w)"
proof -
  let ?w1 = "interleave w"
  have g: "good (ob_WriteHeader st w)" using w good_WriteHeader st by (simp add: on_way_def)
  have w1: "on_way c Fresh ?w1" by (rule on_way_interleave [OF w])
  show ?thesis
  proof (cases "deadlineExceeded ?w1")
    case True
    then have "ob_WriteHeader st w = ?w1" by (simp add: ob_WriteHeader_def Let_def)
    with True w1 g show ?thesis by (simp add: on_way_def exceeded_placed)
  next
    case False
    with w1 have p: "ob_state ?w1 = ResponsePending" "\<not> ob_wroteHeader ?w1" "ob_body ?w1 = []" "live ?w1" "says c ?w1"
      by (auto simp: on_way_def placed_def says_def good_def)
    let ?w2 = "interleave ?w1"
    have state: "ob_state ?w2 \<noteq> ResponseStreaming" using interleave_same [OF p(4)] p(1) by auto
    have run: "ob_WriteHeader st w = ?w2\<lparr>ob_status := st, ob_wroteHeader := True\<rparr>"
      using False p(2) state by (simp add: ob_WriteHeader_def Let_def)
    have same: "ob_state ?w2 = ResponsePending \<or> \<not> deadlineExceeded ?w2 \<Longrightarrow> ?w2 = ?w1\<lparr>ob_tick := Suc (ob_tick ?w1)\<rparr>"
      using interleave_same [OF p(4)] by blast
    have "says c (ob_WriteHeader st w)"
      using says_interleave [OF p(5)] same p(3) state by (auto simp: run says_def)
    moreover have "placed (if st = 200 then Told [] else Refused) (ob_WriteHeader st w)"
      using same p by (cases "deadlineExceeded ?w2") (auto simp: run placed_def)
    ultimately show ?thesis using g by (simp add: on_way_def)
  qed
qed

lemma on_way_WriteHeader_again:
  assumes w: "on_way c p w" and st: "st \<noteq> 0" and p: "p = Refused \<or> p = Told b"
  shows "on_way c p (ob_WriteHeader st w)"
proof -
  have w1: "on_way c p (interleave w)" by (rule on_way_interleave [OF w])
  then have "deadlineExceeded (interleave w) \<or> ob_wroteHeader (interleave w)"
    using p by (auto simp: on_way_def placed_def)
  then have "ob_WriteHeader st w = interleave w" by (auto simp: ob_WriteHeader_def Let_def)
  with w1 show ?thesis by simp
qed

lemma good_startStreaming: "good w \<Longrightarrow> good (ob_startStreaming w)"
  by (simp add: good_def live_startStreaming recorded_startStreaming ended_startStreaming)

lemma on_way_startStreaming:
  assumes w: "on_way c Fresh w"
  shows "on_way c (Told []) (ob_startStreaming w)"
proof -
  let ?w1 = "interleave w"
  have g: "good (ob_startStreaming w)" using w good_startStreaming by (simp add: on_way_def)
  have w1: "on_way c Fresh ?w1" by (rule on_way_interleave [OF w])
  show ?thesis
  proof (cases "deadlineExceeded ?w1")
    case True
    then have "ob_startStreaming w = ?w1" by (simp add: ob_startStreaming_def Let_def)
    with True w1 g show ?thesis by (simp add: on_way_def exceeded_placed)
  next
    case False
    with w1 have p: "ob_state ?w1 = ResponsePending" "\<not> ob_wroteHeader ?w1" "ob_body ?w1 = []" "live ?w1"
      by (auto simp: on_way_def placed_def says_def good_def)
    then have u: "ds_sent (ob_dst ?w1) = None" "ds_body (ob_dst ?w1) = []" by (simp_all add: live_def obs_inv_def dst_untouched_def)
    define w2 where "w2 = ?w1\<lparr>ob_state := ResponseStreaming, ob_status := 200, ob_wroteHeader := True\<rparr>"
    have run: "ob_startStreaming w = (send_header (ob_header w2) 200 w2)\<lparr>ob_body := []\<rparr>"
      using False p by (simp add: ob_startStreaming_def Let_def w2_def)
    have "ds_sent (ob_dst w2) = None" "ds_body (ob_dst w2) = []" using u by (simp_all add: w2_def)
    with send_header_dst [OF this(1), of "ob_header w2" 200]
    have "says c (ob_startStreaming w) \<and> placed (Told []) (ob_startStreaming w)"
      by (simp add: run says_def placed_def) (simp add: w2_def)
    with g show ?thesis by (simp add: on_way_def)
  qed
qed

lemma good_Write: "good w \<Longrightarrow> good (snd (ob_Write data w))"
  by (simp add: good_def live_Write recorded_Write ended_Write)

text \<open>The next piece: where it goes, or why it does not.\<close>

text \<open>A write to a response that streams: as much of the data is sent as the connection takes.\<close>

lemma on_way_send:
  assumes w: "on_way c p w" and g: "good w'" and p: "p = Refused \<or> p = Told b \<and> prefix (b @ data) c"
    and says: "says c w" and pl: "placed p w" and live: "live w" and wrote: "ob_wroteHeader w" and head: "\<not> ob_head w"
    and open': "\<not> deadlineExceeded w" and streaming: "ob_state w = ResponseStreaming"
    and same: "w2 = w\<lparr>ob_tick := Suc (ob_tick w)\<rparr>" and send: "send_body data w2 = ((n, e), w')"
  shows "on_way c (if p = Refused then Refused else if e = None \<and> n = int (length data) then Told (b @ data) else Broken) w'"
proof -
  have "ds_sent (ob_dst w) \<noteq> None" using live streaming by (auto simp: live_def obs_inv_def dst_once_def)
  then have sent: "ds_sent (ob_dst w2) \<noteq> None" by (simp add: same)
  note d = send_body_dst [OF sent, of data]
  let ?room = "case ds_broken (ob_dst w2) of None \<Rightarrow> length data | Some m \<Rightarrow> m - length (ds_body (ob_dst w2))"
  have w': "w' = snd (send_body data w2)" using send by simp
  have body: "ds_body (ob_dst w') = ds_body (ob_dst w) @ take ?room data" "ds_sent (ob_dst w') = ds_sent (ob_dst w)"
    unfolding w' d by (simp_all add: same)
  have n: "n = int (length (take ?room data))"
    using send sent by (auto simp: send_body_def dst_Write_def Let_def split: prod.splits)
  have st: "ob_state w' = ResponseStreaming" "ob_wroteHeader w'" "ob_status w' = ob_status w" "ob_head w' = ob_head w"
    unfolding w' by (simp_all add: same streaming wrote)
  have rec: "map_option fst (ds_sent (ob_dst w)) = Some (ob_status w)"
    using w streaming by (simp add: on_way_def good_def recorded_def)
  have "p = Refused \<and> ob_status w \<noteq> 200 \<or>
      p = Told b \<and> ob_status w = 200 \<and> ds_body (ob_dst w) = b \<and> prefix (b @ data) c"
    using pl p open' streaming head by (auto simp: placed_def)
  then show ?thesis
  proof (elim disjE conjE)
    assume "p = Refused" "ob_status w \<noteq> 200"
    moreover from this rec body(2) have "map_option fst (ds_sent (ob_dst w')) \<noteq> Some 200" by auto
    ultimately show ?thesis using st g by (simp add: on_way_def says_def placed_def)
  next
    assume t: "p = Told b" "ob_status w = 200" "ds_body (ob_dst w) = b" "prefix (b @ data) c"
    have "prefix (b @ take ?room data) c"
      using t(4) take_is_prefix [of ?room data] by (metis prefix_order.trans same_prefix_prefix)
    moreover have "n = int (length data) \<Longrightarrow> take ?room data = data" using n by simp
    ultimately show ?thesis using st body g t by (auto simp: on_way_def says_def placed_def)
  qed
qed

lemma on_way_Write:
  assumes w: "on_way c p w" and run: "ob_Write data w = ((n, e), w')"
    and p: "p = Refused \<or> p = Told b \<and> prefix (b @ data) c"
  shows "on_way c (if p = Refused then Refused else if e = None \<and> n = int (length data) then Told (b @ data) else Broken) w'"
proof -
  let ?p' = "if p = Refused then Refused else if e = None \<and> n = int (length data) then Told (b @ data) else Broken"
  let ?w1 = "interleave w"
  have g: "good w'" using w run good_Write [of w data] by (simp add: on_way_def)
  have w1: "on_way c p ?w1" by (rule on_way_interleave [OF w])
  show ?thesis
  proof (cases "deadlineExceeded ?w1")
    case True
    then have "w' = ?w1" using run by (simp add: ob_Write_def Let_def)
    with True w1 g show ?thesis by (simp add: on_way_def exceeded_placed)
  next
    case False
    with w1 p have wrote: "ob_wroteHeader ?w1" and says: "says c ?w1" and pl: "placed p ?w1" and live: "live ?w1"
      by (auto simp: on_way_def placed_def good_def)
    show ?thesis
    proof (cases "ob_head ?w1")
      case True
      then have "w' = ?w1" using run False wrote by (simp add: ob_Write_def Let_def)
      with w1 g True p pl False show ?thesis by (auto simp: on_way_def placed_def)
    next
      case head: False
      consider (pending) "ob_state ?w1 = ResponsePending" | (streaming) "ob_state ?w1 = ResponseStreaming"
        using pl False p by (auto simp: placed_def)
      then show ?thesis
      proof cases
        case pending
        then have w': "w' = ?w1\<lparr>ob_body := ob_body ?w1 @ data\<rparr>" "e = None" "n = int (length data)"
          using run False wrote head by (auto simp: ob_Write_def Let_def)
        have "says c w'" "placed ?p' w'"
          using pl p pending wrote says head by (auto simp: w' says_def placed_def False)
        with g show ?thesis by (simp add: on_way_def)
      next
        case streaming
        let ?w2 = "interleave ?w1"
        have w2: "on_way c p ?w2" by (rule on_way_interleave [OF w1])
        show ?thesis
        proof (cases "ob_state ?w2 \<noteq> ResponseStreaming \<or> deadlineExceeded ?w2")
          case True
          then have "w' = ?w2" "e \<noteq> None" using run False wrote head streaming by (auto simp: ob_Write_def Let_def)
          with w2 g p show ?thesis by (auto simp: on_way_def placed_def)
        next
          case False2: False
          have same: "?w2 = ?w1\<lparr>ob_tick := Suc (ob_tick ?w1)\<rparr>" using interleave_same [OF live] False2 by blast
          have "send_body data ?w2 = ((n, e), w')"
            using run False False2 wrote head streaming by (simp add: ob_Write_def Let_def)
          then show ?thesis by (rule on_way_send [OF w1 g p says pl live wrote head False streaming same])
        qed
      qed
    qed
  qed
qed

subsection \<open>Responses\<close>

definition tells :: "bytes \<Rightarrow> progress \<Rightarrow> writer \<Rightarrow> bool" where
  "tells c p rw \<longleftrightarrow> (\<exists>w. rw = Observed w \<and> on_way c p w)"

lemma tells_broken: "tells c p rw \<Longrightarrow> tells c Broken rw"
  using on_way_broken by (auto simp: tells_def)

lemma tells_putHeader: "tells c p rw \<Longrightarrow> tells c p (wr_putHeader n vs rw)"
  by (auto simp: tells_def on_way_putHeader)

lemma tells_put_headers: "tells c p rw \<Longrightarrow> tells c p (put_headers hs rw)"
  by (induction hs arbitrary: rw) (auto simp: put_headers_def case_prod_beta tells_putHeader)

lemma tells_WriteHeader:
  "tells c Fresh rw \<Longrightarrow> tells c (Told []) (wr_WriteHeader 200 rw)"
  "tells c Fresh rw \<Longrightarrow> st \<noteq> 0 \<Longrightarrow> st \<noteq> 200 \<Longrightarrow> tells c Refused (wr_WriteHeader st rw)"
  "tells c (Told b) rw \<Longrightarrow> st \<noteq> 0 \<Longrightarrow> tells c (Told b) (wr_WriteHeader st rw)"
  using on_way_WriteHeader [of c _ 200] on_way_WriteHeader [of c _ st] on_way_WriteHeader_again [of c "Told b" _ st b]
  by (auto simp: tells_def)

lemma tells_beginStreaming: "tells c Fresh rw \<Longrightarrow> tells c (Told []) (beginStreaming rw)"
  by (auto simp: tells_def on_way_startStreaming)

lemma tells_Write:
  assumes "tells c (Told b) rw" "prefix (b @ data) c" "wr_Write data rw = ((n, e), rw')"
  shows "tells c (if e = None \<and> n = int (length data) then Told (b @ data) else Broken) rw'"
proof -
  obtain w where w: "rw = Observed w" "on_way c (Told b) w" using assms(1) by (auto simp: tells_def)
  obtain w' where w': "ob_Write data w = ((n, e), w')" "rw' = Observed w'" using assms(3) w(1) by (auto split: prod.splits)
  from on_way_Write [OF w(2) w'(1), of b] assms(2) w'(2) show ?thesis by (simp add: tells_def)
qed

lemma tells_Write_refused: "tells c Refused rw \<Longrightarrow> tells c Broken (snd (wr_Write data rw))"
proof -
  assume "tells c Refused rw"
  then obtain w where w: "rw = Observed w" "on_way c Refused w" by (auto simp: tells_def)
  obtain n e w' where run: "ob_Write data w = ((n, e), w')" by (metis surj_pair)
  from on_way_Write [OF w(2) run] have "on_way c Broken w'" by (simp add: on_way_broken)
  then show ?thesis using w(1) run by (simp add: tells_def)
qed

lemma tells_Write_all:
  assumes "tells c (Told b) rw" "prefix (b @ data) c"
  shows "tells c Broken (snd (wr_Write data rw))"
proof -
  obtain n e rw' where run: "wr_Write data rw = ((n, e), rw')" by (metis surj_pair)
  from tells_Write [OF assms run] run show ?thesis by (auto split: if_splits intro: tells_broken)
qed

text \<open>Answers: a refusal says nothing, a success says what it is given.\<close>

lemma tells_refusal:
  assumes "tells c Fresh rw" "st \<noteq> 0" "st \<noteq> 200"
  shows "tells c Broken (write_encoded st enc rw)" "tells c Broken (writeAPIError st code msg rw)"
proof -
  show "tells c Broken (write_encoded st enc rw)" for enc
    unfolding write_encoded_def Let_def
    by (intro tells_Write_refused tells_WriteHeader(2) tells_putHeader assms)
  then show "tells c Broken (writeAPIError st code msg rw)" by (simp add: writeAPIError_def)
qed

lemma tells_errors:
  assumes "tells c Fresh rw"
  shows "tells c Broken (writeDomainError e rw)" "tells c Broken (badRequest rw)" "tells c Broken (internalError rw)"
    "tells c Broken (notImplemented rw)"
  using tells_refusal(2) [OF assms]
  by (simp_all add: writeDomainError_def badRequest_def internalError_def notImplemented_def)

lemma tells_cached:
  assumes rw: "tells c Fresh rw" and e: "e_status e = 0 \<or> e_status e = 200 \<Longrightarrow> prefix (e_body e) c"
  shows "tells c Broken (writeCachedResponse e rw)"
proof -
  let ?rw = "put_headers (e_header e) rw" and ?st = "if e_status e = 0 then 200 else e_status e"
  have h: "tells c Fresh ?rw" by (rule tells_put_headers [OF rw])
  show ?thesis
  proof (cases "?st = 200")
    case True
    then have "prefix ([] @ e_body e) c" using e by (auto split: if_splits)
    from tells_Write_all [OF tells_WriteHeader(1) [OF h] this] True show ?thesis
      by (simp add: writeCachedResponse_def Let_def split: if_splits)
  next
    case False
    then have "e_status e \<noteq> 0" "e_status e \<noteq> 200" by auto
    from tells_Write_refused [OF tells_WriteHeader(2) [OF h this]] this show ?thesis
      by (simp add: writeCachedResponse_def Let_def)
  qed
qed

lemma tells_cached_file:
  assumes rw: "tells c Fresh rw" and e: "prefix (e_body e) c"
  shows "tells c Broken (writeCachedFileResponse e rw)"
proof -
  let ?rw = "beginStreaming (put_headers (e_header e) rw)" and ?st = "if e_status e = 0 then 200 else e_status e"
  have "tells c (Told []) (wr_WriteHeader ?st ?rw)"
    by (rule tells_WriteHeader(3) [OF tells_beginStreaming [OF tells_put_headers [OF rw]]]) simp
  from tells_Write_all [OF this] e show ?thesis by (simp add: writeCachedFileResponse_def Let_def)
qed

lemma concat_chunks: "concat (chunks data) = data"
  by (induction data rule: chunks.induct) (subst chunks.simps, simp add: fileCopyBufferBytes_def)

lemma tells_copy:
  assumes "tells c (Told b) rw" "prefix (b @ concat cs) c"
  shows "tells c Broken (fst (snd (copy_chunks cs (rw, cap))))"
  using assms
proof (induction cs arbitrary: b rw cap)
  case Nil
  then show ?case using tells_broken by simp
next
  case (Cons x cs)
  obtain n e rw1 where run: "wr_Write x rw = ((n, e), rw1)" by (metis surj_pair)
  have "prefix (b @ x) c" using Cons.prems(2) by (auto simp: prefix_def)
  note t = tells_Write [OF Cons.prems(1) this run]
  show ?case
  proof (cases "e = None \<and> n = int (length x)")
    case True
    then have "tells c (Told (b @ x)) rw1" using t by simp
    from Cons.IH [OF this] Cons.prems(2) True run show ?thesis by (simp add: multi_Write_def)
  next
    case False
    with t have "tells c Broken rw1" by simp
    moreover have "fst (snd (copy_chunks (x # cs) (rw, cap))) = rw1"
      using False run by (cases e) (simp_all add: multi_Write_def)
    ultimately show ?thesis by simp
  qed
qed

lemma tells_stream:
  assumes rw: "tells c Fresh rw" and data: "prefix (r_data r) c"
  shows "tells c Broken (snd (writeFileStream L at x r cap rw))"
proof -
  have h: "tells c (Told []) (wr_WriteHeader 200 (beginStreaming (writeFileHeaders L x rw)))"
    unfolding writeFileHeaders_def
    by (rule tells_WriteHeader(3) [OF tells_beginStreaming [OF tells_put_headers [OF rw]]]) simp
  have "prefix (r_data (closed_reader at r)) c"
    using data take_is_prefix prefix_order.trans by (fastforce simp: closed_reader_def split: option.split)
  then have "prefix ([] @ concat (chunks (r_data (closed_reader at r)))) c" by (simp add: concat_chunks)
  from tells_copy [OF h this, of cap] show ?thesis
    by (simp add: writeFileStream_def Let_def io_CopyBuffer_def split: prod.split option.split) auto
qed

lemma tells_data:
  assumes rw: "tells c Fresh rw" and enc: "\<And>enc. json_Marshal H (JObj [(''data'', v)]) = Some enc \<Longrightarrow> prefix (enc @ nl) c"
  shows "tells c Broken (writeData H 200 v rw)"
proof (cases "json_Marshal H (JObj [(''data'', v)])")
  case None
  then show ?thesis using tells_refusal(2) [OF rw] by (simp add: writeData_def writeJSON_def)
next
  case (Some x)
  with enc have "prefix ([] @ x @ nl) c" by simp
  from tells_Write_all [OF tells_WriteHeader(1) [OF tells_putHeader [OF tells_putHeader [OF rw]]] this] Some show ?thesis
    by (simp add: writeData_def writeJSON_def write_encoded_def Let_def)
qed

subsection \<open>Captures\<close>

lemma capture_all:
  assumes "copy_chunks cs (rw, Some cap) = (None, rw', Some cap')" "\<not> cp_overflow cap'" "0 \<le> cp_remaining cap"
  shows "cp_buffer cap' = cp_buffer cap @ concat cs \<and> \<not> cp_overflow cap"
  using assms
proof (induction cs arbitrary: rw cap)
  case (Cons x cs)
  obtain n rw1 where run: "wr_Write x rw = ((n, None), rw1)" "n = int (length x)"
    "copy_chunks cs (rw1, Some (cap_Write x cap)) = (None, rw', Some cap')"
    using Cons.prems(1) by (auto simp: multi_Write_def split: prod.splits option.splits if_splits)
  have rem: "0 \<le> cp_remaining (cap_Write x cap)" using Cons.prems(3) by (simp add: cap_Write_def Let_def)
  from Cons.IH [OF run(3) Cons.prems(2) rem] show ?case by (auto simp: cap_Write_def Let_def split: if_splits)
qed simp

lemma stream_capture:
  assumes "writeFileStream L at x r (Some \<lparr>cp_buffer = [], cp_remaining = n, cp_overflow = False\<rparr>) rw = ((None, Some cap), rw')"
    "\<not> cp_overflow cap" "0 \<le> n"
  shows "cp_buffer cap = r_data r \<and> r_err r = None"
proof -
  let ?rw = "wr_WriteHeader 200 (beginStreaming (writeFileHeaders L x rw))"
  let ?cap = "\<lparr>cp_buffer = [], cp_remaining = n, cp_overflow = False\<rparr>"
  have err: "r_err (closed_reader at r) = None"
    and copy: "copy_chunks (chunks (r_data (closed_reader at r))) (?rw, Some ?cap) = (None, rw', Some cap)"
    using assms(1) by (auto simp: writeFileStream_def Let_def io_CopyBuffer_def split: prod.splits option.splits)
  then have "closed_reader at r = r" by (simp add: closed_reader_def split: option.splits)
  with err capture_all [OF copy assms(2)] assms(3) show ?thesis by (simp add: concat_chunks)
qed

subsection \<open>On the wire\<close>

definition wire_says :: "bytes \<Rightarrow> dst \<Rightarrow> bool" where
  "wire_says c d \<longleftrightarrow> (map_option fst (ds_sent d) = Some 200 \<longrightarrow> prefix (ds_body d) c)"

lemma wire_streaming:
  "says c w \<Longrightarrow> ob_state w = ResponseStreaming \<or> ob_state w = ResponseStreamingTimedOut \<Longrightarrow> wire_says c (ob_dst w)"
  by (auto simp: says_def wire_says_def)

lemma wire_timed_out: "good w \<Longrightarrow> ob_state w = ResponseTimedOut \<Longrightarrow> wire_says c (ob_dst w)"
  by (simp add: good_def live_def obs_inv_def dst_timed_out_def wire_says_def)

lemma wire_finish:
  assumes g: "good w" and s: "says c w" and st: "ob_state w = ResponsePending \<or> ob_state w = ResponseStreaming"
  shows "wire_says c (ob_dst (ob_finish w))"
proof (cases "ob_state w = ResponsePending")
  case False
  with s st show ?thesis using wire_streaming by (simp add: ob_finish_def)
next
  case True
  define w1 where "w1 = (let w = w\<lparr>ob_state := ResponseCompleted\<rparr>
    in if \<not> ob_wroteHeader w then w\<lparr>ob_status := 200, ob_wroteHeader := True\<rparr> else w)"
  define w2 where "w2 = (if hdr_get ''Content-Length'' (ob_header w1) = [] \<and> responseMayHaveBody (ob_status w1)
    then w1\<lparr>ob_header := hdr_set ''Content-Length'' (strconv_Itoa (int (length (ob_body w1)))) (ob_header w1)\<rparr> else w1)"
  define w3 where "w3 = send_header (ob_header w2) (ob_status w1) w2"
  define w4 where "w4 = (if \<not> ob_head w3 \<and> responseMayHaveBody (ob_status w1) then snd (send_body (ob_body w3) w3) else w3)"
  have fin: "ob_finish w = w4\<lparr>ob_body := []\<rparr>"
    unfolding ob_finish_def Let_def w4_def w3_def w2_def w1_def by (simp only: True simp_thms if_False)
  have u: "ds_sent (ob_dst w2) = None" "ds_body (ob_dst w2) = []" "ob_body w2 = ob_body w"
    using g True by (simp_all add: w2_def w1_def Let_def good_def live_def obs_inv_def dst_untouched_def)
  have pre: "ob_status w1 = 200 \<Longrightarrow> prefix (ob_body w) c"
    using s True by (auto simp: w1_def Let_def says_def split: if_splits)
  note d = send_header_dst [OF u(1), of "ob_header w2" "ob_status w1"]
  have w3: "ds_sent (ob_dst w3) = Some (ob_status w1, cloneHeader (ob_header w2))" "ds_body (ob_dst w3) = []" "ob_body w3 = ob_body w"
    using d u by (simp_all add: w3_def)
  have some: "ds_sent (ob_dst w3) \<noteq> None" using w3 by simp
  note b = send_body_dst [OF some, of "ob_body w3"]
  have "prefix (take n (ob_body w)) c" if "ob_status w1 = 200" for n
    using pre [OF that] take_is_prefix prefix_order.trans by blast
  then show ?thesis unfolding fin using w3 b by (simp add: w4_def wire_says_def)
qed

lemma says_replaced:
  assumes g: "good w" and q: "still w" "ob_timedOut w = None" and s: "says c w"
  shows "says c (replaceWithInternalError w)"
proof (cases "ob_state w = ResponsePending")
  case False
  with s show ?thesis by (simp add: replaceWithInternalError_def)
next
  case True
  define w1 where "w1 = (ob_reset w)\<lparr>ob_header := hdr_set ''X-Request-ID'' (hdr_get ''X-Request-ID'' (ob_header w)) (ob_header (ob_reset w))\<rparr>"
  have "good w1"
    using g q True
    by (auto simp: w1_def ob_reset_def good_def live_def obs_inv_def dst_untouched_def recorded_def ended_def still_def ob_setup_def
        deadlineExceeded_def)
  then have "tells c Fresh (Observed w1)"
    using True by (simp add: tells_def on_way_def says_def placed_def w1_def ob_reset_def)
  from tells_errors(3) [OF this] obtain w2 where "internalError (Observed w1) = Observed w2" "says c w2"
    by (auto simp: tells_def on_way_def)
  then show ?thesis using True by (simp add: replaceWithInternalError_def Let_def w1_def)
qed

lemma settle_wire:
  assumes g: "good w" and s: "says c w" and run: "settle x out w = (ending, w')" and rid: "ex_requestID x = ob_requestID w"
  shows "wire_says c (ob_dst w')"
proof -
  let ?w = "w\<lparr>ob_timeoutAt := None\<rparr>"
  have g': "good ?w" "still ?w" using g by (auto simp: good_def live_def obs_inv_def dst_defs still_def split: response_state.splits)
  have s': "says c ?w" using s by simp
  show ?thesis
  proof (cases "ob_timedOut w")
    case (Some streaming)
    then have "w' = ?w" using run by (simp add: settle_def Let_def)
    moreover have "ob_state ?w = (if streaming then ResponseStreamingTimedOut else ResponseTimedOut)"
      using g Some by (auto simp: good_def ended_def split: if_splits)
    ultimately show ?thesis using wire_streaming [OF s'] wire_timed_out [OF g'(1)] by (cases streaming) simp_all
  next
    case None
    then have none: "ob_timedOut ?w = None" by simp
    show ?thesis
    proof (cases "deadlineExceeded ?w")
      case True
      with run None obtain st where st: "resp_timeout (ob_requestID ?w) ?w = (st, w')"
        by (auto simp: settle_def Let_def rid split: prod.splits)
      have sent: "sent_for (True, st, False) w'" using timeout_sent [OF g'(1) True st none] by simp
      have state: "ob_state w' = (if st then ResponseStreamingTimedOut else ResponseTimedOut)"
        using timeout_state [OF _ st] g' by (simp add: good_def live_def)
      show ?thesis
      proof (cases st)
        case True
        with wire_streaming [OF says_timeout [OF s' st]] state show ?thesis by simp
      next
        case False
        with sent show ?thesis by (simp add: sent_for_def wire_says_def)
      qed
    next
      case False
      let ?v = "if out = Panicked then replaceWithInternalError ?w else ?w"
      have w': "w' = ob_finish ?v" using run None False by (auto simp: settle_def Let_def split: if_splits)
      have "good ?v" "ob_timedOut ?v = None" "says c ?v"
        using internalError_good [OF g' none] says_replaced [OF g' none s'] g' none s' by simp_all
      from wire_finish [OF this(1,3) good_pending [OF this(1,2)]] show ?thesis by (simp add: w')
    qed
  qed
qed

end
