(* ===== verification/HttpCache.thy ===== *)
theory HttpCache
  imports HttpLogic HttpBody
begin

text \<open>
  The response cache never changes what a client gets. The contract of the handler's dependencies is
  a locale over an arbitrary backend: \<open>stored w i\<close> is the document with its bytes that the id \<open>i\<close> names,
  \<open>known w u\<close> says that \<open>u\<close> is a registered user, \<open>view w\<close> gives the addressable cache entries.

  A document is never changed, only created and deleted. So the history of documents, a map from ids to
  documents and bytes, only grows, provided that no id is used twice, and an entry is good for ever when
  it renders the document of its key in that history.
\<close>

subsection \<open>What an entry renders\<close>

definition json_header :: "bytes \<Rightarrow> header" where
  "json_header body = [(''Content-Type'', [''application/json; charset=utf-8'']), (''Content-Length'', [strconv_Itoa (int (length body))])]"

definition rendered :: "golib \<Rightarrow> 'm http_lib \<Rightarrow> document \<times> bytes \<Rightarrow> entry \<Rightarrow> bool" where
  "rendered L H p e \<longleftrightarrow>
     e_status e = 200 \<and> (e_omitted e \<longrightarrow> e_body e = []) \<and>
     (if d_IsFile (fst p) then
        \<exists>n. e_header e = e_header (fileMetadataEntry L ((fst p)\<lparr>d_SizeBytes := n\<rparr>) []) \<and>
            (e_omitted e \<or> e_body e = snd p \<and> n = int (length (snd p)))
      else
        \<exists>enc. json_Marshal H (JObj [(''data'', raw_json (fst p))]) = Some enc \<and> e_header e = json_header (enc @ nl) \<and>
            (e_omitted e \<or> e_body e = enc @ nl))"

text \<open>The body of a document.\<close>

definition document_body :: "'m http_lib \<Rightarrow> document \<times> bytes \<Rightarrow> bytes" where
  "document_body H p =
     (if d_IsFile (fst p) then snd p
      else case json_Marshal H (JObj [(''data'', raw_json (fst p))]) of None \<Rightarrow> [] | Some enc \<Rightarrow> enc @ nl)"

lemma rendered_body: "rendered L H p e \<Longrightarrow> prefix (e_body e) (document_body H p)"
  by (auto simp: rendered_def document_body_def split: if_splits)

definition ok_entry :: "golib \<Rightarrow> 'm http_lib \<Rightarrow> (string \<Rightarrow> (document \<times> bytes) option) \<Rightarrow> string \<Rightarrow> entry \<Rightarrow> bool" where
  "ok_entry L H hist key e \<longleftrightarrow> 200 \<le> e_status e \<and> e_status e < 300 \<and>
     (\<forall>ep i v. key = documentCacheKey H ep i v \<longrightarrow> (\<exists>p. hist i = Some p \<and> rendered L H p e))"

text \<open>The invariant of the cache against a history.\<close>

definition faithful ::
  "golib \<Rightarrow> 'm http_lib \<Rightarrow> ('w \<Rightarrow> bool) \<Rightarrow> ('w \<Rightarrow> string \<Rightarrow> (document \<times> bytes) option) \<Rightarrow> ('w \<Rightarrow> string \<Rightarrow> entry option) \<Rightarrow>
   (string \<Rightarrow> (document \<times> bytes) option) \<Rightarrow> 'w \<Rightarrow> bool" where
  "faithful L H ok stored view hist w \<longleftrightarrow>
     ok w \<and> stored w \<subseteq>\<^sub>m hist \<and> (\<forall>key e. view w key = Some e \<longrightarrow> ok_entry L H hist key e)"

lemma rendered_variant: "rendered L H p e \<Longrightarrow> stored_variant e e' \<Longrightarrow> rendered L H p e'"
  by (auto simp: rendered_def stored_variant_def)

lemma ok_entry_status: "ok_entry L H hist key e \<Longrightarrow> e_status e \<noteq> 0"
  by (auto simp: ok_entry_def)

lemma ok_entry_variant: "ok_entry L H hist key e \<Longrightarrow> stored_variant e e' \<Longrightarrow> ok_entry L H hist key e'"
proof -
  assume e: "ok_entry L H hist key e" and v: "stored_variant e e'"
  have "e_status e' = e_status e" using v by (auto simp: stored_variant_def)
  then show "ok_entry L H hist key e'" using e rendered_variant [OF _ v] unfolding ok_entry_def by metis
qed

lemma ok_entry_list: "200 \<le> e_status e \<Longrightarrow> e_status e < 300 \<Longrightarrow> ok_entry L H hist (listCacheKey L H ep u ow k v n) e"
  by (simp add: ok_entry_def keys_disjoint [THEN not_sym])

lemma ok_entry_mono: "ok_entry L H hist key e \<Longrightarrow> hist \<subseteq>\<^sub>m hist' \<Longrightarrow> ok_entry L H hist' key e"
  unfolding ok_entry_def map_le_def by (metis domI)

lemma ok_entry_document: "ok_entry L H hist (documentCacheKey H ep i v) e \<longleftrightarrow> (\<exists>p. hist i = Some p \<and> rendered L H p e)"
  by (auto simp: ok_entry_def document_key_inj rendered_def)

text \<open>What a load of a JSON document leaves in its buffer.\<close>

lemma buffered_json:
  assumes "\<not> d_IsFile (ct_Document ct)"
    "writeDocumentContent L H at ct (Buffered newBufferedResponse) = (complete, rw)"
    "200 \<le> e_status (buffered_entry tags rw)" "e_status (buffered_entry tags rw) < 300"
  shows "rendered L H (ct_Document ct, data) (buffered_entry tags rw) \<and> \<not> e_omitted (buffered_entry tags rw)"
  using assms
  by (cases "json_Marshal H (JObj [(''data'', raw_json (ct_Document ct))])")
    (auto simp: writeDocumentContent_def writeData_def writeJSON_def writeAPIError_def write_encoded_def Let_def
      newBufferedResponse_def bf_WriteHeader_def bf_Write_def buffered_entry_def rendered_def json_header_def cloneHeader_def empty_entry_def)

subsection \<open>The contract\<close>

definition frame_ok ::
  "('w \<Rightarrow> bool) \<Rightarrow> ('w \<Rightarrow> string \<Rightarrow> (document \<times> bytes) option) \<Rightarrow> ('w \<Rightarrow> string \<Rightarrow> entry option) \<Rightarrow> ('w \<Rightarrow> user \<Rightarrow> bool) \<Rightarrow>
   'w \<Rightarrow> 'w \<Rightarrow> bool" where
  "frame_ok ok stored view known w w' \<longleftrightarrow>
     ok w' \<and> stored w' = stored w \<and> view w' \<subseteq>\<^sub>m view w \<and> (\<forall>u. known w u \<longrightarrow> known w' u)"

locale cached_backend =
  fixes h :: "'w handler"
    and auth :: "'w auth_api"
    and docs :: "'w doc_api"
    and getMetadata :: "ctx \<Rightarrow> user \<Rightarrow> string \<Rightarrow> ('w, document) op"
    and cache :: "'w cache_api"
    and inv :: "'w \<Rightarrow> bool"
    and stored :: "'w \<Rightarrow> string \<Rightarrow> (document \<times> bytes) option"
    and known :: "'w \<Rightarrow> user \<Rightarrow> bool"
    and view :: "'w \<Rightarrow> string \<Rightarrow> entry option"
  assumes parts: "dp_Auth (h_deps h) = Some auth" "dp_Documents (h_deps h) = Some docs" "dp_Cache (h_deps h) = Some cache"
      "da_GetMetadata docs = Some getMetadata"
    and register_frame: "inv w \<Longrightarrow> aa_Register auth request_ctx t l p w = (r1, w') \<Longrightarrow> frame_ok inv stored view known w w'"
    and authenticate_frame: "inv w \<Longrightarrow> aa_Authenticate auth request_ctx l p w = (r2, w') \<Longrightarrow> frame_ok inv stored view known w w'"
    and logout_frame: "inv w \<Longrightarrow> aa_Logout auth request_ctx t w = (r3, w') \<Longrightarrow> frame_ok inv stored view known w w'"
    and authorize_frame: "inv w \<Longrightarrow> aa_Authorize auth request_ctx t w = (r4, w') \<Longrightarrow>
      frame_ok inv stored view known w w' \<and> (\<forall>u. r4 = Inr u \<longrightarrow> known w' u)"
    and list_frame: "inv w \<Longrightarrow> known w u \<Longrightarrow> da_List docs request_ctx u f w = (r5, w') \<Longrightarrow> frame_ok inv stored view known w w'"
    and metadata_frame: "inv w \<Longrightarrow> known w u \<Longrightarrow> getMetadata request_ctx u i w = (r6, w') \<Longrightarrow>
      frame_ok inv stored view known w w' \<and>
      (\<forall>x. r6 = Inr x \<longrightarrow> (\<exists>data. stored w i = Some (x, data) \<and> readable u x))"
    and get_frame: "inv w \<Longrightarrow> known w u \<Longrightarrow> da_Get docs request_ctx u i w = (r7, w') \<Longrightarrow>
      frame_ok inv stored view known w w' \<and>
      (\<forall>ct. r7 = Inr ct \<longrightarrow> (\<exists>x data. stored w i = Some (x, data) \<and> readable u x \<and>
         (if d_IsFile x then ct = \<lparr>ct_Document = x\<lparr>d_SizeBytes := int (length data)\<rparr>, ct_File = Some \<lparr>r_data = data, r_err = None\<rparr>\<rparr>
          else ct = \<lparr>ct_Document = x, ct_File = None\<rparr>)))"
    and upload_frame: "inv w \<Longrightarrow> known w u \<Longrightarrow> da_Upload docs request_ctx u input w = (r8, w') \<Longrightarrow>
      inv w' \<and> view w' \<subseteq>\<^sub>m view w \<and> (\<forall>v. known w v \<longrightarrow> known w' v)"
    and delete_frame: "inv w \<Longrightarrow> known w u \<Longrightarrow> da_Delete docs request_ctx u i w = (r9, w') \<Longrightarrow>
      inv w' \<and> view w' \<subseteq>\<^sub>m view w \<and> (\<forall>v. known w v \<longrightarrow> known w' v)"
    and cget_frame: "inv w \<Longrightarrow> ca_Get cache request_ctx key w = (found, w') \<Longrightarrow>
      frame_ok inv stored view known w w' \<and> (\<forall>e. found = Some e \<longrightarrow> view w key = Some e)"
    and cset_frame: "inv w \<Longrightarrow> c = context_WithoutCancel request_ctx \<Longrightarrow>
      inv (ca_Set cache c key e ttl w) \<and> stored (ca_Set cache c key e ttl w) = stored w \<and>
      (\<forall>u. known w u \<longrightarrow> known (ca_Set cache c key e ttl w) u) \<and>
      (\<forall>key' e'. view (ca_Set cache c key e ttl w) key' = Some e' \<longrightarrow> view w key' = Some e' \<or> key' = key \<and> stored_variant e e')"
    and cinvalidate_frame: "inv w \<Longrightarrow> frame_ok inv stored view known w (ca_Invalidate cache (context_WithoutCancel request_ctx) tags w)"
    and epoch_frame: "inv w \<Longrightarrow> frame_ok inv stored view known w (ep_Add1 (h_cacheEpoch h) w)"
    and metrics_frame: "dp_Metrics (h_deps h) = Some m \<Longrightarrow> inv w \<Longrightarrow>
      frame_ok inv stored view known w (me_ObserveCache m hit w) \<and> frame_ok inv stored view known w (me_SetCacheSize m bytes items w) \<and>
      frame_ok inv stored view known w (me_ObserveFile m dir n w) \<and>
      frame_ok inv stored view known w (me_ObserveRequest m name method status elapsed w) \<and>
      (\<forall>f. me_ObserveTimeout m = Some f \<longrightarrow> frame_ok inv stored view known w (f name method streaming w))"
    and logger_frame: "dp_Logger (h_deps h) = Some log \<Longrightarrow> inv w \<Longrightarrow> frame_ok inv stored view known w (log line w)"
    and readiness_frame: "dp_Readiness (h_deps h) = Some probe \<Longrightarrow> inv w \<Longrightarrow> probe request_ctx w = (r10, w') \<Longrightarrow>
      frame_ok inv stored view known w w'"
    and flight_frame: "inv w \<Longrightarrow> h_loads h key w = (flight, w') \<Longrightarrow> frame_ok inv stored view known w w'"
begin

lemma frame_trans: "frame_ok inv stored view known w1 w2 \<Longrightarrow> frame_ok inv stored view known w2 w3 \<Longrightarrow> frame_ok inv stored view known w1 w3"
  by (auto simp: frame_ok_def intro: map_le_trans)

lemma frame_refl: "inv w \<Longrightarrow> frame_ok inv stored view known w w"
  by (simp add: frame_ok_def)

text \<open>The invariant with some condition on the documents and with some registered users.\<close>

definition holds ::
  "golib \<Rightarrow> 'm http_lib \<Rightarrow> ((string \<Rightarrow> (document \<times> bytes) option) \<Rightarrow> bool) \<Rightarrow> (string \<Rightarrow> (document \<times> bytes) option) \<Rightarrow>
   user set \<Rightarrow> 'w \<Rightarrow> bool" where
  "holds L H S hist us w \<longleftrightarrow>
     inv w \<and> S (stored w) \<and> (\<forall>key e. view w key = Some e \<longrightarrow> ok_entry L H hist key e) \<and> (\<forall>u \<in> us. known w u)"

lemma holds_inv: "holds L H S hist us w \<Longrightarrow> inv w"
  by (simp add: holds_def)

lemma holds_frame: "holds L H S hist us w \<Longrightarrow> frame_ok inv stored view known w w' \<Longrightarrow> holds L H S hist us w'"
proof -
  assume w: "holds L H S hist us w" and f: "frame_ok inv stored view known w w'"
  have "view w key = Some e" if "view w' key = Some e" for key e
    using f that unfolding frame_ok_def map_le_def by (metis domI)
  then show "holds L H S hist us w'" using w f by (simp add: holds_def frame_ok_def)
qed

lemma holds_view: "holds L H S hist us w \<Longrightarrow> view w key = Some e \<Longrightarrow> ok_entry L H hist key e"
  by (simp add: holds_def)

lemma holds_stored: "holds L H (\<lambda>s. s \<subseteq>\<^sub>m hist) hist us w \<Longrightarrow> stored w i = Some p \<Longrightarrow> hist i = Some p"
  unfolding holds_def map_le_def by (metis domI)

lemma back_frame:
  assumes "\<And>w r w'. holds L H S hist us w \<Longrightarrow> f w = (r, w') \<Longrightarrow> frame_ok inv stored view known w w'"
  shows "keeps_back (holds L H S hist us) (backend f)"
  by (rule back_ops(1), rule holds_frame, assumption, rule assms)

lemma back_frame_effect:
  assumes "\<And>w. holds L H S hist us w \<Longrightarrow> frame_ok inv stored view known w (g w)"
  shows "keeps_back (holds L H S hist us) (effect g)"
  by (rule back_ops(2), rule holds_frame, assumption, rule assms)

lemma holds_known: "holds L H S hist us w \<Longrightarrow> u \<in> us \<Longrightarrow> known w u"
  by (simp add: holds_def)

lemmas operation_frames = holds_inv holds_known register_frame authenticate_frame logout_frame authorize_frame list_frame
  metadata_frame get_frame cget_frame cinvalidate_frame epoch_frame metrics_frame readiness_frame flight_frame

lemma back_operations [back_intro]:
  "keeps_back (holds L H S hist us) (backend (aa_Register auth request_ctx t l p))"
  "keeps_back (holds L H S hist us) (backend (aa_Authenticate auth request_ctx l p))"
  "keeps_back (holds L H S hist us) (backend (aa_Logout auth request_ctx t))"
  "u \<in> us \<Longrightarrow> keeps_back (holds L H S hist us) (backend (da_List docs request_ctx u f))"
  "u \<in> us \<Longrightarrow> keeps_back (holds L H S hist us) (backend (getMetadata request_ctx u i))"
  "u \<in> us \<Longrightarrow> keeps_back (holds L H S hist us) (backend (da_Get docs request_ctx u i))"
  "keeps_back (holds L H S hist us) (backend (ca_Get cache request_ctx key))"
  "keeps_back (holds L H S hist us) (backend (h_loads h key))"
  "keeps_back (holds L H S hist us) (effect (ca_Invalidate cache (context_WithoutCancel request_ctx) tags))"
  "keeps_back (holds L H S hist us) (effect (ep_Add1 (h_cacheEpoch h)))"
  "dp_Metrics (h_deps h) = Some m \<Longrightarrow> keeps_back (holds L H S hist us) (effect (me_ObserveCache m hit))"
  "dp_Metrics (h_deps h) = Some m \<Longrightarrow> keeps_back (holds L H S hist us) (effect (me_SetCacheSize m bytes items))"
  "dp_Metrics (h_deps h) = Some m \<Longrightarrow> keeps_back (holds L H S hist us) (effect (me_ObserveFile m dir n))"
  "dp_Readiness (h_deps h) = Some probe \<Longrightarrow> keeps_back (holds L H S hist us) (backend (probe request_ctx))"
  by (rule back_frame back_frame_effect, (blast dest: operation_frames)+)+

lemma back_observe [back_intro]:
  "keeps_back (holds L H S hist us) (observeCacheResult h hit)" "keeps_back (holds L H S hist us) (observeCacheSize h)"
  unfolding observeCacheResult_def observeCacheSize_def by (intro back_intro; simp)+

text \<open>Storing an entry that renders its document.\<close>

lemma back_set:
  assumes "ok_entry L H hist key e"
  shows "keeps_back (holds L H S hist us) (effect (ca_Set cache (context_WithoutCancel request_ctx) key e ttl))"
proof (rule back_ops(2))
  fix w assume w: "holds L H S hist us w"
  note s = cset_frame [OF holds_inv [OF w] refl, of key e ttl]
  have "ok_entry L H hist key e'" if "stored_variant e e'" for e'
    using ok_entry_variant [OF assms that] .
  then show "holds L H S hist us (ca_Set cache (context_WithoutCancel request_ctx) key e ttl w)"
    using w s unfolding holds_def by metis
qed

subsection \<open>Loads\<close>

text \<open>What a load may give for a key: a response, right if it is a success.\<close>

definition entry_good :: "golib \<Rightarrow> 'm http_lib \<Rightarrow> (string \<Rightarrow> (document \<times> bytes) option) \<Rightarrow> string \<Rightarrow> entry \<Rightarrow> bool" where
  "entry_good L H hist key e \<longleftrightarrow>
     (e_status e = 0 \<longrightarrow> e_body e = []) \<and> (200 \<le> e_status e \<and> e_status e < 300 \<longrightarrow> ok_entry L H hist key e)"

definition load_good ::
  "golib \<Rightarrow> 'm http_lib \<Rightarrow> ((string \<Rightarrow> (document \<times> bytes) option) \<Rightarrow> bool) \<Rightarrow> (string \<Rightarrow> (document \<times> bytes) option) \<Rightarrow>
   user set \<Rightarrow> string \<Rightarrow> string list \<Rightarrow> ('w conn, bool) state \<Rightarrow> bool" where
  "load_good L H S hist us key tags load \<longleftrightarrow>
     valid (\<lambda>k. holds L H S hist us (cn_back k) \<and> cn_rw k = Buffered newBufferedResponse) load
       (\<lambda>complete k. entry_good L H hist key (buffered_entry tags (cn_rw k)) \<and> holds L H S hist us (cn_back k))"

lemma usable_Some: "usable om found = Some e \<Longrightarrow> found = Some e \<and> (e_omitted e \<longrightarrow> om)"
  by (auto simp: usable_def split: option.splits if_splits)

lemma run_load_ok:
  assumes load: "load_good L H S hist us key tags load"
  shows "valid (\<lambda>k. holds L H S hist us (cn_back k)) (run_load h cache request_ctx key tags om load)
    (\<lambda>v k. holds L H S hist us (cn_back k) \<and> entry_good L H hist key (cl_entry v))"
proof (rule validI)
  fix k v k'
  assume w: "holds L H S hist us (cn_back k)"
    and run: "run_state (run_load h cache request_ctx key tags om load) k = (v, k')"
  obtain found w1 where g: "ca_Get cache request_ctx key (cn_back k) = (found, w1)"
    by (cases "ca_Get cache request_ctx key (cn_back k)")
  note f = cget_frame [OF holds_inv [OF w] g]
  have w1: "holds L H S hist us w1" using holds_frame [OF w] f by blast
  show "holds L H S hist us (cn_back k') \<and> entry_good L H hist key (cl_entry v)"
  proof (cases "usable om found")
    case (Some e)
    then have "view (cn_back k) key = Some e" using f usable_Some by blast
    then have ok: "ok_entry L H hist key e" by (rule holds_view [OF w])
    have "cn_back k' = w1" "cl_entry v = e" using run g Some by (auto simp: run_load_def)
    with ok w1 ok_entry_status [OF ok] show ?thesis by (simp add: entry_good_def)
  next
    case None
    obtain complete k2 where l: "run_state load (k\<lparr>cn_back := w1, cn_rw := Buffered newBufferedResponse\<rparr>) = (complete, k2)"
      by (cases "run_state load (k\<lparr>cn_back := w1, cn_rw := Buffered newBufferedResponse\<rparr>)")
    let ?e = "buffered_entry tags (cn_rw k2)"
    have good: "entry_good L H hist key ?e" "holds L H S hist us (cn_back k2)"
      using validD [OF load [unfolded load_good_def] _ l] w1 by auto
    have v: "cl_entry v = ?e" "cn_back k' = cn_back k2 \<or> 200 \<le> e_status ?e \<and> e_status ?e < 300 \<and>
        cn_back k' = ca_Set cache (context_WithoutCancel request_ctx) key ?e (dp_CacheTTL (h_deps h)) (cn_back k2)"
      using run g None l by (auto simp: run_load_def Let_def split: if_splits)
    have "holds L H S hist us (ca_Set cache (context_WithoutCancel request_ctx) key ?e (dp_CacheTTL (h_deps h)) (cn_back k2))"
      if "200 \<le> e_status ?e \<and> e_status ?e < 300"
    proof -
      have "ok_entry L H hist key ?e" using good(1) that by (simp add: entry_good_def)
      from back_set [OF this, where S = S and us = us and ttl = "dp_CacheTTL (h_deps h)", unfolded keeps_back_def, THEN spec, of k2] good(2)
      show ?thesis by simp
    qed
    with v good show ?thesis by (auto simp: entry_good_def)
  qed
qed

lemma holds_observe:
  assumes "holds L H S hist us (cn_back k)"
  shows "holds L H S hist us (cn_back (snd (run_state (observeCacheResult h hit) k)))"
    "holds L H S hist us (cn_back (snd (run_state (observeCacheSize h) k)))"
  using assms back_observe [unfolded keeps_back_def] by blast+

text \<open>
  What other requests' loads hand out must be what such a load gives; \<open>empty_entry\<close> is given when the
  context ends first.
\<close>

definition joins_good :: "golib \<Rightarrow> 'm http_lib \<Rightarrow> (string \<Rightarrow> (document \<times> bytes) option) \<Rightarrow> string \<Rightarrow> bool" where
  "joins_good L H hist key \<longleftrightarrow>
     (\<forall>w v w'. inv w \<longrightarrow> h_loads h key w = (Joins v, w') \<longrightarrow> entry_good L H hist key (cl_entry v))"

definition finish_load :: "cacheLoad \<Rightarrow> ('w conn, entry \<times> bool) state" where
  "finish_load value = do {
      observeCacheResult h (cl_hit value);
      observeCacheSize h;
      State_Monad.return (cl_entry value, cl_hit value)
    }"

lemma finish_load_ok:
  "valid (\<lambda>k. holds L H S hist us (cn_back k) \<and>
      (joins_good L H hist key \<longrightarrow> entry_good L H hist key (cl_entry v))) (finish_load v)
    (\<lambda>(e, hit) k. holds L H S hist us (cn_back k) \<and>
       (joins_good L H hist key \<longrightarrow> e = empty_entry \<or> entry_good L H hist key e))" (is "valid _ _ ?Q")
proof (rule validI)
  fix k res k'
  assume k: "holds L H S hist us (cn_back k) \<and> (joins_good L H hist key \<longrightarrow> entry_good L H hist key (cl_entry v))"
    and run: "run_state (finish_load v) k = (res, k')"
  obtain u1 k1 where o1: "run_state (observeCacheResult h (cl_hit v)) k = (u1, k1)"
    by (cases "run_state (observeCacheResult h (cl_hit v)) k")
  obtain u2 k2 where o2: "run_state (observeCacheSize h) k1 = (u2, k2)" by (cases "run_state (observeCacheSize h) k1")
  have "holds L H S hist us (cn_back k2)"
    using holds_observe(1) [of L H S hist us k "cl_hit v"] holds_observe(2) [of L H S hist us k1] k o1 o2 by simp
  then show "?Q res k'" using run o1 o2 k by (auto simp: finish_load_def)
qed

lemma cache_hit_ok:
  "valid (\<lambda>k. holds L H S hist us (cn_back k) \<and> ok_entry L H hist key e)
      (State_Monad.bind (observeCacheResult h True) (\<lambda>_. State_Monad.return (e, True)))
    (\<lambda>(e, hit) k. holds L H S hist us (cn_back k) \<and>
       (joins_good L H hist key \<longrightarrow> e = empty_entry \<or> entry_good L H hist key e))"
proof -
  have "valid (\<lambda>k. holds L H S hist us (cn_back k) \<and> ok_entry L H hist key e)
      (observeCacheResult h True) (\<lambda>u k. holds L H S hist us (cn_back k) \<and> ok_entry L H hist key e)"
  proof (rule validI)
    fix k x k'
    assume k: "holds L H S hist us (cn_back k) \<and> ok_entry L H hist key e"
      and run: "run_state (observeCacheResult h True) k = (x, k')"
    show "holds L H S hist us (cn_back k') \<and> ok_entry L H hist key e"
      using holds_observe(1) [OF conjunct1 [OF k], of True] run k by simp
  qed
  then show ?thesis
    by (rule valid_bind, intro valid_return) (auto simp: entry_good_def dest: ok_entry_status)
qed

lemma cachedResponse_ok:
  assumes load: "load_good L H S hist us key tags load"
  shows "valid (\<lambda>k. holds L H S hist us (cn_back k)) (cachedResponse h cache request_ctx key tags om load)
    (\<lambda>(e, hit) k. holds L H S hist us (cn_back k) \<and>
       (joins_good L H hist key \<longrightarrow> e = empty_entry \<or> entry_good L H hist key e))"
proof -
  let ?Q = "\<lambda>(e, hit) k. holds L H S hist us (cn_back k) \<and>
       (joins_good L H hist key \<longrightarrow> e = empty_entry \<or> entry_good L H hist key e)"
  note fin = finish_load_ok [of L H S hist us key]
  have load': "valid (\<lambda>k. holds L H S hist us (cn_back k))
      (State_Monad.bind (run_load h cache request_ctx key tags om load) finish_load) ?Q"
    by (rule valid_bind [OF run_load_ok [OF load]], rule valid_weaken [OF fin]) auto
  have late: "valid (\<lambda>k. holds L H S hist us (cn_back k))
      (State_Monad.bind (run_load h cache request_ctx key tags om load) (\<lambda>value. State_Monad.return (empty_entry, False))) ?Q"
    by (rule valid_bind [OF run_load_ok [OF load]], rule valid_return) auto
  have flight: "valid (\<lambda>k. holds L H S hist us (cn_back k)) (State_Monad.bind (backend (h_loads h key)) (\<lambda>flight.
      case flight of
        Abandons \<Rightarrow> State_Monad.return (empty_entry, False)
      | Joins v \<Rightarrow> finish_load v
      | Leads \<Rightarrow> State_Monad.bind (run_load h cache request_ctx key tags om load) finish_load
      | LeadsLate \<Rightarrow> State_Monad.bind (run_load h cache request_ctx key tags om load) (\<lambda>value. State_Monad.return (empty_entry, False)))) ?Q"
  proof (rule valid_bind [where R = "\<lambda>flight k. holds L H S hist us (cn_back k) \<and>
      (\<forall>v. flight = Joins v \<longrightarrow> joins_good L H hist key \<longrightarrow> entry_good L H hist key (cl_entry v))"])
    show "valid (\<lambda>k. holds L H S hist us (cn_back k)) (backend (h_loads h key)) (\<lambda>flight k. holds L H S hist us (cn_back k) \<and>
      (\<forall>v. flight = Joins v \<longrightarrow> joins_good L H hist key \<longrightarrow> entry_good L H hist key (cl_entry v)))"
      by (rule valid_prims) (auto simp: joins_good_def dest: holds_frame flight_frame holds_inv)
    show "valid (\<lambda>k. holds L H S hist us (cn_back k) \<and>
        (\<forall>v. flight = Joins v \<longrightarrow> joins_good L H hist key \<longrightarrow> entry_good L H hist key (cl_entry v)))
      (case flight of
        Abandons \<Rightarrow> State_Monad.return (empty_entry, False)
      | Joins v \<Rightarrow> finish_load v
      | Leads \<Rightarrow> State_Monad.bind (run_load h cache request_ctx key tags om load) finish_load
      | LeadsLate \<Rightarrow> State_Monad.bind (run_load h cache request_ctx key tags om load) (\<lambda>value. State_Monad.return (empty_entry, False))) ?Q" for flight
      by (cases flight)
        (auto intro: valid_weaken [OF load'] valid_weaken [OF late] valid_weaken [OF fin] intro!: valid_return)
  qed
  show ?thesis
    unfolding cachedResponse_def Let_def finish_load_def [symmetric]
  proof (rule valid_bind [where R = "\<lambda>found k. holds L H S hist us (cn_back k) \<and> (\<forall>e. found = Some e \<longrightarrow> ok_entry L H hist key e)"],
      goal_cases)
    case 1
    show ?case
    proof (rule valid_prims)
      fix k found w'
      assume w: "holds L H S hist us (cn_back k)" and g: "ca_Get cache request_ctx key (cn_back k) = (found, w')"
      note f = cget_frame [OF holds_inv [OF w] g]
      show "holds L H S hist us (cn_back (k\<lparr>cn_back := w'\<rparr>)) \<and> (\<forall>e. found = Some e \<longrightarrow> ok_entry L H hist key e)"
        using holds_frame [OF w conjunct1 [OF f]] f holds_view [OF w] by simp
    qed
  next
    case (2 found)
    show ?case
    proof (cases "usable om found")
      case None
      with flight show ?thesis by (auto intro: valid_weaken)
    next
      case (Some e)
      then have "found = Some e" "e_omitted e \<longrightarrow> om" using usable_Some by blast+
      with Some show ?thesis by (simp add: cache_hit_ok)
    qed
  qed
qed

end

end
