(* ===== verification/HttpFaithful.thy ===== *)
theory HttpFaithful
  imports HttpCache
begin

text \<open>
  Every handler keeps the contract of the response cache, and a document that is read is the document
  that is stored: the handlers of the documents over any backend of \<open>cached_backend\<close>.
\<close>

subsection \<open>What leaves the response alone\<close>

definition quiet :: "('w conn, 'a) state \<Rightarrow> bool" where
  "quiet m \<longleftrightarrow> (\<forall>k. cn_rw (snd (run_state m k)) = cn_rw k)"

named_theorems quiet_intro

lemma quiet_prims [quiet_intro]:
  "quiet (State_Monad.return a)" "quiet (backend f)" "quiet (effect g)" "quiet (asks x)" "quiet (setCache c)" "quiet (on_buffer rw m)"
  by (auto simp: quiet_def split: prod.split)

lemma quiet_bind [quiet_intro]:
  fixes m :: "('w conn, 'a) state"
  assumes "quiet m" "\<And>a. quiet (f a)"
  shows "quiet (State_Monad.bind m f)"
proof -
  have "cn_rw (snd (run_state (State_Monad.bind m f) k)) = cn_rw k" for k :: "'w conn"
  proof -
    obtain a k1 where "run_state m k = (a, k1)" by (cases "run_state m k")
    moreover from this have "cn_rw k1 = cn_rw k" using assms(1) unfolding quiet_def by (metis snd_conv)
    ultimately show ?thesis using assms(2) [of a] by (simp add: quiet_def)
  qed
  then show ?thesis by (simp add: quiet_def)
qed

lemma quiet_split [quiet_intro]:
  "quiet m \<Longrightarrow> quiet n \<Longrightarrow> quiet (if b then m else n)"
  "quiet n \<Longrightarrow> (\<And>y. quiet (g y)) \<Longrightarrow> quiet (case x of None \<Rightarrow> n | Some y \<Rightarrow> g y)"
  "(\<And>a c. quiet (s a c)) \<Longrightarrow> quiet (case pr of (a, c) \<Rightarrow> s a c)"
  "quiet p1 \<Longrightarrow> quiet p2 \<Longrightarrow> (\<And>v. quiet (p3 v)) \<Longrightarrow> quiet p4 \<Longrightarrow>
   quiet (case fl of Leads \<Rightarrow> p1 | LeadsLate \<Rightarrow> p2 | Joins v \<Rightarrow> p3 v | Abandons \<Rightarrow> p4)"
  by (simp_all split: option.split prod.split flight.split)

lemma quiet_cache [quiet_intro]:
  "quiet (observeCacheResult h hit)" "quiet (observeCacheSize h)" "quiet (run_load h cache c key tags om load)"
  "quiet (cachedResponse h cache c key tags om load)"
proof -
  show o: "quiet (observeCacheResult h hit)" "quiet (observeCacheSize h)" for hit
    unfolding observeCacheResult_def observeCacheSize_def by (simp_all split: option.split, (intro quiet_intro allI conjI impI)+)
  show r: "quiet (run_load h cache c key tags om load)"
    unfolding run_load_def Let_def by (intro quiet_intro)
  show "quiet (cachedResponse h cache c key tags om load)"
    unfolding cachedResponse_def Let_def by (intro quiet_intro o r)
qed

lemma valid_quiet:
  assumes "quiet m" "valid (\<lambda>k. P (cn_back k)) m (\<lambda>a k. Q a (cn_back k))"
  shows "valid (\<lambda>k. P (cn_back k) \<and> T (cn_rw k)) m (\<lambda>a k. Q a (cn_back k) \<and> T (cn_rw k))"
proof (rule validI)
  fix k a k'
  assume k: "P (cn_back k) \<and> T (cn_rw k)" and run: "run_state m k = (a, k')"
  have "cn_rw k' = cn_rw k" using assms(1) run unfolding quiet_def by (metis snd_conv)
  with validD [OF assms(2) _ run] k show "Q a (cn_back k') \<and> T (cn_rw k')" by simp
qed

lemma valid_back: "keeps_back I m \<Longrightarrow> valid (\<lambda>k. I (cn_back k)) m (\<lambda>a k. I (cn_back k))"
  by (auto simp: valid_def keeps_back_def split: prod.split)

lemma back_valid: "valid (\<lambda>k. I (cn_back k)) m (\<lambda>a k. I (cn_back k)) \<Longrightarrow> keeps_back I m"
  unfolding keeps_back_def using validD surjective_pairing by metis

lemma valid_conj: "valid P m Q \<Longrightarrow> valid P m R \<Longrightarrow> valid P m (\<lambda>a k. Q a k \<and> R a k)"
  by (fastforce simp: valid_def split: prod.splits)

context cached_backend
begin

subsection \<open>The invariant through the handlers\<close>

lemma back_authorize:
  assumes e: "\<And>e. keeps_back (holds L H S hist us) (f (Inl e))" and u: "\<And>u. keeps_back (holds L H S hist (insert u us)) (f (Inr u))"
  shows "keeps_back (holds L H S hist us) (State_Monad.bind (backend (aa_Authorize auth request_ctx t)) f)"
proof (rule back_valid, rule valid_bind [where R = "\<lambda>a k. holds L H S hist (case a of Inl _ \<Rightarrow> us | Inr u \<Rightarrow> insert u us) (cn_back k)"], goal_cases)
  case 1
  show ?case
  proof (rule valid_prims)
    fix k a w'
    assume w: "holds L H S hist us (cn_back k)" and run: "aa_Authorize auth request_ctx t (cn_back k) = (a, w')"
    note f = authorize_frame [OF holds_inv [OF w] run]
    show "holds L H S hist (case a of Inl _ \<Rightarrow> us | Inr u \<Rightarrow> insert u us) (cn_back (k\<lparr>cn_back := w'\<rparr>))"
      using holds_frame [OF w conjunct1 [OF f]] f by (cases a) (auto simp: holds_def)
  qed
next
  case (2 a)
  have weak: "holds L H S hist (insert v us) w \<Longrightarrow> holds L H S hist us w" for v w by (simp add: holds_def)
  show ?case
    by (cases a) (use valid_back [OF e] valid_weaken [OF valid_back [OF u]] weak in \<open>auto\<close>)
qed

lemma back_list_load:
  "u \<in> us \<Longrightarrow> keeps_back (holds L H S hist us) (loadDocumentList H docs u f)"
  unfolding loadDocumentList_def by (intro back_intro)

lemma written_status:
  "bf_status b \<noteq> 0 \<or> st \<noteq> 0 \<Longrightarrow> e_status (buffered_entry tags (write_encoded st enc (Buffered b))) \<noteq> 0"
  by (auto simp: write_encoded_def Let_def bf_WriteHeader_def bf_Write_def buffered_entry_def empty_entry_def)

lemma answered_status:
  "st \<noteq> 0 \<Longrightarrow> e_status (buffered_entry tags (writeJSON H st v (Buffered b))) \<noteq> 0"
  "e_status (buffered_entry tags (writeDomainError e (Buffered b))) \<noteq> 0"
  using written_status [of b _ tags]
  by (simp_all add: writeJSON_def writeDomainError_def writeAPIError_def split: option.split)

lemma list_load_good:
  assumes u: "u \<in> us"
  shows "load_good L H S hist us (listCacheKey L H ep x ow fk fv n) tags (loadDocumentList H docs u f)"
  unfolding load_good_def
proof (rule validI)
  fix k complete k'
  assume k: "holds L H S hist us (cn_back k) \<and> cn_rw k = Buffered newBufferedResponse"
    and run: "run_state (loadDocumentList H docs u f) k = (complete, k')"
  have "e_status (buffered_entry tags (cn_rw k')) \<noteq> 0"
    using run k by (auto simp: loadDocumentList_def writeData_def answered_status split: prod.splits sum.splits)
  moreover have "holds L H S hist us (cn_back k')" using keeps_backD [OF back_list_load [OF u] run] k by blast
  ultimately show "entry_good L H hist (listCacheKey L H ep x ow fk fv n) (buffered_entry tags (cn_rw k')) \<and>
    holds L H S hist us (cn_back k')"
    by (simp add: entry_good_def ok_entry_list)
qed

lemma back_cached:
  "load_good L H S hist us key tags load \<Longrightarrow> keeps_back (holds L H S hist us) (cachedResponse h cache request_ctx key tags om load)"
  by (rule back_valid, rule valid_weaken [OF cachedResponse_ok]) auto

lemma back_listDocuments: "keeps_back (holds L H S hist {}) (listDocuments L H h r)"
  unfolding listDocuments_def parts option.case prod.case
  by (intro back_intro back_authorize back_cached list_load_good back_list_load; simp)

lemma back_accounts:
  "keeps_back (holds L H S hist {}) (register L H' h r)" "keeps_back (holds L H S hist {}) (authenticate L H' h r)"
  "keeps_back (holds L H S hist {}) (logout H' h t)" "keeps_back (holds L H S hist {}) (ready H' h)"
  unfolding register_def authenticate_def logout_def ready_def parseURLForm_def parts option.case
  by (intro back_intro; simp)+

text \<open>Uploads add documents, deletions remove some; both invalidate entries.\<close>

lemma back_after_upload: "keeps_back (holds L H S hist us) (after_upload h content)"
  unfolding after_upload_def parts option.case Let_def by (intro back_intro; simp)

lemma back_after_delete: "keeps_back (holds L H S hist us) (after_delete h docs i)"
  unfolding after_delete_def parts option.case Let_def by (intro back_intro; simp)

lemma view_less: "\<forall>key e. view w key = Some e \<longrightarrow> P key e \<Longrightarrow> view w' \<subseteq>\<^sub>m view w \<Longrightarrow> \<forall>key e. view w' key = Some e \<longrightarrow> P key e"
  unfolding map_le_def by (metis domI)

lemma back_upload_op:
  assumes u: "u \<in> us"
  shows "keeps_back (holds L H (\<lambda>s. True) hist us) (backend (da_Upload docs request_ctx u input))"
proof (rule back_ops(1))
  fix w r w'
  assume w: "holds L H (\<lambda>s. True) hist us w" and run: "da_Upload docs request_ctx u input w = (r, w')"
  note f = upload_frame [OF holds_inv [OF w] holds_known [OF w u] run]
  show "holds L H (\<lambda>s. True) hist us w'"
    using w f view_less [of w] unfolding holds_def by blast
qed

lemma back_delete_op:
  assumes u: "u \<in> us"
  shows "keeps_back (holds L H (\<lambda>s. True) hist us) (backend (da_Delete docs request_ctx u i))"
proof (rule back_ops(1))
  fix w r w'
  assume w: "holds L H (\<lambda>s. True) hist us w" and run: "da_Delete docs request_ctx u i w = (r, w')"
  note f = delete_frame [OF holds_inv [OF w] holds_known [OF w u] run]
  show "holds L H (\<lambda>s. True) hist us w'"
    using w f view_less [of w] unfolding holds_def by blast
qed

lemma back_uploadDocument: "keeps_back (holds L H (\<lambda>s. True) hist {}) (uploadDocument L' H' h r)"
  unfolding uploadDocument_def parts option.case prod.case
  by (intro back_intro back_authorize back_upload_op back_after_upload; simp)

lemma back_deleteDocument: "keeps_back (holds L H (\<lambda>s. True) hist {}) (deleteDocument H' h r i)"
  unfolding deleteDocument_def deleteAuthorized_def parts option.case prod.case
  by (intro back_intro back_authorize back_delete_op back_after_delete; simp)

end

end
