(* ===== verification/HttpReading.thy ===== *)
theory HttpReading
  imports HttpFaithful
begin

text \<open>
  Reading a document, from the cache or not: what a success carries is a part of the stored document.
\<close>

text \<open>The content that a user may see under an id, given the documents there ever were.\<close>

definition content_for :: "'m http_lib \<Rightarrow> (string \<Rightarrow> (document \<times> bytes) option) \<Rightarrow> user \<Rightarrow> string \<Rightarrow> bytes" where
  "content_for H hist u i =
     (case hist i of None \<Rightarrow> [] | Some p \<Rightarrow> if readable u (fst p) then document_body H p else [])"

lemma headers_only_rendered:
  "d_IsFile x \<Longrightarrow> rendered L H (x, data) (fileMetadataEntry L x tags)"
  "d_IsFile x \<Longrightarrow> e_body (fileMetadataEntry L x tags) = []"
proof -
  have "e_header (fileMetadataEntry L x tags) = e_header (fileMetadataEntry L (x\<lparr>d_SizeBytes := d_SizeBytes x\<rparr>) [])"
    by (simp add: fileMetadataEntry_def Let_def)
  then have "\<exists>n. e_header (fileMetadataEntry L x tags) = e_header (fileMetadataEntry L (x\<lparr>d_SizeBytes := n\<rparr>) [])" by (rule exI)
  moreover have "e_status (fileMetadataEntry L x tags) = 200" "e_omitted (fileMetadataEntry L x tags)" "e_body (fileMetadataEntry L x tags) = []"
    by (simp_all add: fileMetadataEntry_def empty_entry_def Let_def)
  ultimately show "d_IsFile x \<Longrightarrow> rendered L H (x, data) (fileMetadataEntry L x tags)"
    by (simp add: rendered_def)
  show "d_IsFile x \<Longrightarrow> e_body (fileMetadataEntry L x tags) = []" by (simp add: fileMetadataEntry_def empty_entry_def Let_def)
qed

lemma sized_rendered:
  assumes "d_IsFile x"
  shows "rendered L H (x, data) (fileMetadataEntry L (x\<lparr>d_SizeBytes := int (length data)\<rparr>) tags)"
    "rendered L H (x, data) ((fileMetadataEntry L (x\<lparr>d_SizeBytes := int (length data)\<rparr>) tags)\<lparr>e_body := data, e_omitted := False\<rparr>)"
  using assms by (auto simp: rendered_def fileMetadataEntry_def empty_entry_def Let_def)

lemma valid_never: "(\<And>k. P k \<Longrightarrow> False) \<Longrightarrow> valid P m Q"
  by (auto simp: valid_def)

context cached_backend
begin

definition reading ::
  "golib \<Rightarrow> 'm http_lib \<Rightarrow> (string \<Rightarrow> (document \<times> bytes) option) \<Rightarrow> user set \<Rightarrow> bytes \<Rightarrow> progress \<Rightarrow> 'w conn \<Rightarrow> bool" where
  "reading L H hist us c p k \<longleftrightarrow> holds L H (\<lambda>s. s \<subseteq>\<^sub>m hist) hist us (cn_back k) \<and> tells c p (cn_rw k)"

lemma reading_quiet:
  "quiet m \<Longrightarrow> keeps_back (holds L H (\<lambda>s. s \<subseteq>\<^sub>m hist) hist us) m \<Longrightarrow>
   valid (reading L H hist us c p) m (\<lambda>a. reading L H hist us c p)"
  using valid_quiet [OF _ valid_back] unfolding reading_def .

lemma reading_respond:
  "(\<And>rw. tells c p rw \<Longrightarrow> tells c q (f rw)) \<Longrightarrow> valid (reading L H hist us c p) (respond f) (\<lambda>a. reading L H hist us c q)"
  by (rule valid_prims) (simp add: reading_def)

lemma reading_errors:
  "valid (reading L H hist us c Fresh) (respond (writeDomainError e)) (\<lambda>a. reading L H hist us c Broken)"
  "valid (reading L H hist us c Fresh) (respond internalError) (\<lambda>a. reading L H hist us c Broken)"
  "valid (reading L H hist us c Fresh) (respond badRequest) (\<lambda>a. reading L H hist us c Broken)"
  "valid (reading L H hist us c Fresh) (respond notImplemented) (\<lambda>a. reading L H hist us c Broken)"
  by (rule reading_respond, erule tells_errors)+

lemma reading_expose:
  "valid (reading L H hist us c Fresh) (respond (exposeCacheStatus h hit)) (\<lambda>a. reading L H hist us c Fresh)"
  by (rule reading_respond) (simp add: exposeCacheStatus_def tells_putHeader)

lemma reading_metadata:
  assumes u: "u \<in> us"
  shows "valid (reading L H hist us c p) (backend (getMetadata request_ctx u i))
    (\<lambda>r k. reading L H hist us c p k \<and> (\<forall>x. r = Inr x \<longrightarrow> (\<exists>data. hist i = Some (x, data) \<and> readable u x)))"
proof (rule valid_prims)
  fix k r w'
  assume k: "reading L H hist us c p k" and run: "getMetadata request_ctx u i (cn_back k) = (r, w')"
  then have w: "holds L H (\<lambda>s. s \<subseteq>\<^sub>m hist) hist us (cn_back k)" by (simp add: reading_def)
  note f = metadata_frame [OF holds_inv [OF w] holds_known [OF w u] run]
  have "hist i = Some (x, data)" if "stored (cn_back k) i = Some (x, data)" for x data using holds_stored [OF w that] .
  then show "reading L H hist us c p (k\<lparr>cn_back := w'\<rparr>) \<and> (\<forall>x. r = Inr x \<longrightarrow> (\<exists>data. hist i = Some (x, data) \<and> readable u x))"
    using k f holds_frame [OF w conjunct1 [OF f]] by (auto simp: reading_def)
qed

text \<open>What \<open>Get\<close> serves of the document with the id.\<close>

definition serves_doc :: "document \<times> bytes \<Rightarrow> content \<Rightarrow> bool" where
  "serves_doc p ct \<longleftrightarrow>
     (if d_IsFile (fst p)
      then ct = \<lparr>ct_Document = (fst p)\<lparr>d_SizeBytes := int (length (snd p))\<rparr>, ct_File = Some \<lparr>r_data = snd p, r_err = None\<rparr>\<rparr>
      else ct = \<lparr>ct_Document = fst p, ct_File = None\<rparr>)"

lemma get_serves:
  assumes w: "holds L H (\<lambda>s. s \<subseteq>\<^sub>m hist) hist us w" and u: "u \<in> us" and run: "da_Get docs request_ctx u i w = (r, w')"
  shows "holds L H (\<lambda>s. s \<subseteq>\<^sub>m hist) hist us w' \<and>
    (\<forall>ct. r = Inr ct \<longrightarrow> (\<exists>p. hist i = Some p \<and> readable u (fst p) \<and> serves_doc p ct))"
proof -
  note f = get_frame [OF holds_inv [OF w] holds_known [OF w u] run]
  have "hist i = Some (x, data)" if "stored w i = Some (x, data)" for x data using holds_stored [OF w that] .
  moreover have "\<exists>x data. stored w i = Some (x, data) \<and> readable u x \<and> serves_doc (x, data) ct" if "r = Inr ct" for ct
    using conjunct2 [OF f] that unfolding serves_doc_def fst_conv snd_conv by blast
  ultimately show ?thesis using holds_frame [OF w conjunct1 [OF f]] by fastforce
qed

lemma reading_get:
  assumes u: "u \<in> us"
  shows "valid (reading L H hist us c p) (backend (da_Get docs request_ctx u i))
    (\<lambda>r k. reading L H hist us c p k \<and> (\<forall>ct. r = Inr ct \<longrightarrow> (\<exists>d. hist i = Some d \<and> serves_doc d ct)))"
  by (rule valid_prims) (use get_serves [OF _ u] in \<open>fastforce simp: reading_def\<close>)

lemma doc_load_good:
  assumes u: "u \<in> us" and p: "hist i = Some p" "\<not> d_IsFile (fst p)"
  shows "load_good L H (\<lambda>s. s \<subseteq>\<^sub>m hist) hist us (documentCacheKey H ep i v) tags (loadDocumentContent L H at docs u i)"
  unfolding load_good_def
proof (rule validI)
  fix k complete k'
  assume k: "holds L H (\<lambda>s. s \<subseteq>\<^sub>m hist) hist us (cn_back k) \<and> cn_rw k = Buffered newBufferedResponse"
    and run: "run_state (loadDocumentContent L H at docs u i) k = (complete, k')"
  obtain r w' where g: "da_Get docs request_ctx u i (cn_back k) = (r, w')" by (cases "da_Get docs request_ctx u i (cn_back k)")
  note s = get_serves [OF conjunct1 [OF k] u g]
  show "entry_good L H hist (documentCacheKey H ep i v) (buffered_entry tags (cn_rw k')) \<and>
    holds L H (\<lambda>s. s \<subseteq>\<^sub>m hist) hist us (cn_back k')"
  proof (cases r)
    case (Inl e)
    then have k': "cn_rw k' = writeDomainError e (Buffered newBufferedResponse)" "cn_back k' = w'"
      using run g k by (auto simp: loadDocumentContent_def)
    have "\<not> (200 \<le> e_status (buffered_entry tags (cn_rw k')) \<and> e_status (buffered_entry tags (cn_rw k')) < 300)"
      by (simp add: k' writeDomainError_def writeAPIError_def write_encoded_def Let_def newBufferedResponse_def
          bf_WriteHeader_def bf_Write_def buffered_entry_def empty_entry_def)
    moreover have "e_status (buffered_entry tags (cn_rw k')) \<noteq> 0" using answered_status(2) by (simp add: k'(1))
    ultimately show ?thesis using s unfolding entry_good_def k'(2) by blast
  next
    case (Inr ct)
    with s p have ct: "serves_doc p ct" by auto
    then have doc: "ct_Document ct = fst p" "\<not> d_IsFile (ct_Document ct)" using p(2) by (auto simp: serves_doc_def)
    have wr: "writeDocumentContent L H at ct (Buffered newBufferedResponse) = (complete, cn_rw k')" "cn_back k' = w'"
      using run g k Inr by (auto simp: loadDocumentContent_def split: prod.splits)
    have "cn_rw k' = writeData H 200 (raw_json (ct_Document ct)) (Buffered newBufferedResponse)"
      using wr(1) doc(2) by (simp add: writeDocumentContent_def)
    then have "e_status (buffered_entry tags (cn_rw k')) \<noteq> 0" by (simp add: answered_status(1) writeData_def)
    moreover have "rendered L H p (buffered_entry tags (cn_rw k'))"
      if "200 \<le> e_status (buffered_entry tags (cn_rw k'))" "e_status (buffered_entry tags (cn_rw k')) < 300"
      using buffered_json [OF doc(2) wr(1) that, of "snd p"] doc(1) by simp
    ultimately show ?thesis using s wr(2) p(1) by (auto simp: entry_good_def ok_entry_document)
  qed
qed

lemma reading_cached_entry:
  assumes "e_status e = 0 \<or> e_status e = 200 \<Longrightarrow> prefix (e_body e) c"
  shows "valid (reading L H hist us c Fresh) (respond (writeCachedResponse e)) (\<lambda>a. reading L H hist us c Broken)"
  by (rule reading_respond, erule tells_cached, erule assms)

lemma entry_good_body:
  assumes "e = empty_entry \<or> entry_good L H hist (documentCacheKey H ep i v) e" "hist i = Some p" "e_status e = 0 \<or> e_status e = 200"
  shows "prefix (e_body e) (document_body H p)"
  using assms rendered_body [of L H p e] by (auto simp: entry_good_def empty_entry_def ok_entry_document)

lemma reading_lookup:
  "valid (reading L H hist us c p) (backend (ca_Get cache request_ctx key))
    (\<lambda>found k. reading L H hist us c p k \<and> (\<forall>e. found = Some e \<longrightarrow> ok_entry L H hist key e))"
proof (rule valid_prims)
  fix k found w'
  assume k: "reading L H hist us c p k" and run: "ca_Get cache request_ctx key (cn_back k) = (found, w')"
  then have w: "holds L H (\<lambda>s. s \<subseteq>\<^sub>m hist) hist us (cn_back k)" by (simp add: reading_def)
  note f = cget_frame [OF holds_inv [OF w] run]
  show "reading L H hist us c p (k\<lparr>cn_back := w'\<rparr>) \<and> (\<forall>e. found = Some e \<longrightarrow> ok_entry L H hist key e)"
    using k f holds_frame [OF w conjunct1 [OF f]] holds_view [OF w] by (simp add: reading_def)
qed

lemma reading_store:
  "ok_entry L H hist key e \<Longrightarrow>
   valid (reading L H hist us c p) (effect (ca_Set cache (context_WithoutCancel request_ctx) key e ttl)) (\<lambda>a. reading L H hist us c p)"
  by (rule reading_quiet, rule quiet_intro, rule back_set)

lemma reading_observe:
  "valid (reading L H hist us c p) (observeCacheResult h hit) (\<lambda>a. reading L H hist us c p)"
  "valid (reading L H hist us c p) (observeCacheSize h) (\<lambda>a. reading L H hist us c p)"
  by (rule reading_quiet, rule quiet_intro, rule back_intro)+

lemma reading_headFile:
  assumes p: "hist i = Some (x, data)" "d_IsFile x" and key: "key = documentCacheKey H ep i v"
    and found: "\<forall>e. found = Some e \<longrightarrow> ok_entry L H hist key e"
  shows "valid (reading L H hist us (document_body H (x, data)) Fresh) (headFile L h cache key tags found x)
    (\<lambda>a. reading L H hist us (document_body H (x, data)) Broken)"
proof (cases found)
  case (Some e)
  then have "rendered L H (x, data) e" using found p(1) by (simp add: key ok_entry_document)
  then have body: "prefix (e_body e) (document_body H (x, data))" by (rule rendered_body)
  show ?thesis unfolding headFile_def Some option.case
    by (rule valid_bind [OF reading_observe(1)], rule valid_bind [OF reading_expose], rule reading_cached_entry, rule body)
next
  case None
  have ok: "ok_entry L H hist key (fileMetadataEntry L x tags)"
    using headers_only_rendered(1) [OF p(2)] p(1) by (simp add: key ok_entry_document)
  show ?thesis unfolding headFile_def None option.case Let_def
    by (rule valid_bind [OF reading_store [OF ok]], rule valid_bind [OF reading_observe(1)], rule valid_bind [OF reading_observe(2)],
        rule valid_bind [OF reading_expose], rule reading_cached_entry) (simp add: headers_only_rendered(2) [OF p(2)])
qed

lemma reading_writeStream:
  assumes "prefix (r_data r) c"
  shows "valid (reading L H hist us c Fresh) (with_rw (writeFileStream L at x r cap))
    (\<lambda>res k. reading L H hist us c Broken k \<and> (\<exists>rw rw'. writeFileStream L at x r cap rw = (res, rw')))"
proof (rule valid_prims)
  fix k a rw
  assume k: "reading L H hist us c Fresh k" and run: "writeFileStream L at x r cap (cn_rw k) = (a, rw)"
  have "tells c Fresh (cn_rw k)" using k by (simp add: reading_def)
  from tells_stream [OF this assms, of L at x cap] run
  show "reading L H hist us c Broken (k\<lparr>cn_rw := rw\<rparr>) \<and> (\<exists>rw rw'. writeFileStream L at x r cap rw = (a, rw'))"
    using k by (auto simp: reading_def)
qed

lemma reading_streamFile:
  assumes p: "hist i = Some (x, data)" "d_IsFile x" and key: "key = documentCacheKey H ep i v"
  shows "valid (reading L H hist us (document_body H (x, data)) Fresh)
    (streamFile L h cache at key tags (x\<lparr>d_SizeBytes := int (length data)\<rparr>) \<lparr>r_data = data, r_err = None\<rparr>)
    (\<lambda>a. reading L H hist us (document_body H (x, data)) Broken)"
proof -
  let ?x = "x\<lparr>d_SizeBytes := int (length data)\<rparr>" and ?r = "\<lparr>r_data = data, r_err = None\<rparr>" and ?c = "document_body H (x, data)"
  have body: "prefix (r_data ?r) ?c" using p(2) by (simp add: document_body_def)
  have ok: "ok_entry L H hist key (fileMetadataEntry L ?x tags)"
    "ok_entry L H hist key ((fileMetadataEntry L ?x tags)\<lparr>e_body := data, e_omitted := False\<rparr>)"
    using sized_rendered [OF p(2)] p(1) by (simp_all add: key ok_entry_document)
  let ?R = "reading L H hist us ?c"
  have decide: "valid (?R Fresh) (case ca_EntryFits cache of None \<Rightarrow> State_Monad.return False
      | Some fits \<Rightarrow> asks (fits key (fileMetadataEntry L ?x tags) (d_SizeBytes ?x))) (\<lambda>b. ?R Fresh)"
    by (rule reading_quiet; intro quiet_intro back_intro)
  have stop: "valid (?R Broken) (State_Monad.return Returned) (\<lambda>a. ?R Broken)" by (rule valid_return)
  have drop: "valid (\<lambda>k. ?R Broken k \<and> X k) m (\<lambda>a. ?R Broken)" if "valid (?R Broken) m (\<lambda>a. ?R Broken)" for m X
    by (rule valid_weaken [OF that]) auto
  have large: "valid (?R Fresh) (State_Monad.bind (effect (ca_Set cache (context_WithoutCancel request_ctx) key
        (fileMetadataEntry L ?x tags) (dp_CacheTTL (h_deps h)))) (\<lambda>_. State_Monad.bind (observeCacheSize h) (\<lambda>_.
      State_Monad.bind (with_rw (writeFileStream L at ?x ?r None)) (\<lambda>_. State_Monad.return Returned)))) (\<lambda>a. ?R Broken)"
    by (rule valid_bind [OF reading_store [OF ok(1)]], rule valid_bind [OF reading_observe(2)],
        rule valid_bind [OF reading_writeStream [OF body]], rule drop [OF stop])
  have store: "valid (?R Broken) (State_Monad.bind (effect (ca_Set cache (context_WithoutCancel request_ctx) key
        ((fileMetadataEntry L ?x tags)\<lparr>e_body := data, e_omitted := False\<rparr>) (dp_CacheTTL (h_deps h)))) (\<lambda>_.
      State_Monad.bind (observeCacheSize h) (\<lambda>_. State_Monad.return Returned))) (\<lambda>a. ?R Broken)"
    by (rule valid_bind [OF reading_store [OF ok(2)]], rule valid_bind [OF reading_observe(2)], rule stop)
  show ?thesis
    unfolding streamFile_def Let_def
  proof (rule valid_bind [OF decide], rule valid_if, goal_cases)
    case 1
    show ?case by (rule large)
  next
    case 2
    show ?case
    proof (rule valid_bind [OF reading_writeStream [OF body]], rule valid_case(3), goal_cases)
      case (1 res err capture)
      show ?case
      proof (cases capture)
        case None
        then show ?thesis using drop [OF stop] by simp
      next
        case (Some cap)
        show ?thesis
        proof (cases "err \<noteq> None \<or> cp_overflow cap \<or> int (length (cp_buffer cap)) \<noteq> d_SizeBytes ?x")
          case True
          then show ?thesis using drop [OF stop] Some by simp
        next
          case False
          have "valid (\<lambda>k. ?R Broken k \<and> (\<exists>rw rw'. writeFileStream L at ?x ?r
              (Some \<lparr>cp_buffer = [], cp_remaining = d_SizeBytes ?x, cp_overflow = False\<rparr>) rw = ((None, Some cap), rw')))
            (State_Monad.bind (effect (ca_Set cache (context_WithoutCancel request_ctx) key
                ((fileMetadataEntry L ?x tags)\<lparr>e_body := cp_buffer cap, e_omitted := False\<rparr>) (dp_CacheTTL (h_deps h)))) (\<lambda>_.
              State_Monad.bind (observeCacheSize h) (\<lambda>_. State_Monad.return Returned))) (\<lambda>a. ?R Broken)"
          proof (cases "cp_buffer cap = data")
            case True
            show ?thesis unfolding True by (rule drop [OF store])
          next
            case buf: False
            have "False" if "writeFileStream L at ?x ?r
                (Some \<lparr>cp_buffer = [], cp_remaining = d_SizeBytes ?x, cp_overflow = False\<rparr>) rw = ((None, Some cap), rw')" for rw rw'
              using stream_capture [OF that] False buf by simp
            then show ?thesis by (auto simp: valid_def)
          qed
          then show ?thesis using False Some 1 by simp
        qed
      qed
    qed
  qed
qed

lemma reading_withCache:
  assumes u: "u \<in> us" and p: "hist i = Some (x, data)" "d_IsFile x"
  shows "valid (reading L H hist us (document_body H (x, data)) Fresh) (readFileWithCache L H h cache docs at r u i x)
    (\<lambda>a. reading L H hist us (document_body H (x, data)) Broken)"
proof -
  let ?R = "reading L H hist us (document_body H (x, data))"
  have epoch: "valid (?R Fresh) (asks (ep_Load (h_cacheEpoch h))) (\<lambda>a. ?R Fresh)"
    by (rule reading_quiet; intro quiet_intro back_intro)
  show ?thesis
    unfolding readFileWithCache_def Let_def
  proof (rule valid_bind [OF epoch], rule valid_bind [OF reading_lookup], rule valid_if, goal_cases)
    case (1 ep found)
    show ?case
    proof (cases "\<forall>e. found = Some e \<longrightarrow> ok_entry L H hist (documentCacheKey H ep i (d_Version x)) e")
      case True
      show ?thesis by (rule valid_weaken [OF reading_headFile [OF p refl True]]) auto
    qed (rule valid_never, blast)
  next
    case (2 ep found)
    show ?case
    proof (rule valid_case(1), goal_cases)
      case 1
      have pre: "valid (?R Fresh) m (\<lambda>a. ?R Broken) \<Longrightarrow> valid (\<lambda>k. ?R Fresh k \<and> Z) m (\<lambda>a. ?R Broken)" for m Z
        by (erule valid_weaken) auto
      show ?case
      proof (rule pre, rule valid_bind [OF reading_observe(1)], rule valid_bind [OF reading_expose], rule valid_bind [OF reading_get [OF u]],
          rule valid_case(2), goal_cases)
        case (1 z w g e)
        show ?case by (rule pre, rule reading_errors)
      next
        case (2 z w g ct)
        have ct: "\<exists>d. hist i = Some d \<and> serves_doc d ct \<Longrightarrow> ct = \<lparr>ct_Document = x\<lparr>d_SizeBytes := int (length data)\<rparr>,
            ct_File = Some \<lparr>r_data = data, r_err = None\<rparr>\<rparr>"
          using p by (auto simp: serves_doc_def)
        show ?case
        proof (cases "\<exists>d. hist i = Some d \<and> serves_doc d ct")
          case True
          show ?thesis using pre [OF reading_streamFile [where hist = hist and i = i and x = x and data = data and ep = ep and v = "d_Version x" and L = L and us = us and
              at = at and tags = "[''document:'' @ i]", OF p refl]]
            by (simp add: ct [OF True])
        next
          case False
          with 2 show ?thesis by (intro valid_never) blast
        qed
      qed
    next
      case (2 e)
      have e: "found = Some e" using usable_Some [OF 2] by simp
      show ?case
      proof (cases "ok_entry L H hist (documentCacheKey H ep i (d_Version x)) e")
        case True
        then have "rendered L H (x, data) e" using p(1) by (simp add: ok_entry_document)
        then have body: "prefix (e_body e) (document_body H (x, data))" by (rule rendered_body)
        have "valid (?R Fresh) (State_Monad.bind (observeCacheResult h True) (\<lambda>_. State_Monad.bind (respond (exposeCacheStatus h True)) (\<lambda>_.
            respond (writeCachedFileResponse e)))) (\<lambda>a. ?R Broken)"
          by (rule valid_bind [OF reading_observe(1)], rule valid_bind [OF reading_expose], rule reading_respond,
              erule tells_cached_file, rule body)
        then show ?thesis by (rule valid_weaken) auto
      next
        case False
        with e show ?thesis by (intro valid_never) blast
      qed
    qed
  qed
qed

text \<open>The loads of other requests are trusted for \<open>tells\<close> only; the cache is right without it.\<close>

definition joined_loads_good :: "'m http_lib \<Rightarrow> golib \<Rightarrow> (string \<Rightarrow> (document \<times> bytes) option) \<Rightarrow> bool" where
  "joined_loads_good H L hist \<longleftrightarrow> (\<forall>key. joins_good L H hist key)"

lemma reading_cachedResponse:
  assumes u: "u \<in> us" and p: "hist i = Some p" "\<not> d_IsFile (fst p)"
  shows "valid (reading L H hist us c Fresh)
    (cachedResponse h cache request_ctx (documentCacheKey H ep i v) tags om (loadDocumentContent L H at docs u i))
    (\<lambda>(e, hit) k. reading L H hist us c Fresh k \<and> (joined_loads_good H L hist \<longrightarrow> (e_status e = 0 \<or> e_status e = 200 \<longrightarrow>
       prefix (e_body e) (document_body H p))))"
proof -
  note ok = cachedResponse_ok [OF doc_load_good [where u = u and us = us and hist = hist and i = i and p = p, OF u p, where L = L and H = H and ep = ep and v = v and tags = tags and at = at], where om = om]
  have "valid (reading L H hist us c Fresh)
    (cachedResponse h cache request_ctx (documentCacheKey H ep i v) tags om (loadDocumentContent L H at docs u i))
    (\<lambda>res k. (case res of (e, hit) \<Rightarrow> holds L H (\<lambda>s. s \<subseteq>\<^sub>m hist) hist us (cn_back k) \<and>
       (joins_good L H hist (documentCacheKey H ep i v) \<longrightarrow> e = empty_entry \<or> entry_good L H hist (documentCacheKey H ep i v) e)) \<and>
     tells c Fresh (cn_rw k))"
    unfolding reading_def
    by (rule valid_quiet [where P = "holds L H (\<lambda>s. s \<subseteq>\<^sub>m hist) hist us" and T = "tells c Fresh" and
          Q = "\<lambda>res w. case res of (e, hit) \<Rightarrow> holds L H (\<lambda>s. s \<subseteq>\<^sub>m hist) hist us w \<and>
           (joins_good L H hist (documentCacheKey H ep i v) \<longrightarrow> e = empty_entry \<or> entry_good L H hist (documentCacheKey H ep i v) e)"])
      (rule quiet_intro, rule valid_weaken [OF ok], auto)
  moreover have "prefix (e_body empty_entry) (document_body H p)" by (simp add: empty_entry_def)
  moreover have "prefix (e_body e) (document_body H p)"
    if "entry_good L H hist (documentCacheKey H ep i v) e" "e_status e = 0 \<or> e_status e = 200" for e
    using entry_good_body [where hist = hist and i = i and p = p, OF _ p(1)] that by blast
  ultimately show ?thesis
    by (elim valid_weaken) (auto simp: reading_def joined_loads_good_def)
qed

lemma reading_authorized:
  assumes u: "u \<in> us" and c: "c = content_for H hist u i"
  shows "valid (reading L H hist us c Fresh) (readAuthorized L H h docs at r u i)
    (\<lambda>a k. holds L H (\<lambda>s. s \<subseteq>\<^sub>m hist) hist us (cn_back k) \<and> (joined_loads_good H L hist \<longrightarrow> tells c Broken (cn_rw k)))"
  (is "valid _ _ ?Q")
proof -
  have weak: "valid P m (\<lambda>a. reading L H hist us c Broken) \<Longrightarrow> valid P m ?Q" for P and m :: "('w conn, outcome) state"
    by (erule valid_weaken) (auto simp: reading_def)
  have pre: "valid (reading L H hist us c Fresh) m ?Q \<Longrightarrow> valid (\<lambda>k. reading L H hist us c Fresh k \<and> Z) m ?Q"
    for Z and m :: "('w conn, outcome) state" by (erule valid_weaken) auto
  show ?thesis
    unfolding readAuthorized_def parts option.case prod.case
  proof (rule valid_bind [OF reading_metadata [OF u]], rule valid_case(2), goal_cases)
    case (1 g e)
    show ?case by (rule pre, rule weak, rule reading_errors)
  next
    case (2 g x)
    show ?case
    proof (cases "\<exists>data. hist i = Some (x, data) \<and> readable u x")
      case False
      with 2 show ?thesis by (intro valid_never) blast
    next
      case True
      then obtain data where p: "hist i = Some (x, data)" "readable u x" by blast
      then have c': "c = document_body H (x, data)" by (simp add: c content_for_def)
      show ?thesis
      proof (rule pre, rule valid_if, goal_cases)
        case 1
        show ?case unfolding c' by (rule weak [unfolded c'], rule reading_withCache [where u = u and us = us and hist = hist and i = i and x = x and data = data, OF u p(1) 1])
      next
        case 2
        have epoch: "valid (reading L H hist us c Fresh) (asks (ep_Load (h_cacheEpoch h))) (\<lambda>a. reading L H hist us c Fresh)"
          by (rule reading_quiet; intro quiet_intro back_intro)
        have json: "\<not> d_IsFile (fst (x, data))" using 2 by simp
        have respond: "valid (\<lambda>k. reading L H hist us c Fresh k \<and> (joined_loads_good H L hist \<longrightarrow>
            (e_status e = 0 \<or> e_status e = 200 \<longrightarrow> prefix (e_body e) c)))
          (State_Monad.bind (respond (exposeCacheStatus h hit)) (\<lambda>_. respond (writeCachedResponse e))) ?Q" for e hit
        proof (cases "joined_loads_good H L hist \<longrightarrow> (e_status e = 0 \<or> e_status e = 200 \<longrightarrow> prefix (e_body e) c)")
          case False
          then show ?thesis by (intro valid_never) blast
        next
          case True
          show ?thesis
          proof (cases "joined_loads_good H L hist")
            case True
            with \<open>joined_loads_good H L hist \<longrightarrow> _\<close> have "e_status e = 0 \<or> e_status e = 200 \<Longrightarrow> prefix (e_body e) c" by blast
            then show ?thesis
              by (intro pre weak valid_bind [OF reading_expose] reading_cached_entry)
          next
            case False
            have "keeps_back (holds L H (\<lambda>s. s \<subseteq>\<^sub>m hist) hist us)
              (State_Monad.bind (respond (exposeCacheStatus h hit)) (\<lambda>_. respond (writeCachedResponse e)))" by (intro back_intro)
            then show ?thesis by (rule valid_weaken [OF valid_back]) (use False in \<open>auto simp: reading_def\<close>)
          qed
        qed
        show ?case
          by (rule valid_bind [OF epoch], rule valid_bind [OF reading_cachedResponse [where u = u and us = us and hist = hist and i = i and p = "(x, data)", OF u p(1) json]], unfold c' [symmetric],
              rule valid_case(3)) (use respond in \<open>simp\<close>)
      qed
    qed
  qed
qed

end

end
