(* ===== verification/HttpSound.thy ===== *)
theory HttpSound
  imports HttpReading
begin

text \<open>
  Requests over a \<open>cached_backend\<close>: every request keeps the cache faithful to the documents there ever
  were, and a document that is read is sent only to those who may read it, as it is stored.
\<close>

text \<open>What a change stores, it stores under an id that no document ever had.\<close>

definition no_reuse ::
  "(string \<Rightarrow> (document \<times> bytes) option) \<Rightarrow> (string \<Rightarrow> (document \<times> bytes) option) \<Rightarrow> (string \<Rightarrow> (document \<times> bytes) option) \<Rightarrow> bool" where
  "no_reuse hist s s' \<longleftrightarrow> (\<forall>i p. s' i = Some p \<longrightarrow> s i = Some p \<or> hist i = None)"

lemma faithful_mono:
  "faithful L H ok st view hist w \<Longrightarrow> hist \<subseteq>\<^sub>m hist' \<Longrightarrow> faithful L H ok st view hist' w"
  unfolding faithful_def using ok_entry_mono map_le_trans by blast

context cached_backend
begin

lemma back_readDocument:
  assumes rw: "\<And>c. tells c Fresh (cn_rw k)" and w: "holds L H (\<lambda>s. s \<subseteq>\<^sub>m hist) hist {} (cn_back k)"
    and run: "run_state (readDocument L H h at r i) k = (out, k')"
  shows "holds L H (\<lambda>s. s \<subseteq>\<^sub>m hist) hist {} (cn_back k') \<and>
    (joined_loads_good H L hist \<longrightarrow> tells [] Broken (cn_rw k') \<or>
       (\<exists>t u w1. read_token (rq_RawQuery r) = Some t \<and> aa_Authorize auth request_ctx t (cn_back k) = (Inr u, w1) \<and>
          tells (content_for H hist u i) Broken (cn_rw k')))"
proof (cases "read_token (rq_RawQuery r)")
  case None
  then have "k' = k\<lparr>cn_rw := badRequest (cn_rw k)\<rparr>" using run by (simp add: readDocument_def parts)
  with w tells_errors(2) [OF rw] show ?thesis by simp
next
  case (Some t)
  obtain a w1 where a: "aa_Authorize auth request_ctx t (cn_back k) = (a, w1)" by (cases "aa_Authorize auth request_ctx t (cn_back k)")
  note f = authorize_frame [OF holds_inv [OF w] a]
  have w1: "holds L H (\<lambda>s. s \<subseteq>\<^sub>m hist) hist {} w1" using holds_frame [OF w] f by blast
  show ?thesis
  proof (cases a)
    case (Inl e)
    then have "k' = k\<lparr>cn_back := w1, cn_rw := writeDomainError e (cn_rw k)\<rparr>"
      using run Some a by (simp add: readDocument_def parts)
    with w1 tells_errors(1) [OF rw] show ?thesis by simp
  next
    case (Inr u)
    then have r: "run_state (readAuthorized L H h docs at r u i) (k\<lparr>cn_back := w1\<rparr>) = (out, k')"
      using run Some a by (simp add: readDocument_def parts)
    have "holds L H (\<lambda>s. s \<subseteq>\<^sub>m hist) hist {u} w1" using w1 f Inr by (simp add: holds_def)
    then have pre: "reading L H hist {u} (content_for H hist u i) Fresh (k\<lparr>cn_back := w1\<rparr>)"
      using rw by (simp add: reading_def)
    have u: "u \<in> {u}" by simp
    from validD [OF reading_authorized [OF u refl] pre r] a Inr Some show ?thesis by (auto simp: holds_def)
  qed
qed

lemma back_route:
  assumes rw: "\<And>c. tells c Fresh (cn_rw k)" and w: "faithful L H inv stored view hist (cn_back k)"
    and run: "run_state (route L H h at r) k = (out, k')"
  shows "holds L H (\<lambda>s. True) hist {} (cn_back k')"
proof -
  have pre: "holds L H (\<lambda>s. s \<subseteq>\<^sub>m hist) hist {} (cn_back k)" "holds L H (\<lambda>s. True) hist {} (cn_back k)"
    using w by (simp_all add: holds_def faithful_def)
  let ?G = "holds L H (\<lambda>s. True) hist {} (cn_back k')"
  have keep: ?G if "keeps_back (holds L H (\<lambda>s. True) hist {}) m" "run_state m k = (out, k')" for m :: "('w conn, outcome) state"
    using keeps_backD [OF that pre(2)] by (simp add: holds_def)
  have answer: ?G if "run_state (respond f) k = (out, k')" for f
    by (rule keep [OF back_rules(3) that])
  have read: ?G if "run_state (readDocument L H h at r i) k = (out, k')" for i
    using back_readDocument [OF rw pre(1) that] by (simp add: holds_def)
  show ?thesis
    using run unfolding route_def Let_def
    by (auto split: if_splits intro: answer read keep [OF back_listDocuments] keep [OF back_accounts(1)] keep [OF back_accounts(2)]
        keep [OF back_accounts(3)] keep [OF back_accounts(4)] keep [OF back_uploadDocument] keep [OF back_deleteDocument]
        simp del: run_handler)
qed

subsection \<open>One request\<close>

lemma frame_cases:
  "inv w \<Longrightarrow> (\<And>v. inv v \<Longrightarrow> frame_ok inv stored view known v (g v)) \<Longrightarrow> frame_ok inv stored view known w0 w \<Longrightarrow>
   frame_ok inv stored view known w0 (g w)"
  by (rule frame_trans) blast+

lemma report_frame:
  assumes "inv w"
  shows "frame_ok inv stored view known w (report h x r ending cs response w)"
proof -
  obtain timedOut streaming panicked where e: "ending = (timedOut, streaming, panicked)" by (cases ending)
  define log where "log = (case dp_Logger (h_deps h) of None \<Rightarrow> (\<lambda>l w. w) | Some f \<Rightarrow> f)"
  have log: "frame_ok inv stored view known v (log l v)" if "inv v" for l v
    using that logger_frame frame_refl by (auto simp: log_def split: option.split)
  have step: "frame_ok inv stored view known w (g v)"
    if "frame_ok inv stored view known w v" "\<And>v. inv v \<Longrightarrow> frame_ok inv stored view known v (g v)" for g v
    using that frame_trans unfolding frame_ok_def by blast
  let ?w1 = "if panicked then log (PanicRecovered (ex_requestID x) (normalizedRoute (rq_Path r)) (rq_Method r)) w else w"
  have w1: "frame_ok inv stored view known w ?w1" using log [OF assms] frame_refl [OF assms] by simp
  have w2: "frame_ok inv stored view known w (log l ?w1)" for l by (rule step [OF w1 log])
  show ?thesis
  proof (cases "dp_Metrics (h_deps h)")
    case None
    have "\<exists>l. report h x r ending cs response w = log l ?w1"
      by (cases panicked) (simp_all add: report_def e None log_def [symmetric] Let_def, blast+)
    with w2 show ?thesis by metis
  next
    case (Some m)
    note mf = metrics_frame [OF Some]
    have obs: "frame_ok inv stored view known w (me_ObserveRequest m name meth status elapsed (log l ?w1))" for name meth status elapsed l
      by (rule step [OF w2]) (use mf in blast)
    have tmo: "frame_ok inv stored view known w (case me_ObserveTimeout m of
        Some f \<Rightarrow> if timedOut then f name meth streaming (me_ObserveRequest m name meth status elapsed (log l ?w1))
          else me_ObserveRequest m name meth status elapsed (log l ?w1)
      | None \<Rightarrow> me_ObserveRequest m name meth status elapsed (log l ?w1))" for name meth status elapsed l
    proof (cases "me_ObserveTimeout m")
      case (Some f)
      have "frame_ok inv stored view known w (f name meth streaming (me_ObserveRequest m name meth status elapsed (log l ?w1)))"
        by (rule step [OF obs]) (use mf Some in blast)
      with obs Some show ?thesis by simp
    qed (simp add: obs)
    have dl: "frame_ok inv stored view known w (me_ObserveFile m dir n v)" if "frame_ok inv stored view known w v" for dir n v
      by (rule step [OF that]) (use mf in blast)
    have "\<exists>l name meth status elapsed b n. report h x r ending cs response w =
      (let v = (case me_ObserveTimeout m of
          Some f \<Rightarrow> if timedOut then f name meth streaming (me_ObserveRequest m name meth status elapsed (log l ?w1))
            else me_ObserveRequest m name meth status elapsed (log l ?w1)
        | None \<Rightarrow> me_ObserveRequest m name meth status elapsed (log l ?w1))
       in if b then me_ObserveFile m ''download'' n v else v)"
      unfolding report_def e Some prod.case option.case log_def [symmetric] Let_def
      by (cases panicked; simp only: if_True if_False option.case; intro exI; rule refl)
    then obtain l name meth status elapsed b n where report: "report h x r ending cs response w =
      (let v = (case me_ObserveTimeout m of
          Some f \<Rightarrow> if timedOut then f name meth streaming (me_ObserveRequest m name meth status elapsed (log l ?w1))
            else me_ObserveRequest m name meth status elapsed (log l ?w1)
        | None \<Rightarrow> me_ObserveRequest m name meth status elapsed (log l ?w1))
       in if b then me_ObserveFile m ''download'' n v else v)" by blast
    show ?thesis unfolding report Let_def using tmo dl by (cases b) simp_all
  qed
qed

lemma begin_tells:
  assumes "ds_sent d = None" "ds_body d = []" "ds_calls d = 0"
  shows "tells c Fresh (Observed (begin_response x limited r d))"
  using good_begin [OF assms, of x limited r]
  by (simp add: tells_def on_way_def says_def placed_def) (simp add: begin_response_def newObservedResponse_def Let_def)

lemma serve_runs:
  assumes fresh: "ds_sent d = None" "ds_body d = []" "ds_calls d = 0" and run: "serve L H h x at r d w = (d', w')"
  shows "\<exists>out k o1 ending o2.
    run_state (run_next h (route L H h at) r) \<lparr>cn_back = w, cn_rw = Observed (begin_response x
      (dp_ProcessingTimeout (h_deps h) > 0) r d), cn_cache = ''none''\<rparr> = (out, k) \<and>
    cn_rw k = Observed o1 \<and> good o1 \<and> ex_requestID x = ob_requestID o1 \<and> settle x out o1 = (ending, o2) \<and>
    d' = ob_dst o2 \<and> w' = report h x r ending (cn_cache k) o2 (cn_back k)"
proof -
  let ?l = "dp_ProcessingTimeout (h_deps h) > 0"
  let ?b = "begin_response x ?l r d"
  note b = good_begin [OF fresh, of x ?l r]
  obtain out k where k: "run_state (run_next h (route L H h at) r) \<lparr>cn_back = w, cn_rw = Observed ?b, cn_cache = ''none''\<rparr> = (out, k)"
    by (cases "run_state (run_next h (route L H h at) r) \<lparr>cn_back = w, cn_rw = Observed ?b, cn_cache = ''none''\<rparr>")
  have "writer_step\<^sup>*\<^sup>* (Observed ?b) (cn_rw k)" using viaD [OF via_run_next [OF via_route] k] by simp
  from writer_steps_good [OF this refl conjunct1 [OF b]]
  obtain o1 where o1: "cn_rw k = Observed o1" "good o1" "ob_setup o1 = ob_setup ?b" by blast
  obtain ending o2 where o2: "settle x out o1 = (ending, o2)" by (cases "settle x out o1")
  have rid: "ex_requestID x = ob_requestID o1" using o1(3) b by (simp add: ob_setup_def)
  have end': "d' = ob_dst o2" "w' = report h x r ending (cn_cache k) o2 (cn_back k)"
    using run k o1(1) o2 by (simp_all add: serve_def serveHTTP_def)
  show ?thesis
    by (rule exI [of _ out], rule exI [of _ k], rule exI [of _ o1], rule exI [of _ ending], rule exI [of _ o2])
      (use k o1 o2 rid end' in \<open>simp\<close>)
qed

lemma serve_keeps:
  assumes fresh: "ds_sent d = None" "ds_body d = []" "ds_calls d = 0" and run: "serve L H h x at r d w = (d', w')"
    and w: "faithful L H inv stored view hist w" and ids: "no_reuse hist (stored w) (stored w')"
  shows "hist \<subseteq>\<^sub>m hist ++ stored w' \<and> faithful L H inv stored view (hist ++ stored w') w'"
proof -
  let ?b = "Observed (begin_response x (dp_ProcessingTimeout (h_deps h) > 0) r d)"
  let ?k0 = "\<lparr>cn_back = w, cn_rw = ?b, cn_cache = ''none''\<rparr>"
  obtain out k o1 ending o2 where s: "run_state (run_next h (route L H h at) r) ?k0 = (out, k)"
    "w' = report h x r ending (cn_cache k) o2 (cn_back k)"
    using serve_runs [OF fresh run] by blast
  have rw: "tells c Fresh (cn_rw ?k0)" for c using begin_tells [OF fresh] by simp
  have "holds L H (\<lambda>s. True) hist {} (cn_back k)"
  proof (cases "rq_ContentLength r > lm_MaxRequestBytes (dp_Limits (h_deps h))")
    case True
    with s(1) have "cn_back k = w" by (auto simp: run_next_def)
    with w show ?thesis by (simp add: holds_def faithful_def)
  next
    case False
    then have "\<exists>r'. run_state (route L H h at r') ?k0 = (out, k)" using s(1) by (auto simp: run_next_def)
    then show ?thesis using back_route [where hist = hist and k = ?k0, OF rw] w by auto
  qed
  then have end': "holds L H (\<lambda>s. True) hist {} w'" unfolding s(2)
    using holds_frame report_frame holds_inv by blast
  have "stored w i = Some p \<Longrightarrow> hist i = Some p" for i p
    using w unfolding faithful_def map_le_def by (metis domI)
  then have le: "hist \<subseteq>\<^sub>m hist ++ stored w'"
    using ids by (fastforce simp: map_le_def no_reuse_def map_add_def split: option.splits)
  have "ok_entry L H hist key e \<Longrightarrow> ok_entry L H (hist ++ stored w') key e" for key e by (rule ok_entry_mono [OF _ le])
  then show ?thesis using end' le by (simp add: holds_def faithful_def)
qed

lemma serve_reads:
  assumes fresh: "ds_sent d = None" "ds_body d = []" "ds_calls d = 0" and run: "serve L H h x at r d w = (d', w')"
    and w: "faithful L H inv stored view hist w" and joined: "joined_loads_good H L hist"
    and path: "rq_Method r = ''GET'' \<or> rq_Method r = ''HEAD''" "rq_Path r = ''/api/docs/'' @ i" "singlePathValue (rq_Path r) ''/api/docs/''"
    and ok: "map_option fst (ds_sent d') = Some 200" and body: "ds_body d' \<noteq> []"
  shows "\<exists>t u w1 p. read_token (rq_RawQuery r) = Some t \<and> aa_Authorize auth request_ctx t w = (Inr u, w1) \<and>
    hist i = Some p \<and> readable u (fst p) \<and> prefix (ds_body d') (document_body H p)"
proof -
  let ?b = "Observed (begin_response x (dp_ProcessingTimeout (h_deps h) > 0) r d)"
  let ?k0 = "\<lparr>cn_back = w, cn_rw = ?b, cn_cache = ''none''\<rparr>"
  obtain out k o1 ending o2 where s: "run_state (run_next h (route L H h at) r) ?k0 = (out, k)" "cn_rw k = Observed o1" "good o1"
    "ex_requestID x = ob_requestID o1" "settle x out o1 = (ending, o2)" "d' = ob_dst o2"
    using serve_runs [OF fresh run] by blast
  have rw: "tells c Fresh (cn_rw ?k0)" for c using begin_tells [OF fresh] by simp
  have carried: "prefix (ds_body d') c" if "tells c Broken (cn_rw k)" for c
    using settle_wire [OF s(3) _ s(5,4), of c] that s(2,6) ok by (auto simp: tells_def on_way_def wire_says_def)
  show ?thesis
  proof (cases "rq_ContentLength r > lm_MaxRequestBytes (dp_Limits (h_deps h))")
    case True
    with s(1) have "cn_rw k = writeAPIError 400 400 ''request body is too large'' ?b" by (auto simp: run_next_def)
    then have "tells [] Broken (cn_rw k)" using tells_refusal(2) [OF rw, of 400] by simp
    from carried [OF this] body show ?thesis by simp
  next
    case False
    define r' where "r' = r\<lparr>rq_Body := map_option (\<lambda>b. max_bytes_reader b (lm_MaxRequestBytes (dp_Limits (h_deps h)))) (rq_Body r)\<rparr>"
    have r': "rq_Method r' = rq_Method r" "rq_Path r' = rq_Path r" "rq_RawQuery r' = rq_RawQuery r" by (simp_all add: r'_def)
    have route: "run_state (route L H h at r') ?k0 = (out, k)"
      using s(1) False by (simp add: run_next_def r'_def split: if_splits)
    have "rq_Path r \<notin> {''/health/live'', ''/health/ready'', ''/api/register'', ''/api/auth'', ''/api/docs''}"
      by (simp add: path(2))
    moreover have "strings_TrimPrefix (rq_Path r) ''/api/docs/'' = i"
      by (simp add: path(2) strings_TrimPrefix_def strings_HasPrefix_def)
    ultimately have read: "run_state (readDocument L H h at r' i) ?k0 = (out, k)"
      using route path(1,3) single_values(9) [OF path(3)] r' by (auto simp: route_def Let_def)
    have "holds L H (\<lambda>s. s \<subseteq>\<^sub>m hist) hist {} (cn_back ?k0)" using w by (simp add: holds_def faithful_def)
    from conjunct2 [OF back_readDocument [OF rw this read]] joined
    consider "tells [] Broken (cn_rw k)"
      | t u w1 where "read_token (rq_RawQuery r) = Some t" "aa_Authorize auth request_ctx t w = (Inr u, w1)"
        "tells (content_for H hist u i) Broken (cn_rw k)"
      by (auto simp: r')
    then show ?thesis
    proof cases
      case 1
      from carried [OF this] body show ?thesis by simp
    next
      case 2
      from carried [OF this(3)] body have "prefix (ds_body d') (content_for H hist u i)" "content_for H hist u i \<noteq> []" by auto
      then obtain p where "hist i = Some p" "readable u (fst p)" "content_for H hist u i = document_body H p"
        by (auto simp: content_for_def split: option.splits if_splits)
      with 2 \<open>prefix _ _\<close> show ?thesis by auto
    qed
  qed
qed

end

end
