(* ===== verification/CleanupWorker.thy ===== *)
theory CleanupWorker
  imports DocService
begin

text \<open>
  The background worker that empties the cleanup queue, \<open>internal/document/cleanup_worker.go\<close>.
  The clock, the error of a context and the wait for the poll timer are functions of the state.
\<close>

record 'w worker_config =
  wc_BatchSize :: int
  wc_PollInterval :: duration
  wc_OperationTimeout :: duration
  wc_InitialBackoff :: duration
  wc_MaxBackoff :: duration
  wc_Now :: "('w \<Rightarrow> time \<times> 'w) option"

record 'w cleanup_worker =
  cw_tasks :: "'w cleanup_repository"
  cw_blobs :: "'w blob_storage"
  cw_BatchSize :: int
  cw_PollInterval :: duration
  cw_OperationTimeout :: duration
  cw_InitialBackoff :: duration
  cw_MaxBackoff :: duration
  cw_now :: "'w \<Rightarrow> time \<times> 'w"

definition newCleanupWorker ::
  "'w cleanup_repository option \<Rightarrow> 'w blob_storage option \<Rightarrow> 'w worker_config \<Rightarrow> ('w \<Rightarrow> time \<times> 'w) \<Rightarrow>
   goerr + 'w cleanup_worker" where
  "newCleanupWorker tasks blobs cfg clock =
     (case (tasks, blobs) of
        (Some ts, Some bs) \<Rightarrow>
          let batch = (if wc_BatchSize cfg \<le> 0 then 16 else wc_BatchSize cfg);
              poll = (if wc_PollInterval cfg \<le> 0 then second else wc_PollInterval cfg);
              timeout = (if wc_OperationTimeout cfg \<le> 0 then 5 * second else wc_OperationTimeout cfg);
              first = (if wc_InitialBackoff cfg \<le> 0 then second else wc_InitialBackoff cfg);
              mx = (if wc_MaxBackoff cfg \<le> 0 then minute else wc_MaxBackoff cfg)
          in if mx < first then Inl (Wrapped ''configure cleanup worker'' (Sentinel ErrInvalidArgument))
             else Inr \<lparr>cw_tasks = ts, cw_blobs = bs, cw_BatchSize = batch, cw_PollInterval = poll,
               cw_OperationTimeout = timeout, cw_InitialBackoff = first, cw_MaxBackoff = mx,
               cw_now = (case wc_Now cfg of None \<Rightarrow> clock | Some f \<Rightarrow> f)\<rparr>
      | _ \<Rightarrow> Inl (Wrapped ''configure cleanup worker'' (Sentinel ErrInvalidArgument)))"

subsection \<open>Backoff and lease\<close>

text \<open>The loop of \<open>backoff\<close>, with \<open>n\<close> iterations left.\<close>

fun backoff_loop :: "duration \<Rightarrow> nat \<Rightarrow> duration \<Rightarrow> duration" where
  "backoff_loop mx 0 delay = (if delay > mx then mx else delay)"
| "backoff_loop mx (Suc n) delay =
     (if delay < mx then
        (if delay > go_div mx 2 then mx else backoff_loop mx n (wrap64 (delay * 2)))
      else if delay > mx then mx else delay)"

definition backoff :: "'w cleanup_worker \<Rightarrow> int \<Rightarrow> duration" where
  "backoff W attempts =
     (let attempts = (if attempts < 1 then 1 else attempts)
      in backoff_loop (cw_MaxBackoff W) (nat (attempts - 1)) (cw_InitialBackoff W))"

definition maxDuration :: duration where "maxDuration = max_int64"

definition leaseDuration :: "'w cleanup_worker \<Rightarrow> duration" where
  "leaseDuration W =
     (if cw_BatchSize W \<le> go_div maxDuration (cw_OperationTimeout W)
      then wrap64 (cw_OperationTimeout W * cw_BatchSize W) else maxDuration)"

subsection \<open>Processing\<close>

text \<open>\<open>cerr\<close> is the method \<open>Err\<close> of contexts; once set, a context's error does not change.\<close>

definition worker_process ::
  "(ctx \<Rightarrow> 'w \<Rightarrow> goerr option \<times> 'w) \<Rightarrow> 'w cleanup_worker \<Rightarrow> ctx \<Rightarrow> blobCleanupTask \<Rightarrow> 'w \<Rightarrow> goerr option \<times> 'w" where
  "worker_process cerr W parent task w =
     (let c = context_WithTimeout parent
      in case bs_Delete (cw_blobs W) c (t_StorageKey task) w of
           (r, w1) \<Rightarrow>
             if (case r of Inr _ \<Rightarrow> True | Inl e \<Rightarrow> errors_Is e BlobErrNotFound) then
               (case cr_Complete (cw_tasks W) c (t_ID task) w1 of
                  (Inl e, w2) \<Rightarrow> (Some e, w2) | (Inr _, w2) \<Rightarrow> (None, w2))
             else
               (case cerr parent w1 of
                  (Some e, w2) \<Rightarrow> (Some e, w2)
                | (None, w2) \<Rightarrow>
                    (case cw_now W w2 of
                       (now, w3) \<Rightarrow>
                         (case cr_Retry (cw_tasks W) c (t_ID task) (now + backoff W (t_Attempts task)) w3 of
                            (Inl e, w4) \<Rightarrow> (Some e, w4) | (Inr _, w4) \<Rightarrow> (None, w4)))))"

text \<open>The loop over the claimed tasks; \<open>Inl\<close> is the early return with the context's error.\<close>

fun process_all ::
  "(ctx \<Rightarrow> 'w \<Rightarrow> goerr option \<times> 'w) \<Rightarrow> 'w cleanup_worker \<Rightarrow> ctx \<Rightarrow> blobCleanupTask list \<Rightarrow>
   goerr option list \<Rightarrow> 'w \<Rightarrow> (goerr + goerr option) \<times> 'w" where
  "process_all cerr W c [] errs w = (Inr (errors_Join errs), w)"
| "process_all cerr W c (task # tasks) errs w =
     (case worker_process cerr W c task w of
        (None, w1) \<Rightarrow> process_all cerr W c tasks errs w1
      | (Some e, w1) \<Rightarrow>
          (case cerr c w1 of
             (Some ce, w2) \<Rightarrow> (Inl ce, w2)
           | (None, w2) \<Rightarrow> process_all cerr W c tasks (errs @ [Some e]) w2))"

definition processBatch ::
  "(ctx \<Rightarrow> 'w \<Rightarrow> goerr option \<times> 'w) \<Rightarrow> 'w cleanup_worker \<Rightarrow> ctx \<Rightarrow> 'w \<Rightarrow> (nat \<times> goerr option) \<times> 'w" where
  "processBatch cerr W c w =
     (case cw_now W w of
        (now, w1) \<Rightarrow>
          (case cr_Claim (cw_tasks W) c (cw_BatchSize W) (now + leaseDuration W) w1 of
             (Inl e, w2) \<Rightarrow> ((0, Some e), w2)
           | (Inr tasks, w2) \<Rightarrow>
               (case process_all cerr W c tasks [] w2 of
                  (Inl ce, w3) \<Rightarrow> ((length tasks, Some ce), w3)
                | (Inr err, w3) \<Rightarrow> ((length tasks, err), w3))))"

text \<open>
  \<open>Run\<close> polls until the context ends: \<open>wait\<close> is the \<open>select\<close> between the context and the timer
  of the poll interval (the context's error, or \<open>None\<close> for the timer). \<open>None\<close> is a run that has
  not returned after \<open>n\<close> batches.
\<close>

fun worker_run ::
  "(ctx \<Rightarrow> 'w \<Rightarrow> goerr option \<times> 'w) \<Rightarrow> (ctx \<Rightarrow> duration \<Rightarrow> 'w \<Rightarrow> goerr option \<times> 'w) \<Rightarrow>
   'w cleanup_worker \<Rightarrow> ctx \<Rightarrow> nat \<Rightarrow> 'w \<Rightarrow> (goerr \<times> 'w) option" where
  "worker_run cerr wait W c 0 w = None"
| "worker_run cerr wait W c (Suc n) w =
     (case processBatch cerr W c w of
        ((processed, err), w1) \<Rightarrow>
          (case (if err \<noteq> None then cerr c w1 else (None, w1)) of
             (Some ce, w2) \<Rightarrow> Some (ce, w2)
           | (None, w2) \<Rightarrow>
               if err \<noteq> None \<or> processed = 0 then
                 (case wait c (cw_PollInterval W) w2 of
                    (Some ce, w3) \<Rightarrow> Some (ce, w3)
                  | (None, w3) \<Rightarrow> worker_run cerr wait W c n w3)
               else worker_run cerr wait W c n w2))"

subsection \<open>The delays\<close>

definition wf_worker :: "'w cleanup_worker \<Rightarrow> bool" where
  "wf_worker W \<longleftrightarrow> 0 < cw_BatchSize W \<and> 0 < cw_OperationTimeout W \<and> cw_OperationTimeout W \<le> max_int64 \<and>
     0 < cw_InitialBackoff W \<and> cw_InitialBackoff W \<le> cw_MaxBackoff W \<and> cw_MaxBackoff W \<le> max_int64"

lemma if_Inl: "(if b then Inl e else Inr x) = Inr y \<longleftrightarrow> \<not> b \<and> x = y"
  by simp

lemma newCleanupWorker_wf:
  assumes "newCleanupWorker ts bs cfg clock = Inr W" "wc_OperationTimeout cfg \<le> max_int64" "wc_MaxBackoff cfg \<le> max_int64"
  shows "wf_worker W \<and> 0 < cw_PollInterval W"
proof -
  obtain t b where some: "ts = Some t" "bs = Some b"
    using assms(1) by (cases ts; cases bs) (simp_all add: newCleanupWorker_def)
  have W: "cw_BatchSize W = (if wc_BatchSize cfg \<le> 0 then 16 else wc_BatchSize cfg)"
    "cw_PollInterval W = (if wc_PollInterval cfg \<le> 0 then second else wc_PollInterval cfg)"
    "cw_OperationTimeout W = (if wc_OperationTimeout cfg \<le> 0 then 5 * second else wc_OperationTimeout cfg)"
    "cw_InitialBackoff W = (if wc_InitialBackoff cfg \<le> 0 then second else wc_InitialBackoff cfg)"
    "cw_MaxBackoff W = (if wc_MaxBackoff cfg \<le> 0 then minute else wc_MaxBackoff cfg)"
    "cw_InitialBackoff W \<le> cw_MaxBackoff W"
    using assms(1) unfolding some newCleanupWorker_def Let_def by (auto simp: if_Inl split del: if_split)
  have "0 < second" "0 < minute" "5 * second \<le> max_int64" "minute \<le> max_int64"
    by (simp_all add: second_def minute_def max_int64_def)
  then show ?thesis using W assms(2,3) by (simp add: wf_worker_def)
qed

lemma backoff_loop_min:
  "0 < delay \<Longrightarrow> delay \<le> mx \<Longrightarrow> mx \<le> max_int64 \<Longrightarrow> backoff_loop mx n delay = min mx (delay * 2 ^ n)"
proof (induction n arbitrary: delay)
  case (Suc n)
  have half: "go_div mx 2 = mx div 2" using Suc.prems by (simp add: go_div_nonneg)
  consider "delay = mx" | "delay < mx" "mx div 2 < delay" | "delay < mx" "delay \<le> mx div 2"
    using Suc.prems by linarith
  then show ?case
  proof cases
    case 1
    have "(1::int) \<le> 2 ^ Suc n" by (rule one_le_power) simp
    then have "mx \<le> mx * 2 ^ Suc n" using Suc.prems 1 mult_left_mono [of 1 "2 ^ Suc n" mx] by simp
    with 1 show ?thesis by (simp add: min_def)
  next
    case 2
    have "(1::int) \<le> 2 ^ n" by simp
    then have "2 * delay \<le> 2 * delay * 2 ^ n" using Suc.prems mult_left_mono [of 1 "2 ^ n" "2 * delay"] by simp
    moreover have "mx < 2 * delay" using 2 by linarith
    ultimately have "mx \<le> delay * 2 ^ Suc n" by simp
    with 2 half show ?thesis by (simp add: min_def)
  next
    case 3
    then have d: "0 < delay * 2" "delay * 2 \<le> mx" using Suc.prems by linarith+
    then have "wrap64 (delay * 2) = delay * 2" using Suc.prems(3) by (simp add: min_int64_def)
    with 3 half Suc.IH [OF d Suc.prems(3)] show ?thesis by (simp add: mult.assoc)
  qed
qed (auto simp: min_def)

lemma leaseDuration_eq:
  assumes "wf_worker W"
  shows "leaseDuration W = min max_int64 (cw_OperationTimeout W * cw_BatchSize W)"
proof -
  let ?t = "cw_OperationTimeout W" and ?b = "cw_BatchSize W"
  have t: "0 < ?t" "0 < ?b" using assms by (simp_all add: wf_worker_def)
  have div: "go_div maxDuration ?t = max_int64 div ?t"
    using t by (simp add: go_div_nonneg maxDuration_def max_int64_def)
  have iff: "?b \<le> max_int64 div ?t \<longleftrightarrow> ?t * ?b \<le> max_int64"
  proof
    assume "?b \<le> max_int64 div ?t"
    then have "?t * ?b \<le> ?t * (max_int64 div ?t)" using t by simp
    also have "\<dots> \<le> max_int64" using mult_div_mod_eq [of ?t max_int64] pos_mod_sign [OF t(1), of max_int64] by linarith
    finally show "?t * ?b \<le> max_int64" .
  next
    assume "?t * ?b \<le> max_int64"
    then have "?t * ?b div ?t \<le> max_int64 div ?t" using zdiv_mono1 t by blast
    then show "?b \<le> max_int64 div ?t" using t by simp
  qed
  have "0 < ?t * ?b" using t by simp
  then have "min_int64 \<le> ?t * ?b" by (simp add: min_int64_def)
  then show ?thesis using div iff by (auto simp: leaseDuration_def maxDuration_def min_def)
qed

text \<open>C13: Every worker that \<open>NewCleanupWorker\<close> accepts waits between failed attempts for the first
  delay doubled once per attempt, capped at the maximum, and leases a batch for the operation
  timeout times the batch size, capped at the largest duration: no product wraps around.\<close>

theorem worker_delays:
  assumes "newCleanupWorker ts bs cfg clock = Inr W" "wc_OperationTimeout cfg \<le> max_int64" "wc_MaxBackoff cfg \<le> max_int64"
  shows "backoff W n = min (cw_MaxBackoff W) (cw_InitialBackoff W * 2 ^ nat (n - 1)) \<and> 0 < backoff W n \<and>
    leaseDuration W = min max_int64 (cw_OperationTimeout W * cw_BatchSize W) \<and> 0 < leaseDuration W \<and>
    0 < cw_PollInterval W"
proof -
  have wf: "wf_worker W" "0 < cw_PollInterval W" using newCleanupWorker_wf [OF assms] by simp_all
  then have "backoff W n = min (cw_MaxBackoff W) (cw_InitialBackoff W * 2 ^ nat (n - 1))"
    by (auto simp: backoff_def Let_def wf_worker_def backoff_loop_min)
  moreover have "0 < cw_InitialBackoff W * 2 ^ nat (n - 1)" "0 < cw_MaxBackoff W"
      "0 < cw_OperationTimeout W * cw_BatchSize W" using wf by (simp_all add: wf_worker_def)
  ultimately show ?thesis using wf leaseDuration_eq [OF wf(1)] by (simp add: max_int64_def)
qed

subsection \<open>What a batch does\<close>

text \<open>
  A batch touches nothing but queued blobs and the queue: only blobs of queued keys disappear,
  and a key leaves the queue only when its blob is gone.
\<close>

context doc_env
begin

definition reaps :: "'w \<Rightarrow> 'w \<Rightarrow> bool" where
  "reaps w w' \<longleftrightarrow> inv w' \<and> accounts w' = accounts w \<and> docs w' = docs w \<and> queued w' \<subseteq> queued w \<and>
     (\<forall>k \<in> queued w - queued w'. blobs w' k = None) \<and>
     (\<forall>k. blobs w' k = blobs w k \<or> k \<in> queued w \<and> blobs w' k = None)"

definition quiet :: "('a \<Rightarrow> 'w \<Rightarrow> 'b \<times> 'w) \<Rightarrow> bool" where
  "quiet f \<longleftrightarrow> (\<forall>a w b w'. inv w \<longrightarrow> f a w = (b, w') \<longrightarrow> same w w')"

definition works :: "'w cleanup_worker \<Rightarrow> bool" where
  "works W \<longleftrightarrow> cw_tasks W = K \<and> cw_blobs W = B \<and> quiet (\<lambda>_::unit. cw_now W)"

definition holds :: "'w \<Rightarrow> blobCleanupTask \<Rightarrow> bool" where
  "holds w t \<longleftrightarrow> (\<exists>x. tasks w (t_ID t) = Some x \<and> t_StorageKey x = t_StorageKey t)"

lemma quietD: "quiet f \<Longrightarrow> inv w \<Longrightarrow> f a w = (b, w') \<Longrightarrow> same w w'"
  by (auto simp: quiet_def)

lemma same_reaps: "same w w' \<Longrightarrow> reaps w w'"
  by (simp add: same_def reaps_def)

lemma reaps_trans: "reaps w w1 \<Longrightarrow> reaps w1 w2 \<Longrightarrow> reaps w w2"
  unfolding reaps_def by (intro conjI allI ballI) (simp | blast | metis Diff_iff subsetD)+

lemma holds_queued: "inv w \<Longrightarrow> holds w t \<Longrightarrow> t_StorageKey t \<in> queued w"
  unfolding holds_def by (auto simp: queued_tasks task_keys_iff)

text \<open>One task: done for good, put off, or left as it was with an error.\<close>

text \<open>A task whose blob is gone is completed; one whose blob could not be deleted is put off.\<close>

lemma worker_completes:
  assumes W: "works W" and inv: "inv w" and c: "\<not> c_tx c" and t: "holds w t"
    and del: "bs_Delete B (context_WithTimeout c) (t_StorageKey t) w = (r1, w1)"
    and removed: "case r1 of Inr _ \<Rightarrow> True | Inl e \<Rightarrow> errors_Is e BlobErrNotFound"
    and run: "worker_process cerr W c t w = (r, w')"
  shows "reaps w w' \<and>
    (tasks w' = tasks w \<and> r \<noteq> None \<or> tasks w' = (tasks w)(t_ID t := None) \<and> blobs w' (t_StorageKey t) = None)"
proof -
  let ?c = "context_WithTimeout c" and ?key = "t_StorageKey t"
  have c': "\<not> c_tx ?c" using c by (simp add: context_WithTimeout_def)
  have W': "cw_tasks W = K" "cw_blobs W = B" using W by (simp_all add: works_def)
  have key: "?key \<in> queued w" using holds_queued [OF inv t] .
  note k1 = blob_step [OF inv delete_frame [OF del]]
  have inv1: "inv w1" using k1 by simp
  have gone: "blobs w1 = (blobs w)(?key := None)" using delete_gone [OF del] removed by (cases r1) auto
  obtain r2 w2 where comp: "cr_Complete K ?c (t_ID t) w1 = (r2, w2)" by fastforce
  note k2 = kcomplete_keeps [OF inv1 c' comp] complete_blobs [OF comp]
  have res: "w' = w2" "r = (case r2 of Inl e \<Rightarrow> Some e | Inr _ \<Rightarrow> None)"
    using run W' del comp removed by (auto simp: worker_process_def Let_def split: sum.splits)
  have t2: "tasks w2 = tasks w \<and> r \<noteq> None \<or> tasks w2 = (tasks w)(t_ID t := None)"
  proof (cases r2)
    case (Inl e)
    with kcomplete_err [OF inv1 c' comp [unfolded Inl]] k1 res show ?thesis by simp
  next
    case (Inr u)
    with kcomplete_ok [OF inv1 c' comp [unfolded Inr]] k1 show ?thesis by simp
  qed
  have inv2: "inv w2" using k2 by simp
  have keep: "accounts w2 = accounts w \<and> docs w2 = docs w" using k1 k2 rest_docs [of w2 w1] by simp
  have q2: "queued w2 \<subseteq> queued w \<and> queued w - queued w2 \<subseteq> {?key}"
    using t2
  proof (elim disjE conjE)
    assume "tasks w2 = (tasks w)(t_ID t := None)"
    moreover obtain x where "tasks w (t_ID t) = Some x" "t_StorageKey x = ?key" using t by (auto simp: holds_def)
    ultimately show ?thesis
      unfolding queued_tasks [OF inv] queued_tasks [OF inv2]
      by (auto simp: task_keys_iff split: if_splits) (metis option.inject)+
  qed (simp add: queued_tasks [OF inv] queued_tasks [OF inv2])
  have "blobs w2 = (blobs w)(?key := None)" using gone k2 by simp
  then have "reaps w w2" using inv2 keep q2 key by (auto simp: reaps_def)
  then show ?thesis using res t2 \<open>blobs w2 = (blobs w)(?key := None)\<close> by auto
qed

lemma worker_retries:
  assumes W: "works W" and inv: "inv w" and c: "\<not> c_tx c" and t: "holds w t"
    and del: "bs_Delete B (context_WithTimeout c) (t_StorageKey t) w = (r1, w1)"
    and q: "quiet cerr" and kept: "\<not> (case r1 of Inr _ \<Rightarrow> True | Inl e \<Rightarrow> errors_Is e BlobErrNotFound)"
    and run: "worker_process cerr W c t w = (r, w')"
  shows "reaps w w' \<and>
    (tasks w' = tasks w \<and> r \<noteq> None \<or>
     blobs w' = blobs w \<and> (\<exists>now. tasks w' = retried (prec (now + backoff W (t_Attempts t))) (t_ID t) (tasks w)))"
proof -
  let ?c = "context_WithTimeout c" and ?key = "t_StorageKey t"
  have c': "\<not> c_tx ?c" using c by (simp add: context_WithTimeout_def)
  have W': "cw_tasks W = K" "cw_blobs W = B" using W by (simp_all add: works_def)
  note k1 = blob_step [OF inv delete_frame [OF del]]
  have inv1: "inv w1" using k1 by simp
  from kept obtain e where e: "r1 = Inl e" "\<not> errors_Is e BlobErrNotFound" by (cases r1) auto
  have b1: "blobs w1 = blobs w" using delete_err [OF del [unfolded e(1)]] by simp
  then have s1: "same w w1" using k1 by (simp add: same_def)
  obtain r2 w2 where err: "cerr c w1 = (r2, w2)" by fastforce
  have s2: "same w w2" using same_trans [OF s1 quietD [OF q inv1 err]] .
  then have inv2: "inv w2" by (simp add: same_def)
  show ?thesis
  proof (cases r2)
    case (Some ce)
    with run W' del err e have "r = Some ce" "w' = w2" by (simp_all add: worker_process_def Let_def)
    then show ?thesis using s2 same_reaps [OF s2] by (simp add: same_def)
  next
    case None
    obtain now w3 where clock: "cw_now W w2 = (now, w3)" by fastforce
    have "quiet (\<lambda>_::unit. cw_now W)" using W by (simp add: works_def)
    from quietD [OF this inv2 clock] have s3: "same w w3" using same_trans [OF s2] by blast
    then have inv3: "inv w3" by (simp add: same_def)
    let ?at = "now + backoff W (t_Attempts t)"
    obtain r4 w4 where re: "cr_Retry K ?c (t_ID t) ?at w3 = (r4, w4)" by fastforce
    note k4 = kretry_keeps [OF inv3 c' re] retry_blobs [OF re]
    have res: "w' = w4" "r = (case r4 of Inl e \<Rightarrow> Some e | Inr _ \<Rightarrow> None)"
      using run W' del err e None clock re by (auto simp: worker_process_def Let_def split: sum.splits)
    have t4: "tasks w4 = tasks w \<and> r \<noteq> None \<or> tasks w4 = retried (prec ?at) (t_ID t) (tasks w)"
    proof (cases r4)
      case (Inl e)
      with kretry_err [OF inv3 c' re [unfolded Inl]] s3 res show ?thesis by (simp add: same_def)
    next
      case (Inr u)
      with kretry_ok [OF inv3 c' re [unfolded Inr]] s3 show ?thesis by (simp add: same_def)
    qed
    have inv4: "inv w4" using k4 by simp
    have "queued w4 = queued w"
      unfolding queued_tasks [OF inv] queued_tasks [OF inv4] using t4 retried_keys by auto
    then have "reaps w w4" using inv4 k4 s3 rest_docs [of w4 w3] by (simp add: reaps_def same_def)
    moreover have "blobs w4 = blobs w" using k4 s3 by (simp add: same_def)
    ultimately show ?thesis using res t4 by auto
  qed
qed

lemma worker_process_cases:
  assumes W: "works W" and q: "quiet cerr" and inv: "inv w" and c: "\<not> c_tx c" and t: "holds w t"
    and run: "worker_process cerr W c t w = (r, w')"
  shows "reaps w w' \<and>
    (tasks w' = tasks w \<and> r \<noteq> None \<or>
     tasks w' = (tasks w)(t_ID t := None) \<and> blobs w' (t_StorageKey t) = None \<or>
     blobs w' = blobs w \<and> (\<exists>now. tasks w' = retried (prec (now + backoff W (t_Attempts t))) (t_ID t) (tasks w)))"
proof -
  obtain r1 w1 where del: "bs_Delete B (context_WithTimeout c) (t_StorageKey t) w = (r1, w1)" by fastforce
  show ?thesis
    using worker_completes [OF W inv c t del _ run] worker_retries [OF W inv c t del q _ run] by blast
qed

lemma process_keeps_others:
  assumes "works W" "quiet cerr" "inv w" "\<not> c_tx c" "holds w t" "worker_process cerr W c t w = (r, w')" "i \<noteq> t_ID t"
  shows "tasks w' i = tasks w i"
  using worker_process_cases [OF assms(1-6)] assms(7) by (auto simp: retried_def)

lemma process_holds:
  assumes "works W" "quiet cerr" "inv w" "\<not> c_tx c" "holds w t" "worker_process cerr W c t w = (r, w')"
    "t_ID t' \<noteq> t_ID t" "holds w t'"
  shows "holds w' t'"
  using process_keeps_others [OF assms(1-7)] assms(8) by (simp add: holds_def)

text \<open>The claimed tasks, one after the other.\<close>

lemma process_all_reaps:
  assumes W: "works W" and q: "quiet cerr" and c: "\<not> c_tx c"
  shows "inv w \<Longrightarrow> \<forall>t \<in> set ts. holds w t \<Longrightarrow> distinct (map t_ID ts) \<Longrightarrow>
    process_all cerr W c ts errs w = (r, w') \<Longrightarrow> reaps w w'"
proof (induction ts arbitrary: errs w)
  case Nil
  then show ?case by (simp add: reaps_def)
next
  case (Cons t ts)
  obtain r1 w1 where one: "worker_process cerr W c t w = (r1, w1)" by fastforce
  have t: "holds w t" using Cons.prems(2) by simp
  note k1 = worker_process_cases [OF W q Cons.prems(1) c t one, THEN conjunct1]
  then have inv1: "inv w1" by (simp add: reaps_def)
  have h1: "\<forall>t' \<in> set ts. holds w1 t'"
  proof
    fix t' assume t': "t' \<in> set ts"
    then have "t_ID t' \<noteq> t_ID t" using Cons.prems(3) by (metis distinct.simps(2) image_eqI list.set_map list.simps(9))
    then show "holds w1 t'" using process_holds [OF W q Cons.prems(1) c t one] Cons.prems(2) t' by simp
  qed
  show ?case
  proof (cases r1)
    case None
    with Cons.prems(4) one have "process_all cerr W c ts errs w1 = (r, w')" by simp
    with Cons.IH [OF inv1 h1] Cons.prems(3) k1 reaps_trans show ?thesis by fastforce
  next
    case (Some e)
    obtain r2 w2 where err: "cerr c w1 = (r2, w2)" by fastforce
    note s2 = quietD [OF q inv1 err]
    have k2: "reaps w w2" using reaps_trans [OF k1 same_reaps [OF s2]] .
    show ?thesis
    proof (cases r2)
      case None
      with Cons.prems(4) one Some err have "process_all cerr W c ts (errs @ [Some e]) w2 = (r, w')" by simp
      moreover have "inv w2" "\<forall>t' \<in> set ts. holds w2 t'" using s2 h1 by (simp_all add: same_def holds_def)
      ultimately show ?thesis using Cons.IH Cons.prems(3) k2 reaps_trans by fastforce
    next
      case (Some ce)
      with Cons.prems(4) one \<open>r1 = Some e\<close> err k2 show ?thesis by simp
    qed
  qed
qed

lemma leased_holds: "leased prec t (tasks w) ts \<Longrightarrow> tasks w' = update_tasks (tasks w) ts \<Longrightarrow>
    (\<forall>t \<in> set ts. holds w' t) \<and> distinct (map t_ID ts)"
  by (auto simp: leased_def holds_def update_tasks_def comp_def map_add_Some_iff
      intro!: exI [of _ "_::blobCleanupTask"] map_of_is_SomeI)

lemma batch_reaps:
  assumes W: "works W" and q: "quiet cerr" and inv: "inv w" and c: "\<not> c_tx c"
    and run: "processBatch cerr W c w = ((n, err), w')"
  shows "reaps w w' \<and> int n \<le> max 0 (cw_BatchSize W)"
proof -
  have W': "cw_tasks W = K" and clock: "quiet (\<lambda>_::unit. cw_now W)" using W by (simp_all add: works_def)
  obtain now w1 where now: "cw_now W w = (now, w1)" by fastforce
  note s1 = quietD [OF clock inv now]
  then have inv1: "inv w1" by (simp add: same_def)
  obtain r2 w2 where claim: "cr_Claim K c (cw_BatchSize W) (now + leaseDuration W) w1 = (r2, w2)" by fastforce
  note k2 = kclaim_keeps [OF inv1 c claim] claim_blobs [OF claim]
  then have inv2: "inv w2" by simp
  have q2: "queued w2 = queued w1" if "tasks w2 = tasks w1 \<or>
      (\<exists>ts. leased prec (now + leaseDuration W) (tasks w1) ts \<and> tasks w2 = update_tasks (tasks w1) ts)"
    unfolding queued_tasks [OF inv1] queued_tasks [OF inv2] using that leased_keys by auto
  have reaps2: "reaps w w2" if "queued w2 = queued w1"
    using that s1 k2 rest_docs [of w2 w1] by (simp add: reaps_def same_def)
  show ?thesis
  proof (cases r2)
    case (Inl e)
    with kclaim_err [OF inv1 c claim [unfolded Inl]] q2 have "queued w2 = queued w1" by blast
    moreover have "n = 0" "w' = w2" using run now W' claim Inl by (simp_all add: processBatch_def)
    ultimately show ?thesis using reaps2 by simp
  next
    case (Inr ts)
    note ok = kclaim_ok [OF inv1 c claim [unfolded Inr]]
    then have "reaps w w2" using reaps2 q2 by blast
    moreover obtain r3 where all: "process_all cerr W c ts [] w2 = (r3, w')" "n = length ts"
      using run now W' claim Inr by (auto simp: processBatch_def split: prod.splits sum.splits)
    moreover have "reaps w2 w'"
      using process_all_reaps [OF W q c inv2] leased_holds ok all(1) by blast
    ultimately show ?thesis using ok reaps_trans by auto
  qed
qed

lemma run_reaps:
  assumes W: "works W" and q: "quiet cerr" and wait: "quiet (\<lambda>(c, d). wait c d)" and c: "\<not> c_tx c"
  shows "inv w \<Longrightarrow> worker_run cerr wait W c n w = Some (e, w') \<Longrightarrow> reaps w w'"
proof (induction n arbitrary: w)
  case (Suc n)
  obtain m err w1 where batch: "processBatch cerr W c w = ((m, err), w1)" by (metis surj_pair)
  note k1 = batch_reaps [OF W q Suc.prems(1) c batch, THEN conjunct1]
  then have inv1: "inv w1" by (simp add: reaps_def)
  obtain r2 w2 where chk: "(if err \<noteq> None then cerr c w1 else (None, w1)) = (r2, w2)" by fastforce
  have "same w1 w2" using chk quietD [OF q inv1] inv1 by (auto simp: same_def split: if_splits)
  then have k2: "reaps w w2" "inv w2" using reaps_trans k1 same_reaps by (blast, simp add: same_def)
  obtain r3 w3 where wt: "wait c (cw_PollInterval W) w2 = (r3, w3)" by fastforce
  have "same w2 w3" using quietD [OF wait k2(2), of "(c, cw_PollInterval W)"] wt by simp
  then have k3: "reaps w w3" "inv w3" using reaps_trans k2 same_reaps by (blast, simp add: same_def)
  have step: "(r2 = Some e \<and> w' = w2) \<or> (r3 = Some e \<and> w' = w3) \<or>
      worker_run cerr wait W c n w3 = Some (e, w') \<or> worker_run cerr wait W c n w2 = Some (e, w')"
    using Suc.prems(2) batch chk wt by (auto split: option.splits if_splits)
  then show ?case using k2 k3 Suc.IH reaps_trans by blast
qed simp

end

end
