(* ===== verification/DocSystem.thy ===== *)
theory DocSystem
  imports DocService CleanupWorker
begin

text \<open>
  Users and the cleanup worker together: the steps that calls to the service and runs of the
  worker make, and the invariant they keep between documents, blobs and the cleanup queue. Beside
  the state goes a ghost set, which no operation reads: the ids of the documents whose upload was
  reported as a failure although the store may have created them.
\<close>

text \<open>
  Every stored file has its own storage key, the key is not queued for cleanup, and its blob is
  there unless its upload ended in doubt.
\<close>

definition consistent ::
  "(string \<Rightarrow> document option) \<Rightarrow> string set \<Rightarrow> (string \<Rightarrow> bytes option) \<Rightarrow> string set \<Rightarrow> bool" where
  "consistent docs queued blobs doubt \<longleftrightarrow>
     (\<forall>k x. docs k = Some x \<longrightarrow> d_IsFile x \<longrightarrow> d_StorageKey x \<notin> queued \<and>
        (k \<notin> doubt \<longrightarrow> blobs (d_StorageKey x) \<noteq> None)) \<and>
     (\<forall>k x k' x'. docs k = Some x \<longrightarrow> docs k' = Some x' \<longrightarrow> d_IsFile x \<longrightarrow> d_IsFile x' \<longrightarrow>
        d_StorageKey x = d_StorageKey x' \<longrightarrow> k = k')"

text \<open>The ghost set after an upload with the result \<open>r\<close>, which took the documents from \<open>d\<close> to \<open>d'\<close>.\<close>

definition doubt_after ::
  "(string \<Rightarrow> document option) \<Rightarrow> string set \<Rightarrow> goerr + document \<Rightarrow> (string \<Rightarrow> document option) \<Rightarrow> string set" where
  "doubt_after d doubt r d' =
     (case r of Inl e \<Rightarrow> if doubtful e then doubt \<union> (dom d' - dom d) else doubt
      | Inr _ \<Rightarrow> doubt - (dom d' - dom d))"

text \<open>The random key of a new file is neither waiting in the queue nor the key of another file.\<close>

definition fresh_keys :: "(string \<Rightarrow> document option) \<Rightarrow> string set \<Rightarrow> (string \<Rightarrow> document option) \<Rightarrow> bool" where
  "fresh_keys d queued d' \<longleftrightarrow> (\<forall>k x. d k = None \<longrightarrow> d' k = Some x \<longrightarrow> d_IsFile x \<longrightarrow> d_StorageKey x \<notin> queued \<and>
     (\<forall>k' x'. d k' = Some x' \<longrightarrow> d_IsFile x' \<longrightarrow> d_StorageKey x' \<noteq> d_StorageKey x))"

text \<open>
  A step of the system, with any outcome. Requests come from registered users. All that is assumed
  of an upload is that the 32 random bytes of its storage key are not drawn again while they are in use.
\<close>

inductive doc_step ::
  "golib \<Rightarrow> 'w doc_service \<Rightarrow> 'w cleanup_worker \<Rightarrow> (ctx \<Rightarrow> 'w \<Rightarrow> goerr option \<times> 'w) \<Rightarrow>
   (ctx \<Rightarrow> duration \<Rightarrow> 'w \<Rightarrow> goerr option \<times> 'w) \<Rightarrow> ('w \<Rightarrow> string \<Rightarrow> (user \<times> bytes) option) \<Rightarrow>
   ('w \<Rightarrow> string \<Rightarrow> document option) \<Rightarrow> ('w \<Rightarrow> string set) \<Rightarrow> 'w \<times> string set \<Rightarrow> 'w \<times> string set \<Rightarrow> bool"
  for L S W cerr wait accounts docs queued
where
  upload: "accounts w (u_Login u) = Some (u, h) \<Longrightarrow> \<not> c_tx c \<Longrightarrow> doc_Upload L S c u input w = (r, w') \<Longrightarrow>
     fresh_keys (docs w) (queued w) (docs w') \<Longrightarrow>
     doc_step L S W cerr wait accounts docs queued (w, doubt) (w', doubt_after (docs w) doubt r (docs w'))"
| get: "accounts w (u_Login u) = Some (u, h) \<Longrightarrow> \<not> c_tx c \<Longrightarrow> doc_Get S c u i w = (r, w') \<Longrightarrow>
     doc_step L S W cerr wait accounts docs queued (w, doubt) (w', doubt)"
| list: "accounts w (u_Login u) = Some (u, h) \<Longrightarrow> \<not> c_tx c \<Longrightarrow> doc_List L S c u f w = (r, w') \<Longrightarrow>
     doc_step L S W cerr wait accounts docs queued (w, doubt) (w', doubt)"
| delete: "accounts w (u_Login u) = Some (u, h) \<Longrightarrow> \<not> c_tx c \<Longrightarrow> doc_Delete S c u i w = (res, w') \<Longrightarrow>
     doc_step L S W cerr wait accounts docs queued (w, doubt) (w', doubt)"
| worker: "\<not> c_tx c \<Longrightarrow> worker_run cerr wait W c n w = Some (e, w') \<Longrightarrow>
     doc_step L S W cerr wait accounts docs queued (w, doubt) (w', doubt)"

inductive_cases doc_stepE: "doc_step L S W cerr wait accounts docs queued (w, doubt) (w', doubt')"

lemma consistentD:
  assumes "consistent docs queued blobs doubt" "docs k = Some x" "d_IsFile x"
  shows "d_StorageKey x \<notin> queued" "k \<notin> doubt \<Longrightarrow> blobs (d_StorageKey x) \<noteq> None"
    "docs k' = Some x' \<Longrightarrow> d_IsFile x' \<Longrightarrow> d_StorageKey x = d_StorageKey x' \<Longrightarrow> k = k'"
  using assms unfolding consistent_def by blast+

lemma consistentI:
  assumes "\<And>k x. docs k = Some x \<Longrightarrow> d_IsFile x \<Longrightarrow> d_StorageKey x \<notin> queued"
    "\<And>k x. docs k = Some x \<Longrightarrow> d_IsFile x \<Longrightarrow> k \<notin> doubt \<Longrightarrow> blobs (d_StorageKey x) \<noteq> None"
    "\<And>k x k' x'. docs k = Some x \<Longrightarrow> docs k' = Some x' \<Longrightarrow> d_IsFile x \<Longrightarrow> d_IsFile x' \<Longrightarrow>
       d_StorageKey x = d_StorageKey x' \<Longrightarrow> k = k'"
  shows "consistent docs queued blobs doubt"
  using assms unfolding consistent_def by blast

lemma consistent_keep:
  assumes con: "consistent docs queued blobs doubt" and keep: "\<And>key. blobs key \<noteq> None \<Longrightarrow> blobs' key \<noteq> None"
  shows "consistent docs queued blobs' doubt"
  by (rule consistentI) (use con keep in \<open>blast dest: consistentD\<close>)+

text \<open>A document more, with a key of its own.\<close>

lemma consistent_add:
  assumes con: "consistent docs queued blobs doubt" and "docs k = None"
    and keep: "\<And>key. blobs key \<noteq> None \<Longrightarrow> blobs' key \<noteq> None"
    and fresh: "fresh_keys docs queued (docs(k \<mapsto> s))"
    and new: "d_IsFile s \<Longrightarrow> k \<notin> doubt' \<Longrightarrow> blobs' (d_StorageKey s) \<noteq> None"
    and doubt: "doubt - {k} \<subseteq> doubt'"
  shows "consistent (docs(k \<mapsto> s)) queued blobs' doubt'"
proof (rule consistentI)
  have own: "d_IsFile s \<Longrightarrow> d_StorageKey s \<notin> queued"
    "d_IsFile s \<Longrightarrow> docs k' = Some x' \<Longrightarrow> d_IsFile x' \<Longrightarrow> d_StorageKey x' \<noteq> d_StorageKey s" for k' x'
    using fresh assms(2) unfolding fresh_keys_def by (metis fun_upd_same)+
  fix k1 x1 assume a: "(docs(k \<mapsto> s)) k1 = Some x1" "d_IsFile x1"
  show "d_StorageKey x1 \<notin> queued"
    using a own(1) consistentD(1) [OF con] by (metis fun_upd_apply option.inject)
  show "k1 \<notin> doubt' \<Longrightarrow> blobs' (d_StorageKey x1) \<noteq> None"
  proof (cases "k1 = k")
    case False
    then have old: "docs k1 = Some x1" using a(1) by simp
    assume "k1 \<notin> doubt'"
    then have "k1 \<notin> doubt" using doubt False by blast
    from keep [OF consistentD(2) [OF con old a(2) this]] show ?thesis .
  qed (use a new in auto)
  fix k2 x2 assume b: "(docs(k \<mapsto> s)) k2 = Some x2" "d_IsFile x2" "d_StorageKey x1 = d_StorageKey x2"
  show "k1 = k2"
  proof (cases "k1 = k \<or> k2 = k")
    case True
    then show ?thesis using a b own(2) by (metis fun_upd_apply option.inject)
  next
    case False
    then show ?thesis using a b consistentD(3) [OF con] by simp
  qed
qed

text \<open>A document less: its key may be queued and its blob may go.\<close>

lemma consistent_remove:
  assumes con: "consistent docs queued blobs doubt" and k: "docs k = Some x"
    and q: "queued' \<subseteq> queued \<union> removed_keys x"
    and b: "\<And>key. key \<notin> removed_keys x \<Longrightarrow> blobs' key = blobs key"
  shows "consistent (docs(k := None)) queued' blobs' doubt"
proof (rule consistentI)
  fix k1 x1 assume a: "(docs(k := None)) k1 = Some x1" "d_IsFile x1"
  then have k1: "docs k1 = Some x1" "k1 \<noteq> k" by (auto split: if_splits)
  have other: "d_StorageKey x1 \<notin> removed_keys x"
    using consistentD(3) [OF con k1(1) a(2) k] k1(2) by (auto simp: removed_keys_def)
  then show "d_StorageKey x1 \<notin> queued'" using consistentD(1) [OF con k1(1) a(2)] q by blast
  show "k1 \<notin> doubt \<Longrightarrow> blobs' (d_StorageKey x1) \<noteq> None"
    unfolding b [OF other] by (rule consistentD(2) [OF con k1(1) a(2)])
next
  fix k1 x1 k2 x2
  assume a: "(docs(k := None)) k1 = Some x1" "(docs(k := None)) k2 = Some x2" "d_IsFile x1" "d_IsFile x2"
    "d_StorageKey x1 = d_StorageKey x2"
  then show "k1 = k2" using consistentD(3) [OF con] by (auto split: if_splits)
qed

context doc_env
begin

abbreviation con :: "'w \<Rightarrow> string set \<Rightarrow> bool" where
  "con w doubt \<equiv> consistent (docs w) (queued w) (blobs w) doubt"

lemma upload_consistent:
  assumes "serves S" "inv w" "\<not> c_tx c" "accounts w (u_Login u) = Some (u, h)"
    "doc_Upload L S c u input w = (r, w')" "con w doubt" "fresh_keys (docs w) (queued w) (docs w')"
  shows "con w' (doubt_after (docs w) doubt r (docs w'))"
proof -
  note u = upload_cases [OF assms(1-5)]
  have keep: "blobs w k \<noteq> None \<Longrightarrow> blobs w' k \<noteq> None" for k using u by fastforce
  have q: "queued w' = queued w" using u by simp
  consider (same) "docs w' = docs w"
    | (doubt) e k s where "r = Inl e" "doubtful e" "docs w k = None" "docs w' = (docs w)(k \<mapsto> s)"
    | (new) y x s where "r = Inr y" "uploaded L (json w) S u input x s" "docs w (d_ID x) = None"
        "docs w' = (docs w)(d_ID x \<mapsto> s)" "d_IsFile x \<Longrightarrow> blobs w' (d_StorageKey x) \<noteq> None"
  proof (cases r)
    case (Inl e)
    have "docs w' = docs w \<or> doubtful e \<and> (\<exists>k s. docs w k = None \<and> docs w' = (docs w)(k \<mapsto> s))"
      using u unfolding Inl sum.case by blast
    then show thesis using that(1,2) Inl by blast
  next
    case (Inr y)
    obtain x s where x: "uploaded L (json w) S u input x s" "docs w (d_ID x) = None" "docs w' = (docs w)(d_ID x \<mapsto> s)"
      and b: "if d_IsFile x then blobs w (d_StorageKey x) = None \<and> (\<exists>src. up_File input = Some src \<and>
          blobs w' = (blobs w)(d_StorageKey x \<mapsto> r_data src)) else blobs w' = blobs w"
      using u unfolding Inr sum.case by blast
    from b have "d_IsFile x \<Longrightarrow> blobs w' (d_StorageKey x) \<noteq> None" by auto
    then show thesis by (rule that(3) [OF Inr x(1-3)])
  qed
  then show ?thesis
  proof cases
    case same
    then have "doubt_after (docs w) doubt r (docs w') = doubt" by (auto simp: doubt_after_def split: sum.splits)
    then show ?thesis using consistent_keep [OF assms(6) keep] same q by simp
  next
    case doubt
    then have "doubt_after (docs w) doubt r (docs w') = insert k doubt" by (auto simp: doubt_after_def)
    then show ?thesis using assms(7) unfolding q doubt(4)
      by (auto intro!: consistent_add [OF assms(6) doubt(3) keep])
  next
    case new
    then have "doubt_after (docs w) doubt r (docs w') = doubt - {d_ID x}" by (auto simp: doubt_after_def)
    moreover have "d_IsFile s \<Longrightarrow> blobs w' (d_StorageKey s) \<noteq> None"
      using new(2,5) by (auto simp: uploaded_def stored_for_def)
    ultimately show ?thesis using assms(7) unfolding q new(4)
      by (auto intro!: consistent_add [OF assms(6) new(3) keep])
  qed
qed

lemma delete_consistent:
  assumes "serves S" "inv w" "\<not> c_tx c" "doc_Delete S c u i w = (res, w')" "con w doubt"
  shows "con w' doubt"
proof -
  note d = delete_cases [OF assms(1-4)]
  show ?thesis
  proof (cases "docs w' = docs w \<and> queued w' = queued w \<and> blobs w' = blobs w")
    case False
    then obtain k x where k: "docs w k = Some x" "docs w' = (docs w)(k := None)"
      "queued w' = queued w \<union> removed_keys x \<and> blobs w' = blobs w \<or>
       d_IsFile x \<and> blobs w' = (blobs w)(d_StorageKey x := None) \<and>
       (queued w' = queued w \<union> removed_keys x \<or> queued w' = queued w - {d_StorageKey x})"
      using d False by (elim conjE disjE exE) ((rule that, assumption, assumption, simp only: simp_thms) | simp only: simp_thms)+
    then have q: "queued w' \<subseteq> queued w \<union> removed_keys x" by blast
    have b: "blobs w' key = blobs w key" if "key \<notin> removed_keys x" for key
      using k(3) that unfolding removed_keys_def by (elim disjE conjE) simp_all
    show ?thesis unfolding k(2) by (rule consistent_remove [OF assms(5) k(1) q b])
  qed (use assms(5) in simp)
qed

lemma reaps_consistent: "reaps w w' \<Longrightarrow> con w doubt \<Longrightarrow> con w' doubt"
  unfolding reaps_def consistent_def by (metis subsetD)

lemma step_consistent:
  assumes "serves S" "works W" "quiet cerr" "quiet (\<lambda>(c, d). wait c d)"
    and "doc_step L S W cerr wait accounts docs queued (w, doubt) (w', doubt')" "inv w" "con w doubt"
  shows "inv w' \<and> con w' doubt'"
  using assms(5)
proof (cases rule: doc_step.cases)
  case (upload u h c input r)
  then show ?thesis
    using upload_cases [OF assms(1,6) upload(3,2,4), THEN conjunct1] upload_consistent [OF assms(1,6) upload(3,2,4) assms(7) upload(5)]
    by simp
next
  case (get u h c i r)
  then show ?thesis using get_cases [OF assms(1,6) get(3,2,4)] assms(7) by simp
next
  case (list u h c f r)
  then show ?thesis using list_cases [OF assms(1,6) list(3,2,4)] assms(7) by simp
next
  case (delete u h c i res)
  then show ?thesis
    using delete_cases [OF assms(1,6) delete(3,4), THEN conjunct1] delete_consistent [OF assms(1,6) delete(3,4) assms(7)] by simp
next
  case (worker c n e)
  then show ?thesis
    using run_reaps [OF assms(2-4) worker(2) assms(6) worker(3)] reaps_consistent assms(7) by (auto simp: reaps_def)
qed

lemma steps_consistent:
  assumes "serves S" "works W" "quiet cerr" "quiet (\<lambda>(c, d). wait c d)"
    and "(doc_step L S W cerr wait accounts docs queued)\<^sup>*\<^sup>* (w, doubt) (w', doubt')" "inv w" "con w doubt"
  shows "inv w' \<and> con w' doubt'"
  using assms(5-7) by (induction rule: rtranclp_induct2) (auto dest: step_consistent [OF assms(1-4)])

end

end
