(* ===== verification/PgDocPort.thy ===== *)
theory PgDocPort
  imports PgDocuments
begin

text \<open>
  What the document operations of the PostgreSQL store do to its tables, and the proof that
  they meet the contract of \<open>document_port\<close>: every statement of a transaction is followed on
  the transaction's copy, then \<open>withinTransaction_outcomes\<close> carries the result to the
  committed state, whatever fails on the way.
\<close>

subsection \<open>Views\<close>

definition pg_docs :: "world \<Rightarrow> string \<Rightarrow> document option" where
  "pg_docs w k = map_option (full_document (w_pg w) (w_db w)) (document_by_id k (w_db w))"

definition pg_queued :: "world \<Rightarrow> string set" where
  "pg_queued w = rt_key ` set (db_tasks (w_db w))"

definition pg_canon :: "world \<Rightarrow> string \<Rightarrow> string option" where
  "pg_canon w i = pg_uuid_in (w_pg w) i"

lemma pg_views_cong:
  "w_db w' = w_db w \<Longrightarrow> w_pg w' = w_pg w \<Longrightarrow> pg_docs w' = pg_docs w \<and> pg_queued w' = pg_queued w"
  by (simp add: pg_docs_def pg_queued_def fun_eq_iff)

lemma full_document_taskseq [simp]: "full_document p (d\<lparr>db_taskseq := q\<rparr>) = full_document p d"
  by (rule ext) (simp add: full_document_def grant_logins_def)

lemma pg_docs_taskseq:
  "w_db w' = (w_db w)\<lparr>db_taskseq := q\<rparr> \<Longrightarrow> w_pg w' = w_pg w \<Longrightarrow>
   pg_docs w' = pg_docs w \<and> pg_queued w' = pg_queued w \<and> pg_accounts w' = pg_accounts w"
  by (simp add: pg_docs_def pg_queued_def pg_accounts_def fun_eq_iff document_by_id_def find_user_def)

lemma document_by_id_iff:
  "wf_documents d \<Longrightarrow> document_by_id k d = Some r \<longleftrightarrow> r \<in> set (db_documents d) \<and> rd_id r = k"
  unfolding document_by_id_def by (rule find_unique [where f = rd_id]) (auto simp: wf_documents_def)

lemma document_by_id_None: "document_by_id k d = None \<longleftrightarrow> k \<notin> set (map rd_id (db_documents d))"
  by (auto simp: document_by_id_def find_None_iff)

lemma full_document_simps [simp]:
  "d_ID (full_document p d r) = rd_id r" "d_OwnerID (full_document p d r) = rd_owner r"
  "d_IsFile (full_document p d r) = rd_is_file r" "d_IsPublic (full_document p d r) = rd_is_public r"
  "d_Name (full_document p d r) = rd_name r" "d_Grants (full_document p d r) = grant_logins p d (rd_id r)"
  by (simp_all add: full_document_def document_of_row_def)

lemma set_grant_logins:
  "set (grant_logins p d i) = ru_login ` {u \<in> set (db_users d). (i, ru_id u) \<in> set (db_grants d)}"
  by (auto simp: grant_logins_def)

text \<open>Access as the statements decide it is access as the stored document shows it.\<close>

lemma row_accessible_readable:
  assumes "wf_users d" "find_user l d = Some q"
  shows "row_accessible d r (ru_id q) \<longleftrightarrow> readable (user_of_row q) (full_document p d r)"
proof -
  have q: "q \<in> set (db_users d)" "ru_login q = l" using find_user_Some assms(2) by blast+
  have "inj_on ru_id (set (db_users d))" "inj_on ru_login (set (db_users d))"
    using assms(1) by (simp_all add: wf_users_def distinct_map)
  then have "(rd_id r, ru_id q) \<in> set (db_grants d) \<longleftrightarrow> l \<in> set (grant_logins p d (rd_id r))"
    using q by (auto simp: set_grant_logins dest: inj_onD)
  then show ?thesis
    by (simp add: row_accessible_def readable_def user_of_row_def q(2))
qed

subsection \<open>One statement at a time\<close>

lemma pg_exec_pg: "pg_exec c f w = (r, w') \<Longrightarrow> w_pg w' = w_pg w"
  using keepsD [OF keeps_pg_exec_frame [of "pg_frame w" c f], of w r w'] by (simp add: pg_frame_def)

lemma tx_exec:
  assumes "map_err g (pg_exec c f) w = (Inr a, w')" "c_tx c" "w_tx w = Some (d, t)"
  obtains d' where "f (w_pg w) t d = (Inr a, d')" "w_tx w' = Some (d', t)" "w_pg w' = w_pg w"
proof -
  have ex: "pg_exec c f w = (Inr a, w')" using assms(1) by (rule map_err_InrE)
  with pg_exec_tx [OF ex assms(2,3)] pg_exec_pg [OF ex] that show thesis by blast
qed

lemma tx_select:
  assumes "map_err g (pg_exec c (select q)) w = (Inr a, w')" "c_tx c" "w_tx w = Some (d, t)"
  shows "q (w_pg w) t d = Inr a \<and> w_tx w' = Some (d, t) \<and> w_pg w' = w_pg w"
  by (rule tx_exec [OF assms]) (simp add: select_def)

text \<open>The same for a statement on its own.\<close>

lemma auto_select:
  assumes "map_err (classify m) (pg_exec c (select q)) w = (r, w')" "\<not> c_tx c"
  shows "w_db w' = w_db w \<and> w_pg w' = w_pg w \<and> w_tx w' = w_tx w \<and>
    (\<exists>now. case q (w_pg w) now (w_db w) of
       Inr a \<Rightarrow> r = Inr a \<or> (\<exists>e. r = Inl (classify m (io_goerr e)))
     | Inl e \<Rightarrow> r = Inl (classify m e) \<or> (\<exists>e. r = Inl (classify m (io_goerr e))))"
proof -
  obtain r1 w1 where ex: "pg_exec c (select q) w = (r1, w1)" by fastforce
  have rw: "r = (case r1 of Inl e \<Rightarrow> Inl (classify m e) | Inr a \<Rightarrow> Inr a)" "w' = w1"
    using assms(1) ex by (auto simp: map_err_def split: sum.splits)
  have "(\<exists>now. case q (w_pg w) now (w_db w) of
       Inr a \<Rightarrow> r = Inr a \<or> (\<exists>e. r = Inl (classify m (io_goerr e)))
     | Inl e \<Rightarrow> r = Inl (classify m e) \<or> (\<exists>e. r = Inl (classify m (io_goerr e))))"
    by (rule exI [of _ "es_dbnow (w_env w (w_tick w))"])
      (use pg_exec_select [OF ex assms(2)] rw in \<open>auto split: sum.splits\<close>)
  with pg_exec_select [OF ex assms(2)] pg_exec_pg [OF ex] rw show ?thesis by simp
qed

lemma select_document_Inr:
  "sum_bind (uuid_param p i) (\<lambda>u. case document_by_id u d of None \<Rightarrow> Inl e | Some r \<Rightarrow> Inr (h r)) = Inr x \<longleftrightarrow>
   (\<exists>u r. uuid_param p i = Inr u \<and> document_by_id u d = Some r \<and> x = h r)"
  by (auto simp: sum_bind_Inr split: option.splits)

lemma insert_task_effect:
  assumes "insert_task k p t d = (Inr a, d')"
  shows "db_users d' = db_users d \<and> db_documents d' = db_documents d \<and> db_grants d' = db_grants d \<and>
    rt_key ` set (db_tasks d') = insert k (rt_key ` set (db_tasks d))"
  using assms by (auto simp: insert_task_def text_param_def split: if_splits)

lemma delete_document_effect:
  assumes "delete_document i p t d = (Inr n, d')"
  shows "\<exists>u. uuid_param p i = Inr u \<and> n = length (filter (\<lambda>r. rd_id r = u) (db_documents d)) \<and>
    d' = d\<lparr>db_documents := filter (\<lambda>r. rd_id r \<noteq> u) (db_documents d),
      db_grants := filter (\<lambda>g. fst g \<noteq> u) (db_grants d)\<rparr>"
  using assms by (auto simp: delete_document_def split: sum.splits)

subsection \<open>Deleting\<close>

definition deletes :: "pg_params \<Rightarrow> string \<Rightarrow> string \<Rightarrow> document \<Rightarrow> database \<Rightarrow> database \<Rightarrow> bool" where
  "deletes p i ow x d d' \<longleftrightarrow> (\<exists>u r. uuid_param p i = Inr u \<and> document_by_id u d = Some r \<and>
     rd_owner r = ow \<and> x = full_document p d r \<and> db_users d' = db_users d \<and>
     db_documents d' = filter (\<lambda>r. rd_id r \<noteq> u) (db_documents d) \<and>
     db_grants d' = filter (\<lambda>g. fst g \<noteq> u) (db_grants d) \<and>
     rt_key ` set (db_tasks d') = rt_key ` set (db_tasks d) \<union> removed_keys x)"

lemma delete_body_run:
  assumes run: "delete_body i ow c w = (Inr x, w')" and c: "c_tx c" and tx: "w_tx w = Some (d, t)"
  shows "\<exists>d'. w_tx w' = Some (d', t) \<and> deletes (w_pg w) i ow x d d'"
proof -
  from run obtain a w1 where lock: "map_err (classify ''find document to delete'')
      (pg_exec c (lock_document_owner i)) w = (Inr a, w1)" and own: "a = ow"
      and rest: "and_then (pg_ByID c i) (\<lambda>deleted. and_then
        (if d_IsFile deleted
         then map_err (classify ''enqueue blob cleanup'') (pg_exec c (insert_task (d_StorageKey deleted)))
         else ret ())
        (\<lambda>_. and_then (map_err (classify ''delete document'') (pg_exec c (delete_document i))) (\<lambda>n.
          if n \<noteq> 1 then fail (Wrapped ''delete document'' (Sentinel RepoErrNotFound)) else ret deleted))) w1
        = (Inr x, w')"
    unfolding delete_body_def by (rule and_then_InrE) (auto split: if_splits)
  from tx_select [OF lock [unfolded lock_document_owner_def] c tx] own
  obtain u r where u: "uuid_param (w_pg w) i = Inr u" "document_by_id u d = Some r" "rd_owner r = ow"
    and w1: "w_tx w1 = Some (d, t)" "w_pg w1 = w_pg w"
    by (auto simp: select_document_Inr)
  from rest obtain y w2 where by_id: "pg_ByID c i w1 = (Inr y, w2)"
      and rest2: "and_then
        (if d_IsFile y
         then map_err (classify ''enqueue blob cleanup'') (pg_exec c (insert_task (d_StorageKey y)))
         else ret ())
        (\<lambda>_. and_then (map_err (classify ''delete document'') (pg_exec c (delete_document i))) (\<lambda>n.
          if n \<noteq> 1 then fail (Wrapped ''delete document'' (Sentinel RepoErrNotFound)) else ret y)) w2
        = (Inr x, w')"
    by (rule and_then_InrE)
  have "map_err (classify ''find document'') (pg_exec c (select_document i)) w1 = (Inr y, w2)"
    using by_id by (auto simp: pg_ByID_def split: if_splits)
  from tx_select [OF this [unfolded select_document_def] c w1(1)] w1 u
  have y: "y = full_document (w_pg w) d r" and w2: "w_tx w2 = Some (d, t)" "w_pg w2 = w_pg w"
    by (auto simp: select_document_Inr)
  from rest2 obtain z w3 where queue: "(if d_IsFile y
         then map_err (classify ''enqueue blob cleanup'') (pg_exec c (insert_task (d_StorageKey y)))
         else ret ()) w2 = (Inr z, w3)"
      and rest3: "and_then (map_err (classify ''delete document'') (pg_exec c (delete_document i))) (\<lambda>n.
          if n \<noteq> 1 then fail (Wrapped ''delete document'' (Sentinel RepoErrNotFound)) else ret y) w3
        = (Inr x, w')"
    by (rule and_then_InrE)
  obtain d3 where d3: "w_tx w3 = Some (d3, t)" "w_pg w3 = w_pg w" "db_users d3 = db_users d"
    "db_documents d3 = db_documents d" "db_grants d3 = db_grants d"
    "rt_key ` set (db_tasks d3) = rt_key ` set (db_tasks d) \<union> removed_keys y"
  proof (cases "d_IsFile y")
    case True
    with queue have "map_err (classify ''enqueue blob cleanup'')
        (pg_exec c (insert_task (d_StorageKey y))) w2 = (Inr z, w3)" by simp
    from tx_exec [OF this c w2(1)] insert_task_effect w2(2) True that show ?thesis
      by (metis Un_insert_right removed_keys_def sup_bot.right_neutral)
  next
    case False
    with queue w2 that [of d] show ?thesis by (simp add: removed_keys_def)
  qed
  from rest3 obtain n w4 where del: "map_err (classify ''delete document'')
      (pg_exec c (delete_document i)) w3 = (Inr n, w4)" and fin: "x = y" "w' = w4"
    by (rule and_then_InrE) (auto split: if_splits)
  from tx_exec [OF del c d3(1)] obtain d4 where
    "delete_document i (w_pg w) t d3 = (Inr n, d4)" "w_tx w4 = Some (d4, t)" using d3(2) by auto
  with delete_document_effect [OF this(1)] d3 u y fin show ?thesis
    by (auto simp: deletes_def)
qed

lemma filter_id_one:
  assumes "r \<in> set rs" "rd_id r = u" "distinct (map rd_id rs)"
  shows "length (filter (\<lambda>r. rd_id r = u) rs) = 1"
proof -
  have "filter (\<lambda>r. rd_id r = u) rs = [r]"
    using assms
  proof (induction rs)
    case (Cons x rs)
    show ?case
    proof (cases "rd_id x = u")
      case True
      with Cons.prems have "\<forall>y \<in> set rs. rd_id y \<noteq> u" "x = r" by (auto simp: image_iff)
      with True show ?thesis by (simp add: filter_empty_conv)
    next
      case False
      with Cons show ?thesis by auto
    qed
  qed simp
  then show ?thesis by simp
qed

text \<open>Errors of the environment say nothing about what the store holds.\<close>

lemma io_not_definite [simp]: "\<not> definite (classify m (io_goerr x))"
  using classify_io by (auto simp: definite_def)

lemma definite_wrapped [simp]: "definite (Wrapped m (Sentinel s)) \<longleftrightarrow>
    s \<in> {RepoErrNotFound, RepoErrConflict, RepoErrForbidden, RepoErrInvalidArgument}"
  by (auto simp: definite_def)

lemma tx_exec_cases:
  assumes "map_err (classify m) (pg_exec c f) w = (r, w')" "c_tx c" "w_tx w = Some (d, t)"
  shows "(\<exists>x. r = Inl (classify m (io_goerr x))) \<or>
    (\<exists>r' d'. f (w_pg w) t d = (r', d') \<and> r = (case r' of Inl e \<Rightarrow> Inl (classify m e) | Inr a \<Rightarrow> Inr a) \<and>
      w_tx w' = Some (d', t) \<and> w_pg w' = w_pg w)"
  using assms
  by (auto simp: map_err_def pg_exec_def env_call_def env_next_def split: fault.splits prod.splits sum.splits)

lemma tx_select_cases:
  assumes "map_err (classify m) (pg_exec c (select q)) w = (r, w')" "c_tx c" "w_tx w = Some (d, t)"
  shows "(\<exists>x. r = Inl (classify m (io_goerr x))) \<or>
    r = (case q (w_pg w) t d of Inl e \<Rightarrow> Inl (classify m e) | Inr a \<Rightarrow> Inr a) \<and>
      w_tx w' = Some (d, t) \<and> w_pg w' = w_pg w"
  using tx_exec_cases [OF assms] by (auto simp: select_def)

text \<open>Why a deletion is refused.\<close>

text \<open>Why a call failed, as far as the error says: the answer of the database, not of the connection.\<close>

definition deletion_refused :: "world \<Rightarrow> database \<Rightarrow> string \<Rightarrow> string \<Rightarrow> goerr \<Rightarrow> bool" where
  "deletion_refused w d i ow e \<longleftrightarrow> (errors_Is e RepoErrForbidden \<longrightarrow>
      (\<exists>u r. uuid_param (w_pg w) i = Inr u \<and> document_by_id u d = Some r \<and> rd_owner r \<noteq> ow)) \<and>
    (errors_Is e RepoErrNotFound \<longrightarrow> (\<exists>u. uuid_param (w_pg w) i = Inr u \<and> document_by_id u d = None))"

lemma io_tells_nothing:
  "\<not> errors_Is (classify m (io_goerr x)) RepoErrForbidden" "\<not> errors_Is (classify m (io_goerr x)) RepoErrNotFound"
  using classify_io by fastforce+

lemma lock_refused:
  assumes run: "map_err (classify m) (pg_exec c (lock_document_owner i)) w = (r, w')" and c: "c_tx c"
    and tx: "w_tx w = Some (d, t)"
  shows "(\<forall>e. r = Inl e \<longrightarrow> deletion_refused w d i ow e) \<and> (\<forall>a. r = Inr a \<longrightarrow> w_tx w' = Some (d, t) \<and> w_pg w' = w_pg w \<and>
    (\<exists>u q. uuid_param (w_pg w) i = Inr u \<and> document_by_id u d = Some q \<and> rd_owner q = a))"
  using tx_select_cases [OF run [unfolded lock_document_owner_def] c tx] io_tells_nothing
  by (cases r) (auto simp: uuid_param_def deletion_refused_def split: option.splits)

lemma by_id_refused:
  assumes run: "pg_ByID c i w = (r, w')" and c: "c_tx c" and tx: "w_tx w = Some (d, t)"
    and u: "uuid_param (w_pg w) i = Inr u" "document_by_id u d = Some q"
  shows "(\<forall>e. r = Inl e \<longrightarrow> deletion_refused w d i ow e) \<and> (\<forall>y. r = Inr y \<longrightarrow> w_tx w' = Some (d, t) \<and> w_pg w' = w_pg w)"
proof (cases "uuid_Parse i = None")
  case True
  with run show ?thesis by (auto simp: pg_ByID_def deletion_refused_def)
next
  case False
  with run have run': "map_err (classify ''find document'') (pg_exec c (select_document i)) w = (r, w')"
    by (simp add: pg_ByID_def)
  show ?thesis
  proof (cases r)
    case (Inl e)
    with tx_select_cases [OF run' [unfolded select_document_def] c tx] u io_tells_nothing show ?thesis
      by (auto simp: deletion_refused_def)
  next
    case (Inr y)
    with tx_select [OF run' [unfolded Inr select_document_def] c tx] show ?thesis by simp
  qed
qed

lemma enqueue_refused:
  assumes run: "(if b then map_err (classify m) (pg_exec c (insert_task k)) else ret ()) w = (r, w')" and c: "c_tx c"
    and tx: "w_tx w = Some (d, t)"
  shows "(\<forall>e. r = Inl e \<longrightarrow> deletion_refused w d i ow e) \<and> (\<forall>z. r = Inr z \<longrightarrow> w_pg w' = w_pg w \<and>
    (\<exists>d'. w_tx w' = Some (d', t) \<and> db_documents d' = db_documents d))"
proof (cases b)
  case True
  with run have run': "map_err (classify m) (pg_exec c (insert_task k)) w = (r, w')" by simp
  show ?thesis
  proof (cases r)
    case (Inl e)
    with tx_exec_cases [OF run' c tx] io_tells_nothing show ?thesis
      by (auto simp: insert_task_def text_param_def deletion_refused_def split: if_splits)
  next
    case (Inr z)
    from tx_exec [OF run' [unfolded Inr] c tx] insert_task_effect Inr show ?thesis by (metis sum.distinct(1))
  qed
next
  case False
  with run tx show ?thesis by auto
qed

lemma delete_row_refused:
  assumes run: "map_err (classify m) (pg_exec c (delete_document i)) w = (r, w')" and c: "c_tx c"
    and tx: "w_tx w = Some (d', t)" "db_documents d' = db_documents d"
    and u: "uuid_param (w_pg w) i = Inr u" "document_by_id u d = Some q" and wf: "wf_documents d"
  shows "(\<forall>e. r = Inl e \<longrightarrow> deletion_refused w d i ow e) \<and> (\<forall>n. r = Inr n \<longrightarrow> n = 1)"
proof -
  have "q \<in> set (db_documents d)" "rd_id q = u" using u(2) document_by_id_iff [OF wf] by blast+
  moreover have "distinct (map rd_id (db_documents d))" using wf by (simp add: wf_documents_def)
  ultimately have "length (filter (\<lambda>r. rd_id r = u) (db_documents d)) = 1" by (rule filter_id_one)
  with tx_exec_cases [OF run c tx(1)] u(1) tx(2) io_tells_nothing show ?thesis
    by (cases r) (auto simp: delete_document_def deletion_refused_def)
qed

lemma delete_body_fails:
  assumes run: "delete_body i ow c w = (Inl e, w')" and c: "c_tx c" and tx: "w_tx w = Some (d, t)"
    and wf: "wf_documents d"
  shows "(errors_Is e RepoErrForbidden \<longrightarrow>
      (\<exists>u r. uuid_param (w_pg w) i = Inr u \<and> document_by_id u d = Some r \<and> rd_owner r \<noteq> ow)) \<and>
    (errors_Is e RepoErrNotFound \<longrightarrow> (\<exists>u. uuid_param (w_pg w) i = Inr u \<and> document_by_id u d = None))"
  unfolding deletion_refused_def [symmetric]
proof -
  have pg: "deletion_refused w1 d i ow x \<longleftrightarrow> deletion_refused w d i ow x" if "w_pg w1 = w_pg w" for w1 x
    using that by (simp add: deletion_refused_def)
  obtain r1 w1 where lock: "map_err (classify ''find document to delete'')
      (pg_exec c (lock_document_owner i)) w = (r1, w1)" by fastforce
  note k1 = lock_refused [OF lock c tx, of ow]
  show "deletion_refused w d i ow e"
  proof (cases "r1 = Inr ow")
    case False
    with run lock k1 show ?thesis
      by (cases r1) (auto simp: delete_body_def deletion_refused_def)
  next
    case r1: True
    with k1 obtain u q where u: "uuid_param (w_pg w) i = Inr u" "document_by_id u d = Some q"
      and w1: "w_tx w1 = Some (d, t)" "w_pg w1 = w_pg w" by blast
    have u1: "uuid_param (w_pg w1) i = Inr u" using u w1 by simp
    obtain r2 w2 where by_id: "pg_ByID c i w1 = (r2, w2)" by fastforce
    note k2 = by_id_refused [OF by_id c w1(1) u1 u(2), of ow]
    show ?thesis
    proof (cases r2)
      case (Inl e2)
      with run lock r1 by_id k2 pg [OF w1(2)] show ?thesis by (simp add: delete_body_def)
    next
      case r2: (Inr y)
      then have w2: "w_tx w2 = Some (d, t)" "w_pg w2 = w_pg w" using k2 w1 by auto
      obtain r3 w3 where queue: "(if d_IsFile y
         then map_err (classify ''enqueue blob cleanup'') (pg_exec c (insert_task (d_StorageKey y)))
         else ret ()) w2 = (r3, w3)" by fastforce
      note k3 = enqueue_refused [OF queue c w2(1), of i ow]
      show ?thesis
      proof (cases r3)
        case (Inl e3)
        with run lock r1 by_id r2 queue k3 pg [OF w2(2)] show ?thesis by (simp add: delete_body_def)
      next
        case r3: (Inr z)
        with k3 w2 obtain d3 where d3: "w_tx w3 = Some (d3, t)" "db_documents d3 = db_documents d" "w_pg w3 = w_pg w" by auto
        have u3: "uuid_param (w_pg w3) i = Inr u" using u d3 by simp
        obtain r4 w4 where del: "map_err (classify ''delete document'') (pg_exec c (delete_document i)) w3 = (r4, w4)"
          by fastforce
        from delete_row_refused [OF del c d3(1,2) u3 u(2) wf, of ow] pg [OF d3(3)] run lock r1 by_id r2 queue r3 del
        show ?thesis by (cases r4) (auto simp: delete_body_def)
      qed
    qed
  qed
qed

subsection \<open>What deleting does to the views\<close>

lemma find_filter: "(\<And>x. P x \<Longrightarrow> Q x) \<Longrightarrow> find P (filter Q xs) = find P xs"
  by (induction xs) auto

lemma grant_logins_cong:
  "db_users d' = db_users d \<Longrightarrow> (\<And>q. (i, q) \<in> set (db_grants d') \<longleftrightarrow> (i, q) \<in> set (db_grants d)) \<Longrightarrow>
   grant_logins p d' i = grant_logins p d i"
  by (simp add: grant_logins_def)

lemma full_document_cong:
  "grant_logins p d' (rd_id r) = grant_logins p d (rd_id r) \<Longrightarrow> full_document p d' r = full_document p d r"
  by (simp add: full_document_def)

lemma uuid_param_Inr: "uuid_param p i = Inr u \<longleftrightarrow> pg_uuid_in p i = Some u"
  by (auto simp: uuid_param_def split: option.splits)

lemma deletes_views:
  assumes "deletes (w_pg w) i ow x (w_db w) (w_db w')" "w_pg w' = w_pg w" "wf_documents (w_db w)"
  shows "(\<exists>k. pg_canon w i = Some k \<and> pg_docs w k = Some x \<and> d_OwnerID x = ow \<and>
      pg_docs w' = (pg_docs w)(k := None) \<and> pg_queued w' = pg_queued w \<union> removed_keys x)"
    and "pg_accounts w' = pg_accounts w"
proof -
  obtain u r where d: "uuid_param (w_pg w) i = Inr u" "document_by_id u (w_db w) = Some r"
    "rd_owner r = ow" "x = full_document (w_pg w) (w_db w) r" "db_users (w_db w') = db_users (w_db w)"
    "db_documents (w_db w') = filter (\<lambda>r. rd_id r \<noteq> u) (db_documents (w_db w))"
    "db_grants (w_db w') = filter (\<lambda>g. fst g \<noteq> u) (db_grants (w_db w))"
    "rt_key ` set (db_tasks (w_db w')) = rt_key ` set (db_tasks (w_db w)) \<union> removed_keys x"
    using assms(1) unfolding deletes_def by blast
  have "pg_docs w' j = ((pg_docs w)(u := None)) j" for j
  proof (cases "j = u")
    case True
    then have "document_by_id j (w_db w') = None" by (auto simp: document_by_id_def d(6) find_None_iff)
    with True show ?thesis by (simp add: pg_docs_def)
  next
    case False
    have "document_by_id j (w_db w') = document_by_id j (w_db w)"
      unfolding document_by_id_def d(6) by (rule find_filter) (use False in simp)
    moreover have "full_document (w_pg w) (w_db w') q = full_document (w_pg w) (w_db w) q"
      if "document_by_id j (w_db w) = Some q" for q
    proof (intro full_document_cong grant_logins_cong)
      show "db_users (w_db w') = db_users (w_db w)" by (rule d(5))
      have "rd_id q \<noteq> u" using document_by_id_iff [OF assms(3), THEN iffD1, OF that] False by simp
      then show "(rd_id q, v) \<in> set (db_grants (w_db w')) \<longleftrightarrow> (rd_id q, v) \<in> set (db_grants (w_db w))" for v
        by (simp add: d(7))
    qed
    ultimately show ?thesis
      using False by (simp add: pg_docs_def assms(2) map_option_case split: option.split)
  qed
  then have "pg_docs w' = (pg_docs w)(u := None)" by blast
  then show "\<exists>k. pg_canon w i = Some k \<and> pg_docs w k = Some x \<and> d_OwnerID x = ow \<and>
      pg_docs w' = (pg_docs w)(k := None) \<and> pg_queued w' = pg_queued w \<union> removed_keys x"
    using d by (intro exI [of _ u]) (auto simp: uuid_param_Inr pg_canon_def pg_docs_def pg_queued_def)
  show "pg_accounts w' = pg_accounts w" by (rule pg_accounts_cong) (rule d(5))
qed

lemma deletes_users: "deletes p i ow x d d' \<Longrightarrow> db_users d' = db_users d"
  unfolding deletes_def by blast

lemma wf_in_documents: "wf_in tx w \<Longrightarrow> wf_documents (w_db w) \<and> wf_db (w_db w)"
  by (simp add: wf_in_def wf_world_def wf_db_def)

lemma wf_in_no_tx: "wf_in False w \<Longrightarrow> w_tx w = None"
  unfolding wf_in_def by blast

lemma pg_frame_pg: "pg_frame w' = pg_frame w \<Longrightarrow> w_pg w' = w_pg w"
  by (simp add: pg_frame_def)

lemma pg_Delete_effect:
  assumes run: "pg_DeleteDocument c i ow w = (r, w')" and c: "\<not> c_tx c" and wf: "wf_in False w"
  shows "(\<exists>e q. r = Inl e \<and> w_db w' = (w_db w)\<lparr>db_taskseq := q\<rparr> \<and>
      (errors_Is e RepoErrForbidden \<longrightarrow> (\<exists>k x. pg_canon w i = Some k \<and> pg_docs w k = Some x \<and> d_OwnerID x \<noteq> ow)) \<and>
      (errors_Is e RepoErrNotFound \<longrightarrow> (\<exists>k. pg_canon w i = Some k \<and> pg_docs w k = None))) \<or>
    (\<exists>x. deletes (w_pg w) i ow x (w_db w) (w_db w') \<and> (r = Inr x \<or> (\<exists>e. r = Inl e \<and> \<not> definite e)))"
proof (cases "uuid_Parse i = None \<or> uuid_Parse ow = None")
  case True
  have "w_db w = (w_db w)\<lparr>db_taskseq := db_taskseq (w_db w)\<rparr>" by simp
  moreover have "w' = w" "r = Inl (Wrapped ''delete document'' (Sentinel RepoErrInvalidArgument))"
    using True run by (auto simp: pg_DeleteDocument_def)
  ultimately show ?thesis
    by (intro disjI1 exI [of _ "Wrapped ''delete document'' (Sentinel RepoErrInvalidArgument)"]
        exI [of _ "db_taskseq (w_db w)"]) simp
next
  case False
  let ?f = "delete_body i ow (c\<lparr>c_tx := True\<rparr>)"
  have within: "withinTransaction c (Some (delete_body i ow)) w = (r, w')"
    using run False by (simp add: pg_DeleteDocument_def)
  have ctx: "c_tx (c\<lparr>c_tx := True\<rparr>)" by simp
  note wfd = wf_in_documents [OF wf, THEN conjunct1]
  from withinTransaction_outcomes(2) [OF within c wf_in_no_tx [OF wf] keeps_delete_body_local [OF ctx]]
  show ?thesis
  proof (elim disjE exE conjE)
    fix a assume "tx_body_ran ?f w a (w_db w')" and r: "r = Inr a"
    then have "deletes (w_pg w) i ow a (w_db w) (w_db w')"
      using delete_body_run [OF _ ctx] by (fastforce simp: tx_body_ran_def)
    with r show ?thesis by blast
  next
    fix a m x assume "tx_body_ran ?f w a (w_db w')" and r: "r = Inl (classify m (io_goerr x))"
    then have "deletes (w_pg w) i ow a (w_db w) (w_db w')"
      using delete_body_run [OF _ ctx] by (fastforce simp: tx_body_ran_def)
    with r show ?thesis using io_not_definite by blast
  next
    fix e q m x assume "r = Inl e" "w_db w' = (w_db w)\<lparr>db_taskseq := q\<rparr>" "e = classify m (io_goerr x)"
    then show ?thesis using io_not_definite [of m x] by (auto simp: definite_def)
  next
    fix e q assume r: "r = Inl e" "w_db w' = (w_db w)\<lparr>db_taskseq := q\<rparr>" and "tx_body_failed ?f w e"
    then obtain w1 w2 t where body: "?f w1 = (Inl e, w2)" "w_tx w1 = Some (w_db w, t)" "w_pg w1 = w_pg w"
      unfolding tx_body_failed_def by blast
    from delete_body_fails [OF body(1) ctx body(2) wfd] r body(3) show ?thesis
      by (auto simp: uuid_param_Inr pg_canon_def pg_docs_def)
  qed
qed

lemma auto_select_Inr:
  assumes "map_err (classify m) (pg_exec c (select q)) w = (Inr a, w')" "\<not> c_tx c"
  shows "\<exists>now. q (w_pg w) now (w_db w) = Inr a"
  using auto_select [OF assms, THEN conjunct2, THEN conjunct2, THEN conjunct2]
  by (elim ex_forward) (simp split: sum.splits)

subsection \<open>Creating\<close>

lemma uniqueNonOwnerLogins_spec:
  "distinct (uniqueNonOwnerLogins ls ow)" "set (uniqueNonOwnerLogins ls ow) = set ls - {[], ow}"
proof -
  let ?f = "\<lambda>seen login. if login = [] \<or> login = ow then seen
       else if login \<in> set seen then seen else login # seen"
  have "distinct seen \<Longrightarrow> distinct (foldl ?f seen ls) \<and> set (foldl ?f seen ls) = set seen \<union> (set ls - {[], ow})"
    for seen
    by (induction ls arbitrary: seen) auto
  from this [of "[]"] show "distinct (uniqueNonOwnerLogins ls ow)"
    "set (uniqueNonOwnerLogins ls ow) = set ls - {[], ow}"
    by (simp_all add: uniqueNonOwnerLogins_def)
qed

text \<open>Every grant of a new document is inserted, or the statement reports fewer than asked for.\<close>

lemma grant_pairs_count:
  assumes wf: "wf_users d" and len: "length (grant_pairs d k ls) = length ls" and "distinct ls"
  shows "set ls \<subseteq> set (map ru_login (db_users d))"
proof -
  let ?us = "filter (\<lambda>u. ru_login u \<in> set ls) (db_users d)"
  have "distinct (map ru_login (db_users d))" using wf by (simp add: wf_users_def)
  then have "distinct (map ru_login ?us)" by (rule distinct_map_filter)
  moreover have "set (map ru_login ?us) \<subseteq> set ls" by auto
  moreover have "length (map ru_login ?us) = length ls" using len by (simp add: grant_pairs_def)
  ultimately have "set (map ru_login ?us) = set ls"
    using assms(3) by (metis card_subset_eq distinct_card finite_set)
  then show ?thesis by auto
qed

definition creates :: "pg_params \<Rightarrow> document \<Rightarrow> document \<Rightarrow> database \<Rightarrow> database \<Rightarrow> bool" where
  "creates p x y d d' \<longleftrightarrow> (\<exists>t u q row gs new. uuid_param p (d_OwnerID x) = Inr u \<and> user_by_id u d = Some q \<and>
     document_row_param p t x (nullableString (d_MIME x)) (fileStorageKey x) (fileSize x) = Inr row \<and>
     rd_id row \<notin> set (map rd_id (db_documents d)) \<and> gs = uniqueNonOwnerLogins (d_Grants x) (ru_login q) \<and>
     y = (document_of_row row [])\<lparr>d_Grants := gs\<rparr> \<and> set gs \<subseteq> set (map ru_login (db_users d)) \<and>
     set new = set (grant_pairs d (rd_id row) gs) \<and>
     d' = d\<lparr>db_documents := db_documents d @ [row], db_grants := db_grants d @ new\<rparr>)"

lemma insert_document_effect:
  assumes "insert_document x mime key sz p t d = (Inr y, d')"
  shows "\<exists>row. document_row_param p t x mime key sz = Inr row \<and> rd_id row \<notin> set (map rd_id (db_documents d)) \<and>
    y = document_of_row row [] \<and> d' = d\<lparr>db_documents := db_documents d @ [row]\<rparr>"
  using assms by (auto simp: insert_document_def split: sum.splits if_splits)

lemma create_body_run:
  assumes run: "create_body x c w = (Inr y, w')" and c: "c_tx c" and tx: "w_tx w = Some (d, t)"
    and wf: "wf_db d" and p: "pg_ok (w_pg w)"
  shows "\<exists>d'. w_tx w' = Some (d', t) \<and> creates (w_pg w) x y d d'"
proof -
  from run obtain ol w1 where owner: "map_err (classify ''find document owner'')
      (pg_exec c (select_owner_login (d_OwnerID x))) w = (Inr ol, w1)"
    and rest: "(let grants = uniqueNonOwnerLogins (d_Grants x) ol
      in and_then (map_err (classify ''create document'')
           (pg_exec c (insert_document x (nullableString (d_MIME x)) (fileStorageKey x) (fileSize x)))) (\<lambda>result.
         if grants = [] then ret (result\<lparr>d_Grants := grants\<rparr>)
         else and_then (map_err (classify ''create document grants'')
             (pg_exec c (insert_grants (d_ID result) grants))) (\<lambda>n.
           if n \<noteq> length grants
           then fail (Wrapped ''create document grants'' (Sentinel RepoErrNotFound))
           else ret (result\<lparr>d_Grants := grants\<rparr>)))) w1 = (Inr y, w')"
    unfolding create_body_def by (rule and_then_InrE)
  from tx_select [OF owner [unfolded select_owner_login_def] c tx]
  obtain u q where u: "uuid_param (w_pg w) (d_OwnerID x) = Inr u" "user_by_id u d = Some q" "ol = ru_login q"
    and w1: "w_tx w1 = Some (d, t)" "w_pg w1 = w_pg w"
    by (auto simp: sum_bind_Inr split: option.splits)
  let ?gs = "uniqueNonOwnerLogins (d_Grants x) (ru_login q)"
  from rest obtain res w2 where ins: "map_err (classify ''create document'')
      (pg_exec c (insert_document x (nullableString (d_MIME x)) (fileStorageKey x) (fileSize x))) w1 = (Inr res, w2)"
    and rest2: "(if ?gs = [] then ret (res\<lparr>d_Grants := ?gs\<rparr>)
         else and_then (map_err (classify ''create document grants'')
             (pg_exec c (insert_grants (d_ID res) ?gs))) (\<lambda>n.
           if n \<noteq> length ?gs
           then fail (Wrapped ''create document grants'' (Sentinel RepoErrNotFound))
           else ret (res\<lparr>d_Grants := ?gs\<rparr>))) w2 = (Inr y, w')"
    unfolding Let_def u(3) by (rule and_then_InrE)
  from tx_exec [OF ins c w1(1)] obtain d2 where d2: "w_tx w2 = Some (d2, t)" "w_pg w2 = w_pg w"
    "insert_document x (nullableString (d_MIME x)) (fileStorageKey x) (fileSize x) (w_pg w) t d = (Inr res, d2)"
    using w1(2) by metis
  from insert_document_effect [OF d2(3)] obtain row where row:
    "document_row_param (w_pg w) t x (nullableString (d_MIME x)) (fileStorageKey x) (fileSize x) = Inr row"
    "rd_id row \<notin> set (map rd_id (db_documents d))" "res = document_of_row row []"
    "d2 = d\<lparr>db_documents := db_documents d @ [row]\<rparr>" by blast
  show ?thesis
  proof (cases "?gs = []")
    case True
    with rest2 row d2(1) have "w_tx w' = Some (d2, t)" "y = (document_of_row row [])\<lparr>d_Grants := ?gs\<rparr>" by auto
    moreover have "creates (w_pg w) x ((document_of_row row [])\<lparr>d_Grants := ?gs\<rparr>) d d2"
      unfolding creates_def using u row True
      by (intro exI [of _ t] exI [of _ u] exI [of _ q] exI [of _ row] exI [of _ ?gs] exI [of _ "[]"])
        (simp add: grant_pairs_def)
    ultimately show ?thesis by blast
  next
    case False
    with rest2 obtain n where grants: "map_err (classify ''create document grants'')
        (pg_exec c (insert_grants (d_ID res) ?gs)) w2 = (Inr n, w')"
      and y: "n = length ?gs" "y = res\<lparr>d_Grants := ?gs\<rparr>"
      by (auto elim!: and_then_InrE split: if_splits)
    from tx_exec [OF grants c d2(1)] obtain d3 where d3: "w_tx w' = Some (d3, t)"
      "insert_grants (d_ID res) ?gs (w_pg w) t d2 = (Inr n, d3)" using d2(2) by metis
    have canon: "uuid_param (w_pg w) (rd_id row) = Inr (rd_id row)"
      using document_row_param_Inr(1) [OF row(1)] uuid_param_canonical [OF p] uuid_param_self [OF p] by blast
    have new: "filter (\<lambda>g. g \<notin> set (db_grants d)) (grant_pairs d (rd_id row) gs) = grant_pairs d (rd_id row) gs" for gs
    proof (rule filter_True, rule ballI)
      fix g assume "g \<in> set (grant_pairs d (rd_id row) gs)"
      then have "fst g = rd_id row" by (auto simp: grant_pairs_def)
      moreover have "\<forall>g \<in> set (db_grants d). fst g \<in> set (map rd_id (db_documents d))"
        using wf by (simp add: wf_db_def wf_documents_def list_all_iff)
      ultimately show "g \<notin> set (db_grants d)" using row(2) by metis
    qed
    have pairs: "grant_pairs d2 k ls = grant_pairs d k ls" for k ls by (simp add: row(4) grant_pairs_def)
    from insert_grants_effect [OF d3(2)] have eff: "n = length (grant_pairs d (rd_id row) ?gs)"
      "d3 = d2\<lparr>db_grants := db_grants d2 @ grant_pairs d (rd_id row) ?gs\<rparr>"
      using canon new by (auto simp: row(3,4) document_of_row_def pairs [unfolded row(4)])
    have "set ?gs \<subseteq> set (map ru_login (db_users d))"
      by (rule grant_pairs_count) (use wf eff(1) y(1) uniqueNonOwnerLogins_spec(1) in \<open>simp_all add: wf_db_def\<close>)
    then have "creates (w_pg w) x y d d3"
      unfolding creates_def using u row eff(2) y(2)
      by (intro exI [of _ t] exI [of _ u] exI [of _ q] exI [of _ row] exI [of _ ?gs]
          exI [of _ "grant_pairs d (rd_id row) ?gs"]) simp
    with d3(1) show ?thesis by blast
  qed
qed

lemma grants_of_unknown:
  "wf_documents d \<Longrightarrow> i \<notin> set (map rd_id (db_documents d)) \<Longrightarrow> (i, v) \<notin> set (db_grants d)"
  by (force simp: wf_documents_def list_all_iff)

lemma row_of_document:
  assumes "document_row_param p t x (nullableString (d_MIME x)) (fileStorageKey x) (fileSize x) = Inr row"
    "pg_ok p" "uuid_canonical (d_ID x)" "uuid_canonical (d_OwnerID x)"
  shows "rd_id row = d_ID x" "set gs = set (d_Grants x) - {[], l} \<Longrightarrow> stored_for (pg_jsonb p) x l ((document_of_row row [])\<lparr>d_Grants := gs\<rparr>)"
proof -
  note row = document_row_param_Inr [OF assms(1)]
  show i: "rd_id row = d_ID x" using row(1) uuid_param_self [OF assms(2,3)] by simp
  have "rd_owner row = d_OwnerID x" using row(2) uuid_param_self [OF assms(2,4)] by simp
  moreover have "json_kept (pg_jsonb p) (d_JSON x) (rd_json row)"
    using row(11) by (auto simp: json_kept_def option_param_def json_param_def sum_bind_Inr split: option.splits)
  ultimately show "stored_for (pg_jsonb p) x l ((document_of_row row [])\<lparr>d_Grants := gs\<rparr>)"
    if "set gs = set (d_Grants x) - {[], l}"
    using that i row(3-9)
    by (simp add: stored_for_def document_of_row_def nullableString_def fileStorageKey_def fileSize_def)
qed

lemma creates_views:
  assumes cr: "creates (w_pg w) x y (w_db w) (w_db w')" and pg: "w_pg w' = w_pg w" and wf: "wf_in False w"
    and acc: "pg_accounts w l = Some (u, h)" "d_OwnerID x = u_ID u" and id: "uuid_canonical (d_ID x)"
  shows "pg_docs w (d_ID x) = None \<and> stored_for (pg_jsonb (w_pg w)) x l y \<and>
    (\<exists>s. stored_for (pg_jsonb (w_pg w)) x l s \<and> pg_docs w' = (pg_docs w)(d_ID x \<mapsto> s))"
proof -
  have wfs: "wf_users (w_db w)" "wf_documents (w_db w)" and ok: "pg_ok (w_pg w)"
    using wf by (auto simp: wf_in_def wf_world_def wf_db_def)
  obtain t o' q row gs new where c: "uuid_param (w_pg w) (d_OwnerID x) = Inr o'" "user_by_id o' (w_db w) = Some q"
    "document_row_param (w_pg w) t x (nullableString (d_MIME x)) (fileStorageKey x) (fileSize x) = Inr row"
    "rd_id row \<notin> set (map rd_id (db_documents (w_db w)))" "gs = uniqueNonOwnerLogins (d_Grants x) (ru_login q)"
    "y = (document_of_row row [])\<lparr>d_Grants := gs\<rparr>" "set gs \<subseteq> set (map ru_login (db_users (w_db w)))"
    "set new = set (grant_pairs (w_db w) (rd_id row) gs)"
    "w_db w' = (w_db w)\<lparr>db_documents := db_documents (w_db w) @ [row], db_grants := db_grants (w_db w) @ new\<rparr>"
    using cr unfolding creates_def by blast
  obtain q' where q': "user_by_id (u_ID u) (w_db w) = Some q'" "user_of_row q' = u" "uuid_canonical (u_ID u)"
    using pg_account_row [OF wfs(1) acc(1)] by blast
  have "o' = u_ID u" using c(1) uuid_param_self [OF ok q'(3)] acc(2) by simp
  then have "ru_login q = l" using c(2) q' pg_user_port.accounts_login [OF wf acc(1)] by (auto simp: user_of_row_def)
  then have gs: "set gs = set (d_Grants x) - {[], l}" using c(5) uniqueNonOwnerLogins_spec(2) by simp
  have canon: "uuid_canonical (d_OwnerID x)" using q'(3) acc(2) by simp
  note row = row_of_document [OF c(3) ok id canon]
  have inj: "inj_on ru_id (set (db_users (w_db w)))" using wfs(1) by (simp add: wf_users_def distinct_map)
  have "set (grant_logins (w_pg w) (w_db w') (d_ID x)) = set gs"
    using grants_of_unknown [OF wfs(2) c(4)] c(7,8) inj
    by (auto simp: set_grant_logins c(9) row(1) [symmetric] grant_pairs_def dest: inj_onD)
  then have s: "stored_for (pg_jsonb (w_pg w)) x l (full_document (w_pg w) (w_db w') row)"
    using row(2) [of "grant_logins (w_pg w) (w_db w') (d_ID x)" l] gs
    by (simp add: full_document_def row(1) document_of_row_def)
  have none: "document_by_id (d_ID x) (w_db w) = None"
    using c(4) document_by_id_None [of "d_ID x" "w_db w"] row(1) by simp
  have other: "document_by_id j (w_db w') = (if j = d_ID x then Some row else document_by_id j (w_db w))" for j
    using none row(1)
    by (cases "j = d_ID x") (auto simp: c(9) document_by_id_def find_append split: option.split)
  have same: "full_document (w_pg w) (w_db w') r = full_document (w_pg w) (w_db w) r"
    if "document_by_id j (w_db w) = Some r" "j \<noteq> d_ID x" for j r
  proof (intro full_document_cong grant_logins_cong)
    have "rd_id r \<noteq> rd_id row" using that row(1) document_by_id_iff [OF wfs(2), THEN iffD1, OF that(1)] by simp
    then show "(rd_id r, v) \<in> set (db_grants (w_db w')) \<longleftrightarrow> (rd_id r, v) \<in> set (db_grants (w_db w))" for v
      using c(8) by (auto simp: c(9) grant_pairs_def)
  qed (simp add: c(9))
  have "pg_docs w' = (pg_docs w)(d_ID x \<mapsto> full_document (w_pg w) (w_db w') row)"
  proof
    fix j show "pg_docs w' j = ((pg_docs w)(d_ID x \<mapsto> full_document (w_pg w) (w_db w') row)) j"
      using same [of j] by (cases "document_by_id j (w_db w)") (auto simp: pg_docs_def other pg)
  qed
  moreover have "pg_docs w (d_ID x) = None"
    using none by (simp add: pg_docs_def)
  moreover have "stored_for (pg_jsonb (w_pg w)) x l y" using row(2) [OF gs] c(6) by simp
  ultimately show ?thesis using s by blast
qed

lemma create_within_effect:
  assumes within: "withinTransaction c (Some (create_body x)) w = (r, w')" and c: "\<not> c_tx c" and wf: "wf_in False w"
  shows "(\<exists>e q. r = Inl e \<and> w_db w' = (w_db w)\<lparr>db_taskseq := q\<rparr>) \<or>
    (\<exists>y. creates (w_pg w) x y (w_db w) (w_db w') \<and> (r = Inr y \<or> (\<exists>e. r = Inl e \<and> \<not> definite e)))"
proof -
  have ctx: "c_tx (c\<lparr>c_tx := True\<rparr>)" by simp
  have ran: "creates (w_pg w) x a (w_db w) (w_db w')"
    if "tx_body_ran (create_body x (c\<lparr>c_tx := True\<rparr>)) w a (w_db w')" for a
  proof -
    from that obtain w1 w2 t where b: "create_body x (c\<lparr>c_tx := True\<rparr>) w1 = (Inr a, w2)"
      "w_tx w1 = Some (w_db w, t)" "w_tx w2 = Some (w_db w', t)" "w_pg w1 = w_pg w"
      unfolding tx_body_ran_def by blast
    from create_body_run [OF b(1) ctx b(2)] b(3,4) wf show ?thesis
      by (auto simp: wf_in_def wf_world_def)
  qed
  from withinTransaction_outcomes(2) [OF within c wf_in_no_tx [OF wf] keeps_create_body_local [OF ctx]]
  show ?thesis
    using ran io_not_definite by (elim disjE exE conjE) blast+
qed

lemma pg_Create_effect:
  assumes run: "pg_CreateDocument L c x w = (r, w')" and c: "\<not> c_tx c" and wf: "wf_in False w"
  shows "(\<exists>e q. r = Inl e \<and> w_db w' = (w_db w)\<lparr>db_taskseq := q\<rparr>) \<or>
    (\<exists>i y. (d_ID x \<noteq> [] \<longrightarrow> i = d_ID x) \<and> creates (w_pg w) (x\<lparr>d_ID := i\<rparr>) y (w_db w) (w_db w') \<and>
      (r = Inr y \<or> (\<exists>e. r = Inl e \<and> \<not> definite e)))"
proof -
  have self: "w_db w = (w_db w)\<lparr>db_taskseq := db_taskseq (w_db w)\<rparr>" by simp
  have "(\<exists>e. r = Inl e) \<and> w_db w' = w_db w \<or>
      (\<exists>t i. (d_ID x \<noteq> [] \<longrightarrow> i = d_ID x) \<and>
        withinTransaction c (Some (create_body (x\<lparr>d_ID := i\<rparr>))) (w\<lparr>w_tick := t\<rparr>) = (r, w'))"
  proof (cases "d_ID x = []")
    case True
    obtain r1 w1 where u: "uuid_NewString w = (r1, w1)" by fastforce
    then obtain t where t: "w1 = w\<lparr>w_tick := t\<rparr>" using uuid_NewString_spec(1) by blast
    show ?thesis
    proof (cases r1)
      case (Inl e)
      with run True u t show ?thesis by (auto simp: pg_CreateDocument_def split: if_splits)
    next
      case (Inr i)
      with run True u t show ?thesis by (auto simp: pg_CreateDocument_def split: if_splits)
    qed
  next
    case False
    have "(\<exists>e. r = Inl e) \<and> w_db w' = w_db w \<or> withinTransaction c (Some (create_body x)) w = (r, w')"
      using run False by (auto simp: pg_CreateDocument_def and_then_def split: if_splits)
    then show ?thesis
    proof
      assume "withinTransaction c (Some (create_body x)) w = (r, w')"
      then show ?thesis
        by (intro disjI2 exI [of _ "w_tick w"] exI [of _ "d_ID x"]) simp
    qed blast
  qed
  then show ?thesis
  proof (elim disjE exE conjE)
    fix e assume "r = Inl e" "w_db w' = w_db w"
    with self show ?thesis by metis
  next
    fix t i assume i: "d_ID x \<noteq> [] \<longrightarrow> i = d_ID x"
      and within: "withinTransaction c (Some (create_body (x\<lparr>d_ID := i\<rparr>))) (w\<lparr>w_tick := t\<rparr>) = (r, w')"
    have "wf_in False (w\<lparr>w_tick := t\<rparr>)" using wf by (simp add: wf_in_def)
    from create_within_effect [OF within c this] i show ?thesis by auto
  qed
qed

lemma pg_Create_same:
  assumes "pg_CreateDocument L c x w = (r, w')" "\<not> c_tx c" "wf_in False w"
  shows "db_users (w_db w') = db_users (w_db w) \<and> db_tasks (w_db w') = db_tasks (w_db w)"
  using pg_Create_effect [OF assms] by (auto simp: creates_def)

lemma pg_Create_id_effect:
  assumes "pg_CreateDocument L c x w = (r, w')" "\<not> c_tx c" "wf_in False w" "uuid_canonical (d_ID x)"
  shows "(\<exists>e q. r = Inl e \<and> w_db w' = (w_db w)\<lparr>db_taskseq := q\<rparr>) \<or>
    (\<exists>y. creates (w_pg w) x y (w_db w) (w_db w') \<and> (r = Inr y \<or> (\<exists>e. r = Inl e \<and> \<not> definite e)))"
proof -
  have "d_ID x \<noteq> []" using assms(4) by (auto simp: uuid_canonical_def uuid_String_nonempty split: option.splits)
  moreover have "x\<lparr>d_ID := d_ID x\<rparr> = x" by simp
  ultimately show ?thesis using pg_Create_effect [OF assms(1-3)] by metis
qed

subsection \<open>Reading\<close>

lemma pg_find_effect:
  assumes run: "pg_ByIDAccessible c i (u_ID u) w = (r, w')" and c: "\<not> c_tx c" and wf: "wf_in False w"
    and acc: "pg_accounts w l = Some (u, h)"
  shows "w_db w' = w_db w \<and> w_pg w' = w_pg w \<and>
    (\<forall>x. r = Inr x \<longrightarrow> (\<exists>k. pg_canon w i = Some k \<and> pg_docs w k = Some x \<and> readable u x)) \<and>
    (\<forall>e. r = Inl e \<longrightarrow> errors_Is e RepoErrForbidden \<longrightarrow>
      (\<exists>k x. pg_canon w i = Some k \<and> pg_docs w k = Some x \<and> \<not> readable u x)) \<and>
    (\<forall>e. r = Inl e \<longrightarrow> errors_Is e RepoErrNotFound \<longrightarrow> (\<exists>k. pg_canon w i = Some k \<and> pg_docs w k = None))"
proof (cases "uuid_Parse i = None \<or> uuid_Parse (u_ID u) = None")
  case True
  with run show ?thesis by (auto simp: pg_ByIDAccessible_def)
next
  case False
  have wfs: "wf_users (w_db w)" and ok: "pg_ok (w_pg w)" using wf by (auto simp: wf_in_def wf_world_def wf_db_def)
  obtain q where q: "find_user l (w_db w) = Some q" "u = user_of_row q"
    using acc by (auto simp: pg_accounts_def)
  have self: "uuid_param (w_pg w) (u_ID u) = Inr (u_ID u)"
    using pg_account_row [OF wfs acc] uuid_param_self [OF ok] by blast
  have access: "row_accessible (w_db w) r (u_ID u) \<longleftrightarrow> readable u (full_document (w_pg w) (w_db w) r)" for r
    using row_accessible_readable [OF wfs q(1)] q(2) by (simp add: user_of_row_def)
  obtain r1 w1 where ex: "map_err (classify ''find accessible document'')
      (pg_exec c (select_accessible i (u_ID u))) w = (r1, w1)" by fastforce
  note sel = auto_select [OF ex [unfolded select_accessible_def] c]
  have res: "w' = w1" "r = (case r1 of Inl e \<Rightarrow> Inl e | Inr (x, ok) \<Rightarrow>
      if ok then Inr x else Inl (Wrapped ''find accessible document'' (Sentinel RepoErrForbidden)))"
    using run ex False by (auto simp: pg_ByIDAccessible_def and_then_def split: sum.splits if_splits)
  have io: "\<not> errors_Is (classify m (io_goerr e)) RepoErrForbidden" "\<not> errors_Is (classify m (io_goerr e)) RepoErrNotFound" for m e
    using io_not_definite [of m e] by (auto simp: definite_def)
  show ?thesis
  proof (cases "pg_canon w i")
    case None
    with sel res io show ?thesis by (auto simp: pg_canon_def uuid_param_def)
  next
    case (Some k)
    then have k: "uuid_param (w_pg w) i = Inr k" by (simp add: uuid_param_Inr pg_canon_def)
    show ?thesis
    proof (cases "document_by_id k (w_db w)")
      case None
      with sel res io k self show ?thesis by (auto simp: Some pg_docs_def)
    next
      case (Some row)
      with sel res io k self \<open>pg_canon w i = Some k\<close> show ?thesis
        by (auto simp: pg_docs_def access split: if_splits)
    qed
  qed
qed

lemma pg_find_same:
  assumes run: "pg_ByIDAccessible c i q w = (r, w')" and c: "\<not> c_tx c"
  shows "w_db w' = w_db w"
proof (cases "uuid_Parse i = None \<or> uuid_Parse q = None")
  case True
  with run show ?thesis by (auto simp: pg_ByIDAccessible_def)
next
  case False
  obtain r1 w1 where ex: "map_err (classify ''find accessible document'')
      (pg_exec c (select_accessible i q)) w = (r1, w1)" by fastforce
  then have "w' = w1"
    using run False by (auto simp: pg_ByIDAccessible_def and_then_def split: sum.splits if_splits)
  with auto_select [OF ex [unfolded select_accessible_def] c] show ?thesis by blast
qed

text \<open>The order of lists, and what is in them.\<close>

lemma comparator_row_le: "pg_ok p \<Longrightarrow> comparator (row_le p)"
proof
  fix x y z assume p: "pg_ok p"
  define C where "C a b = pg_collate p (rd_name a) (rd_name b)" for a b :: document_row
  define tie where "tie a b = (if rd_created a \<noteq> rd_created b then rd_created b < rd_created a else rd_id a \<le> rd_id b)"
    for a b :: document_row
  have total: "C a b \<or> C b a" and trans: "C a b \<Longrightarrow> C b c \<Longrightarrow> C a c" for a b c
    using p unfolding pg_ok_def C_def by blast+
  have le: "row_le p a b \<longleftrightarrow> \<not> C b a \<or> C a b \<and> tie a b" for a b
    by (simp add: row_le_def C_def tie_def)
  have tie: "tie a b \<or> tie b a" "tie a b \<Longrightarrow> tie b c \<Longrightarrow> tie a c" for a b c
    unfolding tie_def by (auto split: if_splits)
  show "row_le p x y \<or> row_le p y x"
    using total tie(1) unfolding le by blast
  show "row_le p x y \<Longrightarrow> row_le p y z \<Longrightarrow> row_le p x z"
    using total trans tie(2) unfolding le by meson
qed

lemma list_rows_spec:
  assumes "wf_documents d"
  shows "distinct (map rd_id (list_rows p d ow q f))"
    and "r \<in> set (list_rows p d ow q f) \<longleftrightarrow>
      r \<in> set (db_documents d) \<and> rd_owner r = ow \<and> row_accessible d r q \<and> row_matches f r"
    and "pg_ok p \<Longrightarrow> sorted_wrt (row_le p) (list_rows p d ow q f)"
proof -
  let ?sel = "filter (\<lambda>r. rd_owner r = ow \<and>
     (ow = q \<or> rd_is_public r \<or> (rd_id r, q) \<in> set (db_grants d)) \<and> row_matches f r) (db_documents d)"
  have "distinct (map rd_id ?sel)"
    using assms distinct_map_filter unfolding wf_documents_def by blast
  moreover have "mset (map rd_id (list_rows p d ow q f)) = mset (map rd_id ?sel)"
    by (simp add: list_rows_def)
  ultimately show "distinct (map rd_id (list_rows p d ow q f))"
    using mset_eq_imp_distinct_iff by blast
  show "r \<in> set (list_rows p d ow q f) \<longleftrightarrow>
      r \<in> set (db_documents d) \<and> rd_owner r = ow \<and> row_accessible d r q \<and> row_matches f r"
    by (auto simp: list_rows_def row_accessible_def)
  show "sorted_wrt (row_le p) (list_rows p d ow q f)" if "pg_ok p"
    unfolding list_rows_def using comparator.sorted_sort_by [OF comparator_row_le [OF that]] .
qed

definition list_owner :: "ctx \<Rightarrow> string \<Rightarrow> documentFilter \<Rightarrow> (world, string) op" where
  "list_owner c q f = (if f_OwnerLogin f \<noteq> []
     then map_err (classify ''find list owner'') (pg_exec c (select_user_id (f_OwnerLogin f))) else ret q)"

lemma list_owner_effect:
  assumes run: "list_owner c q f w = (r, w')" and c: "\<not> c_tx c"
  shows "w_db w' = w_db w \<and> w_pg w' = w_pg w \<and> (\<forall>i. r = Inr i \<longrightarrow>
      (if f_OwnerLogin f = [] then i = q else \<exists>u h. pg_accounts w (f_OwnerLogin f) = Some (u, h) \<and> i = u_ID u))"
proof (cases "f_OwnerLogin f = []")
  case True
  with run show ?thesis by (auto simp: list_owner_def)
next
  case False
  with run have "map_err (classify ''find list owner'') (pg_exec c (select_user_id (f_OwnerLogin f))) w = (r, w')"
    by (simp add: list_owner_def)
  from auto_select [OF this [unfolded select_user_id_def] c] False show ?thesis
    by (auto simp: text_param_def pg_accounts_def user_of_row_def split: if_splits option.splits)
qed

lemma list_select_effect:
  assumes run: "map_err (classify m) (pg_exec c (select_documents i q flt limit)) w = (r, w')" and c: "\<not> c_tx c"
  shows "w_db w' = w_db w \<and> w_pg w' = w_pg w \<and>
    (\<forall>xs. r = Inr xs \<longrightarrow> (\<exists>ow q' flt'. uuid_param (w_pg w) i = Inr ow \<and> uuid_param (w_pg w) q = Inr q' \<and>
       filter_param (w_pg w) flt = Inr flt' \<and> xs = map (full_document (w_pg w) (w_db w))
         (if limit > 0 then take (nat limit) (list_rows (w_pg w) (w_db w) ow q' flt')
          else list_rows (w_pg w) (w_db w) ow q' flt')))"
proof -
  note sel = auto_select [OF run [unfolded select_documents_def] c]
  have "\<exists>ow q' flt'. uuid_param (w_pg w) i = Inr ow \<and> uuid_param (w_pg w) q = Inr q' \<and>
       filter_param (w_pg w) flt = Inr flt' \<and> xs = map (full_document (w_pg w) (w_db w))
         (if limit > 0 then take (nat limit) (list_rows (w_pg w) (w_db w) ow q' flt')
          else list_rows (w_pg w) (w_db w) ow q' flt')" if "r = Inr xs" for xs
  proof -
    from auto_select_Inr [OF run [unfolded that select_documents_def] c]
    have "sum_bind (uuid_param (w_pg w) i) (\<lambda>ow. sum_bind (uuid_param (w_pg w) q) (\<lambda>q.
        sum_bind (filter_param (w_pg w) flt) (\<lambda>g. Inr (map (full_document (w_pg w) (w_db w))
          (if limit > 0 then take (nat limit) (list_rows (w_pg w) (w_db w) ow q g)
           else list_rows (w_pg w) (w_db w) ow q g))))) = Inr xs"
      by (elim exE)
    then show ?thesis unfolding sum_bind_Inr by blast
  qed
  with sel [THEN conjunct1] sel [THEN conjunct2, THEN conjunct1] show ?thesis by blast
qed

lemma pg_List_effect:
  assumes run: "pg_List L c q f w = (r, w')" and c: "\<not> c_tx c"
  shows "w_db w' = w_db w \<and> w_pg w' = w_pg w \<and>
    (\<forall>xs. r = Inr xs \<longrightarrow> (\<exists>ow q' flt flt'. uuid_param (w_pg w) q = Inr q' \<and>
      (if f_OwnerLogin f = [] then ow = q'
       else \<exists>u h. pg_accounts w (f_OwnerLogin f) = Some (u, h) \<and> uuid_param (w_pg w) (u_ID u) = Inr ow) \<and>
      buildDocumentFilter L (f_Key f) (f_Value f) = Inr flt \<and> filter_param (w_pg w) flt = Inr flt' \<and>
      xs = map (full_document (w_pg w) (w_db w))
        (if f_Limit f > 0 then take (nat (f_Limit f)) (list_rows (w_pg w) (w_db w) ow q' flt')
         else list_rows (w_pg w) (w_db w) ow q' flt')))"
proof (cases "uuid_Parse q = None \<or> f_Limit f < 0")
  case True
  with run show ?thesis by (auto simp: pg_List_def)
next
  case False
  define rest where "rest i = (case buildDocumentFilter L (f_Key f) (f_Value f) of
      Inl e \<Rightarrow> fail e
    | Inr flt \<Rightarrow> map_err (classify ''list documents'')
        (pg_exec c (select_documents i q flt (f_Limit f))))" for i
  have run': "and_then (list_owner c q f) rest w = (r, w')"
    using run False by (simp add: pg_List_def list_owner_def rest_def [abs_def])
  obtain r1 w1 where own: "list_owner c q f w = (r1, w1)" by fastforce
  note w1 = list_owner_effect [OF own c]
  show ?thesis
  proof (cases "\<exists>i flt. r1 = Inr i \<and> buildDocumentFilter L (f_Key f) (f_Value f) = Inr flt")
    case False
    with run' own w1 show ?thesis
      by (cases r1; cases "buildDocumentFilter L (f_Key f) (f_Value f)") (auto simp: rest_def)
  next
    case True
    then obtain i flt where i: "r1 = Inr i" and flt: "buildDocumentFilter L (f_Key f) (f_Value f) = Inr flt" by blast
    have same1: "w_db w1 = w_db w" "w_pg w1 = w_pg w" using w1 by blast+
    have "map_err (classify ''list documents'') (pg_exec c (select_documents i q flt (f_Limit f))) w1 = (r, w')"
      using run' own i flt by (simp add: rest_def)
    note rows = list_select_effect [OF this c, unfolded same1]
    have ow: "if f_OwnerLogin f = [] then ow = q'
        else \<exists>u h. pg_accounts w (f_OwnerLogin f) = Some (u, h) \<and> uuid_param (w_pg w) (u_ID u) = Inr ow"
      if "uuid_param (w_pg w) i = Inr ow" "uuid_param (w_pg w) q = Inr q'" for ow q'
      using w1 [THEN conjunct2, THEN conjunct2] i that by (auto split: if_splits)
    show ?thesis
    proof (intro conjI allI impI)
      fix xs assume "r = Inr xs"
      with rows obtain ow q' flt' where row: "uuid_param (w_pg w) i = Inr ow"
        "uuid_param (w_pg w) q = Inr q'" "filter_param (w_pg w) flt = Inr flt'"
        "xs = map (full_document (w_pg w) (w_db w))
          (if f_Limit f > 0 then take (nat (f_Limit f)) (list_rows (w_pg w) (w_db w) ow q' flt')
           else list_rows (w_pg w) (w_db w) ow q' flt')" by blast
      show "\<exists>ow q' flt flt'. uuid_param (w_pg w) q = Inr q' \<and>
          (if f_OwnerLogin f = [] then ow = q'
           else \<exists>u h. pg_accounts w (f_OwnerLogin f) = Some (u, h) \<and> uuid_param (w_pg w) (u_ID u) = Inr ow) \<and>
          buildDocumentFilter L (f_Key f) (f_Value f) = Inr flt \<and> filter_param (w_pg w) flt = Inr flt' \<and>
          xs = map (full_document (w_pg w) (w_db w))
            (if f_Limit f > 0 then take (nat (f_Limit f)) (list_rows (w_pg w) (w_db w) ow q' flt')
             else list_rows (w_pg w) (w_db w) ow q' flt')"
        by (intro exI [of _ ow] exI [of _ q'] exI [of _ flt] exI [of _ flt'] conjI row(2-) ow row(1) flt)
    qed (use rows in blast)+
  qed
qed

lemma keeps_False: "keeps (wf_in (c_tx c)) m \<Longrightarrow> \<not> c_tx c \<Longrightarrow> wf_in False w \<Longrightarrow> m w = (r, w') \<Longrightarrow> wf_in False w'"
  by (metis (full_types) keepsD)

lemma keeps_pg: "(\<And>X. keeps (\<lambda>w. pg_frame w = X) m) \<Longrightarrow> m w = (r, w') \<Longrightarrow> w_pg w' = w_pg w"
  using keepsD [of "\<lambda>v. pg_frame v = pg_frame w" m w r w'] pg_frame_pg by blast

lemma pg_docs_wf:
  assumes "wf_in False w" "pg_docs w k = Some x"
  shows "d_ID x = k \<and> pg_canon w k = Some k" and "\<not> d_IsFile x \<Longrightarrow> d_StorageKey x = []"
proof -
  have wfd: "wf_documents (w_db w)" and ok: "pg_ok (w_pg w)"
    using assms(1) by (auto simp: wf_in_def wf_world_def wf_db_def)
  obtain r where r: "document_by_id k (w_db w) = Some r" "x = full_document (w_pg w) (w_db w) r"
    using assms(2) by (auto simp: pg_docs_def)
  then have mem: "r \<in> set (db_documents (w_db w))" "rd_id r = k" using document_by_id_iff [OF wfd] by blast+
  with wfd have "uuid_canonical k" "document_checks r" by (auto simp: wf_documents_def list_all_iff)
  with mem r ok show "d_ID x = k \<and> pg_canon w k = Some k" by (simp add: pg_canon_def pg_ok_def)
  show "\<not> d_IsFile x \<Longrightarrow> d_StorageKey x = []"
    using \<open>document_checks r\<close> r(2)
    by (simp add: document_checks_def file_metadata_ok_def full_document_def document_of_row_def)
qed

lemma pg_List_ok:
  assumes run: "pg_List L c (u_ID u) f w = (Inr xs, w')" and c: "\<not> c_tx c" and wf: "wf_in False w"
    and acc: "pg_accounts w l = Some (u, h)"
  shows "(\<forall>x \<in> set xs. pg_docs w (d_ID x) = Some x \<and> readable u x) \<and> distinct (map d_ID xs) \<and>
    (0 < f_Limit f \<longrightarrow> int (length xs) \<le> f_Limit f)"
proof -
  have wfs: "wf_users (w_db w)" "wf_documents (w_db w)" and ok: "pg_ok (w_pg w)"
    using wf by (auto simp: wf_in_def wf_world_def wf_db_def)
  obtain q where q: "find_user l (w_db w) = Some q" "u = user_of_row q"
    using acc by (auto simp: pg_accounts_def)
  have self: "uuid_param (w_pg w) (u_ID u) = Inr (u_ID u)"
    using pg_account_row [OF wfs(1) acc] uuid_param_self [OF ok] by blast
  obtain ow flt where xs: "xs = map (full_document (w_pg w) (w_db w))
      (if f_Limit f > 0 then take (nat (f_Limit f)) (list_rows (w_pg w) (w_db w) ow (u_ID u) flt)
       else list_rows (w_pg w) (w_db w) ow (u_ID u) flt)"
    using pg_List_effect [OF run c] self by auto
  let ?rows = "list_rows (w_pg w) (w_db w) ow (u_ID u) flt"
  have rows: "set xs \<subseteq> full_document (w_pg w) (w_db w) ` set ?rows"
    using set_take_subset [of "nat (f_Limit f)" ?rows] by (auto simp: xs)
  have "pg_docs w (d_ID x) = Some x \<and> readable u x" if x: "x \<in> set xs" for x
  proof -
    obtain r where r: "x = full_document (w_pg w) (w_db w) r" "r \<in> set ?rows"
      using rows x by blast
    then have "r \<in> set (db_documents (w_db w))" "row_accessible (w_db w) r (u_ID u)"
      using list_rows_spec(2) [OF wfs(2)] by blast+
    moreover have "document_by_id (rd_id r) (w_db w) = Some r"
      using document_by_id_iff [OF wfs(2)] calculation(1) by blast
    ultimately show ?thesis
      using r(1) row_accessible_readable [OF wfs(1) q(1), of r "w_pg w"] q(2)
      by (simp add: pg_docs_def user_of_row_def)
  qed
  moreover have "distinct (map d_ID xs)"
    using list_rows_spec(1) [OF wfs(2), of "w_pg w" ow "u_ID u" flt]
    by (auto simp: xs comp_def take_map [symmetric] intro: distinct_take)
  ultimately show ?thesis by (auto simp: xs)
qed

text \<open>The form in which a JSON document is kept: what \<open>jsonb\<close> makes of it.\<close>

definition pg_json :: "world \<Rightarrow> bytes \<Rightarrow> bytes option" where
  "pg_json w = pg_jsonb (w_pg w)"

text \<open>The laws of \<open>document_port\<close>, one by one.\<close>

lemma pg_document_dcreate_keeps:
  fixes r :: "goerr + document"
  assumes a: "wf_in False w" "\<not> c_tx c" "dr_Create (pg_documents L) c x w = (r, w')"
  shows "wf_in False w' \<and> pg_accounts w' = pg_accounts w \<and> pg_queued w' = pg_queued w"
proof -
  from a have run: "pg_CreateDocument L c x w = (r, w')" by (simp add: pg_documents_def)
  have pg: "w_pg w' = w_pg w" by (rule keeps_pg [OF keeps_documents_frame(1) run])
  have "db_users (w_db w') = db_users (w_db w) \<and> pg_queued w' = pg_queued w"
    using pg_Create_same [OF run a(2,1)] by (simp add: pg_queued_def)
  then show ?thesis
    using keeps_False [OF keeps_documents_wf(1) a(2,1) run] pg_accounts_cong [of w' w] by simp
qed

lemma pg_document_dfind_keeps:
  fixes r :: "goerr + document"
  assumes a: "wf_in False w" "\<not> c_tx c" "dr_ByIDAccessible (pg_documents L) c i q w = (r, w')"
  shows "wf_in False w' \<and> pg_accounts w' = pg_accounts w \<and> pg_docs w' = pg_docs w \<and> pg_queued w' = pg_queued w"
proof -
  from a have run: "pg_ByIDAccessible c i q w = (r, w')" by (simp add: pg_documents_def)
  have db: "w_db w' = w_db w" by (rule pg_find_same [OF run a(2)])
  moreover have "w_pg w' = w_pg w" by (rule keeps_pg [OF keeps_documents_frame(3) run])
  ultimately show ?thesis
    using keeps_False [OF keeps_documents_wf(3) a(2,1) run] pg_accounts_cong [of w' w] pg_views_cong [of w' w] by simp
qed

lemma pg_document_dlist_keeps:
  fixes r :: "goerr + document list"
  assumes a: "wf_in False w" "\<not> c_tx c" "dr_List (pg_documents L) c i f w = (r, w')"
  shows "wf_in False w' \<and> pg_accounts w' = pg_accounts w \<and> pg_docs w' = pg_docs w \<and> pg_queued w' = pg_queued w"
proof -
  from a have run: "pg_List L c i f w = (r, w')" by (simp add: pg_documents_def)
  from pg_List_effect [OF run a(2)] have "w_db w' = w_db w" "w_pg w' = w_pg w" by blast+
  then show ?thesis
    using keeps_False [OF keeps_documents_wf(4) a(2,1) run] pg_accounts_cong [of w' w] pg_views_cong [of w' w] by simp
qed

lemma pg_document_ddelete_keeps:
  fixes r :: "goerr + document"
  assumes a: "wf_in False w" "\<not> c_tx c" "dr_Delete (pg_documents L) c i q w = (r, w')"
  shows "wf_in False w' \<and> pg_accounts w' = pg_accounts w"
proof -
  from a have run: "pg_DeleteDocument c i q w = (r, w')" by (simp add: pg_documents_def)
  have "db_users (w_db w') = db_users (w_db w)"
    using pg_Delete_effect [OF run a(2,1)] by (elim disjE exE conjE) (simp_all add: deletes_users)
  then show ?thesis
    using keeps_False [OF keeps_documents_wf(2) a(2,1) run] pg_accounts_cong [of w' w] by simp
qed

lemma pg_document_uexist_docs:
  fixes r :: "goerr + string list"
  assumes a: "wf_in False w" "\<not> c_tx c" "ur_ExistingLogins pg_users c ls w = (r, w')"
  shows "pg_docs w' = pg_docs w \<and> pg_queued w' = pg_queued w \<and> pg_json w' = pg_json w"
proof -
  from a have run: "pg_ExistingLogins c ls w = (r, w')" by (simp add: pg_users_def)
  have "w_db w' = w_db w" using pg_ExistingLogins_effect(1) [OF run a(2)] .
  moreover have "w_pg w' = w_pg w" by (rule keeps_pg [OF keeps_users_frame(3) run])
  ultimately show ?thesis using pg_views_cong [of w' w] by (simp add: pg_json_def)
qed

lemma pg_document_docs_id:
  assumes a: "wf_in False w" "pg_docs w k = Some x"
  shows "d_ID x = k \<and> pg_canon w k = Some k"
  using a by (rule pg_docs_wf(1))

lemma pg_document_docs_file:
  assumes a: "wf_in False w" "pg_docs w k = Some x" "\<not> d_IsFile x"
  shows "d_StorageKey x = []"
  using a by (rule pg_docs_wf(2))

lemma pg_document_dcreate_ok:
  assumes a: "wf_in False w" "\<not> c_tx c" "pg_accounts w l = Some (u, h)" "d_OwnerID x = u_ID u" "uuid_canonical (d_ID x)" "dr_Create (pg_documents L) c x w = (Inr y, w')"
  shows "pg_docs w (d_ID x) = None \<and> stored_for (pg_json w) x l y \<and>
    (\<exists>s. stored_for (pg_json w) x l s \<and> pg_docs w' = (pg_docs w)(d_ID x \<mapsto> s))"
proof -
  from a have run: "pg_CreateDocument L c x w = (Inr y, w')" by (simp add: pg_documents_def)
  have "creates (w_pg w) x y (w_db w) (w_db w')"
    using pg_Create_id_effect [OF run a(2,1,5)] by auto
  from creates_views [OF this keeps_pg [OF keeps_documents_frame(1) run] a(1,3-5)]
  show ?thesis by (simp only: pg_json_def)
qed

lemma pg_document_dcreate_err:
  assumes a: "wf_in False w" "\<not> c_tx c" "pg_accounts w l = Some (u, h)" "d_OwnerID x = u_ID u" "uuid_canonical (d_ID x)" "dr_Create (pg_documents L) c x w = (Inl e, w')"
  shows "pg_docs w' = pg_docs w \<or> \<not> definite e \<and> pg_docs w (d_ID x) = None \<and>
    (\<exists>s. stored_for (pg_json w) x l s \<and> pg_docs w' = (pg_docs w)(d_ID x \<mapsto> s))"
proof -
  from a have run: "pg_CreateDocument L c x w = (Inl e, w')" by (simp add: pg_documents_def)
  have pg: "w_pg w' = w_pg w" by (rule keeps_pg [OF keeps_documents_frame(1) run])
  from pg_Create_id_effect [OF run a(2,1,5)]
  consider q where "w_db w' = (w_db w)\<lparr>db_taskseq := q\<rparr>"
    | y where "creates (w_pg w) x y (w_db w) (w_db w')" "\<not> definite e" by auto
  then show ?thesis
  proof cases
    case 1
    then show ?thesis using pg_docs_taskseq pg by blast
  next
    case 2
    then show ?thesis using creates_views [OF 2(1) pg a(1,3-5)] unfolding pg_json_def by blast
  qed
qed

lemma pg_document_dfind_ok:
  assumes a: "wf_in False w" "\<not> c_tx c" "pg_accounts w l = Some (u, h)" "dr_ByIDAccessible (pg_documents L) c i (u_ID u) w = (Inr x, w')"
  shows "\<exists>k. pg_canon w i = Some k \<and> pg_docs w k = Some x \<and> readable u x"
  using a pg_find_effect [of c i u w "Inr x" w' l h]
  by (simp add: pg_documents_def)

lemma pg_document_dfind_forbidden:
  assumes a: "wf_in False w" "\<not> c_tx c" "pg_accounts w l = Some (u, h)" "dr_ByIDAccessible (pg_documents L) c i (u_ID u) w = (Inl e, w')" "errors_Is e RepoErrForbidden"
  shows "\<exists>k x. pg_canon w i = Some k \<and> pg_docs w k = Some x \<and> \<not> readable u x"
  using a pg_find_effect [of c i u w "Inl e" w' l h]
  by (simp add: pg_documents_def)

lemma pg_document_dfind_not_found:
  assumes a: "wf_in False w" "\<not> c_tx c" "pg_accounts w l = Some (u, h)" "dr_ByIDAccessible (pg_documents L) c i (u_ID u) w = (Inl e, w')" "errors_Is e RepoErrNotFound"
  shows "\<exists>k. pg_canon w i = Some k \<and> pg_docs w k = None"
  using a pg_find_effect [of c i u w "Inl e" w' l h]
  by (simp add: pg_documents_def)

lemma pg_document_dlist_ok:
  assumes a: "wf_in False w" "\<not> c_tx c" "pg_accounts w l = Some (u, h)" "dr_List (pg_documents L) c (u_ID u) f w = (Inr xs, w')"
  shows "(\<forall>x \<in> set xs. pg_docs w (d_ID x) = Some x \<and> readable u x) \<and> distinct (map d_ID xs) \<and>
    (0 < f_Limit f \<longrightarrow> int (length xs) \<le> f_Limit f)"
  using a pg_List_ok [of L c u f w xs w' l h]
  by (simp add: pg_documents_def)

lemma pg_document_ddelete_ok:
  assumes a: "wf_in False w" "\<not> c_tx c" "dr_Delete (pg_documents L) c i ow w = (Inr x, w')"
  shows "\<exists>k. pg_canon w i = Some k \<and> pg_docs w k = Some x \<and> d_OwnerID x = ow \<and>
    pg_docs w' = (pg_docs w)(k := None) \<and> pg_queued w' = pg_queued w \<union> removed_keys x"
proof -
  from a have run: "pg_DeleteDocument c i ow w = (Inr x, w')" by (simp add: pg_documents_def)
  have "deletes (w_pg w) i ow x (w_db w) (w_db w')" using pg_Delete_effect [OF run a(2,1)] by auto
  from deletes_views(1) [OF this keeps_pg [OF keeps_documents_frame(2) run]] wf_in_documents [OF a(1)]
  show ?thesis by blast
qed

lemma pg_document_ddelete_err:
  assumes a: "wf_in False w" "\<not> c_tx c" "dr_Delete (pg_documents L) c i ow w = (Inl e, w')"
  shows "pg_docs w' = pg_docs w \<and> pg_queued w' = pg_queued w \<or> \<not> definite e \<and>
    (\<exists>k x. pg_canon w i = Some k \<and> pg_docs w k = Some x \<and> d_OwnerID x = ow \<and>
    pg_docs w' = (pg_docs w)(k := None) \<and> pg_queued w' = pg_queued w \<union> removed_keys x)"
proof -
  from a have run: "pg_DeleteDocument c i ow w = (Inl e, w')" by (simp add: pg_documents_def)
  have pg: "w_pg w' = w_pg w" by (rule keeps_pg [OF keeps_documents_frame(2) run])
  from pg_Delete_effect [OF run a(2,1)]
  consider q where "w_db w' = (w_db w)\<lparr>db_taskseq := q\<rparr>"
    | x where "deletes (w_pg w) i ow x (w_db w) (w_db w')" "\<not> definite e" by auto
  then show ?thesis
  proof cases
    case 1
    then show ?thesis using pg_docs_taskseq pg by blast
  next
    case 2
    then show ?thesis using deletes_views(1) [OF 2(1) pg] wf_in_documents [OF a(1)] by blast
  qed
qed

lemma pg_document_ddelete_forbidden:
  assumes a: "wf_in False w" "\<not> c_tx c" "dr_Delete (pg_documents L) c i ow w = (Inl e, w')" "errors_Is e RepoErrForbidden"
  shows "\<exists>k x. pg_canon w i = Some k \<and> pg_docs w k = Some x \<and> d_OwnerID x \<noteq> ow"
  using a pg_Delete_effect [of c i ow w "Inl e" w']
  by (auto simp: pg_documents_def definite_def)

lemma pg_document_ddelete_not_found:
  assumes a: "wf_in False w" "\<not> c_tx c" "dr_Delete (pg_documents L) c i ow w = (Inl e, w')" "errors_Is e RepoErrNotFound"
  shows "\<exists>k. pg_canon w i = Some k \<and> pg_docs w k = None"
  using a pg_Delete_effect [of c i ow w "Inl e" w']
  by (auto simp: pg_documents_def definite_def)

lemmas pg_document_laws =
  pg_document_dcreate_keeps pg_document_dfind_keeps pg_document_dlist_keeps pg_document_ddelete_keeps
  pg_document_uexist_docs pg_document_docs_id pg_document_docs_file pg_document_dcreate_ok
  pg_document_dcreate_err pg_document_dfind_ok pg_document_dfind_forbidden pg_document_dfind_not_found
  pg_document_dlist_ok pg_document_ddelete_ok pg_document_ddelete_err pg_document_ddelete_forbidden
  pg_document_ddelete_not_found

interpretation pg_document_port: document_port pg_users "wf_in False" pg_accounts "pg_documents L"
    pg_canon pg_docs pg_queued pg_json for L
  by unfold_locales (rule pg_document_laws; assumption)+

end
