(* ===== verification/PgCleanup.thy ===== *)
theory PgCleanup
  imports PgDocPort
begin

text \<open>
  The cleanup queue, \<open>internal/repository/postgres/blob_cleanup.go\<close>, and its contract. A claim
  leases due tasks: it counts the attempt and puts the next one after the lease. Statements run
  one at a time in the model, so \<open>SKIP LOCKED\<close> never finds a locked row; workers interleave
  between statements.
\<close>

subsection \<open>Statements\<close>

definition task_of_row :: "task_row \<Rightarrow> blobCleanupTask" where
  "task_of_row r = \<lparr>t_ID = rt_id r, t_StorageKey = rt_key r, t_Attempts = rt_attempts r, t_NextAttemptAt = rt_next r\<rparr>"

text \<open>\<open>ORDER BY next_attempt_at, id\<close>.\<close>

definition due_le :: "task_row \<Rightarrow> task_row \<Rightarrow> bool" where
  "due_le a b \<longleftrightarrow> rt_next a < rt_next b \<or> rt_next a = rt_next b \<and> rt_id a \<le> rt_id b"

definition due_rows :: "time \<Rightarrow> int \<Rightarrow> database \<Rightarrow> task_row list" where
  "due_rows now limit d = take (nat limit) (sort_by due_le (filter (\<lambda>r. rt_next r \<le> pg_micros now) (db_tasks d)))"

text \<open>\<open>attempts\<close> is a 32-bit column; the server reports an overflow as an error.\<close>

definition claim_tasks :: "int \<Rightarrow> time \<Rightarrow> blobCleanupTask list statement" where
  "claim_tasks limit lease p now d =
     (let ids = map rt_id (due_rows now limit d);
          lease_row = (\<lambda>r. r\<lparr>rt_attempts := rt_attempts r + 1, rt_next := pg_micros lease\<rparr>)
      in if list_ex (\<lambda>r. rt_attempts r \<ge> 2147483647) (due_rows now limit d)
         then (Inl (PgError ''22003''), d)
         else
           (Inr (map (task_of_row \<circ> lease_row) (filter (\<lambda>r. rt_id r \<in> set ids) (db_tasks d))),
            d\<lparr>db_tasks := map (\<lambda>r. if rt_id r \<in> set ids then lease_row r else r) (db_tasks d)\<rparr>))"

definition delete_task :: "int \<Rightarrow> unit statement" where
  "delete_task i p now d = (Inr (), d\<lparr>db_tasks := filter (\<lambda>r. rt_id r \<noteq> i) (db_tasks d)\<rparr>)"

definition delete_task_key :: "string \<Rightarrow> unit statement" where
  "delete_task_key key p now d =
     (case text_param p key of
        Inl e \<Rightarrow> (Inl e, d)
      | Inr k \<Rightarrow> (Inr (), d\<lparr>db_tasks := filter (\<lambda>r. rt_key r \<noteq> k) (db_tasks d)\<rparr>))"

definition retry_task :: "int \<Rightarrow> time \<Rightarrow> unit statement" where
  "retry_task i next p now d =
     (Inr (), d\<lparr>db_tasks := map (\<lambda>r. if rt_id r = i then r\<lparr>rt_next := pg_micros next\<rparr> else r) (db_tasks d)\<rparr>)"

subsection \<open>The repository\<close>

definition pg_ClaimTasks :: "ctx \<Rightarrow> int \<Rightarrow> time \<Rightarrow> (world, blobCleanupTask list) op" where
  "pg_ClaimTasks c limit lease =
     (if limit \<le> 0 \<or> lease = zero_time
      then fail (Wrapped ''claim blob cleanup tasks'' (Sentinel RepoErrInvalidArgument))
      else map_err (classify ''claim blob cleanup tasks'') (pg_exec c (claim_tasks limit lease)))"

definition pg_CompleteTask :: "ctx \<Rightarrow> int \<Rightarrow> (world, unit) op" where
  "pg_CompleteTask c i =
     (if i \<le> 0 then fail (Wrapped ''complete blob cleanup task'' (Sentinel RepoErrInvalidArgument))
      else map_err (classify ''complete blob cleanup task'') (pg_exec c (delete_task i)))"

definition pg_CompleteByStorageKey :: "ctx \<Rightarrow> string \<Rightarrow> (world, unit) op" where
  "pg_CompleteByStorageKey c key =
     (if strings_TrimSpace key = []
      then fail (Wrapped ''complete blob cleanup task'' (Sentinel RepoErrInvalidArgument))
      else map_err (classify ''complete blob cleanup task'') (pg_exec c (delete_task_key key)))"

definition pg_RetryTask :: "ctx \<Rightarrow> int \<Rightarrow> time \<Rightarrow> (world, unit) op" where
  "pg_RetryTask c i next =
     (if i \<le> 0 \<or> next = zero_time
      then fail (Wrapped ''retry blob cleanup task'' (Sentinel RepoErrInvalidArgument))
      else map_err (classify ''retry blob cleanup task'') (pg_exec c (retry_task i next)))"

definition pg_cleanup :: "world cleanup_repository" where
  "pg_cleanup = \<lparr>cr_Claim = pg_ClaimTasks, cr_Complete = pg_CompleteTask,
     cr_CompleteByStorageKey = pg_CompleteByStorageKey, cr_Retry = pg_RetryTask\<rparr>"

subsection \<open>The statements respect the schema\<close>

lemma wf_tasks_map:
  assumes "wf_tasks d" "\<And>r. rt_id (f r) = rt_id r \<and> rt_key (f r) = rt_key r \<and> (0 \<le> rt_attempts r \<longrightarrow> 0 \<le> rt_attempts (f r))"
  shows "wf_tasks (d\<lparr>db_tasks := map f (db_tasks d)\<rparr>)"
  using assms by (auto simp: wf_tasks_def list_all_iff comp_def)

lemma wf_tasks_filter: "wf_tasks d \<Longrightarrow> wf_tasks (d\<lparr>db_tasks := filter P (db_tasks d)\<rparr>)"
  by (auto simp: wf_tasks_def list_all_iff distinct_map_filter)

lemma stmt_wf_cleanup [intro]:
  "stmt_wf (claim_tasks limit lease)" "stmt_wf (delete_task i)" "stmt_wf (delete_task_key key)"
  "stmt_wf (retry_task i next)"
proof -
  show "stmt_wf (delete_task i)"
    by (rule stmt_wfI) (auto simp: delete_task_def wf_db_def wf_tasks_filter)
  show "stmt_wf (delete_task_key key)"
    by (rule stmt_wfI) (auto simp: delete_task_key_def text_param_def wf_db_def wf_tasks_filter split: if_splits)
  show "stmt_wf (retry_task i next)"
    by (rule stmt_wfI) (auto simp: retry_task_def wf_db_def intro!: wf_tasks_map)
  show "stmt_wf (claim_tasks limit lease)"
    by (rule stmt_wfI) (auto simp: claim_tasks_def Let_def wf_db_def split: if_splits intro!: wf_tasks_map)
qed

lemma keeps_cleanup_wf:
  "keeps (wf_in (c_tx c)) (pg_ClaimTasks c n t)" "keeps (wf_in (c_tx c)) (pg_CompleteTask c i)"
  "keeps (wf_in (c_tx c)) (pg_CompleteByStorageKey c k)" "keeps (wf_in (c_tx c)) (pg_RetryTask c i t)"
  unfolding pg_ClaimTasks_def pg_CompleteTask_def pg_CompleteByStorageKey_def pg_RetryTask_def
  by (intro keeps_intro; auto)+

lemma keeps_cleanup_frame:
  "keeps (\<lambda>w. pg_frame w = X) (pg_ClaimTasks c n t)" "keeps (\<lambda>w. pg_frame w = X) (pg_CompleteTask c i)"
  "keeps (\<lambda>w. pg_frame w = X) (pg_CompleteByStorageKey c k)" "keeps (\<lambda>w. pg_frame w = X) (pg_RetryTask c i t)"
  unfolding pg_ClaimTasks_def pg_CompleteTask_def pg_CompleteByStorageKey_def pg_RetryTask_def
  by (intro keeps_intro)+

subsection \<open>The contract\<close>

definition pg_tasks :: "world \<Rightarrow> int \<Rightarrow> blobCleanupTask option" where
  "pg_tasks w i = map_option task_of_row (find (\<lambda>r. rt_id r = i) (db_tasks (w_db w)))"

definition pg_rest :: "world \<Rightarrow> (string \<Rightarrow> (user \<times> bytes) option) \<times> (string \<Rightarrow> document option)" where
  "pg_rest w = (pg_accounts w, pg_docs w)"

lemma pg_rest_cong:
  "db_users (w_db w') = db_users (w_db w) \<Longrightarrow> db_documents (w_db w') = db_documents (w_db w) \<Longrightarrow>
   db_grants (w_db w') = db_grants (w_db w) \<Longrightarrow> w_pg w' = w_pg w \<Longrightarrow> pg_rest w' = pg_rest w"
proof -
  assume a: "db_users (w_db w') = db_users (w_db w)" "db_documents (w_db w') = db_documents (w_db w)"
    "db_grants (w_db w') = db_grants (w_db w)" "w_pg w' = w_pg w"
  have "grant_logins p (w_db w') = grant_logins p (w_db w)" for p
    by (rule ext) (simp add: grant_logins_def a)
  then have "full_document p (w_db w') = full_document p (w_db w)" for p
    by (intro ext) (simp add: full_document_def)
  then show ?thesis
    by (simp add: pg_rest_def pg_docs_def [abs_def] pg_accounts_def [abs_def] find_user_def document_by_id_def a)
qed

lemma find_task: "wf_tasks d \<Longrightarrow> find (\<lambda>r. rt_id r = i) (db_tasks d) = Some r \<longleftrightarrow> r \<in> set (db_tasks d) \<and> rt_id r = i"
  by (rule find_unique [where f = rt_id]) (auto simp: wf_tasks_def)

lemma pg_queued_keys: "wf_tasks (w_db w) \<Longrightarrow> pg_queued w = task_keys (pg_tasks w)"
proof -
  assume wf: "wf_tasks (w_db w)"
  have "k \<in> task_keys (pg_tasks w) \<longleftrightarrow> k \<in> pg_queued w" for k
  proof -
    have "(\<exists>i x. pg_tasks w i = Some x \<and> t_StorageKey x = k) \<longleftrightarrow> (\<exists>r \<in> set (db_tasks (w_db w)). rt_key r = k)"
      using find_task [OF wf] by (force simp: pg_tasks_def task_of_row_def)
    then show ?thesis by (auto simp: task_keys_iff pg_queued_def)
  qed
  then show ?thesis by blast
qed

text \<open>One statement of the queue, outside a transaction: it took effect, or an error says so or not.\<close>

lemma cleanup_exec:
  assumes "map_err (classify m) (pg_exec c f) w = (r, w')" "\<not> c_tx c"
  shows "\<exists>r' d' now. f (w_pg w) now (w_db w) = (r', d') \<and> (w_db w' = d' \<or> (\<exists>e. r = Inl e) \<and> w_db w' = w_db w) \<and>
    (r = (case r' of Inl e \<Rightarrow> Inl (classify m e) | Inr a \<Rightarrow> Inr a) \<or> (\<exists>e. r = Inl e))"
proof -
  obtain r1 w1 where ex: "pg_exec c f w = (r1, w1)" by fastforce
  have rw: "r = (case r1 of Inl e \<Rightarrow> Inl (classify m e) | Inr a \<Rightarrow> Inr a)" "w' = w1"
    using assms(1) ex by (auto simp: map_err_def split: sum.splits)
  obtain r' d' where st: "f (w_pg w) (es_dbnow (w_env w (w_tick w))) (w_db w) = (r', d')"
    and res: "r1 = r' \<and> w_db w1 = d' \<or> (\<exists>e. r1 = Inl (io_goerr e)) \<and> (w_db w1 = w_db w \<or> w_db w1 = d')"
    using pg_exec_auto [OF ex assms(2)] by blast
  show ?thesis
    by (intro exI [of _ r'] exI [of _ d'] exI [of _ "es_dbnow (w_env w (w_tick w))"] conjI st)
      (use res rw in \<open>auto split: sum.splits\<close>)
qed

lemma delete_tasks_view:
  assumes "wf_tasks d" "d' = d\<lparr>db_tasks := filter P (db_tasks d)\<rparr>"
  shows "find (\<lambda>r. rt_id r = i) (db_tasks d') =
    (case find (\<lambda>r. rt_id r = i) (db_tasks d) of Some r \<Rightarrow> if P r then Some r else None | None \<Rightarrow> None)"
proof (cases "find (\<lambda>r. rt_id r = i) (db_tasks d)")
  case None
  then have "find (\<lambda>r. rt_id r = i) (db_tasks d') = None" by (auto simp: assms(2) find_None_iff)
  with None show ?thesis by simp
next
  case (Some r)
  then have r: "r \<in> set (db_tasks d)" "rt_id r = i" using find_task [OF assms(1)] by blast+
  have uniq: "q = r" if "q \<in> set (db_tasks d)" "rt_id q = i" for q
    using that Some find_task [OF assms(1), of i q] by simp
  have wf': "wf_tasks d'" using wf_tasks_filter assms by blast
  show ?thesis
  proof (cases "P r")
    case True
    with r have "r \<in> set (db_tasks d') \<and> rt_id r = i" by (simp add: assms(2))
    with find_task [OF wf'] Some True show ?thesis by simp
  next
    case False
    with uniq have "find (\<lambda>r. rt_id r = i) (db_tasks d') = None"
      by (auto simp: assms(2) find_None_iff)
    with Some False show ?thesis by simp
  qed
qed

lemma map_tasks_view:
  assumes "\<And>r. rt_id (f r) = rt_id r"
  shows "find (\<lambda>r. rt_id r = i) (map f rs) = map_option f (find (\<lambda>r. rt_id r = i) rs)"
  by (simp add: find_map comp_def assms)

lemma find_task_id: "find (\<lambda>r. rt_id r = i) rs = Some r \<Longrightarrow> rt_id r = i"
  by (auto simp: find_Some_iff)

lemma cleanup_effects:
  assumes wf: "wf_in False w" and c: "\<not> c_tx c"
  shows "pg_CompleteTask c i w = (r1, w') \<Longrightarrow>
      pg_tasks w' = (pg_tasks w)(i := None) \<or> (\<exists>e. r1 = Inl e) \<and> pg_tasks w' = pg_tasks w"
    and "pg_CompleteByStorageKey c k w = (r2, w') \<Longrightarrow>
      pg_tasks w' = drop_key k (pg_tasks w) \<or> (\<exists>e. r2 = Inl e) \<and> pg_tasks w' = pg_tasks w"
    and "pg_RetryTask c i t w = (r3, w') \<Longrightarrow>
      pg_tasks w' = retried (pg_micros t) i (pg_tasks w) \<or> (\<exists>e. r3 = Inl e) \<and> pg_tasks w' = pg_tasks w"
proof -
  have wft: "wf_tasks (w_db w)" using wf by (simp add: wf_in_def wf_world_def wf_db_def)
  have same: "w_db w' = w_db w \<Longrightarrow> pg_tasks w' = pg_tasks w" by (simp add: pg_tasks_def fun_eq_iff)
  show "pg_CompleteTask c i w = (r1, w') \<Longrightarrow>
      pg_tasks w' = (pg_tasks w)(i := None) \<or> (\<exists>e. r1 = Inl e) \<and> pg_tasks w' = pg_tasks w"
  proof (cases "i \<le> 0")
    case False
    assume "pg_CompleteTask c i w = (r1, w')"
    with False have "map_err (classify ''complete blob cleanup task'') (pg_exec c (delete_task i)) w = (r1, w')"
      by (simp add: pg_CompleteTask_def)
    from cleanup_exec [OF this c] obtain d' where
      "d' = (w_db w)\<lparr>db_tasks := filter (\<lambda>r. rt_id r \<noteq> i) (db_tasks (w_db w))\<rparr>"
      "w_db w' = d' \<or> (\<exists>e. r1 = Inl e) \<and> w_db w' = w_db w" by (auto simp: delete_task_def)
    with delete_tasks_view [OF wft this(1)] same show ?thesis
      by (auto simp: pg_tasks_def fun_eq_iff dest: find_task_id split: option.split)
  qed (auto simp: pg_CompleteTask_def)
  show "pg_CompleteByStorageKey c k w = (r2, w') \<Longrightarrow>
      pg_tasks w' = drop_key k (pg_tasks w) \<or> (\<exists>e. r2 = Inl e) \<and> pg_tasks w' = pg_tasks w"
  proof (cases "strings_TrimSpace k = []")
    case False
    assume "pg_CompleteByStorageKey c k w = (r2, w')"
    with False have "map_err (classify ''complete blob cleanup task'') (pg_exec c (delete_task_key k)) w = (r2, w')"
      by (simp add: pg_CompleteByStorageKey_def)
    from cleanup_exec [OF this c] obtain d' where
      "d' = (w_db w)\<lparr>db_tasks := filter (\<lambda>r. rt_key r \<noteq> k) (db_tasks (w_db w))\<rparr>"
      "w_db w' = d' \<or> (\<exists>e. r2 = Inl e) \<and> w_db w' = w_db w"
      by (auto simp: delete_task_key_def text_param_def split: if_splits)
    with delete_tasks_view [OF wft this(1)] same show ?thesis
      by (auto simp: pg_tasks_def drop_key_def task_of_row_def fun_eq_iff split: option.split)
  qed (auto simp: pg_CompleteByStorageKey_def)
  show "pg_RetryTask c i t w = (r3, w') \<Longrightarrow>
      pg_tasks w' = retried (pg_micros t) i (pg_tasks w) \<or> (\<exists>e. r3 = Inl e) \<and> pg_tasks w' = pg_tasks w"
  proof (cases "i \<le> 0 \<or> t = zero_time")
    case False
    assume "pg_RetryTask c i t w = (r3, w')"
    with False have "map_err (classify ''retry blob cleanup task'') (pg_exec c (retry_task i t)) w = (r3, w')"
      by (simp add: pg_RetryTask_def)
    from cleanup_exec [OF this c] obtain d' where d':
      "d' = (w_db w)\<lparr>db_tasks := map (\<lambda>r. if rt_id r = i then r\<lparr>rt_next := pg_micros t\<rparr> else r) (db_tasks (w_db w))\<rparr>"
      "w_db w' = d' \<or> (\<exists>e. r3 = Inl e) \<and> w_db w' = w_db w" by (auto simp: retry_task_def)
    have "find (\<lambda>r. rt_id r = j) (db_tasks d') = map_option (\<lambda>r. if rt_id r = i then r\<lparr>rt_next := pg_micros t\<rparr> else r)
        (find (\<lambda>r. rt_id r = j) (db_tasks (w_db w)))" for j
      by (simp add: d'(1) map_tasks_view)
    then have "pg_tasks w' j = retried (pg_micros t) i (pg_tasks w) j" if "w_db w' = d'" for j
      using that by (cases "find (\<lambda>r. rt_id r = j) (db_tasks (w_db w))")
        (auto simp: pg_tasks_def retried_def task_of_row_def dest: find_task_id)
    with d'(2) same show ?thesis by blast
  qed (auto simp: pg_RetryTask_def)
qed

text \<open>A claim takes due tasks only, the oldest first, and leases exactly those.\<close>

lemma comparator_due_le: "comparator due_le"
  by unfold_locales (auto simp: due_le_def)

lemma claim_tasks_effect:
  assumes "claim_tasks n t p now d = (Inr ts, d')" "wf_tasks d" "0 \<le> n"
  shows "leased pg_micros t (\<lambda>i. map_option task_of_row (find (\<lambda>r. rt_id r = i) (db_tasks d))) ts \<and>
    int (length ts) \<le> n \<and> (\<lambda>i. map_option task_of_row (find (\<lambda>r. rt_id r = i) (db_tasks d'))) =
      update_tasks (\<lambda>i. map_option task_of_row (find (\<lambda>r. rt_id r = i) (db_tasks d))) ts"
proof -
  let ?due = "due_rows now n d" and ?lease = "\<lambda>r. r\<lparr>rt_attempts := rt_attempts r + 1, rt_next := pg_micros t\<rparr>"
  let ?T = "\<lambda>i. map_option task_of_row (find (\<lambda>r. rt_id r = i) (db_tasks d))"
  let ?rows = "filter (\<lambda>r. rt_id r \<in> set (map rt_id ?due)) (db_tasks d)"
  let ?f = "\<lambda>r. if rt_id r \<in> set (map rt_id ?due) then ?lease r else r"
  have ts: "ts = map (task_of_row \<circ> ?lease) ?rows" and d': "d' = d\<lparr>db_tasks := map ?f (db_tasks d)\<rparr>"
    using assms(1) by (auto simp: claim_tasks_def Let_def split: if_splits)
  have dist: "distinct (map rt_id (db_tasks d))" using assms(2) by (simp add: wf_tasks_def)
  have "set ?due \<subseteq> set (db_tasks d)"
    by (auto simp: due_rows_def dest!: in_set_takeD)
  have rows_id: "distinct (map rt_id ?rows)" using dist by (rule distinct_map_filter)
  have "set (map rt_id ?rows) \<subseteq> set (map rt_id ?due)" by auto
  then have "length (map rt_id ?rows) \<le> length (map rt_id ?due)"
    using rows_id by (metis List.finite_set card_mono card_length distinct_card le_trans)
  moreover have "int (length ?due) \<le> n" using assms(3) by (simp add: due_rows_def)
  ultimately have len: "int (length ts) \<le> n" by (simp add: ts)
  have ids: "map t_ID ts = map rt_id ?rows" by (simp add: ts task_of_row_def)
  have lease: "leased pg_micros t ?T ts"
  proof -
    have "\<exists>t0. ?T (t_ID x) = Some t0 \<and> x = t0\<lparr>t_Attempts := t_Attempts t0 + 1, t_NextAttemptAt := pg_micros t\<rparr>"
      if x: "x \<in> set ts" for x
    proof -
      from x obtain r where r: "r \<in> set (db_tasks d)" "x = task_of_row (?lease r)" by (auto simp: ts)
      then have "find (\<lambda>q. rt_id q = t_ID x) (db_tasks d) = Some r"
        using find_task [OF assms(2)] by (simp add: task_of_row_def)
      with r(2) show ?thesis by (simp add: task_of_row_def)
    qed
    with ids rows_id show ?thesis unfolding leased_def by simp
  qed
  have map_of: "map_of (map (\<lambda>x. (t_ID x, x)) ts) i = (if i \<in> set (map rt_id ?due)
      then map_option (task_of_row \<circ> ?lease) (find (\<lambda>r. rt_id r = i) (db_tasks d)) else None)" for i
  proof (cases "\<exists>r \<in> set ?rows. rt_id r = i")
    case True
    then obtain r where r: "r \<in> set ?rows" "rt_id r = i" by blast
    have "map_of (map (\<lambda>x. (t_ID x, x)) ts) i = Some (task_of_row (?lease r))"
    proof (rule map_of_is_SomeI)
      show "distinct (map fst (map (\<lambda>x. (t_ID x, x)) ts))" using ids rows_id by (simp add: comp_def)
      have "task_of_row (?lease r) \<in> set ts" using r(1) by (auto simp: ts)
      moreover have "t_ID (task_of_row (?lease r)) = i" using r(2) by (simp add: task_of_row_def)
      ultimately show "(i, task_of_row (?lease r)) \<in> set (map (\<lambda>x. (t_ID x, x)) ts)" by force
    qed
    moreover have "find (\<lambda>r. rt_id r = i) (db_tasks d) = Some r"
      using find_task [OF assms(2)] r by simp
    ultimately show ?thesis using r by auto
  next
    case False
    then have "i \<notin> set (map t_ID ts)" using ids by auto
    then have "map_of (map (\<lambda>x. (t_ID x, x)) ts) i = None" by (auto simp: map_of_eq_None_iff)
    moreover have "find (\<lambda>r. rt_id r = i) (db_tasks d) = None" if "i \<in> set (map rt_id ?due)"
      using False that by (auto simp: find_None_iff)
    ultimately show ?thesis by simp
  qed
  have "map_option task_of_row (find (\<lambda>r. rt_id r = i) (db_tasks d')) = update_tasks ?T ts i" for i
  proof -
    have "find (\<lambda>r. rt_id r = i) (db_tasks d') = map_option ?f (find (\<lambda>r. rt_id r = i) (db_tasks d))"
      by (simp add: d' map_tasks_view)
    then show ?thesis
      by (cases "find (\<lambda>r. rt_id r = i) (db_tasks d)")
        (auto simp: update_tasks_def map_add_def map_of dest: find_task_id split: option.split)
  qed
  with lease len show ?thesis by blast
qed

lemma pg_Claim_effect:
  assumes run: "pg_ClaimTasks c n t w = (r, w')" and wf: "wf_in False w" and c: "\<not> c_tx c"
  shows "(\<exists>e. r = Inl e) \<and> pg_tasks w' = pg_tasks w \<or>
    (\<exists>ts. leased pg_micros t (pg_tasks w) ts \<and> int (length ts) \<le> n \<and>
      pg_tasks w' = update_tasks (pg_tasks w) ts \<and> (r = Inr ts \<or> (\<exists>e. r = Inl e)))"
proof (cases "n \<le> 0 \<or> t = zero_time")
  case True
  with run show ?thesis by (auto simp: pg_ClaimTasks_def)
next
  case False
  have wft: "wf_tasks (w_db w)" using wf by (simp add: wf_in_def wf_world_def wf_db_def)
  have view: "pg_tasks v = (\<lambda>i. map_option task_of_row (find (\<lambda>r. rt_id r = i) (db_tasks (w_db v))))" for v
    by (simp add: pg_tasks_def fun_eq_iff)
  have same: "w_db w' = w_db w \<Longrightarrow> pg_tasks w' = pg_tasks w" by (simp add: view)
  have ex: "map_err (classify ''claim blob cleanup tasks'') (pg_exec c (claim_tasks n t)) w = (r, w')"
    using run False by (simp add: pg_ClaimTasks_def)
  obtain r' d' now where st: "claim_tasks n t (w_pg w) now (w_db w) = (r', d')"
    and res: "w_db w' = d' \<or> (\<exists>e. r = Inl e) \<and> w_db w' = w_db w"
      "r = (case r' of Inl e \<Rightarrow> Inl (classify ''claim blob cleanup tasks'' e) | Inr a \<Rightarrow> Inr a) \<or> (\<exists>e. r = Inl e)"
    using cleanup_exec [OF ex c] by blast
  show ?thesis
  proof (cases r')
    case (Inl e)
    with st have "d' = w_db w" by (auto simp: claim_tasks_def Let_def split: if_splits)
    with res Inl same show ?thesis by auto
  next
    case (Inr ts)
    from claim_tasks_effect [OF st [unfolded Inr] wft] False
    have eff: "leased pg_micros t (pg_tasks w) ts" "int (length ts) \<le> n"
      "w_db w' = d' \<Longrightarrow> pg_tasks w' = update_tasks (pg_tasks w) ts" by (auto simp: view)
    from res(1) show ?thesis
    proof
      assume "w_db w' = d'"
      with eff res(2) Inr show ?thesis by auto
    next
      assume "(\<exists>e. r = Inl e) \<and> w_db w' = w_db w"
      with same show ?thesis by blast
    qed
  qed
qed

lemma cleanup_rest:
  assumes "map_err (classify m) (pg_exec c f) w = (r, w')" "\<not> c_tx c"
    "\<And>p t d r d'. f p t d = (r, d') \<Longrightarrow> db_users d' = db_users d \<and> db_documents d' = db_documents d \<and> db_grants d' = db_grants d"
  shows "pg_rest w' = pg_rest w"
proof (rule pg_rest_cong)
  obtain r' d' now where st: "f (w_pg w) now (w_db w) = (r', d')" "w_db w' = d' \<or> w_db w' = w_db w"
    using cleanup_exec [OF assms(1,2)] by blast
  then show "db_users (w_db w') = db_users (w_db w)" "db_documents (w_db w') = db_documents (w_db w)"
    "db_grants (w_db w') = db_grants (w_db w)" using assms(3) [OF st(1)] by auto
  show "w_pg w' = w_pg w" using assms(1) pg_exec_pg by (auto simp: map_err_def split: prod.splits sum.splits)
qed

lemma cleanup_rests:
  assumes "\<not> c_tx c"
  shows "pg_ClaimTasks c n t w = (r1, w') \<Longrightarrow> pg_rest w' = pg_rest w"
    and "pg_CompleteTask c i w = (r2, w') \<Longrightarrow> pg_rest w' = pg_rest w"
    and "pg_CompleteByStorageKey c k w = (r2, w') \<Longrightarrow> pg_rest w' = pg_rest w"
    and "pg_RetryTask c i t w = (r2, w') \<Longrightarrow> pg_rest w' = pg_rest w"
  by (auto simp: pg_ClaimTasks_def pg_CompleteTask_def pg_CompleteByStorageKey_def pg_RetryTask_def
      claim_tasks_def delete_task_def delete_task_key_def retry_task_def Let_def
      elim!: cleanup_rest [OF _ assms] split: if_splits sum.splits)

text \<open>The laws of \<open>cleanup_port\<close>, one by one.\<close>

lemma pg_cleanup_kclaim_keeps:
  fixes r :: "goerr + blobCleanupTask list"
  assumes a: "wf_in False w" "\<not> c_tx c" "cr_Claim pg_cleanup c n t w = (r, w')"
  shows "wf_in False w' \<and> pg_rest w' = pg_rest w"
proof -
  from a have run: "pg_ClaimTasks c n t w = (r, w')" by (simp add: pg_cleanup_def)
  show ?thesis
    using keeps_False [OF keeps_cleanup_wf(1) a(2,1) run] cleanup_rests(1) [OF a(2) run] by blast
qed

lemma pg_cleanup_kcomplete_keeps:
  fixes r :: "goerr + unit"
  assumes a: "wf_in False w" "\<not> c_tx c" "cr_Complete pg_cleanup c i w = (r, w')"
  shows "wf_in False w' \<and> pg_rest w' = pg_rest w"
proof -
  from a have run: "pg_CompleteTask c i w = (r, w')" by (simp add: pg_cleanup_def)
  show ?thesis
    using keeps_False [OF keeps_cleanup_wf(2) a(2,1) run] cleanup_rests(2) [OF a(2) run] by blast
qed

lemma pg_cleanup_kbykey_keeps:
  fixes r :: "goerr + unit"
  assumes a: "wf_in False w" "\<not> c_tx c" "cr_CompleteByStorageKey pg_cleanup c k w = (r, w')"
  shows "wf_in False w' \<and> pg_rest w' = pg_rest w"
proof -
  from a have run: "pg_CompleteByStorageKey c k w = (r, w')" by (simp add: pg_cleanup_def)
  show ?thesis
    using keeps_False [OF keeps_cleanup_wf(3) a(2,1) run] cleanup_rests(3) [OF a(2) run] by blast
qed

lemma pg_cleanup_kretry_keeps:
  fixes r :: "goerr + unit"
  assumes a: "wf_in False w" "\<not> c_tx c" "cr_Retry pg_cleanup c i t w = (r, w')"
  shows "wf_in False w' \<and> pg_rest w' = pg_rest w"
proof -
  from a have run: "pg_RetryTask c i t w = (r, w')" by (simp add: pg_cleanup_def)
  show ?thesis
    using keeps_False [OF keeps_cleanup_wf(4) a(2,1) run] cleanup_rests(4) [OF a(2) run] by blast
qed

lemma pg_cleanup_ktask_id:
  assumes a: "wf_in False w" "pg_tasks w i = Some x"
  shows "t_ID x = i"
  using a by (auto simp: pg_tasks_def task_of_row_def dest: find_task_id)

lemma pg_cleanup_ktask_key:
  assumes a: "wf_in False w" "pg_tasks w i = Some x" "pg_tasks w j = Some y" "t_StorageKey x = t_StorageKey y"
  shows "i = j"
proof -
  from a have wft: "wf_tasks (w_db w)" by (simp add: wf_in_def wf_world_def wf_db_def)
  obtain r q where r: "find (\<lambda>r. rt_id r = i) (db_tasks (w_db w)) = Some r" "find (\<lambda>r. rt_id r = j) (db_tasks (w_db w)) = Some q"
    "rt_key r = rt_key q" using a by (auto simp: pg_tasks_def task_of_row_def)
  have "inj_on rt_key (set (db_tasks (w_db w)))" using wft by (simp add: wf_tasks_def distinct_map)
  with r show ?thesis using find_task [OF wft] by (metis inj_onD)
qed

lemma pg_cleanup_kclaim_ok:
  assumes a: "wf_in False w" "\<not> c_tx c" "cr_Claim pg_cleanup c n t w = (Inr ts, w')"
  shows "leased pg_micros t (pg_tasks w) ts \<and> int (length ts) \<le> n \<and> pg_tasks w' = update_tasks (pg_tasks w) ts"
  using a pg_Claim_effect [of c n t w "Inr ts" w']
  by (simp add: pg_cleanup_def)

lemma pg_cleanup_kclaim_err:
  assumes a: "wf_in False w" "\<not> c_tx c" "cr_Claim pg_cleanup c n t w = (Inl e, w')"
  shows "pg_tasks w' = pg_tasks w \<or> (\<exists>ts. leased pg_micros t (pg_tasks w) ts \<and> pg_tasks w' = update_tasks (pg_tasks w) ts)"
  using a pg_Claim_effect [of c n t w "Inl e" w']
  by (simp add: pg_cleanup_def) blast

lemma pg_cleanup_kcomplete_ok:
  assumes a: "wf_in False w" "\<not> c_tx c" "cr_Complete pg_cleanup c i w = (Inr u, w')"
  shows "pg_tasks w' = (pg_tasks w)(i := None)"
  using a cleanup_effects(1) [of w c i "Inr u" w']
  by (simp add: pg_cleanup_def)

lemma pg_cleanup_kcomplete_err:
  assumes a: "wf_in False w" "\<not> c_tx c" "cr_Complete pg_cleanup c i w = (Inl e, w')"
  shows "pg_tasks w' = pg_tasks w \<or> pg_tasks w' = (pg_tasks w)(i := None)"
  using a cleanup_effects(1) [of w c i "Inl e" w']
  by (simp add: pg_cleanup_def) blast

lemma pg_cleanup_kbykey_ok:
  assumes a: "wf_in False w" "\<not> c_tx c" "cr_CompleteByStorageKey pg_cleanup c k w = (Inr u, w')"
  shows "pg_tasks w' = drop_key k (pg_tasks w)"
  using a cleanup_effects(2) [of w c k "Inr u" w']
  by (simp add: pg_cleanup_def)

lemma pg_cleanup_kbykey_err:
  assumes a: "wf_in False w" "\<not> c_tx c" "cr_CompleteByStorageKey pg_cleanup c k w = (Inl e, w')"
  shows "pg_tasks w' = pg_tasks w \<or> pg_tasks w' = drop_key k (pg_tasks w)"
  using a cleanup_effects(2) [of w c k "Inl e" w']
  by (simp add: pg_cleanup_def) blast

lemma pg_cleanup_kretry_ok:
  assumes a: "wf_in False w" "\<not> c_tx c" "cr_Retry pg_cleanup c i t w = (Inr u, w')"
  shows "pg_tasks w' = retried (pg_micros t) i (pg_tasks w)"
  using a cleanup_effects(3) [of w c i t "Inr u" w']
  by (simp add: pg_cleanup_def)

lemma pg_cleanup_kretry_err:
  assumes a: "wf_in False w" "\<not> c_tx c" "cr_Retry pg_cleanup c i t w = (Inl e, w')"
  shows "pg_tasks w' = pg_tasks w \<or> pg_tasks w' = retried (pg_micros t) i (pg_tasks w)"
  using a cleanup_effects(3) [of w c i t "Inl e" w']
  by (simp add: pg_cleanup_def) blast

lemmas pg_cleanup_laws =
  pg_cleanup_kclaim_keeps pg_cleanup_kcomplete_keeps pg_cleanup_kbykey_keeps pg_cleanup_kretry_keeps
  pg_cleanup_ktask_id pg_cleanup_ktask_key pg_cleanup_kclaim_ok pg_cleanup_kclaim_err pg_cleanup_kcomplete_ok
  pg_cleanup_kcomplete_err pg_cleanup_kbykey_ok pg_cleanup_kbykey_err pg_cleanup_kretry_ok
  pg_cleanup_kretry_err

interpretation pg_cleanup_port: cleanup_port pg_cleanup "wf_in False" pg_tasks pg_rest pg_micros
  by unfold_locales (rule pg_cleanup_laws; assumption)+

end
