(* ===== verification/BlobStore.thy ===== *)
theory BlobStore
  imports World
begin

text \<open>
  The filesystem storage, \<open>internal/blob/filesystem.go\<close>, on the directory \<open>w_dir\<close> of the
  world: names with their contents, published blobs and temporary files together. Each system
  call is one step of the environment and may fail, then without effect; only a failed write may
  have left part of its data behind.
\<close>

definition key_rune :: "nat \<Rightarrow> bool" where
  "key_rune r \<longleftrightarrow> lower_rune r \<or> upper_rune r \<or> digit_rune r \<or> r = 45 \<or> r = 95"

definition validKey :: "string \<Rightarrow> bool" where
  "validKey key = (key \<noteq> [] \<and> filepath_Base key = key \<and> list_all key_rune (runes key))"

subsection \<open>System calls\<close>

text \<open>
  \<open>os.CreateTemp\<close> picks a name that does not exist; the model takes a longer one than any
  there is.
\<close>

definition temp_name :: "(string \<times> bytes) list \<Rightarrow> string" where
  "temp_name d = ''.upload-'' @ replicate (Suc (foldr (\<lambda>p n. max (length (fst p)) n) d 0)) CHR ''0''"

definition os_CreateTemp :: "(world, string) op" where
  "os_CreateTemp = sys_call (\<lambda>w.
     (Inr (temp_name (w_dir w)), w\<lparr>w_dir := al_set (temp_name (w_dir w)) [] (w_dir w)\<rparr>))"

definition os_append :: "string \<Rightarrow> bytes \<Rightarrow> (world, unit) op" where
  "os_append name data = env_call (\<lambda>s w.
     (Inr (), w\<lparr>w_dir :=
        al_set name ((case al_get (w_dir w) name of None \<Rightarrow> [] | Some old \<Rightarrow> old) @ data) (w_dir w)\<rparr>))"

definition os_Sync :: "(world, unit) op" where
  "os_Sync = sys_call (ret ())"

definition os_Close :: "(world, unit) op" where
  "os_Close = sys_call (ret ())"

text \<open>\<open>os.Link\<close> does not replace an existing name.\<close>

definition os_Link :: "string \<Rightarrow> string \<Rightarrow> (world, unit) op" where
  "os_Link old new = sys_call (\<lambda>w.
     (case (al_get (w_dir w) old, al_get (w_dir w) new) of
        (None, _) \<Rightarrow> (Inl (Sentinel OsErrNotExist), w)
      | (Some data, Some _) \<Rightarrow> (Inl (Opaque ''file exists''), w)
      | (Some data, None) \<Rightarrow> (Inr (), w\<lparr>w_dir := al_set new data (w_dir w)\<rparr>)))"

definition os_Remove :: "string \<Rightarrow> (world, unit) op" where
  "os_Remove name = sys_call (\<lambda>w.
     (case al_get (w_dir w) name of
        None \<Rightarrow> (Inl (Sentinel OsErrNotExist), w)
      | Some _ \<Rightarrow> (Inr (), w\<lparr>w_dir := al_del name (w_dir w)\<rparr>)))"

definition os_Open :: "string \<Rightarrow> (world, bytes) op" where
  "os_Open name = sys_call (\<lambda>w.
     (case al_get (w_dir w) name of
        None \<Rightarrow> (Inl (Sentinel OsErrNotExist), w)
      | Some data \<Rightarrow> (Inr data, w)))"

definition os_Stat :: "(world, unit) op" where
  "os_Stat = sys_call (ret ())"

subsection \<open>The operations of \<open>FileStorage\<close>\<close>

text \<open>
  \<open>io.Copy(temporary, contextReader{...})\<close>: the context is checked before every read, the
  data moves in pieces of at most 32 KiB, and the reader's own error comes after its data.
\<close>

function copy_loop :: "ctx \<Rightarrow> string \<Rightarrow> bytes \<Rightarrow> goerr option \<Rightarrow> (world, unit) op" where
  "copy_loop c name data err w =
     (case ctx_Err c w of
        (Some e, w1) \<Rightarrow> (Inl e, w1)
      | (None, w1) \<Rightarrow>
          if data = [] then ((case err of None \<Rightarrow> Inr () | Some e \<Rightarrow> Inl e), w1)
          else case os_append name (take 32768 data) w1 of
              (Inl e, w2) \<Rightarrow> (Inl e, w2)
            | (Inr _, w2) \<Rightarrow> copy_loop c name (drop 32768 data) err w2)"
  by pat_completeness auto
termination
  by (relation "measure (\<lambda>(c, name, data, err, w). length data)") auto

declare copy_loop.simps [simp del]

text \<open>Evaluation moves short data in one piece.\<close>

lemma copy_loop_code [code]:
  "copy_loop c name data err w =
     (case ctx_Err c w of
        (Some e, w1) \<Rightarrow> (Inl e, w1)
      | (None, w1) \<Rightarrow>
          if data = [] then ((case err of None \<Rightarrow> Inr () | Some e \<Rightarrow> Inl e), w1)
          else if int (length data) \<le> 32768 then
            (case os_append name data w1 of
               (Inl e, w2) \<Rightarrow> (Inl e, w2)
             | (Inr _, w2) \<Rightarrow> copy_loop c name [] err w2)
          else case os_append name (take 32768 data) w1 of
              (Inl e, w2) \<Rightarrow> (Inl e, w2)
            | (Inr _, w2) \<Rightarrow> copy_loop c name (drop 32768 data) err w2)"
  by (subst copy_loop.simps) (simp split: prod.split option.split sum.split)

definition fs_publish :: "ctx \<Rightarrow> string \<Rightarrow> string \<Rightarrow> reader \<Rightarrow> (world, int) op" where
  "fs_publish c tmp key source =
     and_then (map_err (Wrapped ''write blob'') (copy_loop c tmp (r_data source) (r_err source))) (\<lambda>_.
     and_then (map_err (Wrapped ''sync blob'') os_Sync) (\<lambda>_.
     and_then (map_err (Wrapped ''close blob'') os_Close) (\<lambda>_.
     and_then (map_err (Wrapped ''commit blob'') (os_Link tmp key)) (\<lambda>_.
     ret (int (length (r_data source)))))))"

text \<open>The deferred \<open>Close\<close> and \<open>Remove\<close> run whatever happened; their errors are dropped.\<close>

definition fs_Put :: "ctx \<Rightarrow> string \<Rightarrow> reader option \<Rightarrow> (world, int) op" where
  "fs_Put c key source w =
     (case source of
        None \<Rightarrow> (Inl (Sentinel BlobErrInvalidKey), w)
      | Some src \<Rightarrow>
          if \<not> validKey key then (Inl (Sentinel BlobErrInvalidKey), w)
          else case ctx_Err c w of
              (Some e, w1) \<Rightarrow> (Inl e, w1)
            | (None, w1) \<Rightarrow>
                and_then (map_err (Wrapped ''create temporary blob'') os_CreateTemp) (\<lambda>tmp w2.
                  let (r, w3) = fs_publish c tmp key src w2;
                      (_, w4) = os_Close w3;
                      (_, w5) = os_Remove tmp w4
                  in (r, w5)) w1)"

definition fs_Open :: "ctx \<Rightarrow> string \<Rightarrow> (world, blob_object) op" where
  "fs_Open c key w =
     (if \<not> validKey key then (Inl (Sentinel BlobErrInvalidKey), w)
      else case ctx_Err c w of
          (Some e, w1) \<Rightarrow> (Inl e, w1)
        | (None, w1) \<Rightarrow>
            (case os_Open key w1 of
               (Inl e, w2) \<Rightarrow>
                 (Inl (if errors_Is e OsErrNotExist then Sentinel BlobErrNotFound
                       else Wrapped ''open blob'' e), w2)
             | (Inr data, w2) \<Rightarrow>
                 (case os_Stat w2 of
                    (Inl e, w3) \<Rightarrow> (Inl (Wrapped ''stat blob'' e), snd (os_Close w3))
                  | (Inr _, w3) \<Rightarrow>
                      (Inr \<lparr>o_Body = Some \<lparr>r_data = data, r_err = None\<rparr>,
                            o_Size = int (length data)\<rparr>, w3))))"

definition fs_Delete :: "ctx \<Rightarrow> string \<Rightarrow> (world, unit) op" where
  "fs_Delete c key w =
     (if \<not> validKey key then (Inl (Sentinel BlobErrInvalidKey), w)
      else case ctx_Err c w of
          (Some e, w1) \<Rightarrow> (Inl e, w1)
        | (None, w1) \<Rightarrow>
            (case os_Remove key w1 of
               (Inl e, w2) \<Rightarrow>
                 (Inl (if errors_Is e OsErrNotExist then Sentinel BlobErrNotFound
                       else Wrapped ''delete blob'' e), w2)
             | (Inr _, w2) \<Rightarrow> (Inr (), w2)))"

definition fs_Ping :: "bool \<Rightarrow> ctx \<Rightarrow> (world, unit) op" where
  "fs_Ping is_dir c w =
     (case ctx_Err c w of
        (Some e, w1) \<Rightarrow> (Inl e, w1)
      | (None, w1) \<Rightarrow>
          (case os_Stat w1 of
             (Inl e, w2) \<Rightarrow> (Inl (Opaque ''blob storage unavailable''), w2)
           | (Inr _, w2) \<Rightarrow>
               if is_dir then (Inr (), w2) else (Inl (Opaque ''blob storage unavailable''), w2)))"

definition file_storage :: "world blob_storage" where
  "file_storage = \<lparr>bs_Put = fs_Put, bs_Open = fs_Open, bs_Delete = fs_Delete\<rparr>"

text \<open>\<open>filepath.Abs\<close> and \<open>os.MkdirAll\<close> are the environment's; the root is its absolute path.\<close>

definition newFileStorage :: "(string \<Rightarrow> string) \<Rightarrow> string \<Rightarrow> (world, string) op" where
  "newFileStorage absPath root =
     (if strings_TrimSpace root = []
      then fail (Wrapped ''configure filesystem blob storage'' (Sentinel BlobErrInvalidKey))
      else and_then (map_err (Wrapped ''resolve filesystem blob root'') (sys_call (ret (absPath root))))
        (\<lambda>absRoot. and_then (map_err (Wrapped ''create filesystem blob root'') (sys_call (ret ())))
        (\<lambda>_. ret absRoot)))"

subsection \<open>What the operations do to the published blobs\<close>

text \<open>The view: keys with their contents. Temporary files are not objects, no key names one.\<close>

definition fs_blobs :: "world \<Rightarrow> string \<Rightarrow> bytes option" where
  "fs_blobs w k = (if validKey k then al_get (w_dir w) k else None)"

text \<open>Everything of the world but the directory and the step counter.\<close>

definition fs_frame :: "world \<Rightarrow> database \<times> (database \<times> time) option \<times> pg_params \<times> (nat \<Rightarrow> env_step)" where
  "fs_frame w = (w_db w, w_tx w, w_pg w, w_env w)"

definition fs_same :: "world \<Rightarrow> world \<Rightarrow> bool" where
  "fs_same w w' \<longleftrightarrow> fs_blobs w' = fs_blobs w \<and> fs_frame w' = fs_frame w"

lemma key_rune_ascii: "key_rune r \<Longrightarrow> r < 128"
  by (auto simp: key_rune_def lower_rune_def upper_rune_def digit_rune_def)

lemma validKey_chars: "validKey k \<Longrightarrow> list_all (\<lambda>c. key_rune (of_char c)) k"
  using runes_all_ascii [of key_rune k, OF key_rune_ascii] by (simp add: validKey_def)

lemma validKey_iff [code]: "validKey k \<longleftrightarrow> k \<noteq> [] \<and> list_all (\<lambda>c. key_rune (of_char c)) k"
proof
  assume k: "k \<noteq> [] \<and> list_all (\<lambda>c. key_rune (of_char c)) k"
  then have "CHR ''/'' \<notin> set k"
    by (auto simp: list_all_iff key_rune_def lower_rune_def upper_rune_def digit_rune_def)
  with k show "validKey k"
    using runes_all_ascii [of key_rune k, OF key_rune_ascii] filepath_Base_no_slash [of k]
    by (simp add: validKey_def)
qed (use validKey_chars in \<open>simp add: validKey_def\<close>)

lemma temp_name_invalid: "\<not> validKey (temp_name d)"
  using validKey_chars [of "temp_name d"]
  by (auto simp: temp_name_def key_rune_def lower_rune_def upper_rune_def digit_rune_def)

lemma temp_name_fresh: "al_get d (temp_name d) = None"
proof -
  have "length (fst p) \<le> foldr (\<lambda>p n. max (length (fst p)) n) d 0" if "p \<in> set d"
    for p :: "string \<times> bytes" and d
    using that by (induction d) (auto simp: le_max_iff_disj)
  then have "length k \<le> foldr (\<lambda>p n. max (length (fst p)) n) d 0" if "k \<in> set (al_keys d)" for k
    using that by (auto simp: al_keys_map)
  then have "temp_name d \<notin> set (al_keys d)" by (force simp: temp_name_def)
  then show ?thesis by (simp add: al_get_None_iff)
qed

lemma fs_same_refl [simp]: "fs_same w w"
  by (simp add: fs_same_def)

lemma fs_same_trans: "fs_same w w1 \<Longrightarrow> fs_same w1 w2 \<Longrightarrow> fs_same w w2"
  by (simp add: fs_same_def)

lemma fs_same_tick [simp]: "fs_same w (w\<lparr>w_tick := t\<rparr>)"
  by (simp add: fs_same_def fs_blobs_def fs_frame_def fun_eq_iff)

lemma fs_same_set: "\<not> validKey k \<Longrightarrow> fs_same w (w\<lparr>w_tick := t, w_dir := al_set k d (w_dir w)\<rparr>)"
  by (auto simp: fs_same_def fs_blobs_def fs_frame_def fun_eq_iff)

lemma fs_same_del: "\<not> validKey k \<Longrightarrow> fs_same w (w\<lparr>w_tick := t, w_dir := al_del k (w_dir w)\<rparr>)"
  by (auto simp: fs_same_def fs_blobs_def fs_frame_def fun_eq_iff)

lemma ctx_Err_fs_same: "ctx_Err c w = (e, w') \<Longrightarrow> fs_same w w' \<and> w_dir w' = w_dir w"
  by (auto simp: ctx_Err_def env_next_def split: if_splits)

lemma os_idle_same:
  "os_Sync w = (r, w') \<Longrightarrow> fs_same w w' \<and> w_dir w' = w_dir w"
  "os_Close w = (r, w') \<Longrightarrow> fs_same w w' \<and> w_dir w' = w_dir w"
  "os_Stat w = (r, w') \<Longrightarrow> fs_same w w' \<and> w_dir w' = w_dir w"
  by (auto simp: os_Sync_def os_Close_def os_Stat_def sys_call_def env_next_def split: fault.splits)

lemma os_append_same:
  "\<not> validKey k \<Longrightarrow> os_append k data w = (r, w') \<Longrightarrow>
   fs_same w w' \<and> (\<forall>u. r = Inr u \<longrightarrow> w_dir w' =
     al_set k ((case al_get (w_dir w) k of None \<Rightarrow> [] | Some old \<Rightarrow> old) @ data) (w_dir w))"
  by (auto simp: os_append_def env_call_def env_next_def fs_same_set split: fault.splits)

lemma copy_loop_spec:
  "copy_loop c k data err w = (r, w') \<Longrightarrow> \<not> validKey k \<Longrightarrow>
   fs_same w w' \<and> (\<forall>u. r = Inr u \<longrightarrow> err = None \<and>
     (\<forall>old. al_get (w_dir w) k = Some old \<longrightarrow> al_get (w_dir w') k = Some (old @ data)))"
proof (induction c k data err w arbitrary: r w' rule: copy_loop.induct)
  case (1 c k data err w)
  obtain e w1 where ctx: "ctx_Err c w = (e, w1)" by fastforce
  note same1 = ctx_Err_fs_same [OF ctx]
  show ?case
  proof (cases "e = None \<and> data \<noteq> []")
    case False
    with "1.prems" ctx same1 show ?thesis
      by (auto simp: copy_loop.simps [of c k data err w] split: option.splits if_splits)
  next
    case True
    obtain r1 w2 where app: "os_append k (take 32768 data) w1 = (r1, w2)" by fastforce
    note same2 = os_append_same [OF "1.prems"(2) app]
    show ?thesis
    proof (cases r1)
      case (Inl e1)
      with True ctx app "1.prems" same1 same2 show ?thesis
        by (auto simp: copy_loop.simps [of c k data err w] intro: fs_same_trans)
    next
      case (Inr u)
      with True ctx app "1.prems"(1) have rest: "copy_loop c k (drop 32768 data) err w2 = (r, w')"
        by (simp add: copy_loop.simps [of c k data err w])
      have IH: "fs_same w2 w' \<and> (\<forall>u. r = Inr u \<longrightarrow> err = None \<and>
          (\<forall>old. al_get (w_dir w2) k = Some old \<longrightarrow>
             al_get (w_dir w') k = Some (old @ drop 32768 data)))"
        using "1.IH" [OF ctx [symmetric] _ _ app [symmetric] _ rest "1.prems"(2)] True Inr by simp
      have "al_get (w_dir w2) k = Some (old @ take 32768 data)" if "al_get (w_dir w) k = Some old" for old
        using same1 same2 Inr that by simp
      with IH same1 same2 show ?thesis by (auto intro: fs_same_trans)
    qed
  qed
qed

lemma fs_blobs_set [simp]:
  "validKey k \<Longrightarrow> fs_blobs (w\<lparr>w_tick := t, w_dir := al_set k d (w_dir w)\<rparr>) = (fs_blobs w)(k \<mapsto> d)"
  by (auto simp: fs_blobs_def fun_eq_iff)

lemma fs_blobs_del [simp]:
  "fs_blobs (w\<lparr>w_tick := t, w_dir := al_del k (w_dir w)\<rparr>) = (fs_blobs w)(k := None)"
  by (auto simp: fs_blobs_def fun_eq_iff)

text \<open>Publishing: the link is the only step that touches an object, and it is the last.\<close>

lemma fs_publish_spec:
  assumes "fs_publish c tmp k src w = (r, w')" "\<not> validKey tmp" "validKey k"
    "al_get (w_dir w) tmp = Some []"
  shows "fs_frame w' = fs_frame w \<and>
    (case r of
       Inl e \<Rightarrow> fs_blobs w' = fs_blobs w
     | Inr n \<Rightarrow> n = int (length (r_data src)) \<and> r_err src = None \<and> fs_blobs w k = None \<and>
         fs_blobs w' = (fs_blobs w)(k \<mapsto> r_data src))"
proof -
  obtain r1 w1 where copy: "copy_loop c tmp (r_data src) (r_err src) w = (r1, w1)" by fastforce
  obtain r2 w2 where sync: "os_Sync w1 = (r2, w2)" by fastforce
  obtain r3 w3 where close: "os_Close w2 = (r3, w3)" by fastforce
  obtain r4 w4 where link: "os_Link tmp k w3 = (r4, w4)" by fastforce
  note spec = copy_loop_spec [OF copy assms(2)]
  have same2: "fs_same w1 w2 \<and> w_dir w2 = w_dir w1" and same3: "fs_same w2 w3 \<and> w_dir w3 = w_dir w2"
    using os_idle_same sync close by blast+
  show ?thesis
  proof (cases "r1 \<noteq> Inr () \<or> r2 \<noteq> Inr () \<or> r3 \<noteq> Inr ()")
    case True
    then have "(\<exists>e. r = Inl e) \<and> (w' = w1 \<or> w' = w2 \<or> w' = w3)"
      using assms(1) copy sync close
      by (cases r1; cases r2; cases r3) (auto simp: fs_publish_def)
    with spec same2 same3 show ?thesis
      by (auto simp: fs_same_def)
  next
    case False
    with assms(1) copy sync close link
    have res: "(r, w') = (case r4 of Inl e \<Rightarrow> (Inl (Wrapped ''commit blob'' e), w4)
        | Inr _ \<Rightarrow> (Inr (int (length (r_data src))), w4))"
      by (auto simp: fs_publish_def split: sum.splits)
    have data: "al_get (w_dir w3) tmp = Some (r_data src)" "r_err src = None"
      using spec False same2 same3 assms(4) by auto
    have same: "fs_blobs w3 = fs_blobs w" "fs_frame w3 = fs_frame w"
      using spec same2 same3 by (simp_all add: fs_same_def)
    have "case r4 of Inl e \<Rightarrow> fs_same w3 w4
        | Inr _ \<Rightarrow> fs_blobs w3 k = None \<and> fs_blobs w4 = (fs_blobs w3)(k \<mapsto> r_data src) \<and>
            fs_frame w4 = fs_frame w3"
      using link data assms(3)
      by (auto simp: os_Link_def sys_call_def env_next_def fs_blobs_def fs_frame_def
          split: fault.splits option.splits)
    with res same data show ?thesis by (auto simp: fs_same_def split: sum.splits)
  qed
qed

lemma fs_Put_spec:
  assumes "fs_Put c k source w = (r, w')"
  shows "fs_frame w' = fs_frame w \<and>
    (case r of
       Inl e \<Rightarrow> fs_blobs w' = fs_blobs w
     | Inr n \<Rightarrow> \<exists>src. source = Some src \<and> n = int (length (r_data src)) \<and> r_err src = None \<and>
         fs_blobs w k = None \<and> fs_blobs w' = (fs_blobs w)(k \<mapsto> r_data src))"
proof (cases "\<exists>src w1 tmp w2. source = Some src \<and> validKey k \<and> ctx_Err c w = (None, w1) \<and>
    os_CreateTemp w1 = (Inr tmp, w2)")
  case False
  have "(\<exists>e. os_CreateTemp w1 = (Inl e, w2)) \<Longrightarrow> fs_same w1 w2" for w1 w2
    by (auto simp: os_CreateTemp_def sys_call_def env_next_def split: fault.splits)
  moreover have "\<exists>e. r = Inl e \<and> (w' = w \<or> (\<exists>e'. ctx_Err c w = (e', w')) \<or>
      (\<exists>w1 e1. ctx_Err c w = (None, w1) \<and> os_CreateTemp w1 = (Inl e1, w')))"
    using False assms
    by (auto simp: fs_Put_def and_then_def map_err_def split: option.splits if_splits prod.splits sum.splits)
  ultimately show ?thesis using ctx_Err_fs_same by (fastforce simp: fs_same_def)
next
  case True
  then obtain src w1 tmp w2 where start: "source = Some src" "validKey k" "ctx_Err c w = (None, w1)"
    "os_CreateTemp w1 = (Inr tmp, w2)" by blast
  obtain r3 w3 where pub: "fs_publish c tmp k src w2 = (r3, w3)" by fastforce
  obtain r4 w4 where close: "os_Close w3 = (r4, w4)" by fastforce
  obtain r5 w5 where remove: "os_Remove tmp w4 = (r5, w5)" by fastforce
  have run: "r = r3" "w' = w5"
    using assms start pub close remove by (simp_all add: fs_Put_def)
  have tmp: "tmp = temp_name (w_dir w1)" "al_get (w_dir w2) tmp = Some []" "fs_same w1 w2"
    using start(4) temp_name_invalid
    by (auto simp: os_CreateTemp_def sys_call_def env_next_def fs_same_set split: fault.splits)
  then have inv: "\<not> validKey tmp" by (simp add: temp_name_invalid)
  have "fs_same w w2" using ctx_Err_fs_same [OF start(3)] tmp(3) fs_same_trans by blast
  moreover have "fs_same w3 w5"
    using os_idle_same(2) [OF close] remove inv fs_same_del [of tmp w4]
    by (auto simp: os_Remove_def sys_call_def env_next_def intro: fs_same_trans
        split: fault.splits option.splits)
  moreover note fs_publish_spec [OF pub inv start(2) tmp(2)]
  ultimately show ?thesis unfolding run using start(1)
    by (auto simp: fs_same_def split: sum.splits)
qed

lemma ctx_goerr_not_exist:
  "\<not> errors_Is (ctx_goerr e) OsErrNotExist" "\<not> errors_Is (ctx_goerr e) BlobErrNotFound"
  by (cases e; simp)+

lemma io_not_exist: "\<not> errors_Is (io_goerr e) OsErrNotExist" "\<not> errors_Is (io_goerr e) BlobErrNotFound"
  by (cases e; simp add: ctx_goerr_not_exist)+

lemma ctx_Err_not_found: "ctx_Err c w = (Some e, w') \<Longrightarrow> \<not> errors_Is e BlobErrNotFound"
  by (auto simp: ctx_Err_def env_next_def ctx_goerr_not_exist split: if_splits)

lemma fs_Open_spec:
  assumes "fs_Open c k w = (r, w')"
  shows "fs_same w w' \<and>
    (case r of
       Inl e \<Rightarrow> errors_Is e BlobErrNotFound \<longrightarrow> fs_blobs w k = None
     | Inr ob \<Rightarrow> \<exists>data. fs_blobs w k = Some data \<and>
         ob = \<lparr>o_Body = Some \<lparr>r_data = data, r_err = None\<rparr>, o_Size = int (length data)\<rparr>)"
proof (cases "validKey k")
  case False
  with assms show ?thesis by (auto simp: fs_Open_def)
next
  case valid: True
  obtain e w1 where ctx: "ctx_Err c w = (e, w1)" by fastforce
  note same1 = ctx_Err_fs_same [OF ctx]
  show ?thesis
  proof (cases e)
    case (Some x)
    with assms valid ctx same1 ctx_Err_not_found show ?thesis by (auto simp: fs_Open_def)
  next
    case None
    obtain r2 w2 where op: "os_Open k w1 = (r2, w2)" by fastforce
    have same2: "fs_same w1 w2" and found: "case r2 of Inr d \<Rightarrow> al_get (w_dir w1) k = Some d
        | Inl e \<Rightarrow> (errors_Is e OsErrNotExist \<longrightarrow> al_get (w_dir w1) k = None) \<and> \<not> errors_Is e BlobErrNotFound"
      using op by (auto simp: os_Open_def sys_call_def env_next_def io_not_exist
          split: fault.splits option.splits)
    obtain r3 w3 where stat: "os_Stat w2 = (r3, w3)" by fastforce
    have r3: "\<not> errors_Is e BlobErrNotFound" if "r3 = Inl e" for e
      using stat that by (auto simp: os_Stat_def sys_call_def env_next_def io_not_exist split: fault.splits)
    obtain r4 w4 where close: "os_Close w3 = (r4, w4)" by fastforce
    note same = same1 same2 os_idle_same(3) [OF stat] os_idle_same(2) [OF close]
    from assms valid ctx None op stat close same found r3 show ?thesis
      by (auto simp: fs_Open_def fs_blobs_def intro: fs_same_trans split: sum.splits if_splits)
  qed
qed

lemma fs_Delete_spec:
  assumes "fs_Delete c k w = (r, w')"
  shows "fs_frame w' = fs_frame w \<and>
    (case r of
       Inl e \<Rightarrow> fs_blobs w' = fs_blobs w \<and> (errors_Is e BlobErrNotFound \<longrightarrow> fs_blobs w k = None)
     | Inr _ \<Rightarrow> fs_blobs w k \<noteq> None \<and> fs_blobs w' = (fs_blobs w)(k := None))"
proof (cases "validKey k")
  case False
  with assms show ?thesis by (auto simp: fs_Delete_def)
next
  case valid: True
  obtain e w1 where ctx: "ctx_Err c w = (e, w1)" by fastforce
  note same1 = ctx_Err_fs_same [OF ctx]
  show ?thesis
  proof (cases e)
    case (Some x)
    with assms valid ctx same1 ctx_Err_not_found show ?thesis by (auto simp: fs_Delete_def fs_same_def)
  next
    case None
    obtain r2 w2 where op: "os_Remove k w1 = (r2, w2)" by fastforce
    have "fs_frame w2 = fs_frame w1 \<and> (case r2 of
          Inl e \<Rightarrow> fs_blobs w2 = fs_blobs w1 \<and> \<not> errors_Is e BlobErrNotFound \<and>
            (errors_Is e OsErrNotExist \<longrightarrow> fs_blobs w1 k = None)
        | Inr _ \<Rightarrow> fs_blobs w1 k \<noteq> None \<and> fs_blobs w2 = (fs_blobs w1)(k := None))"
      using op valid fs_same_tick [of w1 "Suc (w_tick w1)"]
      by (auto simp: os_Remove_def sys_call_def env_next_def io_not_exist fs_same_def fs_frame_def
          fs_blobs_def [of w1] split: fault.splits option.splits)
    with assms valid ctx None op same1 show ?thesis
      by (auto simp: fs_Delete_def fs_same_def split: sum.splits if_splits)
  qed
qed

interpretation fs: blob_port file_storage fs_blobs fs_frame
proof
  fix c k src w n w' assume "bs_Put file_storage c k src w = (Inr n, w')"
  then show "\<exists>r. src = Some r \<and> r_err r = None \<and> n = int (length (r_data r)) \<and>
      fs_blobs w k = None \<and> fs_blobs w' = (fs_blobs w)(k \<mapsto> r_data r)"
    using fs_Put_spec by (fastforce simp: file_storage_def)
qed (fastforce simp: file_storage_def fs_same_def
      dest: fs_Put_spec fs_Open_spec fs_Delete_spec split: sum.splits)+

subsection \<open>Nothing fails\<close>

lemma calm_os_append:
  "calm w \<Longrightarrow> os_append k data w = (Inr (), w\<lparr>w_tick := Suc (w_tick w), w_dir :=
     al_set k ((case al_get (w_dir w) k of None \<Rightarrow> [] | Some old \<Rightarrow> old) @ data) (w_dir w)\<rparr>)"
  by (simp add: os_append_def calm_env_call)

lemma calm_copy_loop:
  "calm w \<Longrightarrow> \<exists>t d. copy_loop c k data None w = (Inr (), w\<lparr>w_tick := t, w_dir := d\<rparr>)"
proof (induction c k data "None :: goerr option" w rule: copy_loop.induct)
  case (1 c k data w)
  obtain t where ctx: "ctx_Err c w = (None, w\<lparr>w_tick := t\<rparr>)" using calm_ctx_Err [OF "1.prems"] ..
  let ?w1 = "w\<lparr>w_tick := t\<rparr>"
  show ?case
  proof (cases "data = []")
    case True
    with ctx have "copy_loop c k data None w = (Inr (), w\<lparr>w_tick := t\<rparr>)"
      by (simp add: copy_loop.simps [of c k "[]" None w])
    moreover have "w\<lparr>w_tick := t\<rparr> = w\<lparr>w_tick := t, w_dir := w_dir w\<rparr>" by simp
    ultimately show ?thesis by metis
  next
    case False
    have calm1: "calm ?w1" using "1.prems" by simp
    obtain w2 where app: "os_append k (take 32768 data) ?w1 = (Inr (), w2)"
      and w2: "\<exists>t d. w2 = w\<lparr>w_tick := t, w_dir := d\<rparr>"
      using calm_os_append [OF calm1, of k "take 32768 data"] by auto
    from w2 "1.prems" have "calm w2" by auto
    from "1.hyps" [OF ctx [symmetric] refl False app [symmetric] refl this] w2
    obtain t' d' where "copy_loop c k (drop 32768 data) None w2 = (Inr (), w\<lparr>w_tick := t', w_dir := d'\<rparr>)"
      by auto
    with False ctx app show ?thesis by (auto simp: copy_loop.simps [of c k data None w])
  qed
qed

lemma calm_fs_Put:
  assumes "calm w" "validKey k" "fs_blobs w k = None" "r_err src = None"
  shows "\<exists>w'. fs_Put c k (Some src) w = (Inr (int (length (r_data src))), w') \<and> calm w'"
proof -
  obtain t where ctx: "ctx_Err c w = (None, w\<lparr>w_tick := t\<rparr>)" using calm_ctx_Err [OF assms(1)] ..
  let ?tmp = "temp_name (w_dir w)"
  let ?w2 = "w\<lparr>w_tick := Suc t, w_dir := al_set ?tmp [] (w_dir w)\<rparr>"
  have create: "os_CreateTemp (w\<lparr>w_tick := t\<rparr>) = (Inr ?tmp, ?w2)"
    using assms(1) by (simp add: os_CreateTemp_def calm_sys_call)
  have calm2: "calm ?w2" using assms(1) by simp
  obtain t3 d3 where copy: "copy_loop c ?tmp (r_data src) None ?w2 = (Inr (), ?w2\<lparr>w_tick := t3, w_dir := d3\<rparr>)"
    using calm_copy_loop [OF calm2] by blast
  let ?w3 = "?w2\<lparr>w_tick := t3, w_dir := d3\<rparr>"
  have "al_get d3 ?tmp = Some (r_data src)" "fs_same ?w2 ?w3"
    using copy_loop_spec [OF copy temp_name_invalid] by simp_all
  moreover have "al_get d3 k = None"
  proof -
    have "fs_blobs ?w3 k = fs_blobs ?w2 k" using calculation(2) by (simp add: fs_same_def)
    moreover have "?tmp \<noteq> k" using assms(2) temp_name_invalid by blast
    ultimately show ?thesis using assms(2,3) by (simp add: fs_blobs_def)
  qed
  ultimately have "\<exists>w4. fs_publish c ?tmp k src ?w2 = (Inr (int (length (r_data src))), w4) \<and> calm w4"
    using copy assms(1,4)
    by (simp add: fs_publish_def os_Sync_def os_Close_def os_Link_def calm_sys_call)
  then obtain w4 where pub: "fs_publish c ?tmp k src ?w2 = (Inr (int (length (r_data src))), w4)"
    and calm4: "calm w4" by blast
  obtain r5 w5 where close: "os_Close w4 = (r5, w5)" by fastforce
  obtain r6 w6 where remove: "os_Remove ?tmp w5 = (r6, w6)" by fastforce
  have "calm w6" using calm4 close remove
    by (auto simp: os_Close_def os_Remove_def calm_sys_call split: option.splits)
  with ctx create pub close remove assms(2) show ?thesis by (simp add: fs_Put_def)
qed

lemma calm_fs_Open:
  assumes "calm w" "fs_blobs w k = Some data"
  shows "\<exists>w'. fs_Open c k w = (Inr \<lparr>o_Body = Some \<lparr>r_data = data, r_err = None\<rparr>,
    o_Size = int (length data)\<rparr>, w') \<and> calm w'"
proof -
  obtain t where "ctx_Err c w = (None, w\<lparr>w_tick := t\<rparr>)" using calm_ctx_Err [OF assms(1)] ..
  with assms show ?thesis
    by (auto simp: fs_Open_def fs_blobs_def os_Open_def os_Stat_def calm_sys_call split: if_splits)
qed

lemma calm_fs_Delete:
  assumes "calm w" "fs_blobs w k = Some data"
  shows "\<exists>w'. fs_Delete c k w = (Inr (), w') \<and> calm w'"
proof -
  obtain t where "ctx_Err c w = (None, w\<lparr>w_tick := t\<rparr>)" using calm_ctx_Err [OF assms(1)] ..
  with assms show ?thesis
    by (auto simp: fs_Delete_def fs_blobs_def os_Remove_def calm_sys_call split: if_splits)
qed

lemma calm_fs_Open_missing:
  assumes "calm w" "validKey k" "fs_blobs w k = None"
  shows "\<exists>w'. fs_Open c k w = (Inl (Sentinel BlobErrNotFound), w') \<and> calm w'"
proof -
  obtain t where "ctx_Err c w = (None, w\<lparr>w_tick := t\<rparr>)" using calm_ctx_Err [OF assms(1)] ..
  with assms show ?thesis
    by (auto simp: fs_Open_def fs_blobs_def os_Open_def calm_sys_call)
qed

subsection \<open>Properties\<close>

text \<open>C25: \<open>Put\<close> publishes atomically, whatever fails and whenever: on success the object holds
  exactly the bytes the reader delivered, there was no object under the key before, the reader
  ended without an error and the size returned is the number of bytes; on any error no object
  has appeared, changed or vanished. No other part of the state is touched.\<close>

theorem fs_Put_atomic:
  "case fs_Put c k source w of
     (Inl e, w') \<Rightarrow> fs_blobs w' = fs_blobs w \<and> fs_frame w' = fs_frame w
   | (Inr n, w') \<Rightarrow> \<exists>src. source = Some src \<and> r_err src = None \<and> n = int (length (r_data src)) \<and>
       fs_blobs w k = None \<and> fs_blobs w' = (fs_blobs w)(k \<mapsto> r_data src) \<and> fs_frame w' = fs_frame w"
proof (cases "fs_Put c k source w")
  case (Pair r w')
  from fs_Put_spec [OF this] Pair show ?thesis by (auto split: sum.splits)
qed

text \<open>C28: A blob survives the round trip: when no system call fails, an object stored under a
  free valid key can be opened with exactly its bytes and size, a second \<open>Put\<close> to the key is
  refused, and after \<open>Delete\<close> the key is reported as not found.\<close>

theorem fs_roundtrip:
  assumes "calm w" "validKey k" "fs_blobs w k = None" "r_err src = None"
  shows "\<exists>w1 w2 w3 w4 w5.
    fs_Put c1 k (Some src) w = (Inr (int (length (r_data src))), w1) \<and>
    fs_Open c2 k w1 = (Inr \<lparr>o_Body = Some src, o_Size = int (length (r_data src))\<rparr>, w2) \<and>
    (\<exists>e. fs_Put c3 k (Some other) w2 = (Inl e, w3)) \<and>
    fs_Delete c4 k w3 = (Inr (), w4) \<and>
    fs_Open c5 k w4 = (Inl (Sentinel BlobErrNotFound), w5)"
proof -
  obtain w1 where put: "fs_Put c1 k (Some src) w = (Inr (int (length (r_data src))), w1)" "calm w1"
    using calm_fs_Put [OF assms] by blast
  have b1: "fs_blobs w1 k = Some (r_data src)" using fs_Put_spec [OF put(1)] by auto
  have src: "\<lparr>r_data = r_data src, r_err = None\<rparr> = src" using assms(4) by simp
  obtain w2 where op: "fs_Open c2 k w1 = (Inr \<lparr>o_Body = Some src, o_Size = int (length (r_data src))\<rparr>, w2)"
    "calm w2" using calm_fs_Open [OF put(2) b1] src by metis
  have b2: "fs_blobs w2 k = Some (r_data src)"
    using fs_Open_spec [OF op(1)] b1 by (simp add: fs_same_def)
  obtain r3 w3 where put2: "fs_Put c3 k (Some other) w2 = (r3, w3)" by fastforce
  from fs_Put_spec [OF put2] b2 obtain e where e: "r3 = Inl e" and b3: "fs_blobs w3 k = Some (r_data src)"
    by (auto split: sum.splits)
  have "calm w3" using fs_Put_spec [OF put2] op(2) by (auto simp: fs_frame_def calm_def)
  then obtain w4 where del: "fs_Delete c4 k w3 = (Inr (), w4)" "calm w4"
    using calm_fs_Delete [OF _ b3] by blast
  then have "fs_blobs w4 k = None" using fs_Delete_spec [OF del(1)] by auto
  then obtain w5 where "fs_Open c5 k w4 = (Inl (Sentinel BlobErrNotFound), w5)"
    using calm_fs_Open_missing [OF del(2) assms(2)] by blast
  with put op put2 e del show ?thesis by blast
qed

definition demo_world :: world where
  "demo_world = \<lparr>w_pg = demo_pg, w_env = calm_env 1800000000000000000, w_tick = 0, w_db = empty_db,
     w_tx = None, w_dir = []\<rparr>"

lemma calm_demo_world: "calm demo_world"
  by (simp add: calm_def demo_world_def calm_env_def)

lemma validKey_demo: "validKey ''Ab-_9''"
  by (simp add: validKey_iff key_rune_def lower_rune_def upper_rune_def digit_rune_def)

lemma fs_roundtrip_witness:
  "\<exists>w1 w2. fs_Put request_ctx ''Ab-_9'' (Some \<lparr>r_data = ''xyz'', r_err = None\<rparr>) demo_world = (Inr 3, w1) \<and>
     fs_Open request_ctx ''Ab-_9'' w1 =
       (Inr \<lparr>o_Body = Some \<lparr>r_data = ''xyz'', r_err = None\<rparr>, o_Size = 3\<rparr>, w2)"
proof -
  define src where "src = \<lparr>r_data = ''xyz'', r_err = None\<rparr>"
  have src: "r_err src = None" "int (length (r_data src)) = 3" by (simp_all add: src_def)
  have "fs_blobs demo_world ''Ab-_9'' = None" by (simp add: fs_blobs_def demo_world_def)
  from fs_roundtrip [OF calm_demo_world validKey_demo this src(1),
      of request_ctx request_ctx request_ctx src request_ctx request_ctx]
  show ?thesis unfolding src(2) unfolding src_def by blast
qed

end
