(* ===== verification/PgAuth.thy ===== *)
theory PgAuth
  imports AuthService PgSessions BlobStore
begin

text \<open>
  The authentication service on the PostgreSQL store, as \<open>cmd/server/main.go\<close> wires it: the
  random source is \<open>crypto/rand\<close>, the clock \<open>time.Now\<close>, and bcrypt draws a 16-byte salt. The
  lemmas of the service, proved from the contracts of its ports, become theorems about the
  tables.
\<close>

definition bcrypt_op :: "golib \<Rightarrow> bytes \<Rightarrow> int \<Rightarrow> (world, bytes) op" where
  "bcrypt_op L password cost =
     and_then (rand_Read 16) (\<lambda>salt.
       (case bcrypt_generate L password salt cost of Inl e \<Rightarrow> fail e | Inr h \<Rightarrow> ret h))"

definition pg_auth :: "golib \<Rightarrow> bytes \<Rightarrow> duration \<Rightarrow> int \<Rightarrow> world auth_service" where
  "pg_auth L digest ttl cost =
     \<lparr>as_users = pg_users, as_sessions = pg_sessions, as_adminDigest = digest, as_sessionTTL = ttl,
      as_passwordCost = cost, as_rand = rand_Read, as_now = time_Now, as_bcrypt = bcrypt_op L\<rparr>"

lemma pg_auth_simps [simp]:
  "as_adminDigest (pg_auth L digest ttl cost) = digest"
  "as_sessionTTL (pg_auth L digest ttl cost) = ttl" "as_passwordCost (pg_auth L digest ttl cost) = cost"
  by (simp_all add: pg_auth_def)

lemma newAuthService_pg:
  "newAuthService L (Some pg_users) (Some pg_sessions) cfg rand_Read time_Now (bcrypt_op L) = Inr A \<Longrightarrow>
   \<exists>cost. A = pg_auth L (sha256 L (ac_AdminToken cfg)) (ac_SessionTTL cfg) cost \<and>
     bcrypt_MinCost \<le> cost \<and> cost \<le> bcrypt_MaxCost"
  by (auto simp: newAuthService_def pg_auth_def Let_def split: if_splits)

subsection \<open>The environment of the service\<close>

lemma rand_Read_same: "rand_Read n w = (r, w') \<Longrightarrow> w' = w\<lparr>w_tick := Suc (w_tick w)\<rparr>"
  by (auto simp: rand_Read_def env_call_def env_next_def split: fault.splits)

lemma wf_in_tick [simp]: "wf_in tx (w\<lparr>w_tick := t\<rparr>) = wf_in tx w"
  by (simp add: wf_in_def)

lemma view_tick [simp]:
  "pg_accounts (w\<lparr>w_tick := t\<rparr>) = pg_accounts w" "pg_session_view (w\<lparr>w_tick := t\<rparr>) = pg_session_view w"
  by (simp_all add: pg_accounts_cong [of "w\<lparr>w_tick := t\<rparr>" w] pg_session_view_cong [of "w\<lparr>w_tick := t\<rparr>" w])

lemma bcrypt_op_same: "bcrypt_op L p k w = (r, w') \<Longrightarrow> w' = w\<lparr>w_tick := Suc (w_tick w)\<rparr>"
  using rand_Read_same
  by (auto simp: bcrypt_op_def and_then_def split: prod.splits sum.splits)

lemma time_Now_same: "time_Now w = (t, w') \<Longrightarrow> w' = w\<lparr>w_tick := Suc (w_tick w)\<rparr>"
  by (auto simp: time_Now_def env_next_def)

text \<open>Every call to the environment takes a step of its script, and the script stays what it is.\<close>

definition pg_passed :: "world \<Rightarrow> world \<Rightarrow> bool" where
  "pg_passed w w' \<longleftrightarrow> w_env w' = w_env w \<and> w_tick w \<le> w_tick w'"

lemma pg_passed_update [simp]:
  "pg_passed w0 w \<Longrightarrow> pg_passed w0 (w\<lparr>w_tick := Suc (w_tick w)\<rparr>)"
  "pg_passed w0 (w\<lparr>w_db := d\<rparr>) = pg_passed w0 w" "pg_passed w0 (w\<lparr>w_tx := x\<rparr>) = pg_passed w0 w"
  by (auto simp: pg_passed_def)

lemma keeps_pg_exec_passed [keeps_intro]: "keeps (pg_passed w0) (pg_exec c f)"
  unfolding pg_exec_def
  by (intro keeps_env_call keepsI) (auto split: if_splits option.splits prod.splits)

lemma keeps_rand_passed [keeps_intro]: "keeps (pg_passed w0) (rand_Read n)"
  by (rule keepsI) (auto dest!: rand_Read_same)

lemma keeps_uuid_passed [keeps_intro]: "keeps (pg_passed w0) uuid_NewString"
  unfolding uuid_NewString_def by (intro keeps_intro)

lemma keeps_ports_passed: "keeps (pg_passed w0) (pg_ByLogin c l)" "keeps (pg_passed w0) (pg_CreateSession c i h x)"
  unfolding pg_ByLogin_def pg_CreateSession_def by (intro keeps_intro)+

lemma keeps_passed: "keeps (pg_passed w) m \<Longrightarrow> m w = (r, w') \<Longrightarrow> pg_passed w w'"
  by (drule keepsD) (auto simp: pg_passed_def)

interpretation pg_auth_env: auth_env pg_users "wf_in False" pg_accounts pg_sessions pg_session_view
    pg_micros rand_Read time_Now "bcrypt_op L" pg_passed for L
proof unfold_locales
  show "ur_ByLogin pg_users c l w = (r, w') \<Longrightarrow> pg_passed w w'" for c l w r w'
    by (rule keeps_passed [OF keeps_ports_passed(1)]) (simp add: pg_users_def)
  show "sr_Create pg_sessions c i h x w = (r, w') \<Longrightarrow> pg_passed w w'" for c i h x w r w'
    by (rule keeps_passed [OF keeps_ports_passed(2)]) (simp add: pg_sessions_def)
qed (auto simp: pg_passed_def dest!: rand_Read_same bcrypt_op_same time_Now_same)

lemma runs_on_pg_auth: "pg_auth_env.runs_on L (pg_auth L digest ttl cost)"
  by (simp add: pg_auth_env.runs_on_def pg_auth_def)

subsection \<open>Authorization decides exactly\<close>

lemma calm_select:
  "calm w \<Longrightarrow> \<not> c_tx c \<Longrightarrow> pg_exec c (select q) w =
    (q (w_pg w) (es_dbnow (w_env w (w_tick w))) (w_db w), w\<lparr>w_tick := Suc (w_tick w)\<rparr>)"
  by (simp add: pg_exec_def calm_env_call select_def)

lemma authorize_calm:
  assumes "calm w" "wf_in False w" "\<not> c_tx c" "token \<noteq> []" "sha256 L token \<noteq> []"
    "es_clock (w_env w (w_tick w)) \<noteq> zero_time"
  shows "fst (auth_Authorize L (pg_auth L digest ttl cost) c token w) =
    (case pg_session_view w (sha256 L token) of
       Some (s, u) \<Rightarrow> if live_session pg_micros (es_clock (w_env w (w_tick w))) s then Inr u
                     else Inl (Sentinel ErrUnauthorized)
     | None \<Rightarrow> Inl (Sentinel ErrUnauthorized))"
proof -
  let ?now = "es_clock (w_env w (w_tick w))" and ?w1 = "w\<lparr>w_tick := Suc (w_tick w)\<rparr>"
  let ?h = "sha256 L token"
  have wfs: "wf_sessions (w_db w)" using wf_in_sessions [OF assms(2)] by simp
  have clk: "time_Now w = (?now, ?w1)" by (simp add: time_Now_def env_next_def)
  have calm1: "calm ?w1" using assms(1) by simp
  have live: "live_session pg_micros ?now (session_of_row q) = session_live (pg_micros ?now) q" for q
    by (simp add: live_session_def session_live_def session_of_row_def)
  have run: "auth_Authorize L (pg_auth L digest ttl cost) c token w =
      map_err (session_err ''authorize session'') (and_then (map_err (classify ''find session'')
        (pg_exec c (select_session ?h ?now))) (\<lambda>(s, user). ret user)) ?w1"
    using assms(4-6) clk
    by (simp add: auth_Authorize_def pg_auth_def pg_sessions_def pg_ByTokenHash_def tokenDigest_def)
  show ?thesis
  proof (cases "find_session ?h (w_db w)")
    case None
    then show ?thesis
      by (simp add: run select_session_def calm_select [OF calm1 assms(3)] select_session_spec [OF wfs]
          map_err_def and_then_def session_err_def pg_session_view_def del: not_None_eq)
  next
    case (Some q)
    obtain u where "user_by_id (rs_user q) (w_db w) = Some u"
      using session_user_exists [OF wfs Some] by blast
    with Some show ?thesis
      by (simp add: run select_session_def calm_select [OF calm1 assms(3)] select_session_spec [OF wfs]
          map_err_def and_then_def session_err_def pg_session_view_def live del: not_None_eq)
  qed
qed

subsection \<open>Properties\<close>

text \<open>C36: \<open>Register\<close> creates an account only for the administrator's token and valid
  credentials, only under a login that is free, with the hash that bcrypt made of the password, and
  never touches another account or a session. This holds on the paths of failure too: at worst an
  account created under all these conditions exists although an error was returned.\<close>

theorem register_creates_one_account:
  assumes "wf_in False w" "\<not> c_tx c"
  shows "case auth_Register L (pg_auth L digest ttl cost) c token login password w of
    (Inr u, w') \<Rightarrow> sha256 L token = digest \<and> validLogin login \<and> validPassword L password \<and>
      pg_accounts w login = None \<and> u_Login u = login \<and>
      (\<exists>h. fst (bcrypt_op L password cost w) = Inr h \<and> pg_accounts w' = (pg_accounts w)(login \<mapsto> (u, h))) \<and>
      pg_session_view w' = pg_session_view w \<and> wf_in False w'
  | (Inl e, w') \<Rightarrow> (pg_accounts w' = pg_accounts w \<or>
      sha256 L token = digest \<and> validLogin login \<and> validPassword L password \<and> pg_accounts w login = None \<and>
      (\<exists>u h. u_Login u = login \<and> fst (bcrypt_op L password cost w) = Inr h \<and>
        pg_accounts w' = (pg_accounts w)(login \<mapsto> (u, h)))) \<and>
      pg_session_view w' = pg_session_view w \<and> wf_in False w'"
proof (cases "auth_Register L (pg_auth L digest ttl cost) c token login password w")
  case (Pair r w')
  from pg_auth_env.register_cases [OF runs_on_pg_auth assms this] show ?thesis
    by (cases r) (auto simp: Pair)
qed

text \<open>C37: \<open>Authenticate\<close> returns a token only to someone who knows the password of an existing
  account. The token is then the key of a new session of that account's user, and no other session
  has changed. The new session is not revoked and expires the configured time to live after a moment
  during the call, as the clock read it.\<close>

theorem authenticate_opens_session:
  assumes "wf_in False w" "\<not> c_tx c"
    "auth_Authenticate L (pg_auth L digest ttl cost) c login password w = (Inr token, w')"
  shows "\<exists>u h s k. pg_accounts w login = Some (u, h) \<and> bcrypt_compare L h password = None \<and>
    pg_session_view w (sha256 L token) = None \<and> s_RevokedAt s = None \<and>
    w_tick w \<le> k \<and> k < w_tick w' \<and> s_ExpiresAt s = pg_micros (es_clock (w_env w k) + ttl) \<and>
    pg_session_view w' = (pg_session_view w)(sha256 L token \<mapsto> (s, u)) \<and>
    pg_accounts w' = pg_accounts w"
proof -
  obtain u h s now where auth: "pg_accounts w login = Some (u, h)" "bcrypt_compare L h password = None"
      "pg_session_view w (sha256 L token) = None" "s_RevokedAt s = None" "s_ExpiresAt s = pg_micros (now + ttl)"
      "pg_session_view w' = (pg_session_view w)(sha256 L token \<mapsto> (s, u))" "pg_accounts w' = pg_accounts w"
    and read: "pg_auth_env.read_between w w' now"
    using pg_auth_env.authenticate_cases [OF runs_on_pg_auth assms] by (auto simp: tokenDigest_def)
  from read obtain k where "w_tick w \<le> k" "k < w_tick w'" "now = es_clock (w_env w k)"
    by (auto simp: pg_auth_env.read_between_def pg_passed_def time_Now_def env_next_def)
  with auth show ?thesis by blast
qed

text \<open>C3: When nothing fails, \<open>Authorize\<close> accepts a token exactly when its session exists, has
  not been revoked and has not expired, and then returns the session's user; every other token
  is answered with the unauthorized error.\<close>

theorem authorize_exact:
  assumes "calm w" "wf_in False w" "\<not> c_tx c" "token \<noteq> []" "sha256 L token \<noteq> []"
    "es_clock (w_env w (w_tick w)) \<noteq> zero_time"
  shows "fst (auth_Authorize L (pg_auth L digest ttl cost) c token w) =
    (case pg_session_view w (sha256 L token) of
       Some (s, u) \<Rightarrow>
         if s_RevokedAt s = None \<and> pg_micros (es_clock (w_env w (w_tick w))) < s_ExpiresAt s
         then Inr u else Inl (Sentinel ErrUnauthorized)
     | None \<Rightarrow> Inl (Sentinel ErrUnauthorized))"
  using authorize_calm [OF assms] by (simp add: live_session_def split: option.splits)

text \<open>C1: Logging out is final: once \<open>Logout\<close> has returned without error, the token is never
  accepted again, whatever registrations, logins, logouts and authorizations follow and
  whatever fails among them.\<close>

theorem logout_final:
  assumes "wf_in False w" "\<not> c_tx c" "\<not> c_tx c'"
    "auth_Logout L (pg_auth L digest ttl cost) c token w = (Inr (), w1)"
    "(auth_step L (pg_auth L digest ttl cost))\<^sup>*\<^sup>* w1 w2"
  shows "\<exists>e w3. auth_Authorize L (pg_auth L digest ttl cost) c' token w2 = (Inl e, w3)"
proof -
  obtain r w3 where run: "auth_Authorize L (pg_auth L digest ttl cost) c' token w2 = (r, w3)" by fastforce
  from pg_auth_env.logout_is_final [OF runs_on_pg_auth assms(1,2,4,5,3) this] run show ?thesis
    by auto
qed

subsection \<open>Witnesses\<close>

definition demo_auth :: "world auth_service" where
  "demo_auth = pg_auth demo_lib ''#admin'' 3600000000000 12"

lemma wf_busy_world: "wf_in False busy_world"
  by (simp add: wf_in_def wf_world_def busy_world_def pg_ok_demo wf_demo_db)

lemma wf_demo_world: "wf_in False demo_world"
  by (simp add: wf_in_def wf_world_def demo_world_def pg_ok_demo wf_db_empty)

lemma demo_credentials: "validLogin ''carol003''" "validPassword demo_lib ''Passw0rd#''"
  by (simp_all add: validLogin_def validPassword_def runes_ascii special_rune_def lower_rune_def
      upper_rune_def digit_rune_def demo_lib_def)

lemma demo_create: "fst (pg_CreateUser request_ctx ''carol003'' ''hPassw0rd#''
      (snd (bcrypt_op demo_lib ''Passw0rd#'' 12 busy_world))) =
    Inr \<lparr>u_ID = ''01020304-0506-4708-890a-0b0c0d0e0f10'', u_Login = ''carol003'',
         u_CreatedAt = 1800000000000000000\<rparr>"
  by code_simp

lemma demo_bcrypt: "fst (bcrypt_op demo_lib ''Passw0rd#'' 12 busy_world) = Inr ''hPassw0rd#''"
  by code_simp

lemma register_creates_one_account_witness:
  "\<exists>u w'. auth_Register demo_lib demo_auth request_ctx ''admin'' ''carol003'' ''Passw0rd#'' busy_world =
      (Inr u, w') \<and> (\<exists>h. pg_accounts w' ''carol003'' = Some (u, h)) \<and>
      pg_accounts w' ''alice001'' = pg_accounts busy_world ''alice001''"
proof -
  obtain u w' where run: "auth_Register demo_lib demo_auth request_ctx ''admin'' ''carol003'' ''Passw0rd#''
      busy_world = (Inr u, w')"
    using demo_create demo_bcrypt demo_credentials
    by (cases "bcrypt_op demo_lib ''Passw0rd#'' 12 busy_world")
      (cases "pg_CreateUser request_ctx ''carol003'' ''hPassw0rd#''
          (snd (bcrypt_op demo_lib ''Passw0rd#'' 12 busy_world))",
       simp add: auth_Register_def demo_auth_def pg_auth_def pg_users_def demo_lib_def)
  with register_creates_one_account [OF wf_busy_world, where c = request_ctx and L = demo_lib
      and digest = "''#admin''" and ttl = 3600000000000 and cost = 12 and token = "''admin''"
      and login = "''carol003''" and password = "''Passw0rd#''"]
  show ?thesis by (auto simp: demo_auth_def request_ctx_def)
qed

lemma demo_authenticate: "fst (auth_Authenticate demo_lib demo_auth request_ctx ''alice001'' ''Passw0rd!'' busy_world) =
    Inr ''AQIDBAUGBwgJCgsMDQ4PEBESExQVFhcYGRobHB0eHyA''"
  by code_simp

lemma authenticate_opens_session_witness:
  "\<exists>w' s u. auth_Authenticate demo_lib demo_auth request_ctx ''alice001'' ''Passw0rd!'' busy_world =
      (Inr ''AQIDBAUGBwgJCgsMDQ4PEBESExQVFhcYGRobHB0eHyA'', w') \<and>
    pg_session_view w' ''#AQIDBAUGBwgJCgsMDQ4PEBESExQVFhcYGRobHB0eHyA'' = Some (s, u)"
proof -
  obtain w' where run: "auth_Authenticate demo_lib demo_auth request_ctx ''alice001'' ''Passw0rd!''
      busy_world = (Inr ''AQIDBAUGBwgJCgsMDQ4PEBESExQVFhcYGRobHB0eHyA'', w')"
    using demo_authenticate by (metis prod.collapse)
  with authenticate_opens_session [OF wf_busy_world _ run [unfolded demo_auth_def]]
  show ?thesis by (auto simp: request_ctx_def demo_lib_def)
qed

lemma authorize_exact_witness:
  "fst (auth_Authorize demo_lib demo_auth request_ctx ''tok'' busy_world) =
     Inr \<lparr>u_ID = uid1, u_Login = ''alice001'', u_CreatedAt = 1700000000000000000\<rparr>"
proof -
  have "pg_session_view busy_world ''#tok'' = Some (\<lparr>s_ID = sid1, s_UserID = uid1, s_TokenHash = ''#tok'',
      s_CreatedAt = 1700000000000000000, s_ExpiresAt = 1900000000000000000, s_RevokedAt = None\<rparr>,
      \<lparr>u_ID = uid1, u_Login = ''alice001'', u_CreatedAt = 1700000000000000000\<rparr>)"
    by (simp add: pg_session_view_def find_session_def user_by_id_def busy_world_def demo_db_def
        session_of_row_def user_of_row_def)
  then show ?thesis
    unfolding demo_auth_def
    using authorize_exact [OF calm_busy_world wf_busy_world, where c = request_ctx and token = "''tok''"
        and L = demo_lib and digest = "''#admin''" and ttl = 3600000000000 and cost = 12]
    by (simp add: request_ctx_def demo_lib_def busy_world_def calm_env_def zero_time_def pg_micros_def)
qed

lemma demo_logout: "fst (auth_Logout demo_lib demo_auth request_ctx ''tok'' busy_world) = Inr ()"
  by code_simp

lemma logout_final_witness:
  "\<exists>w1 e w3. auth_Logout demo_lib demo_auth request_ctx ''tok'' busy_world = (Inr (), w1) \<and>
     auth_Authorize demo_lib demo_auth request_ctx ''tok'' w1 = (Inl e, w3)"
proof -
  obtain w1 where run: "auth_Logout demo_lib demo_auth request_ctx ''tok'' busy_world = (Inr (), w1)"
    using demo_logout by (metis prod.collapse)
  with logout_final [OF wf_busy_world _ _ run [unfolded demo_auth_def] rtranclp.rtrancl_refl, where c' = request_ctx]
  show ?thesis by (auto simp: request_ctx_def demo_auth_def)
qed

end
