(* ===== verification/PgService.thy ===== *)
theory PgService
  imports DocSystem PgCleanup PgAuth
begin

text \<open>
  The document service and its cleanup worker on the PostgreSQL store and the blob directory, as
  \<open>cmd/server/main.go\<close> wires them. The lemmas about arbitrary ports become theorems about
  the tables and the directory.
\<close>

text \<open>
  The invalidation hook touches the response cache and reports the context's error; here only
  the latter is visible.
\<close>

definition delete_hook :: "ctx \<Rightarrow> string \<Rightarrow> (world, unit) op" where
  "delete_hook c i w = (case ctx_Err c w of (Some e, w1) \<Rightarrow> (Inl e, w1) | (None, w1) \<Rightarrow> (Inr (), w1))"

definition pg_doc :: "golib \<Rightarrow> int \<Rightarrow> int \<Rightarrow> int \<Rightarrow> world doc_service" where
  "pg_doc L maxFile maxGrants maxList =
     \<lparr>ds_documents = pg_documents L, ds_users = pg_users, ds_blobs = file_storage, ds_maxFile = maxFile,
      ds_maxGrants = maxGrants, ds_maxList = maxList, ds_rand = rand_Read, ds_cleanup = Some pg_cleanup,
      ds_invalidateDelete = Some delete_hook, ds_cleanupTimeout = 5 * second\<rparr>"

definition pg_worker :: "duration \<Rightarrow> world cleanup_worker" where
  "pg_worker timeout =
     \<lparr>cw_tasks = pg_cleanup, cw_blobs = file_storage, cw_BatchSize = 16, cw_PollInterval = second,
      cw_OperationTimeout = timeout, cw_InitialBackoff = second, cw_MaxBackoff = minute, cw_now = time_Now\<rparr>"

text \<open>The \<open>select\<close> of \<open>Run\<close>: the environment decides whether the context ends before the timer.\<close>

definition poll_wait :: "ctx \<Rightarrow> duration \<Rightarrow> world \<Rightarrow> goerr option \<times> world" where
  "poll_wait c d w = ctx_Err c w"

lemma pg_keeps_dir:
  "(\<And>X. keeps (\<lambda>w. pg_frame w = X) m) \<Longrightarrow> m w = (r, w') \<Longrightarrow> fs_blobs w' = fs_blobs w"
  using keepsD [of "\<lambda>v. pg_frame v = pg_frame w" m w r w'] by (auto simp: pg_frame_def fs_blobs_def [abs_def])

lemma pg_same_db:
  assumes "w_db w' = w_db w" "w_tx w' = w_tx w" "w_pg w' = w_pg w"
  shows "wf_in False w' = wf_in False w \<and> pg_accounts w' = pg_accounts w \<and> pg_docs w' = pg_docs w \<and>
    pg_queued w' = pg_queued w \<and> pg_tasks w' = pg_tasks w"
  using assms pg_views_cong [of w' w]
  by (simp add: wf_in_def wf_world_def pg_accounts_cong [of w' w] pg_tasks_def fun_eq_iff)

lemma fs_same_db: "fs_frame w' = fs_frame w \<Longrightarrow> w_db w' = w_db w \<and> w_tx w' = w_tx w \<and> w_pg w' = w_pg w"
  by (simp add: fs_frame_def)

interpretation pg_doc_env: doc_env pg_users "wf_in False" pg_accounts "pg_documents L" pg_canon pg_docs
    pg_queued pg_json file_storage fs_blobs fs_frame pg_cleanup pg_tasks pg_rest pg_micros rand_Read for L
proof
  fix w w' assume "wf_in False w" "fs_frame w' = fs_frame w"
  then show "wf_in False w' \<and> pg_accounts w' = pg_accounts w \<and> pg_docs w' = pg_docs w \<and>
      pg_queued w' = pg_queued w \<and> pg_tasks w' = pg_tasks w \<and> pg_json w' = pg_json w"
    using pg_same_db [of w' w] fs_same_db unfolding pg_json_def by metis
next
  fix w assume "wf_in False w"
  then show "pg_queued w = task_keys (pg_tasks w)" by (intro pg_queued_keys) (simp add: wf_in_def wf_world_def wf_db_def)
next
  fix w w' assume "pg_rest w' = pg_rest w"
  then show "pg_accounts w' = pg_accounts w \<and> pg_docs w' = pg_docs w" by (simp add: pg_rest_def)
next
  fix m w w' and r :: "goerr + bytes"
  assume "wf_in False w" "rand_Read m w = (r, w')"
  then have "w' = w\<lparr>w_tick := Suc (w_tick w)\<rparr>" "wf_in False w" using rand_Read_same by blast+
  then show "wf_in False w' \<and> pg_accounts w' = pg_accounts w \<and> pg_docs w' = pg_docs w \<and>
      pg_queued w' = pg_queued w \<and> pg_tasks w' = pg_tasks w \<and> fs_blobs w' = fs_blobs w \<and> pg_json w' = pg_json w"
    using pg_same_db [of w' w] by (simp add: fs_blobs_def pg_json_def fun_eq_iff)
qed (auto simp: pg_users_def pg_documents_def pg_cleanup_def dest: rand_Read_length
      pg_keeps_dir [OF keeps_users_frame(3)] pg_keeps_dir [OF keeps_documents_frame(1)]
      pg_keeps_dir [OF keeps_documents_frame(2)] pg_keeps_dir [OF keeps_documents_frame(3)]
      pg_keeps_dir [OF keeps_documents_frame(4)] pg_keeps_dir [OF keeps_cleanup_frame(1)]
      pg_keeps_dir [OF keeps_cleanup_frame(2)] pg_keeps_dir [OF keeps_cleanup_frame(3)]
      pg_keeps_dir [OF keeps_cleanup_frame(4)])

lemma ctx_Err_same: "ctx_Err c w = (e, w') \<Longrightarrow> \<exists>t. w' = w\<lparr>w_tick := t\<rparr>"
  by (auto simp: ctx_Err_def env_next_def split: if_splits intro: exI [of _ "w_tick w"])

lemma tick_same: "wf_in False w \<Longrightarrow> pg_doc_env.same w (w\<lparr>w_tick := t\<rparr>)"
  using pg_same_db [of "w\<lparr>w_tick := t\<rparr>" w] by (simp add: pg_doc_env.same_def fs_blobs_def fun_eq_iff)

lemma serves_pg_doc: "0 < maxFile \<Longrightarrow> maxFile < max_int64 \<Longrightarrow> pg_doc_env.serves L (pg_doc L maxFile maxGrants maxList)"
  by (auto simp: pg_doc_env.serves_def pg_doc_def delete_hook_def tick_same split: prod.splits option.splits
      dest!: ctx_Err_same)

lemma works_pg_worker: "pg_doc_env.works (pg_worker timeout)"
  by (auto simp: pg_doc_env.works_def pg_worker_def pg_doc_env.quiet_def tick_same dest!: time_Now_same)

lemma quiet_ctx: "pg_doc_env.quiet ctx_Err" "pg_doc_env.quiet (\<lambda>(c, d). poll_wait c d)"
  by (auto simp: pg_doc_env.quiet_def poll_wait_def tick_same dest!: ctx_Err_same)

subsection \<open>Properties\<close>

text \<open>C7: \<open>Upload\<close> that succeeds adds exactly the document that was asked for, under a fresh id: the
  requester as its owner, the given name, flags and JSON (in the form PostgreSQL keeps \<open>jsonb\<close> in), the
  normalised media type, the deduplicated grants, all to existing accounts, and for a file its exact bytes
  under a fresh key, no more than the limit. When it fails nothing has changed, with two exceptions, both
  told by the error: a blob under a fresh key stays behind when taking it back failed too, and the document
  itself is there when the store left the outcome of its creation in doubt; its file is then gone, unless
  taking it back failed. Never is an existing document, blob, account or queue entry touched.\<close>

theorem upload_exact:
  assumes "0 < maxFile" "maxFile < max_int64" "wf_in False w" "\<not> c_tx c" "pg_accounts w (u_Login u) = Some (u, h)"
    "doc_Upload L (pg_doc L maxFile maxGrants maxList) c u input w = (r, w')"
  shows "wf_in False w' \<and> pg_accounts w' = pg_accounts w \<and> pg_queued w' = pg_queued w \<and>
    (\<forall>k b. fs_blobs w k = Some b \<longrightarrow> fs_blobs w' k = Some b) \<and>
    (case r of
       Inr y \<Rightarrow> \<exists>x s. uploaded L (pg_json w) (pg_doc L maxFile maxGrants maxList) u input x s \<and>
         uploaded L (pg_json w) (pg_doc L maxFile maxGrants maxList) u input x y \<and> pg_docs w (d_ID x) = None \<and>
         pg_docs w' = (pg_docs w)(d_ID x \<mapsto> s) \<and> (\<forall>g \<in> set (d_Grants x). pg_accounts w g \<noteq> None) \<and>
         (if d_IsFile x then fs_blobs w (d_StorageKey x) = None \<and> (\<exists>src. up_File input = Some src \<and>
            fs_blobs w' = (fs_blobs w)(d_StorageKey x \<mapsto> r_data src)) else fs_blobs w' = fs_blobs w)
     | Inl e \<Rightarrow> pg_docs w' = pg_docs w \<and>
           (fs_blobs w' = fs_blobs w \<or>
            cleanup_failed e \<and> (\<exists>key b. fs_blobs w key = None \<and> fs_blobs w' = (fs_blobs w)(key \<mapsto> b))) \<or>
         doubtful e \<and> (\<exists>x s. uploaded L (pg_json w) (pg_doc L maxFile maxGrants maxList) u input x s \<and>
           pg_docs w (d_ID x) = None \<and> pg_docs w' = (pg_docs w)(d_ID x \<mapsto> s) \<and>
           (if d_IsFile x then fs_blobs w (d_StorageKey x) = None \<and> (fs_blobs w' = fs_blobs w \<or> cleanup_failed e \<and>
              (\<exists>src. up_File input = Some src \<and> fs_blobs w' = (fs_blobs w)(d_StorageKey x \<mapsto> r_data src)))
            else fs_blobs w' = fs_blobs w)))"
  by (rule pg_doc_env.upload_cases [OF serves_pg_doc [OF assms(1,2)] assms(3-6)])

text \<open>C8: \<open>Get\<close> serves a document only to its owner, to users it is shared with, or to anybody when
  it is public, and then serves the stored metadata and exactly the stored bytes of a file; the
  forbidden and not-found answers are given only for documents that are there but not readable,
  and not there. Nothing changes.\<close>

theorem get_access:
  assumes "0 < maxFile" "maxFile < max_int64" "wf_in False w" "\<not> c_tx c" "pg_accounts w (u_Login u) = Some (u, h)"
    "doc_Get (pg_doc L maxFile maxGrants maxList) c u i w = (r, w')"
  shows "wf_in False w' \<and> pg_accounts w' = pg_accounts w \<and> pg_docs w' = pg_docs w \<and> pg_queued w' = pg_queued w \<and>
    fs_blobs w' = fs_blobs w \<and>
    (case r of
       Inr ct \<Rightarrow> \<exists>k x. pg_canon w i = Some k \<and> pg_docs w k = Some x \<and> readable u x \<and>
         (if d_IsFile x then \<exists>data. fs_blobs w (d_StorageKey x) = Some data \<and>
            ct = \<lparr>ct_Document = x\<lparr>d_SizeBytes := int (length data)\<rparr>,
                  ct_File = Some \<lparr>r_data = data, r_err = None\<rparr>\<rparr>
          else ct = \<lparr>ct_Document = x, ct_File = None\<rparr>)
     | Inl e \<Rightarrow> (e = Sentinel ErrForbidden \<longrightarrow>
           (\<exists>k x. pg_canon w i = Some k \<and> pg_docs w k = Some x \<and> \<not> readable u x)) \<and>
         (e = Sentinel ErrNotFound \<longrightarrow> (\<exists>k. pg_canon w i = Some k \<and> pg_docs w k = None)))"
  by (rule pg_doc_env.get_cases [OF serves_pg_doc [OF assms(1,2)] assms(3-6)])

text \<open>C10: \<open>List\<close> returns only documents that are stored as returned and readable by the requester,
  each at most once and no more than the limit, which is at most the configured one. Nothing
  changes.\<close>

theorem list_access:
  assumes "0 < maxFile" "maxFile < max_int64" "wf_in False w" "\<not> c_tx c" "pg_accounts w (u_Login u) = Some (u, h)"
    "doc_List L (pg_doc L maxFile maxGrants maxList) c u f w = (Inr xs, w')"
  shows "(\<forall>x \<in> set xs. pg_docs w (d_ID x) = Some x \<and> readable u x) \<and> distinct (map d_ID xs) \<and>
    0 \<le> f_Limit f \<and> f_Limit f \<le> maxList \<and> (0 < f_Limit f \<longrightarrow> int (length xs) \<le> f_Limit f) \<and>
    pg_docs w' = pg_docs w \<and> fs_blobs w' = fs_blobs w"
  using pg_doc_env.list_cases [OF serves_pg_doc [OF assms(1,2)] assms(3-6)] by (simp add: pg_doc_def)

text \<open>C6: \<open>Delete\<close> removes a document only for its owner and removes no other. For a file, the key
  of the blob is in the cleanup queue as soon as the document is gone, and leaves the queue only
  after the blob is deleted; an error before that leaves it to the worker. \<close>

theorem delete_by_owner_only:
  assumes "0 < maxFile" "maxFile < max_int64" "wf_in False w" "\<not> c_tx c"
    "doc_Delete (pg_doc L maxFile maxGrants maxList) c u i w = (res, w')"
  shows "wf_in False w' \<and> pg_accounts w' = pg_accounts w \<and>
    ((\<exists>e. res = Some e) \<and> pg_docs w' = pg_docs w \<and> pg_queued w' = pg_queued w \<and> fs_blobs w' = fs_blobs w \<or>
     (\<exists>k x. pg_canon w i = Some k \<and> pg_docs w k = Some x \<and> d_OwnerID x = u_ID u \<and>
       pg_docs w' = (pg_docs w)(k := None) \<and>
       (pg_queued w' = pg_queued w \<union> removed_keys x \<and> fs_blobs w' = fs_blobs w \<and>
          (d_IsFile x \<longrightarrow> (\<exists>e. res = Some e)) \<or>
        d_IsFile x \<and> fs_blobs w' = (fs_blobs w)(d_StorageKey x := None) \<and>
        (pg_queued w' = pg_queued w \<union> removed_keys x \<and> (\<exists>e. res = Some e) \<or>
         pg_queued w' = pg_queued w - {d_StorageKey x}))))"
  by (rule pg_doc_env.delete_cases [OF serves_pg_doc [OF assms(1,2)] assms(3-5)])

text \<open>C5: Whatever uploads, reads, lists, deletes and worker runs do and whatever fails among them,
  the schema's constraints hold, and documents, blobs and queue agree: stored files have keys of their
  own, the keys are never queued for cleanup, and the blobs are there. The only files that may be without
  their blob are those in \<open>doubt'\<close>: of uploads that were reported as failed although the store may have
  committed them. The only assumption on the steps is that a random key in use is not drawn again.\<close>

theorem files_keep_their_blobs:
  assumes "0 < maxFile" "maxFile < max_int64" "wf_in False w" "consistent (pg_docs w) (pg_queued w) (fs_blobs w) doubt"
    "(doc_step L (pg_doc L maxFile maxGrants maxList) (pg_worker timeout) ctx_Err poll_wait
       pg_accounts pg_docs pg_queued)\<^sup>*\<^sup>* (w, doubt) (w', doubt')"
  shows "wf_in False w' \<and> consistent (pg_docs w') (pg_queued w') (fs_blobs w') doubt'"
  by (rule pg_doc_env.steps_consistent [OF serves_pg_doc [OF assms(1,2)] works_pg_worker quiet_ctx assms(5,3,4)])

text \<open>C26: An upload of a file that is reported as failed although the store has created the document
  loses the file: whenever an error is returned, the document is there, and the blob was taken back,
  there is a new document of the requester whose blob is missing, and every \<open>Get\<close> of it, by
  whomever, fails. \<open>Upload\<close> takes every error of the store for a failure and deletes the blob, also
  when the connection broke after the commit.\<close>

theorem upload_in_doubt_loses_blob:
  assumes "0 < maxFile" "maxFile < max_int64" "wf_in False w" "\<not> c_tx c" "pg_accounts w (u_Login u) = Some (u, h)"
    "doc_Upload L (pg_doc L maxFile maxGrants maxList) c u input w = (Inl e, w')"
    "d_IsFile (up_Document input)" "pg_docs w' \<noteq> pg_docs w" "\<not> cleanup_failed e"
  shows "\<exists>i s. pg_docs w i = None \<and> pg_docs w' = (pg_docs w)(i \<mapsto> s) \<and> d_OwnerID s = u_ID u \<and> d_IsFile s \<and>
    fs_blobs w' (d_StorageKey s) = None \<and>
    (\<forall>v h' c' r w''. pg_accounts w' (u_Login v) = Some (v, h') \<and> \<not> c_tx c' \<and>
      doc_Get (pg_doc L maxFile maxGrants maxList) c' v i w' = (r, w'') \<longrightarrow> isl r)"
proof -
  note S = serves_pg_doc [OF assms(1,2)]
  note up = pg_doc_env.upload_cases [OF S assms(3-6), unfolded sum.case]
  obtain x s where x: "uploaded L (pg_json w) (pg_doc L maxFile maxGrants maxList) u input x s"
    "pg_docs w (d_ID x) = None" "pg_docs w' = (pg_docs w)(d_ID x \<mapsto> s)"
    and b: "if d_IsFile x then fs_blobs w (d_StorageKey x) = None \<and> (fs_blobs w' = fs_blobs w \<or> cleanup_failed e \<and>
        (\<exists>src. up_File input = Some src \<and> fs_blobs w' = (fs_blobs w)(d_StorageKey x \<mapsto> r_data src)))
      else fs_blobs w' = fs_blobs w"
    using up assms(8) by blast
  have s: "d_IsFile s" "d_StorageKey s = d_StorageKey x" "d_OwnerID s = u_ID u" "d_IsFile x"
    using x(1) assms(7) by (auto simp: uploaded_def stored_for_def)
  have gone: "fs_blobs w' (d_StorageKey s) = None" using b s assms(9) by simp
  have wf: "wf_in False w'" using up by blast
  have "isl r" if v: "pg_accounts w' (u_Login v) = Some (v, h')" "\<not> c_tx c'"
      and get: "doc_Get (pg_doc L maxFile maxGrants maxList) c' v (d_ID x) w' = (r, w'')" for v h' c' r w''
  proof (cases r)
    case (Inr ct)
    have "pg_docs w' (d_ID x) = Some s" using x(3) by simp
    then have "pg_canon w' (d_ID x) = Some (d_ID x)" using pg_docs_wf(1) [OF wf] by blast
    with pg_doc_env.get_cases [OF S wf v(2,1) get] Inr gone s x(3) show ?thesis by auto
  qed simp
  with x(2,3) s gone show ?thesis by blast
qed

text \<open>C12: A batch of the cleanup worker deletes only blobs whose keys are queued, takes a key off the
  queue only when its blob is gone, claims no more tasks than its batch size, and touches neither
  documents nor accounts, whatever fails on the way.\<close>

theorem batch_cleans_queued_only:
  assumes "wf_in False w" "\<not> c_tx c" "processBatch ctx_Err (pg_worker timeout) c w = ((n, err), w')"
  shows "n \<le> 16 \<and> pg_docs w' = pg_docs w \<and> pg_accounts w' = pg_accounts w \<and> pg_queued w' \<subseteq> pg_queued w \<and>
    (\<forall>k \<in> pg_queued w - pg_queued w'. fs_blobs w' k = None) \<and>
    (\<forall>k. fs_blobs w' k = fs_blobs w k \<or> k \<in> pg_queued w \<and> fs_blobs w' k = None)"
  using pg_doc_env.batch_reaps [OF works_pg_worker quiet_ctx(1) assms]
  by (simp add: pg_doc_env.reaps_def) (simp add: pg_worker_def)

subsection \<open>Witnesses\<close>

definition alice :: user where
  "alice = \<lparr>u_ID = uid1, u_Login = ''alice001'', u_CreatedAt = 1700000000000000000\<rparr>"

definition bob :: user where
  "bob = \<lparr>u_ID = uid2, u_Login = ''bob00002'', u_CreatedAt = 1700000000000000000\<rparr>"

definition demo_docs :: "world doc_service" where
  "demo_docs = pg_doc demo_lib 10 5 10"

definition demo_upload :: upload where
  "demo_upload = \<lparr>up_Document = \<lparr>d_ID = [], d_OwnerID = [], d_Name = ''n.txt'', d_MIME = ''text/plain'', d_IsFile = True,
     d_IsPublic = False, d_JSON = None, d_StorageKey = [], d_SizeBytes = 0, d_CreatedAt = 0, d_UpdatedAt = 0, d_Version = 0,
     d_Grants = [''bob00002'', ''alice001'']\<rparr>, up_File = Some \<lparr>r_data = ''hello'', r_err = None\<rparr>\<rparr>"

lemma demo_accounts:
  "pg_accounts busy_world (u_Login alice) = Some (alice, ''hPassw0rd!'')"
  "pg_accounts busy_world (u_Login bob) = Some (bob, ''hPassw0rd?'')"
  by code_simp+

lemma ctx_demo: "\<not> c_tx request_ctx" "\<not> c_tx background_ctx"
  by (simp_all add: request_ctx_def background_ctx_def)

lemma demo_limits: "(0::int) < 10" "(10::int) < max_int64"
  by (simp_all add: max_int64_def)

lemma demo_upload_runs: "\<not> isl (fst (doc_Upload demo_lib demo_docs request_ctx alice demo_upload busy_world))"
  by code_simp

lemma upload_exact_witness:
  "\<exists>y w'. doc_Upload demo_lib demo_docs request_ctx alice demo_upload busy_world = (Inr y, w') \<and>
     d_Name y = ''n.txt'' \<and> set (d_Grants y) = {''bob00002''} \<and> fs_blobs w' (d_StorageKey y) = Some ''hello''"
proof -
  obtain y w' where run: "doc_Upload demo_lib demo_docs request_ctx alice demo_upload busy_world = (Inr y, w')"
    using demo_upload_runs by (metis isl_def prod.collapse sum.exhaust)
  from upload_exact [OF demo_limits wf_busy_world ctx_demo(1) demo_accounts(1) run [unfolded demo_docs_def]]
  show ?thesis using run by (auto simp: uploaded_def stored_for_def demo_upload_def alice_def)
qed

lemma demo_get_runs: "\<not> isl (fst (doc_Get demo_docs request_ctx bob did1 busy_world))"
  by code_simp

lemma demo_document: "map_option (\<lambda>x. (d_IsFile x, d_StorageKey x)) (pg_docs busy_world did1) = Some (True, ''key1'')"
    "fs_blobs busy_world ''key1'' = Some ''xyz''" "pg_canon busy_world did1 = Some did1"
  by code_simp+

lemma get_access_witness:
  "\<exists>ct w'. doc_Get demo_docs request_ctx bob did1 busy_world = (Inr ct, w') \<and>
     ct_File ct = Some \<lparr>r_data = ''xyz'', r_err = None\<rparr>"
proof -
  obtain ct w' where run: "doc_Get demo_docs request_ctx bob did1 busy_world = (Inr ct, w')"
    using demo_get_runs by (metis isl_def prod.collapse sum.exhaust)
  from get_access [OF demo_limits wf_busy_world ctx_demo(1) demo_accounts(2) run [unfolded demo_docs_def]]
  show ?thesis using run demo_document by auto
qed

definition demo_filter :: documentFilter where
  "demo_filter = \<lparr>f_OwnerLogin = ''alice001'', f_Key = ''name'', f_Value = ''a.txt'', f_Limit = 5\<rparr>"

lemma demo_list_runs: "case fst (doc_List demo_lib demo_docs request_ctx bob demo_filter busy_world) of
    Inl e \<Rightarrow> False | Inr xs \<Rightarrow> map d_ID xs = [did1]"
  by code_simp

lemma list_access_witness:
  "\<exists>x w'. doc_List demo_lib demo_docs request_ctx bob demo_filter busy_world = (Inr [x], w') \<and>
     pg_docs busy_world did1 = Some x \<and> readable bob x"
proof -
  obtain xs w' where run: "doc_List demo_lib demo_docs request_ctx bob demo_filter busy_world = (Inr xs, w')"
    and ids: "map d_ID xs = [did1]"
    using demo_list_runs by (cases "doc_List demo_lib demo_docs request_ctx bob demo_filter busy_world")
      (auto split: sum.splits)
  from list_access [OF demo_limits wf_busy_world ctx_demo(1) demo_accounts(2) run [unfolded demo_docs_def]]
  show ?thesis using run ids by auto
qed

lemma demo_delete_runs: "fst (doc_Delete demo_docs request_ctx alice did1 busy_world) = None"
  by code_simp

lemma delete_by_owner_only_witness:
  "\<exists>w'. doc_Delete demo_docs request_ctx alice did1 busy_world = (None, w') \<and>
     pg_docs w' did1 = None \<and> fs_blobs w' ''key1'' = None \<and> ''key1'' \<notin> pg_queued w'"
proof -
  obtain w' where run: "doc_Delete demo_docs request_ctx alice did1 busy_world = (None, w')"
    using demo_delete_runs by (metis prod.collapse)
  note owner = delete_by_owner_only [OF demo_limits wf_busy_world ctx_demo(1) run [unfolded demo_docs_def]]
  have "\<exists>k x. pg_canon busy_world did1 = Some k \<and> pg_docs busy_world k = Some x \<and>
      pg_docs w' = (pg_docs busy_world)(k := None) \<and> (d_IsFile x \<longrightarrow>
        fs_blobs w' (d_StorageKey x) = None \<and> d_StorageKey x \<notin> pg_queued w')"
    using owner [THEN conjunct2, THEN conjunct2] by (elim disjE exE conjE) (simp | (intro exI conjI, assumption, assumption, assumption, simp))+
  then obtain k x where "pg_canon busy_world did1 = Some k" "pg_docs busy_world k = Some x"
    "pg_docs w' k = None" "d_IsFile x \<longrightarrow> fs_blobs w' (d_StorageKey x) = None \<and> d_StorageKey x \<notin> pg_queued w'"
    by (metis fun_upd_same)
  then show ?thesis using run demo_document by simp
qed

lemma demo_consistent: "consistent (pg_docs busy_world) (pg_queued busy_world) (fs_blobs busy_world) {}"
proof (rule consistentI)
  fix k x assume "pg_docs busy_world k = Some x" "d_IsFile x"
  then have x: "k = did1" "d_StorageKey x = ''key1''" using demo_document
    by (auto simp: pg_docs_def document_by_id_def busy_world_def demo_db_def split: if_splits)
  show "d_StorageKey x \<notin> pg_queued busy_world" by (simp add: pg_queued_def busy_world_def demo_db_def)
  show "fs_blobs busy_world (d_StorageKey x) \<noteq> None" using x demo_document by simp
next
  fix k x k' x' assume "pg_docs busy_world k = Some x" "pg_docs busy_world k' = Some x'" "d_IsFile x" "d_IsFile x'"
  then show "k = k'"
    by (auto simp: pg_docs_def document_by_id_def busy_world_def demo_db_def split: if_splits)
qed

text \<open>The connection breaks after the commit of an upload has taken effect.\<close>

definition commit_lost_world :: world where
  "commit_lost_world = busy_world\<lparr>w_env := (\<lambda>i. (calm_env 1800000000000000000 i)
     \<lparr>es_fault := (if i = 17 then FailsAfter (IoOther ''reset'') else Fine)\<rparr>)\<rparr>"

definition demo_new_id :: string where
  "demo_new_id = ''01020304-0506-4708-890a-0b0c0d0e0f10''"

lemma commit_lost_run:
  "case doc_Upload demo_lib demo_docs request_ctx alice demo_upload commit_lost_world of
     (Inl e, w) \<Rightarrow> map_option d_StorageKey (pg_docs w demo_new_id) = Some ''AgMEBQYHCAkKCwwNDg8QERITFBUWFxgZGhscHR4fICE'' \<and>
       e = Wrapped ''document repository'' (classify ''commit transaction'' (Opaque ''reset''))
   | (Inr y, w) \<Rightarrow> False"
  by code_simp

lemma wf_commit_lost_world: "wf_in False commit_lost_world"
  using wf_busy_world by (simp add: wf_in_def wf_world_def commit_lost_world_def)

lemma commit_lost_same: "pg_docs commit_lost_world = pg_docs busy_world" "pg_accounts commit_lost_world = pg_accounts busy_world"
  "pg_queued commit_lost_world = pg_queued busy_world" "fs_blobs commit_lost_world = fs_blobs busy_world"
  using pg_same_db [of commit_lost_world busy_world]
  by (simp_all add: commit_lost_world_def fs_blobs_def fun_eq_iff)

lemma demo_new_id_free: "pg_docs busy_world demo_new_id = None"
  by code_simp

lemma commit_lost:
  obtains e w' s where "doc_Upload demo_lib demo_docs request_ctx alice demo_upload commit_lost_world = (Inl e, w')"
    "\<not> cleanup_failed e" "doubtful e" "pg_docs w' = (pg_docs commit_lost_world)(demo_new_id \<mapsto> s)"
    "d_StorageKey s = ''AgMEBQYHCAkKCwwNDg8QERITFBUWFxgZGhscHR4fICE''"
proof -
  obtain e w' where run: "doc_Upload demo_lib demo_docs request_ctx alice demo_upload commit_lost_world = (Inl e, w')"
    "map_option d_StorageKey (pg_docs w' demo_new_id) = Some ''AgMEBQYHCAkKCwwNDg8QERITFBUWFxgZGhscHR4fICE''"
    "\<not> cleanup_failed e"
    using commit_lost_run by (auto simp: cleanup_failed_def split: prod.splits sum.splits)
  have acc: "pg_accounts commit_lost_world (u_Login alice) = Some (alice, ''hPassw0rd!'')"
    using demo_accounts(1) commit_lost_same by simp
  have new: "pg_docs commit_lost_world demo_new_id = None" using demo_new_id_free commit_lost_same by simp
  then have "pg_docs w' \<noteq> pg_docs commit_lost_world" using run(2) by auto
  then obtain k s where k: "doubtful e" "pg_docs w' = (pg_docs commit_lost_world)(k \<mapsto> s)"
    using pg_doc_env.upload_cases [OF serves_pg_doc [OF demo_limits] wf_commit_lost_world ctx_demo(1) acc
        run(1) [unfolded demo_docs_def], unfolded sum.case] by blast
  then have "k = demo_new_id" using run(2) new by (auto split: if_splits)
  with k run show thesis by (intro that [of e w' s]) auto
qed

lemma upload_in_doubt_loses_blob_witness:
  "\<exists>e w' s. doc_Upload demo_lib demo_docs request_ctx alice demo_upload commit_lost_world = (Inl e, w') \<and>
     pg_docs w' demo_new_id = Some s \<and> d_IsFile s \<and> fs_blobs w' (d_StorageKey s) = None"
proof -
  obtain e w' s where run: "doc_Upload demo_lib demo_docs request_ctx alice demo_upload commit_lost_world = (Inl e, w')"
    "\<not> cleanup_failed e" "pg_docs w' = (pg_docs commit_lost_world)(demo_new_id \<mapsto> s)"
    using commit_lost by blast
  have new: "pg_docs commit_lost_world demo_new_id = None" using demo_new_id_free commit_lost_same by simp
  have differs: "pg_docs w' \<noteq> pg_docs commit_lost_world" using run(3) new by (metis fun_upd_same option.distinct(1))
  have is_file: "d_IsFile (up_Document demo_upload)" by (simp add: demo_upload_def)
  have acc: "pg_accounts commit_lost_world (u_Login alice) = Some (alice, ''hPassw0rd!'')"
    using demo_accounts(1) commit_lost_same by simp
  from upload_in_doubt_loses_blob [OF demo_limits wf_commit_lost_world ctx_demo(1) acc run(1) [unfolded demo_docs_def]
      is_file differs run(2)]
  obtain i s' where s: "pg_docs w' = (pg_docs commit_lost_world)(i \<mapsto> s')" "d_IsFile s'" "fs_blobs w' (d_StorageKey s') = None"
    by blast
  then have "pg_docs w' demo_new_id = Some s'" using run(3) new by (metis fun_upd_other fun_upd_same option.distinct(1))
  with s run show ?thesis by blast
qed

text \<open>After that upload the other file is as it was, and only the new document is in doubt.\<close>

lemma files_keep_their_blobs_witness:
  "\<exists>e w'. doc_Upload demo_lib demo_docs request_ctx alice demo_upload commit_lost_world = (Inl e, w') \<and>
     consistent (pg_docs w') (pg_queued w') (fs_blobs w') {demo_new_id}"
proof -
  obtain e w' s where run: "doc_Upload demo_lib demo_docs request_ctx alice demo_upload commit_lost_world = (Inl e, w')"
    "doubtful e" "pg_docs w' = (pg_docs commit_lost_world)(demo_new_id \<mapsto> s)"
    "d_StorageKey s = ''AgMEBQYHCAkKCwwNDg8QERITFBUWFxgZGhscHR4fICE''"
    using commit_lost by blast
  have new: "pg_docs commit_lost_world demo_new_id = None" using demo_new_id_free commit_lost_same by simp
  have con: "consistent (pg_docs commit_lost_world) (pg_queued commit_lost_world) (fs_blobs commit_lost_world) {}"
    using demo_consistent by (simp only: commit_lost_same)
  have key: "d_StorageKey x = ''key1''" if "pg_docs busy_world k = Some x" "d_IsFile x" for k x
    using that demo_document by (auto simp: pg_docs_def document_by_id_def busy_world_def demo_db_def split: if_splits)
  have "pg_queued busy_world = {}" by (simp add: pg_queued_def busy_world_def demo_db_def)
  then have fresh: "fresh_keys (pg_docs commit_lost_world) (pg_queued commit_lost_world) (pg_docs w')"
    unfolding fresh_keys_def commit_lost_same run(3)
    using run(4) key by (auto split: if_splits)
  have acc: "pg_accounts commit_lost_world (u_Login alice) = Some (alice, ''hPassw0rd!'')"
    using demo_accounts(1) commit_lost_same by simp
  have ghost: "doubt_after (pg_docs commit_lost_world) {} (Inl e) (pg_docs w') = {demo_new_id}"
    using run(2,3) new by (auto simp: doubt_after_def)
  have "doc_step demo_lib (pg_doc demo_lib 10 5 10) (pg_worker second) ctx_Err poll_wait pg_accounts pg_docs pg_queued
      (commit_lost_world, {}) (w', {demo_new_id})"
    unfolding ghost [symmetric]
    by (rule doc_step.upload [where accounts = pg_accounts and docs = pg_docs and queued = pg_queued, OF acc ctx_demo(1) run(1) [unfolded demo_docs_def] fresh])
  from files_keep_their_blobs [OF demo_limits wf_commit_lost_world con r_into_rtranclp, OF this]
  show ?thesis using run by blast
qed

text \<open>A blob waits for cleanup.\<close>

definition waiting_world :: world where
  "waiting_world = busy_world\<lparr>w_db := demo_db\<lparr>db_tasks := [\<lparr>rt_id = 1, rt_key = ''key9'', rt_attempts = 0,
     rt_next = 1700000000000000000, rt_created = 1700000000000000000\<rparr>], db_taskseq := 2\<rparr>,
     w_dir := [(''key1'', ''xyz''), (''key9'', ''old'')]\<rparr>"

lemma wf_waiting_world: "wf_in False waiting_world"
  using wf_demo_db
  by (simp add: wf_in_def wf_world_def waiting_world_def busy_world_def pg_ok_demo wf_db_def wf_tasks_def)

lemma demo_batch: "fst (processBatch ctx_Err (pg_worker (5 * second)) background_ctx waiting_world) = (1, None)"
  "pg_queued (snd (processBatch ctx_Err (pg_worker (5 * second)) background_ctx waiting_world)) = {}"
  by code_simp+

lemma batch_cleans_queued_only_witness:
  "\<exists>w'. processBatch ctx_Err (pg_worker (5 * second)) background_ctx waiting_world = ((1, None), w') \<and>
     pg_queued w' = {} \<and> fs_blobs w' ''key9'' = None \<and> fs_blobs w' ''key1'' = Some ''xyz''"
proof -
  obtain w' where run: "processBatch ctx_Err (pg_worker (5 * second)) background_ctx waiting_world = ((1, None), w')"
    "pg_queued w' = {}" using demo_batch by (metis prod.collapse snd_conv)
  have q: "pg_queued waiting_world = {''key9''}" "fs_blobs waiting_world ''key1'' = Some ''xyz''"
    by (simp add: pg_queued_def waiting_world_def, code_simp)
  note clean = batch_cleans_queued_only [OF wf_waiting_world ctx_demo(2) run(1), unfolded run(2) q(1)]
  have "fs_blobs w' ''key9'' = None" using clean by simp
  moreover have "fs_blobs w' ''key1'' = Some ''xyz''"
    using clean [THEN conjunct2, THEN conjunct2, THEN conjunct2, THEN conjunct2, THEN conjunct2, THEN spec, of "''key1''"] q(2)
    by simp
  ultimately show ?thesis using run by blast
qed

definition demo_worker_config :: "world worker_config" where
  "demo_worker_config = \<lparr>wc_BatchSize = 0, wc_PollInterval = 0, wc_OperationTimeout = 5 * second, wc_InitialBackoff = 0,
     wc_MaxBackoff = 0, wc_Now = None\<rparr>"

lemma worker_delays_witness:
  "\<exists>W. newCleanupWorker (Some pg_cleanup) (Some file_storage) demo_worker_config time_Now = Inr W \<and>
     backoff W 4 = 8 * second \<and> backoff W 100 = minute \<and> leaseDuration W = 80 * second"
proof -
  obtain W where W: "newCleanupWorker (Some pg_cleanup) (Some file_storage) demo_worker_config time_Now = Inr W"
    "cw_InitialBackoff W = second" "cw_MaxBackoff W = minute" "cw_OperationTimeout W = 5 * second" "cw_BatchSize W = 16"
    by (simp add: newCleanupWorker_def demo_worker_config_def second_def minute_def)
  have "wc_OperationTimeout demo_worker_config \<le> max_int64" "wc_MaxBackoff demo_worker_config \<le> max_int64"
    by (simp_all add: demo_worker_config_def second_def max_int64_def)
  note delays = worker_delays [OF W(1) this]
  show ?thesis
    using delays [of 4] delays [of 100] W by (simp add: second_def minute_def max_int64_def)
qed

end
