(* ===== verification/Config.thy ===== *)
theory Config
  imports GoErrors GoConv
begin

text \<open>
  Loading and validating the configuration, \<open>internal/config/config.go\<close>. The environment is the
  lookup function the code takes. \<open>time.ParseDuration\<close>, \<open>url.Parse\<close> and \<open>strings.ToLower\<close> are
  parameters. Duration and byte fields keep their unit; fields the code fills in by loops over
  pointers are filled in by loops over their getters and setters.
\<close>

subsection \<open>The configuration\<close>

record fileStorageConfig =
  fc_Root :: string

record s3StorageConfig =
  s3_Endpoint :: string
  s3_Region :: string
  s3_Bucket :: string
  s3_AccessKey :: string
  s3_SecretKey :: string
  s3_UseTLS :: bool

record config =
  cf_HTTPHost :: string
  cf_HTTPPort :: int
  cf_PostgresDSN :: string
  cf_AdminToken :: string
  cf_StorageDriver :: string
  cf_FileStorage :: fileStorageConfig
  cf_S3Storage :: s3StorageConfig
  cf_SessionTTL :: duration
  cf_CacheTTL :: duration
  cf_CacheMaxBytes :: int
  cf_CacheMaxItems :: int
  cf_MaxRequestBytes :: int
  cf_MaxFileBytes :: int
  cf_MaxJSONBytes :: int
  cf_MaxGrantItems :: int
  cf_MaxListLimit :: int
  cf_HTTPReadTimeout :: duration
  cf_HTTPWriteTimeout :: duration
  cf_HTTPIdleTimeout :: duration
  cf_HTTPProcessingTimeout :: duration
  cf_GracefulShutdownTimeout :: duration
  cf_PostgresMaxConns :: int
  cf_PostgresMinConns :: int
  cf_PostgresMaxConnLifetime :: duration
  cf_PostgresMaxConnIdleTime :: duration
  cf_PostgresHealthCheckPeriod :: duration
  cf_LogLevel :: string
  cf_ExposeCacheHeader :: bool

type_synonym env = "string \<Rightarrow> string option"

text \<open>\<open>url.Parse\<close> gives scheme, host and path.\<close>

record config_lib =
  time_ParseDuration :: "string \<Rightarrow> duration option"
  url_Parse :: "string \<Rightarrow> (string \<times> string \<times> string) option"
  strings_ToLower :: "string \<Rightarrow> string"

definition StorageFilesystem :: string where "StorageFilesystem = ''filesystem''"
definition StorageS3 :: string where "StorageS3 = ''s3''"

definition default_config :: config where
  "default_config = \<lparr>
     cf_HTTPHost = ''0.0.0.0'', cf_HTTPPort = 8080, cf_PostgresDSN = [], cf_AdminToken = [],
     cf_StorageDriver = StorageFilesystem, cf_FileStorage = \<lparr>fc_Root = ''./data/blobs''\<rparr>,
     cf_S3Storage = \<lparr>s3_Endpoint = [], s3_Region = ''us-east-1'', s3_Bucket = [], s3_AccessKey = [],
       s3_SecretKey = [], s3_UseTLS = True\<rparr>,
     cf_SessionTTL = 24 * hour, cf_CacheTTL = 5 * minute, cf_CacheMaxBytes = 64 * 1048576,
     cf_CacheMaxItems = 1000, cf_MaxRequestBytes = 32 * 1048576, cf_MaxFileBytes = 25 * 1048576,
     cf_MaxJSONBytes = 1048576, cf_MaxGrantItems = 100, cf_MaxListLimit = 100,
     cf_HTTPReadTimeout = 10 * second, cf_HTTPWriteTimeout = 30 * second, cf_HTTPIdleTimeout = 60 * second,
     cf_HTTPProcessingTimeout = 30 * second, cf_GracefulShutdownTimeout = 10 * second,
     cf_PostgresMaxConns = 10, cf_PostgresMinConns = 1, cf_PostgresMaxConnLifetime = hour,
     cf_PostgresMaxConnIdleTime = 30 * minute, cf_PostgresHealthCheckPeriod = minute,
     cf_LogLevel = ''info'', cf_ExposeCacheHeader = False\<rparr>"

subsection \<open>Reading one variable\<close>

text \<open>A parser gives the problem, if any, and the new value of the field, whose old value it gets.\<close>

definition setString :: "env \<Rightarrow> string \<Rightarrow> string \<Rightarrow> string" where
  "setString lookup name dst = (case lookup name of Some value \<Rightarrow> value | None \<Rightarrow> dst)"

definition parseDuration :: "config_lib \<Rightarrow> env \<Rightarrow> string \<Rightarrow> duration \<Rightarrow> goerr option \<times> duration" where
  "parseDuration L lookup name dst =
     (case lookup name of
        None \<Rightarrow> (None, dst)
      | Some value \<Rightarrow>
          (case time_ParseDuration L value of
             None \<Rightarrow> (Some (Opaque (name @ '' must be a valid duration'')), dst)
           | Some parsed \<Rightarrow> (None, parsed)))"

definition parseInt :: "env \<Rightarrow> string \<Rightarrow> int \<Rightarrow> goerr option \<times> int" where
  "parseInt lookup name dst =
     (case lookup name of
        None \<Rightarrow> (None, dst)
      | Some value \<Rightarrow>
          (case strconv_Atoi value of
             None \<Rightarrow> (Some (Opaque (name @ '' must be an integer'')), dst)
           | Some parsed \<Rightarrow> (None, parsed)))"

definition parseInt64 :: "env \<Rightarrow> string \<Rightarrow> int \<Rightarrow> goerr option \<times> int" where
  "parseInt64 lookup name dst =
     (case lookup name of
        None \<Rightarrow> (None, dst)
      | Some value \<Rightarrow>
          (case strconv_ParseInt value of
             None \<Rightarrow> (Some (Opaque (name @ '' must be an integer number of bytes'')), dst)
           | Some parsed \<Rightarrow> (None, parsed)))"

definition parseBool :: "env \<Rightarrow> string \<Rightarrow> bool \<Rightarrow> goerr option \<times> bool" where
  "parseBool lookup name dst =
     (case lookup name of
        None \<Rightarrow> (None, dst)
      | Some value \<Rightarrow>
          (case strconv_ParseBool value of
             None \<Rightarrow> (Some (Opaque (name @ '' must be true or false'')), dst)
           | Some parsed \<Rightarrow> (None, parsed)))"

definition appendParse :: "goerr list \<Rightarrow> goerr option \<Rightarrow> goerr list" where
  "appendParse problems err = (case err of Some e \<Rightarrow> problems @ [e] | None \<Rightarrow> problems)"

subsection \<open>Validation\<close>

definition strings_Trim_slash :: "string \<Rightarrow> string" where
  "strings_Trim_slash s = (let slash = (\<lambda>c. c = CHR ''/'') in rev (dropWhile slash (rev (dropWhile slash s))))"

definition validatePostgresDSN :: "config_lib \<Rightarrow> string \<Rightarrow> goerr option" where
  "validatePostgresDSN L value0 =
     (let value = strings_TrimSpace value0
      in if value = [] then Some (Opaque ''POSTGRES_DSN is required'')
         else let invalid = Some (Opaque ''POSTGRES_DSN must be a valid postgres or postgresql URL with host and database'')
              in case url_Parse L value of
                   None \<Rightarrow> invalid
                 | Some (scheme, host, path) \<Rightarrow>
                     if (scheme \<noteq> ''postgres'' \<and> scheme \<noteq> ''postgresql'') \<or> host = [] \<or> strings_Trim_slash path = []
                     then invalid else None)"

definition isLogLevel :: "string \<Rightarrow> bool" where
  "isLogLevel value \<longleftrightarrow> value = ''debug'' \<or> value = ''info'' \<or> value = ''warn'' \<or> value = ''error''"

definition problem :: "bool \<Rightarrow> string \<Rightarrow> goerr list" where
  "problem b message = (if b then [Opaque message] else [])"

definition positive_durations :: "config \<Rightarrow> (string \<times> duration) list" where
  "positive_durations c =
     [(''SESSION_TTL'', cf_SessionTTL c), (''CACHE_TTL'', cf_CacheTTL c),
      (''HTTP_READ_TIMEOUT'', cf_HTTPReadTimeout c), (''HTTP_WRITE_TIMEOUT'', cf_HTTPWriteTimeout c),
      (''HTTP_IDLE_TIMEOUT'', cf_HTTPIdleTimeout c),
      (''HTTP_PROCESSING_TIMEOUT'', cf_HTTPProcessingTimeout c),
      (''GRACEFUL_SHUTDOWN_TIMEOUT'', cf_GracefulShutdownTimeout c),
      (''POSTGRES_MAX_CONN_LIFETIME'', cf_PostgresMaxConnLifetime c),
      (''POSTGRES_MAX_CONN_IDLE_TIME'', cf_PostgresMaxConnIdleTime c),
      (''POSTGRES_HEALTH_CHECK_PERIOD'', cf_PostgresHealthCheckPeriod c)]"

definition positive_values :: "config \<Rightarrow> (string \<times> int) list" where
  "positive_values c =
     [(''CACHE_MAX_BYTES'', cf_CacheMaxBytes c), (''CACHE_MAX_ITEMS'', cf_CacheMaxItems c),
      (''MAX_REQUEST_BYTES'', cf_MaxRequestBytes c), (''MAX_FILE_BYTES'', cf_MaxFileBytes c),
      (''MAX_JSON_BYTES'', cf_MaxJSONBytes c), (''MAX_GRANT_ITEMS'', cf_MaxGrantItems c),
      (''MAX_LIST_LIMIT'', cf_MaxListLimit c), (''POSTGRES_MAX_CONNS'', cf_PostgresMaxConns c)]"

definition not_positive :: "(string \<times> int) list \<Rightarrow> goerr list" where
  "not_positive items = concat (map (\<lambda>(name, value). problem (value \<le> 0) (name @ '' must be positive'')) items)"

text \<open>The order of Go's map of the S3 settings is not fixed; here they are in the order of the source.\<close>

definition validate_storage :: "config \<Rightarrow> goerr list" where
  "validate_storage c =
     (if cf_StorageDriver c = StorageFilesystem
      then problem (strings_TrimSpace (fc_Root (cf_FileStorage c)) = [])
             ''FILE_STORAGE_ROOT is required for filesystem storage''
      else if cf_StorageDriver c = StorageS3
      then concat (map (\<lambda>(name, value). problem (strings_TrimSpace value = []) (name @ '' is required for S3 storage''))
             [(''S3_ENDPOINT'', s3_Endpoint (cf_S3Storage c)), (''S3_BUCKET'', s3_Bucket (cf_S3Storage c)),
              (''S3_ACCESS_KEY'', s3_AccessKey (cf_S3Storage c)), (''S3_SECRET_KEY'', s3_SecretKey (cf_S3Storage c))])
      else [Opaque ''STORAGE_DRIVER must be filesystem or s3''])"

definition validate :: "config_lib \<Rightarrow> config \<Rightarrow> goerr list" where
  "validate L c =
     problem (strings_TrimSpace (cf_HTTPHost c) = []) ''HTTP_HOST must not be empty'' @
     problem (cf_HTTPPort c < 1 \<or> cf_HTTPPort c > 65535) ''HTTP_PORT must be between 1 and 65535'' @
     (case validatePostgresDSN L (cf_PostgresDSN c) of Some e \<Rightarrow> [e] | None \<Rightarrow> []) @
     problem (strings_TrimSpace (cf_AdminToken c) = []) ''ADMIN_TOKEN is required'' @
     validate_storage c @
     not_positive (positive_durations c) @
     problem (cf_PostgresMinConns c < 0) ''POSTGRES_MIN_CONNS must not be negative'' @
     problem (cf_PostgresMinConns c > cf_PostgresMaxConns c) ''POSTGRES_MIN_CONNS must not exceed POSTGRES_MAX_CONNS'' @
     problem (cf_PostgresMaxConns c > 2147483647) ''POSTGRES_MAX_CONNS is too large'' @
     not_positive (positive_values c) @
     problem (cf_MaxFileBytes c > cf_MaxRequestBytes c) ''MAX_FILE_BYTES must not exceed MAX_REQUEST_BYTES'' @
     problem (cf_MaxJSONBytes c > cf_MaxRequestBytes c) ''MAX_JSON_BYTES must not exceed MAX_REQUEST_BYTES'' @
     problem (cf_HTTPWriteTimeout c < cf_HTTPProcessingTimeout c)
       ''HTTP_WRITE_TIMEOUT must be at least HTTP_PROCESSING_TIMEOUT'' @
     problem (\<not> isLogLevel (cf_LogLevel c)) ''LOG_LEVEL must be debug, info, warn, or error''"

subsection \<open>Loading\<close>

text \<open>The loops over the fields of one type.\<close>

type_synonym 'a field = "string \<times> (config \<Rightarrow> 'a) \<times> ('a \<Rightarrow> config \<Rightarrow> config)"

fun load_fields :: "(string \<Rightarrow> 'a \<Rightarrow> goerr option \<times> 'a) \<Rightarrow> 'a field list \<Rightarrow> goerr list \<Rightarrow> config \<Rightarrow> goerr list \<times> config" where
  "load_fields parse [] problems c = (problems, c)"
| "load_fields parse ((name, get, put) # items) problems c =
     (case parse name (get c) of
        (err, value) \<Rightarrow> load_fields parse items (appendParse problems err) (put value c))"

definition duration_fields :: "duration field list" where
  "duration_fields =
     [(''SESSION_TTL'', cf_SessionTTL, \<lambda>v. cf_SessionTTL_update (\<lambda>_. v)),
      (''CACHE_TTL'', cf_CacheTTL, \<lambda>v. cf_CacheTTL_update (\<lambda>_. v)),
      (''HTTP_READ_TIMEOUT'', cf_HTTPReadTimeout, \<lambda>v. cf_HTTPReadTimeout_update (\<lambda>_. v)),
      (''HTTP_WRITE_TIMEOUT'', cf_HTTPWriteTimeout, \<lambda>v. cf_HTTPWriteTimeout_update (\<lambda>_. v)),
      (''HTTP_IDLE_TIMEOUT'', cf_HTTPIdleTimeout, \<lambda>v. cf_HTTPIdleTimeout_update (\<lambda>_. v)),
      (''HTTP_PROCESSING_TIMEOUT'', cf_HTTPProcessingTimeout, \<lambda>v. cf_HTTPProcessingTimeout_update (\<lambda>_. v)),
      (''GRACEFUL_SHUTDOWN_TIMEOUT'', cf_GracefulShutdownTimeout, \<lambda>v. cf_GracefulShutdownTimeout_update (\<lambda>_. v)),
      (''POSTGRES_MAX_CONN_LIFETIME'', cf_PostgresMaxConnLifetime, \<lambda>v. cf_PostgresMaxConnLifetime_update (\<lambda>_. v)),
      (''POSTGRES_MAX_CONN_IDLE_TIME'', cf_PostgresMaxConnIdleTime, \<lambda>v. cf_PostgresMaxConnIdleTime_update (\<lambda>_. v)),
      (''POSTGRES_HEALTH_CHECK_PERIOD'', cf_PostgresHealthCheckPeriod, \<lambda>v. cf_PostgresHealthCheckPeriod_update (\<lambda>_. v))]"

definition byte_fields :: "int field list" where
  "byte_fields =
     [(''CACHE_MAX_BYTES'', cf_CacheMaxBytes, \<lambda>v. cf_CacheMaxBytes_update (\<lambda>_. v)),
      (''MAX_REQUEST_BYTES'', cf_MaxRequestBytes, \<lambda>v. cf_MaxRequestBytes_update (\<lambda>_. v)),
      (''MAX_FILE_BYTES'', cf_MaxFileBytes, \<lambda>v. cf_MaxFileBytes_update (\<lambda>_. v)),
      (''MAX_JSON_BYTES'', cf_MaxJSONBytes, \<lambda>v. cf_MaxJSONBytes_update (\<lambda>_. v))]"

definition int_fields :: "int field list" where
  "int_fields =
     [(''CACHE_MAX_ITEMS'', cf_CacheMaxItems, \<lambda>v. cf_CacheMaxItems_update (\<lambda>_. v)),
      (''POSTGRES_MAX_CONNS'', cf_PostgresMaxConns, \<lambda>v. cf_PostgresMaxConns_update (\<lambda>_. v)),
      (''POSTGRES_MIN_CONNS'', cf_PostgresMinConns, \<lambda>v. cf_PostgresMinConns_update (\<lambda>_. v)),
      (''MAX_GRANT_ITEMS'', cf_MaxGrantItems, \<lambda>v. cf_MaxGrantItems_update (\<lambda>_. v)),
      (''MAX_LIST_LIMIT'', cf_MaxListLimit, \<lambda>v. cf_MaxListLimit_update (\<lambda>_. v))]"

definition load_server :: "env \<Rightarrow> config \<Rightarrow> goerr list \<times> config" where
  "load_server lookup c =
     (case parseInt lookup ''HTTP_PORT'' (cf_HTTPPort c) of
        (err, port) \<Rightarrow>
          (appendParse [] err,
           c\<lparr>cf_HTTPHost := setString lookup ''HTTP_HOST'' (cf_HTTPHost c), cf_HTTPPort := port,
             cf_PostgresDSN := setString lookup ''POSTGRES_DSN'' (cf_PostgresDSN c),
             cf_AdminToken := setString lookup ''ADMIN_TOKEN'' (cf_AdminToken c)\<rparr>))"

definition load_storage :: "config_lib \<Rightarrow> env \<Rightarrow> goerr list \<Rightarrow> config \<Rightarrow> goerr list \<times> config" where
  "load_storage L lookup problems c =
     (let s3 = cf_S3Storage c
      in case parseBool lookup ''S3_USE_TLS'' (s3_UseTLS s3) of
           (err, tls) \<Rightarrow>
             (appendParse problems err,
              c\<lparr>cf_StorageDriver :=
                  strings_ToLower L (strings_TrimSpace (setString lookup ''STORAGE_DRIVER'' (cf_StorageDriver c))),
                cf_FileStorage := \<lparr>fc_Root = setString lookup ''FILE_STORAGE_ROOT'' (fc_Root (cf_FileStorage c))\<rparr>,
                cf_S3Storage := \<lparr>s3_Endpoint = setString lookup ''S3_ENDPOINT'' (s3_Endpoint s3),
                  s3_Region = setString lookup ''S3_REGION'' (s3_Region s3),
                  s3_Bucket = setString lookup ''S3_BUCKET'' (s3_Bucket s3),
                  s3_AccessKey = setString lookup ''S3_ACCESS_KEY'' (s3_AccessKey s3),
                  s3_SecretKey = setString lookup ''S3_SECRET_KEY'' (s3_SecretKey s3), s3_UseTLS = tls\<rparr>\<rparr>))"

definition load_flags :: "config_lib \<Rightarrow> env \<Rightarrow> goerr list \<Rightarrow> config \<Rightarrow> goerr list \<times> config" where
  "load_flags L lookup problems c =
     (case parseBool lookup ''EXPOSE_CACHE_HEADER'' (cf_ExposeCacheHeader c) of
        (err, expose) \<Rightarrow>
          (appendParse problems err,
           c\<lparr>cf_LogLevel := strings_ToLower L (strings_TrimSpace (setString lookup ''LOG_LEVEL'' (cf_LogLevel c))),
             cf_ExposeCacheHeader := expose\<rparr>))"

definition loadFromLookup :: "config_lib \<Rightarrow> env \<Rightarrow> goerr + config" where
  "loadFromLookup L lookup =
     (case load_server lookup default_config of (problems, c) \<Rightarrow>
      case load_storage L lookup problems c of (problems, c) \<Rightarrow>
      case load_fields (parseDuration L lookup) duration_fields problems c of (problems, c) \<Rightarrow>
      case load_fields (parseInt64 lookup) byte_fields problems c of (problems, c) \<Rightarrow>
      case load_fields (parseInt lookup) int_fields problems c of (problems, c) \<Rightarrow>
      case load_flags L lookup problems c of (problems, c) \<Rightarrow>
        let problems = problems @ validate L c
        in if problems \<noteq> [] then Inl (Wrapped ''invalid configuration'' (Joined problems)) else Inr c)"

text \<open>\<open>net.JoinHostPort\<close>.\<close>

definition net_JoinHostPort :: "string \<Rightarrow> string \<Rightarrow> string" where
  "net_JoinHostPort host port =
     (if CHR '':'' \<in> set host then ''['' @ host @ '']:'' @ port else host @ '':'' @ port)"

definition httpAddress :: "config \<Rightarrow> string" where
  "httpAddress c = net_JoinHostPort (cf_HTTPHost c) (strconv_Itoa (cf_HTTPPort c))"

subsection \<open>What loading amounts to\<close>

text \<open>
  The reference: each field is its variable's value, or the default when the variable is not set
  (or, for the report of further problems, malformed).
\<close>

definition field_value :: "(string \<Rightarrow> 'a option) \<Rightarrow> env \<Rightarrow> string \<Rightarrow> 'a \<Rightarrow> 'a" where
  "field_value parse lookup name dst =
     (case lookup name of None \<Rightarrow> dst | Some s \<Rightarrow> (case parse s of None \<Rightarrow> dst | Some v \<Rightarrow> v))"

definition malformed :: "(string \<Rightarrow> 'a option) \<Rightarrow> env \<Rightarrow> string \<Rightarrow> bool" where
  "malformed parse lookup name \<longleftrightarrow> (case lookup name of None \<Rightarrow> False | Some s \<Rightarrow> parse s = None)"

definition configured :: "config_lib \<Rightarrow> env \<Rightarrow> config" where
  "configured L lookup =
     (let str = field_value Some lookup; dur = field_value (time_ParseDuration L) lookup;
          num = field_value strconv_ParseInt lookup; flag = field_value strconv_ParseBool lookup
      in \<lparr>cf_HTTPHost = str ''HTTP_HOST'' ''0.0.0.0'', cf_HTTPPort = num ''HTTP_PORT'' 8080,
          cf_PostgresDSN = str ''POSTGRES_DSN'' [], cf_AdminToken = str ''ADMIN_TOKEN'' [],
          cf_StorageDriver = strings_ToLower L (strings_TrimSpace (str ''STORAGE_DRIVER'' ''filesystem'')),
          cf_FileStorage = \<lparr>fc_Root = str ''FILE_STORAGE_ROOT'' ''./data/blobs''\<rparr>,
          cf_S3Storage = \<lparr>s3_Endpoint = str ''S3_ENDPOINT'' [], s3_Region = str ''S3_REGION'' ''us-east-1'',
            s3_Bucket = str ''S3_BUCKET'' [], s3_AccessKey = str ''S3_ACCESS_KEY'' [],
            s3_SecretKey = str ''S3_SECRET_KEY'' [], s3_UseTLS = flag ''S3_USE_TLS'' True\<rparr>,
          cf_SessionTTL = dur ''SESSION_TTL'' (24 * hour), cf_CacheTTL = dur ''CACHE_TTL'' (5 * minute),
          cf_CacheMaxBytes = num ''CACHE_MAX_BYTES'' 67108864, cf_CacheMaxItems = num ''CACHE_MAX_ITEMS'' 1000,
          cf_MaxRequestBytes = num ''MAX_REQUEST_BYTES'' 33554432, cf_MaxFileBytes = num ''MAX_FILE_BYTES'' 26214400,
          cf_MaxJSONBytes = num ''MAX_JSON_BYTES'' 1048576, cf_MaxGrantItems = num ''MAX_GRANT_ITEMS'' 100,
          cf_MaxListLimit = num ''MAX_LIST_LIMIT'' 100,
          cf_HTTPReadTimeout = dur ''HTTP_READ_TIMEOUT'' (10 * second),
          cf_HTTPWriteTimeout = dur ''HTTP_WRITE_TIMEOUT'' (30 * second),
          cf_HTTPIdleTimeout = dur ''HTTP_IDLE_TIMEOUT'' (60 * second),
          cf_HTTPProcessingTimeout = dur ''HTTP_PROCESSING_TIMEOUT'' (30 * second),
          cf_GracefulShutdownTimeout = dur ''GRACEFUL_SHUTDOWN_TIMEOUT'' (10 * second),
          cf_PostgresMaxConns = num ''POSTGRES_MAX_CONNS'' 10, cf_PostgresMinConns = num ''POSTGRES_MIN_CONNS'' 1,
          cf_PostgresMaxConnLifetime = dur ''POSTGRES_MAX_CONN_LIFETIME'' hour,
          cf_PostgresMaxConnIdleTime = dur ''POSTGRES_MAX_CONN_IDLE_TIME'' (30 * minute),
          cf_PostgresHealthCheckPeriod = dur ''POSTGRES_HEALTH_CHECK_PERIOD'' minute,
          cf_LogLevel = strings_ToLower L (strings_TrimSpace (str ''LOG_LEVEL'' ''info'')),
          cf_ExposeCacheHeader = flag ''EXPOSE_CACHE_HEADER'' False\<rparr>)"

definition malformed_problems :: "config_lib \<Rightarrow> env \<Rightarrow> goerr list" where
  "malformed_problems L lookup =
     (let bad = (\<lambda>m b names. concat (map (\<lambda>name. problem (b name) (name @ m)) names));
          dur = malformed (time_ParseDuration L) lookup;
          num = malformed strconv_ParseInt lookup; flag = malformed strconv_ParseBool lookup
      in bad '' must be an integer'' num [''HTTP_PORT''] @
         bad '' must be true or false'' flag [''S3_USE_TLS''] @
         bad '' must be a valid duration'' dur
           [''SESSION_TTL'', ''CACHE_TTL'', ''HTTP_READ_TIMEOUT'', ''HTTP_WRITE_TIMEOUT'', ''HTTP_IDLE_TIMEOUT'',
            ''HTTP_PROCESSING_TIMEOUT'', ''GRACEFUL_SHUTDOWN_TIMEOUT'', ''POSTGRES_MAX_CONN_LIFETIME'',
            ''POSTGRES_MAX_CONN_IDLE_TIME'', ''POSTGRES_HEALTH_CHECK_PERIOD''] @
         bad '' must be an integer number of bytes'' num
           [''CACHE_MAX_BYTES'', ''MAX_REQUEST_BYTES'', ''MAX_FILE_BYTES'', ''MAX_JSON_BYTES''] @
         bad '' must be an integer'' num
           [''CACHE_MAX_ITEMS'', ''POSTGRES_MAX_CONNS'', ''POSTGRES_MIN_CONNS'', ''MAX_GRANT_ITEMS'', ''MAX_LIST_LIMIT''] @
         bad '' must be true or false'' flag [''EXPOSE_CACHE_HEADER''])"

lemma parsers_eq:
  "setString lookup name s = field_value Some lookup name s"
  "parseDuration L lookup name d =
     (if malformed (time_ParseDuration L) lookup name then Some (Opaque (name @ '' must be a valid duration'')) else None,
      field_value (time_ParseDuration L) lookup name d)"
  "parseInt lookup name i =
     (if malformed strconv_ParseInt lookup name then Some (Opaque (name @ '' must be an integer'')) else None,
      field_value strconv_ParseInt lookup name i)"
  "parseInt64 lookup name i =
     (if malformed strconv_ParseInt lookup name then Some (Opaque (name @ '' must be an integer number of bytes'')) else None,
      field_value strconv_ParseInt lookup name i)"
  "parseBool lookup name b =
     (if malformed strconv_ParseBool lookup name then Some (Opaque (name @ '' must be true or false'')) else None,
      field_value strconv_ParseBool lookup name b)"
  by (simp_all add: setString_def parseDuration_def parseInt_def parseInt64_def parseBool_def strconv_Atoi_def
      field_value_def malformed_def split: option.split)

lemma appendParse_problem: "appendParse ps (if b then Some (Opaque m) else None) = ps @ problem b m"
  by (simp add: appendParse_def problem_def)

lemma load_durations: "load_fields (parseDuration L lookup) duration_fields ps c =
    (ps @ concat (map (\<lambda>name. problem (malformed (time_ParseDuration L) lookup name) (name @ '' must be a valid duration''))
       [''SESSION_TTL'', ''CACHE_TTL'', ''HTTP_READ_TIMEOUT'', ''HTTP_WRITE_TIMEOUT'', ''HTTP_IDLE_TIMEOUT'', ''HTTP_PROCESSING_TIMEOUT'', ''GRACEFUL_SHUTDOWN_TIMEOUT'', ''POSTGRES_MAX_CONN_LIFETIME'', ''POSTGRES_MAX_CONN_IDLE_TIME'', ''POSTGRES_HEALTH_CHECK_PERIOD'']),
     c\<lparr>cf_SessionTTL := field_value (time_ParseDuration L) lookup ''SESSION_TTL'' (cf_SessionTTL c),
        cf_CacheTTL := field_value (time_ParseDuration L) lookup ''CACHE_TTL'' (cf_CacheTTL c),
        cf_HTTPReadTimeout := field_value (time_ParseDuration L) lookup ''HTTP_READ_TIMEOUT'' (cf_HTTPReadTimeout c),
        cf_HTTPWriteTimeout := field_value (time_ParseDuration L) lookup ''HTTP_WRITE_TIMEOUT'' (cf_HTTPWriteTimeout c),
        cf_HTTPIdleTimeout := field_value (time_ParseDuration L) lookup ''HTTP_IDLE_TIMEOUT'' (cf_HTTPIdleTimeout c),
        cf_HTTPProcessingTimeout := field_value (time_ParseDuration L) lookup ''HTTP_PROCESSING_TIMEOUT'' (cf_HTTPProcessingTimeout c),
        cf_GracefulShutdownTimeout := field_value (time_ParseDuration L) lookup ''GRACEFUL_SHUTDOWN_TIMEOUT'' (cf_GracefulShutdownTimeout c),
        cf_PostgresMaxConnLifetime := field_value (time_ParseDuration L) lookup ''POSTGRES_MAX_CONN_LIFETIME'' (cf_PostgresMaxConnLifetime c),
        cf_PostgresMaxConnIdleTime := field_value (time_ParseDuration L) lookup ''POSTGRES_MAX_CONN_IDLE_TIME'' (cf_PostgresMaxConnIdleTime c),
        cf_PostgresHealthCheckPeriod := field_value (time_ParseDuration L) lookup ''POSTGRES_HEALTH_CHECK_PERIOD'' (cf_PostgresHealthCheckPeriod c)\<rparr>)"
  by (simp add: duration_fields_def parsers_eq appendParse_problem)

lemma load_bytes: "load_fields (parseInt64 lookup) byte_fields ps c =
    (ps @ concat (map (\<lambda>name. problem (malformed strconv_ParseInt lookup name) (name @ '' must be an integer number of bytes''))
       [''CACHE_MAX_BYTES'', ''MAX_REQUEST_BYTES'', ''MAX_FILE_BYTES'', ''MAX_JSON_BYTES'']),
     c\<lparr>cf_CacheMaxBytes := field_value strconv_ParseInt lookup ''CACHE_MAX_BYTES'' (cf_CacheMaxBytes c),
        cf_MaxRequestBytes := field_value strconv_ParseInt lookup ''MAX_REQUEST_BYTES'' (cf_MaxRequestBytes c),
        cf_MaxFileBytes := field_value strconv_ParseInt lookup ''MAX_FILE_BYTES'' (cf_MaxFileBytes c),
        cf_MaxJSONBytes := field_value strconv_ParseInt lookup ''MAX_JSON_BYTES'' (cf_MaxJSONBytes c)\<rparr>)"
  by (simp add: byte_fields_def parsers_eq appendParse_problem)

lemma load_ints: "load_fields (parseInt lookup) int_fields ps c =
    (ps @ concat (map (\<lambda>name. problem (malformed strconv_ParseInt lookup name) (name @ '' must be an integer''))
       [''CACHE_MAX_ITEMS'', ''POSTGRES_MAX_CONNS'', ''POSTGRES_MIN_CONNS'', ''MAX_GRANT_ITEMS'', ''MAX_LIST_LIMIT'']),
     c\<lparr>cf_CacheMaxItems := field_value strconv_ParseInt lookup ''CACHE_MAX_ITEMS'' (cf_CacheMaxItems c),
        cf_PostgresMaxConns := field_value strconv_ParseInt lookup ''POSTGRES_MAX_CONNS'' (cf_PostgresMaxConns c),
        cf_PostgresMinConns := field_value strconv_ParseInt lookup ''POSTGRES_MIN_CONNS'' (cf_PostgresMinConns c),
        cf_MaxGrantItems := field_value strconv_ParseInt lookup ''MAX_GRANT_ITEMS'' (cf_MaxGrantItems c),
        cf_MaxListLimit := field_value strconv_ParseInt lookup ''MAX_LIST_LIMIT'' (cf_MaxListLimit c)\<rparr>)"
  by (simp add: int_fields_def parsers_eq appendParse_problem)

lemma same_outcome:
  "ps = ps' \<Longrightarrow> c = c' \<Longrightarrow>
   (let problems = ps @ validate L c in if problems \<noteq> [] then Inl (f problems) else Inr c) =
   (let problems = ps' @ validate L c' in if problems = [] then Inr c' else Inl (f problems))"
  by (simp add: Let_def)

lemma load_reference:
  "loadFromLookup L lookup =
     (let problems = malformed_problems L lookup @ validate L (configured L lookup)
      in if problems = [] then Inr (configured L lookup)
         else Inl (Wrapped ''invalid configuration'' (Joined problems)))"
proof -
  define c1 where "c1 = default_config\<lparr>cf_HTTPHost := field_value Some lookup ''HTTP_HOST'' ''0.0.0.0'',
      cf_HTTPPort := field_value strconv_ParseInt lookup ''HTTP_PORT'' 8080,
      cf_PostgresDSN := field_value Some lookup ''POSTGRES_DSN'' [],
      cf_AdminToken := field_value Some lookup ''ADMIN_TOKEN'' []\<rparr>"
  define c2 where "c2 = c1\<lparr>cf_StorageDriver :=
        strings_ToLower L (strings_TrimSpace (field_value Some lookup ''STORAGE_DRIVER'' ''filesystem'')),
      cf_FileStorage := \<lparr>fc_Root = field_value Some lookup ''FILE_STORAGE_ROOT'' ''./data/blobs''\<rparr>,
      cf_S3Storage := cf_S3Storage (configured L lookup)\<rparr>"
  define c3 where "c3 = c2\<lparr>cf_SessionTTL := field_value (time_ParseDuration L) lookup ''SESSION_TTL'' (24 * hour), cf_CacheTTL := field_value (time_ParseDuration L) lookup ''CACHE_TTL'' (5 * minute), cf_HTTPReadTimeout := field_value (time_ParseDuration L) lookup ''HTTP_READ_TIMEOUT'' (10 * second), cf_HTTPWriteTimeout := field_value (time_ParseDuration L) lookup ''HTTP_WRITE_TIMEOUT'' (30 * second), cf_HTTPIdleTimeout := field_value (time_ParseDuration L) lookup ''HTTP_IDLE_TIMEOUT'' (60 * second), cf_HTTPProcessingTimeout := field_value (time_ParseDuration L) lookup ''HTTP_PROCESSING_TIMEOUT'' (30 * second), cf_GracefulShutdownTimeout := field_value (time_ParseDuration L) lookup ''GRACEFUL_SHUTDOWN_TIMEOUT'' (10 * second), cf_PostgresMaxConnLifetime := field_value (time_ParseDuration L) lookup ''POSTGRES_MAX_CONN_LIFETIME'' hour, cf_PostgresMaxConnIdleTime := field_value (time_ParseDuration L) lookup ''POSTGRES_MAX_CONN_IDLE_TIME'' (30 * minute), cf_PostgresHealthCheckPeriod := field_value (time_ParseDuration L) lookup ''POSTGRES_HEALTH_CHECK_PERIOD'' minute\<rparr>"
  define c4 where "c4 = c3\<lparr>cf_CacheMaxBytes := field_value strconv_ParseInt lookup ''CACHE_MAX_BYTES'' 67108864, cf_MaxRequestBytes := field_value strconv_ParseInt lookup ''MAX_REQUEST_BYTES'' 33554432, cf_MaxFileBytes := field_value strconv_ParseInt lookup ''MAX_FILE_BYTES'' 26214400, cf_MaxJSONBytes := field_value strconv_ParseInt lookup ''MAX_JSON_BYTES'' 1048576\<rparr>"
  define c5 where "c5 = c4\<lparr>cf_CacheMaxItems := field_value strconv_ParseInt lookup ''CACHE_MAX_ITEMS'' 1000, cf_PostgresMaxConns := field_value strconv_ParseInt lookup ''POSTGRES_MAX_CONNS'' 10, cf_PostgresMinConns := field_value strconv_ParseInt lookup ''POSTGRES_MIN_CONNS'' 1, cf_MaxGrantItems := field_value strconv_ParseInt lookup ''MAX_GRANT_ITEMS'' 100, cf_MaxListLimit := field_value strconv_ParseInt lookup ''MAX_LIST_LIMIT'' 100\<rparr>"
  define d3 where "d3 = concat (map (\<lambda>name. problem (malformed (time_ParseDuration L) lookup name) (name @ '' must be a valid duration''))
      [''SESSION_TTL'', ''CACHE_TTL'', ''HTTP_READ_TIMEOUT'', ''HTTP_WRITE_TIMEOUT'', ''HTTP_IDLE_TIMEOUT'', ''HTTP_PROCESSING_TIMEOUT'', ''GRACEFUL_SHUTDOWN_TIMEOUT'', ''POSTGRES_MAX_CONN_LIFETIME'', ''POSTGRES_MAX_CONN_IDLE_TIME'', ''POSTGRES_HEALTH_CHECK_PERIOD''])"
  define d4 where "d4 = concat (map (\<lambda>name. problem (malformed strconv_ParseInt lookup name) (name @ '' must be an integer number of bytes''))
      [''CACHE_MAX_BYTES'', ''MAX_REQUEST_BYTES'', ''MAX_FILE_BYTES'', ''MAX_JSON_BYTES''])"
  define d5 where "d5 = concat (map (\<lambda>name. problem (malformed strconv_ParseInt lookup name) (name @ '' must be an integer''))
      [''CACHE_MAX_ITEMS'', ''POSTGRES_MAX_CONNS'', ''POSTGRES_MIN_CONNS'', ''MAX_GRANT_ITEMS'', ''MAX_LIST_LIMIT''])"
  note defs = default_config_def StorageFilesystem_def configured_def Let_def parsers_eq appendParse_problem
  have 1: "load_server lookup default_config = (problem (malformed strconv_ParseInt lookup ''HTTP_PORT'')
        (''HTTP_PORT'' @ '' must be an integer''), c1)"
    by (simp add: load_server_def c1_def defs)
  have 2: "load_storage L lookup ps c1 = (ps @ problem (malformed strconv_ParseBool lookup ''S3_USE_TLS'')
        (''S3_USE_TLS'' @ '' must be true or false''), c2)" for ps
    by (simp add: load_storage_def c2_def c1_def defs)
  have 3: "load_fields (parseDuration L lookup) duration_fields ps c2 = (ps @ d3, c3)" for ps
    unfolding load_durations d3_def by (simp add: c3_def c2_def c1_def defs)
  have 4: "load_fields (parseInt64 lookup) byte_fields ps c3 = (ps @ d4, c4)" for ps
    unfolding load_bytes d4_def by (simp add: c4_def c3_def c2_def c1_def defs)
  have 5: "load_fields (parseInt lookup) int_fields ps c4 = (ps @ d5, c5)" for ps
    unfolding load_ints d5_def by (simp add: c5_def c4_def c3_def c2_def c1_def defs)
  have 6: "load_flags L lookup ps c5 = (ps @ problem (malformed strconv_ParseBool lookup ''EXPOSE_CACHE_HEADER'')
        (''EXPOSE_CACHE_HEADER'' @ '' must be true or false''), configured L lookup)" for ps
    by (simp add: load_flags_def c5_def c4_def c3_def c2_def c1_def defs)
  show ?thesis
    unfolding loadFromLookup_def 1 2 3 4 5 6 prod.case
    by (rule same_outcome) (simp_all add: malformed_problems_def Let_def d3_def d4_def d5_def)
qed

text \<open>C23: Loading is exactly this: every field is the value of its variable or its default, and the
  configuration is refused with all its problems, the malformed variables in reading order before
  the violated rules, precisely when there is one.\<close>

theorem load_is_configured:
  "loadFromLookup L lookup =
     (let problems = malformed_problems L lookup @ validate L (configured L lookup)
      in if problems = [] then Inr (configured L lookup)
         else Inl (Wrapped ''invalid configuration'' (Joined problems)))"
  by (rule load_reference)

lemma problem_Nil [simp]: "problem b m = [] \<longleftrightarrow> \<not> b"
  by (simp add: problem_def)

lemma not_positive_Nil: "not_positive items = [] \<longleftrightarrow> (\<forall>(name, v) \<in> set items. 0 < v)"
  by (auto simp: not_positive_def)

lemma load_valid: "loadFromLookup L lookup = Inr c \<Longrightarrow> validate L c = [] \<and> malformed_problems L lookup = [] \<and> c = configured L lookup"
  by (simp add: load_reference Let_def split: if_splits)

lemma valid_bounds:
  assumes "validate L c = []"
  shows "1 \<le> cf_HTTPPort c \<and> cf_HTTPPort c \<le> 65535 \<and> strings_TrimSpace (cf_AdminToken c) \<noteq> [] \<and>
    0 < cf_SessionTTL c \<and> 0 < cf_CacheTTL c \<and> 0 < cf_HTTPReadTimeout c \<and> 0 < cf_HTTPIdleTimeout c \<and>
    0 < cf_HTTPProcessingTimeout c \<and> cf_HTTPProcessingTimeout c \<le> cf_HTTPWriteTimeout c \<and>
    0 < cf_GracefulShutdownTimeout c \<and> 0 < cf_CacheMaxBytes c \<and> 0 < cf_CacheMaxItems c \<and>
    0 < cf_MaxFileBytes c \<and> cf_MaxFileBytes c \<le> cf_MaxRequestBytes c \<and>
    0 < cf_MaxJSONBytes c \<and> cf_MaxJSONBytes c \<le> cf_MaxRequestBytes c \<and>
    0 < cf_MaxGrantItems c \<and> 0 < cf_MaxListLimit c \<and>
    0 \<le> cf_PostgresMinConns c \<and> cf_PostgresMinConns c \<le> cf_PostgresMaxConns c \<and>
    0 < cf_PostgresMaxConns c \<and> cf_PostgresMaxConns c \<le> 2147483647 \<and>
    0 < cf_PostgresMaxConnLifetime c \<and> 0 < cf_PostgresMaxConnIdleTime c \<and> 0 < cf_PostgresHealthCheckPeriod c \<and>
    (cf_StorageDriver c = ''filesystem'' \<and> strings_TrimSpace (fc_Root (cf_FileStorage c)) \<noteq> [] \<or>
     cf_StorageDriver c = ''s3'' \<and> strings_TrimSpace (s3_Bucket (cf_S3Storage c)) \<noteq> []) \<and>
    isLogLevel (cf_LogLevel c)"
proof -
  note v = assms
  then have d: "not_positive (positive_durations c) = []" "not_positive (positive_values c) = []" "validate_storage c = []"
    by (simp_all add: validate_def)
  have s: "cf_StorageDriver c = ''filesystem'' \<and> strings_TrimSpace (fc_Root (cf_FileStorage c)) \<noteq> [] \<or>
      cf_StorageDriver c = ''s3'' \<and> strings_TrimSpace (s3_Bucket (cf_S3Storage c)) \<noteq> []"
    using d(3) by (simp add: validate_storage_def StorageFilesystem_def StorageS3_def split: if_splits)
  have p: "1 \<le> cf_HTTPPort c" "cf_HTTPPort c \<le> 65535" "strings_TrimSpace (cf_AdminToken c) \<noteq> []"
    "0 \<le> cf_PostgresMinConns c" "cf_PostgresMinConns c \<le> cf_PostgresMaxConns c" "cf_PostgresMaxConns c \<le> 2147483647"
    "cf_MaxFileBytes c \<le> cf_MaxRequestBytes c" "cf_MaxJSONBytes c \<le> cf_MaxRequestBytes c"
    "cf_HTTPProcessingTimeout c \<le> cf_HTTPWriteTimeout c" "isLogLevel (cf_LogLevel c)"
    using v by (simp_all add: validate_def)
  show ?thesis
    using d(1,2) s p unfolding not_positive_Nil positive_durations_def positive_values_def by simp
qed

text \<open>C22: A configuration that loads is within its bounds: a TCP port, positive timeouts and limits,
  a request limit above the file and JSON limits, a write timeout no shorter than the processing
  timeout, pool sizes that fit the pool's 32 bits, an administrator token that is not blank, and a
  storage driver with its settings.\<close>

theorem loaded_bounds:
  assumes "loadFromLookup L lookup = Inr c"
  shows "1 \<le> cf_HTTPPort c \<and> cf_HTTPPort c \<le> 65535 \<and> strings_TrimSpace (cf_AdminToken c) \<noteq> [] \<and>
    0 < cf_SessionTTL c \<and> 0 < cf_CacheTTL c \<and> 0 < cf_HTTPReadTimeout c \<and> 0 < cf_HTTPIdleTimeout c \<and>
    0 < cf_HTTPProcessingTimeout c \<and> cf_HTTPProcessingTimeout c \<le> cf_HTTPWriteTimeout c \<and>
    0 < cf_GracefulShutdownTimeout c \<and> 0 < cf_CacheMaxBytes c \<and> 0 < cf_CacheMaxItems c \<and>
    0 < cf_MaxFileBytes c \<and> cf_MaxFileBytes c \<le> cf_MaxRequestBytes c \<and>
    0 < cf_MaxJSONBytes c \<and> cf_MaxJSONBytes c \<le> cf_MaxRequestBytes c \<and>
    0 < cf_MaxGrantItems c \<and> 0 < cf_MaxListLimit c \<and>
    0 \<le> cf_PostgresMinConns c \<and> cf_PostgresMinConns c \<le> cf_PostgresMaxConns c \<and>
    0 < cf_PostgresMaxConns c \<and> cf_PostgresMaxConns c \<le> 2147483647 \<and>
    0 < cf_PostgresMaxConnLifetime c \<and> 0 < cf_PostgresMaxConnIdleTime c \<and> 0 < cf_PostgresHealthCheckPeriod c \<and>
    (cf_StorageDriver c = ''filesystem'' \<and> strings_TrimSpace (fc_Root (cf_FileStorage c)) \<noteq> [] \<or>
     cf_StorageDriver c = ''s3'' \<and> strings_TrimSpace (s3_Bucket (cf_S3Storage c)) \<noteq> []) \<and>
    isLogLevel (cf_LogLevel c)"
  by (rule valid_bounds [OF load_valid [OF assms, THEN conjunct1]])

text \<open>A concrete environment; the parameters behave as documented on it.\<close>

definition demo_config_lib :: config_lib where
  "demo_config_lib = \<lparr>time_ParseDuration = (\<lambda>s. if s = ''1h'' then Some hour else if s = ''5s'' then Some (5 * second) else None),
     url_Parse = (\<lambda>s. if strings_HasPrefix s ''postgres://'' then Some (''postgres'', ''db'', ''/app'') else None),
     strings_ToLower = (\<lambda>s. s)\<rparr>"

definition demo_env :: env where
  "demo_env = map_of [(''POSTGRES_DSN'', ''postgres://db/app''), (''ADMIN_TOKEN'', ''secret''), (''HTTP_PORT'', ''80''),
     (''SESSION_TTL'', ''1h''), (''MAX_LIST_LIMIT'', ''50'')]"

lemma demo_well_formed: "malformed_problems demo_config_lib demo_env = []"
  by (simp add: malformed_problems_def malformed_def demo_env_def demo_config_lib_def strconv_ParseInt_def
      is_dec_def digit_rune_def dec_value_def max_int64_def)

lemma demo_valid: "validate demo_config_lib (configured demo_config_lib demo_env) = []"
  by code_simp

lemma loaded_bounds_witness: "\<exists>c. loadFromLookup demo_config_lib demo_env = Inr c \<and> cf_HTTPPort c \<le> 65535"
proof -
  obtain c where "loadFromLookup demo_config_lib demo_env = Inr c"
    using demo_well_formed demo_valid by (simp add: load_reference)
  with loaded_bounds [OF this] show ?thesis by blast
qed

end
