(* ===== verification/Server.thy ===== *)
theory Server
  imports HttpSound PgService Config
begin

text \<open>
  The server as \<open>cmd/server/main.go\<close> puts it together: the services on the PostgreSQL store and the blob
  directory, the response cache, the epoch of its keys, the metrics and the log in one state, and the
  handler over them.
\<close>

record server =
  sv_world :: world
  sv_cache :: memory
  sv_epoch :: nat
  sv_metrics :: registry
  sv_log :: "log_line list"

text \<open>Calls that reach only the database, the disk, the clock and the random source.\<close>

definition on_world :: "(world \<Rightarrow> 'a \<times> world) \<Rightarrow> server \<Rightarrow> 'a \<times> server" where
  "on_world f s = (case f (sv_world s) of (a, w) \<Rightarrow> (a, s\<lparr>sv_world := w\<rparr>))"

subsection \<open>The ports on the state of the server\<close>

definition server_users :: "server user_repository" where
  "server_users = \<lparr>ur_Create = (\<lambda>c l h. on_world (pg_CreateUser c l h)), ur_ByLogin = (\<lambda>c l. on_world (pg_ByLogin c l)),
     ur_ExistingLogins = (\<lambda>c ls. on_world (pg_ExistingLogins c ls))\<rparr>"

definition server_sessions :: "server session_repository" where
  "server_sessions = \<lparr>sr_Create = (\<lambda>c u h t. on_world (pg_CreateSession c u h t)),
     sr_ByTokenHash = (\<lambda>c h now. on_world (pg_ByTokenHash c h now)), sr_Revoke = (\<lambda>c h now. on_world (pg_Revoke c h now))\<rparr>"

definition server_documents :: "golib \<Rightarrow> server document_repository" where
  "server_documents L = \<lparr>dr_Create = (\<lambda>c x. on_world (dr_Create (pg_documents L) c x)),
     dr_ByID = (\<lambda>c i. on_world (dr_ByID (pg_documents L) c i)),
     dr_ByIDAccessible = (\<lambda>c i u. on_world (dr_ByIDAccessible (pg_documents L) c i u)),
     dr_List = (\<lambda>c u f. on_world (dr_List (pg_documents L) c u f)),
     dr_Delete = (\<lambda>c i u. on_world (dr_Delete (pg_documents L) c i u))\<rparr>"

definition server_cleanup :: "server cleanup_repository" where
  "server_cleanup = \<lparr>cr_Claim = (\<lambda>c n t. on_world (cr_Claim pg_cleanup c n t)),
     cr_Complete = (\<lambda>c i. on_world (cr_Complete pg_cleanup c i)),
     cr_CompleteByStorageKey = (\<lambda>c k. on_world (cr_CompleteByStorageKey pg_cleanup c k)),
     cr_Retry = (\<lambda>c i t. on_world (cr_Retry pg_cleanup c i t))\<rparr>"

definition server_blobs :: "server blob_storage" where
  "server_blobs = \<lparr>bs_Put = (\<lambda>c k r. on_world (fs_Put c k r)), bs_Open = (\<lambda>c k. on_world (fs_Open c k)),
     bs_Delete = (\<lambda>c k. on_world (fs_Delete c k))\<rparr>"

subsection \<open>The response cache\<close>

text \<open>
  The methods of \<open>Memory\<close> first ask for the error of the context, then read the clock. The code does not
  read it for a key that is absent or an entry that is not stored; the environment that answers is arbitrary.
\<close>

definition cache_Get :: "ctx \<Rightarrow> string \<Rightarrow> server \<Rightarrow> entry option \<times> server" where
  "cache_Get c key s =
     (case on_world (ctx_Err c) s of
        (Some e, s1) \<Rightarrow> (None, s1)
      | (None, s1) \<Rightarrow>
          (case on_world time_Now s1 of
             (now, s2) \<Rightarrow>
               (case mem_Get False now key (sv_cache s2) of (found, m) \<Rightarrow> (found, s2\<lparr>sv_cache := m\<rparr>))))"

definition cache_Put :: "ctx \<Rightarrow> string \<Rightarrow> entry \<Rightarrow> duration \<Rightarrow> server \<Rightarrow> server" where
  "cache_Put c key e ttl s =
     (case on_world (ctx_Err c) s of
        (Some err, s1) \<Rightarrow> s1
      | (None, s1) \<Rightarrow>
          (case on_world time_Now s1 of (now, s2) \<Rightarrow> s2\<lparr>sv_cache := cache_Set now key e ttl (sv_cache s2)\<rparr>))"

definition cache_Invalidate :: "ctx \<Rightarrow> string list \<Rightarrow> server \<Rightarrow> server" where
  "cache_Invalidate c tags s =
     (case on_world (ctx_Err c) s of
        (Some err, s1) \<Rightarrow> s1
      | (None, s1) \<Rightarrow> s1\<lparr>sv_cache := mem_Invalidate False tags (sv_cache s1)\<rparr>)"

definition cache_Stats :: "server \<Rightarrow> int \<times> int" where
  "cache_Stats s = (case mem_Stats (sv_cache s) of (bytes, items) \<Rightarrow> (bytes, int items))"

definition server_cache :: "server cache_api" where
  "server_cache = \<lparr>ca_Get = cache_Get, ca_Set = cache_Put, ca_Invalidate = cache_Invalidate, ca_Stats = Some cache_Stats,
     ca_EntryFits = Some (\<lambda>key e n s. mem_EntryFits key e n (sv_cache s))\<rparr>"

definition server_epoch :: "server epoch" where
  "server_epoch = \<lparr>ep_Load = sv_epoch, ep_Add1 = (\<lambda>s. s\<lparr>sv_epoch := wrapu64 (sv_epoch s + 1)\<rparr>)\<rparr>"

subsection \<open>Metrics and log\<close>

definition server_metrics :: "float_ops \<Rightarrow> server metrics_api" where
  "server_metrics fl =
     \<lparr>me_ObserveRequest = (\<lambda>name method status elapsed s.
        s\<lparr>sv_metrics := observeRequest fl name method status (fl_seconds fl elapsed) (sv_metrics s)\<rparr>),
      me_ObserveCache = (\<lambda>hit s. s\<lparr>sv_metrics := observeCache hit (sv_metrics s)\<rparr>),
      me_SetCacheSize = (\<lambda>bytes items s. s\<lparr>sv_metrics := setCacheSize bytes items (sv_metrics s)\<rparr>),
      me_ObserveFile = (\<lambda>dir n s. s\<lparr>sv_metrics := observeFile dir n (sv_metrics s)\<rparr>),
      me_ObserveTimeout = Some (\<lambda>name method streaming s.
        s\<lparr>sv_metrics := observeTimeout name method streaming (sv_metrics s)\<rparr>)\<rparr>"

text \<open>A logger writes the lines of its level and above.\<close>

fun level_rank :: "logLevel \<Rightarrow> nat" where
  "level_rank LevelDebug = 0"
| "level_rank LevelInfo = 1"
| "level_rank LevelWarn = 2"
| "level_rank LevelError = 3"

definition line_level :: "log_line \<Rightarrow> logLevel" where
  "line_level l = (case l of PanicRecovered _ _ _ \<Rightarrow> LevelError | RequestCompleted level _ _ _ _ _ _ _ \<Rightarrow> level)"

definition server_log :: "logLevel \<Rightarrow> log_line \<Rightarrow> server \<Rightarrow> server" where
  "server_log level l s = (if level_rank level \<le> level_rank (line_level l) then s\<lparr>sv_log := sv_log s @ [l]\<rparr> else s)"

subsection \<open>The wiring of \<open>run\<close>\<close>

text \<open>\<open>InvalidateDelete\<close>.\<close>

definition invalidate_delete :: "ctx \<Rightarrow> string \<Rightarrow> (server, unit) op" where
  "invalidate_delete c i s =
     (let s1 = ep_Add1 server_epoch s;
          s2 = cache_Invalidate c [''documents:list'', ''document:'' @ i] s1;
          (bytes, items) = cache_Stats s2;
          s3 = s2\<lparr>sv_metrics := setCacheSize bytes items (sv_metrics s2)\<rparr>
      in case on_world (ctx_Err c) s3 of
           (Some e, s4) \<Rightarrow> (Inl e, s4)
         | (None, s4) \<Rightarrow> (Inr (), s4))"

definition int32 :: "int \<Rightarrow> int" where
  "int32 x = (x + 2147483648) mod 4294967296 - 2147483648"

definition pool_config :: "config \<Rightarrow> pg_config" where
  "pool_config cfg = \<lparr>pc_DSN = cf_PostgresDSN cfg, pc_MaxConns = int32 (cf_PostgresMaxConns cfg),
     pc_MinConns = int32 (cf_PostgresMinConns cfg), pc_MaxConnLifetime = cf_PostgresMaxConnLifetime cfg,
     pc_MaxConnIdleTime = cf_PostgresMaxConnIdleTime cfg, pc_HealthCheckPeriod = cf_PostgresHealthCheckPeriod cfg\<rparr>"

text \<open>\<open>Readiness\<close>; \<open>is_dir\<close> is what \<open>os.Stat\<close> says of the blob root.\<close>

definition readiness :: "bool \<Rightarrow> ctx \<Rightarrow> server \<Rightarrow> goerr option \<times> server" where
  "readiness is_dir c s =
     (case on_world pg_Ping s of
        (Inl e, s1) \<Rightarrow> (Some e, s1)
      | (Inr _, s1) \<Rightarrow> (case on_world (fs_Ping is_dir c) s1 of (Inl e, s2) \<Rightarrow> (Some e, s2) | (Inr _, s2) \<Rightarrow> (None, s2)))"

definition new_auth :: "golib \<Rightarrow> config \<Rightarrow> goerr + server auth_service" where
  "new_auth L cfg = newAuthService L (Some server_users) (Some server_sessions)
     \<lparr>ac_AdminToken = cf_AdminToken cfg, ac_SessionTTL = cf_SessionTTL cfg, ac_PasswordCost = 0\<rparr>
     (\<lambda>n. on_world (rand_Read n)) (on_world time_Now) (\<lambda>p k. on_world (bcrypt_op L p k))"

definition new_docs :: "golib \<Rightarrow> config \<Rightarrow> goerr + server doc_service" where
  "new_docs L cfg = newDocService (Some (server_documents L)) None (Some server_users) (Some server_blobs)
     \<lparr>dc_MaxFileBytes = cf_MaxFileBytes cfg, dc_MaxGrantItems = cf_MaxGrantItems cfg, dc_MaxListLimit = cf_MaxListLimit cfg,
      dc_Cleanup = Some server_cleanup, dc_InvalidateDelete = Some invalidate_delete,
      dc_CleanupTimeout = cf_HTTPProcessingTimeout cfg\<rparr> (\<lambda>n. on_world (rand_Read n))"

definition new_worker :: "config \<Rightarrow> goerr + server cleanup_worker" where
  "new_worker cfg = newCleanupWorker (Some server_cleanup) (Some server_blobs)
     \<lparr>wc_BatchSize = 0, wc_PollInterval = 0, wc_OperationTimeout = cf_HTTPProcessingTimeout cfg, wc_InitialBackoff = 0,
      wc_MaxBackoff = 0, wc_Now = None\<rparr> (on_world time_Now)"

definition auth_api :: "golib \<Rightarrow> server auth_service \<Rightarrow> server auth_api" where
  "auth_api L A = \<lparr>aa_Register = auth_Register L A, aa_Authenticate = auth_Authenticate L A, aa_Authorize = auth_Authorize L A,
     aa_Logout = auth_Logout L A\<rparr>"

definition doc_api :: "golib \<Rightarrow> server doc_service \<Rightarrow> server doc_api" where
  "doc_api L S = \<lparr>da_Upload = doc_Upload L S, da_List = doc_List L S, da_Get = doc_Get S, da_Delete = doc_Delete S,
     da_GetMetadata = Some (doc_getMetadata S), da_InvalidatesDeleteCache = Some (invalidatesDeleteCache S)\<rparr>"

definition new_dependencies ::
  "golib \<Rightarrow> float_ops \<Rightarrow> bool \<Rightarrow> config \<Rightarrow> server auth_service \<Rightarrow> server doc_service \<Rightarrow> server dependencies" where
  "new_dependencies L fl is_dir cfg A S =
     \<lparr>dp_Auth = Some (auth_api L A), dp_Documents = Some (doc_api L S), dp_Cache = Some server_cache,
      dp_CacheEpoch = Some server_epoch, dp_CacheTTL = cf_CacheTTL cfg, dp_ExposeCacheHeader = cf_ExposeCacheHeader cfg,
      dp_Logger = Some (server_log (newLogger (cf_LogLevel cfg))), dp_Metrics = Some (server_metrics fl),
      dp_Readiness = Some (readiness is_dir), dp_ProcessingTimeout = cf_HTTPProcessingTimeout cfg,
      dp_Limits = \<lparr>lm_MaxRequestBytes = cf_MaxRequestBytes cfg, lm_MaxFileBytes = cf_MaxFileBytes cfg,
        lm_MaxJSONBytes = cf_MaxJSONBytes cfg, lm_MaxGrantItems = cf_MaxGrantItems cfg, lm_MaxListLimit = cf_MaxListLimit cfg\<rparr>\<rparr>"

definition new_state :: "config \<Rightarrow> world \<Rightarrow> server" where
  "new_state cfg w = \<lparr>sv_world = w, sv_cache = newMemory (cf_CacheMaxBytes cfg) (cf_CacheMaxItems cfg), sv_epoch = 0,
     sv_metrics = newMetrics, sv_log = []\<rparr>"

text \<open>
  The start of \<open>run\<close> on a loaded configuration: the handler and the worker with their state, or the error
  that stops the program. \<open>loads\<close> is the flight group, \<open>is_dir\<close> and \<open>absPath\<close> are the file system's.
\<close>

definition start ::
  "golib \<Rightarrow> float_ops \<Rightarrow> (string \<Rightarrow> bool) \<Rightarrow> (string \<Rightarrow> string) \<Rightarrow> bool \<Rightarrow> (string \<Rightarrow> server \<Rightarrow> flight \<times> server) \<Rightarrow> config \<Rightarrow>
   world \<Rightarrow> (goerr + server handler \<times> server cleanup_worker \<times> server) \<times> world" where
  "start L fl dsn_ok absPath is_dir loads cfg w =
     (case pg_Open dsn_ok (pool_config cfg) w of
        (Inl e, w1) \<Rightarrow> (Inl e, w1)
      | (Inr pool, w1) \<Rightarrow>
          (case new_auth L cfg of
             Inl e \<Rightarrow> (Inl e, w1)
           | Inr A \<Rightarrow>
               if cf_StorageDriver cfg \<noteq> StorageFilesystem
               then (Inl (Opaque ''configured blob storage driver is not implemented''), w1)
               else
                 (case newFileStorage absPath (fc_Root (cf_FileStorage cfg)) w1 of
                    (Inl e, w2) \<Rightarrow> (Inl e, w2)
                  | (Inr root, w2) \<Rightarrow>
                      (case new_docs L cfg of
                         Inl e \<Rightarrow> (Inl e, w2)
                       | Inr S \<Rightarrow>
                           (case new_worker cfg of
                              Inl e \<Rightarrow> (Inl e, w2)
                            | Inr W \<Rightarrow>
                                (Inr (newHandler (server_log LevelInfo) server_epoch loads (new_dependencies L fl is_dir cfg A S), W,
                                   new_state cfg w2), w2))))))"

text \<open>The end of \<open>run\<close>: the server stopped by itself, or a signal arrived and it was shut down.\<close>

datatype stop = Served goerr | Signalled (shutdown_error: "goerr option") (close_error: "goerr option")

fun stop_result :: "stop \<Rightarrow> goerr option" where
  "stop_result (Served e) = (if errors_Is e HttpErrServerClosed then None else Some e)"
| "stop_result (Signalled None c) = None"
| "stop_result (Signalled (Some e) None) = Some e"
| "stop_result (Signalled (Some e) (Some c)) = errors_Join [Some e, Some c]"

end
