(* ===== verification/ServerLift.thy ===== *)
theory ServerLift
  imports Server
begin

text \<open>
  The services on the state of the server do to the database and the disk what they do there alone; only
  a deletion reaches the response cache as well.
\<close>

lemma on_world_ops:
  "on_world (and_then f g) = and_then (on_world f) (\<lambda>a. on_world (g a))"
  "on_world (map_err e f) = map_err e (on_world f)" "on_world (ret a) = ret a" "on_world (fail err) = fail err"
  by (rule ext, simp add: on_world_def and_then_def map_err_def split: prod.split sum.split)+

lemma on_world_if: "on_world (if b then f else g) = (if b then on_world f else on_world g)"
  by simp

subsection \<open>Accounts and sessions\<close>

definition server_auth :: "golib \<Rightarrow> bytes \<Rightarrow> duration \<Rightarrow> int \<Rightarrow> server auth_service" where
  "server_auth L digest ttl cost =
     \<lparr>as_users = server_users, as_sessions = server_sessions, as_adminDigest = digest, as_sessionTTL = ttl,
      as_passwordCost = cost, as_rand = (\<lambda>n. on_world (rand_Read n)), as_now = on_world time_Now,
      as_bcrypt = (\<lambda>p k. on_world (bcrypt_op L p k))\<rparr>"

lemma lift_Authorize: "auth_Authorize L (server_auth L d ttl cost) c t = on_world (auth_Authorize L (pg_auth L d ttl cost) c t)"
  by (rule ext) (auto simp: auth_Authorize_def server_auth_def pg_auth_def server_sessions_def pg_sessions_def on_world_def
      and_then_def map_err_def split: prod.splits sum.splits)

lemma lift_Logout: "auth_Logout L (server_auth L d ttl cost) c t = on_world (auth_Logout L (pg_auth L d ttl cost) c t)"
  by (rule ext) (auto simp: auth_Logout_def server_auth_def pg_auth_def server_sessions_def pg_sessions_def on_world_def
      and_then_def map_err_def split: prod.splits sum.splits)

lemma lift_Register: "auth_Register L (server_auth L d ttl cost) c t l p = on_world (auth_Register L (pg_auth L d ttl cost) c t l p)"
  by (rule ext) (auto simp: auth_Register_def server_auth_def pg_auth_def server_users_def pg_users_def on_world_def
      and_then_def map_err_def Let_def split: prod.splits sum.splits)

lemma lift_token_loop:
  "auth_token_loop L (server_auth L d ttl cost) c u n s = on_world (auth_token_loop L (pg_auth L d ttl cost) c u n) s"
proof (induction n arbitrary: s)
  case 0
  then show ?case by (simp add: on_world_def)
next
  case (Suc n)
  then show ?case
    by (auto simp: server_auth_def pg_auth_def server_sessions_def pg_sessions_def on_world_def Let_def
        split: prod.splits sum.splits)
qed

lemma lift_Authenticate:
  "auth_Authenticate L (server_auth L d ttl cost) c l p = on_world (auth_Authenticate L (pg_auth L d ttl cost) c l p)"
proof -
  have parts: "as_users (server_auth L d ttl cost) = server_users" "as_users (pg_auth L d ttl cost) = pg_users"
    by (simp_all add: server_auth_def pg_auth_def)
  show ?thesis
    by (rule ext) (auto simp: auth_Authenticate_def parts server_users_def pg_users_def lift_token_loop on_world_def Let_def
        split: prod.splits sum.splits option.splits)
qed

subsection \<open>Documents\<close>

definition server_doc :: "golib \<Rightarrow> int \<Rightarrow> int \<Rightarrow> int \<Rightarrow> duration \<Rightarrow> server doc_service" where
  "server_doc L maxFile maxGrants maxList timeout =
     \<lparr>ds_documents = server_documents L, ds_users = server_users, ds_blobs = server_blobs, ds_maxFile = maxFile,
      ds_maxGrants = maxGrants, ds_maxList = maxList, ds_rand = (\<lambda>n. on_world (rand_Read n)),
      ds_cleanup = Some server_cleanup, ds_invalidateDelete = Some invalidate_delete, ds_cleanupTimeout = timeout\<rparr>"

text \<open>The same on the database alone: of the hook, only its questions to the context are visible.\<close>

definition quiet_hook :: "ctx \<Rightarrow> string \<Rightarrow> (world, unit) op" where
  "quiet_hook c i w = (case ctx_Err c w of (e, w1) \<Rightarrow> (case ctx_Err c w1 of (Some e, w2) \<Rightarrow> (Inl e, w2) | (None, w2) \<Rightarrow> (Inr (), w2)))"

definition quiet_doc :: "golib \<Rightarrow> int \<Rightarrow> int \<Rightarrow> int \<Rightarrow> world doc_service" where
  "quiet_doc L maxFile maxGrants maxList = (pg_doc L maxFile maxGrants maxList)\<lparr>ds_invalidateDelete := Some quiet_hook\<rparr>"

lemma serves_quiet_doc: "0 < maxFile \<Longrightarrow> maxFile < max_int64 \<Longrightarrow> pg_doc_env.serves L (quiet_doc L maxFile maxGrants maxList)"
  by (auto simp: pg_doc_env.serves_def quiet_doc_def pg_doc_def quiet_hook_def tick_same split: prod.splits option.splits
      dest!: ctx_Err_same)

lemma lift_metadata: "doc_getMetadata (server_doc L mf mg ml t) c u i = on_world (doc_getMetadata (quiet_doc L mf mg ml) c u i)"
  by (simp add: doc_getMetadata_def server_doc_def quiet_doc_def pg_doc_def server_documents_def on_world_ops)

lemma lift_Get: "doc_Get (server_doc L mf mg ml t) c u i = on_world (doc_Get (quiet_doc L mf mg ml) c u i)"
proof -
  have parts: "ds_blobs (server_doc L mf mg ml t) = server_blobs" "ds_blobs (quiet_doc L mf mg ml) = file_storage"
    by (simp_all add: server_doc_def quiet_doc_def pg_doc_def)
  show ?thesis
    unfolding doc_Get_def parts lift_metadata
    by (simp add: on_world_ops server_blobs_def file_storage_def if_distrib [of on_world] cong: if_cong)
qed

lemma lift_List: "doc_List L (server_doc L mf mg ml t) c u f = on_world (doc_List L (quiet_doc L mf mg ml) c u f)"
  by (simp add: doc_List_def server_doc_def quiet_doc_def pg_doc_def server_documents_def on_world_ops split: option.split)

lemma lift_blob:
  "upload_blob (server_doc L mf mg ml t) c x r s = on_world (upload_blob (quiet_doc L mf mg ml) c x r) s"
  by (auto simp: upload_blob_def randomStorageKey_def server_doc_def quiet_doc_def pg_doc_def server_blobs_def file_storage_def
      on_world_def and_then_def map_err_def split: prod.splits sum.splits)

lemma lift_create: "upload_create (server_doc L mf mg ml t) c x s = on_world (upload_create (quiet_doc L mf mg ml) c x) s"
  by (auto simp: upload_create_def server_doc_def quiet_doc_def pg_doc_def server_blobs_def file_storage_def server_documents_def
      on_world_def split: prod.splits sum.splits)

lemma lift_Upload: "doc_Upload L (server_doc L mf mg ml t) c u input = on_world (doc_Upload L (quiet_doc L mf mg ml) c u input)"
proof -
  have blob: "upload_blob (server_doc L mf mg ml t) c x r = on_world (upload_blob (quiet_doc L mf mg ml) c x r)"
    and create: "upload_create (server_doc L mf mg ml t) c = (\<lambda>x. on_world (upload_create (quiet_doc L mf mg ml) c x))" for x r
    using lift_blob lift_create by (auto intro!: ext)
  have checks: "upload_document L (server_doc L mf mg ml t) u input = upload_document L (quiet_doc L mf mg ml) u input"
    by (simp add: upload_document_def server_doc_def quiet_doc_def pg_doc_def Let_def)
  have parts: "ds_users (server_doc L mf mg ml t) = server_users" "ds_users (quiet_doc L mf mg ml) = pg_users"
    "ds_rand (server_doc L mf mg ml t) = (\<lambda>n. on_world (rand_Read n))" "ds_rand (quiet_doc L mf mg ml) = rand_Read"
    by (simp_all add: server_doc_def quiet_doc_def pg_doc_def)
  show ?thesis
    unfolding doc_Upload_def checks parts blob create
    by (simp add: on_world_ops server_users_def pg_users_def Let_def if_distrib [of on_world] split: sum.split cong: if_cong)
qed

text \<open>The hook: the database answers as for the quiet one; entries leave the cache.\<close>

definition less_cached :: "server \<Rightarrow> server \<Rightarrow> bool" where
  "less_cached s s' \<longleftrightarrow> (sv_cache s' = sv_cache s \<or> (\<exists>tags. sv_cache s' = mem_Invalidate False tags (sv_cache s)))"

lemma lift_hook:
  assumes "invalidate_delete c i s = (r, s')"
  shows "quiet_hook c i (sv_world s) = (r, sv_world s') \<and> less_cached s s'"
  using assms
  by (auto simp: invalidate_delete_def quiet_hook_def cache_Invalidate_def on_world_def server_epoch_def Let_def less_cached_def
      cache_Stats_def split: prod.splits option.splits)

lemma lift_Delete:
  assumes "doc_Delete (server_doc L mf mg ml t) c u i s = (r, s')"
  shows "doc_Delete (quiet_doc L mf mg ml) c u i (sv_world s) = (r, sv_world s') \<and> less_cached s s'"
proof -
  have inv: "invalidate_step (quiet_doc L mf mg ml) c' i (sv_world s1) = (r1, sv_world s2) \<and> less_cached s1 s2"
    if "invalidate_step (server_doc L mf mg ml t) c' i s1 = (r1, s2)" for c' s1 r1 s2
    using that lift_hook [of c' i s1]
    by (auto simp: invalidate_step_def server_doc_def quiet_doc_def split: prod.splits sum.splits)
  have del: "bs_Delete (ds_blobs (server_doc L mf mg ml t)) c' k = on_world (bs_Delete (ds_blobs (quiet_doc L mf mg ml)) c' k)" for c' k
    by (simp add: server_doc_def quiet_doc_def pg_doc_def server_blobs_def file_storage_def)
  have comp: "complete_step (server_doc L mf mg ml t) c' k x = on_world (complete_step (quiet_doc L mf mg ml) c' k x)" for c' k x
    by (rule ext) (auto simp: complete_step_def server_doc_def quiet_doc_def pg_doc_def server_cleanup_def on_world_def
        split: prod.splits sum.splits)
  have dr: "dr_Delete (ds_documents (server_doc L mf mg ml t)) c' k x = on_world (dr_Delete (ds_documents (quiet_doc L mf mg ml)) c' k x)" for c' k x
    by (simp add: server_doc_def quiet_doc_def pg_doc_def server_documents_def)
  show ?thesis
  proof (cases "u_ID u = [] \<or> u_Login u = [] \<or> i = []")
    case True
    with assms show ?thesis by (simp add: doc_Delete_def less_cached_def)
  next
    case False
    obtain r1 w1 where d: "dr_Delete (ds_documents (quiet_doc L mf mg ml)) c i (u_ID u) (sv_world s) = (r1, w1)"
      by (cases "dr_Delete (ds_documents (quiet_doc L mf mg ml)) c i (u_ID u) (sv_world s)")
    let ?s1 = "s\<lparr>sv_world := w1\<rparr>"
    show ?thesis
    proof (cases r1)
      case (Inl e)
      with assms False d show ?thesis by (auto simp: doc_Delete_def dr on_world_def less_cached_def)
    next
      case (Inr x)
      obtain r2 s2 where v: "invalidate_step (server_doc L mf mg ml t) (context_WithTimeout background_ctx) i ?s1 = (r2, s2)"
        by (cases "invalidate_step (server_doc L mf mg ml t) (context_WithTimeout background_ctx) i ?s1")
      note v' = inv [OF v]
      then have less: "sv_cache s3 = sv_cache s2 \<Longrightarrow> less_cached s s3" for s3 by (simp add: less_cached_def)
      show ?thesis
        using assms False d Inr v v'
        by (auto simp: doc_Delete_def dr del comp on_world_def Let_def split: prod.splits sum.splits if_splits intro: less)
    qed
  qed
qed

end
