(* ===== verification/ServerFrames.thy ===== *)
theory ServerFrames
  imports ServerLift
begin

text \<open>
  What the calls of the two services leave alone: accounts and sessions never touch documents or blobs,
  and no call changes the parameters of the database.
\<close>

definition lasting :: "world \<Rightarrow> pg_params \<times> (string \<Rightarrow> document option) \<times> (string \<Rightarrow> bytes option)" where
  "lasting w = (w_pg w, pg_docs w, fs_blobs w)"

definition still :: "pg_params \<times> (string \<Rightarrow> document option) \<times> (string \<Rightarrow> bytes option) \<Rightarrow> world \<Rightarrow> bool" where
  "still X w \<longleftrightarrow> wf_in False w \<and> lasting w = X"

lemma lasting_tick [simp]: "lasting (w\<lparr>w_tick := t\<rparr>) = lasting w"
  by (simp add: lasting_def pg_docs_def fs_blobs_def fun_eq_iff)

lemma lasting_rows:
  assumes "pg_frame w' = pg_frame w" "db_documents (w_db w') = db_documents (w_db w)"
    "\<And>p. full_document p (w_db w') = full_document p (w_db w)"
  shows "lasting w' = lasting w"
proof -
  have "pg_docs w' = pg_docs w" by (rule ext) (use assms in \<open>simp add: pg_docs_def pg_frame_def document_by_id_def\<close>)
  moreover have "fs_blobs w' = fs_blobs w" by (rule ext) (use assms in \<open>simp add: fs_blobs_def pg_frame_def\<close>)
  ultimately show ?thesis using assms by (simp add: lasting_def pg_frame_def)
qed

lemma lasting_cong:
  assumes "pg_frame w' = pg_frame w" "db_users (w_db w') = db_users (w_db w)" "db_documents (w_db w') = db_documents (w_db w)"
    "db_grants (w_db w') = db_grants (w_db w)"
  shows "lasting w' = lasting w"
  using assms by (intro lasting_rows ext) (simp_all add: full_document_def grant_logins_def)

lemma still_tick [simp]: "still X (w\<lparr>w_tick := t\<rparr>) = still X w"
  by (simp add: still_def)

subsection \<open>Sessions\<close>

lemma keeps_lasting_exec:
  assumes "stmt_wf f" "\<not> c_tx c"
    "\<And>p t d r d'. f p t d = (r, d') \<Longrightarrow>
       db_users d' = db_users d \<and> db_documents d' = db_documents d \<and> db_grants d' = db_grants d"
  shows "keeps (still X) (pg_exec c f)"
proof (rule keepsI)
  fix w r w'
  assume w: "still X w" and run: "pg_exec c f w = (r, w')"
  obtain r' d' where "f (w_pg w) (es_dbnow (w_env w (w_tick w))) (w_db w) = (r', d')" "w_db w' = w_db w \<or> w_db w' = d'"
    using pg_exec_auto [OF run assms(2)] by blast
  then have "lasting w' = lasting w"
    using assms(3) keepsD [OF keeps_pg_exec_frame refl run] by (intro lasting_cong) auto
  then show "still X w'"
    using keepsD [OF keeps_pg_exec_wf [OF assms(1), of c], of w] run w assms(2) by (simp add: still_def)
qed

lemma session_statements:
  "insert_session i u h x p t d = (r1, d') \<Longrightarrow> db_users d' = db_users d \<and> db_documents d' = db_documents d \<and> db_grants d' = db_grants d"
  "select_session h now p t d = (r2, d') \<Longrightarrow> db_users d' = db_users d \<and> db_documents d' = db_documents d \<and> db_grants d' = db_grants d"
  "update_revoked h now p t d = (r3, d') \<Longrightarrow> db_users d' = db_users d \<and> db_documents d' = db_documents d \<and> db_grants d' = db_grants d"
  by (auto simp: insert_session_def select_session_def update_revoked_def select_def sum_bind_def Let_def split: sum.splits if_splits)

lemma keeps_lasting_calls:
  "keeps (still X) (rand_Read n)" "keeps (still X) uuid_NewString"
  "keeps (still X) (bcrypt_op L p k)"
  unfolding uuid_NewString_def bcrypt_op_def by (intro keeps_intro; auto intro: keeps_intro split: sum.split)+

lemma keeps_lasting_sessions:
  assumes "\<not> c_tx c"
  shows "keeps (still X) (pg_CreateSession c i h x)"
    "keeps (still X) (pg_ByTokenHash c h now)"
    "keeps (still X) (pg_Revoke c h now)"
  unfolding pg_CreateSession_def pg_ByTokenHash_def pg_Revoke_def
  by (intro keeps_intro keeps_lasting_calls keeps_lasting_exec session_statements stmt_wf_insert_session stmt_wf_select_session
      stmt_wf_update_revoked assms; simp)+

subsection \<open>Accounts\<close>

lemma keeps_lasting_selects:
  assumes "\<not> c_tx c"
  shows "keeps (still X) (pg_ByLogin c l)"
    "keeps (still X) (pg_ExistingLogins c ls)"
  unfolding pg_ByLogin_def pg_ExistingLogins_def select_user_def select_logins_def
  by (intro keeps_intro keeps_lasting_exec assms stmt_wf_select; simp add: select_def)+

lemma grant_logins_new_user:
  assumes "wf_documents d" "ru_id row \<notin> user_ids d"
  shows "grant_logins p (d\<lparr>db_users := db_users d @ [row]\<rparr>) i = grant_logins p d i"
  using assms by (force simp: grant_logins_def wf_documents_def list_all_iff)

lemma keeps_lasting_CreateUser:
  assumes c: "\<not> c_tx c"
  shows "keeps (still X) (pg_CreateUser c l h)"
proof (rule keepsI)
  fix w r w'
  assume w: "still X w" and run: "pg_CreateUser c l h w = (r, w')"
  have wf: "wf_in False w'" using keepsD [OF keeps_CreateUser [of c l h], of w] run w c by (simp add: still_def)
  have fr: "pg_frame w' = pg_frame w" using keepsD [OF keeps_users_frame(1) refl run] .
  consider "w_db w' = w_db w" | row where "w_db w' = (w_db w)\<lparr>db_users := db_users (w_db w) @ [row]\<rparr>"
    using pg_CreateUser_effect [OF run c] by blast
  then have "lasting w' = lasting w"
  proof cases
    case 1
    then show ?thesis using fr by (intro lasting_cong) simp_all
  next
    case 2
    have "ru_id row \<notin> user_ids (w_db w)"
      using wf_in_documents [OF wf] 2 by (auto simp: wf_db_def wf_users_def user_ids_def)
    with wf_in_documents [of False w] w [unfolded still_def] have "grant_logins p (w_db w') i = grant_logins p (w_db w) i" for p i
      by (simp add: 2 grant_logins_new_user)
    then have "full_document p (w_db w') = full_document p (w_db w)" for p by (intro ext) (simp add: full_document_def)
    with fr 2 show ?thesis by (intro lasting_rows) simp_all
  qed
  with wf w show "still X w'" by (simp add: still_def)
qed

subsection \<open>The authentication service\<close>

lemma still_now: "time_Now w = (n, w1) \<Longrightarrow> still X w1 = still X w"
  using time_Now_same by fastforce

lemma keeps_lasting_register:
  assumes c: "\<not> c_tx c"
  shows "keeps (still X) (auth_Register L (pg_auth L d ttl cost) c t l p)"
  by (rule keepsI) (auto simp: auth_Register_def pg_auth_def pg_users_def map_err_def
      dest: keepsD [OF keeps_lasting_CreateUser [OF c]] keepsD [OF keeps_lasting_calls(3)] split: prod.splits sum.splits if_splits)

lemma keeps_lasting_token_loop:
  assumes c: "\<not> c_tx c"
  shows "keeps (still X) (auth_token_loop L (pg_auth L d ttl cost) c u n)"
proof (rule keepsI)
  have A: "as_rand (pg_auth L d ttl cost) = rand_Read" "as_sessions (pg_auth L d ttl cost) = pg_sessions"
    "as_now (pg_auth L d ttl cost) = time_Now" by (simp_all add: pg_auth_def)
  fix w r w'
  show "still X w \<Longrightarrow> auth_token_loop L (pg_auth L d ttl cost) c u n w = (r, w') \<Longrightarrow> still X w'"
  proof (induction n arbitrary: w)
    case (Suc n)
    obtain r1 w1 where r: "rand_Read tokenBytes w = (r1, w1)" by fastforce
    have w1: "still X w1" using keepsD [OF keeps_lasting_calls(1) Suc.prems(1) r] .
    show ?case
    proof (cases r1)
      case (Inl e)
      with Suc.prems r w1 show ?thesis by (simp add: A)
    next
      case (Inr raw)
      obtain now w2 where t: "time_Now w1 = (now, w2)" by fastforce
      have w2: "still X w2" using still_now [OF t] w1 by simp
      let ?h = "tokenDigest L (base64_RawURL raw)"
      obtain r3 w3 where s: "pg_CreateSession c u ?h (now + ttl) w2 = (r3, w3)" by fastforce
      have w3: "still X w3" using keepsD [OF keeps_lasting_sessions(1) [OF c] w2 s] .
      show ?thesis using Suc.prems Suc.IH [OF w3] r Inr t s w3
        by (auto simp: A pg_sessions_def Let_def split: sum.splits if_splits)
    qed
  qed auto
qed

lemma keeps_lasting_auth:
  assumes c: "\<not> c_tx c"
  shows "keeps (still X) (auth_Authorize L (pg_auth L d ttl cost) c t)"
    "keeps (still X) (auth_Logout L (pg_auth L d ttl cost) c t)"
    "keeps (still X) (auth_Authenticate L (pg_auth L d ttl cost) c l p)"
proof -
  note finds = keepsD [OF keeps_lasting_sessions(2) [OF c]] and revokes = keepsD [OF keeps_lasting_sessions(3) [OF c]]
    and logins = keepsD [OF keeps_lasting_selects(1) [OF c]] and tokens = keepsD [OF keeps_lasting_token_loop [OF c]]
  show "keeps (still X) (auth_Authorize L (pg_auth L d ttl cost) c t)"
    by (rule keepsI) (auto simp: auth_Authorize_def pg_auth_def pg_sessions_def and_then_def map_err_def
        dest: still_now finds split: prod.splits sum.splits if_splits)
  show "keeps (still X) (auth_Logout L (pg_auth L d ttl cost) c t)"
    by (rule keepsI) (auto simp: auth_Logout_def pg_auth_def pg_sessions_def and_then_def map_err_def
        dest: still_now revokes split: prod.splits sum.splits if_splits)
  have users: "as_users (pg_auth L d ttl cost) = pg_users" by (simp add: pg_auth_def)
  show "keeps (still X) (auth_Authenticate L (pg_auth L d ttl cost) c l p)"
    by (rule keepsI) (auto simp: auth_Authenticate_def users pg_users_def
        dest: logins tokens split: prod.splits sum.splits if_splits option.splits)
qed

subsection \<open>The document service\<close>

lemma keeps_pg_frame:
  assumes "\<And>X. keeps (\<lambda>w. pg_frame w = X) m"
  shows "keeps (\<lambda>w. w_pg w = P) m"
proof (rule keepsI)
  fix w r w' assume "w_pg w = P" "m w = (r, w')"
  then show "w_pg w' = P" using pg_frame_pg [OF keepsD [OF assms refl]] by metis
qed

lemma keeps_params_blobs:
  "keeps (\<lambda>w. w_pg w = P) (fs_Put c k r)" "keeps (\<lambda>w. w_pg w = P) (fs_Open c k)" "keeps (\<lambda>w. w_pg w = P) (fs_Delete c k)"
  by (rule keepsI, use fs_Put_spec fs_Open_spec fs_Delete_spec in \<open>fastforce simp: fs_frame_def fs_same_def\<close>)+

lemma keeps_params_rand: "keeps (\<lambda>w. w_pg w = P) (rand_Read n)"
  by (intro keeps_intro) simp

lemmas keeps_params = keeps_params_rand keeps_params_blobs keeps_pg_frame [OF keeps_users_frame(3)]
  keeps_pg_frame [OF keeps_documents_frame(1)] keeps_pg_frame [OF keeps_documents_frame(2)]
  keeps_pg_frame [OF keeps_documents_frame(3)] keeps_pg_frame [OF keeps_documents_frame(4)]
  keeps_pg_frame [OF keeps_cleanup_frame(3)]

lemmas params_same = keeps_params [THEN keepsD, OF refl]

lemma quiet_parts [simp]:
  "ds_documents (quiet_doc L mf mg ml) = pg_documents L" "ds_users (quiet_doc L mf mg ml) = pg_users"
  "ds_blobs (quiet_doc L mf mg ml) = file_storage" "ds_rand (quiet_doc L mf mg ml) = rand_Read"
  "ds_cleanup (quiet_doc L mf mg ml) = Some pg_cleanup" "ds_invalidateDelete (quiet_doc L mf mg ml) = Some quiet_hook"
  "ds_maxFile (quiet_doc L mf mg ml) = mf"
  by (simp_all add: quiet_doc_def pg_doc_def)

lemma port_parts [simp]:
  "dr_Create (pg_documents L) = pg_CreateDocument L" "dr_ByIDAccessible (pg_documents L) = pg_ByIDAccessible"
  "dr_List (pg_documents L) = pg_List L" "dr_Delete (pg_documents L) = pg_DeleteDocument"
  "bs_Put file_storage = fs_Put" "bs_Open file_storage = fs_Open" "bs_Delete file_storage = fs_Delete"
  "cr_CompleteByStorageKey pg_cleanup = pg_CompleteByStorageKey" "ur_ExistingLogins pg_users = pg_ExistingLogins"
  by (simp_all add: pg_documents_def file_storage_def pg_cleanup_def pg_users_def)

lemma keeps_params_reads:
  "keeps (\<lambda>w. w_pg w = P) (doc_getMetadata (quiet_doc L mf mg ml) c u i)"
  "keeps (\<lambda>w. w_pg w = P) (doc_Get (quiet_doc L mf mg ml) c u i)"
  "keeps (\<lambda>w. w_pg w = P) (doc_List L (quiet_doc L mf mg ml) c u f)"
  unfolding doc_Get_def doc_getMetadata_def doc_List_def Let_def quiet_parts port_parts
  by (intro keeps_intro keeps_params)+

lemma keeps_params_upload: "keeps (\<lambda>w. w_pg w = P) (doc_Upload L (quiet_doc L mf mg ml) c u input)"
proof -
  have blob: "keeps (\<lambda>w. w_pg w = P) (upload_blob (quiet_doc L mf mg ml) c x r)" for x r
    by (rule keepsI) (auto simp: upload_blob_def randomStorageKey_def and_then_def map_err_def
        dest!: params_same split: prod.splits sum.splits if_splits)
  have create: "keeps (\<lambda>w. w_pg w = P) (upload_create (quiet_doc L mf mg ml) c x)" for x
    by (rule keepsI) (auto simp: upload_create_def dest!: params_same split: prod.splits sum.splits if_splits)
  show ?thesis
    unfolding doc_Upload_def Let_def quiet_parts port_parts
    by (cases "upload_document L (quiet_doc L mf mg ml) u input")
      (auto intro!: keeps_intro keeps_params blob create)
qed

lemma keeps_params_delete:
  assumes "doc_Delete (quiet_doc L mf mg ml) c u i w = (r, w')"
  shows "w_pg w' = w_pg w"
proof -
  have hook: "invalidate_step (quiet_doc L mf mg ml) c' i v = (r1, v') \<Longrightarrow> w_pg v' = w_pg v" for c' v r1 v'
    by (auto simp: invalidate_step_def quiet_hook_def dest!: ctx_Err_same split: prod.splits sum.splits option.splits)
  have done': "complete_step (quiet_doc L mf mg ml) c' k e v = (r1, v') \<Longrightarrow> w_pg v' = w_pg v" for c' k e v r1 v'
    by (auto simp: complete_step_def dest!: params_same split: prod.splits sum.splits option.splits)
  show ?thesis
    using assms by (auto simp: doc_Delete_def Let_def dest!: hook done' params_same split: prod.splits sum.splits if_splits)
qed

end
