(* ===== verification/ServerSound.thy ===== *)
theory ServerSound
  imports ServerFrames
begin

text \<open>
  The server meets the contract of a \<open>cached_backend\<close>: what the handler's theorems say of an arbitrary
  backend holds of the database, the blob directory and the response cache that \<open>run\<close> wires together.
\<close>

subsection \<open>The state of the server as the contract sees it\<close>

text \<open>The document an id names, with the bytes of its blob.\<close>

definition stored_docs :: "world \<Rightarrow> string \<Rightarrow> (document \<times> bytes) option" where
  "stored_docs w i =
     (case pg_canon w i of
        None \<Rightarrow> None
      | Some k \<Rightarrow> map_option (\<lambda>x. (x, if d_IsFile x then case fs_blobs w (d_StorageKey x) of None \<Rightarrow> [] | Some b \<Rightarrow> b else []))
          (pg_docs w k))"

definition registered :: "world \<Rightarrow> user \<Rightarrow> bool" where
  "registered w u \<longleftrightarrow> (\<exists>h. pg_accounts w (u_Login u) = Some (u, h))"

text \<open>Waiting for another request's load changes nothing here.\<close>

definition sound :: "int \<Rightarrow> (string \<Rightarrow> server \<Rightarrow> flight \<times> server) \<Rightarrow> server \<Rightarrow> bool" where
  "sound maxFile loads s \<longleftrightarrow> wf_in False (sv_world s) \<and> wf_mem (sv_cache s) \<and> 0 < maxFile \<and> maxFile < max_int64 \<and>
     (\<forall>key s. snd (loads key s) = s)"

abbreviation "sv_stored s \<equiv> stored_docs (sv_world s)"
abbreviation "sv_known s \<equiv> registered (sv_world s)"
abbreviation "sv_view s \<equiv> mem_view (sv_cache s)"
abbreviation "sv_frame mf loads \<equiv> frame_ok (sound mf loads) (\<lambda>s. sv_stored s) (\<lambda>s. sv_view s) (\<lambda>s. sv_known s)"

lemma stored_lasting:
  assumes "lasting w' = lasting w"
  shows "stored_docs w' = stored_docs w"
proof -
  have same: "w_pg w' = w_pg w" "pg_docs w' = pg_docs w" "fs_blobs w' = fs_blobs w" using assms by (simp_all add: lasting_def)
  show ?thesis by (rule ext) (unfold stored_docs_def pg_canon_def same, rule refl)
qed

lemma stored_cong: "pg_docs w' = pg_docs w \<Longrightarrow> fs_blobs w' = fs_blobs w \<Longrightarrow> w_pg w' = w_pg w \<Longrightarrow> stored_docs w' = stored_docs w"
  by (rule stored_lasting) (simp add: lasting_def)

lemma registered_cong: "pg_accounts w' = pg_accounts w \<Longrightarrow> registered w' u = registered w u"
  by (simp add: registered_def)

text \<open>A call that reaches only the world.\<close>

lemma world_frame:
  assumes s: "sound mf loads s" and run: "on_world f s = (r, s')"
    and f: "\<And>w'. f (sv_world s) = (r, w') \<Longrightarrow> wf_in False w' \<and> stored_docs w' = sv_stored s \<and> (\<forall>u. sv_known s u \<longrightarrow> registered w' u)"
  shows "sv_frame mf loads s s'"
proof -
  obtain w' where w': "f (sv_world s) = (r, w')" "s' = s\<lparr>sv_world := w'\<rparr>"
    using run by (auto simp: on_world_def split: prod.splits)
  with f [OF w'(1)] s show ?thesis by (simp add: frame_ok_def sound_def)
qed

lemma tick_frame: "sound mf loads s \<Longrightarrow> sv_frame mf loads s (s\<lparr>sv_world := (sv_world s)\<lparr>w_tick := t\<rparr>\<rparr>)"
  using stored_lasting [of "(sv_world s)\<lparr>w_tick := t\<rparr>" "sv_world s"]
  by (simp add: frame_ok_def sound_def registered_cong [of "(sv_world s)\<lparr>w_tick := t\<rparr>" "sv_world s"])

lemma beside_frame:
  "sound mf loads s \<Longrightarrow> sv_world s' = sv_world s \<Longrightarrow> sv_cache s' = sv_cache s \<Longrightarrow> sv_frame mf loads s s'"
  by (simp add: frame_ok_def sound_def)

lemma sv_frame_trans: "sv_frame mf loads s s1 \<Longrightarrow> sv_frame mf loads s1 s2 \<Longrightarrow> sv_frame mf loads s s2"
  by (auto simp: frame_ok_def intro: map_le_trans)

lemma sv_frame_sound: "sv_frame mf loads s s' \<Longrightarrow> sound mf loads s'"
  by (simp add: frame_ok_def)

lemma ctx_frame: "sound mf loads s \<Longrightarrow> on_world (ctx_Err c) s = (e, s') \<Longrightarrow> sv_frame mf loads s s'"
  using tick_frame by (auto simp: on_world_def dest!: ctx_Err_same split: prod.splits)

lemma now_frame: "sound mf loads s \<Longrightarrow> on_world time_Now s = (e, s') \<Longrightarrow> sv_frame mf loads s s'"
  using tick_frame by (auto simp: on_world_def dest!: time_Now_same split: prod.splits)

subsection \<open>Accounts and sessions\<close>

lemma ctx_request [simp]: "\<not> c_tx request_ctx" by (simp add: request_ctx_def)

lemma auth_op_frame:
  assumes s: "sound mf loads s" and run: "on_world f s = (r, s')" and keep: "\<And>X. keeps (still X) f"
    and known: "\<And>w'. f (sv_world s) = (r, w') \<Longrightarrow> \<forall>u. sv_known s u \<longrightarrow> registered w' u"
  shows "sv_frame mf loads s s'"
proof (rule world_frame [OF s run])
  fix w' assume w': "f (sv_world s) = (r, w')"
  have "still (lasting (sv_world s)) (sv_world s)" using s by (simp add: still_def sound_def)
  from keepsD [OF keep this w'] known [OF w'] stored_lasting [of w' "sv_world s"]
  show "wf_in False w' \<and> stored_docs w' = sv_stored s \<and> (\<forall>u. sv_known s u \<longrightarrow> registered w' u)"
    by (simp add: still_def)
qed

lemma sound_wf: "sound mf loads s \<Longrightarrow> wf_in False (sv_world s)"
  by (simp add: sound_def)

lemma session_registered:
  assumes "wf_in False w" "pg_session_view w h = Some (s, u)"
  shows "registered w u"
proof -
  obtain q where q: "find_session h (w_db w) = Some q" using assms(2) by (cases "find_session h (w_db w)") (simp_all add: pg_session_view_def)
  with assms(2) obtain r where r: "user_by_id (rs_user q) (w_db w) = Some r" "u = user_of_row r"
    by (cases "user_by_id (rs_user q) (w_db w)") (simp_all add: pg_session_view_def)
  have "wf_users (w_db w)" using wf_in_sessions [OF assms(1)] by simp
  then have "r \<in> set (db_users (w_db w))" using r(1) by (simp add: user_by_id_iff)
  then have "find_user (ru_login r) (w_db w) = Some r"
    using find_user_iff wf_in_distinct_logins [OF assms(1)] by blast
  then show ?thesis using r(2) by (simp add: registered_def pg_accounts_def user_of_row_def)
qed

lemma register_sv:
  assumes s: "sound mf loads s" and run: "auth_Register L (server_auth L d ttl cost) request_ctx t l p s = (r, s')"
  shows "sv_frame mf loads s s'"
proof (rule auth_op_frame [OF s run [unfolded lift_Register] keeps_lasting_register [OF ctx_request]])
  fix w' assume "auth_Register L (pg_auth L d ttl cost) request_ctx t l p (sv_world s) = (r, w')"
  from pg_auth_env.register_cases [OF runs_on_pg_auth sound_wf [OF s] ctx_request this]
  show "\<forall>u. sv_known s u \<longrightarrow> registered w' u" by (auto simp: registered_def split: sum.splits)
qed

lemma authenticate_sv:
  assumes s: "sound mf loads s" and run: "auth_Authenticate L (server_auth L d ttl cost) request_ctx l p s = (r, s')"
  shows "sv_frame mf loads s s'"
proof (rule auth_op_frame [OF s run [unfolded lift_Authenticate] keeps_lasting_auth(3) [OF ctx_request]])
  fix w' assume "auth_Authenticate L (pg_auth L d ttl cost) request_ctx l p (sv_world s) = (r, w')"
  from pg_auth_env.authenticate_cases [OF runs_on_pg_auth sound_wf [OF s] ctx_request this]
  show "\<forall>u. sv_known s u \<longrightarrow> registered w' u" by (simp add: registered_def)
qed

lemma logout_sv:
  assumes s: "sound mf loads s" and run: "auth_Logout L (server_auth L d ttl cost) request_ctx t s = (r, s')"
  shows "sv_frame mf loads s s'"
proof (rule auth_op_frame [OF s run [unfolded lift_Logout] keeps_lasting_auth(2) [OF ctx_request]])
  fix w' assume "auth_Logout L (pg_auth L d ttl cost) request_ctx t (sv_world s) = (r, w')"
  from pg_auth_env.logout_cases [OF runs_on_pg_auth sound_wf [OF s] ctx_request this]
  show "\<forall>u. sv_known s u \<longrightarrow> registered w' u" by (simp add: registered_def)
qed

lemma authorize_sv:
  assumes s: "sound mf loads s" and run: "auth_Authorize L (server_auth L d ttl cost) request_ctx t s = (r, s')"
  shows "sv_frame mf loads s s' \<and> (\<forall>u. r = Inr u \<longrightarrow> sv_known s' u)"
proof
  note run' = run [unfolded lift_Authorize]
  obtain w' where w': "auth_Authorize L (pg_auth L d ttl cost) request_ctx t (sv_world s) = (r, w')" "s' = s\<lparr>sv_world := w'\<rparr>"
    using run' by (auto simp: on_world_def split: prod.splits)
  note c = pg_auth_env.authorize_cases [OF runs_on_pg_auth sound_wf [OF s] ctx_request w'(1)]
  show "sv_frame mf loads s s'"
    by (rule auth_op_frame [OF s run' keeps_lasting_auth(1) [OF ctx_request]]) (use w' c in \<open>simp add: registered_def\<close>)
  show "\<forall>u. r = Inr u \<longrightarrow> sv_known s' u"
    using c w'(2) session_registered [of w'] by auto
qed

subsection \<open>Documents\<close>

lemma doc_op_frame:
  assumes s: "sound mf loads s" and run: "on_world f s = (r, s')" and pg: "\<And>P. keeps (\<lambda>w. w_pg w = P) f"
    and same: "\<And>w'. f (sv_world s) = (r, w') \<Longrightarrow> wf_in False w' \<and> pg_accounts w' = pg_accounts (sv_world s) \<and>
      pg_docs w' = pg_docs (sv_world s) \<and> fs_blobs w' = fs_blobs (sv_world s)"
  shows "sv_frame mf loads s s'"
proof (rule world_frame [OF s run])
  fix w' assume w': "f (sv_world s) = (r, w')"
  have "w_pg w' = w_pg (sv_world s)" using keepsD [OF pg refl w'] .
  with same [OF w'] have "stored_docs w' = sv_stored s" by (intro stored_cong) simp_all
  then show "wf_in False w' \<and> stored_docs w' = sv_stored s \<and> (\<forall>u. sv_known s u \<longrightarrow> registered w' u)"
    using same [OF w'] by (simp add: registered_def)
qed

lemma sound_serves: "sound mf loads s \<Longrightarrow> pg_doc_env.serves L (quiet_doc L mf mg ml)"
  by (simp add: sound_def serves_quiet_doc)

lemma list_sv:
  assumes s: "sound mf loads s" and u: "sv_known s u" and run: "doc_List L (server_doc L mf mg ml t) request_ctx u f s = (r, s')"
  shows "sv_frame mf loads s s'"
proof -
  obtain h where h: "pg_accounts (sv_world s) (u_Login u) = Some (u, h)" using u by (auto simp: registered_def)
  show ?thesis
    by (rule doc_op_frame [OF s run [unfolded lift_List] keeps_params_reads(3)])
      (use pg_doc_env.list_cases [OF sound_serves [OF s] sound_wf [OF s] ctx_request h] in \<open>blast\<close>)
qed

lemma metadata_sv:
  assumes s: "sound mf loads s" and u: "sv_known s u" and run: "doc_getMetadata (server_doc L mf mg ml t) request_ctx u i s = (r, s')"
  shows "sv_frame mf loads s s' \<and> (\<forall>x. r = Inr x \<longrightarrow> (\<exists>data. sv_stored s i = Some (x, data) \<and> readable u x))"
proof
  obtain h where h: "pg_accounts (sv_world s) (u_Login u) = Some (u, h)" using u by (auto simp: registered_def)
  note c = pg_doc_env.metadata_cases [OF sound_serves [OF s] sound_wf [OF s] ctx_request h]
  note run' = run [unfolded lift_metadata]
  show "sv_frame mf loads s s'"
    by (rule doc_op_frame [OF s run' keeps_params_reads(1)]) (use c in \<open>blast\<close>)
  obtain w' where w': "doc_getMetadata (quiet_doc L mf mg ml) request_ctx u i (sv_world s) = (r, w')"
    using run' by (auto simp: on_world_def split: prod.splits)
  show "\<forall>x. r = Inr x \<longrightarrow> (\<exists>data. sv_stored s i = Some (x, data) \<and> readable u x)"
    using c [OF w'] by (auto simp: stored_docs_def)
qed

lemma get_sv:
  assumes s: "sound mf loads s" and u: "sv_known s u" and run: "doc_Get (server_doc L mf mg ml t) request_ctx u i s = (r, s')"
  shows "sv_frame mf loads s s' \<and> (\<forall>ct. r = Inr ct \<longrightarrow> (\<exists>x data. sv_stored s i = Some (x, data) \<and> readable u x \<and>
     (if d_IsFile x then ct = \<lparr>ct_Document = x\<lparr>d_SizeBytes := int (length data)\<rparr>, ct_File = Some \<lparr>r_data = data, r_err = None\<rparr>\<rparr>
      else ct = \<lparr>ct_Document = x, ct_File = None\<rparr>)))"
proof
  obtain h where h: "pg_accounts (sv_world s) (u_Login u) = Some (u, h)" using u by (auto simp: registered_def)
  note c = pg_doc_env.get_cases [OF sound_serves [OF s] sound_wf [OF s] ctx_request h]
  note run' = run [unfolded lift_Get]
  show "sv_frame mf loads s s'"
    by (rule doc_op_frame [OF s run' keeps_params_reads(2)]) (use c in \<open>blast\<close>)
  obtain w' where w': "doc_Get (quiet_doc L mf mg ml) request_ctx u i (sv_world s) = (r, w')"
    using run' by (auto simp: on_world_def split: prod.splits)
  show "\<forall>ct. r = Inr ct \<longrightarrow> (\<exists>x data. sv_stored s i = Some (x, data) \<and> readable u x \<and>
     (if d_IsFile x then ct = \<lparr>ct_Document = x\<lparr>d_SizeBytes := int (length data)\<rparr>, ct_File = Some \<lparr>r_data = data, r_err = None\<rparr>\<rparr>
      else ct = \<lparr>ct_Document = x, ct_File = None\<rparr>))"
  proof (intro allI impI)
    fix ct assume "r = Inr ct"
    with c [OF w'] obtain k x where k: "pg_canon (sv_world s) i = Some k" "pg_docs (sv_world s) k = Some x" "readable u x"
      and ct: "if d_IsFile x then \<exists>data. fs_blobs (sv_world s) (d_StorageKey x) = Some data \<and>
          ct = \<lparr>ct_Document = x\<lparr>d_SizeBytes := int (length data)\<rparr>, ct_File = Some \<lparr>r_data = data, r_err = None\<rparr>\<rparr>
        else ct = \<lparr>ct_Document = x, ct_File = None\<rparr>"
      by auto
    then show "\<exists>x data. sv_stored s i = Some (x, data) \<and> readable u x \<and>
       (if d_IsFile x then ct = \<lparr>ct_Document = x\<lparr>d_SizeBytes := int (length data)\<rparr>, ct_File = Some \<lparr>r_data = data, r_err = None\<rparr>\<rparr>
        else ct = \<lparr>ct_Document = x, ct_File = None\<rparr>)"
      by (cases "d_IsFile x") (auto simp: stored_docs_def)
  qed
qed

lemma upload_sv:
  assumes s: "sound mf loads s" and u: "sv_known s u" and run: "doc_Upload L (server_doc L mf mg ml t) request_ctx u input s = (r, s')"
  shows "sound mf loads s' \<and> sv_view s' \<subseteq>\<^sub>m sv_view s \<and> (\<forall>v. sv_known s v \<longrightarrow> sv_known s' v)"
proof -
  obtain h where h: "pg_accounts (sv_world s) (u_Login u) = Some (u, h)" using u by (auto simp: registered_def)
  obtain w' where w': "doc_Upload L (quiet_doc L mf mg ml) request_ctx u input (sv_world s) = (r, w')" "s' = s\<lparr>sv_world := w'\<rparr>"
    using run [unfolded lift_Upload] by (auto simp: on_world_def split: prod.splits)
  from pg_doc_env.upload_cases [OF sound_serves [OF s] sound_wf [OF s] ctx_request h w'(1)] s w'(2) show ?thesis
    by (simp add: sound_def registered_def)
qed

lemma map_leI: "(\<And>k v. m k = Some v \<Longrightarrow> m' k = Some v) \<Longrightarrow> m \<subseteq>\<^sub>m m'"
  by (auto simp: map_le_def dom_def)

lemma less_cached_view: "wf_mem (sv_cache s) \<Longrightarrow> less_cached s s' \<Longrightarrow> wf_mem (sv_cache s') \<and> sv_view s' \<subseteq>\<^sub>m sv_view s"
proof -
  assume wf: "wf_mem (sv_cache s)" and less: "less_cached s s'"
  have "mem_view (mem_Invalidate False tags (sv_cache s)) \<subseteq>\<^sub>m sv_view s" for tags
    using mem_view_invalidate [OF wf] by (blast intro: map_leI)
  then show "wf_mem (sv_cache s') \<and> sv_view s' \<subseteq>\<^sub>m sv_view s"
    using less wf mem_Invalidate_refines(1) [OF wf] unfolding less_cached_def by auto
qed

lemma delete_sv:
  assumes s: "sound mf loads s" and run: "doc_Delete (server_doc L mf mg ml t) request_ctx u i s = (r, s')"
  shows "sound mf loads s' \<and> sv_view s' \<subseteq>\<^sub>m sv_view s \<and> (\<forall>v. sv_known s v \<longrightarrow> sv_known s' v)"
proof -
  note d = lift_Delete [OF run]
  have wf: "wf_mem (sv_cache s)" using s by (simp add: sound_def)
  from pg_doc_env.delete_cases [OF sound_serves [OF s] sound_wf [OF s] ctx_request conjunct1 [OF d]]
  have "wf_in False (sv_world s') \<and> pg_accounts (sv_world s') = pg_accounts (sv_world s)" by blast
  then show ?thesis using less_cached_view [OF wf conjunct2 [OF d]] s by (simp add: sound_def registered_def)
qed

subsection \<open>The cache, the metrics, the log and the probe\<close>

lemma cache_frame:
  assumes "sound mf loads s" "wf_mem m" "mem_view m \<subseteq>\<^sub>m sv_view s"
  shows "sv_frame mf loads s (s\<lparr>sv_cache := m\<rparr>)"
  using assms by (simp add: frame_ok_def sound_def)

lemma cache_Get_sv:
  assumes s: "sound mf loads s" and run: "cache_Get request_ctx key s = (found, s')"
  shows "sv_frame mf loads s s' \<and> (\<forall>e. found = Some e \<longrightarrow> sv_view s key = Some e)"
proof -
  obtain e s1 where e: "on_world (ctx_Err request_ctx) s = (e, s1)" by fastforce
  note f1 = ctx_frame [OF s e]
  have c1: "sv_cache s1 = sv_cache s" using e by (auto simp: on_world_def split: prod.splits)
  show ?thesis
  proof (cases e)
    case (Some err)
    with run e f1 show ?thesis by (simp add: cache_Get_def)
  next
    case None
    obtain now s2 where n: "on_world time_Now s1 = (now, s2)" by fastforce
    have c2: "sv_cache s2 = sv_cache s" using n c1 by (auto simp: on_world_def split: prod.splits)
    note f2 = sv_frame_trans [OF f1 now_frame [OF sv_frame_sound [OF f1] n]]
    obtain r m where m: "mem_Get False now key (sv_cache s2) = (r, m)" by fastforce
    have res: "found = r" "s' = s2\<lparr>sv_cache := m\<rparr>" using run e None n m by (simp_all add: cache_Get_def)
    have wf: "wf_mem (sv_cache s2)" using sv_frame_sound [OF f2] by (simp add: sound_def)
    have "sv_frame mf loads s2 s'"
      unfolding res using cache_frame [OF sv_frame_sound [OF f2] mem_Get_refines(1) [OF wf m]] mem_view_get(2) [OF wf m]
      by (blast intro: map_leI)
    with f2 sv_frame_trans mem_view_get(1) [OF wf m] res c2 show ?thesis by fastforce
  qed
qed

lemma cache_Put_sv:
  assumes s: "sound mf loads s"
  shows "sound mf loads (cache_Put c key e ttl s) \<and> sv_stored (cache_Put c key e ttl s) = sv_stored s \<and>
    (\<forall>u. sv_known s u \<longrightarrow> sv_known (cache_Put c key e ttl s) u) \<and>
    (\<forall>key' e'. sv_view (cache_Put c key e ttl s) key' = Some e' \<longrightarrow> sv_view s key' = Some e' \<or> key' = key \<and> stored_variant e e')"
proof -
  obtain err s1 where e: "on_world (ctx_Err c) s = (err, s1)" by fastforce
  note f1 = ctx_frame [OF s e]
  have c1: "sv_cache s1 = sv_cache s" using e by (auto simp: on_world_def split: prod.splits)
  show ?thesis
  proof (cases err)
    case (Some x)
    with e f1 c1 show ?thesis by (simp add: cache_Put_def frame_ok_def)
  next
    case None
    obtain now s2 where n: "on_world time_Now s1 = (now, s2)" by fastforce
    have c2: "sv_cache s2 = sv_cache s" using n c1 by (auto simp: on_world_def split: prod.splits)
    note f2 = sv_frame_trans [OF f1 now_frame [OF sv_frame_sound [OF f1] n]]
    have res: "cache_Put c key e ttl s = s2\<lparr>sv_cache := cache_Set now key e ttl (sv_cache s2)\<rparr>"
      using e None n by (simp add: cache_Put_def)
    have wf: "wf_mem (sv_cache s2)" using sv_frame_sound [OF f2] by (simp add: sound_def)
    have "sound mf loads (cache_Put c key e ttl s)"
      using sv_frame_sound [OF f2] cache_Set_refines(1) [OF wf] by (simp add: res sound_def)
    moreover have "sv_stored (cache_Put c key e ttl s) = sv_stored s" "\<forall>u. sv_known s u \<longrightarrow> sv_known (cache_Put c key e ttl s) u"
      using f2 by (simp_all add: res frame_ok_def)
    moreover have "\<forall>key' e'. sv_view (cache_Put c key e ttl s) key' = Some e' \<longrightarrow> sv_view s key' = Some e' \<or> key' = key \<and> stored_variant e e'"
      using mem_view_set [OF wf] c2 by (simp add: res)
    ultimately show ?thesis by blast
  qed
qed

lemma cache_Invalidate_sv:
  assumes s: "sound mf loads s"
  shows "sv_frame mf loads s (cache_Invalidate c tags s)"
proof -
  obtain err s1 where e: "on_world (ctx_Err c) s = (err, s1)" by fastforce
  note f1 = ctx_frame [OF s e]
  have wf: "wf_mem (sv_cache s1)" using sv_frame_sound [OF f1] by (simp add: sound_def)
  have "mem_view (mem_Invalidate False tags (sv_cache s1)) \<subseteq>\<^sub>m sv_view s1"
    using mem_view_invalidate [OF wf] by (blast intro: map_leI)
  from sv_frame_trans [OF f1 cache_frame [OF sv_frame_sound [OF f1] mem_Invalidate_refines(1) [OF wf] this]] e f1
  show ?thesis by (simp add: cache_Invalidate_def split: option.split)
qed

lemma readiness_sv:
  assumes s: "sound mf loads s" and run: "readiness is_dir c s = (e, s')"
  shows "sv_frame mf loads s s'"
proof -
  have ping: "pg_Ping w = (r, w') \<Longrightarrow> \<exists>t. w' = w\<lparr>w_tick := t\<rparr>" for w r w'
    by (auto simp: pg_Ping_def env_call_def sys_call_def env_next_def map_err_def split: prod.splits sum.splits fault.splits)
  have fping: "fs_Ping is_dir c w = (r, w') \<Longrightarrow> \<exists>t. w' = w\<lparr>w_tick := t\<rparr>" for w r w'
    by (auto simp: fs_Ping_def os_Stat_def env_call_def sys_call_def env_next_def map_err_def dest!: ctx_Err_same split: prod.splits sum.splits fault.splits option.splits if_splits)
  have "\<exists>t. s' = s\<lparr>sv_world := (sv_world s)\<lparr>w_tick := t\<rparr>\<rparr>"
    using run by (auto simp: readiness_def on_world_def dest!: ping fping split: prod.splits sum.splits)
  with tick_frame [OF s] show ?thesis by auto
qed

subsection \<open>The contract is met\<close>

definition server_handler ::
  "golib \<Rightarrow> float_ops \<Rightarrow> bool \<Rightarrow> (string \<Rightarrow> server \<Rightarrow> flight \<times> server) \<Rightarrow> config \<Rightarrow> server auth_service \<Rightarrow> server doc_service \<Rightarrow>
   server handler" where
  "server_handler L fl is_dir loads cfg A S =
     newHandler (server_log LevelInfo) server_epoch loads (new_dependencies L fl is_dir cfg A S)"

lemma server_handler_parts:
  "dp_Auth (h_deps (server_handler L fl is_dir loads cfg A S)) = Some (auth_api L A)"
  "dp_Documents (h_deps (server_handler L fl is_dir loads cfg A S)) = Some (doc_api L S)"
  "dp_Cache (h_deps (server_handler L fl is_dir loads cfg A S)) = Some server_cache"
  "dp_Metrics (h_deps (server_handler L fl is_dir loads cfg A S)) = Some (server_metrics fl)"
  "dp_Logger (h_deps (server_handler L fl is_dir loads cfg A S)) = Some (server_log (newLogger (cf_LogLevel cfg)))"
  "dp_Readiness (h_deps (server_handler L fl is_dir loads cfg A S)) = Some (readiness is_dir)"
  "h_cacheEpoch (server_handler L fl is_dir loads cfg A S) = server_epoch" "h_loads (server_handler L fl is_dir loads cfg A S) = loads"
  by (simp_all add: server_handler_def newHandler_def new_dependencies_def Let_def)

interpretation srv: cached_backend "server_handler L fl is_dir loads cfg (server_auth L dg ttl cost) (server_doc L mf mg ml timeout)"
    "auth_api L (server_auth L dg ttl cost)" "doc_api L (server_doc L mf mg ml timeout)"
    "doc_getMetadata (server_doc L mf mg ml timeout)" server_cache "sound mf loads"
    "\<lambda>s. stored_docs (sv_world s)" "\<lambda>s. registered (sv_world s)" "\<lambda>s. mem_view (sv_cache s)"
  for L fl is_dir loads cfg dg ttl cost mf mg ml timeout
proof (unfold_locales, goal_cases)
  case 1 show ?case by (rule server_handler_parts)
next
  case 2 show ?case by (rule server_handler_parts)
next
  case 3 show ?case by (rule server_handler_parts)
next
  case 4 show ?case by (simp add: doc_api_def)
next
  case 5 then show ?case by (intro register_sv) (simp_all add: auth_api_def)
next
  case 6 then show ?case by (intro authenticate_sv) (simp_all add: auth_api_def)
next
  case 7 then show ?case by (intro logout_sv) (simp_all add: auth_api_def)
next
  case 8 then show ?case by (intro authorize_sv) (simp_all add: auth_api_def)
next
  case 9 then show ?case by (intro list_sv) (simp_all add: doc_api_def)
next
  case 10 then show ?case by (intro metadata_sv)
next
  case 11 then show ?case by (intro get_sv) (simp_all add: doc_api_def)
next
  case 12 then show ?case by (intro upload_sv) (simp_all add: doc_api_def)
next
  case 13 then show ?case by (intro delete_sv) (simp_all add: doc_api_def)
next
  case 14 then show ?case by (intro cache_Get_sv) (simp_all add: server_cache_def)
next
  case 15 then show ?case using cache_Put_sv by (simp add: server_cache_def)
next
  case 16 then show ?case using cache_Invalidate_sv by (simp add: server_cache_def)
next
  case 17 then show ?case by (intro beside_frame) (simp_all add: server_handler_parts server_epoch_def)
next
  case (18 m)
  have m: "m = server_metrics fl" using 18(1) by (simp add: server_handler_parts)
  have "me_ObserveTimeout m = Some f \<Longrightarrow> sv_world (f name meth streaming s) = sv_world s \<and> sv_cache (f name meth streaming s) = sv_cache s"
    for f name meth streaming s by (auto simp: m server_metrics_def)
  then show ?case using 18(2) by (auto simp: m server_metrics_def intro: beside_frame)
next
  case (19 log)
  then show ?case by (intro beside_frame) (auto simp: server_handler_parts server_log_def)
next
  case 20
  then show ?case by (intro readiness_sv) (auto simp: server_handler_parts)
next
  case (21 s key flight s')
  have "s' = snd (loads key s)" using 21(2) by (simp add: server_handler_parts)
  also have "\<dots> = s" using 21(1) by (simp add: sound_def)
  finally show ?case using 21(1) beside_frame by simp
qed

end
