(* ===== verification/ServerRun.thy ===== *)
theory ServerRun
  imports ServerSound
begin

text \<open>
  The program from its start: which configurations start, and what holds after any sequence of requests
  and batches of the cleanup worker.
\<close>

subsection \<open>The worker on the state of the server\<close>

definition server_worker :: "duration \<Rightarrow> server cleanup_worker" where
  "server_worker timeout =
     \<lparr>cw_tasks = server_cleanup, cw_blobs = server_blobs, cw_BatchSize = 16, cw_PollInterval = second,
      cw_OperationTimeout = timeout, cw_InitialBackoff = second, cw_MaxBackoff = minute, cw_now = on_world time_Now\<rparr>"

definition server_ctx_Err :: "ctx \<Rightarrow> server \<Rightarrow> goerr option \<times> server" where
  "server_ctx_Err c = on_world (ctx_Err c)"

lemma on_world_eq: "f (sv_world s) = (a, w) \<Longrightarrow> on_world f s = (a, s\<lparr>sv_world := w\<rparr>)"
  by (simp add: on_world_def)

lemma worker_parts:
  "cw_now (server_worker t) = on_world time_Now" "bs_Delete (cw_blobs (server_worker t)) c k = on_world (fs_Delete c k)"
  "cr_Claim (cw_tasks (server_worker t)) c n u = on_world (pg_ClaimTasks c n u)"
  "cr_Complete (cw_tasks (server_worker t)) c i = on_world (pg_CompleteTask c i)"
  "cr_Retry (cw_tasks (server_worker t)) c i u = on_world (pg_RetryTask c i u)"
  "cw_BatchSize (server_worker t) = cw_BatchSize (pg_worker t)" "leaseDuration (server_worker t) = leaseDuration (pg_worker t)"
  "backoff (server_worker t) n = backoff (pg_worker t) n"
  "cw_now (pg_worker t) = time_Now" "bs_Delete (cw_blobs (pg_worker t)) c k = fs_Delete c k"
  "cr_Claim (cw_tasks (pg_worker t)) c n u = pg_ClaimTasks c n u" "cr_Complete (cw_tasks (pg_worker t)) c i = pg_CompleteTask c i"
  "cr_Retry (cw_tasks (pg_worker t)) c i u = pg_RetryTask c i u"
  by (simp_all add: server_worker_def pg_worker_def server_blobs_def server_cleanup_def file_storage_def pg_cleanup_def
      leaseDuration_def backoff_def Let_def)

lemma lift_worker_process:
  "worker_process server_ctx_Err (server_worker t) c task s = on_world (worker_process ctx_Err (pg_worker t) c task) s"
proof -
  let ?c = "context_WithTimeout c"
  obtain r1 w1 where d: "fs_Delete ?c (t_StorageKey task) (sv_world s) = (r1, w1)" by fastforce
  show ?thesis
  proof (cases "case r1 of Inr _ \<Rightarrow> True | Inl e \<Rightarrow> errors_Is e BlobErrNotFound")
    case True
    obtain r2 w2 where k: "pg_CompleteTask ?c (t_ID task) w1 = (r2, w2)" by fastforce
    show ?thesis using True
      by (cases r2) (simp_all add: worker_process_def worker_parts Let_def on_world_def d k)
  next
    case False
    obtain r2 w2 where e: "ctx_Err c w1 = (r2, w2)" by fastforce
    obtain now w3 where n: "time_Now w2 = (now, w3)" by fastforce
    obtain r4 w4 where y: "pg_RetryTask ?c (t_ID task) (now + backoff (pg_worker t) (t_Attempts task)) w3 = (r4, w4)" by fastforce
    show ?thesis using False
      by (cases r2; cases r4) (simp_all add: worker_process_def worker_parts Let_def on_world_def server_ctx_Err_def d e n y)
  qed
qed

lemma lift_process_all:
  "process_all server_ctx_Err (server_worker t) c ts errs s = on_world (process_all ctx_Err (pg_worker t) c ts errs) s"
proof (induction ts arbitrary: errs s)
  case (Cons task ts)
  obtain r1 w1 where p: "worker_process ctx_Err (pg_worker t) c task (sv_world s) = (r1, w1)" by fastforce
  obtain r2 w2 where e: "ctx_Err c w1 = (r2, w2)" by fastforce
  have e': "server_ctx_Err c (s\<lparr>sv_world := w1\<rparr>) = (r2, s\<lparr>sv_world := w2\<rparr>)" by (simp add: server_ctx_Err_def on_world_def e)
  have p': "worker_process server_ctx_Err (server_worker t) c task s = (r1, s\<lparr>sv_world := w1\<rparr>)"
    by (simp add: lift_worker_process on_world_def p)
  show ?case
  proof (cases r1)
    case None
    then show ?thesis by (simp add: p p' Cons.IH on_world_def)
  next
    case (Some err)
    then show ?thesis by (cases r2) (simp_all add: p p' e e' Cons.IH on_world_def)
  qed
qed (simp add: on_world_def)

lemma lift_processBatch:
  "processBatch server_ctx_Err (server_worker t) c s = on_world (processBatch ctx_Err (pg_worker t) c) s"
proof -
  obtain now w1 where n: "time_Now (sv_world s) = (now, w1)" by fastforce
  obtain r2 w2 where k: "pg_ClaimTasks c (cw_BatchSize (pg_worker t)) (now + leaseDuration (pg_worker t)) w1 = (r2, w2)" by fastforce
  show ?thesis
  proof (cases r2)
    case (Inl e)
    then show ?thesis by (simp add: processBatch_def worker_parts on_world_def n k)
  next
    case (Inr ts)
    obtain r3 w3 where a: "process_all ctx_Err (pg_worker t) c ts [] w2 = (r3, w3)" by fastforce
    show ?thesis
      by (cases r3) (simp_all add: processBatch_def worker_parts on_world_def n k Inr lift_process_all a)
  qed
qed

subsection \<open>Starting\<close>

lemma new_auth_shape: "new_auth L cfg = Inr A \<Longrightarrow> \<exists>dg ttl cost. A = server_auth L dg ttl cost"
  by (auto simp: new_auth_def newAuthService_def server_auth_def Let_def split: if_splits)

lemma new_docs_shape:
  "new_docs L cfg = Inr S \<Longrightarrow> \<exists>mg ml timeout. S = server_doc L (cf_MaxFileBytes cfg) mg ml timeout \<and> 0 < cf_MaxFileBytes cfg"
  by (auto simp: new_docs_def newDocService_def server_doc_def split: if_splits)

lemma new_worker_shape: "new_worker cfg = Inr W \<Longrightarrow> \<exists>timeout. W = server_worker timeout"
  by (auto simp: new_worker_def newCleanupWorker_def server_worker_def Let_def second_def minute_def)

lemma open_ticks:
  "pg_Open ok c w = (r, w') \<Longrightarrow> \<exists>t. w' = w\<lparr>w_tick := t\<rparr>"
  by (cases r) (auto simp: pg_Open_def and_then_def map_err_def env_call_def env_next_def Let_def
      split: if_splits prod.splits sum.splits fault.splits intro: exI [of _ "w_tick w"])

lemma root_ticks:
  "newFileStorage absPath root w = (r, w') \<Longrightarrow> \<exists>t. w' = w\<lparr>w_tick := t\<rparr>"
  by (cases r) (auto simp: newFileStorage_def and_then_def map_err_def sys_call_def env_next_def
      split: if_splits prod.splits sum.splits fault.splits intro: exI [of _ "w_tick w"])

lemma start_shape:
  assumes "start L fl ok absPath is_dir loads cfg w = (Inr (h, W, s), w')"
  shows "\<exists>dg ttl cost mg ml timeout lease t. 0 < cf_MaxFileBytes cfg \<and>
    h = server_handler L fl is_dir loads cfg (server_auth L dg ttl cost) (server_doc L (cf_MaxFileBytes cfg) mg ml timeout) \<and>
    W = server_worker lease \<and> s = new_state cfg w' \<and> w' = w\<lparr>w_tick := t\<rparr>"
proof -
  obtain pool w1 where o: "pg_Open ok (pool_config cfg) w = (Inr pool, w1)"
    using assms by (auto simp: start_def split: prod.splits sum.splits)
  obtain A where A: "new_auth L cfg = Inr A"
    using assms o by (auto simp: start_def split: prod.splits sum.splits)
  obtain root w2 where f: "newFileStorage absPath (fc_Root (cf_FileStorage cfg)) w1 = (Inr root, w2)"
    using assms o A by (auto simp: start_def split: prod.splits sum.splits if_splits)
  obtain S where S: "new_docs L cfg = Inr S"
    using assms o A f by (auto simp: start_def split: prod.splits sum.splits if_splits)
  obtain V where V: "new_worker cfg = Inr V"
    using assms o A f S by (auto simp: start_def split: prod.splits sum.splits if_splits)
  have r: "h = server_handler L fl is_dir loads cfg A S" "W = V" "s = new_state cfg w2" "w' = w2"
    using assms o A f S V by (auto simp: start_def server_handler_def split: if_splits)
  obtain t where "w2 = w\<lparr>w_tick := t\<rparr>" using open_ticks [OF o] root_ticks [OF f] by auto
  then show ?thesis using r new_auth_shape [OF A] new_docs_shape [OF S] new_worker_shape [OF V] by blast
qed

subsection \<open>Running\<close>

text \<open>
  A step is a request or a batch of the worker, one after the other: requests do not overlap here. The
  history takes up what the step stored. A step may store a document only under an id that was never used,
  and may not change a stored document or the bytes of its file: \<open>no_reuse\<close> says both. The first is an
  assumption on the random ids; the second holds of every step from a state where each stored file has a key
  of its own that is not queued, as \<open>files_keep_their_blobs\<close> shows it to be when keys are drawn once.
\<close>

inductive server_step ::
  "golib \<Rightarrow> (uploadMeta \<times> bool) http_lib \<Rightarrow> server handler \<Rightarrow> server cleanup_worker \<Rightarrow>
   (string \<Rightarrow> (document \<times> bytes) option) \<times> server \<Rightarrow> (string \<Rightarrow> (document \<times> bytes) option) \<times> server \<Rightarrow> bool"
  for L H h W where
  request: "serve L H h x at r d s = (d', s') \<Longrightarrow> ds_sent d = None \<Longrightarrow> ds_body d = [] \<Longrightarrow> ds_calls d = 0 \<Longrightarrow>
    no_reuse hist (sv_stored s) (sv_stored s') \<Longrightarrow> server_step L H h W (hist, s) (hist ++ sv_stored s', s')"
| batch: "processBatch server_ctx_Err W background_ctx s = (res, s') \<Longrightarrow>
    no_reuse hist (sv_stored s) (sv_stored s') \<Longrightarrow> server_step L H h W (hist, s) (hist ++ sv_stored s', s')"

inductive_cases server_stepE: "server_step L H h W (hist, s) (hist', s')"

abbreviation "sv_faithful L H mf loads \<equiv> faithful L H (sound mf loads) (\<lambda>s. sv_stored s) (\<lambda>s. sv_view s)"

lemma faithful_world:
  assumes s: "sv_faithful L H mf loads hist s" and wf: "wf_in False w'" and ids: "no_reuse hist (sv_stored s) (stored_docs w')"
  shows "sv_faithful L H mf loads (hist ++ stored_docs w') (s\<lparr>sv_world := w'\<rparr>)"
proof -
  have "sv_stored s i = Some p \<Longrightarrow> hist i = Some p" for i p
    using s unfolding faithful_def map_le_def by (metis domI)
  then have le: "hist \<subseteq>\<^sub>m hist ++ stored_docs w'"
    using ids by (fastforce simp: map_le_def no_reuse_def map_add_def split: option.splits)
  have "ok_entry L H hist key e \<Longrightarrow> ok_entry L H (hist ++ stored_docs w') key e" for key e by (rule ok_entry_mono [OF _ le])
  then show ?thesis using s wf by (simp add: faithful_def sound_def)
qed

lemma step_faithful:
  assumes h: "h = server_handler L fl is_dir loads cfg (server_auth L dg ttl cost) (server_doc L mf mg ml timeout)"
    and W: "W = server_worker lease" and step: "server_step L H h W (hist, s) (hist', s')"
    and s: "sv_faithful L H mf loads hist s"
  shows "sv_faithful L H mf loads hist' s'"
  using step
proof (elim server_stepE, goal_cases)
  case (1 x at r d d')
  from srv.serve_keeps [OF 1(3-5) 1(2) [unfolded h] s 1(6)] 1(1) show ?thesis by simp
next
  case (2 res)
  obtain w' where w': "processBatch ctx_Err (pg_worker lease) background_ctx (sv_world s) = (res, w')" "s' = s\<lparr>sv_world := w'\<rparr>"
    using 2(2) unfolding W lift_processBatch by (auto simp: on_world_def split: prod.splits)
  have wf: "wf_in False (sv_world s)" using s by (simp add: faithful_def sound_def)
  obtain n err where res: "res = (n, err)" by (cases res)
  have "wf_in False w'"
    using pg_doc_env.batch_reaps [OF works_pg_worker quiet_ctx(1) wf _ w'(1) [unfolded res]]
    by (simp add: pg_doc_env.reaps_def background_ctx_def)
  from faithful_world [OF s this] 2(3) w' 2(1) show ?thesis by simp
qed

lemma run_faithful:
  assumes h: "h = server_handler L fl is_dir loads cfg (server_auth L dg ttl cost) (server_doc L mf mg ml timeout)"
    and W: "W = server_worker lease" and run: "(server_step L H h W)\<^sup>*\<^sup>* (hist, s) (hist', s')"
    and s: "sv_faithful L H mf loads hist s"
  shows "sv_faithful L H mf loads hist' s'"
proof -
  have "sv_faithful L H mf loads (fst y) (snd y)" if "(server_step L H h W)\<^sup>*\<^sup>* (hist, s) y" for y
    using that
  proof (induction rule: rtranclp_induct)
    case base
    with s show ?case by simp
  next
    case (step y z)
    from step_faithful [OF h W _ step.IH, of "fst z" "snd z"] step.hyps(2) show ?case by simp
  qed
  from this [OF run] show ?thesis by simp
qed

lemma new_state_faithful:
  assumes w: "wf_in False w" and cfg: "0 < cf_MaxFileBytes cfg" "cf_MaxFileBytes cfg < max_int64" "cf_CacheMaxBytes cfg \<le> 4611686018427387903"
    and loads: "\<forall>key s. snd (loads key s) = s"
  shows "sv_faithful L H (cf_MaxFileBytes cfg) loads (stored_docs w) (new_state cfg w)"
proof -
  have "mem_view (newMemory a b) key = None" for a b key
    by (simp add: mem_view_def newMemory_def abs_mem_def spec_find_def)
  then show ?thesis using w cfg loads newMemory_wf by (simp add: faithful_def sound_def new_state_def)
qed

end
