(* ===== verification/ServerDemo.thy ===== *)
theory ServerDemo
  imports ServerRun
begin

text \<open>
  A concrete run for the witnesses: the program starts on the demonstration database and a user reads a
  file. The lemmas evaluate one call after the other.
\<close>

subsection \<open>A program that has started\<close>

definition demo_float :: float_ops where
  "demo_float = \<lparr>fl_add = (+), fl_seconds = (\<lambda>d. 0), fl_show = (\<lambda>x. ''0'')\<rparr>"

definition demo_config :: config where
  "demo_config = default_config\<lparr>cf_AdminToken := ''secret''\<rparr>"

definition leads :: "string \<Rightarrow> server \<Rightarrow> flight \<times> server" where
  "leads key s = (Leads, s)"

definition demo_run :: "(goerr + server handler \<times> server cleanup_worker \<times> server) \<times> world" where
  "demo_run = start demo_lib demo_float (\<lambda>_. True) (\<lambda>r. r) True leads demo_config busy_world"

definition demo_read :: request where
  "demo_read = (demo_request ''GET'' (''/api/docs/'' @ did1))\<lparr>rq_RawQuery := ''token=tok''\<rparr>"

definition demo_world_at :: "nat \<Rightarrow> world" where
  "demo_world_at n = busy_world\<lparr>w_tick := n\<rparr>"

definition demo_auth_service :: "server auth_service" where
  "demo_auth_service = server_auth demo_lib ''#secret'' (24 * hour) 12"

definition demo_doc_service :: "server doc_service" where
  "demo_doc_service = server_doc demo_lib 26214400 100 100 (30 * second)"

definition demo_handler :: "server handler" where
  "demo_handler = server_handler demo_lib demo_float True leads demo_config demo_auth_service demo_doc_service"

lemma calm_demo [simp]: "calm (demo_world_at n)"
  by (simp add: demo_world_at_def)

lemma demo_tick [simp]: "(demo_world_at n)\<lparr>w_tick := m\<rparr> = demo_world_at m" "w_tick (demo_world_at n) = n"
  by (simp_all add: demo_world_at_def)

lemma demo_opens:
  "pg_Open (\<lambda>_. True) (pool_config demo_config) busy_world = (Inr (applyPoolDefaults (pool_config demo_config)), demo_world_at 2)"
  by (simp add: pg_Open_def and_then_def map_err_def calm_env_call pool_config_def demo_config_def default_config_def int32_def
      applyPoolDefaults_def demo_world_at_def busy_world_def calm_def calm_env_def hour_def minute_def second_def Let_def)

lemma demo_root: "newFileStorage (\<lambda>r. r) ''./data/blobs'' (demo_world_at 2) = (Inr ''./data/blobs'', demo_world_at 4)"
proof -
  have "strings_TrimSpace ''./data/blobs'' \<noteq> []" by code_simp
  then show ?thesis by (simp add: newFileStorage_def and_then_def map_err_def calm_sys_call)
qed

lemma demo_made: "new_auth demo_lib demo_config = Inr demo_auth_service" "new_docs demo_lib demo_config = Inr demo_doc_service"
  "new_worker demo_config = Inr (server_worker (30 * second))"
  by (simp_all add: new_auth_def newAuthService_def demo_config_def default_config_def hour_def minute_def second_def
      bcrypt_MinCost_def bcrypt_MaxCost_def
      defaultPasswordCost_def demo_auth_service_def server_auth_def demo_lib_def new_docs_def newDocService_def
      demo_doc_service_def server_doc_def new_worker_def newCleanupWorker_def server_worker_def Let_def)

lemma demo_starts: "demo_run = (Inr (demo_handler, server_worker (30 * second), new_state demo_config (demo_world_at 4)), demo_world_at 4)"
proof -
  have c: "fc_Root (cf_FileStorage demo_config) = ''./data/blobs''" "cf_StorageDriver demo_config = StorageFilesystem"
    by (simp_all add: demo_config_def default_config_def)
  show ?thesis
    by (simp add: demo_run_def start_def demo_opens demo_made c demo_root demo_handler_def server_handler_def)
qed

subsection \<open>The calls of a reader\<close>

lemma authorize_ticks: "auth_Authorize L (pg_auth L d ttl cost) request_ctx t w = (r, w') \<Longrightarrow> \<exists>n. w' = w\<lparr>w_tick := n\<rparr>"
  by (auto simp: auth_Authorize_def pg_auth_def pg_sessions_def pg_ByTokenHash_def select_session_def and_then_def map_err_def
      dest!: time_Now_same pg_exec_select_frame [OF _ ctx_request] split: prod.splits sum.splits if_splits intro: exI [of _ "w_tick w"])

lemma metadata_ticks: "doc_getMetadata (quiet_doc L mf mg ml) request_ctx u i w = (r, w') \<Longrightarrow> \<exists>n. w' = w\<lparr>w_tick := n\<rparr>"
  by (auto simp: doc_getMetadata_def pg_ByIDAccessible_def select_accessible_def and_then_def map_err_def ret_def fail_def
      dest!: pg_exec_select_frame [OF _ ctx_request] split: prod.splits sum.splits if_splits intro: exI [of _ "w_tick w"])

lemma open_blob_ticks: "fs_Open c k w = (r, w') \<Longrightarrow> \<exists>n. w' = w\<lparr>w_tick := n\<rparr>"
  by (auto simp: fs_Open_def os_Open_def os_Stat_def os_Close_def sys_call_def env_next_def
      dest!: ctx_Err_same split: prod.splits sum.splits if_splits option.splits fault.splits intro: exI [of _ "w_tick w"])

lemma get_ticks: "doc_Get (quiet_doc L mf mg ml) request_ctx u i w = (r, w') \<Longrightarrow> \<exists>n. w' = w\<lparr>w_tick := n\<rparr>"
  by (auto simp: doc_Get_def and_then_def map_err_def ret_def fail_def
      dest!: metadata_ticks open_blob_ticks split: prod.splits sum.splits if_splits)

lemma demo_authorized:
  "fst (auth_Authorize demo_lib (pg_auth demo_lib ''#secret'' (24 * hour) 12) request_ctx ''tok'' (demo_world_at n)) = Inr alice"
  by code_simp

lemma demo_metadata:
  "fst (doc_getMetadata (quiet_doc demo_lib 26214400 100 100) request_ctx alice did1 (demo_world_at n)) =
    Inr (the (pg_docs busy_world did1))"
  by code_simp

lemma demo_content:
  "fst (doc_Get (quiet_doc demo_lib 26214400 100 100) request_ctx alice did1 (demo_world_at n)) =
    Inr \<lparr>ct_Document = (the (pg_docs busy_world did1))\<lparr>d_SizeBytes := 3\<rparr>, ct_File = Some \<lparr>r_data = ''xyz'', r_err = None\<rparr>\<rparr>"
  by code_simp

subsection \<open>A reader's request\<close>

definition demo_state :: "nat \<Rightarrow> memory \<Rightarrow> registry \<Rightarrow> server" where
  "demo_state n m g = \<lparr>sv_world = demo_world_at n, sv_cache = m, sv_epoch = 0, sv_metrics = g, sv_log = []\<rparr>"

lemma demo_state_simps [simp]:
  "sv_world (demo_state n m g) = demo_world_at n" "sv_cache (demo_state n m g) = m" "sv_metrics (demo_state n m g) = g"
  "sv_epoch (demo_state n m g) = 0"
  "(demo_state n m g)\<lparr>sv_world := demo_world_at n'\<rparr> = demo_state n' m g" "(demo_state n m g)\<lparr>sv_cache := m'\<rparr> = demo_state n m' g"
  "(demo_state n m g)\<lparr>sv_metrics := g'\<rparr> = demo_state n m g'"
  by (simp_all add: demo_state_def)

lemma on_demo:
  assumes "\<And>w'. f (demo_world_at n) = (fst (f (demo_world_at n)), w') \<Longrightarrow> \<exists>t. w' = (demo_world_at n)\<lparr>w_tick := t\<rparr>"
    "fst (f (demo_world_at n)) = r"
  shows "\<exists>n'. on_world f (demo_state n m g) = (r, demo_state n' m g)"
proof -
  obtain w' where w': "f (demo_world_at n) = (r, w')" using assms(2) by (cases "f (demo_world_at n)") simp
  with assms obtain t where "w' = demo_world_at t" by auto
  with w' show ?thesis by (auto simp: on_world_def)
qed

lemma demo_sv_authorized: "\<exists>n'. auth_Authorize demo_lib demo_auth_service request_ctx ''tok'' (demo_state n m g) = (Inr alice, demo_state n' m g)"
  unfolding demo_auth_service_def lift_Authorize by (intro on_demo authorize_ticks demo_authorized)

lemma demo_sv_metadata:
  "\<exists>n'. doc_getMetadata demo_doc_service request_ctx alice did1 (demo_state n m g) = (Inr (the (pg_docs busy_world did1)), demo_state n' m g)"
  unfolding demo_doc_service_def lift_metadata by (intro on_demo metadata_ticks demo_metadata)

lemma demo_sv_content:
  "\<exists>n'. doc_Get demo_doc_service request_ctx alice did1 (demo_state n m g) =
    (Inr \<lparr>ct_Document = (the (pg_docs busy_world did1))\<lparr>d_SizeBytes := 3\<rparr>, ct_File = Some \<lparr>r_data = ''xyz'', r_err = None\<rparr>\<rparr>,
     demo_state n' m g)"
  unfolding demo_doc_service_def lift_Get by (intro on_demo get_ticks demo_content)

lemma demo_sv_calls:
  "\<exists>n'. on_world (ctx_Err c) (demo_state n m g) = (None, demo_state n' m g)"
  "\<exists>t n'. on_world time_Now (demo_state n m g) = (t, demo_state n' m g)"
  using calm_ctx_Err [OF calm_demo, of c n] by (auto simp: on_world_def time_Now_def env_next_def)

lemma demo_cache_miss: "\<exists>n'. cache_Get request_ctx key (demo_state n (newMemory a b) g) = (None, demo_state n' (newMemory a b) g)"
proof -
  obtain n1 where 1: "on_world (ctx_Err request_ctx) (demo_state n (newMemory a b) g) = (None, demo_state n1 (newMemory a b) g)"
    using demo_sv_calls by blast
  obtain t n2 where 2: "on_world time_Now (demo_state n1 (newMemory a b) g) = (t, demo_state n2 (newMemory a b) g)"
    using demo_sv_calls by blast
  have "mem_Get False t key (newMemory a b) = (None, newMemory a b)" by (simp add: mem_Get_def newMemory_def)
  with 1 2 show ?thesis by (auto simp: cache_Get_def)
qed

lemma demo_cache_put: "\<exists>n' m'. cache_Put c key e ttl (demo_state n m g) = demo_state n' m' g"
proof -
  obtain n1 where 1: "on_world (ctx_Err c) (demo_state n m g) = (None, demo_state n1 m g)" using demo_sv_calls by blast
  obtain t n2 where 2: "on_world time_Now (demo_state n1 m g) = (t, demo_state n2 m g)" using demo_sv_calls by blast
  from 1 2 show ?thesis by (auto simp: cache_Put_def)
qed

definition demo_document :: document where
  "demo_document = the (pg_docs busy_world did1)"

lemma demo_is_file: "d_IsFile demo_document"
  by code_simp

lemmas demo_parts = server_handler_parts [of demo_lib demo_float True leads demo_config demo_auth_service demo_doc_service, folded demo_handler_def]

lemma demo_cache_parts [simp]:
  "ca_Get server_cache = cache_Get" "ca_Set server_cache = cache_Put" "ca_Stats server_cache = Some cache_Stats"
  "ca_EntryFits server_cache = Some (\<lambda>key e n s. mem_EntryFits key e n (sv_cache s))"
  by (simp_all add: server_cache_def)

lemma demo_observes:
  "\<exists>g'. run_state (observeCacheSize demo_handler) \<lparr>cn_back = demo_state n m g, cn_rw = rw, cn_cache = c\<rparr> =
    ((), \<lparr>cn_back = demo_state n m g', cn_rw = rw, cn_cache = c\<rparr>)"
  "\<exists>g'. run_state (observeCacheResult demo_handler False) \<lparr>cn_back = demo_state n m g, cn_rw = rw, cn_cache = c\<rparr> =
    ((), \<lparr>cn_back = demo_state n m g', cn_rw = rw, cn_cache = ''miss''\<rparr>)"
  by (auto simp: observeCacheSize_def observeCacheResult_def demo_parts server_metrics_def split: prod.split)

definition demo_captures :: "boundedCapture option set" where
  "demo_captures = {None, Some \<lparr>cp_buffer = [], cp_remaining = 3, cp_overflow = False\<rparr>}"

lemma demo_streamFile:
  "\<exists>n' m' g'. \<exists>cap \<in> demo_captures. run_state (streamFile demo_lib demo_handler server_cache None key tags (x\<lparr>d_SizeBytes := 3\<rparr>) file)
      \<lparr>cn_back = demo_state n m g, cn_rw = rw, cn_cache = c\<rparr> =
    (Returned, \<lparr>cn_back = demo_state n' m' g', cn_rw = snd (writeFileStream demo_lib None (x\<lparr>d_SizeBytes := 3\<rparr>) file cap rw),
       cn_cache = c\<rparr>)"
proof -
  let ?x = "x\<lparr>d_SizeBytes := 3\<rparr>" and ?cap = "Some \<lparr>cp_buffer = [], cp_remaining = 3, cp_overflow = False\<rparr>"
  show ?thesis
  proof (cases "mem_EntryFits key (fileMetadataEntry demo_lib ?x tags) 3 m")
    case False
    obtain n1 m1 where put: "cache_Put (context_WithoutCancel request_ctx) key (fileMetadataEntry demo_lib ?x tags)
        (dp_CacheTTL (h_deps demo_handler)) (demo_state n m g) = demo_state n1 m1 g" using demo_cache_put by blast
    obtain g1 where size: "run_state (observeCacheSize demo_handler) \<lparr>cn_back = demo_state n1 m1 g, cn_rw = rw, cn_cache = c\<rparr> =
        ((), \<lparr>cn_back = demo_state n1 m1 g1, cn_rw = rw, cn_cache = c\<rparr>)" using demo_observes(1) by blast
    have "run_state (streamFile demo_lib demo_handler server_cache None key tags ?x file)
        \<lparr>cn_back = demo_state n m g, cn_rw = rw, cn_cache = c\<rparr> =
      (Returned, \<lparr>cn_back = demo_state n1 m1 g1, cn_rw = snd (writeFileStream demo_lib None ?x file None rw), cn_cache = c\<rparr>)"
      using False by (simp add: streamFile_def Let_def put size split: prod.split)
    then show ?thesis unfolding demo_captures_def by blast
  next
    case True
    obtain err cap rw' where w: "writeFileStream demo_lib None ?x file ?cap rw = ((err, cap), rw')" by (metis prod.exhaust)
    have "\<exists>n' m' g'. run_state (streamFile demo_lib demo_handler server_cache None key tags ?x file)
        \<lparr>cn_back = demo_state n m g, cn_rw = rw, cn_cache = c\<rparr> = (Returned, \<lparr>cn_back = demo_state n' m' g', cn_rw = rw', cn_cache = c\<rparr>)"
    proof (cases "cap = None \<or> err \<noteq> None \<or> cp_overflow (the cap) \<or> int (length (cp_buffer (the cap))) \<noteq> 3")
      case bad: True
      then show ?thesis using True by (cases cap) (auto simp: streamFile_def Let_def w)
    next
      case good: False
      then obtain q where q: "cap = Some q" "err = None" "\<not> cp_overflow q" "int (length (cp_buffer q)) = 3" by auto
      obtain n1 m1 where put: "cache_Put (context_WithoutCancel request_ctx) key
          ((fileMetadataEntry demo_lib ?x tags)\<lparr>e_body := cp_buffer q, e_omitted := False\<rparr>)
          (dp_CacheTTL (h_deps demo_handler)) (demo_state n m g) = demo_state n1 m1 g" using demo_cache_put by blast
      obtain g1 where size: "run_state (observeCacheSize demo_handler) \<lparr>cn_back = demo_state n1 m1 g, cn_rw = rw', cn_cache = c\<rparr> =
          ((), \<lparr>cn_back = demo_state n1 m1 g1, cn_rw = rw', cn_cache = c\<rparr>)" using demo_observes(1) by blast
      show ?thesis using True q by (auto simp: streamFile_def Let_def w put size)
    qed
    with w show ?thesis unfolding demo_captures_def by fastforce
  qed
qed

lemma demo_reads_file:
  assumes "rq_Method r = ''GET''"
  shows "\<exists>n' m' g'. \<exists>cap \<in> demo_captures.
    run_state (readFileWithCache demo_lib H demo_handler server_cache (doc_api demo_lib demo_doc_service) None r alice did1 demo_document)
      \<lparr>cn_back = demo_state n (newMemory a b) g, cn_rw = rw, cn_cache = c\<rparr> =
    (Returned, \<lparr>cn_back = demo_state n' m' g', cn_rw = snd (writeFileStream demo_lib None (demo_document\<lparr>d_SizeBytes := 3\<rparr>)
        \<lparr>r_data = ''xyz'', r_err = None\<rparr> cap rw), cn_cache = ''miss''\<rparr>)"
proof -
  let ?key = "documentCacheKey H 0 did1 (d_Version demo_document)" and ?x = "demo_document\<lparr>d_SizeBytes := 3\<rparr>"
    and ?file = "\<lparr>r_data = ''xyz'', r_err = None\<rparr>"
  obtain n1 where get: "cache_Get request_ctx ?key (demo_state n (newMemory a b) g) = (None, demo_state n1 (newMemory a b) g)"
    using demo_cache_miss by blast
  obtain g1 where res: "run_state (observeCacheResult demo_handler False) \<lparr>cn_back = demo_state n1 (newMemory a b) g, cn_rw = rw, cn_cache = c\<rparr> =
      ((), \<lparr>cn_back = demo_state n1 (newMemory a b) g1, cn_rw = rw, cn_cache = ''miss''\<rparr>)" using demo_observes(2) by blast
  obtain n2 where ct: "doc_Get demo_doc_service request_ctx alice did1 (demo_state n1 (newMemory a b) g1) =
      (Inr \<lparr>ct_Document = ?x, ct_File = Some ?file\<rparr>, demo_state n2 (newMemory a b) g1)"
    using demo_sv_content unfolding demo_document_def by blast
  have expose: "exposeCacheStatus demo_handler False rw = rw"
    by (simp add: exposeCacheStatus_def demo_handler_def server_handler_def newHandler_def new_dependencies_def Let_def
        demo_config_def default_config_def)
  have ep: "ep_Load (h_cacheEpoch demo_handler) (demo_state n (newMemory a b) g) = 0" by (simp add: demo_parts server_epoch_def)
  have api: "da_Get (doc_api demo_lib demo_doc_service) = doc_Get demo_doc_service" by (simp add: doc_api_def)
  have "run_state (readFileWithCache demo_lib H demo_handler server_cache (doc_api demo_lib demo_doc_service) None r alice did1 demo_document)
      \<lparr>cn_back = demo_state n (newMemory a b) g, cn_rw = rw, cn_cache = c\<rparr> =
    run_state (streamFile demo_lib demo_handler server_cache None ?key [''document:'' @ did1] ?x ?file)
      \<lparr>cn_back = demo_state n2 (newMemory a b) g1, cn_rw = rw, cn_cache = ''miss''\<rparr>"
    using assms by (simp add: readFileWithCache_def Let_def ep get usable_def res expose api ct)
  with demo_streamFile show ?thesis by simp
qed

lemma demo_serves:
  "\<exists>n' d' s'. serve demo_lib demo_http demo_handler (demo_exchange None) None demo_read (new_dst None) (demo_state n (newMemory a b) g) =
      (d', s') \<and> sv_world s' = demo_world_at n' \<and> map_option fst (ds_sent d') = Some 200 \<and> ds_body d' = ''xyz''"
proof -
  let ?rw = "Observed (begin_response (demo_exchange None) True demo_read (new_dst None))"
  define r' where "r' = demo_read\<lparr>rq_Body := map_option (\<lambda>b. max_bytes_reader b (lm_MaxRequestBytes (dp_Limits (h_deps demo_handler)))) (rq_Body demo_read)\<rparr>"
  have r': "rq_Method r' = ''GET''" "rq_Path r' = ''/api/docs/'' @ did1" "rq_RawQuery r' = ''token=tok''"
    by (simp_all add: r'_def demo_read_def demo_request_def)
  have token: "read_token ''token=tok'' = Some ''tok''" by code_simp
  have paths: "\<not> singlePathValue (''/api/docs/'' @ did1) ''/api/auth/''" "singlePathValue (''/api/docs/'' @ did1) ''/api/docs/''"
    "strings_TrimPrefix (''/api/docs/'' @ did1) ''/api/docs/'' = did1"
    "''/api/docs/'' @ did1 \<notin> {''/health/live'', ''/health/ready'', ''/api/register'', ''/api/auth'', ''/api/docs''}"
    by code_simp+
  have limit: "\<not> rq_ContentLength demo_read > lm_MaxRequestBytes (dp_Limits (h_deps demo_handler))" "dp_ProcessingTimeout (h_deps demo_handler) > 0"
    by (simp_all add: demo_handler_def server_handler_def newHandler_def new_dependencies_def or_default_def Let_def demo_config_def
        default_config_def demo_read_def demo_request_def second_def)
  obtain n1 where auth: "auth_Authorize demo_lib demo_auth_service request_ctx ''tok'' (demo_state n (newMemory a b) g) =
      (Inr alice, demo_state n1 (newMemory a b) g)" using demo_sv_authorized by blast
  obtain n2 where meta: "doc_getMetadata demo_doc_service request_ctx alice did1 (demo_state n1 (newMemory a b) g) =
      (Inr demo_document, demo_state n2 (newMemory a b) g)" using demo_sv_metadata unfolding demo_document_def by blast
  obtain n3 m3 g3 cap where rd: "cap \<in> demo_captures"
    "run_state (readFileWithCache demo_lib demo_http demo_handler server_cache (doc_api demo_lib demo_doc_service) None r' alice did1 demo_document)
      \<lparr>cn_back = demo_state n2 (newMemory a b) g, cn_rw = ?rw, cn_cache = ''none''\<rparr> =
    (Returned, \<lparr>cn_back = demo_state n3 m3 g3, cn_rw = snd (writeFileStream demo_lib None (demo_document\<lparr>d_SizeBytes := 3\<rparr>)
        \<lparr>r_data = ''xyz'', r_err = None\<rparr> cap ?rw), cn_cache = ''miss''\<rparr>)"
    using demo_reads_file [OF r'(1)] by blast
  have api: "aa_Authorize (auth_api demo_lib demo_auth_service) = auth_Authorize demo_lib demo_auth_service"
    "da_GetMetadata (doc_api demo_lib demo_doc_service) = Some (doc_getMetadata demo_doc_service)" by (simp_all add: auth_api_def doc_api_def)
  have route: "route demo_lib demo_http demo_handler None r' = readDocument demo_lib demo_http demo_handler None r' did1"
    using paths by (simp add: route_def r' Let_def)
  have read: "run_state (readDocument demo_lib demo_http demo_handler None r' did1)
      \<lparr>cn_back = demo_state n (newMemory a b) g, cn_rw = ?rw, cn_cache = ''none''\<rparr> =
    (Returned, \<lparr>cn_back = demo_state n3 m3 g3, cn_rw = snd (writeFileStream demo_lib None (demo_document\<lparr>d_SizeBytes := 3\<rparr>)
        \<lparr>r_data = ''xyz'', r_err = None\<rparr> cap ?rw), cn_cache = ''miss''\<rparr>)"
    by (simp add: readDocument_def readAuthorized_def demo_parts api r' token auth meta demo_is_file rd(2))
  have out: "case snd (writeFileStream demo_lib None (demo_document\<lparr>d_SizeBytes := 3\<rparr>) \<lparr>r_data = ''xyz'', r_err = None\<rparr> cap' ?rw) of
      Observed o1 \<Rightarrow> (case settle (demo_exchange None) Returned o1 of (ending, o2) \<Rightarrow>
        map_option fst (ds_sent (ob_dst o2)) = Some 200 \<and> ds_body (ob_dst o2) = ''xyz'') | _ \<Rightarrow> False"
    if "cap' = None \<or> cap' = Some \<lparr>cp_buffer = [], cp_remaining = 3, cp_overflow = False\<rparr>" for cap'
    using that by (elim disjE; simp only:; code_simp)
  then obtain o1 ending o2 where o: "snd (writeFileStream demo_lib None (demo_document\<lparr>d_SizeBytes := 3\<rparr>)
      \<lparr>r_data = ''xyz'', r_err = None\<rparr> cap ?rw) = Observed o1" "settle (demo_exchange None) Returned o1 = (ending, o2)"
    "map_option fst (ds_sent (ob_dst o2)) = Some 200" "ds_body (ob_dst o2) = ''xyz''"
    using rd(1) unfolding demo_captures_def by (fastforce split: writer.splits prod.splits)
  have "serve demo_lib demo_http demo_handler (demo_exchange None) None demo_read (new_dst None) (demo_state n (newMemory a b) g) =
      (ob_dst o2, report demo_handler (demo_exchange None) demo_read ending ''miss'' o2 (demo_state n3 m3 g3))"
    using limit by (simp add: serve_def serveHTTP_def run_next_def Let_def r'_def [symmetric] route read o)
  moreover have "sv_world (report demo_handler (demo_exchange None) demo_read ending ''miss'' o2 (demo_state n3 m3 g3)) = demo_world_at n3"
    by (cases ending) (simp add: report_def demo_parts server_log_def server_metrics_def Let_def)
  ultimately show ?thesis using o(3,4) by blast
qed

end
