(* ===== verification/ServerProps.thy ===== *)
theory ServerProps
  imports ServerDemo
begin

text \<open>
  The properties of the whole program: which configurations start, what the cache holds after any run,
  and what a client can read.
\<close>

subsection \<open>Start\<close>

lemma wrap32: "-2147483648 \<le> x \<Longrightarrow> x < 2147483648 \<Longrightarrow> int32 x = x"
  by (simp add: int32_def)

lemma calm_open:
  assumes "calm w" "dsn_ok (pc_DSN c)" "0 \<le> pc_MinConns c" "pc_MinConns c \<le> pc_MaxConns c" "1 \<le> pc_MaxConns c"
    "0 < pc_MaxConnLifetime c" "0 < pc_MaxConnIdleTime c" "0 < pc_HealthCheckPeriod c"
  shows "\<exists>w'. pg_Open dsn_ok c w = (Inr (applyPoolDefaults c), w') \<and> calm w'"
  using assms by (simp add: pg_Open_def applyPoolDefaults_def defaultMinConns_def and_then_def map_err_def calm_env_call)

lemma calm_root: "calm w \<Longrightarrow> strings_TrimSpace root \<noteq> [] \<Longrightarrow> \<exists>w'. newFileStorage absPath root w = (Inr (absPath root), w')"
  by (simp add: newFileStorage_def and_then_def map_err_def calm_sys_call)

lemma new_services:
  assumes "0 < cf_SessionTTL cfg" "cf_AdminToken cfg \<noteq> []" "0 < cf_MaxFileBytes cfg" "0 < cf_MaxGrantItems cfg"
  shows "\<exists>A. new_auth L cfg = Inr A" "\<exists>S. new_docs L cfg = Inr S" "\<exists>W. new_worker cfg = Inr W"
  using assms by (simp_all add: new_auth_def newAuthService_def defaultPasswordCost_def bcrypt_MinCost_def bcrypt_MaxCost_def
      new_docs_def newDocService_def new_worker_def newCleanupWorker_def Let_def second_def minute_def)

text \<open>C20: A configuration that loads starts the program, or names the S3 driver, which is configurable but not
  implemented: no constructor refuses what the loader let through. The pool runs with the configured sizes, save that a
  configured minimum of 0 becomes 1. Here the database answers, its driver accepts the URL, and the blob directory can be
  made.\<close>

theorem loaded_starts:
  assumes "loadFromLookup CL lookup = Inr cfg" "calm w" "dsn_ok (cf_PostgresDSN cfg)"
  shows "pc_MaxConns (applyPoolDefaults (pool_config cfg)) = cf_PostgresMaxConns cfg \<and>
    pc_MinConns (applyPoolDefaults (pool_config cfg)) = max 1 (cf_PostgresMinConns cfg) \<and>
    (case fst (start L fl dsn_ok absPath is_dir loads cfg w) of
       Inr (h, W, s) \<Rightarrow> cf_StorageDriver cfg = StorageFilesystem \<and> sv_cache s = newMemory (cf_CacheMaxBytes cfg) (cf_CacheMaxItems cfg)
     | Inl e \<Rightarrow> cf_StorageDriver cfg = StorageS3 \<and> e = Opaque ''configured blob storage driver is not implemented'')"
proof -
  note b = valid_bounds [OF load_valid [OF assms(1), THEN conjunct1]]
  have token: "cf_AdminToken cfg \<noteq> []"
  proof
    assume "cf_AdminToken cfg = []"
    moreover have "strings_TrimSpace [] = []" by code_simp
    ultimately show False using b by simp
  qed
  have pool: "pc_MaxConns (pool_config cfg) = cf_PostgresMaxConns cfg" "pc_MinConns (pool_config cfg) = cf_PostgresMinConns cfg"
    using b by (simp_all add: pool_config_def wrap32)
  obtain w1 where o: "pg_Open dsn_ok (pool_config cfg) w = (Inr (applyPoolDefaults (pool_config cfg)), w1)" "calm w1"
    using calm_open [OF assms(2), of dsn_ok "pool_config cfg"] assms(3) b pool by (auto simp: pool_config_def)
  obtain A S W where made: "new_auth L cfg = Inr A" "new_docs L cfg = Inr S" "new_worker cfg = Inr W"
    using new_services [where cfg = cfg] b token by blast
  have "case fst (start L fl dsn_ok absPath is_dir loads cfg w) of
       Inr (h, W, s) \<Rightarrow> cf_StorageDriver cfg = StorageFilesystem \<and> sv_cache s = newMemory (cf_CacheMaxBytes cfg) (cf_CacheMaxItems cfg)
     | Inl e \<Rightarrow> cf_StorageDriver cfg = StorageS3 \<and> e = Opaque ''configured blob storage driver is not implemented''"
  proof (cases "cf_StorageDriver cfg = StorageFilesystem")
    case True
    then have "strings_TrimSpace (fc_Root (cf_FileStorage cfg)) \<noteq> []" using b by (auto simp: StorageFilesystem_def)
    then obtain w2 where "newFileStorage absPath (fc_Root (cf_FileStorage cfg)) w1 = (Inr (absPath (fc_Root (cf_FileStorage cfg))), w2)"
      using calm_root [OF o(2)] by blast
    with o made True show ?thesis by (simp add: start_def new_state_def)
  next
    case False
    with o made b show ?thesis by (simp add: start_def StorageFilesystem_def StorageS3_def)
  qed
  moreover have "pc_MaxConns (applyPoolDefaults (pool_config cfg)) = cf_PostgresMaxConns cfg \<and>
      pc_MinConns (applyPoolDefaults (pool_config cfg)) = max 1 (cf_PostgresMinConns cfg)"
    using pool b by (simp add: applyPoolDefaults_def defaultMinConns_def)
  ultimately show ?thesis by blast
qed

text \<open>
  The largest limit that loads is not a usable one: the limit plus one wraps around, the reader delivers
  nothing, and every file is stored as an empty one.
\<close>

lemma largest_file_limit_stores_nothing:
  assumes "ds_maxFile S = max_int64"
  shows "upload_blob S c x (Some r) w = upload_blob S c x (Some \<lparr>r_data = [], r_err = None\<rparr>) w"
proof -
  have "wrap64 (max_int64 + 1) < 0" by code_simp
  then have read: "limited_reader r (wrap64 (max_int64 + 1)) = \<lparr>r_data = [], r_err = None\<rparr>" for r
    by (simp add: limited_reader_def)
  show ?thesis unfolding upload_blob_def assms option.map(2) read ..
qed

subsection \<open>The cache and what clients read\<close>

text \<open>C4: After any sequence of requests and worker batches from the start of the program, the schema's
  constraints hold, and whatever the response cache holds is right: a cached document response renders
  the document its key names as it was stored, and only answers of success are cached. The steps of a run
  are those of \<open>server_step\<close>: requests do not overlap, no id is used twice, and no stored document or its
  file's bytes change while it is stored.\<close>

theorem cache_stays_faithful:
  assumes "start L fl dsn_ok absPath is_dir loads cfg w0 = (Inr (h, W, s0), w)" "wf_in False w0"
    "cf_MaxFileBytes cfg < max_int64" "cf_CacheMaxBytes cfg \<le> 4611686018427387903" "\<forall>key s. snd (loads key s) = s"
    "(server_step L H h W)\<^sup>*\<^sup>* (stored_docs w, s0) (hist, s)"
  shows "wf_in False (sv_world s) \<and> stored_docs (sv_world s) \<subseteq>\<^sub>m hist \<and>
    (\<forall>key e. mem_view (sv_cache s) key = Some e \<longrightarrow> 200 \<le> e_status e \<and> e_status e < 300 \<and>
       (\<forall>ep i v. key = documentCacheKey H ep i v \<longrightarrow> (\<exists>p. hist i = Some p \<and> rendered L H p e)))"
proof -
  obtain dg ttl cost mg ml timeout lease t where st: "0 < cf_MaxFileBytes cfg"
    "h = server_handler L fl is_dir loads cfg (server_auth L dg ttl cost) (server_doc L (cf_MaxFileBytes cfg) mg ml timeout)"
    "W = server_worker lease" "s0 = new_state cfg w" "w = w0\<lparr>w_tick := t\<rparr>"
    using start_shape [OF assms(1)] by blast
  have "wf_in False w" using assms(2) st(5) by simp
  from run_faithful [OF st(2,3) assms(6) [unfolded st(4)] new_state_faithful [OF this st(1) assms(3-5)]]
  show ?thesis by (simp add: faithful_def sound_def ok_entry_def)
qed

text \<open>What a request gets that joins the load of another request.\<close>

definition joins_right ::
  "golib \<Rightarrow> 'm http_lib \<Rightarrow> (string \<Rightarrow> (document \<times> bytes) option) \<Rightarrow> (string \<Rightarrow> server \<Rightarrow> flight \<times> server) \<Rightarrow> bool" where
  "joins_right L H hist loads \<longleftrightarrow>
     (\<forall>key s v. fst (loads key s) = Joins v \<longrightarrow>
        (e_status (cl_entry v) = 0 \<longrightarrow> e_body (cl_entry v) = []) \<and>
        (200 \<le> e_status (cl_entry v) \<and> e_status (cl_entry v) < 300 \<longrightarrow> ok_entry L H hist key (cl_entry v)))"

text \<open>C2: After any such run, a request that reads a document is answered with a body only if its token
  has a live session - one that is not revoked and, by the clock when the request is authorized, not
  expired - for a user who may read the stored document, and the body is what was stored under that id,
  whether it came from the store or from the cache. The results that it joins from loads of other
  requests are taken to be right.\<close>

theorem reads_are_authorized:
  assumes "start L fl dsn_ok absPath is_dir loads cfg w0 = (Inr (h, W, s0), w)" "wf_in False w0"
    "cf_MaxFileBytes cfg < max_int64" "cf_CacheMaxBytes cfg \<le> 4611686018427387903" "\<forall>key s. snd (loads key s) = s"
    "(server_step L H h W)\<^sup>*\<^sup>* (stored_docs w, s0) (hist, s)"
    "joins_right L H hist loads"
    "serve L H h x at r (new_dst f) s = (d', s')" "rq_Method r = ''GET'' \<or> rq_Method r = ''HEAD''"
    "rq_Path r = ''/api/docs/'' @ i" "singlePathValue (rq_Path r) ''/api/docs/''"
    "map_option fst (ds_sent d') = Some 200" "ds_body d' \<noteq> []"
  shows "\<exists>t sess u p. read_token (rq_RawQuery r) = Some t \<and>
    pg_session_view (sv_world s) (sha256 L t) = Some (sess, u) \<and> s_RevokedAt sess = None \<and>
    live_session pg_micros (es_clock (w_env (sv_world s) (w_tick (sv_world s)))) sess \<and>
    hist i = Some p \<and> readable u (fst p) \<and> prefix (ds_body d') (document_body H p)"
proof -
  obtain dg ttl cost mg ml timeout lease k where st: "0 < cf_MaxFileBytes cfg"
    "h = server_handler L fl is_dir loads cfg (server_auth L dg ttl cost) (server_doc L (cf_MaxFileBytes cfg) mg ml timeout)"
    "W = server_worker lease" "s0 = new_state cfg w" "w = w0\<lparr>w_tick := k\<rparr>"
    using start_shape [OF assms(1)] by blast
  have "wf_in False w" using assms(2) st(5) by simp
  note good = run_faithful [OF st(2,3) assms(6) [unfolded st(4)] new_state_faithful [OF this st(1) assms(3-5)]]
  have joins: "srv.joined_loads_good L fl is_dir loads cfg dg ttl cost (cf_MaxFileBytes cfg) mg ml timeout H L hist"
    using assms(7) fst_conv unfolding srv.joined_loads_good_def srv.joins_good_def srv.entry_good_def joins_right_def server_handler_parts
    by metis
  have fresh: "ds_sent (new_dst f) = None" "ds_body (new_dst f) = []" "ds_calls (new_dst f) = 0" by (simp_all add: new_dst_def)
  obtain t u s1 p where read: "read_token (rq_RawQuery r) = Some t" "auth_Authorize L (server_auth L dg ttl cost) request_ctx t s = (Inr u, s1)"
    "hist i = Some p" "readable u (fst p)" "prefix (ds_body d') (document_body H p)"
    using srv.serve_reads [OF fresh assms(8) [unfolded st(2)] good joins assms(9-13)] by (auto simp: auth_api_def)
  obtain w1 where "auth_Authorize L (pg_auth L dg ttl cost) request_ctx t (sv_world s) = (Inr u, w1)"
    using read(2) unfolding lift_Authorize by (auto simp: on_world_def split: prod.splits)
  from pg_auth_env.authorize_cases [OF runs_on_pg_auth _ ctx_request this] good
  obtain sess where "pg_session_view (sv_world s) (sha256 L t) = Some (sess, u)"
    "live_session pg_micros (es_clock (w_env (sv_world s) (w_tick (sv_world s)))) sess"
    by (auto simp: faithful_def sound_def tokenDigest_def time_Now_def env_next_def)
  moreover from this(2) have "s_RevokedAt sess = None" by (simp add: live_session_def)
  ultimately
  show ?thesis using read by blast
qed

subsection \<open>Witnesses\<close>

lemma demo_config_loads:
  "\<exists>cfg. loadFromLookup demo_config_lib demo_env = Inr cfg \<and> cf_StorageDriver cfg = StorageFilesystem"
proof -
  have "cf_StorageDriver (configured demo_config_lib demo_env) = StorageFilesystem" by code_simp
  then show ?thesis using demo_well_formed demo_valid by (simp add: load_reference)
qed

lemma loaded_starts_witness:
  "\<exists>cfg h W s. loadFromLookup demo_config_lib demo_env = Inr cfg \<and>
     fst (start demo_lib demo_float (\<lambda>_. True) (\<lambda>r. r) True leads cfg busy_world) = Inr (h, W, s)"
proof -
  obtain cfg where cfg: "loadFromLookup demo_config_lib demo_env = Inr cfg" "cf_StorageDriver cfg = StorageFilesystem"
    using demo_config_loads by blast
  from loaded_starts [OF cfg(1) calm_busy_world, of "\<lambda>_. True" demo_lib demo_float "\<lambda>r. r" True leads] cfg show ?thesis
    by (cases "fst (start demo_lib demo_float (\<lambda>_. True) (\<lambda>r. r) True leads cfg busy_world)")
      (auto simp: StorageFilesystem_def StorageS3_def)
qed

lemma demo_hypotheses:
  "cf_MaxFileBytes demo_config < max_int64" "cf_CacheMaxBytes demo_config \<le> 4611686018427387903" "\<forall>key s. snd (leads key s) = s"
  by (simp_all add: demo_config_def default_config_def max_int64_def leads_def)

lemma demo_new_state: "new_state demo_config (demo_world_at 4) = demo_state 4 (newMemory (cf_CacheMaxBytes demo_config) (cf_CacheMaxItems demo_config)) newMetrics"
  by (simp add: new_state_def demo_state_def)

lemma demo_stored: "stored_docs (demo_world_at n) = stored_docs busy_world"
  by (rule stored_lasting) (simp add: demo_world_at_def)

lemma cache_stays_faithful_witness:
  "\<exists>d' s'. serve demo_lib demo_http demo_handler (demo_exchange None) None demo_read (new_dst None) (new_state demo_config (demo_world_at 4)) = (d', s') \<and>
     ds_body d' = ''xyz'' \<and> (\<forall>key e. mem_view (sv_cache s') key = Some e \<longrightarrow> 200 \<le> e_status e)"
proof -
  obtain n d' s' where run: "serve demo_lib demo_http demo_handler (demo_exchange None) None demo_read (new_dst None)
      (new_state demo_config (demo_world_at 4)) = (d', s')" "sv_world s' = demo_world_at n" "ds_body d' = ''xyz''"
    using demo_serves unfolding demo_new_state by metis
  have "no_reuse (stored_docs (demo_world_at 4)) (sv_stored (new_state demo_config (demo_world_at 4))) (sv_stored s')"
    by (simp add: no_reuse_def run(2) demo_stored demo_new_state)
  from server_step.request [OF run(1) _ _ _ this, of "server_worker (30 * second)"]
  have "(server_step demo_lib demo_http demo_handler (server_worker (30 * second)))\<^sup>*\<^sup>*
      (stored_docs (demo_world_at 4), new_state demo_config (demo_world_at 4))
      (stored_docs (demo_world_at 4) ++ sv_stored s', s')" by (simp add: new_dst_def)
  from cache_stays_faithful [OF demo_starts [unfolded demo_run_def] wf_busy_world demo_hypotheses this] run show ?thesis by blast
qed

lemma reads_are_authorized_witness:
  "\<exists>d' s' u p. serve demo_lib demo_http demo_handler (demo_exchange None) None demo_read (new_dst None) (new_state demo_config (demo_world_at 4)) = (d', s') \<and>
     ds_body d' = ''xyz'' \<and> stored_docs (demo_world_at 4) did1 = Some p \<and> readable u (fst p)"
proof -
  obtain d' s' where run: "serve demo_lib demo_http demo_handler (demo_exchange None) None demo_read (new_dst None)
      (new_state demo_config (demo_world_at 4)) = (d', s')" "map_option fst (ds_sent d') = Some 200" "ds_body d' = ''xyz''"
    using demo_serves unfolding demo_new_state by metis
  have joins: "joins_right demo_lib demo_http (stored_docs (demo_world_at 4)) leads" by (simp add: joins_right_def leads_def)
  have path: "rq_Method demo_read = ''GET'' \<or> rq_Method demo_read = ''HEAD''" "rq_Path demo_read = ''/api/docs/'' @ did1"
    by (simp_all add: demo_read_def demo_request_def)
  have single: "singlePathValue (rq_Path demo_read) ''/api/docs/''" by code_simp
  have "ds_body d' \<noteq> []" using run(3) by simp
  from reads_are_authorized [OF demo_starts [unfolded demo_run_def] wf_busy_world demo_hypotheses rtranclp.rtrancl_refl joins run(1) path single run(2) this] run
  show ?thesis by blast
qed

end
