(* ===== verification/Migrate.thy ===== *)
theory Migrate
  imports PgStore
begin

text \<open>
  The migrator, \<open>internal/repository/postgres/migrate.go\<close>. Its functions are programs that call the
  database and go on with the answer, so that the calls of several migrators can be interleaved. A call
  may fail for reasons of its own. What the SQL of a migration does to the schema is a parameter.
\<close>

subsection \<open>The embedded migrations\<close>

record migration =
  mg_version :: int
  mg_up :: string
  mg_down :: string

text \<open>\<open>embed.FS\<close>: the names \<open>ReadDir\<close> lists, and \<open>ReadFile\<close>.\<close>

record embedded =
  em_ReadDir :: "goerr + string list"
  em_ReadFile :: "string \<Rightarrow> goerr + string"

definition load_error :: goerr where
  "load_error = Wrapped ''load migrations'' (Sentinel RepoErrInternal)"

text \<open>The version and the direction that a file name stands for; \<open>Inl ()\<close> for a bad version.\<close>

definition parse_name :: "string \<Rightarrow> (unit + int \<times> bool) option" where
  "parse_name name =
     (let parts = strings_Split CHR ''.'' name
      in if length parts \<noteq> 3 \<or> (parts ! 1 \<noteq> ''up'' \<and> parts ! 1 \<noteq> ''down'') \<or> parts ! 2 \<noteq> ''sql'' then None
         else (case strconv_ParseInt (takeWhile (\<lambda>c. c \<noteq> CHR ''_'') (parts ! 0)) of
                 None \<Rightarrow> Some (Inl ())
               | Some version \<Rightarrow> Some (Inr (version, parts ! 1 = ''up''))))"

fun read_entries :: "embedded \<Rightarrow> string list \<Rightarrow> (int \<times> migration) list \<Rightarrow> goerr + (int \<times> migration) list" where
  "read_entries e [] items = Inr items"
| "read_entries e (name # names) items =
     (case parse_name name of
        None \<Rightarrow> read_entries e names items
      | Some (Inl _) \<Rightarrow> Inl load_error
      | Some (Inr (version, up)) \<Rightarrow>
          (case em_ReadFile e (''migrations/'' @ name) of
             Inl err \<Rightarrow> Inl load_error
           | Inr contents \<Rightarrow>
               let item = (case al_get items version of
                     None \<Rightarrow> \<lparr>mg_version = version, mg_up = [], mg_down = []\<rparr> | Some item \<Rightarrow> item)
               in read_entries e names (al_set version (if up then item\<lparr>mg_up := contents\<rparr> else item\<lparr>mg_down := contents\<rparr>) items)))"

definition loadMigrations :: "embedded \<Rightarrow> goerr + migration list" where
  "loadMigrations e =
     (case em_ReadDir e of
        Inl err \<Rightarrow> Inl load_error
      | Inr names \<Rightarrow>
          (case read_entries e names [] of
             Inl err \<Rightarrow> Inl err
           | Inr items \<Rightarrow>
               if \<exists>item \<in> set (map snd items). mg_up item = [] \<or> mg_down item = [] then Inl load_error
               else Inr (sort_key mg_version (map snd items))))"

subsection \<open>The database of the migrator\<close>

text \<open>The schema and the ledger \<open>schema_migrations\<close>, when it exists, in the order of insertion.\<close>

record 's tables =
  tb_schema :: 's
  tb_ledger :: "int list option"

text \<open>A connection of the pool; in a transaction with its copy of the tables, which a failure aborts.\<close>

datatype 's conn_state = Unused | Session "('s tables \<times> bool) option" | Gone

record 's cluster =
  cl_tables :: "'s tables"
  cl_holder :: "nat option"
  cl_conns :: "nat \<Rightarrow> 's conn_state"

datatype call =
    Acquire | Lock | Unlock | Release | CreateLedger | LedgerHas int | LedgerLatest
  | Begin | Execute string | LedgerInsert int | LedgerDelete int | Commit | Rollback

datatype answer = Done | Found bool | Latest int

type_synonym 's script = "string \<Rightarrow> 's \<Rightarrow> goerr + 's"

text \<open>The statements, on the tables of the session or of its transaction.\<close>

fun statement :: "'s script \<Rightarrow> call \<Rightarrow> 's tables \<Rightarrow> (goerr + answer) \<times> 's tables" where
  "statement sql CreateLedger d = (Inr Done, d\<lparr>tb_ledger := Some (case tb_ledger d of None \<Rightarrow> [] | Some l \<Rightarrow> l)\<rparr>)"
| "statement sql (LedgerHas v) d =
     (case tb_ledger d of None \<Rightarrow> (Inl (PgError ''42P01''), d) | Some l \<Rightarrow> (Inr (Found (v \<in> set l)), d))"
| "statement sql LedgerLatest d =
     (case tb_ledger d of
        None \<Rightarrow> (Inl (PgError ''42P01''), d)
      | Some l \<Rightarrow> (if l = [] then Inl (Sentinel PgxErrNoRows) else Inr (Latest (last (sort l))), d))"
| "statement sql (Execute text) d =
     (case sql text (tb_schema d) of Inl err \<Rightarrow> (Inl err, d) | Inr s \<Rightarrow> (Inr Done, d\<lparr>tb_schema := s\<rparr>))"
| "statement sql (LedgerInsert v) d =
     (case tb_ledger d of
        None \<Rightarrow> (Inl (PgError ''42P01''), d)
      | Some l \<Rightarrow> if v \<in> set l then (Inl (PgError ''23505''), d) else (Inr Done, d\<lparr>tb_ledger := Some (l @ [v])\<rparr>))"
| "statement sql (LedgerDelete v) d =
     (case tb_ledger d of
        None \<Rightarrow> (Inl (PgError ''42P01''), d)
      | Some l \<Rightarrow> (Inr Done, d\<lparr>tb_ledger := Some (filter (\<lambda>x. x \<noteq> v) l)\<rparr>))"
| "statement sql _ d = (Inr Done, d)"

definition set_conn :: "nat \<Rightarrow> 's conn_state \<Rightarrow> 's cluster \<Rightarrow> 's cluster" where
  "set_conn i c w = w\<lparr>cl_conns := (cl_conns w)(i := c)\<rparr>"

text \<open>The end of a session releases its advisory lock and rolls its transaction back.\<close>

definition hang_up :: "nat \<Rightarrow> 's cluster \<Rightarrow> 's cluster" where
  "hang_up i w = (set_conn i Gone w)\<lparr>cl_holder := (if cl_holder w = Some i then None else cl_holder w)\<rparr>"

definition aborted :: goerr where
  "aborted = PgError ''25P02''"

definition effect :: "'s script \<Rightarrow> nat \<Rightarrow> call \<Rightarrow> ('s tables \<times> bool) option \<Rightarrow> 's cluster \<Rightarrow> (goerr + answer) \<times> 's cluster" where
  "effect sql i c tx w =
     (case c of
        Acquire \<Rightarrow> (Inr Done, w)
      | Release \<Rightarrow> (Inr Done, if tx = None then w else hang_up i w)
      | Begin \<Rightarrow>
          (case tx of
             None \<Rightarrow> (Inr Done, set_conn i (Session (Some (cl_tables w, True))) w)
           | Some _ \<Rightarrow> (Inl (Opaque ''already in a transaction''), w))
      | Commit \<Rightarrow>
          (case tx of
             None \<Rightarrow> (Inl (Opaque ''tx is closed''), w)
           | Some (d, True) \<Rightarrow> (Inr Done, (set_conn i (Session None) w)\<lparr>cl_tables := d\<rparr>)
           | Some (d, False) \<Rightarrow> (Inl (Opaque ''commit unexpectedly resulted in rollback''), set_conn i (Session None) w))
      | Rollback \<Rightarrow>
          (case tx of None \<Rightarrow> (Inl (Opaque ''tx is closed''), w) | Some _ \<Rightarrow> (Inr Done, set_conn i (Session None) w))
      | _ \<Rightarrow>
          (case tx of
             Some (d, False) \<Rightarrow> (Inl aborted, w)
           | Some (d, True) \<Rightarrow>
               (case statement sql c d of
                  (Inl err, _) \<Rightarrow> (Inl err, set_conn i (Session (Some (d, False))) w)
                | (Inr a, d') \<Rightarrow> (Inr a, set_conn i (Session (Some (d', True))) w))
           | None \<Rightarrow>
               (case c of
                  Lock \<Rightarrow> (Inr Done, w\<lparr>cl_holder := Some i\<rparr>)
                | Unlock \<Rightarrow> (Inr Done, w\<lparr>cl_holder := (if cl_holder w = Some i then None else cl_holder w)\<rparr>)
                | _ \<Rightarrow> (case statement sql c (cl_tables w) of (r, d) \<Rightarrow> (r, w\<lparr>cl_tables := d\<rparr>)))))"

text \<open>
  How a call fares: it works, it is refused and the session goes on (a refused \<open>COMMIT\<close> ends the
  transaction, a refused \<open>ROLLBACK\<close> the session, as in \<open>pgx\<close>), or the session is lost, before or after
  the effect. A cancelled context loses the session too.
\<close>

datatype fate = Works | Declined io_error | Lost io_error | LostAfter io_error

definition refuse :: "nat \<Rightarrow> call \<Rightarrow> ('s tables \<times> bool) option \<Rightarrow> 's cluster \<Rightarrow> 's cluster" where
  "refuse i c tx w =
     (case tx of
        None \<Rightarrow> w
      | Some (d, ok) \<Rightarrow>
          if c = Commit then set_conn i (Session None) w
          else if c = Rollback then hang_up i w
          else set_conn i (Session (Some (d, False))) w)"

definition perform :: "'s script \<Rightarrow> nat \<Rightarrow> call \<Rightarrow> fate \<Rightarrow> 's cluster \<Rightarrow> (goerr + answer) \<times> 's cluster" where
  "perform sql i c f w =
     (case cl_conns w i of
        Gone \<Rightarrow> (Inl (Opaque ''conn closed''), w)
      | Unused \<Rightarrow>
          if c = Acquire \<and> f = Works then (Inr Done, set_conn i (Session None) w)
          else (Inl (case f of Works \<Rightarrow> Opaque ''conn closed'' | Declined e \<Rightarrow> io_goerr e | Lost e \<Rightarrow> io_goerr e | LostAfter e \<Rightarrow> io_goerr e),
                set_conn i Gone w)
      | Session tx \<Rightarrow>
          (case f of
             Works \<Rightarrow> effect sql i c tx w
           | Declined e \<Rightarrow> (Inl (io_goerr e), refuse i c tx w)
           | Lost e \<Rightarrow> (Inl (io_goerr e), hang_up i w)
           | LostAfter e \<Rightarrow> (Inl (io_goerr e), hang_up i (snd (effect sql i c tx w)))))"

text \<open>\<open>pg_advisory_lock\<close> waits while another session has the lock.\<close>

definition waits :: "nat \<Rightarrow> call \<Rightarrow> fate \<Rightarrow> 's cluster \<Rightarrow> bool" where
  "waits i c f w \<longleftrightarrow> c = Lock \<and> cl_conns w i = Session None \<and> (f = Works \<or> (\<exists>e. f = LostAfter e)) \<and>
     cl_holder w \<noteq> None \<and> cl_holder w \<noteq> Some i"

subsection \<open>The programs\<close>

datatype program = Returns "goerr option" | Calls call "goerr + answer \<Rightarrow> program"

text \<open>The deferred unlock and release; their errors are dropped.\<close>

definition unlocked :: "goerr option \<Rightarrow> program" where
  "unlocked err = Calls Unlock (\<lambda>_. Calls Release (\<lambda>_. Returns err))"

definition released :: "goerr option \<Rightarrow> program" where
  "released err = Calls Release (\<lambda>_. Returns err)"

definition rolled_back :: "program \<Rightarrow> program" where
  "rolled_back rest = Calls Rollback (\<lambda>_. rest)"

definition applyMigration :: "migration \<Rightarrow> (goerr option \<Rightarrow> program) \<Rightarrow> program" where
  "applyMigration item continue =
     Calls Begin (\<lambda>r. case r of
       Inl err \<Rightarrow> continue (Some (classify ''begin migration'' err))
     | Inr _ \<Rightarrow> Calls (Execute (mg_up item)) (\<lambda>r. case r of
       Inl err \<Rightarrow> rolled_back (continue (Some (classify (''apply migration '' @ strconv_Itoa (mg_version item)) err)))
     | Inr _ \<Rightarrow> Calls (LedgerInsert (mg_version item)) (\<lambda>r. case r of
       Inl err \<Rightarrow> rolled_back (continue (Some (classify ''record migration'' err)))
     | Inr _ \<Rightarrow> Calls Commit (\<lambda>r. case r of
       Inl err \<Rightarrow> rolled_back (continue (Some (classify ''commit migration'' err)))
     | Inr _ \<Rightarrow> rolled_back (continue None)))))"

fun apply_all :: "migration list \<Rightarrow> program" where
  "apply_all [] = unlocked None"
| "apply_all (item # items) =
     Calls (LedgerHas (mg_version item)) (\<lambda>r. case r of
       Inl err \<Rightarrow> unlocked (Some (classify ''read migration ledger'' err))
     | Inr applied \<Rightarrow>
         if applied = Found True then apply_all items
         else applyMigration item (\<lambda>failed. if failed = None then apply_all items else unlocked failed))"

definition MigrateUp :: "embedded \<Rightarrow> program" where
  "MigrateUp e =
     (case loadMigrations e of
        Inl err \<Rightarrow> Returns (Some err)
      | Inr migrations \<Rightarrow> Calls Acquire (\<lambda>r. case r of
          Inl err \<Rightarrow> Returns (Some (classify ''acquire migration connection'' err))
        | Inr _ \<Rightarrow> Calls Lock (\<lambda>r. case r of
          Inl err \<Rightarrow> released (Some (classify ''lock migrations'' err))
        | Inr _ \<Rightarrow> Calls CreateLedger (\<lambda>r. case r of
          Inl err \<Rightarrow> unlocked (Some (classify ''create migration ledger'' err))
        | Inr _ \<Rightarrow> apply_all migrations))))"

definition byVersion :: "migration list \<Rightarrow> int \<Rightarrow> migration option" where
  "byVersion migrations = map_of (rev (map (\<lambda>item. (mg_version item, item)) migrations))"

definition revert :: "migration \<Rightarrow> int \<Rightarrow> program" where
  "revert item version =
     Calls Begin (\<lambda>r. case r of
       Inl err \<Rightarrow> unlocked (Some (classify ''begin migration rollback'' err))
     | Inr _ \<Rightarrow> Calls (Execute (mg_down item)) (\<lambda>r. case r of
       Inl err \<Rightarrow> rolled_back (unlocked (Some (classify ''revert migration'' err)))
     | Inr _ \<Rightarrow> Calls (LedgerDelete version) (\<lambda>r. case r of
       Inl err \<Rightarrow> rolled_back (unlocked (Some (classify ''update migration ledger'' err)))
     | Inr _ \<Rightarrow> Calls Commit (\<lambda>r. case r of
       Inl err \<Rightarrow> rolled_back (unlocked (Some (classify ''commit migration rollback'' err)))
     | Inr _ \<Rightarrow> rolled_back (unlocked None)))))"

definition MigrateDown :: "embedded \<Rightarrow> program" where
  "MigrateDown e =
     (case loadMigrations e of
        Inl err \<Rightarrow> Returns (Some err)
      | Inr migrations \<Rightarrow> Calls Acquire (\<lambda>r. case r of
          Inl err \<Rightarrow> Returns (Some (classify ''acquire migration connection'' err))
        | Inr _ \<Rightarrow> Calls Lock (\<lambda>r. case r of
          Inl err \<Rightarrow> released (Some (classify ''lock migrations'' err))
        | Inr _ \<Rightarrow> Calls LedgerLatest (\<lambda>r. case r of
          Inl err \<Rightarrow> unlocked (Some (classify ''find migration to revert'' err))
        | Inr found \<Rightarrow>
            (case found of
               Latest version \<Rightarrow>
                 (case byVersion migrations version of
                    None \<Rightarrow> unlocked (Some (Wrapped ''revert migration'' (Sentinel RepoErrInternal)))
                  | Some item \<Rightarrow> revert item version)
             | _ \<Rightarrow> unlocked None)))))"

text \<open>A program that runs alone on connection \<open>i\<close>, with no failures.\<close>

primrec run_alone :: "'s script \<Rightarrow> nat \<Rightarrow> program \<Rightarrow> 's cluster \<Rightarrow> goerr option \<times> 's cluster" where
  "run_alone sql i (Returns err) w = (err, w)"
| "run_alone sql i (Calls c k) w = run_alone sql i (k (fst (perform sql i c Works w))) (snd (perform sql i c Works w))"

text \<open>Several migrators: one of them performs its next call.\<close>

inductive migrators_step ::
  "(fate \<Rightarrow> bool) \<Rightarrow> 's script \<Rightarrow> (nat \<Rightarrow> program) \<times> 's cluster \<Rightarrow> (nat \<Rightarrow> program) \<times> 's cluster \<Rightarrow> bool"
  for fates sql where
  call: "ps i = Calls c k \<Longrightarrow> fates f \<Longrightarrow> \<not> waits i c f w \<Longrightarrow> perform sql i c f w = (r, w') \<Longrightarrow>
    migrators_step fates sql (ps, w) (ps(i := k r), w')"

inductive_cases migrators_stepE: "migrators_step fates sql (ps, w) (ps', w')"

definition fresh_cluster :: "'s tables \<Rightarrow> 's cluster" where
  "fresh_cluster d = \<lparr>cl_tables = d, cl_holder = None, cl_conns = (\<lambda>_. Unused)\<rparr>"

end
