(* ===== verification/MigrateSafe.thy ===== *)
theory MigrateSafe
  imports Migrate
begin

text \<open>
  What several migrators do to the database, whatever fails between them: a program is safe for one
  migrator when each of its calls respects the others, given that theirs respect it.
\<close>

subsection \<open>Levels\<close>

text \<open>The up scripts one after the other.\<close>

primrec ups :: "'s script \<Rightarrow> migration list \<Rightarrow> 's \<Rightarrow> goerr + 's" where
  "ups sql [] s = Inr s"
| "ups sql (item # items) s = (case sql (mg_up item) s of Inl err \<Rightarrow> Inl err | Inr s' \<Rightarrow> ups sql items s')"

lemma ups_snoc:
  "ups sql (items @ [item]) s = (case ups sql items s of Inl err \<Rightarrow> Inl err | Inr s' \<Rightarrow> sql (mg_up item) s')"
  by (induction items arbitrary: s) (auto split: sum.splits)

text \<open>
  What the migrators have in common. With \<open>pl_downs\<close> some of them may revert; with \<open>pl_calm\<close> no call fails.
\<close>

record 's plan =
  pl_sql :: "'s script"
  pl_items :: "migration list"
  pl_start :: 's
  pl_downs :: bool
  pl_calm :: bool

definition reverts :: "'s script \<Rightarrow> migration \<Rightarrow> bool" where
  "reverts sql item \<longleftrightarrow> (\<forall>s s' r. sql (mg_up item) s = Inr s' \<longrightarrow> sql (mg_down item) s' = Inr r \<longrightarrow> r = s)"

definition plan_ok :: "'s plan \<Rightarrow> bool" where
  "plan_ok P \<longleftrightarrow> sorted (map mg_version (pl_items P)) \<and> distinct (map mg_version (pl_items P)) \<and>
     (pl_downs P \<longrightarrow> (\<forall>item \<in> set (pl_items P). reverts (pl_sql P) item)) \<and>
     (pl_calm P \<longrightarrow> \<not> pl_downs P \<and> (\<exists>s. ups (pl_sql P) (pl_items P) (pl_start P) = Inr s))"

text \<open>The first \<open>n\<close> migrations are applied, and nothing else.\<close>

definition migrated :: "'s script \<Rightarrow> migration list \<Rightarrow> 's \<Rightarrow> nat \<Rightarrow> 's tables \<Rightarrow> bool" where
  "migrated sql items start n d \<longleftrightarrow> n \<le> length items \<and> ups sql (take n items) start = Inr (tb_schema d) \<and>
     (tb_ledger d = Some (map mg_version (take n items)) \<or> n = 0 \<and> tb_ledger d = None)"

definition level :: "'s plan \<Rightarrow> nat \<Rightarrow> 's tables \<Rightarrow> bool" where
  "level P = migrated (pl_sql P) (pl_items P) (pl_start P)"

lemmas level_def' = level_def [unfolded fun_eq_iff, rule_format, unfolded migrated_def]

definition complete :: "'s plan \<Rightarrow> 's cluster \<Rightarrow> bool" where
  "complete P w \<longleftrightarrow> level P (length (pl_items P)) (cl_tables w) \<and> tb_ledger (cl_tables w) \<noteq> None"

definition fate_ok :: "'s plan \<Rightarrow> fate \<Rightarrow> bool" where
  "fate_ok P f \<longleftrightarrow> pl_calm P \<longrightarrow> f = Works"

lemma ups_prefix: "ups sql (items @ rest) s = Inr s' \<Longrightarrow> \<exists>r. ups sql items s = Inr r"
  by (induction items arbitrary: s) (auto split: sum.splits)

lemma version_at:
  assumes "plan_ok P" "j < length (pl_items P)" "n \<le> length (pl_items P)"
  shows "mg_version (pl_items P ! j) \<in> set (map mg_version (take n (pl_items P))) \<longleftrightarrow> j < n"
proof -
  let ?vs = "map mg_version (pl_items P)"
  have d: "distinct ?vs" using assms(1) by (simp add: plan_ok_def)
  have "x \<in> set (take n ?vs) \<longleftrightarrow> (\<exists>i < n. ?vs ! i = x)" for x using assms(3) by (auto simp: in_set_conv_nth)
  moreover have "?vs ! i = ?vs ! j \<longleftrightarrow> i = j" if "i < n" for i
    using nth_eq_iff_index_eq [OF d, of i j] that assms(2,3) by simp
  ultimately have "?vs ! j \<in> set (take n ?vs) \<longleftrightarrow> j < n" by auto
  then show ?thesis using assms(2) by (simp add: take_map)
qed

lemma level_up:
  assumes "plan_ok P" "level P n d" "n < length (pl_items P)" "pl_sql P (mg_up (pl_items P ! n)) (tb_schema d) = Inr s"
    "tb_ledger d = Some l"
  shows "level P (Suc n) (d\<lparr>tb_schema := s, tb_ledger := Some (l @ [mg_version (pl_items P ! n)])\<rparr>)"
  using assms by (auto simp: level_def' take_Suc_conv_app_nth ups_snoc)

lemma level_calm:
  assumes "plan_ok P" "pl_calm P" "level P n d" "n < length (pl_items P)"
  shows "\<exists>s. pl_sql P (mg_up (pl_items P ! n)) (tb_schema d) = Inr s"
proof -
  obtain s where "ups (pl_sql P) (pl_items P) (pl_start P) = Inr s" using assms(1,2) by (auto simp: plan_ok_def)
  then have "ups (pl_sql P) ((take n (pl_items P) @ [pl_items P ! n]) @ drop (Suc n) (pl_items P)) (pl_start P) = Inr s"
    using id_take_nth_drop [OF assms(4)] by simp
  from ups_prefix [OF this] assms(3) show ?thesis by (auto simp: ups_snoc level_def')
qed

lemma level_down:
  assumes "plan_ok P" "level P n d" "tb_ledger d = Some l" "l \<noteq> []" "pl_downs P"
  shows "\<exists>m. n = Suc m \<and> last (sort l) = mg_version (pl_items P ! m) \<and> byVersion (pl_items P) (last (sort l)) = Some (pl_items P ! m) \<and>
    (\<forall>s. pl_sql P (mg_down (pl_items P ! m)) (tb_schema d) = Inr s \<longrightarrow>
       level P m (d\<lparr>tb_schema := s, tb_ledger := Some (filter (\<lambda>x. x \<noteq> last (sort l)) l)\<rparr>))"
proof -
  let ?items = "pl_items P"
  obtain m where n: "n = Suc m" using assms by (cases n) (auto simp: level_def')
  have m: "m < length ?items" using assms(2) n by (simp add: level_def')
  have vs: "sorted (map mg_version ?items)" "distinct (map mg_version ?items)" using assms(1) by (simp_all add: plan_ok_def)
  have l: "l = map mg_version (take m ?items) @ [mg_version (?items ! m)]"
    using assms(2,3) n m by (auto simp: level_def' take_Suc_conv_app_nth)
  have "sorted l" using assms(2,3) n sorted_wrt_take [OF vs(1), of n] by (auto simp: level_def' take_map)
  then have last: "last (sort l) = mg_version (?items ! m)" using l by (simp add: sorted_sort_id)
  have "map_of (rev (map (\<lambda>item. (mg_version item, item)) ?items)) (mg_version (?items ! m)) = Some (?items ! m)"
    using m vs(2) by (intro map_of_is_SomeI) (simp_all add: rev_map comp_def flip: distinct_rev [of "map mg_version ?items"])
  then have by_v: "byVersion ?items (last (sort l)) = Some (?items ! m)" by (simp add: byVersion_def last)
  have "mg_version (?items ! m) \<notin> set (map mg_version (take m ?items))"
    using version_at [OF assms(1) m, of m] m by simp
  then have "filter (\<lambda>x. x \<noteq> mg_version (?items ! m)) (map mg_version (take m ?items)) = map mg_version (take m ?items)"
    by (metis (mono_tags, lifting) filter_True)
  then have filter: "filter (\<lambda>x. x \<noteq> last (sort l)) l = map mg_version (take m ?items)"
    unfolding last unfolding l by simp
  have "level P m (d\<lparr>tb_schema := s, tb_ledger := Some (filter (\<lambda>x. x \<noteq> last (sort l)) l)\<rparr>)"
    if run: "pl_sql P (mg_down (?items ! m)) (tb_schema d) = Inr s" for s
  proof -
    obtain r where r: "ups (pl_sql P) (take m ?items) (pl_start P) = Inr r" "pl_sql P (mg_up (?items ! m)) r = Inr (tb_schema d)"
      using assms(2) n m by (auto simp: level_def' take_Suc_conv_app_nth ups_snoc split: sum.splits)
    have "reverts (pl_sql P) (?items ! m)" using assms(1,5) m by (simp add: plan_ok_def)
    with r run have "s = r" unfolding reverts_def by blast
    with r m show ?thesis by (simp add: level_def' filter)
  qed
  with n last by_v show ?thesis by blast
qed

subsection \<open>Respecting the others\<close>

text \<open>What migrator \<open>i\<close> may find changed between its calls: others move while it does not hold the lock.\<close>

definition moved :: "'s plan \<Rightarrow> nat \<Rightarrow> 's cluster \<Rightarrow> 's cluster \<Rightarrow> bool" where
  "moved P i w w' \<longleftrightarrow> cl_conns w' i = cl_conns w i \<and> (cl_holder w' = Some i \<longleftrightarrow> cl_holder w = Some i) \<and>
     (cl_holder w = Some i \<longrightarrow> cl_tables w' = cl_tables w) \<and> (\<exists>n. level P n (cl_tables w')) \<and>
     (\<not> pl_downs P \<longrightarrow> complete P w \<longrightarrow> complete P w')"

definition heeds :: "'s plan \<Rightarrow> nat \<Rightarrow> 's cluster \<Rightarrow> 's cluster \<Rightarrow> bool" where
  "heeds P i w w' \<longleftrightarrow> (\<forall>j. j \<noteq> i \<longrightarrow> moved P j w w')"

primrec safe :: "'s plan \<Rightarrow> nat \<Rightarrow> program \<Rightarrow> 's cluster \<Rightarrow> bool" where
  "safe P i (Returns err) w \<longleftrightarrow> (pl_calm P \<longrightarrow> err = None \<and> cl_holder w \<noteq> Some i) \<and> (\<not> pl_downs P \<longrightarrow> err = None \<longrightarrow> complete P w)"
| "safe P i (Calls c k) w \<longleftrightarrow>
     (\<forall>w1 f. moved P i w w1 \<longrightarrow> fate_ok P f \<longrightarrow> \<not> waits i c f w1 \<longrightarrow>
        heeds P i w1 (snd (perform (pl_sql P) i c f w1)) \<and>
        safe P i (k (fst (perform (pl_sql P) i c f w1))) (snd (perform (pl_sql P) i c f w1)))"

lemma moved_trans: "moved P i w w1 \<Longrightarrow> moved P i w1 w2 \<Longrightarrow> moved P i w w2"
  by (auto simp: moved_def)

lemma safe_moved: "safe P i p w \<Longrightarrow> moved P i w w' \<Longrightarrow> safe P i p w'"
proof (cases p)
  case (Returns err)
  assume "safe P i p w" "moved P i w w'"
  with Returns show ?thesis by (auto simp: moved_def)
next
  case (Calls c k)
  assume s: "safe P i p w" and m: "moved P i w w'"
  from s show ?thesis unfolding Calls safe.simps using moved_trans [OF m] by blast
qed

text \<open>The first \<open>N\<close> migrators take part.\<close>

definition all_safe :: "'s plan \<Rightarrow> nat \<Rightarrow> (nat \<Rightarrow> program) \<Rightarrow> 's cluster \<Rightarrow> bool" where
  "all_safe P N ps w \<longleftrightarrow> (\<forall>i. if i < N then safe P i (ps i) w else \<exists>err. ps i = Returns err) \<and>
     (\<exists>n. level P n (cl_tables w)) \<and> (\<forall>j. cl_holder w = Some j \<longrightarrow> j < N)"

lemma cluster_simps [simp]:
  "cl_conns (set_conn i c w) = (cl_conns w)(i := c)" "cl_tables (set_conn i c w) = cl_tables w"
  "cl_holder (set_conn i c w) = cl_holder w" "cl_conns (hang_up i w) = (cl_conns w)(i := Gone)"
  "cl_tables (hang_up i w) = cl_tables w" "cl_holder (hang_up i w) = (if cl_holder w = Some i then None else cl_holder w)"
  by (simp_all add: set_conn_def hang_up_def)

lemma effect_holder: "cl_holder (snd (effect sql i c tx w)) \<in> {cl_holder w, None, Some i}"
  by (cases c) (auto simp: effect_def simp del: statement.simps split: option.splits prod.splits sum.splits bool.splits)

lemma perform_holder: "cl_holder (snd (perform sql i c f w)) \<in> {cl_holder w, None, Some i}"
proof (cases "cl_conns w i")
  case (Session tx)
  with effect_holder [of sql i c tx w] show ?thesis
    by (cases f; cases tx) (auto simp: perform_def refuse_def split: if_splits)
qed (auto simp: perform_def)

lemma safe_step:
  assumes "migrators_step (fate_ok P) (pl_sql P) (ps, w) (ps', w')" "all_safe P N ps w"
  shows "all_safe P N ps' w'"
proof -
  have safes: "safe P i (ps i) w" if "i < N" for i using assms(2) that by (auto simp: all_safe_def)
  from assms(1) obtain i c k f r where s: "ps i = Calls c k" "fate_ok P f" "\<not> waits i c f w" "perform (pl_sql P) i c f w = (r, w')"
    "ps' = ps(i := k r)" by (auto elim: migrators_stepE)
  have i: "i < N" using assms(2) s(1) by (auto simp: all_safe_def split: if_splits)
  have "moved P i w w" using assms(2) by (simp add: moved_def all_safe_def)
  with safes [OF i] s have own: "safe P i (k r) w'" and others: "heeds P i w w'" by fastforce+
  have "\<exists>j. j \<noteq> i" by (rule exI [of _ "Suc i"]) simp
  with others have "\<exists>n. level P n (cl_tables w')" by (auto simp: heeds_def moved_def)
  moreover have "safe P j (ps' j) w'" if "j < N" for j
    using own others safe_moved [OF safes [OF that], of w'] s(5) by (cases "j = i") (auto simp: heeds_def)
  moreover have "\<exists>err. ps' j = Returns err" if "\<not> j < N" for j
    using that i assms(2) s(5) by (auto simp: all_safe_def split: if_splits)
  moreover have "j < N" if "cl_holder w' = Some j" for j
    using perform_holder [of "pl_sql P" i c f w] that i assms(2) s(4) by (auto simp: all_safe_def)
  ultimately show ?thesis by (simp add: all_safe_def)
qed

subsection \<open>The states of one migrator\<close>

definition gone :: "'s plan \<Rightarrow> nat \<Rightarrow> 's cluster \<Rightarrow> bool" where
  "gone P i w \<longleftrightarrow> \<not> pl_calm P \<and> cl_conns w i = Gone \<and> cl_holder w \<noteq> Some i"

definition holding :: "'s plan \<Rightarrow> nat \<Rightarrow> nat \<Rightarrow> 's cluster \<Rightarrow> bool" where
  "holding P i n w \<longleftrightarrow> cl_conns w i = Session None \<and> cl_holder w = Some i \<and> level P n (cl_tables w)"

definition ready :: "'s plan \<Rightarrow> nat \<Rightarrow> nat \<Rightarrow> 's cluster \<Rightarrow> bool" where
  "ready P i n w \<longleftrightarrow> holding P i n w \<and> tb_ledger (cl_tables w) \<noteq> None"

definition inside :: "'s plan \<Rightarrow> nat \<Rightarrow> nat \<Rightarrow> 's tables \<Rightarrow> bool \<Rightarrow> 's cluster \<Rightarrow> bool" where
  "inside P i n d ok w \<longleftrightarrow> cl_conns w i = Session (Some (d, ok)) \<and> cl_holder w = Some i \<and> level P n (cl_tables w) \<and>
     tb_ledger (cl_tables w) \<noteq> None"

lemma states_moved:
  assumes "moved P i w w'"
  shows "gone P i w \<Longrightarrow> gone P i w'" "holding P i n w \<Longrightarrow> holding P i n w'" "ready P i n w \<Longrightarrow> ready P i n w'"
    "inside P i n d ok w \<Longrightarrow> inside P i n d ok w'" "\<not> pl_downs P \<Longrightarrow> complete P w \<Longrightarrow> complete P w'"
  using assms by (auto simp: moved_def gone_def holding_def ready_def inside_def)

lemma ready_complete: "ready P i (length (pl_items P)) w \<Longrightarrow> complete P w"
  by (simp add: ready_def holding_def complete_def)

text \<open>A migrator that holds the lock moves alone.\<close>

lemma heeds_holder:
  assumes "cl_holder w = Some i" "cl_holder w' = Some i \<or> cl_holder w' = None" "\<And>j. j \<noteq> i \<Longrightarrow> cl_conns w' j = cl_conns w j"
    "level P n (cl_tables w')" "\<not> pl_downs P \<Longrightarrow> complete P w \<Longrightarrow> complete P w'"
  shows "heeds P i w w'"
  using assms by (auto simp: heeds_def moved_def)

lemma heeds_same:
  assumes "cl_tables w' = cl_tables w" "cl_holder w' = cl_holder w \<or> cl_holder w \<in> {None, Some i} \<and> cl_holder w' \<in> {None, Some i}"
    "\<And>j. j \<noteq> i \<Longrightarrow> cl_conns w' j = cl_conns w j" "level P n (cl_tables w)"
  shows "heeds P i w w'"
  using assms by (auto simp: heeds_def moved_def complete_def)

text \<open>Once its session is gone, all its calls fail.\<close>

primrec closed_result :: "program \<Rightarrow> goerr option" where
  "closed_result (Returns err) = err"
| "closed_result (Calls c k) = closed_result (k (Inl (Opaque ''conn closed'')))"

lemma safe_gone:
  assumes "gone P i w" "\<not> pl_downs P \<Longrightarrow> closed_result p = None \<Longrightarrow> complete P w"
  shows "safe P i p w"
  using assms
proof (induction p arbitrary: w)
  case (Returns err)
  then show ?case by (simp add: gone_def)
next
  case (Calls c k)
  show ?case
  proof (unfold safe.simps, intro allI impI)
    fix w1 f assume m: "moved P i w w1"
    have g: "gone P i w1" using states_moved(1) [OF m] Calls.prems(1) by blast
    then have run: "perform (pl_sql P) i c f w1 = (Inl (Opaque ''conn closed''), w1)" by (simp add: perform_def gone_def)
    have "heeds P i w1 w1" using m by (auto simp: moved_def intro: heeds_same)
    moreover have "safe P i (k (Inl (Opaque ''conn closed''))) w1"
      using Calls.IH [OF rangeI g] Calls.prems(2) states_moved(5) [OF m] by simp
    ultimately show "heeds P i w1 (snd (perform (pl_sql P) i c f w1)) \<and>
        safe P i (k (fst (perform (pl_sql P) i c f w1))) (snd (perform (pl_sql P) i c f w1))" by (simp add: run)
  qed
qed

end
