(* ===== verification/MigrateRules.thy ===== *)
theory MigrateRules
  imports MigrateSafe
begin

text \<open>The programs of the migrator are safe: one rule per part of a program.\<close>

subsection \<open>One call\<close>

lemma moved_hang_up: "moved P j w v \<Longrightarrow> j \<noteq> i \<Longrightarrow> moved P j w (hang_up i v)"
  by (auto simp: moved_def complete_def)

lemma safe_session:
  assumes "A w" and stable: "\<And>w w'. A w \<Longrightarrow> moved P i w w' \<Longrightarrow> A w'" and conn: "\<And>w. A w \<Longrightarrow> cl_conns w i = Session tx"
    and level: "\<And>w. A w \<Longrightarrow> \<exists>n. level P n (cl_tables w)"
    and works: "\<And>w. A w \<Longrightarrow> \<not> waits i c Works w \<Longrightarrow> heeds P i w (snd (effect (pl_sql P) i c tx w)) \<and>
      safe P i (k (fst (effect (pl_sql P) i c tx w))) (snd (effect (pl_sql P) i c tx w))"
    and refused: "\<And>w e. A w \<Longrightarrow> \<not> pl_calm P \<Longrightarrow> heeds P i w (refuse i c tx w) \<and> safe P i (k (Inl e)) (refuse i c tx w)"
    and closed: "\<And>w e. A w \<Longrightarrow> \<not> pl_downs P \<Longrightarrow> closed_result (k (Inl e)) = None \<Longrightarrow> complete P w"
  shows "safe P i (Calls c k) w"
proof (unfold safe.simps, intro allI impI)
  fix w1 f
  assume "moved P i w w1" and f: "fate_ok P f" and go: "\<not> waits i c f w1"
  then have A: "A w1" using stable assms(1) by blast
  let ?eff = "effect (pl_sql P) i c tx w1"
  let ?p = "perform (pl_sql P) i c f w1"
  have lost: "heeds P i w1 (hang_up i v) \<and> safe P i (k (Inl e)) (hang_up i v)"
    if "heeds P i w1 v" "\<not> pl_calm P" for v e
  proof -
    have "heeds P i w1 (hang_up i v)" using that(1) by (auto simp: heeds_def intro: moved_hang_up)
    moreover have "moved P (Suc i) w1 v" using that(1) by (simp add: heeds_def)
    then have "complete P (hang_up i v)" if "\<not> pl_downs P" "complete P w1"
      using that by (simp add: moved_def complete_def)
    then have "safe P i (k (Inl e)) (hang_up i v)"
      using closed [OF A] that(2) by (intro safe_gone) (auto simp: gone_def)
    ultimately show ?thesis by blast
  qed
  obtain n where n: "level P n (cl_tables w1)" using level [OF A] by blast
  have self: "heeds P i w1 w1" using n by (auto intro: heeds_same)
  show "heeds P i w1 (snd ?p) \<and> safe P i (k (fst ?p)) (snd ?p)"
  proof (cases f)
    case Works
    then show ?thesis using works [OF A] go by (simp add: perform_def conn [OF A])
  next
    case (Declined e)
    with f show ?thesis using refused [OF A] by (simp add: perform_def conn [OF A] fate_ok_def)
  next
    case (Lost e)
    with f show ?thesis using lost [OF self] by (simp add: perform_def conn [OF A] fate_ok_def)
  next
    case (LostAfter e)
    with go have "\<not> waits i c Works w1" by (auto simp: waits_def)
    with works [OF A] LostAfter f show ?thesis using lost by (simp add: perform_def conn [OF A] fate_ok_def)
  qed
qed

subsection \<open>The end of a program\<close>

lemma moved_session: "moved P i w w' \<Longrightarrow> cl_conns w' i = cl_conns w i"
  by (simp add: moved_def)

lemma safe_released:
  assumes "cl_conns w i = Session None" "\<exists>n. level P n (cl_tables w)" "pl_calm P \<Longrightarrow> err = None \<and> cl_holder w \<noteq> Some i"
    "\<not> pl_downs P \<Longrightarrow> err = None \<Longrightarrow> complete P w"
  shows "safe P i (released err) w"
  unfolding released_def
  by (rule safe_session [where tx = None and A = "\<lambda>w. cl_conns w i = Session None \<and> (\<exists>n. level P n (cl_tables w)) \<and>
        (pl_calm P \<longrightarrow> err = None \<and> cl_holder w \<noteq> Some i) \<and> (\<not> pl_downs P \<longrightarrow> err = None \<longrightarrow> complete P w)"])
    (use assms in \<open>auto simp: moved_def effect_def refuse_def intro: heeds_same\<close>)

lemma safe_unlocked:
  assumes "holding P i n w" "pl_calm P \<Longrightarrow> err = None" "\<not> pl_downs P \<Longrightarrow> err = None \<Longrightarrow> complete P w"
  shows "safe P i (unlocked err) w"
  unfolding unlocked_def released_def [symmetric]
proof (rule safe_session [where tx = None and A = "\<lambda>w. holding P i n w \<and> (\<not> pl_downs P \<longrightarrow> err = None \<longrightarrow> complete P w)"])
  fix w assume w: "holding P i n w \<and> (\<not> pl_downs P \<longrightarrow> err = None \<longrightarrow> complete P w)"
  let ?v = "w\<lparr>cl_holder := None\<rparr>"
  have eff: "effect (pl_sql P) i Unlock None w = (Inr Done, ?v)" using w by (simp add: effect_def holding_def)
  have "heeds P i w ?v" using w by (intro heeds_same [where n = n]) (auto simp: holding_def)
  moreover have "safe P i (released err) ?v"
    using w assms(2) by (intro safe_released) (auto simp: holding_def complete_def)
  ultimately show "heeds P i w (snd (effect (pl_sql P) i Unlock None w)) \<and> safe P i (released err) (snd (effect (pl_sql P) i Unlock None w))"
    by (simp add: eff)
  show "heeds P i w (refuse i Unlock None w) \<and> safe P i (released err) (refuse i Unlock None w)" if "\<not> pl_calm P" for e :: "goerr"
    using w that by (auto simp: refuse_def holding_def intro!: heeds_same safe_released)
qed (use assms in \<open>auto simp: holding_def released_def dest: states_moved moved_session intro: states_moved(2) [unfolded holding_def]\<close>)

text \<open>A deferred rollback: of the transaction, or after a commit of none.\<close>

lemma ready_conn: "ready P i n w \<Longrightarrow> cl_conns w i = Session None \<and> cl_holder w = Some i \<and> level P n (cl_tables w)"
  by (simp add: ready_def holding_def)

lemma safe_rollback:
  assumes "inside P i n d ok w" "\<And>w'. ready P i n w' \<Longrightarrow> safe P i rest w'" "closed_result rest \<noteq> None"
  shows "safe P i (rolled_back rest) w"
  unfolding rolled_back_def
proof (rule safe_session [where tx = "Some (d, ok)" and A = "inside P i n d ok"])
  fix w assume w: "inside P i n d ok w"
  let ?v = "set_conn i (Session None) w"
  have "heeds P i w ?v" "ready P i n ?v"
    using w by (auto simp: inside_def ready_def holding_def intro: heeds_same)
  then show "heeds P i w (snd (effect (pl_sql P) i Rollback (Some (d, ok)) w)) \<and>
      safe P i rest (snd (effect (pl_sql P) i Rollback (Some (d, ok)) w))"
    using assms(2) by (simp add: effect_def)
  show "heeds P i w (refuse i Rollback (Some (d, ok)) w) \<and> safe P i rest (refuse i Rollback (Some (d, ok)) w)"
    if "\<not> pl_calm P" for e :: goerr
    using w that assms(3) by (auto simp: refuse_def inside_def gone_def intro!: heeds_same safe_gone)
qed (use assms in \<open>auto simp: inside_def dest: states_moved moved_session intro: states_moved(4) [unfolded inside_def]\<close>)

lemma safe_rollback_closed:
  assumes "ready P i n w" "\<And>w'. ready P i n w' \<Longrightarrow> safe P i rest w'"
    "\<And>w'. ready P i n w' \<Longrightarrow> \<not> pl_downs P \<Longrightarrow> closed_result rest = None \<Longrightarrow> complete P w'"
  shows "safe P i (rolled_back rest) w"
  unfolding rolled_back_def
proof (rule safe_session [where tx = None and A = "ready P i n"])
  fix w assume w: "ready P i n w"
  then have "heeds P i w w" using ready_conn [OF w] by (auto intro: heeds_same)
  with w assms(2) show "heeds P i w (snd (effect (pl_sql P) i Rollback None w)) \<and> safe P i rest (snd (effect (pl_sql P) i Rollback None w))"
    "heeds P i w (refuse i Rollback None w) \<and> safe P i rest (refuse i Rollback None w)"
    by (simp_all add: effect_def refuse_def)
qed (use assms in \<open>auto dest: ready_conn states_moved\<close>)

subsection \<open>Inside a transaction\<close>

text \<open>A statement of the transaction works on its copy, or aborts it.\<close>

lemma safe_statement:
  assumes "inside P i n d True w" "c \<notin> {Acquire, Release, Begin, Commit, Rollback}"
    and works: "\<And>w' a d'. statement (pl_sql P) c d = (Inr a, d') \<Longrightarrow> inside P i n d' True w' \<Longrightarrow> safe P i (k (Inr a)) w'"
    and fails: "\<And>w' e. \<not> pl_calm P \<Longrightarrow> inside P i n d False w' \<Longrightarrow> safe P i (k (Inl e)) w'"
    and calm: "pl_calm P \<Longrightarrow> \<exists>a d'. statement (pl_sql P) c d = (Inr a, d')"
    and closed: "\<And>e. closed_result (k (Inl e)) \<noteq> None"
  shows "safe P i (Calls c k) w"
proof (rule safe_session [where tx = "Some (d, True)" and A = "inside P i n d True"])
  have move: "heeds P i w (set_conn i (Session (Some x)) w) \<and> inside P i n (fst x) (snd x) (set_conn i (Session (Some x)) w)"
    if "inside P i n d True w" for x w
    using that by (auto simp: inside_def intro: heeds_same)
  fix w assume w: "inside P i n d True w"
  obtain r d' where st: "statement (pl_sql P) c d = (r, d')" by fastforce
  have "effect (pl_sql P) i c (Some (d, True)) w =
      (case r of Inl err \<Rightarrow> (Inl err, set_conn i (Session (Some (d, False))) w) | Inr a \<Rightarrow> (Inr a, set_conn i (Session (Some (d', True))) w))"
    using assms(2) st by (cases c) (auto simp: effect_def simp del: statement.simps split: sum.splits)
  moreover have "pl_calm P \<Longrightarrow> \<exists>a. r = Inr a" using calm st by auto
  ultimately show "heeds P i w (snd (effect (pl_sql P) i c (Some (d, True)) w)) \<and>
      safe P i (k (fst (effect (pl_sql P) i c (Some (d, True)) w))) (snd (effect (pl_sql P) i c (Some (d, True)) w))"
    using move [OF w] works [of _ d'] fails st by (cases r) fastforce+
  show "heeds P i w (refuse i c (Some (d, True)) w) \<and> safe P i (k (Inl e)) (refuse i c (Some (d, True)) w)" if "\<not> pl_calm P" for e
    using move [OF w, of "(d, False)"] fails that assms(2) by (auto simp: refuse_def)
qed (use assms in \<open>auto simp: inside_def dest: states_moved moved_session intro: states_moved(4) [unfolded inside_def]\<close>)

lemma level_unique: "level P n d \<Longrightarrow> level P m d \<Longrightarrow> tb_ledger d \<noteq> None \<Longrightarrow> n = m"
  by (auto simp: level_def' dest!: arg_cong [where f = length])

lemma safe_commit:
  assumes "inside P i n d True w" "level P m d" "tb_ledger d \<noteq> None" "n \<le> m \<or> pl_downs P"
    and works: "\<And>w'. ready P i m w' \<Longrightarrow> safe P i (k (Inr Done)) w'"
    and fails: "\<And>w' e. \<not> pl_calm P \<Longrightarrow> ready P i n w' \<Longrightarrow> safe P i (k (Inl e)) w'"
    and closed: "\<And>e. closed_result (k (Inl e)) \<noteq> None"
  shows "safe P i (Calls Commit k) w"
proof (rule safe_session [where tx = "Some (d, True)" and A = "inside P i n d True"])
  fix w assume w: "inside P i n d True w"
  let ?v = "(set_conn i (Session None) w)\<lparr>cl_tables := d\<rparr>"
  have v: "ready P i m ?v" using w assms(2,3) by (auto simp: inside_def ready_def holding_def)
  have "complete P ?v" if "\<not> pl_downs P" "complete P w"
  proof -
    have "n = length (pl_items P)"
      using that w by (auto simp: complete_def inside_def intro: level_unique)
    moreover have "m \<le> length (pl_items P)" using assms(2) by (simp add: level_def')
    ultimately have "m = length (pl_items P)" using assms(4) that by auto
    then show ?thesis using assms(2,3) by (simp add: complete_def)
  qed
  then have "heeds P i w ?v" using w assms(2) by (intro heeds_holder [where n = m]) (auto simp: inside_def)
  with v works show "heeds P i w (snd (effect (pl_sql P) i Commit (Some (d, True)) w)) \<and>
      safe P i (k (fst (effect (pl_sql P) i Commit (Some (d, True)) w))) (snd (effect (pl_sql P) i Commit (Some (d, True)) w))"
    by (simp add: effect_def)
  have "heeds P i w (set_conn i (Session None) w)" "ready P i n (set_conn i (Session None) w)"
    using w by (auto simp: inside_def ready_def holding_def intro: heeds_same)
  with fails show "heeds P i w (refuse i Commit (Some (d, True)) w) \<and> safe P i (k (Inl e)) (refuse i Commit (Some (d, True)) w)"
    if "\<not> pl_calm P" for e
    using that by (simp add: refuse_def)
qed (use assms in \<open>auto simp: inside_def dest: states_moved moved_session intro: states_moved(4) [unfolded inside_def]\<close>)

text \<open>The beginning of a transaction, under the lock.\<close>

lemma safe_begin:
  assumes "ready P i n w"
    and works: "\<And>w'. inside P i n d True w' \<Longrightarrow> safe P i (k (Inr Done)) w'"
    and fails: "\<And>w' e. \<not> pl_calm P \<Longrightarrow> ready P i n w' \<Longrightarrow> safe P i (k (Inl e)) w'"
    and closed: "\<And>e. closed_result (k (Inl e)) \<noteq> None"
    and d: "d = cl_tables w"
  shows "safe P i (Calls Begin k) w"
proof (rule safe_session [where tx = None and A = "\<lambda>w. ready P i n w \<and> cl_tables w = d"])
  fix w assume w: "ready P i n w \<and> cl_tables w = d"
  let ?v = "set_conn i (Session (Some (cl_tables w, True))) w"
  have "heeds P i w ?v" "inside P i n d True ?v"
    using w by (auto simp: inside_def ready_def holding_def intro: heeds_same)
  with works show "heeds P i w (snd (effect (pl_sql P) i Begin None w)) \<and>
      safe P i (k (fst (effect (pl_sql P) i Begin None w))) (snd (effect (pl_sql P) i Begin None w))"
    by (simp add: effect_def)
  have "heeds P i w w" using w ready_conn by (blast intro: heeds_same)
  with w fails show "heeds P i w (refuse i Begin None w) \<and> safe P i (k (Inl e)) (refuse i Begin None w)" if "\<not> pl_calm P" for e
    using that by (simp add: refuse_def)
  show "ready P i n w' \<and> cl_tables w' = d" if "moved P i w w'" for w'
    using w that states_moved(3) [OF that, of n] by (simp add: moved_def ready_conn)
qed (use assms in \<open>auto dest: ready_conn\<close>)

subsection \<open>Applying migrations\<close>

lemma closed_simps [simp]:
  "closed_result (unlocked err) = err" "closed_result (released err) = err" "closed_result (rolled_back p) = closed_result p"
  by (simp_all add: unlocked_def released_def rolled_back_def)

lemma safe_apply:
  assumes P: "plan_ok P" and w: "ready P i n w" and n: "n < length (pl_items P)"
    and fails: "\<And>w' e. \<not> pl_calm P \<Longrightarrow> ready P i n w' \<Longrightarrow> safe P i (continue (Some e)) w'"
    and closed: "\<And>e. closed_result (continue (Some e)) \<noteq> None"
    and works: "\<And>w'. ready P i (Suc n) w' \<Longrightarrow> safe P i (continue None) w'"
    and finished: "\<And>w'. ready P i (Suc n) w' \<Longrightarrow> closed_result (continue None) = None \<Longrightarrow> complete P w'"
  shows "safe P i (applyMigration (pl_items P ! n) continue) w"
  unfolding applyMigration_def
proof (rule safe_begin [OF w])
  let ?item = "pl_items P ! n"
  let ?d = "cl_tables w"
  have d: "level P n ?d" "tb_ledger ?d = Some (map mg_version (take n (pl_items P)))"
    using w by (auto simp: ready_def holding_def level_def')
  have new: "mg_version ?item \<notin> set (map mg_version (take n (pl_items P)))" using version_at [OF P n, of n] n by simp
  have undo: "safe P i (rolled_back (continue (Some e))) w'" if "inside P i n d' False w'" "\<not> pl_calm P" for d' w' e
    using safe_rollback [OF that(1)] fails that(2) closed by blast
  fix w' assume "inside P i n ?d True w'"
  then show "safe P i (case Inr Done of Inl err \<Rightarrow> continue (Some (classify ''begin migration'' err))
     | Inr _ \<Rightarrow> Calls (Execute (mg_up ?item)) (\<lambda>r. case r of
       Inl err \<Rightarrow> rolled_back (continue (Some (classify (''apply migration '' @ strconv_Itoa (mg_version ?item)) err)))
     | Inr _ \<Rightarrow> Calls (LedgerInsert (mg_version ?item)) (\<lambda>r. case r of
       Inl err \<Rightarrow> rolled_back (continue (Some (classify ''record migration'' err)))
     | Inr _ \<Rightarrow> Calls Commit (\<lambda>r. case r of
       Inl err \<Rightarrow> rolled_back (continue (Some (classify ''commit migration'' err)))
     | Inr _ \<Rightarrow> rolled_back (continue None))))) w'" unfolding sum.case
  proof (rule safe_statement; (unfold sum.case)?)
    fix w1 a d1
    assume "statement (pl_sql P) (Execute (mg_up ?item)) ?d = (Inr a, d1)" and w1: "inside P i n d1 True w1"
    then obtain s where s: "pl_sql P (mg_up ?item) (tb_schema ?d) = Inr s" "d1 = ?d\<lparr>tb_schema := s\<rparr>"
      by (auto split: sum.splits)
    let ?d2 = "?d\<lparr>tb_schema := s, tb_ledger := Some (map mg_version (take n (pl_items P)) @ [mg_version ?item])\<rparr>"
    have st: "statement (pl_sql P) (LedgerInsert (mg_version ?item)) d1 = (Inr Done, ?d2)" using d(2) new s(2) by auto
    have up: "level P (Suc n) ?d2" using level_up [OF P d(1) n s(1) d(2)] by simp
    from w1 show "safe P i (Calls (LedgerInsert (mg_version ?item)) (\<lambda>r. case r of
       Inl err \<Rightarrow> rolled_back (continue (Some (classify ''record migration'' err)))
     | Inr _ \<Rightarrow> Calls Commit (\<lambda>r. case r of
       Inl err \<Rightarrow> rolled_back (continue (Some (classify ''commit migration'' err)))
     | Inr _ \<Rightarrow> rolled_back (continue None)))) w1"
    proof (rule safe_statement; (unfold sum.case)?)
      fix w2 b d2
      assume "statement (pl_sql P) (LedgerInsert (mg_version ?item)) d1 = (Inr b, d2)" "inside P i n d2 True w2"
      then have w2: "inside P i n ?d2 True w2" using st by simp
      show "safe P i (Calls Commit (\<lambda>r. case r of
         Inl err \<Rightarrow> rolled_back (continue (Some (classify ''commit migration'' err)))
       | Inr _ \<Rightarrow> rolled_back (continue None))) w2"
        by (rule safe_commit [OF w2 up]) (auto intro!: safe_rollback_closed works finished fails simp: closed)
    qed (use st undo closed in auto)
  next
    show "pl_calm P \<Longrightarrow> \<exists>a d'. statement (pl_sql P) (Execute (mg_up ?item)) ?d = (Inr a, d')"
      using level_calm [OF P _ d(1) n] by auto
  qed (use undo closed in auto)
qed (use fails closed in auto)

lemma closed_apply_all: "closed_result (apply_all items) = None \<Longrightarrow> items = []"
  by (cases items) (auto split: sum.splits)

lemma safe_has:
  assumes "ready P i n w"
    and works: "\<And>w'. ready P i n w' \<Longrightarrow> safe P i (k (Inr (Found (v \<in> set (map mg_version (take n (pl_items P))))))) w'"
    and fails: "\<And>w' e. \<not> pl_calm P \<Longrightarrow> ready P i n w' \<Longrightarrow> safe P i (k (Inl e)) w'"
    and closed: "\<And>e. closed_result (k (Inl e)) \<noteq> None"
  shows "safe P i (Calls (LedgerHas v) k) w"
proof (rule safe_session [where tx = None and A = "ready P i n"])
  fix w assume w: "ready P i n w"
  have "tb_ledger (cl_tables w) = Some (map mg_version (take n (pl_items P)))"
    using w by (auto simp: ready_def holding_def level_def')
  then have eff: "effect (pl_sql P) i (LedgerHas v) None w = (Inr (Found (v \<in> set (map mg_version (take n (pl_items P))))), w)"
    by (simp add: effect_def)
  have "heeds P i w w" using ready_conn [OF w] by (blast intro: heeds_same)
  with w works fails show "heeds P i w (snd (effect (pl_sql P) i (LedgerHas v) None w)) \<and>
      safe P i (k (fst (effect (pl_sql P) i (LedgerHas v) None w))) (snd (effect (pl_sql P) i (LedgerHas v) None w))"
    "\<And>e. \<not> pl_calm P \<Longrightarrow> heeds P i w (refuse i (LedgerHas v) None w) \<and> safe P i (k (Inl e)) (refuse i (LedgerHas v) None w)"
    unfolding eff by (simp_all add: refuse_def)
qed (use assms in \<open>auto dest: ready_conn states_moved\<close>)

lemma ready_holding: "ready P i n w \<Longrightarrow> holding P i n w"
  by (simp add: ready_def)

lemma safe_apply_all:
  assumes "plan_ok P" "ready P i n w" "j \<le> n"
  shows "safe P i (apply_all (drop j (pl_items P))) w"
  using assms(2,3)
proof (induction "drop j (pl_items P)" arbitrary: j n w)
  case Nil
  have "n \<le> length (pl_items P)" using Nil.prems(1) by (simp add: ready_def holding_def level_def')
  with Nil have "n = length (pl_items P)" by simp
  with Nil.prems(1) have "complete P w" by (auto intro: ready_complete)
  then show ?case unfolding Nil.hyps [symmetric] using Nil.prems(1) by (auto intro!: safe_unlocked dest: ready_holding)
next
  case (Cons item items)
  have j: "j < length (pl_items P)" "item = pl_items P ! j" "items = drop (Suc j) (pl_items P)"
    using Cons.hyps(2) Cons_nth_drop_Suc [of j "pl_items P"] by (metis drop_all list.discI not_le, metis drop_all list.inject not_le list.discI, metis drop_all list.inject not_le list.discI)
  have n: "n \<le> length (pl_items P)" using Cons.prems(1) by (simp add: ready_def holding_def level_def')
  have sound: "safe P i (unlocked (Some e)) w'" if "ready P i n w'" "\<not> pl_calm P" for w' e n
    using that by (auto intro!: safe_unlocked dest: ready_holding)
  have more: "safe P i (apply_all items) w'" if "ready P i m w'" "Suc j \<le> m" for w' m
    using Cons.hyps(1) [OF j(3) that] j(3) by simp
  show ?case unfolding Cons.hyps(2) [symmetric] apply_all.simps
  proof (rule safe_has [OF Cons.prems(1)])
    fix w' assume w': "ready P i n w'"
    have found: "mg_version item \<in> set (map mg_version (take n (pl_items P))) \<longleftrightarrow> j < n"
      using version_at [OF assms(1) j(1) n] j(2) by simp
    show "safe P i (case Inr (Found (mg_version item \<in> set (map mg_version (take n (pl_items P))))) of
        Inl err \<Rightarrow> unlocked (Some (classify ''read migration ledger'' err))
      | Inr applied \<Rightarrow> if applied = Found True then apply_all items
          else applyMigration item (\<lambda>failed. if failed = None then apply_all items else unlocked failed)) w'"
    proof (cases "j < n")
      case True
      with found more [OF w'] show ?thesis by simp
    next
      case False
      then have jn: "j = n" using Cons.prems(2) by simp
      have "safe P i (applyMigration item (\<lambda>failed. if failed = None then apply_all items else unlocked failed)) w'"
        unfolding j(2) jn
      proof (rule safe_apply [OF assms(1) w'])
        fix w2 assume w2: "ready P i (Suc n) w2"
        show "safe P i (if None = None then apply_all items else unlocked None) w2" using more [OF w2] jn by simp
        assume "closed_result (if None = None then apply_all items else unlocked None) = None"
        then have "items = []" by (simp add: closed_apply_all)
        then have "Suc n = length (pl_items P)" using j jn by simp
        with w2 show "complete P w2" by (auto intro: ready_complete)
      qed (use sound j jn in auto)
      with found False show ?thesis by simp
    qed
  qed (use sound in auto)
qed

subsection \<open>The programs\<close>

lemma safe_acquire:
  assumes w: "cl_conns w i = Unused" "cl_holder w \<noteq> Some i"
    and works: "\<And>w'. cl_conns w' i = Session None \<Longrightarrow> cl_holder w' \<noteq> Some i \<Longrightarrow> \<exists>n. level P n (cl_tables w') \<Longrightarrow> safe P i (k (Inr Done)) w'"
    and closed: "\<And>e. closed_result (k (Inl e)) \<noteq> None"
  shows "safe P i (Calls Acquire k) w"
proof (unfold safe.simps, intro allI impI)
  fix w1 f
  assume m: "moved P i w w1" and f: "fate_ok P f"
  let ?p = "perform (pl_sql P) i Acquire f w1"
  obtain n where w1: "cl_conns w1 i = Unused" "cl_holder w1 \<noteq> Some i" "level P n (cl_tables w1)" using m w by (auto simp: moved_def)
  have h: "heeds P i w1 (set_conn i c w1)" for c using w1 by (auto intro: heeds_same)
  show "heeds P i w1 (snd ?p) \<and> safe P i (k (fst ?p)) (snd ?p)"
  proof (cases "f = Works")
    case True
    then have p: "?p = (Inr Done, set_conn i (Session None) w1)" using w1 by (simp add: perform_def)
    show ?thesis unfolding p using h w1 by (auto intro!: works)
  next
    case False
    with f have "\<not> pl_calm P" by (simp add: fate_ok_def)
    with w1 have g: "gone P i (set_conn i Gone w1)" by (simp add: gone_def)
    obtain e where p: "?p = (Inl e, set_conn i Gone w1)" using False w1 by (simp add: perform_def)
    have "safe P i (k (Inl e)) (set_conn i Gone w1)" by (rule safe_gone [OF g]) (simp add: closed)
    then show ?thesis unfolding p using h by simp
  qed
qed

lemma safe_lock:
  assumes w: "cl_conns w i = Session None" "cl_holder w \<noteq> Some i" "\<exists>n. level P n (cl_tables w)"
    and works: "\<And>w' n. holding P i n w' \<Longrightarrow> safe P i (k (Inr Done)) w'"
    and fails: "\<And>w' e. \<not> pl_calm P \<Longrightarrow> cl_conns w' i = Session None \<Longrightarrow> \<exists>n. level P n (cl_tables w') \<Longrightarrow> safe P i (k (Inl e)) w'"
    and closed: "\<And>e. closed_result (k (Inl e)) \<noteq> None"
  shows "safe P i (Calls Lock k) w"
proof (rule safe_session [where tx = None and A = "\<lambda>w. cl_conns w i = Session None \<and> cl_holder w \<noteq> Some i \<and> (\<exists>n. level P n (cl_tables w))"])
  fix w :: "'a cluster"
  assume w: "cl_conns w i = Session None \<and> cl_holder w \<noteq> Some i \<and> (\<exists>n. level P n (cl_tables w))"
  then obtain n where n: "level P n (cl_tables w)" by blast
  {
    assume "\<not> waits i Lock Works w"
    with w n have "heeds P i w (w\<lparr>cl_holder := Some i\<rparr>)" "holding P i n (w\<lparr>cl_holder := Some i\<rparr>)"
      by (auto simp: waits_def holding_def intro!: heeds_same)
    then show "heeds P i w (snd (effect (pl_sql P) i Lock None w)) \<and>
        safe P i (k (fst (effect (pl_sql P) i Lock None w))) (snd (effect (pl_sql P) i Lock None w))"
      using works by (simp add: effect_def)
  }
  have "heeds P i w w" using n by (blast intro: heeds_same)
  with w fails show "heeds P i w (refuse i Lock None w) \<and> safe P i (k (Inl e)) (refuse i Lock None w)" if "\<not> pl_calm P" for e
    using that by (simp add: refuse_def)
qed (use w closed in \<open>auto simp: moved_def\<close>)

text \<open>A statement under the lock and outside a transaction.\<close>

lemma safe_locked:
  assumes "holding P i n w" "c \<in> {CreateLedger, LedgerLatest}"
    and works: "\<And>w w' d r. holding P i n w \<Longrightarrow> statement (pl_sql P) c (cl_tables w) = (r, cl_tables w') \<Longrightarrow> holding P i n w' \<Longrightarrow> safe P i (k r) w'"
    and fails: "\<And>w' e. \<not> pl_calm P \<Longrightarrow> holding P i n w' \<Longrightarrow> safe P i (k (Inl e)) w'"
    and closed: "\<And>e. closed_result (k (Inl e)) \<noteq> None"
  shows "safe P i (Calls c k) w"
proof (rule safe_session [where tx = None and A = "holding P i n"])
  fix w assume w: "holding P i n w"
  obtain r d where st: "statement (pl_sql P) c (cl_tables w) = (r, d)" by fastforce
  have d: "level P n d" "complete P w \<Longrightarrow> level P (length (pl_items P)) d \<and> tb_ledger d \<noteq> None"
    using st w assms(2) by (auto simp: holding_def level_def' complete_def split: option.splits if_splits)
  then have v: "holding P i n (w\<lparr>cl_tables := d\<rparr>)" using w by (simp add: holding_def)
  have "heeds P i w (w\<lparr>cl_tables := d\<rparr>)" using d w by (intro heeds_holder [where n = n]) (auto simp: complete_def holding_def)
  moreover have "effect (pl_sql P) i c None w = (r, w\<lparr>cl_tables := d\<rparr>)" using assms(2) st by (auto simp: effect_def simp del: statement.simps)
  ultimately show "heeds P i w (snd (effect (pl_sql P) i c None w)) \<and>
      safe P i (k (fst (effect (pl_sql P) i c None w))) (snd (effect (pl_sql P) i c None w))"
    using works [OF w _ v] st by simp
  have "heeds P i w w" using w by (auto simp: holding_def intro: heeds_same)
  with w fails show "heeds P i w (refuse i c None w) \<and> safe P i (k (Inl e)) (refuse i c None w)" if "\<not> pl_calm P" for e
    using that by (simp add: refuse_def)
qed (use assms in \<open>auto simp: holding_def dest: states_moved moved_session intro: states_moved(2) [unfolded holding_def]\<close>)

lemma up_safe:
  assumes "plan_ok P" "loadMigrations e = Inr (pl_items P)" "cl_conns w i = Unused" "cl_holder w \<noteq> Some i"
  shows "safe P i (MigrateUp e) w"
proof -
  have made: "safe P i (apply_all (pl_items P)) w'"
    if "holding P i n w1" "statement (pl_sql P) CreateLedger (cl_tables w1) = (r, cl_tables w')" "holding P i n w'" for w1 w' n r
  proof -
    have "cl_tables w' = snd (statement (pl_sql P) CreateLedger (cl_tables w1))" using that(2) by simp
    then have "ready P i n w'" using that(3) by (simp add: ready_def)
    from safe_apply_all [OF assms(1) this, of 0] show ?thesis by simp
  qed
  have locked: "safe P i (Calls CreateLedger (\<lambda>r. case r of Inl err \<Rightarrow> unlocked (Some (classify ''create migration ledger'' err))
      | Inr _ \<Rightarrow> apply_all (pl_items P))) w'" if "holding P i n w'" for w' n
  proof (rule safe_locked [OF that])
    fix w w' r
    assume st: "holding P i n w" "statement (pl_sql P) CreateLedger (cl_tables w) = (r, cl_tables w')" "holding P i n w'"
    then have "r = Inr Done" by simp
    with made [OF st] show "safe P i (case r of Inl err \<Rightarrow> unlocked (Some (classify ''create migration ledger'' err))
      | Inr _ \<Rightarrow> apply_all (pl_items P)) w'" by simp
  qed (auto intro: safe_unlocked)
  have acquired: "safe P i (Calls Lock (\<lambda>r. case r of Inl err \<Rightarrow> released (Some (classify ''lock migrations'' err))
      | Inr _ \<Rightarrow> Calls CreateLedger (\<lambda>r. case r of Inl err \<Rightarrow> unlocked (Some (classify ''create migration ledger'' err))
      | Inr _ \<Rightarrow> apply_all (pl_items P)))) w'"
    if "cl_conns w' i = Session None" "cl_holder w' \<noteq> Some i" "\<exists>n. level P n (cl_tables w')" for w'
    by (rule safe_lock [OF that]) (auto intro: safe_released locked simp del: safe.simps)
  show ?thesis
    unfolding MigrateUp_def assms(2) sum.case by (rule safe_acquire [OF assms(3,4)]) (auto intro: acquired simp del: safe.simps)
qed

lemma safe_revert:
  assumes P: "plan_ok P" "pl_downs P" and w: "ready P i (Suc m) w"
    and d: "tb_ledger (cl_tables w) = Some l"
    and down: "\<And>s. pl_sql P (mg_down item) (tb_schema (cl_tables w)) = Inr s \<Longrightarrow>
      level P m ((cl_tables w)\<lparr>tb_schema := s, tb_ledger := Some (filter (\<lambda>x. x \<noteq> v) l)\<rparr>)"
  shows "safe P i (revert item v) w"
  unfolding revert_def
proof (rule safe_begin [OF w])
  let ?d = "cl_tables w"
  have calm: "\<not> pl_calm P" using P by (simp add: plan_ok_def)
  have stop: "safe P i (unlocked err) w'" if "ready P i n w'" for err w' n
    using safe_unlocked [OF ready_holding [OF that]] P calm by blast
  have undo: "safe P i (rolled_back (unlocked (Some e))) w'" if "inside P i (Suc m) d' False w'" for d' w' e
    by (rule safe_rollback [OF that]) (auto intro: stop)
  fix w' assume "inside P i (Suc m) ?d True w'"
  then show "safe P i (case Inr Done of Inl err \<Rightarrow> unlocked (Some (classify ''begin migration rollback'' err))
     | Inr _ \<Rightarrow> Calls (Execute (mg_down item)) (\<lambda>r. case r of
       Inl err \<Rightarrow> rolled_back (unlocked (Some (classify ''revert migration'' err)))
     | Inr _ \<Rightarrow> Calls (LedgerDelete v) (\<lambda>r. case r of
       Inl err \<Rightarrow> rolled_back (unlocked (Some (classify ''update migration ledger'' err)))
     | Inr _ \<Rightarrow> Calls Commit (\<lambda>r. case r of
       Inl err \<Rightarrow> rolled_back (unlocked (Some (classify ''commit migration rollback'' err)))
     | Inr _ \<Rightarrow> rolled_back (unlocked None))))) w'" unfolding sum.case
  proof (rule safe_statement; (unfold sum.case)?)
    fix w1 a d1
    assume "statement (pl_sql P) (Execute (mg_down item)) ?d = (Inr a, d1)" and w1: "inside P i (Suc m) d1 True w1"
    then obtain s where s: "pl_sql P (mg_down item) (tb_schema ?d) = Inr s" "d1 = ?d\<lparr>tb_schema := s\<rparr>"
      by (auto split: sum.splits)
    let ?d2 = "?d\<lparr>tb_schema := s, tb_ledger := Some (filter (\<lambda>x. x \<noteq> v) l)\<rparr>"
    have st: "statement (pl_sql P) (LedgerDelete v) d1 = (Inr Done, ?d2)" using d s(2) by simp
    from w1 show "safe P i (Calls (LedgerDelete v) (\<lambda>r. case r of
       Inl err \<Rightarrow> rolled_back (unlocked (Some (classify ''update migration ledger'' err)))
     | Inr _ \<Rightarrow> Calls Commit (\<lambda>r. case r of
       Inl err \<Rightarrow> rolled_back (unlocked (Some (classify ''commit migration rollback'' err)))
     | Inr _ \<Rightarrow> rolled_back (unlocked None)))) w1"
    proof (rule safe_statement; (unfold sum.case)?)
      fix w2 b d2
      assume "statement (pl_sql P) (LedgerDelete v) d1 = (Inr b, d2)" "inside P i (Suc m) d2 True w2"
      then have w2: "inside P i (Suc m) ?d2 True w2" using st by simp
      show "safe P i (Calls Commit (\<lambda>r. case r of
         Inl err \<Rightarrow> rolled_back (unlocked (Some (classify ''commit migration rollback'' err)))
       | Inr _ \<Rightarrow> rolled_back (unlocked None))) w2"
        by (rule safe_commit [OF w2 down [OF s(1)]]) (auto intro!: safe_rollback_closed stop simp: P)
    qed (use st undo in auto)
  qed (use undo calm in auto)
qed (use assms in \<open>auto intro!: safe_unlocked simp: plan_ok_def dest: ready_holding\<close>)

lemma down_safe:
  assumes "plan_ok P" "pl_downs P" "loadMigrations e = Inr (pl_items P)" "cl_conns w i = Unused" "cl_holder w \<noteq> Some i"
  shows "safe P i (MigrateDown e) w"
proof -
  have calm: "\<not> pl_calm P" using assms by (simp add: plan_ok_def)
  let ?found = "\<lambda>r. case r of Inl err \<Rightarrow> unlocked (Some (classify ''find migration to revert'' err))
      | Inr found \<Rightarrow> (case found of
          Latest version \<Rightarrow> (case byVersion (pl_items P) version of
              None \<Rightarrow> unlocked (Some (Wrapped ''revert migration'' (Sentinel RepoErrInternal)))
            | Some item \<Rightarrow> revert item version)
        | _ \<Rightarrow> unlocked None)"
  have stop: "safe P i (unlocked err) w'" if "holding P i n w'" for err w' n
    using safe_unlocked [OF that] assms(2) calm by blast
  have locked: "safe P i (Calls LedgerLatest ?found) w'" if "holding P i n w'" for w' n
  proof (rule safe_locked [OF that])
    fix w w' r
    assume st: "holding P i n w" "statement (pl_sql P) LedgerLatest (cl_tables w) = (r, cl_tables w')" "holding P i n w'"
    show "safe P i (?found r) w'"
    proof (cases "\<exists>l. tb_ledger (cl_tables w) = Some l \<and> l \<noteq> []")
      case False
      with st(2) stop [OF st(3)] show ?thesis by (auto split: option.splits if_splits)
    next
      case True
      then obtain l where l: "tb_ledger (cl_tables w) = Some l" "l \<noteq> []" by blast
      with st(2) have r: "r = Inr (Latest (last (sort l)))" "cl_tables w' = cl_tables w" by auto
      have "level P n (cl_tables w)" using st(1) by (simp add: holding_def)
      from level_down [OF assms(1) this l assms(2)] obtain m where m: "n = Suc m"
        "byVersion (pl_items P) (last (sort l)) = Some (pl_items P ! m)"
        "\<And>s. pl_sql P (mg_down (pl_items P ! m)) (tb_schema (cl_tables w)) = Inr s \<Longrightarrow>
          level P m ((cl_tables w)\<lparr>tb_schema := s, tb_ledger := Some (filter (\<lambda>x. x \<noteq> last (sort l)) l)\<rparr>)" by blast
      have "ready P i (Suc m) w'" using st(3) r l m by (simp add: ready_def)
      from safe_revert [OF assms(1,2) this] m(3) r l show ?thesis by (simp add: m(2))
    qed
  qed (auto intro: stop)
  have acquired: "safe P i (Calls Lock (\<lambda>r. case r of Inl err \<Rightarrow> released (Some (classify ''lock migrations'' err))
      | Inr _ \<Rightarrow> Calls LedgerLatest ?found)) w'"
    if "cl_conns w' i = Session None" "cl_holder w' \<noteq> Some i" "\<exists>n. level P n (cl_tables w')" for w'
    by (rule safe_lock [OF that]) (auto intro: safe_released locked simp del: safe.simps)
  show ?thesis
    unfolding MigrateDown_def assms(3) sum.case by (rule safe_acquire [OF assms(4,5)]) (auto intro: acquired simp del: safe.simps)
qed

end
