(* ===== verification/MigrateProps.thy ===== *)
theory MigrateProps
  imports MigrateRules
begin

text \<open>
  The properties of the migrator: migrations are applied in order and once, whatever runs beside it and
  whatever fails; it ends; without failures it succeeds; going down and up again comes back.
\<close>

subsection \<open>The loaded migrations\<close>

definition keyed :: "(int \<times> migration) list \<Rightarrow> bool" where
  "keyed items \<longleftrightarrow> distinct (al_keys items) \<and> list_all (\<lambda>(v, item). mg_version item = v) items"

lemma keyed_set: "keyed items \<Longrightarrow> mg_version new = v \<Longrightarrow> keyed (al_set v new items)"
proof -
  have "list_all (\<lambda>(v, item). mg_version item = v) items \<Longrightarrow> mg_version new = v \<Longrightarrow>
      list_all (\<lambda>(v, item). mg_version item = v) (al_set v new items)"
    by (induction v new items rule: al_set.induct) auto
  then show "keyed items \<Longrightarrow> mg_version new = v \<Longrightarrow> keyed (al_set v new items)"
    by (auto simp: keyed_def)
qed

lemma keyed_get: "keyed items \<Longrightarrow> al_get items v = Some item \<Longrightarrow> mg_version item = v"
  by (induction items v rule: al_get.induct) (auto simp: keyed_def split: if_splits)

lemma read_entries_keyed:
  "read_entries e names items = Inr items' \<Longrightarrow> keyed items \<Longrightarrow> keyed items'"
proof (induction e names items rule: read_entries.induct)
  case (2 e name names items)
  show ?case
  proof (cases "parse_name name")
    case None
    with 2 show ?thesis by simp
  next
    case (Some parsed)
    with "2.prems"(1) obtain version up contents where p: "parsed = Inr (version, up)"
      "em_ReadFile e (''migrations/'' @ name) = Inr contents" by (auto split: sum.splits)
    let ?item = "case al_get items version of None \<Rightarrow> \<lparr>mg_version = version, mg_up = [], mg_down = []\<rparr> | Some item \<Rightarrow> item"
    have v: "mg_version ?item = version" using keyed_get [OF "2.prems"(2)] by (auto split: option.splits)
    have "keyed (al_set version (if up then ?item\<lparr>mg_up := contents\<rparr> else ?item\<lparr>mg_down := contents\<rparr>) items)"
      by (rule keyed_set [OF "2.prems"(2)]) (use v in \<open>simp split: option.splits\<close>)
    with "2.IH"(2) [OF Some p(1) refl p(2) refl] "2.prems"(1) Some p show ?thesis by (simp add: Let_def)
  qed
qed simp

lemma load_versions:
  assumes "loadMigrations e = Inr items"
  shows "sorted (map mg_version items) \<and> distinct (map mg_version items)"
proof -
  obtain names loaded where l: "read_entries e names [] = Inr loaded" "items = sort_key mg_version (map snd loaded)"
    using assms by (auto simp: loadMigrations_def split: sum.splits if_splits)
  from read_entries_keyed [OF l(1)] have k: "keyed loaded" by (simp add: keyed_def)
  have "keyed l \<Longrightarrow> map mg_version (map snd l) = al_keys l" for l by (induction l) (auto simp: keyed_def)
  with k have "distinct (map mg_version (map snd loaded))" by (simp only: keyed_def)
  moreover have "mset (map mg_version items) = mset (map mg_version (map snd loaded))" by (simp add: l(2) multiset.map_comp)
  ultimately have "distinct (map mg_version items)" using mset_eq_imp_distinct_iff by blast
  then show ?thesis by (simp add: l(2))
qed

subsection \<open>Order\<close>

text \<open>The migrators that start, and those that do not take part.\<close>

definition migrators :: "embedded \<Rightarrow> bool \<Rightarrow> nat \<Rightarrow> (nat \<Rightarrow> program) \<Rightarrow> bool" where
  "migrators e downs N ps \<longleftrightarrow>
     (\<forall>i. if i < N then ps i = MigrateUp e \<or> downs \<and> ps i = MigrateDown e else \<exists>err. ps i = Returns err)"

lemma fates_all [simp]: "\<not> pl_calm P \<Longrightarrow> fate_ok P = (\<lambda>_. True)" "pl_calm P \<Longrightarrow> fate_ok P = (\<lambda>f. f = Works)"
  by (auto simp: fate_ok_def)

lemma start_safe:
  assumes "plan_ok P" "loadMigrations e = Inr (pl_items P)" "migrators e (pl_downs P) N ps" "level P n d"
  shows "all_safe P N ps (fresh_cluster d)"
proof -
  have "safe P i (ps i) (fresh_cluster d)" if "i < N" for i
  proof -
    have "ps i = MigrateUp e \<or> pl_downs P \<and> ps i = MigrateDown e" using assms(3) that by (simp add: migrators_def)
    then show ?thesis using up_safe [OF assms(1,2)] down_safe [OF assms(1) _ assms(2)] by (auto simp: fresh_cluster_def)
  qed
  with assms(3,4) show ?thesis by (auto simp: all_safe_def migrators_def fresh_cluster_def split: if_splits)
qed

lemma run_safe:
  assumes "(migrators_step (fate_ok P) (pl_sql P))\<^sup>*\<^sup>* (ps, w) (ps', w')" "all_safe P N ps w"
  shows "all_safe P N ps' w'"
  using assms
  by (induction rule: rtranclp_induct2) (auto intro: safe_step)

text \<open>C9: Any number of migrators run at once, up or down, and any of their calls may fail, before or after
  it took effect. At every moment the ledger names the migrations of a prefix of the sorted list and the
  schema is what the up scripts of exactly this prefix make, each run once. If all of them go up, then
  once one has returned without an error all migrations are applied. Going down is required to undo.\<close>

theorem migrations_in_order:
  assumes "loadMigrations e = Inr items" "migrators e downs N ps" "migrated sql items start n d"
    "downs \<Longrightarrow> \<forall>item \<in> set items. reverts sql item"
    "(migrators_step (\<lambda>_. True) sql)\<^sup>*\<^sup>* (ps, fresh_cluster d) (ps', w)"
  shows "(\<exists>m. migrated sql items start m (cl_tables w)) \<and>
    (\<not> downs \<longrightarrow> (\<exists>i < N. ps' i = Returns None) \<longrightarrow>
       tb_ledger (cl_tables w) = Some (map mg_version items) \<and> ups sql items start = Inr (tb_schema (cl_tables w)))"
proof -
  let ?P = "\<lparr>pl_sql = sql, pl_items = items, pl_start = start, pl_downs = downs, pl_calm = False\<rparr>"
  have ok: "plan_ok ?P" using load_versions [OF assms(1)] assms(4) by (simp add: plan_ok_def)
  have "all_safe ?P N ps (fresh_cluster d)"
    by (rule start_safe [OF ok]) (use assms in \<open>simp_all add: level_def\<close>)
  from run_safe [OF _ this, of ps' w] have s: "all_safe ?P N ps' w" using assms(5) by simp
  have "complete ?P w" if "\<not> downs" "i < N" "ps' i = Returns None" for i
    using s that by (auto simp: all_safe_def dest: spec [of _ i])
  with s show ?thesis by (auto simp: all_safe_def level_def complete_def migrated_def)
qed

subsection \<open>Termination\<close>

text \<open>A program that makes at most \<open>n\<close> calls.\<close>

primrec within :: "program \<Rightarrow> nat \<Rightarrow> bool" where
  "within (Returns err) n \<longleftrightarrow> True"
| "within (Calls c k) n \<longleftrightarrow> 0 < n \<and> (\<forall>r. within (k r) (n - 1))"

lemma within_mono: "within p n \<Longrightarrow> n \<le> m \<Longrightarrow> within p m"
proof (induction p arbitrary: n m)
  case (Calls c k)
  then have "within (k r) (m - 1)" for r using diff_le_mono [OF Calls.prems(2), of 1] by fastforce
  with Calls.prems show ?case by simp
qed simp

lemma within_simps [simp]: "within (unlocked err) (Suc (Suc n))" "within (released err) (Suc n)"
  "within (rolled_back p) (Suc n) = within p n"
  by (simp_all add: unlocked_def released_def rolled_back_def)

lemma within_apply:
  assumes "\<And>r. within (continue r) n"
  shows "within (applyMigration item continue) (n + 5)"
proof -
  have "within (continue r) (j + n)" for r j using within_mono [OF assms] by simp
  note this [of _ 0] this [of _ 1] this [of _ 2] this [of _ 3] this [of _ 4]
  then show ?thesis by (simp add: applyMigration_def eval_nat_numeral split: sum.splits)
qed

lemma within_apply_all: "within (apply_all items) (6 * length items + 2)"
proof (induction items)
  case (Cons item items)
  have "within (applyMigration item (\<lambda>failed. if failed = None then apply_all items else unlocked failed)) (6 * length items + 2 + 5)"
    by (rule within_apply) (use Cons in \<open>simp add: numeral_2_eq_2\<close>)
  moreover have "within (apply_all items) (6 * length items + 7)" by (rule within_mono [OF Cons]) simp
  ultimately show ?case by (auto split: sum.splits simp: eval_nat_numeral)
qed (simp add: numeral_2_eq_2)

lemma within_programs:
  assumes "loadMigrations e = Inr items"
  shows "within (MigrateUp e) (6 * length items + 10)" "within (MigrateDown e) (6 * length items + 10)"
proof -
  have "within (apply_all items) (6 * length items + 7)" by (rule within_mono [OF within_apply_all]) simp
  then show "within (MigrateUp e) (6 * length items + 10)"
    by (auto simp: MigrateUp_def assms eval_nat_numeral split: sum.splits)
  show "within (MigrateDown e) (6 * length items + 10)"
    by (auto simp: MigrateDown_def assms revert_def eval_nat_numeral split: sum.splits answer.splits option.splits)
qed

lemma steps_within:
  assumes "(migrators_step fates sql ^^ m) (ps, w) (ps', w')" "\<forall>i. if i < N then within (ps i) (f i) else \<exists>err. ps i = Returns err"
  shows "\<exists>f'. (\<forall>i. if i < N then within (ps' i) (f' i) else \<exists>err. ps' i = Returns err) \<and> m + (\<Sum>i<N. f' i) \<le> (\<Sum>i<N. f i)"
  using assms(1)
proof (induction m arbitrary: ps' w')
  case 0
  then have "ps' = ps" by simp
  with assms(2) show ?case by (intro exI [of _ f] conjI) (simp only:, simp)
next
  case (Suc m)
  then obtain ps1 w1 where run: "(migrators_step fates sql ^^ m) (ps, w) (ps1, w1)" and last: "migrators_step fates sql (ps1, w1) (ps', w')"
    by auto
  from Suc.IH [OF run] obtain g where g: "\<forall>i. if i < N then within (ps1 i) (g i) else \<exists>err. ps1 i = Returns err"
    "m + (\<Sum>i<N. g i) \<le> (\<Sum>i<N. f i)" by blast
  from last obtain i c k r where s: "ps1 i = Calls c k" "ps' = ps1(i := k r)" by (auto elim: migrators_stepE)
  have i: "i < N" using g(1) s(1) by (auto split: if_splits)
  have wi: "0 < g i" "within (k r) (g i - 1)" using g(1) s(1) i by (auto dest: spec [of _ i])
  have "(\<Sum>j<N. (g(i := g i - 1)) j) + 1 = (\<Sum>j<N. g j)"
    using i wi(1) by (simp add: sum.remove [of "{..<N}" i] fun_upd_def)
  moreover have "\<forall>j. if j < N then within (ps' j) ((g(i := g i - 1)) j) else \<exists>err. ps' j = Returns err"
    using g(1) i wi(2) s(2) by auto
  ultimately show ?case using g(2) by (intro exI [of _ "g(i := g i - 1)"]) simp
qed

text \<open>C27: Migrators end: \<open>N\<close> of them, up or down, make at most \<open>N\<close> times \<open>6\<close> calls per migration and \<open>10\<close> more,
  whatever the database holds, fails or answers.\<close>

theorem migrators_terminate:
  assumes "loadMigrations e = Inr items" "migrators e downs N ps" "(migrators_step fates sql ^^ m) (ps, w) (ps', w')"
  shows "m \<le> N * (6 * length items + 10)"
proof -
  have "\<forall>i. if i < N then within (ps i) (6 * length items + 10) else \<exists>err. ps i = Returns err"
    using assms(2) within_programs [OF assms(1)] unfolding migrators_def by metis
  from steps_within [OF assms(3) this] show ?thesis by auto
qed

subsection \<open>Success without failures\<close>

text \<open>C11: When no call fails and the scripts run, \<open>N\<close> migrators at once never block each other for good: when
  none can go on, all have returned without an error and every migration is applied once, in order.\<close>

theorem migrators_finish:
  assumes "loadMigrations e = Inr items" "migrators e False N ps" "migrated sql items start n d" "ups sql items start = Inr s"
    "(migrators_step (\<lambda>f. f = Works) sql)\<^sup>*\<^sup>* (ps, fresh_cluster d) (ps', w)"
    "\<forall>st. \<not> migrators_step (\<lambda>f. f = Works) sql (ps', w) st" "0 < N"
  shows "(\<forall>i < N. ps' i = Returns None) \<and> cl_holder w = None \<and> cl_tables w = \<lparr>tb_schema = s, tb_ledger = Some (map mg_version items)\<rparr>"
proof -
  let ?P = "\<lparr>pl_sql = sql, pl_items = items, pl_start = start, pl_downs = False, pl_calm = True\<rparr>"
  have ok: "plan_ok ?P" using load_versions [OF assms(1)] assms(4) by (simp add: plan_ok_def)
  have "all_safe ?P N ps (fresh_cluster d)"
    by (rule start_safe [OF ok]) (use assms in \<open>simp_all add: level_def\<close>)
  from run_safe [OF _ this, of ps' w] have s: "all_safe ?P N ps' w" using assms(5) by simp
  then have own: "safe ?P i (ps' i) w" if "i < N" for i using that by (auto simp: all_safe_def)
  have waiting: "waits i c Works w" if "ps' i = Calls c k" for i c k
    using migrators_step.call [of ps' i c k "\<lambda>f. f = Works" Works w sql] that assms(6) by (metis surj_pair)
  have idle: "\<exists>err. ps' i = Returns err" if i: "i < N" for i
  proof (rule ccontr)
    assume "\<nexists>err. ps' i = Returns err"
    then obtain c k where "ps' i = Calls c k" by (cases "ps' i") auto
    from waiting [OF this] obtain j where j: "cl_holder w = Some j" by (auto simp: waits_def)
    then have "j < N" using s by (simp add: all_safe_def)
    show False
    proof (cases "ps' j")
      case (Returns err)
      with own [OF \<open>j < N\<close>] j show False by simp
    next
      case (Calls c k)
      from waiting [OF this] j show False by (simp add: waits_def)
    qed
  qed
  have returned: "ps' i = Returns None" and free: "cl_holder w \<noteq> Some i" if "i < N" for i
    using idle [OF that] own [OF that] by auto
  have "cl_holder w = None" using free s by (cases "cl_holder w") (auto simp: all_safe_def)
  moreover have "complete ?P w" using own [OF assms(7)] returned [OF assms(7)] by simp
  then have "cl_tables w = \<lparr>tb_schema = s, tb_ledger = Some (map mg_version items)\<rparr>"
    using assms(4) by (auto simp: complete_def level_def migrated_def)
  ultimately show ?thesis using returned by blast
qed

subsection \<open>Down and up again\<close>

lemma alone_safe:
  assumes "safe P i p w" "cl_holder w \<in> {None, Some i}" "level P n (cl_tables w)" "run_alone (pl_sql P) i p w = (err, w')"
  shows "safe P i (Returns err) w' \<and> (\<forall>j. j \<noteq> i \<longrightarrow> cl_conns w' j = cl_conns w j) \<and> cl_holder w' \<in> {None, Some i}"
  using assms
proof (induction p arbitrary: w n)
  case (Calls c k)
  let ?p = "perform (pl_sql P) i c Works w"
  have "moved P i w w" using Calls.prems(3) by (auto simp: moved_def)
  moreover have "\<not> waits i c Works w" using Calls.prems(2) by (auto simp: waits_def)
  ultimately have s: "heeds P i w (snd ?p)" "safe P i (k (fst ?p)) (snd ?p)"
    using Calls.prems(1) by (auto simp: fate_ok_def)
  have "moved P (Suc i) w (snd ?p)" using s(1) by (simp add: heeds_def)
  then obtain m where "level P m (cl_tables (snd ?p))" by (auto simp: moved_def)
  moreover have "cl_holder (snd ?p) \<in> {None, Some i}" using perform_holder [of "pl_sql P" i c Works w] Calls.prems(2) by auto
  ultimately show ?case
    using Calls.IH [OF rangeI s(2)] Calls.prems(4) s(1) by (simp add: heeds_def moved_def)
qed simp

lemma up_alone:
  assumes load: "loadMigrations e = Inr items" "ups sql items start = Inr s"
    and w: "migrated sql items start n (cl_tables w)" "cl_holder w = None" "cl_conns w i = Unused"
  shows "\<exists>w'. run_alone sql i (MigrateUp e) w = (None, w') \<and>
    cl_tables w' = \<lparr>tb_schema = s, tb_ledger = Some (map mg_version items)\<rparr> \<and> cl_holder w' = None \<and>
    (\<forall>j. j \<noteq> i \<longrightarrow> cl_conns w' j = cl_conns w j)"
proof -
  let ?P = "\<lparr>pl_sql = sql, pl_items = items, pl_start = start, pl_downs = False, pl_calm = True\<rparr>"
  have ok: "plan_ok ?P" using load_versions [OF load(1)] load(2) by (simp add: plan_ok_def)
  obtain err w' where run: "run_alone sql i (MigrateUp e) w = (err, w')" by fastforce
  have "safe ?P i (MigrateUp e) w" using up_safe [OF ok] load w by simp
  from alone_safe [OF this, of n err w'] run w
  have r: "safe ?P i (Returns err) w'" "\<forall>j. j \<noteq> i \<longrightarrow> cl_conns w' j = cl_conns w j" "cl_holder w' \<in> {None, Some i}"
    by (auto simp: level_def)
  then have ends: "err = None" "cl_holder w' = None" "complete ?P w'" by auto
  then have "cl_tables w' = \<lparr>tb_schema = s, tb_ledger = Some (map mg_version items)\<rparr>"
    using load(2) by (auto simp: complete_def level_def migrated_def)
  with r(2) ends run show ?thesis by simp
qed

lemma down_alone:
  assumes "loadMigrations e = Inr items" "items \<noteq> []" "cl_holder w = None" "cl_conns w i = Unused"
    "cl_tables w = \<lparr>tb_schema = s, tb_ledger = Some (map mg_version items)\<rparr>" "sql (mg_down (last items)) s = Inr r"
  shows "\<exists>w'. run_alone sql i (MigrateDown e) w = (None, w') \<and>
    cl_tables w' = \<lparr>tb_schema = r, tb_ledger = Some (map mg_version (butlast items))\<rparr> \<and> cl_holder w' = None \<and>
    (\<forall>j. j \<noteq> i \<longrightarrow> cl_conns w' j = cl_conns w j)"
proof -
  have vs: "sorted (map mg_version items)" "distinct (map mg_version items)" using load_versions [OF assms(1)] by simp_all
  have items: "items = butlast items @ [last items]" using assms(2) by simp
  have last: "last (sort (map mg_version items)) = mg_version (last items)"
    using vs(1) assms(2) by (simp add: sorted_sort_id last_map)
  have "distinct (map fst (rev (map (\<lambda>item. (mg_version item, item)) items)))" using vs(2) by (simp add: rev_map comp_def flip: distinct_rev [of "map mg_version items"])
  then have by_v: "byVersion items (mg_version (last items)) = Some (last items)"
    unfolding byVersion_def using assms(2) by (intro map_of_is_SomeI) simp_all
  have "distinct (map mg_version (butlast items @ [last items]))" using vs(2) items by simp
  then have "mg_version (last items) \<notin> set (map mg_version (butlast items))" by simp
  then have "filter (\<lambda>x. x \<noteq> mg_version (last items)) (map mg_version (butlast items)) = map mg_version (butlast items)"
    by (metis (mono_tags, lifting) filter_True)
  then have keep: "filter (\<lambda>x. x \<noteq> mg_version (last items)) (map mg_version items) = map mg_version (butlast items)"
    by (subst items) simp
  show ?thesis
    using assms
    by (simp add: MigrateDown_def perform_def effect_def set_conn_def last by_v revert_def rolled_back_def unlocked_def keep)
qed

text \<open>C29: Alone and without failures, going up applies everything, going up again changes nothing, going down takes
  the last migration back, and going up then restores the same database. The last down script undoes its
  up script.\<close>

theorem migrate_roundtrip:
  assumes "loadMigrations e = Inr items" "items \<noteq> []" "ups sql items start = Inr s" "migrated sql items start n d"
    "sql (mg_down (last items)) s = Inr r" "ups sql (butlast items) start = Inr r"
  shows "\<exists>w1 w2 w3 w4. run_alone sql 0 (MigrateUp e) (fresh_cluster d) = (None, w1) \<and> cl_tables w1 = \<lparr>tb_schema = s, tb_ledger = Some (map mg_version items)\<rparr> \<and>
    run_alone sql 1 (MigrateUp e) w1 = (None, w2) \<and> cl_tables w2 = \<lparr>tb_schema = s, tb_ledger = Some (map mg_version items)\<rparr> \<and>
    run_alone sql 2 (MigrateDown e) w2 = (None, w3) \<and>
    cl_tables w3 = \<lparr>tb_schema = r, tb_ledger = Some (map mg_version (butlast items))\<rparr> \<and>
    run_alone sql 3 (MigrateUp e) w3 = (None, w4) \<and> cl_tables w4 = \<lparr>tb_schema = s, tb_ledger = Some (map mg_version items)\<rparr>"
proof -
  let ?full = "\<lparr>tb_schema = s, tb_ledger = Some (map mg_version items)\<rparr>"
  have full: "migrated sql items start (length items) ?full" using assms(3) by (simp add: migrated_def)
  have less: "migrated sql items start (length items - 1) \<lparr>tb_schema = r, tb_ledger = Some (map mg_version (butlast items))\<rparr>"
    using assms(2,6) by (simp add: migrated_def butlast_conv_take)
  obtain w1 where w1: "run_alone sql 0 (MigrateUp e) (fresh_cluster d) = (None, w1)" "cl_tables w1 = ?full" "cl_holder w1 = None"
    "\<forall>j. j \<noteq> 0 \<longrightarrow> cl_conns w1 j = Unused"
    using up_alone [OF assms(1,3), of n "fresh_cluster d" 0] assms(4) by (auto simp: fresh_cluster_def)
  obtain w2 where w2: "run_alone sql 1 (MigrateUp e) w1 = (None, w2)" "cl_tables w2 = ?full" "cl_holder w2 = None"
    "\<forall>j. j > 1 \<longrightarrow> cl_conns w2 j = Unused"
    using up_alone [OF assms(1,3), of "length items" w1 1] full w1 by auto
  obtain w3 where w3: "run_alone sql 2 (MigrateDown e) w2 = (None, w3)" "cl_holder w3 = None" "cl_conns w3 3 = Unused"
    "cl_tables w3 = \<lparr>tb_schema = r, tb_ledger = Some (map mg_version (butlast items))\<rparr>"
    using down_alone [where sql = sql and w = w2 and i = 2, OF assms(1,2) w2(3) _ w2(2) assms(5)] w2(4) by auto
  obtain w4 where "run_alone sql 3 (MigrateUp e) w3 = (None, w4)" "cl_tables w4 = ?full"
    using up_alone [OF assms(1,3), of "length items - 1" w3 3] less w3 by auto
  with w1 w2 w3 show ?thesis by blast
qed

subsection \<open>Witnesses\<close>

text \<open>The embedded files of the repository, with short scripts, on a schema that is a list of tables.\<close>

definition demo_embedded :: embedded where
  "demo_embedded = \<lparr>em_ReadDir = Inr [''000001_initial.down.sql'', ''000001_initial.up.sql'',
      ''000002_blob_cleanup_outbox.down.sql'', ''000002_blob_cleanup_outbox.up.sql''],
    em_ReadFile = (\<lambda>name.
      if name = ''migrations/000001_initial.up.sql'' then Inr ''CREATE users''
      else if name = ''migrations/000001_initial.down.sql'' then Inr ''DROP users''
      else if name = ''migrations/000002_blob_cleanup_outbox.up.sql'' then Inr ''CREATE outbox''
      else if name = ''migrations/000002_blob_cleanup_outbox.down.sql'' then Inr ''DROP outbox''
      else Inl (Sentinel OsErrNotExist))\<rparr>"

definition demo_items :: "migration list" where
  "demo_items = [\<lparr>mg_version = 1, mg_up = ''CREATE users'', mg_down = ''DROP users''\<rparr>,
     \<lparr>mg_version = 2, mg_up = ''CREATE outbox'', mg_down = ''DROP outbox''\<rparr>]"

definition demo_script :: "string list script" where
  "demo_script text s =
     (if text = ''CREATE users'' then Inr (s @ [''users'']) else if text = ''CREATE outbox'' then Inr (s @ [''outbox''])
      else if s = [] then Inl (PgError ''42P01'') else Inr (butlast s))"

definition demo_tables :: "string list tables" where
  "demo_tables = \<lparr>tb_schema = [], tb_ledger = None\<rparr>"

definition demo_migrators :: "nat \<Rightarrow> program" where
  "demo_migrators i = (if i < 2 then MigrateUp demo_embedded else Returns None)"

lemma demo_loaded: "loadMigrations demo_embedded = Inr demo_items"
  by code_simp

lemma demo_reverts: "\<forall>item \<in> set demo_items. reverts demo_script item"
  by (auto simp: demo_items_def reverts_def demo_script_def)

lemma demo_ups: "ups demo_script demo_items [] = Inr [''users'', ''outbox'']"
  by code_simp

lemma demo_level: "migrated demo_script demo_items [] 0 demo_tables"
  by (simp add: migrated_def demo_tables_def)

lemma demo_migrators_up: "migrators demo_embedded False 2 demo_migrators"
  by (simp add: migrators_def demo_migrators_def)

lemma alone_steps:
  "run_alone sql i p w = (err, w') \<Longrightarrow> cl_holder w \<in> {None, Some i} \<Longrightarrow> ps i = p \<Longrightarrow> fates Works \<Longrightarrow>
   (migrators_step fates sql)\<^sup>*\<^sup>* (ps, w) (ps(i := Returns err), w')"
proof (induction p arbitrary: w ps)
  case (Returns r)
  then show ?case by (metis fun_upd_triv prod.inject rtranclp.rtrancl_refl run_alone.simps(1))
next
  case (Calls c k)
  let ?p = "perform sql i c Works w"
  have "\<not> waits i c Works w" using Calls.prems(2) by (auto simp: waits_def)
  from migrators_step.call [where ps = ps and i = i and c = c and k = k and sql = sql and w = w and fates = fates and f = Works and r = "fst ?p" and w' = "snd ?p", OF Calls.prems(3,4) this]
  have step: "migrators_step fates sql (ps, w) (ps(i := k (fst ?p)), snd ?p)" by simp
  have "cl_holder (snd ?p) \<in> {None, Some i}" using perform_holder [of sql i c Works w] Calls.prems(2) by auto
  moreover have "run_alone sql i (k (fst ?p)) (snd ?p) = (err, w')" using Calls.prems(1) by simp
  moreover have "(ps(i := k (fst ?p))) i = k (fst ?p)" by simp
  ultimately have "(migrators_step fates sql)\<^sup>*\<^sup>* (ps(i := k (fst ?p)), snd ?p) (ps(i := Returns err), w')"
    using Calls.IH [OF rangeI, of "fst ?p" "snd ?p" "ps(i := k (fst ?p))"] Calls.prems(4) unfolding fun_upd_upd by blast
  with step show ?case by (rule converse_rtranclp_into_rtranclp)
qed

lemma demo_runs:
  assumes "fates Works"
  shows "\<exists>w. (migrators_step fates demo_script)\<^sup>*\<^sup>* (demo_migrators, fresh_cluster demo_tables) ((\<lambda>_. Returns None), w)"
proof -
  obtain w1 where w1: "run_alone demo_script 0 (MigrateUp demo_embedded) (fresh_cluster demo_tables) = (None, w1)"
    "cl_tables w1 = \<lparr>tb_schema = [''users'', ''outbox''], tb_ledger = Some (map mg_version demo_items)\<rparr>"
    "cl_holder w1 = None" "cl_conns w1 1 = Unused"
    using up_alone [OF demo_loaded demo_ups, of 0 "fresh_cluster demo_tables" 0] demo_level by (auto simp: fresh_cluster_def)
  have "migrated demo_script demo_items [] (length demo_items) (cl_tables w1)" using w1(2) demo_ups by (simp add: migrated_def)
  then obtain w2 where w2: "run_alone demo_script 1 (MigrateUp demo_embedded) w1 = (None, w2)"
    using up_alone [OF demo_loaded demo_ups _ w1(3,4)] by blast
  have "demo_migrators 0 = MigrateUp demo_embedded" "(demo_migrators(0 := Returns None)) 1 = MigrateUp demo_embedded"
    by (simp_all add: demo_migrators_def)
  with alone_steps [OF w1(1), of demo_migrators fates] alone_steps [OF w2, of "demo_migrators(0 := Returns None)" fates] assms w1(3)
  have "(migrators_step fates demo_script)\<^sup>*\<^sup>* (demo_migrators, fresh_cluster demo_tables)
      (demo_migrators(0 := Returns None, 1 := Returns None), w2)" by (auto simp: fresh_cluster_def)
  moreover have "demo_migrators(0 := Returns None, 1 := Returns None) = (\<lambda>_. Returns None)" by (auto simp: demo_migrators_def)
  ultimately show ?thesis by auto
qed

text \<open>One goes up, then another goes down.\<close>

definition demo_mixed :: "nat \<Rightarrow> program" where
  "demo_mixed i = (if i = 0 then MigrateUp demo_embedded else if i = 1 then MigrateDown demo_embedded else Returns None)"

lemma demo_mixed_runs:
  "\<exists>w. (migrators_step (\<lambda>_. True) demo_script)\<^sup>*\<^sup>* (demo_mixed, fresh_cluster demo_tables) ((\<lambda>_. Returns None), w) \<and>
     tb_ledger (cl_tables w) = Some [1]"
proof -
  obtain w1 where w1: "run_alone demo_script 0 (MigrateUp demo_embedded) (fresh_cluster demo_tables) = (None, w1)"
    "cl_tables w1 = \<lparr>tb_schema = [''users'', ''outbox''], tb_ledger = Some (map mg_version demo_items)\<rparr>"
    "cl_holder w1 = None" "cl_conns w1 1 = Unused"
    using up_alone [OF demo_loaded demo_ups, of 0 "fresh_cluster demo_tables" 0] demo_level by (auto simp: fresh_cluster_def)
  have last: "demo_items \<noteq> []" "demo_script (mg_down (last demo_items)) [''users'', ''outbox''] = Inr [''users'']"
    by (simp_all add: demo_items_def demo_script_def)
  obtain w2 where w2: "run_alone demo_script 1 (MigrateDown demo_embedded) w1 = (None, w2)"
    "tb_ledger (cl_tables w2) = Some (map mg_version (butlast demo_items))"
    using down_alone [where sql = demo_script, OF demo_loaded last(1) w1(3,4,2) last(2)] by auto
  have "demo_mixed 0 = MigrateUp demo_embedded" "(demo_mixed(0 := Returns None)) 1 = MigrateDown demo_embedded"
    by (simp_all add: demo_mixed_def)
  with alone_steps [OF w1(1), of demo_mixed "\<lambda>_. True"] alone_steps [OF w2(1), of "demo_mixed(0 := Returns None)" "\<lambda>_. True"] w1(3)
  have "(migrators_step (\<lambda>_. True) demo_script)\<^sup>*\<^sup>* (demo_mixed, fresh_cluster demo_tables)
      (demo_mixed(0 := Returns None, 1 := Returns None), w2)" by (auto simp: fresh_cluster_def)
  moreover have "demo_mixed(0 := Returns None, 1 := Returns None) = (\<lambda>_. Returns None)" by (auto simp: demo_mixed_def)
  ultimately show ?thesis using w2(2) by (auto simp: demo_items_def)
qed

lemma migrations_in_order_witness:
  "\<exists>ps w m. (migrators_step (\<lambda>_. True) demo_script)\<^sup>*\<^sup>* (demo_mixed, fresh_cluster demo_tables) (ps, w) \<and>
     migrated demo_script demo_items [] m (cl_tables w) \<and> tb_ledger (cl_tables w) = Some [1]"
proof -
  obtain w where run: "(migrators_step (\<lambda>_. True) demo_script)\<^sup>*\<^sup>* (demo_mixed, fresh_cluster demo_tables) ((\<lambda>_. Returns None), w)"
    "tb_ledger (cl_tables w) = Some [1]"
    using demo_mixed_runs by blast
  have "migrators demo_embedded True 2 demo_mixed" by (simp add: migrators_def demo_mixed_def)
  from migrations_in_order [OF demo_loaded this demo_level demo_reverts run(1)] run show ?thesis by blast
qed

lemma migrators_terminate_witness:
  "\<exists>m ps w. (migrators_step (\<lambda>_. True) demo_script ^^ m) (demo_migrators, fresh_cluster demo_tables) (ps, w) \<and> m \<le> 44 \<and>
     (\<forall>i. ps i = Returns None)"
proof -
  obtain w m where run: "(migrators_step (\<lambda>_. True) demo_script ^^ m) (demo_migrators, fresh_cluster demo_tables) ((\<lambda>_. Returns None), w)"
    using demo_runs [of "\<lambda>_. True"] rtranclp_imp_relpowp by metis
  from migrators_terminate [OF demo_loaded demo_migrators_up this] run show ?thesis by (auto simp: demo_items_def)
qed

lemma migrators_finish_witness:
  "\<exists>w. (migrators_step (\<lambda>f. f = Works) demo_script)\<^sup>*\<^sup>* (demo_migrators, fresh_cluster demo_tables) ((\<lambda>_. Returns None), w) \<and>
     cl_tables w = \<lparr>tb_schema = [''users'', ''outbox''], tb_ledger = Some [1, 2]\<rparr>"
proof -
  obtain w where run: "(migrators_step (\<lambda>f. f = Works) demo_script)\<^sup>*\<^sup>* (demo_migrators, fresh_cluster demo_tables) ((\<lambda>_. Returns None), w)"
    using demo_runs [of "\<lambda>f. f = Works"] by blast
  have "\<forall>st. \<not> migrators_step (\<lambda>f. f = Works) demo_script ((\<lambda>_. Returns None), w) st" by (auto elim: migrators_step.cases)
  from migrators_finish [OF demo_loaded demo_migrators_up demo_level demo_ups run this] run show ?thesis by (auto simp: demo_items_def)
qed

lemma migrate_roundtrip_witness:
  "\<exists>w1 w2 w3. run_alone demo_script 0 (MigrateUp demo_embedded) (fresh_cluster demo_tables) = (None, w1) \<and>
     run_alone demo_script 2 (MigrateDown demo_embedded) w2 = (None, w3) \<and>
     tb_ledger (cl_tables w1) = Some [1, 2] \<and> tb_schema (cl_tables w3) = [''users''] \<and> tb_ledger (cl_tables w3) = Some [1]"
proof -
  have "demo_items \<noteq> []" "demo_script (mg_down (last demo_items)) [''users'', ''outbox''] = Inr [''users'']"
    "ups demo_script (butlast demo_items) [] = Inr [''users'']"
    by (simp_all add: demo_items_def demo_script_def)
  from migrate_roundtrip [OF demo_loaded this(1) demo_ups demo_level this(2,3)] obtain w1 w2 w3 where
    "run_alone demo_script 0 (MigrateUp demo_embedded) (fresh_cluster demo_tables) = (None, w1)"
    "run_alone demo_script 2 (MigrateDown demo_embedded) w2 = (None, w3)"
    "cl_tables w1 = \<lparr>tb_schema = [''users'', ''outbox''], tb_ledger = Some (map mg_version demo_items)\<rparr>"
    "cl_tables w3 = \<lparr>tb_schema = [''users''], tb_ledger = Some (map mg_version (butlast demo_items))\<rparr>" by blast
  then show ?thesis by (intro exI conjI) (auto simp: demo_items_def)
qed

end
