(* ===== verification/MigrateCommand.thy ===== *)
theory MigrateCommand
  imports Server Migrate
begin

text \<open>
  The command \<open>cmd/migrate\<close>: the configuration is loaded, the store opened and the migrator run. The
  deferred \<open>Close\<close> of the store ends the session once the program has returned. \<open>main\<close> exits with 1 on an error.
\<close>

definition migrate_run ::
  "config_lib \<Rightarrow> (string \<Rightarrow> string option) \<Rightarrow> (string \<Rightarrow> bool) \<Rightarrow> embedded \<Rightarrow> world \<Rightarrow> program" where
  "migrate_run CL lookup dsn_ok e w =
     (case loadFromLookup CL lookup of
        Inl err \<Rightarrow> Returns (Some err)
      | Inr cfg \<Rightarrow>
          (case fst (pg_Open dsn_ok (pool_config cfg) w) of
             Inl err \<Rightarrow> Returns (Some err)
           | Inr _ \<Rightarrow> MigrateUp e))"

definition migrate_exit :: "goerr option \<Rightarrow> nat" where
  "migrate_exit err = (if err = None then 0 else 1)"

end
