(* ===== verification/TestClient.thy ===== *)
theory TestClient
  imports GoHttp GoQuote Config HttpRead
begin

text \<open>
  The acceptance and load test of \<open>cmd/stacktest/main.go\<close>, first half: its command line, the encoding of
  URLs, its HTTP client and the calls of the API.
\<close>

subsection \<open>The command line\<close>

record test_config =
  tc_baseURL :: string
  tc_adminToken :: string
  tc_readyTimeout :: duration
  tc_requestTimeout :: duration
  tc_mode :: string
  tc_loadProfile :: string
  tc_loadDuration :: duration
  tc_workers :: int
  tc_maxOPS :: int
  tc_maxErrorRate :: float64
  tc_maxP95 :: duration

text \<open>
  Parameters of the standard library: \<open>time.ParseDuration\<close>, \<open>ParseInt(s, 0, 64)\<close>, the parsing and the
  order of \<open>float64\<close>, and \<open>url.Parse\<close> (scheme, host, raw query, fragment).
\<close>

record flag_lib =
  fl_ParseDuration :: "string \<Rightarrow> duration option"
  fl_ParseInt0 :: "string \<Rightarrow> int option"
  fl_ParseFloat :: "string \<Rightarrow> float64 option"
  fl_less :: "float64 \<Rightarrow> float64 \<Rightarrow> bool"
  fl_zero :: float64
  fl_one :: float64
  fl_hundredth :: float64
  fl_urlParse :: "string \<Rightarrow> (string \<times> string \<times> string \<times> string) option"

definition envOr :: "(string \<Rightarrow> string) \<Rightarrow> string \<Rightarrow> string \<Rightarrow> string" where
  "envOr getenv name fallback = (let value = getenv name in if value \<noteq> [] then value else fallback)"

definition default_test_config :: "flag_lib \<Rightarrow> (string \<Rightarrow> string) \<Rightarrow> test_config" where
  "default_test_config L getenv =
     \<lparr>tc_baseURL = envOr getenv ''STACKTEST_BASE_URL'' ''http://127.0.0.1:8080'', tc_adminToken = getenv ''ADMIN_TOKEN'',
      tc_readyTimeout = 60 * second, tc_requestTimeout = 10 * second, tc_mode = ''smoke'', tc_loadProfile = ''read'',
      tc_loadDuration = 30 * second, tc_workers = 16, tc_maxOPS = 0, tc_maxErrorRate = fl_hundredth L, tc_maxP95 = 2 * second\<rparr>"

text \<open>The value of a flag; \<open>None\<close> for a flag that is not defined, \<open>Some None\<close> for a value that does not parse.\<close>

definition set_flag :: "flag_lib \<Rightarrow> string \<Rightarrow> string \<Rightarrow> test_config \<Rightarrow> test_config option option" where
  "set_flag L name v cfg =
     (let dur = (\<lambda>f. Some (map_option f (fl_ParseDuration L v))); num = (\<lambda>f. Some (map_option f (fl_ParseInt0 L v)))
      in if name = ''base-url'' then Some (Some (cfg\<lparr>tc_baseURL := v\<rparr>))
         else if name = ''admin-token'' then Some (Some (cfg\<lparr>tc_adminToken := v\<rparr>))
         else if name = ''ready-timeout'' then dur (\<lambda>d. cfg\<lparr>tc_readyTimeout := d\<rparr>)
         else if name = ''request-timeout'' then dur (\<lambda>d. cfg\<lparr>tc_requestTimeout := d\<rparr>)
         else if name = ''mode'' then Some (Some (cfg\<lparr>tc_mode := v\<rparr>))
         else if name = ''load-profile'' then Some (Some (cfg\<lparr>tc_loadProfile := v\<rparr>))
         else if name = ''load-duration'' then dur (\<lambda>d. cfg\<lparr>tc_loadDuration := d\<rparr>)
         else if name = ''workers'' then num (\<lambda>n. cfg\<lparr>tc_workers := n\<rparr>)
         else if name = ''max-ops'' then num (\<lambda>n. cfg\<lparr>tc_maxOPS := n\<rparr>)
         else if name = ''max-error-rate'' then Some (map_option (\<lambda>x. cfg\<lparr>tc_maxErrorRate := x\<rparr>) (fl_ParseFloat L v))
         else if name = ''max-p95'' then dur (\<lambda>d. cfg\<lparr>tc_maxP95 := d\<rparr>)
         else None)"

text \<open>An argument of \<open>flag.Parse\<close>: not a flag, the terminator, malformed, or a name with or without a value.\<close>

datatype flag_arg = Positional | Terminator | BadFlag | Flag string "string option"

definition flag_arg :: "string \<Rightarrow> flag_arg" where
  "flag_arg s =
     (if length s < 2 \<or> s ! 0 \<noteq> CHR ''-'' then Positional
      else if s = ''--'' then Terminator
      else let name = (if s ! 1 = CHR ''-'' then drop 2 s else drop 1 s)
           in if name = [] \<or> name ! 0 = CHR ''-'' \<or> name ! 0 = CHR ''='' then BadFlag
              else if CHR ''='' \<in> set name then (case strings_Cut (CHR ''='') name of (n, v) \<Rightarrow> Flag n (Some v))
              else Flag name None)"

definition flag_error :: "string \<Rightarrow> string \<Rightarrow> goerr" where
  "flag_error message name = Opaque (message @ name)"

fun parse_flags :: "flag_lib \<Rightarrow> string list \<Rightarrow> test_config \<Rightarrow> goerr + (test_config \<times> string list)" where
  "parse_flags L [] cfg = Inr (cfg, [])"
| "parse_flags L (s # args) cfg =
     (case flag_arg s of
        Positional \<Rightarrow> Inr (cfg, s # args)
      | Terminator \<Rightarrow> Inr (cfg, args)
      | BadFlag \<Rightarrow> Inl (flag_error ''bad flag syntax: '' s)
      | Flag name (Some v) \<Rightarrow>
          (case set_flag L name v cfg of
             None \<Rightarrow> Inl (flag_error ''flag provided but not defined: -'' name)
           | Some None \<Rightarrow> Inl (flag_error ''invalid value for flag -'' name)
           | Some (Some cfg') \<Rightarrow> parse_flags L args cfg')
      | Flag name None \<Rightarrow>
          (if set_flag L name [] cfg = None then Inl (flag_error ''flag provided but not defined: -'' name)
           else (case args of
                   [] \<Rightarrow> Inl (flag_error ''flag needs an argument: -'' name)
                 | v # args' \<Rightarrow>
                     (case set_flag L name v cfg of
                        Some (Some cfg') \<Rightarrow> parse_flags L args' cfg'
                      | _ \<Rightarrow> Inl (flag_error ''invalid value for flag -'' name)))))"

text \<open>\<open>strings.TrimRight(s, "/")\<close>.\<close>

definition trim_right_slash :: "string \<Rightarrow> string" where
  "trim_right_slash s = rev (dropWhile (\<lambda>c. c = CHR ''/'') (rev s))"

definition parseConfig :: "flag_lib \<Rightarrow> (string \<Rightarrow> string) \<Rightarrow> string list \<Rightarrow> goerr + test_config" where
  "parseConfig L getenv args =
     (case parse_flags L args (default_test_config L getenv) of
        Inl e \<Rightarrow> Inl e
      | Inr (cfg0, rest) \<Rightarrow>
          if rest \<noteq> [] then Inl (Opaque (''unexpected arguments: '' @ strings_Join rest '' ''))
          else
            let cfg = cfg0\<lparr>tc_baseURL := trim_right_slash (strings_TrimSpace (tc_baseURL cfg0))\<rparr>
            in if (case fl_urlParse L (tc_baseURL cfg) of
                     None \<Rightarrow> True
                   | Some (scheme, host, query, fragment) \<Rightarrow>
                       (scheme \<noteq> ''http'' \<and> scheme \<noteq> ''https'') \<or> host = [] \<or> query \<noteq> [] \<or> fragment \<noteq> [])
               then Inl (Opaque ''-base-url must be an absolute http(s) URL without query or fragment'')
               else if tc_adminToken cfg = [] then Inl (Opaque ''ADMIN_TOKEN or -admin-token is required'')
               else if tc_readyTimeout cfg \<le> 0 \<or> tc_requestTimeout cfg \<le> 0 then Inl (Opaque ''timeouts must be positive'')
               else if tc_mode cfg \<noteq> ''smoke'' \<and> tc_mode cfg \<noteq> ''load'' then Inl (Opaque ''-mode must be smoke or load'')
               else if tc_loadProfile cfg \<noteq> ''read'' \<and> tc_loadProfile cfg \<noteq> ''mixed''
                 then Inl (Opaque ''-load-profile must be read or mixed'')
               else if tc_loadDuration cfg \<le> 0 \<or> tc_workers cfg \<le> 0 \<or> tc_workers cfg > 1000 \<or> tc_maxOPS cfg < 0 \<or> tc_maxOPS cfg > 1000000
                 then Inl (Opaque ''load duration and workers must be positive, workers at most 1000, max-ops between 0 and 1000000'')
               else if fl_less L (tc_maxErrorRate cfg) (fl_zero L) \<or> fl_less L (fl_one L) (tc_maxErrorRate cfg) \<or> tc_maxP95 cfg < 0
                 then Inl (Opaque ''-max-error-rate must be between 0 and 1 and -max-p95 must be non-negative'')
               else Inr cfg)"

definition newHTTPClient_idle :: "test_config \<Rightarrow> int" where
  "newHTTPClient_idle cfg = max 100 (wrap64 (tc_workers cfg * 2))"

subsection \<open>Encoding of URLs\<close>

definition url_unreserved :: "char \<Rightarrow> bool" where
  "url_unreserved c \<longleftrightarrow> (let n = of_char c :: nat in (97 \<le> n \<and> n \<le> 122) \<or> (65 \<le> n \<and> n \<le> 90) \<or> (48 \<le> n \<and> n \<le> 57)) \<or>
     c \<in> {CHR ''-'', CHR ''_'', CHR ''.'', CHR ''~''}"

definition percent :: "char \<Rightarrow> string" where
  "percent c = (let n = of_char c :: nat; digit = (\<lambda>d. if d < 10 then char_of (48 + d) else char_of (55 + d))
     in [CHR ''%'', digit (n div 16), digit (n mod 16)])"

definition url_QueryEscape :: "string \<Rightarrow> string" where
  "url_QueryEscape s =
     concat (map (\<lambda>c. if url_unreserved c then [c] else if c = CHR '' '' then ''+'' else percent c) s)"

definition url_PathEscape :: "string \<Rightarrow> string" where
  "url_PathEscape s =
     concat (map (\<lambda>c. if url_unreserved c \<or> c \<in> {CHR ''$'', CHR ''&'', CHR ''+'', CHR '':'', CHR ''='', CHR ''@''} then [c]
       else percent c) s)"

text \<open>\<open>Values.Encode\<close>: the keys in order, each with its values.\<close>

definition values_Encode :: "url_values \<Rightarrow> string" where
  "values_Encode vs =
     strings_Join (concat (map (\<lambda>k. map (\<lambda>v. url_QueryEscape k @ ''='' @ url_QueryEscape v)
       (case al_get vs k of None \<Rightarrow> [] | Some xs \<Rightarrow> xs)) (sort_by (\<le>) (al_keys vs)))) ''&''"

definition documentPath :: "string \<Rightarrow> string \<Rightarrow> string" where
  "documentPath i token = ''/api/docs/'' @ url_PathEscape i @ ''?token='' @ url_QueryEscape token"

definition safeRoute :: "string \<Rightarrow> string" where
  "safeRoute path =
     (if strings_HasPrefix path ''/api/auth/'' then ''/api/auth/{token}''
      else if strings_HasPrefix path ''/api/docs/'' then ''/api/docs/{id}'' else path)"

definition compactBody :: "(nat \<Rightarrow> bool) \<Rightarrow> bytes \<Rightarrow> string" where
  "compactBody wide body =
     (let s = strings_TrimSpace body in strconv_Quote wide (if length s > 240 then take 240 s @ ''...'' else s))"

definition expectStatus :: "(nat \<Rightarrow> bool) \<Rightarrow> int \<Rightarrow> int \<Rightarrow> bytes \<Rightarrow> goerr option" where
  "expectStatus wide got want body =
     (if got = want then None
      else Some (Opaque (''HTTP status '' @ strconv_Itoa got @ '', want '' @ strconv_Itoa want @ '' (body: '' @
             compactBody wide body @ '')'')))"

definition hex_EncodeToString :: "bytes \<Rightarrow> string" where
  "hex_EncodeToString bs = concat (map (\<lambda>c. [hex_char (of_char c div 16), hex_char (of_char c mod 16)]) bs)"

subsection \<open>The HTTP client\<close>

text \<open>A request of the client, and the response of the service, whose body is read later.\<close>

record outgoing =
  og_Method :: string
  og_URL :: string
  og_ContentType :: string
  og_Body :: "bytes option"

record response =
  rp_Status :: int
  rp_Header :: header
  rp_Body :: reader

record meta =
  um_name :: string
  um_file :: bool
  um_public :: bool
  um_mime :: "string option"
  um_token :: string
  um_grant :: "string list"

record listItem =
  li_ID :: string
  li_Name :: string
  li_File :: bool
  li_Public :: bool
  li_Grant :: "string list"

text \<open>
  What the test relies on: the network and the service behind it (\<open>client.Do\<close>, whose error carries the
  text of a \<open>*url.Error\<close> when it is one), \<open>ctx.Err()\<close>, \<open>rand.Read\<close>, the clock, the parsing of URLs by
  \<open>NewRequest\<close> (the path, or an error), and \<open>encoding/json\<close> and \<open>mime/multipart\<close>.
\<close>

record 'w test_env =
  te_Do :: "ctx \<Rightarrow> outgoing \<Rightarrow> 'w \<Rightarrow> (string option + response) \<times> 'w"
  te_CtxErr :: "ctx \<Rightarrow> 'w \<Rightarrow> goerr option \<times> 'w"
  te_RandRead :: "nat \<Rightarrow> 'w \<Rightarrow> (goerr + bytes) \<times> 'w"
  te_urlPath :: "string \<Rightarrow> goerr + string"
  te_Error :: "goerr \<Rightarrow> string"
  te_wide :: "nat \<Rightarrow> bool"
  te_marshalMeta :: "meta \<Rightarrow> goerr + string"
  te_multipart :: "(string \<times> string) list \<Rightarrow> (string \<times> string \<times> bytes) option \<Rightarrow> bytes \<times> string"
  te_token :: "bytes \<Rightarrow> string option"
  te_docs :: "bytes \<Rightarrow> goerr + listItem list"
  te_healthStatus :: "bytes \<Rightarrow> string option"
  te_data :: "bytes \<Rightarrow> bytes option"
  te_jsonValue :: "bytes \<Rightarrow> bytes option"

definition maxResponseBytes :: int where "maxResponseBytes = 2097152"

definition http_request ::
  "'w test_env \<Rightarrow> test_config \<Rightarrow> ctx \<Rightarrow> string \<Rightarrow> string \<Rightarrow> bytes option \<Rightarrow> string \<Rightarrow> ('w, int \<times> header \<times> bytes) op" where
  "http_request E cfg c meth path body contentType w =
     (let url = tc_baseURL cfg @ path
      in case te_urlPath E url of
           Inl e \<Rightarrow> (Inl e, w)
         | Inr urlPath \<Rightarrow>
             (case te_Do E c \<lparr>og_Method = meth, og_URL = url, og_ContentType = contentType, og_Body = body\<rparr> w of
                (Inl err, w1) \<Rightarrow>
                  (case te_CtxErr E c w1 of
                     (Some e, w2) \<Rightarrow> (Inl (Wrapped (meth @ '' '' @ safeRoute urlPath) e), w2)
                   | (None, w2) \<Rightarrow>
                       (case err of
                          Some m \<Rightarrow> (Inl (Opaque (meth @ '' '' @ safeRoute urlPath @ '' request failed: '' @ m)), w2)
                        | None \<Rightarrow> (Inl (Opaque (meth @ '' '' @ safeRoute urlPath @ '' request failed'')), w2)))
              | (Inr response, w1) \<Rightarrow>
                  (case io_ReadAll (limited_reader (rp_Body response) (maxResponseBytes + 1)) of
                     Inl e \<Rightarrow> (Inl (Wrapped (''read '' @ meth @ '' response'') e), w1)
                   | Inr data \<Rightarrow>
                       if int (length data) > maxResponseBytes
                       then (Inl (Opaque (meth @ '' response exceeds '' @ strconv_Itoa maxResponseBytes @ '' bytes'')), w1)
                       else (Inr (rp_Status response, rp_Header response, data), w1))))"

text \<open>\<open>status, _, body, err := r.request(...); if err != nil { return err }; return expectStatus(...)\<close>.\<close>

definition want_status :: "'w test_env \<Rightarrow> int \<Rightarrow> ('w, int \<times> header \<times> bytes) op \<Rightarrow> ('w, header \<times> bytes) op" where
  "want_status E want call =
     and_then call (\<lambda>(status, header, body). case expectStatus (te_wide E) status want body of
       Some e \<Rightarrow> fail e | None \<Rightarrow> ret (header, body))"

definition only_status :: "'w test_env \<Rightarrow> int \<Rightarrow> ('w, int \<times> header \<times> bytes) op \<Rightarrow> ('w, unit) op" where
  "only_status E want call = and_then (want_status E want call) (\<lambda>_. ret ())"

definition http_form :: "'w test_env \<Rightarrow> test_config \<Rightarrow> ctx \<Rightarrow> string \<Rightarrow> string \<Rightarrow> url_values \<Rightarrow> ('w, int \<times> header \<times> bytes) op" where
  "http_form E cfg c meth path vs =
     http_request E cfg c meth path (Some (values_Encode vs)) ''application/x-www-form-urlencoded''"

definition tc_register :: "'w test_env \<Rightarrow> test_config \<Rightarrow> ctx \<Rightarrow> string \<Rightarrow> string \<Rightarrow> ('w, unit) op" where
  "tc_register E cfg c login password =
     only_status E 200 (http_form E cfg c ''POST'' ''/api/register''
       [(''token'', [tc_adminToken cfg]), (''login'', [login]), (''pswd'', [password])])"

definition tc_authenticate :: "'w test_env \<Rightarrow> test_config \<Rightarrow> ctx \<Rightarrow> string \<Rightarrow> string \<Rightarrow> ('w, string) op" where
  "tc_authenticate E cfg c login password =
     and_then (want_status E 200 (http_form E cfg c ''POST'' ''/api/auth'' [(''login'', [login]), (''pswd'', [password])]))
       (\<lambda>(_, body). case te_token E body of
          None \<Rightarrow> fail (Opaque ''authentication response has no token'')
        | Some token \<Rightarrow> if token = [] then fail (Opaque ''authentication response has no token'') else ret token)"

text \<open>\<open>upload\<close>: writing to the buffer of the multipart writer does not fail.\<close>

definition tc_upload :: "'w test_env \<Rightarrow> test_config \<Rightarrow> ctx \<Rightarrow> meta \<Rightarrow> bytes option \<Rightarrow> bytes option \<Rightarrow> ('w, unit) op" where
  "tc_upload E cfg c meta jsonPart filePart =
     (case te_marshalMeta E meta of
        Inl e \<Rightarrow> fail e
      | Inr encoded \<Rightarrow>
          let fields = (''meta'', encoded) # (case jsonPart of None \<Rightarrow> [] | Some j \<Rightarrow> [(''json'', j)]);
              part = map_option (\<lambda>f. (''file'', um_name meta, f)) filePart;
              (body, contentType) = te_multipart E fields part
          in only_status E 200 (http_request E cfg c ''POST'' ''/api/docs'' (Some body) contentType))"

definition tc_listQuery :: "'w test_env \<Rightarrow> test_config \<Rightarrow> ctx \<Rightarrow> url_values \<Rightarrow> ('w, listItem list) op" where
  "tc_listQuery E cfg c query =
     and_then (want_status E 200 (http_request E cfg c ''GET'' (''/api/docs?'' @ values_Encode query) None []))
       (\<lambda>(_, body). case te_docs E body of Inl e \<Rightarrow> fail (Wrapped ''decode document list'' e) | Inr docs \<Rightarrow> ret docs)"

definition tc_list :: "'w test_env \<Rightarrow> test_config \<Rightarrow> ctx \<Rightarrow> string \<Rightarrow> string \<Rightarrow> ('w, listItem list) op" where
  "tc_list E cfg c token owner =
     tc_listQuery E cfg c ((''token'', [token]) # (if owner \<noteq> [] then [(''login'', [owner])] else []))"

definition tc_listByName :: "'w test_env \<Rightarrow> test_config \<Rightarrow> ctx \<Rightarrow> string \<Rightarrow> string \<Rightarrow> ('w, listItem list) op" where
  "tc_listByName E cfg c token name =
     tc_listQuery E cfg c [(''token'', [token]), (''key'', [''name'']), (''value'', [name])]"

definition tc_deleteDocument :: "'w test_env \<Rightarrow> test_config \<Rightarrow> ctx \<Rightarrow> string \<Rightarrow> string \<Rightarrow> ('w, unit) op" where
  "tc_deleteDocument E cfg c i token =
     only_status E 200 (http_form E cfg c ''DELETE'' (''/api/docs/'' @ url_PathEscape i) [(''token'', [token])])"

definition tc_logout :: "'w test_env \<Rightarrow> test_config \<Rightarrow> ctx \<Rightarrow> string \<Rightarrow> ('w, unit) op" where
  "tc_logout E cfg c token =
     only_status E 200 (http_request E cfg c ''DELETE'' (''/api/auth/'' @ url_PathEscape token) None
       ''application/x-www-form-urlencoded'')"

definition checkRuntime :: "'w test_env \<Rightarrow> test_config \<Rightarrow> ctx \<Rightarrow> ('w, unit) op" where
  "checkRuntime E cfg c =
     and_then (http_request E cfg c ''GET'' ''/health/live'' None []) (\<lambda>(status, _, body).
     case expectStatus (te_wide E) status 200 body of
       Some e \<Rightarrow> fail (Wrapped ''/health/live'' e)
     | None \<Rightarrow>
         if te_healthStatus E body \<noteq> Some ''ok'' then fail (Opaque ''/health/live response contract mismatch'')
         else and_then (http_request E cfg c ''GET'' ''/metrics'' None []) (\<lambda>(status, _, body).
           case expectStatus (te_wide E) status 200 body of
             Some e \<Rightarrow> fail (Wrapped ''/metrics'' e)
           | None \<Rightarrow>
               if \<not> strings_Contains body ''documents_http_requests_total''
               then fail (Opaque ''/metrics does not expose Documents request metrics'') else ret ()))"

text \<open>The loop of \<open>waitReady\<close>; \<open>ticks\<close> counts the ticks of its ticker before the context is done.\<close>

fun waitReady :: "'w test_env \<Rightarrow> test_config \<Rightarrow> ctx \<Rightarrow> nat \<Rightarrow> ('w, unit) op" where
  "waitReady E cfg c ticks w =
     (case http_request E cfg c ''GET'' ''/health/ready'' None [] w of
        (r, w1) \<Rightarrow>
          if (case r of Inr (status, _) \<Rightarrow> status = 200 | Inl _ \<Rightarrow> False) then (Inr (), w1)
          else
            let last = (case r of
                  Inl err \<Rightarrow> te_Error E err
                | Inr (status, _, body) \<Rightarrow> ''HTTP '' @ strconv_Itoa status @ '': '' @ compactBody (te_wide E) body)
            in (case ticks of
                  0 \<Rightarrow> (case te_CtxErr E c w1 of
                      (Some e, w2) \<Rightarrow> (Inl (Wrapped (''service did not become ready ('' @ last @ '')'') e), w2)
                    | (None, w2) \<Rightarrow> (Inl (Opaque (''service did not become ready ('' @ last @ '')'')), w2))
                | Suc n \<Rightarrow> waitReady E cfg c n w1))"

definition randomSuffix :: "'w test_env \<Rightarrow> ('w, string) op" where
  "randomSuffix E = and_then (te_RandRead E 5) (\<lambda>raw. ret (hex_EncodeToString raw))"

definition containsIDs :: "listItem list \<Rightarrow> string list \<Rightarrow> bool" where
  "containsIDs items ids = list_all (\<lambda>i. i \<in> set (map li_ID items)) ids"

definition jsonEqual :: "'w test_env \<Rightarrow> bytes \<Rightarrow> bytes \<Rightarrow> bool" where
  "jsonEqual E left right =
     (case (te_jsonValue E left, te_jsonValue E right) of (Some a, Some b) \<Rightarrow> a = b | _ \<Rightarrow> False)"

end
