(* ===== verification/TestRun.thy ===== *)
theory TestRun
  imports TestClient
begin

text \<open>
  The acceptance and load test of \<open>cmd/stacktest/main.go\<close>, second half: what a run keeps track of, the
  statistics of the load test, the two modes and the cleanup. The workers of the load test share a counter
  and the runner's mutex; here their operations run one after the other, as many as the clock lets through.
\<close>

subsection \<open>What a run owns\<close>

record ownedDocument =
  od_id :: string
  od_token :: string

record ownedName =
  on_name :: string
  on_token :: string

text \<open>Lines of the output; the numbers are printed by \<open>Fprintf\<close>.\<close>

datatype out_line =
    Target string | Pass string | WarnCleanup goerr | LoadStarts string int duration int
  | ResultLine nat nat nat string string string | OperationLine string nat nat | ErrorLine string
  | LoadPassed | AllPassed

record 'w runner =
  rn_tokens :: "(string \<times> string) list"
  rn_docs :: "ownedDocument list"
  rn_names :: "ownedName list"
  rn_out :: "out_line list"
  rn_world :: 'w

definition new_runner :: "'w \<Rightarrow> 'w runner" where
  "new_runner w = \<lparr>rn_tokens = [], rn_docs = [], rn_names = [], rn_out = [], rn_world = w\<rparr>"

definition api :: "('w, 'a) op \<Rightarrow> ('w runner, 'a) op" where
  "api f r = (case f (rn_world r) of (x, w) \<Rightarrow> (x, r\<lparr>rn_world := w\<rparr>))"

definition print :: "out_line \<Rightarrow> ('w runner, unit) op" where
  "print l r = (Inr (), r\<lparr>rn_out := rn_out r @ [l]\<rparr>)"

definition token_of :: "string \<Rightarrow> 'w runner \<Rightarrow> string" where
  "token_of role r = (case al_get (rn_tokens r) role of None \<Rightarrow> [] | Some t \<Rightarrow> t)"

definition set_token :: "string \<Rightarrow> string \<Rightarrow> ('w runner, unit) op" where
  "set_token role token r = (Inr (), r\<lparr>rn_tokens := al_set role token (rn_tokens r)\<rparr>)"

definition trackDocument :: "string \<Rightarrow> string \<Rightarrow> ('w runner, unit) op" where
  "trackDocument i token r = (Inr (), r\<lparr>rn_docs := rn_docs r @ [\<lparr>od_id = i, od_token = token\<rparr>]\<rparr>)"

definition trackName :: "string \<Rightarrow> string \<Rightarrow> ('w runner, unit) op" where
  "trackName name token r = (Inr (), r\<lparr>rn_names := rn_names r @ [\<lparr>on_name = name, on_token = token\<rparr>]\<rparr>)"

fun remove_first :: "('a \<Rightarrow> bool) \<Rightarrow> 'a list \<Rightarrow> 'a list" where
  "remove_first p [] = []"
| "remove_first p (x # xs) = (if p x then xs else x # remove_first p xs)"

definition forgetDocument :: "string \<Rightarrow> ('w runner, unit) op" where
  "forgetDocument i r = (Inr (), r\<lparr>rn_docs := remove_first (\<lambda>d. od_id d = i) (rn_docs r)\<rparr>)"

definition forgetName :: "string \<Rightarrow> ('w runner, unit) op" where
  "forgetName name r = (Inr (), r\<lparr>rn_names := remove_first (\<lambda>n. on_name n = name) (rn_names r)\<rparr>)"

text \<open>\<open>step\<close>.\<close>

definition run_step :: "string \<Rightarrow> ('w runner, 'a) op \<Rightarrow> ('w runner, 'a) op" where
  "run_step name f = and_then (map_err (Wrapped name) f) (\<lambda>a. and_then (print (Pass name)) (\<lambda>_. ret a))"

subsection \<open>Cleaning up\<close>

text \<open>The documents of the tracked names; a document known already is not taken twice.\<close>

fun discover_items :: "ownedName \<Rightarrow> listItem list \<Rightarrow> ownedDocument list \<Rightarrow> ownedDocument list" where
  "discover_items target [] docs = docs"
| "discover_items target (item # items) docs =
     (if li_Name item = on_name target \<and> li_ID item \<notin> set (map od_id docs)
      then discover_items target items (docs @ [\<lparr>od_id = li_ID item, od_token = on_token target\<rparr>])
      else discover_items target items docs)"

fun discover ::
  "'w test_env \<Rightarrow> test_config \<Rightarrow> ctx \<Rightarrow> ownedName list \<Rightarrow> ownedDocument list \<Rightarrow> goerr option list \<Rightarrow> 'w \<Rightarrow>
   (ownedDocument list \<times> goerr option list) \<times> 'w" where
  "discover E cfg c [] docs errs w = ((docs, errs), w)"
| "discover E cfg c (target # names) docs errs w =
     (case tc_list E cfg c (on_token target) [] w of
        (Inl err, w1) \<Rightarrow> discover E cfg c names docs (errs @ [Some (Wrapped (''discover '' @ on_name target) err)]) w1
      | (Inr items, w1) \<Rightarrow> discover E cfg c names (discover_items target items docs) errs w1)"

fun delete_all ::
  "'w test_env \<Rightarrow> test_config \<Rightarrow> ctx \<Rightarrow> ownedDocument list \<Rightarrow> goerr option list \<Rightarrow> 'w \<Rightarrow> goerr option list \<times> 'w" where
  "delete_all E cfg c [] errs w = (errs, w)"
| "delete_all E cfg c (doc # docs) errs w =
     (case tc_deleteDocument E cfg c (od_id doc) (od_token doc) w of
        (Inl err, w1) \<Rightarrow> delete_all E cfg c docs (errs @ [Some (Wrapped ''document'' err)]) w1
      | (Inr _, w1) \<Rightarrow> delete_all E cfg c docs errs w1)"

text \<open>The order of Go's map of the tokens is not fixed; here it is the order of insertion.\<close>

fun logout_all ::
  "'w test_env \<Rightarrow> test_config \<Rightarrow> ctx \<Rightarrow> (string \<times> string) list \<Rightarrow> goerr option list \<Rightarrow> 'w \<Rightarrow> goerr option list \<times> 'w" where
  "logout_all E cfg c [] errs w = (errs, w)"
| "logout_all E cfg c ((role, token) # tokens) errs w =
     (if token = [] then logout_all E cfg c tokens errs w
      else case tc_logout E cfg c token w of
          (Inl err, w1) \<Rightarrow> logout_all E cfg c tokens (errs @ [Some (Wrapped (role @ '' session'') err)]) w1
        | (Inr _, w1) \<Rightarrow> logout_all E cfg c tokens errs w1)"

definition cleanup :: "'w test_env \<Rightarrow> test_config \<Rightarrow> ctx \<Rightarrow> ('w runner, unit) op" where
  "cleanup E cfg c r =
     (case discover E cfg c (rn_names r) (rn_docs r) [] (rn_world r) of
        ((docs, errs), w1) \<Rightarrow>
          (case delete_all E cfg c docs errs w1 of
             (errs, w2) \<Rightarrow>
               (case logout_all E cfg c (rn_tokens r) errs w2 of
                  (errs, w3) \<Rightarrow>
                    (case errors_Join errs of None \<Rightarrow> Inr () | Some e \<Rightarrow> Inl e,
                     r\<lparr>rn_docs := [], rn_names := [], rn_tokens := [], rn_world := w3\<rparr>))))"

subsection \<open>Statistics\<close>

definition millisecond :: duration where "millisecond = 1000000"

definition loadLatencyLimits :: "duration list" where
  "loadLatencyLimits =
     [millisecond, 2 * millisecond, 5 * millisecond, 10 * millisecond, 20 * millisecond, 50 * millisecond, 100 * millisecond,
      200 * millisecond, 500 * millisecond, second, 1500 * millisecond, 2 * second, 3 * second, 5 * second, 10 * second,
      30 * second, hour]"

record operationResult =
  op_total :: nat
  op_errors :: nat

record loadStats =
  ls_total :: nat
  ls_success :: nat
  ls_errors :: nat
  ls_buckets :: "nat list"
  ls_operations :: "(string \<times> operationResult) list"
  ls_errorExamples :: "string list"
  ls_p95Limit :: duration
  ls_overP95Limit :: nat

record loadResult =
  lr_total :: nat
  lr_success :: nat
  lr_errors :: nat
  lr_operations :: "(string \<times> operationResult) list"
  lr_errorExamples :: "string list"
  lr_p50 :: string
  lr_p95 :: string
  lr_p99 :: string
  lr_p95Duration :: duration
  lr_p95OverLimit :: bool

definition newLoadStats :: "duration \<Rightarrow> loadStats" where
  "newLoadStats limit = \<lparr>ls_total = 0, ls_success = 0, ls_errors = 0, ls_buckets = replicate (length loadLatencyLimits) 0,
     ls_operations = [], ls_errorExamples = [], ls_p95Limit = limit, ls_overP95Limit = 0\<rparr>"

definition bump :: "nat \<Rightarrow> nat list \<Rightarrow> nat list" where
  "bump i buckets = buckets[i := wrapu64 (buckets ! i + 1)]"

text \<open>The loop over the limits: the first that the latency does not exceed, or the last.\<close>

fun bucket_of :: "duration \<Rightarrow> duration list \<Rightarrow> nat \<Rightarrow> nat" where
  "bucket_of latency [] i = i - 1"
| "bucket_of latency (limit # limits) i = (if latency \<le> limit then i else bucket_of latency limits (Suc i))"

definition operation_of :: "loadStats \<Rightarrow> string \<Rightarrow> operationResult" where
  "operation_of s name = (case al_get (ls_operations s) name of None \<Rightarrow> \<lparr>op_total = 0, op_errors = 0\<rparr> | Some x \<Rightarrow> x)"

definition record_load :: "(goerr \<Rightarrow> string) \<Rightarrow> string \<Rightarrow> duration \<Rightarrow> goerr option \<Rightarrow> loadStats \<Rightarrow> loadStats" where
  "record_load show oper latency err s =
     (let result = (operation_of s oper)\<lparr>op_total := wrapu64 (op_total (operation_of s oper) + 1)\<rparr>;
          s1 = s\<lparr>ls_total := wrapu64 (ls_total s + 1)\<rparr>;
          (result, s2) = (case err of
              None \<Rightarrow> (result, s1\<lparr>ls_success := wrapu64 (ls_success s1 + 1)\<rparr>)
            | Some e \<Rightarrow>
                (result\<lparr>op_errors := wrapu64 (op_errors result + 1)\<rparr>,
                 s1\<lparr>ls_errors := wrapu64 (ls_errors s1 + 1),
                    ls_errorExamples := (if length (ls_errorExamples s1) < 5 then ls_errorExamples s1 @ [oper @ '': '' @ show e]
                      else ls_errorExamples s1)\<rparr>));
          s3 = s2\<lparr>ls_operations := al_set oper result (ls_operations s2)\<rparr>;
          s4 = (if ls_p95Limit s3 > 0 \<and> latency > ls_p95Limit s3 then s3\<lparr>ls_overP95Limit := wrapu64 (ls_overP95Limit s3 + 1)\<rparr> else s3)
      in s4\<lparr>ls_buckets := bump (bucket_of latency loadLatencyLimits 0) (ls_buckets s4)\<rparr>)"

text \<open>
  The floating point of the statistics: the rank \<open>uint64(float64(total)*quantile + 0.999999)\<close>, whether the
  share over the limit exceeds 0.05, the error rate and the comparison with its limit; and \<open>Duration.String\<close>.
\<close>

datatype quantile = P50 | P95 | P99

record stats_lib =
  st_rank :: "nat \<Rightarrow> quantile \<Rightarrow> nat"
  st_overShare :: "nat \<Rightarrow> nat \<Rightarrow> bool"
  st_rate :: "nat \<Rightarrow> nat \<Rightarrow> float64"
  st_less :: "float64 \<Rightarrow> float64 \<Rightarrow> bool"
  st_duration :: "duration \<Rightarrow> string"
  st_float :: "float64 \<Rightarrow> string"

fun quantile_loop :: "nat list \<Rightarrow> duration list \<Rightarrow> nat \<Rightarrow> nat \<Rightarrow> duration option" where
  "quantile_loop (n # counts) (limit # limits) rank cumulative =
     (let cumulative = wrapu64 (cumulative + n)
      in if cumulative \<ge> rank then Some limit else quantile_loop counts limits rank cumulative)"
| "quantile_loop _ _ rank cumulative = None"

definition histogramQuantile :: "stats_lib \<Rightarrow> nat list \<Rightarrow> nat \<Rightarrow> quantile \<Rightarrow> string \<times> duration" where
  "histogramQuantile L buckets sum_total q =
     (if sum_total = 0 then (''n/a'', 0)
      else case quantile_loop buckets loadLatencyLimits (st_rank L sum_total q) 0 of
          Some limit \<Rightarrow> (st_duration L limit, limit)
        | None \<Rightarrow> (''>'' @ st_duration L (last loadLatencyLimits), last loadLatencyLimits))"

definition snapshot :: "stats_lib \<Rightarrow> loadStats \<Rightarrow> loadResult" where
  "snapshot L s =
     \<lparr>lr_total = ls_total s, lr_success = ls_success s, lr_errors = ls_errors s, lr_operations = ls_operations s,
      lr_errorExamples = ls_errorExamples s, lr_p50 = fst (histogramQuantile L (ls_buckets s) (ls_total s) P50),
      lr_p95 = fst (histogramQuantile L (ls_buckets s) (ls_total s) P95),
      lr_p99 = fst (histogramQuantile L (ls_buckets s) (ls_total s) P99),
      lr_p95Duration = snd (histogramQuantile L (ls_buckets s) (ls_total s) P95),
      lr_p95OverLimit = (ls_total s > 0 \<and> st_overShare L (ls_overP95Limit s) (ls_total s))\<rparr>"

definition errorRate :: "stats_lib \<Rightarrow> loadResult \<Rightarrow> float64" where
  "errorRate L r = (if lr_total r = 0 then 0 else st_rate L (lr_errors r) (lr_total r))"

subsection \<open>The load test\<close>

definition pickLoadOperation :: "test_config \<Rightarrow> nat \<Rightarrow> string" where
  "pickLoadOperation cfg sequence =
     (let position = sequence mod 100
      in if tc_loadProfile cfg = ''mixed'' then
           (if position < 55 then ''get'' else if position < 70 then ''head'' else if position < 85 then ''list'' else ''mutation'')
         else (if position < 70 then ''get'' else if position < 85 then ''head'' else ''list''))"

definition loadMutation :: "'w test_env \<Rightarrow> test_config \<Rightarrow> ctx \<Rightarrow> string \<Rightarrow> string \<Rightarrow> nat \<Rightarrow> ('w runner, unit) op" where
  "loadMutation E cfg c token suffix sequence =
     (let name = ''stacktest-load-'' @ suffix @ ''-'' @ strconv_Itoa (int sequence) @ ''.json'';
          meta = \<lparr>um_name = name, um_file = False, um_public = False, um_mime = None, um_token = token, um_grant = []\<rparr>
      in and_then (trackName name token) (\<lambda>_.
         and_then (map_err (Wrapped ''mutation upload'') (api (tc_upload E cfg c meta (Some ''{\"load\":true}'') None))) (\<lambda>_.
         and_then (map_err (Wrapped ''mutation lookup'') (api (tc_listByName E cfg c token name))) (\<lambda>items.
           if length items \<noteq> 1
           then fail (Opaque (''mutation lookup returned '' @ strconv_Itoa (int (length items)) @ '' documents''))
           else let i = li_ID (hd items)
             in and_then (trackDocument i token) (\<lambda>_.
                and_then (map_err (Wrapped ''mutation delete'') (api (tc_deleteDocument E cfg c i token))) (\<lambda>_.
                and_then (forgetDocument i) (\<lambda>_. forgetName name)))))))"

definition executeLoadOperation ::
  "'w test_env \<Rightarrow> test_config \<Rightarrow> ctx \<Rightarrow> string \<Rightarrow> string \<Rightarrow> bytes \<Rightarrow> string \<Rightarrow> nat \<Rightarrow> ('w runner, unit) op" where
  "executeLoadOperation E cfg c oper fileID fileBody suffix sequence r =
     (let token = token_of ''load'' r
      in (if oper = ''get'' then
            and_then (api (want_status E 200 (http_request E cfg c ''GET'' (documentPath fileID token) None []))) (\<lambda>(header, body).
              if body \<noteq> fileBody \<or> hdr_get ''Content-Type'' header \<noteq> ''application/octet-stream''
              then fail (Opaque ''GET payload mismatch'') else ret ())
          else if oper = ''head'' then
            and_then (api (http_request E cfg c ''HEAD'' (documentPath fileID token) None [])) (\<lambda>(status, header, body).
              if status \<noteq> 200 \<or> body \<noteq> [] \<or> hdr_get ''Content-Length'' header \<noteq> strconv_Itoa (int (length fileBody))
              then fail (Opaque (''HEAD contract mismatch: status='' @ strconv_Itoa status)) else ret ())
          else if oper = ''list'' then and_then (api (tc_list E cfg c token [])) (\<lambda>_. ret ())
          else if oper = ''mutation'' then loadMutation E cfg c token suffix sequence
          else fail (Opaque (''unknown load operation '' @ strconv_Quote (te_wide E) oper))) r)"

text \<open>The workers: one operation per element of \<open>latencies\<close>, which are the times that the clock reads.\<close>

fun run_operations ::
  "'w test_env \<Rightarrow> test_config \<Rightarrow> ctx \<Rightarrow> string \<Rightarrow> bytes \<Rightarrow> string \<Rightarrow> duration list \<Rightarrow> nat \<Rightarrow> loadStats \<Rightarrow> 'w runner \<Rightarrow>
   loadStats \<times> 'w runner" where
  "run_operations E cfg c fileID fileBody suffix [] n stats r = (stats, r)"
| "run_operations E cfg c fileID fileBody suffix (latency # latencies) n stats r =
     (let n' = wrapu64 (n + 1); oper = pickLoadOperation cfg n'
      in case executeLoadOperation E cfg c oper fileID fileBody suffix n' r of
           (res, r1) \<Rightarrow>
             run_operations E cfg c fileID fileBody suffix latencies n'
               (record_load (te_Error E) oper latency (case res of Inl e \<Rightarrow> Some e | Inr _ \<Rightarrow> None) stats) r1)"

definition result_lines :: "stats_lib \<Rightarrow> loadResult \<Rightarrow> out_line list" where
  "result_lines L res =
     ResultLine (lr_total res) (lr_success res) (lr_errors res) (lr_p50 res) (lr_p95 res) (lr_p99 res) #
     concat (map (\<lambda>name. case al_get (lr_operations res) name of
         Some x \<Rightarrow> if op_total x > 0 then [OperationLine name (op_total x) (op_errors x)] else [] | None \<Rightarrow> [])
       [''get'', ''head'', ''list'', ''mutation'']) @
     map ErrorLine (lr_errorExamples res)"

definition judge_load :: "stats_lib \<Rightarrow> test_config \<Rightarrow> loadResult \<Rightarrow> goerr option" where
  "judge_load L cfg res =
     (if st_less L (tc_maxErrorRate cfg) (errorRate L res)
      then Some (Opaque (''load error rate '' @ st_float L (errorRate L res) @ '' exceeds limit '' @ st_float L (tc_maxErrorRate cfg)))
      else if tc_maxP95 cfg > 0 \<and> lr_p95OverLimit res
      then Some (Opaque (''load p95 '' @ lr_p95 res @ '' exceeds limit '' @ st_duration L (tc_maxP95 cfg)))
      else None)"

definition runLoad ::
  "'w test_env \<Rightarrow> stats_lib \<Rightarrow> test_config \<Rightarrow> ctx \<Rightarrow> duration list \<Rightarrow> ('w runner, unit) op" where
  "runLoad E L cfg c latencies =
     and_then (map_err (Wrapped ''generate test identity'') (api (randomSuffix E))) (\<lambda>suffix.
     let login = ''stload'' @ suffix; password = ''Stacktest1!''; fileName = ''stacktest-load-'' @ suffix @ ''.bin'';
         fileBody = ''stacktest-load-payload''
     in and_then (run_step ''load fixture registration''
          (and_then (api (tc_register E cfg c login password)) (\<lambda>_.
           and_then (api (tc_authenticate E cfg c login password)) (\<lambda>token. set_token ''load'' token)))) (\<lambda>_ r.
        let token = token_of ''load'' r
        in and_then (trackName fileName token) (\<lambda>_.
        and_then (run_step ''load fixture upload''
          (and_then (api (tc_upload E cfg c \<lparr>um_name = fileName, um_file = True, um_public = True,
               um_mime = Some ''application/octet-stream'', um_token = token, um_grant = []\<rparr> None (Some fileBody))) (\<lambda>_.
           and_then (api (tc_listByName E cfg c token fileName)) (\<lambda>items.
             if length items \<noteq> 1
             then fail (Opaque (''load fixture lookup returned '' @ strconv_Itoa (int (length items)) @ '' documents, want 1''))
             else and_then (trackDocument (li_ID (hd items)) token) (\<lambda>_. ret (li_ID (hd items))))))) (\<lambda>fileID.
        and_then (print (LoadStarts (tc_loadProfile cfg) (tc_workers cfg) (tc_loadDuration cfg) (tc_maxOPS cfg))) (\<lambda>_ r.
          case run_operations E cfg c fileID fileBody suffix latencies 0 (newLoadStats (tc_maxP95 cfg)) r of
            (stats, r1) \<Rightarrow>
              (let res = snapshot L stats
               in if lr_total res = 0 then (Inl (Opaque ''load test completed without operations''), r1)
                  else (case judge_load L cfg res of Some e \<Rightarrow> Inl e | None \<Rightarrow> Inr (),
                        r1\<lparr>rn_out := rn_out r1 @ result_lines L res\<rparr>))))) r))"

subsection \<open>The acceptance test\<close>

definition role_login :: "string \<Rightarrow> string \<Rightarrow> string" where
  "role_login suffix role = ''st'' @ role @ suffix"

definition smoke_password :: string where "smoke_password = ''Stacktest1!''"
definition want_json :: bytes where "want_json = ''{\"source\":\"stacktest\",\"ok\":true}''"
definition want_file :: bytes where
  "want_file = [char_of (0 :: nat), char_of (1 :: nat), char_of (127 :: nat), char_of (128 :: nat), char_of (254 :: nat),
     char_of (255 :: nat), CHR ''o'', CHR ''k'']"

fun open_accounts :: "'w test_env \<Rightarrow> test_config \<Rightarrow> ctx \<Rightarrow> string \<Rightarrow> string list \<Rightarrow> ('w runner, unit) op" where
  "open_accounts E cfg c suffix [] = ret ()"
| "open_accounts E cfg c suffix (role # roles) =
     and_then (map_err (Wrapped (''register '' @ role)) (api (tc_register E cfg c (role_login suffix role) smoke_password))) (\<lambda>_.
     and_then (map_err (Wrapped (''authenticate '' @ role)) (api (tc_authenticate E cfg c (role_login suffix role) smoke_password))) (\<lambda>token.
     and_then (set_token role token) (\<lambda>_. open_accounts E cfg c suffix roles)))"

definition smoke_upload :: "'w test_env \<Rightarrow> test_config \<Rightarrow> ctx \<Rightarrow> string \<Rightarrow> string \<Rightarrow> string \<Rightarrow> ('w runner, unit) op" where
  "smoke_upload E cfg c suffix jsonName fileName r =
     and_then (map_err (Wrapped ''upload JSON'') (api (tc_upload E cfg c \<lparr>um_name = jsonName, um_file = False, um_public = False,
        um_mime = None, um_token = token_of ''owner'' r, um_grant = [role_login suffix ''reader'']\<rparr> (Some want_json) None))) (\<lambda>_.
     map_err (Wrapped ''upload file'') (api (tc_upload E cfg c \<lparr>um_name = fileName, um_file = True, um_public = True,
        um_mime = Some ''application/octet-stream'', um_token = token_of ''owner'' r, um_grant = []\<rparr> None (Some want_file)))) r"

text \<open>The last of the items with a name.\<close>

definition id_of_name :: "string \<Rightarrow> listItem list \<Rightarrow> string" where
  "id_of_name name items = foldl (\<lambda>i item. if li_Name item = name then li_ID item else i) [] items"

definition smoke_listing ::
  "'w test_env \<Rightarrow> test_config \<Rightarrow> ctx \<Rightarrow> string \<Rightarrow> string \<Rightarrow> string \<Rightarrow> ('w runner, string \<times> string) op" where
  "smoke_listing E cfg c suffix jsonName fileName r =
     (let owner = token_of ''owner'' r; reader = token_of ''reader'' r; stranger = token_of ''stranger'' r;
          ownerLogin = role_login suffix ''owner''
      in and_then (api (tc_list E cfg c owner [])) (\<lambda>ownerDocs.
         let jsonID = id_of_name jsonName ownerDocs; fileID = id_of_name fileName ownerDocs
         in if jsonID = [] \<or> fileID = [] then fail (Opaque ''uploaded documents missing from owner list'')
            else and_then (trackDocument jsonID owner) (\<lambda>_. and_then (trackDocument fileID owner) (\<lambda>_.
              and_then (map_err (Wrapped ''list documents as granted reader'') (api (tc_list E cfg c reader ownerLogin))) (\<lambda>readerDocs.
              if \<not> containsIDs readerDocs [jsonID, fileID] then fail (Opaque ''granted reader does not see both documents'')
              else and_then (map_err (Wrapped ''list documents as ungranted user'') (api (tc_list E cfg c stranger ownerLogin))) (\<lambda>strangerDocs.
                if length strangerDocs \<noteq> 1 \<or> li_ID (hd strangerDocs) \<noteq> fileID then fail (Opaque ''public access list mismatch'')
                else and_then (api (http_request E cfg c ''GET'' (''/api/docs?login='' @ url_QueryEscape ownerLogin) None [])) (\<lambda>(status, _, _).
                  case expectStatus (te_wide E) status 401 [] of Some e \<Rightarrow> fail e | None \<Rightarrow> ret (jsonID, fileID))))))) r)"

definition smoke_content :: "'w test_env \<Rightarrow> test_config \<Rightarrow> ctx \<Rightarrow> string \<Rightarrow> string \<Rightarrow> ('w runner, unit) op" where
  "smoke_content E cfg c jsonID fileID r =
     (let reader = token_of ''reader'' r; stranger = token_of ''stranger'' r;
          get = (\<lambda>i token. api (http_request E cfg c ''GET'' (documentPath i token) None []))
      in and_then (get jsonID reader) (\<lambda>(status, _, body).
         case expectStatus (te_wide E) status 200 body of Some e \<Rightarrow> fail e | None \<Rightarrow>
         if (case te_data E body of None \<Rightarrow> True | Some data \<Rightarrow> \<not> jsonEqual E data want_json) then fail (Opaque ''JSON response mismatch'')
         else and_then (get jsonID stranger) (\<lambda>(status, _, body).
           case expectStatus (te_wide E) status 403 body of Some e \<Rightarrow> fail e | None \<Rightarrow>
           and_then (get fileID stranger) (\<lambda>(status, header, body).
             case expectStatus (te_wide E) status 200 body of Some e \<Rightarrow> fail e | None \<Rightarrow>
             if body \<noteq> want_file \<or> hdr_get ''Content-Type'' header \<noteq> ''application/octet-stream''
             then fail (Opaque ''downloaded file content or MIME mismatch'')
             else and_then (api (http_request E cfg c ''HEAD'' (documentPath fileID stranger) None [])) (\<lambda>(status, header, body).
               if status \<noteq> 200 \<or> body \<noteq> [] \<or> hdr_get ''Content-Length'' header \<noteq> strconv_Itoa (int (length want_file))
               then fail (Opaque (''HEAD response mismatch: status='' @ strconv_Itoa status @ '' length='' @
                 strconv_Quote (te_wide E) (hdr_get ''Content-Length'' header) @ '' body-bytes='' @ strconv_Itoa (int (length body))))
               else ret ())))) r)"

definition smoke_deletion :: "'w test_env \<Rightarrow> test_config \<Rightarrow> ctx \<Rightarrow> string \<Rightarrow> string \<Rightarrow> ('w runner, unit) op" where
  "smoke_deletion E cfg c jsonID fileID r =
     (let owner = token_of ''owner'' r; reader = token_of ''reader'' r; stranger = token_of ''stranger'' r
      in and_then (api (http_form E cfg c ''DELETE'' (''/api/docs/'' @ jsonID) [(''token'', [reader])])) (\<lambda>(status, _, body).
         case expectStatus (te_wide E) status 403 body of Some e \<Rightarrow> fail e | None \<Rightarrow>
         and_then (api (tc_deleteDocument E cfg c jsonID owner)) (\<lambda>_.
         and_then (forgetDocument jsonID) (\<lambda>_.
         and_then (api (http_request E cfg c ''GET'' (documentPath jsonID owner) None [])) (\<lambda>(status, _, body).
           case expectStatus (te_wide E) status 404 body of Some e \<Rightarrow> fail e | None \<Rightarrow>
           and_then (api (tc_logout E cfg c stranger)) (\<lambda>_.
           and_then (\<lambda>r1. (Inr (), r1\<lparr>rn_tokens := al_del ''stranger'' (rn_tokens r1)\<rparr>)) (\<lambda>_ r2.
           and_then (api (http_request E cfg c ''GET'' (documentPath fileID (token_of ''stranger'' r2)) None [])) (\<lambda>(status, _, body).
             case expectStatus (te_wide E) status 401 body of Some e \<Rightarrow> fail e | None \<Rightarrow> ret ()) r2)))))) r)"

definition smoke :: "'w test_env \<Rightarrow> test_config \<Rightarrow> ctx \<Rightarrow> ('w runner, unit) op" where
  "smoke E cfg c =
     and_then (map_err (Wrapped ''generate test identity'') (api (randomSuffix E))) (\<lambda>suffix.
     and_then (run_step ''registration and authentication'' (open_accounts E cfg c suffix [''owner'', ''reader'', ''stranger''])) (\<lambda>_ r.
     let jsonName = ''stacktest-'' @ suffix @ ''.json''; fileName = ''stacktest-'' @ suffix @ ''.bin''
     in and_then (trackName jsonName (token_of ''owner'' r)) (\<lambda>_.
        and_then (trackName fileName (token_of ''owner'' r)) (\<lambda>_.
        and_then (run_step ''JSON and file upload'' (smoke_upload E cfg c suffix jsonName fileName)) (\<lambda>_.
        and_then (run_step ''listing and access matrix'' (smoke_listing E cfg c suffix jsonName fileName)) (\<lambda>(jsonID, fileID).
        and_then (run_step ''content, HEAD and authorization'' (smoke_content E cfg c jsonID fileID)) (\<lambda>_.
        run_step ''deletion and session revocation'' (smoke_deletion E cfg c jsonID fileID)))))) r))"

text \<open>\<open>run\<close>: the body, and the deferred cleanup of what it did not clean.\<close>

definition run_body ::
  "'w test_env \<Rightarrow> stats_lib \<Rightarrow> test_config \<Rightarrow> ctx \<Rightarrow> nat \<Rightarrow> duration list \<Rightarrow> ('w runner, unit) op" where
  "run_body E L cfg c ticks latencies =
     and_then (run_step ''readiness'' (api (waitReady E cfg (context_WithTimeout c) ticks))) (\<lambda>_.
     and_then (run_step ''runtime endpoints'' (api (checkRuntime E cfg c))) (\<lambda>_.
     let load = tc_mode cfg = ''load''
     in and_then (if load then runLoad E L cfg c latencies else smoke E cfg c) (\<lambda>_.
        and_then (map_err (Wrapped ''cleanup'') (cleanup E cfg c)) (\<lambda>_.
        print (if load then LoadPassed else AllPassed)))))"

definition run_test ::
  "'w test_env \<Rightarrow> stats_lib \<Rightarrow> test_config \<Rightarrow> ctx \<Rightarrow> nat \<Rightarrow> duration list \<Rightarrow> 'w runner \<Rightarrow> goerr option \<times> 'w runner" where
  "run_test E L cfg c ticks latencies r =
     (case run_body E L cfg c ticks latencies (snd (print (Target (tc_baseURL cfg)) r)) of
        (Inr _, r1) \<Rightarrow> (None, r1)
      | (Inl runErr, r1) \<Rightarrow>
          (case cleanup E cfg (context_WithTimeout (context_WithoutCancel c)) r1 of
             (Inr _, r2) \<Rightarrow> (Some runErr, r2)
           | (Inl e, r2) \<Rightarrow> (Some runErr, snd (print (WarnCleanup e) r2))))"

text \<open>\<open>main\<close>: the exit status.\<close>

definition main_exit ::
  "flag_lib \<Rightarrow> (string \<Rightarrow> string) \<Rightarrow> 'w test_env \<Rightarrow> stats_lib \<Rightarrow> ctx \<Rightarrow> nat \<Rightarrow> duration list \<Rightarrow> string list \<Rightarrow> 'w \<Rightarrow> nat" where
  "main_exit F getenv E L c ticks latencies args w =
     (case parseConfig F getenv args of
        Inl e \<Rightarrow> 2
      | Inr cfg \<Rightarrow> (case fst (run_test E L cfg c ticks latencies (new_runner w)) of None \<Rightarrow> 0 | Some e \<Rightarrow> 1))"

end
