(* ===== verification/TestUrls.thy ===== *)
theory TestUrls
  imports TestRun HttpHandler World
begin

text \<open>What the test client encodes, the server decodes: forms, queries and the paths of documents.\<close>

lemma percent_digit:
  assumes "d < 16"
  shows "hex_digit (if d < 10 then char_of (48 + d) else char_of (55 + d))"
    "unhex (if d < 10 then char_of (48 + d) else char_of (55 + d)) = d"
  using assms by (auto simp: hex_digit_def unhex_def Let_def)

lemma percent_shape:
  "\<exists>a b. percent c = [CHR ''%'', a, b] \<and> hex_digit a \<and> hex_digit b \<and> char_of (unhex a * 16 + unhex b) = c"
proof -
  have n: "(of_char c :: nat) div 16 < 16" "(of_char c :: nat) mod 16 < 16"
    using nat_of_char_less_256 [of c] by (simp_all add: less_mult_imp_div_less)
  let ?digit = "\<lambda>d :: nat. if d < 10 then char_of (48 + d) else char_of (55 + d) :: char"
  have "percent c = [CHR ''%'', ?digit (of_char c div 16), ?digit (of_char c mod 16)]" by (simp add: percent_def Let_def)
  moreover have "char_of (unhex (?digit (of_char c div 16)) * 16 + unhex (?digit (of_char c mod 16))) = c"
    using percent_digit(2) [OF n(1)] percent_digit(2) [OF n(2)] by simp
  ultimately show ?thesis using percent_digit(1) [OF n(1)] percent_digit(1) [OF n(2)] by blast
qed

lemma unescape_escape: "query_unescape (url_QueryEscape s) = Some s"
proof (induction s)
  case (Cons c s)
  have split: "url_QueryEscape (c # s) =
      (if url_unreserved c then [c] else if c = CHR '' '' then ''+'' else percent c) @ url_QueryEscape s"
    by (simp add: url_QueryEscape_def)
  obtain a b where p: "percent c = [CHR ''%'', a, b]" "hex_digit a" "hex_digit b" "char_of (unhex a * 16 + unhex b) = c"
    using percent_shape by blast
  have "url_unreserved c \<Longrightarrow> c \<noteq> CHR ''%'' \<and> c \<noteq> CHR ''+''" by (auto simp: url_unreserved_def)
  then show ?case unfolding split using Cons p by auto
qed (simp add: url_QueryEscape_def)

lemma escape_plain:
  assumes "c \<in> set (url_QueryEscape s)"
  shows "c \<notin> {CHR ''&'', CHR ''='', CHR '';'', CHR ''?'', CHR ''#''}"
proof -
  have digit: "hex_digit a \<Longrightarrow> a \<notin> {CHR ''&'', CHR ''='', CHR '';'', CHR ''?'', CHR ''#''}" for a
    by (auto simp: hex_digit_def)
  have "x \<notin> {CHR ''&'', CHR ''='', CHR '';'', CHR ''?'', CHR ''#''}"
    if "x \<in> set (if url_unreserved d then [d] else if d = CHR '' '' then ''+'' else percent d)" for x d
    using that percent_shape [of d] digit by (auto simp: url_unreserved_def split: if_splits)
  moreover obtain d where "c \<in> set (if url_unreserved d then [d] else if d = CHR '' '' then ''+'' else percent d)"
    using assms unfolding url_QueryEscape_def set_concat set_map by blast
  ultimately show ?thesis by blast
qed

subsection \<open>Pairs of keys and values\<close>

definition encode_pair :: "string \<times> string \<Rightarrow> string" where
  "encode_pair kv = url_QueryEscape (fst kv) @ ''='' @ url_QueryEscape (snd kv)"

definition value_pairs :: "url_values \<Rightarrow> (string \<times> string) list" where
  "value_pairs vs = concat (map (\<lambda>k. map (Pair k) (case al_get vs k of None \<Rightarrow> [] | Some xs \<Rightarrow> xs)) (sort_by (\<le>) (al_keys vs)))"

lemma values_Encode_pairs: "values_Encode vs = strings_Join (map encode_pair (value_pairs vs)) ''&''"
  by (simp add: values_Encode_def value_pairs_def encode_pair_def map_concat comp_def)

lemma split_plain: "d \<notin> set s \<Longrightarrow> strings_Split d s = [s]"
  by (induction s) auto

lemma split_append: "d \<notin> set s \<Longrightarrow> strings_Split d (s @ d # t) = s # strings_Split d t"
  by (induction s) auto

lemma split_join:
  "parts \<noteq> [] \<Longrightarrow> \<forall>s \<in> set parts. d \<notin> set s \<Longrightarrow> strings_Split d (strings_Join parts [d]) = parts"
  by (induction parts "[d]" rule: strings_Join.induct) (auto simp: split_plain split_append)

lemma encode_pair_plain: "c \<in> set (encode_pair kv) \<Longrightarrow> c \<notin> {CHR ''&'', CHR '';'', CHR ''?'', CHR ''#''}"
  using escape_plain by (fastforce simp: encode_pair_def)

lemma cut_pair: "strings_Cut (CHR ''='') (encode_pair kv) = (url_QueryEscape (fst kv), url_QueryEscape (snd kv))"
proof -
  have "\<forall>c \<in> set (url_QueryEscape (fst kv)). c \<noteq> CHR ''=''" using escape_plain by fastforce
  then have "takeWhile (\<lambda>x. x \<noteq> CHR ''='') (url_QueryEscape (fst kv) @ CHR ''='' # url_QueryEscape (snd kv)) = url_QueryEscape (fst kv)"
    "dropWhile (\<lambda>x. x \<noteq> CHR ''='') (url_QueryEscape (fst kv) @ CHR ''='' # url_QueryEscape (snd kv)) = CHR ''='' # url_QueryEscape (snd kv)"
    by (simp_all add: takeWhile_append2 dropWhile_append2)
  then show ?thesis by (simp add: strings_Cut_def encode_pair_def)
qed

lemma parse_encoded: "parse_pair (encode_pair (k, v)) (bad, m) = (bad, values_add k v m)"
proof -
  have "CHR '';'' \<notin> set (encode_pair (k, v))" using encode_pair_plain by blast
  moreover have "encode_pair (k, v) \<noteq> []" by (simp add: encode_pair_def)
  ultimately show ?thesis by (simp add: parse_pair_def cut_pair unescape_escape)
qed

lemma parse_all: "foldl (\<lambda>s part. parse_pair part s) (bad, m) (map encode_pair kvs) = (bad, foldl (\<lambda>m (k, v). values_add k v m) m kvs)"
  by (induction kvs arbitrary: m) (auto simp: parse_encoded)

lemma parse_pairs:
  "url_ParseQuery (strings_Join (map encode_pair kvs) ''&'') = Some (foldl (\<lambda>m (k, v). values_add k v m) [] kvs)"
proof (cases "kvs = []")
  case True
  then show ?thesis by (simp add: url_ParseQuery_def parse_pair_def)
next
  case False
  have "\<forall>s \<in> set (map encode_pair kvs). CHR ''&'' \<notin> set s" using encode_pair_plain by fastforce
  from split_join [OF _ this] False have "strings_Split (CHR ''&'') (strings_Join (map encode_pair kvs) ''&'') = map encode_pair kvs" by simp
  then show ?thesis by (simp add: url_ParseQuery_def parse_all)
qed

lemma added_values:
  "al_get (foldl (\<lambda>m (k, v). values_add k v m) m kvs) k =
   (case map snd (filter (\<lambda>kv. fst kv = k) kvs) of
      [] \<Rightarrow> al_get m k | v # vs \<Rightarrow> Some ((case al_get m k of None \<Rightarrow> [] | Some xs \<Rightarrow> xs) @ v # vs))"
proof (induction kvs arbitrary: m)
  case (Cons kv kvs)
  then show ?case
    by (cases kv) (auto simp: values_add_def split: list.splits option.splits)
qed simp

lemma filter_pairs: "distinct ks \<Longrightarrow>
  map snd (filter (\<lambda>kv. fst kv = k) (concat (map (\<lambda>k. map (Pair k) (f k)) ks))) = (if k \<in> set ks then f k else [])"
proof (induction ks)
  case (Cons k' ks)
  have "filter (\<lambda>kv. fst kv = k) (map (Pair k') (f k')) = (if k' = k then map (Pair k) (f k) else [])"
    by (auto simp: filter_map comp_def)
  with Cons show ?case by (auto simp: comp_def)
qed simp

lemma encoded_values:
  assumes "distinct (al_keys vs)" "\<forall>k. al_get vs k \<noteq> Some []"
  shows "\<exists>m. url_ParseQuery (values_Encode vs) = Some m \<and> (\<forall>k. al_get m k = al_get vs k)"
proof -
  let ?f = "\<lambda>k. case al_get vs k of None \<Rightarrow> [] | Some xs \<Rightarrow> xs"
  have d: "distinct (sort_by (\<le>) (al_keys vs))" using assms(1) by (metis mset_sort_by mset_eq_imp_distinct_iff)
  have "map snd (filter (\<lambda>kv. fst kv = k) (value_pairs vs)) = ?f k" for k
    using filter_pairs [OF d, of k ?f] al_get_None_iff [of vs k] unfolding value_pairs_def
    by (cases "k \<in> set (al_keys vs)") simp_all
  then have "al_get (foldl (\<lambda>m (k, v). values_add k v m) [] (value_pairs vs)) k = al_get vs k" for k
    using assms(2) by (auto simp: added_values split: list.splits option.splits)
  then show ?thesis by (auto simp: values_Encode_pairs parse_pairs)
qed

text \<open>A canonical identifier is not escaped.\<close>

lemma path_escape_plain: "\<forall>c \<in> set s. url_unreserved c \<Longrightarrow> url_PathEscape s = s"
  by (induction s) (auto simp: url_PathEscape_def)

text \<open>The path and the raw query that the server gets for a request target.\<close>

definition request_target :: "string \<Rightarrow> string \<times> string" where
  "request_target s = strings_Cut (CHR ''?'') s"

lemma canonical_chars:
  assumes "uuid_canonical i"
  shows "i \<noteq> [] \<and> (\<forall>c \<in> set i. url_unreserved c \<and> c \<noteq> CHR ''/'' \<and> c \<noteq> CHR ''?'')"
proof -
  obtain u where u: "wf_uuid u" "i = uuid_String u" using assms by (auto simp: uuid_canonical_def split: option.splits)
  have digit: "url_unreserved (hexdig d) \<and> hexdig d \<noteq> CHR ''/'' \<and> hexdig d \<noteq> CHR ''?''" if "d < 16" for d
    using that by (auto simp: url_unreserved_def hexdig_def Let_def dest!: arg_cong [where f = "of_char :: char \<Rightarrow> nat"])
  have seg: "\<forall>c \<in> set (hexbytes bs). url_unreserved c \<and> c \<noteq> CHR ''/'' \<and> c \<noteq> CHR ''?''" if "set bs \<subseteq> set u" for bs
  proof -
    have "\<forall>b \<in> set bs. b < 256" using that u(1) by (auto simp: wf_uuid_def list_all_iff)
    then show ?thesis by (auto simp: hexbytes_def less_mult_imp_div_less digit)
  qed
  have "set (take n u) \<subseteq> set u" "set (take n (drop m u)) \<subseteq> set u" "set (drop m u) \<subseteq> set u" for n m
    by (auto dest: in_set_takeD in_set_dropD)
  note segs = seg [OF this(1)] seg [OF this(2)] seg [OF this(3)]
  have "url_unreserved (CHR ''-'')" by (simp add: url_unreserved_def)
  with segs show ?thesis unfolding u(2) uuid_String_def set_append ball_Un by simp
qed

lemma canonical_path:
  assumes "uuid_canonical i"
  shows "request_target (documentPath i token) = (''/api/docs/'' @ i, encode_pair (''token'', token))"
proof -
  have plain: "\<forall>c \<in> set (''/api/docs/'' @ i). c \<noteq> CHR ''?''" using canonical_chars [OF assms] by auto
  have "documentPath i token = (''/api/docs/'' @ i) @ CHR ''?'' # encode_pair (''token'', token)"
    using canonical_chars [OF assms] by (simp add: documentPath_def encode_pair_def path_escape_plain) (simp add: url_QueryEscape_def url_unreserved_def)
  then show ?thesis
    unfolding request_target_def strings_Cut_def using plain by (simp add: takeWhile_append2 dropWhile_append2)
qed

text \<open>C30: What the test client sends, the server reads: a form or query it encodes is decoded by the server to the
  same values under the same keys, and the path of a document with a canonical id carries that id as
  its only path value and any token, whatever bytes it has, as the token.\<close>

theorem client_server_roundtrip:
  assumes "distinct (al_keys vs)" "\<forall>k. al_get vs k \<noteq> Some []" "uuid_canonical i"
  shows "(\<exists>m. url_ParseQuery (values_Encode vs) = Some m \<and> (\<forall>k. al_get m k = al_get vs k)) \<and>
    fst (request_target (documentPath i token)) = ''/api/docs/'' @ i \<and>
    singlePathValue (fst (request_target (documentPath i token))) ''/api/docs/'' \<and>
    strings_TrimPrefix (fst (request_target (documentPath i token))) ''/api/docs/'' = i \<and>
    read_token (snd (request_target (documentPath i token))) = Some token"
proof -
  have i: "i \<noteq> []" "CHR ''/'' \<notin> set i" using canonical_chars [OF assms(3)] by auto
  have "\<not> strings_Contains i ''/''" using i(2) by (auto simp: strings_Contains_iff)
  then have "singlePathValue (''/api/docs/'' @ i) ''/api/docs/''" using i(1) by (simp add: singlePathValue_def del: append.simps)
  moreover have "read_token (encode_pair (''token'', token)) = Some token"
    using parse_pairs [of "[(''token'', token)]"]
    by (simp add: read_token_def values_add_def singleQueryValue_def query_count_def)
  ultimately show ?thesis
    using encoded_values [OF assms(1,2)] unfolding canonical_path [OF assms(3)] fst_conv snd_conv
    by (simp del: append_Cons append_Nil)
qed

lemma client_server_roundtrip_witness:
  "\<exists>m. url_ParseQuery (values_Encode [(''token'', [''a&b=c %+'']), (''login'', [''owner''])]) = Some m \<and>
     al_get m ''token'' = Some [''a&b=c %+''] \<and>
     read_token (snd (request_target (documentPath did1 ''x?y/z''))) = Some ''x?y/z''"
proof -
  have "uuid_canonical did1" by code_simp
  moreover have "distinct (al_keys [(''token'', [''a&b=c %+'']), (''login'', [''owner''])])"
    "\<forall>k. al_get [(''token'', [''a&b=c %+'']), (''login'', [''owner''])] k \<noteq> Some []" by (auto split: if_splits)
  ultimately obtain m where "url_ParseQuery (values_Encode [(''token'', [''a&b=c %+'']), (''login'', [''owner''])]) = Some m"
    "\<forall>k. al_get m k = al_get [(''token'', [''a&b=c %+'']), (''login'', [''owner''])] k"
    "read_token (snd (request_target (documentPath did1 ''x?y/z''))) = Some ''x?y/z''"
    using client_server_roundtrip by blast
  then show ?thesis by (intro exI conjI) auto
qed

end
