(* ===== verification/TestStats.thy ===== *)
theory TestStats
  imports TestRun
begin

text \<open>The statistics of the load test count exactly, and their quantiles are the least limits that suffice.\<close>

type_synonym load_event = "string \<times> duration \<times> goerr option"

definition record_all :: "(goerr \<Rightarrow> string) \<Rightarrow> duration \<Rightarrow> load_event list \<Rightarrow> loadStats" where
  "record_all show limit evs = foldl (\<lambda>s (oper, latency, err). record_load show oper latency err s) (newLoadStats limit) evs"

definition howmany :: "(load_event \<Rightarrow> bool) \<Rightarrow> load_event list \<Rightarrow> nat" where
  "howmany p evs = length (filter p evs)"

definition at_most :: "duration \<Rightarrow> load_event list \<Rightarrow> nat" where
  "at_most d evs = howmany (\<lambda>(_, latency, _). latency \<le> d) evs"

lemma howmany_simps [simp]: "howmany p [] = 0" "howmany p (evs @ [e]) = howmany p evs + (if p e then 1 else 0)"
  by (simp_all add: howmany_def)

lemma howmany_le: "howmany p evs \<le> length evs"
  by (simp add: howmany_def)

lemma howmany_small: "length evs < 18446744073709551615 \<Longrightarrow> wrapu64 (Suc (howmany p evs)) = Suc (howmany p evs)"
  using howmany_le [of p evs] by (simp add: wrapu64_def)

subsection \<open>Counting\<close>

definition counts_exactly :: "(goerr \<Rightarrow> string) \<Rightarrow> duration \<Rightarrow> load_event list \<Rightarrow> loadStats \<Rightarrow> bool" where
  "counts_exactly show limit evs s \<longleftrightarrow>
     ls_total s = length evs \<and> ls_success s = howmany (\<lambda>(_, _, err). err = None) evs \<and>
     ls_errors s = howmany (\<lambda>(_, _, err). err \<noteq> None) evs \<and>
     ls_p95Limit s = limit \<and> ls_overP95Limit s = (if limit > 0 then howmany (\<lambda>(_, latency, _). latency > limit) evs else 0) \<and>
     ls_errorExamples s = take 5 (concat (map (\<lambda>(oper, _, err). case err of None \<Rightarrow> [] | Some e \<Rightarrow> [oper @ '': '' @ show e]) evs)) \<and>
     (\<forall>name. operation_of s name = \<lparr>op_total = howmany (\<lambda>(oper, _, _). oper = name) evs,
        op_errors = howmany (\<lambda>(oper, _, err). oper = name \<and> err \<noteq> None) evs\<rparr>) \<and>
     length (ls_buckets s) = length loadLatencyLimits \<and>
     (\<forall>k < length loadLatencyLimits. ls_buckets s ! k = howmany (\<lambda>(_, latency, _). bucket_of latency loadLatencyLimits 0 = k) evs)"

lemma bucket_bound: "bucket_of latency limits i < i + length limits \<or> limits = []"
  by (induction latency limits i rule: bucket_of.induct) (auto split: if_splits)

lemma limits_length: "length loadLatencyLimits = 17"
  by (simp add: loadLatencyLimits_def)

lemma record_counts:
  assumes "counts_exactly show limit evs s" "length evs < 18446744073709551615"
  shows "counts_exactly show limit (evs @ [(oper, latency, err)]) (record_load show oper latency err s)"
proof -
  have small: "wrapu64 (Suc (howmany p evs)) = Suc (howmany p evs)" for p by (rule howmany_small [OF assms(2)])
  have total: "wrapu64 (Suc (length evs)) = Suc (length evs)" using assms(2) by (simp add: wrapu64_def)
  let ?k = "bucket_of latency loadLatencyLimits 0"
  have k: "?k < 17" using bucket_bound [of latency loadLatencyLimits 0] limits_length by auto
  let ?s = "record_load show oper latency err s"
  have parts: "ls_total ?s = wrapu64 (ls_total s + 1)"
    "ls_success ?s = (if err = None then wrapu64 (ls_success s + 1) else ls_success s)"
    "ls_errors ?s = (if err = None then ls_errors s else wrapu64 (ls_errors s + 1))"
    "ls_p95Limit ?s = ls_p95Limit s"
    "ls_overP95Limit ?s = (if ls_p95Limit s > 0 \<and> latency > ls_p95Limit s then wrapu64 (ls_overP95Limit s + 1) else ls_overP95Limit s)"
    "ls_errorExamples ?s = (case err of None \<Rightarrow> ls_errorExamples s
       | Some e \<Rightarrow> if length (ls_errorExamples s) < 5 then ls_errorExamples s @ [oper @ '': '' @ show e] else ls_errorExamples s)"
    "operation_of ?s name = (if name = oper then \<lparr>op_total = wrapu64 (op_total (operation_of s oper) + 1),
       op_errors = (if err = None then op_errors (operation_of s oper) else wrapu64 (op_errors (operation_of s oper) + 1))\<rparr>
       else operation_of s name)"
    "ls_buckets ?s = bump ?k (ls_buckets s)" for name
    by (auto simp: record_load_def Let_def operation_of_def split: option.splits)
  show ?thesis
    using assms(1) k unfolding counts_exactly_def
    by (auto simp: parts small total bump_def limits_length nth_list_update split: option.splits)
qed

lemma record_all_counts:
  assumes "length evs < 18446744073709551616"
  shows "counts_exactly show limit evs (record_all show limit evs)"
  using assms
proof (induction evs rule: rev_induct)
  case Nil
  show ?case by (auto simp: counts_exactly_def record_all_def newLoadStats_def operation_of_def)
next
  case (snoc e evs)
  obtain oper latency err where e: "e = (oper, latency, err)" by (cases e)
  from snoc have "counts_exactly show limit evs (record_all show limit evs)" "length evs < 18446744073709551615" by simp_all
  from record_counts [OF this] show ?case by (simp add: record_all_def e)
qed

subsection \<open>Quantiles\<close>

lemma bucket_ge: "limits \<noteq> [] \<Longrightarrow> i \<le> bucket_of latency limits i"
proof (induction latency limits i rule: bucket_of.induct)
  case (2 latency limit limits i)
  then show ?case by (cases "limits = []") auto
qed simp

lemma bucket_below:
  assumes "sorted limits" "k < length limits"
  shows "bucket_of latency limits i \<le> i + k \<longleftrightarrow> latency \<le> limits ! k \<or> k = length limits - 1"
  using assms
proof (induction latency limits i arbitrary: k rule: bucket_of.induct)
  case (2 latency limit limits i)
  show ?case
  proof (cases k)
    case 0
    then show ?thesis using bucket_ge [of limits "Suc i" latency] 2 by (cases "limits = []") auto
  next
    case (Suc j)
    have le: "limit \<le> limits ! j" using 2 Suc by simp
    have "latency \<le> limit \<Longrightarrow> latency \<le> limits ! j" using le by simp
    with 2 Suc show ?thesis by (auto split: if_splits)
  qed
qed simp

lemma quantile_loop_least:
  assumes "length counts = length limits" "c + sum_list counts < 18446744073709551616" "c < rank" "rank \<le> c + sum_list counts"
  shows "\<exists>k < length limits. quantile_loop counts limits rank c = Some (limits ! k) \<and> rank \<le> c + sum_list (take (Suc k) counts) \<and>
    (\<forall>j < k. c + sum_list (take (Suc j) counts) < rank)"
  using assms
proof (induction counts limits rank c rule: quantile_loop.induct)
  case (1 n counts limit limits rank c)
  have w: "wrapu64 (c + n) = c + n" using "1.prems"(2) by (simp add: wrapu64_def)
  show ?case
  proof (cases "rank \<le> c + n")
    case True
    then show ?thesis using w by (intro exI [of _ 0]) (simp add: Let_def)
  next
    case False
    with 1 w obtain k where k: "k < length limits" "quantile_loop counts limits rank (c + n) = Some (limits ! k)"
      "rank \<le> c + n + sum_list (take (Suc k) counts)" "\<forall>j < k. c + n + sum_list (take (Suc j) counts) < rank"
      by (auto simp: Let_def)
    have "c + sum_list (take (Suc j) (n # counts)) < rank" if "j < Suc k" for j
      using that k(4) False by (cases j) (auto simp: add.assoc)
    with k False w show ?thesis by (intro exI [of _ "Suc k"]) (simp add: Let_def add.assoc)
  qed
qed auto

lemma howmany_sum:
  fixes f :: "duration \<Rightarrow> nat"
  shows "(\<Sum>k<n. howmany (\<lambda>(_, latency, _). f latency = k) evs) = howmany (\<lambda>(_, latency, _). f latency < n) evs"
proof (induction evs rule: rev_induct)
  case (snoc e evs)
  obtain a latency c where "e = (a, latency, c)" by (cases e)
  moreover have "(\<Sum>k<n. if f latency = k then 1 else 0 :: nat) = (if f latency < n then 1 else 0)" by simp
  ultimately show ?case using snoc by (simp add: sum.distrib)
qed simp

lemma limits_sorted: "sorted loadLatencyLimits" "loadLatencyLimits ! 16 = hour"
  by (simp_all add: loadLatencyLimits_def millisecond_def second_def hour_def minute_def)

text \<open>The first buckets together count the latencies up to a limit, and all of them count everything.\<close>

lemma buckets_cumulate:
  assumes "counts_exactly show limit evs s"
  shows "n \<le> 17 \<Longrightarrow> sum_list (take n (ls_buckets s)) = howmany (\<lambda>(_, latency, _). bucket_of latency loadLatencyLimits 0 < n) evs"
    "k < 16 \<Longrightarrow> sum_list (take (Suc k) (ls_buckets s)) = at_most (loadLatencyLimits ! k) evs"
    "sum_list (ls_buckets s) = length evs"
proof -
  have b: "length (ls_buckets s) = 17"
    "\<And>k. k < 17 \<Longrightarrow> ls_buckets s ! k = howmany (\<lambda>(_, latency, _). bucket_of latency loadLatencyLimits 0 = k) evs"
    using assms by (auto simp: counts_exactly_def limits_length)
  have sum: "sum_list (take n (ls_buckets s)) = howmany (\<lambda>(_, latency, _). bucket_of latency loadLatencyLimits 0 < n) evs" if "n \<le> 17" for n
  proof -
    have "sum_list (take n (ls_buckets s)) = (\<Sum>k<n. ls_buckets s ! k)"
      using that b(1) by (simp add: sum_list_sum_nth atLeast0LessThan)
    also have "\<dots> = (\<Sum>k<n. howmany (\<lambda>(_, latency, _). bucket_of latency loadLatencyLimits 0 = k) evs)"
      using that b(2) by (intro sum.cong) auto
    finally show ?thesis by (simp add: howmany_sum)
  qed
  then show "n \<le> 17 \<Longrightarrow> sum_list (take n (ls_buckets s)) = howmany (\<lambda>(_, latency, _). bucket_of latency loadLatencyLimits 0 < n) evs" .
  show "sum_list (take (Suc k) (ls_buckets s)) = at_most (loadLatencyLimits ! k) evs" if "k < 16"
    using that sum [of "Suc k"] bucket_below [of loadLatencyLimits k _ 0] limits_length limits_sorted(1)
    by (simp add: at_most_def less_Suc_eq_le)
  have "bucket_of latency loadLatencyLimits 0 < 17" for latency
    using bucket_bound [of latency loadLatencyLimits 0] limits_length by auto
  with sum [of 17] b(1) show "sum_list (ls_buckets s) = length evs" by (simp add: howmany_def case_prod_beta)
qed

lemma limits_before:
  assumes "l \<in> set loadLatencyLimits" "l < loadLatencyLimits ! k" "k < 17"
  shows "\<exists>j < k. l = loadLatencyLimits ! j"
proof -
  obtain j where j: "j < 17" "l = loadLatencyLimits ! j" using assms(1) limits_length by (auto simp: in_set_conv_nth)
  then have "\<not> k \<le> j" using sorted_nth_mono [OF limits_sorted(1), of k j] assms(2) limits_length by auto
  with j(2) show ?thesis by (intro exI [of _ j]) simp
qed

text \<open>C31: For every sequence of operations the statistics of the load test are exact: the totals, the successes, the
  errors and those above the limit, in all and per operation, and the first five errors. Each quantile that
  they report is the least of the latency limits under which at least its rank of operations stayed; only the
  last limit also stands for latencies above it. The rank is what the floating point makes of the quantile.\<close>

theorem load_stats_exact:
  assumes "length evs < 18446744073709551616" "evs \<noteq> []" "\<And>n. 0 < n \<Longrightarrow> 0 < st_rank L n q \<and> st_rank L n q \<le> n"
  shows "counts_exactly show limit evs (record_all show limit evs) \<and>
    (let s = record_all show limit evs; d = snd (histogramQuantile L (ls_buckets s) (ls_total s) q); rank = st_rank L (length evs) q
     in d \<in> set loadLatencyLimits \<and> (rank \<le> at_most d evs \<or> d = hour) \<and>
       (\<forall>l \<in> set loadLatencyLimits. l < d \<longrightarrow> at_most l evs < rank))"
proof -
  let ?s = "record_all show limit evs" and ?ls = "loadLatencyLimits" and ?rank = "st_rank L (length evs) q"
  have c: "counts_exactly show limit evs ?s" by (rule record_all_counts [OF assms(1)])
  then have b: "length (ls_buckets ?s) = 17" "ls_total ?s = length evs"
    by (auto simp: counts_exactly_def limits_length)
  note buckets = buckets_cumulate [OF c]
  have "0 < ?rank" "?rank \<le> length evs" using assms(2,3) by simp_all
  from quantile_loop_least [of "ls_buckets ?s" ?ls 0 ?rank] this obtain k where k: "k < 17"
    "quantile_loop (ls_buckets ?s) ?ls ?rank 0 = Some (?ls ! k)" "?rank \<le> sum_list (take (Suc k) (ls_buckets ?s))"
    "\<forall>j < k. sum_list (take (Suc j) (ls_buckets ?s)) < ?rank"
    using b(1) limits_length buckets(3) assms(1) by auto
  have d: "snd (histogramQuantile L (ls_buckets ?s) (ls_total ?s) q) = ?ls ! k"
    using k(2) b(2) assms(2) by (simp add: histogramQuantile_def)
  have "?rank \<le> at_most (?ls ! k) evs \<or> ?ls ! k = hour"
    using k(1,3) buckets(2) [of k] limits_sorted(2) by (cases "k = 16") auto
  moreover have "at_most l evs < ?rank" if "l \<in> set ?ls" "l < ?ls ! k" for l
    using limits_before [OF that k(1)] k(1,4) buckets(2) by auto
  ultimately show ?thesis using c k(1) limits_length unfolding Let_def d by simp
qed

subsection \<open>Witness\<close>

text \<open>The events of the repository's test: nine at 10 ms and one failure after 3 s.\<close>

definition demo_events :: "load_event list" where
  "demo_events = replicate 9 (''get'', 10000000, None) @ [(''get'', 3000000000, Some (Opaque ''boom''))]"

definition demo_stats_lib :: stats_lib where
  "demo_stats_lib = \<lparr>st_rank = (\<lambda>n q. (case q of P50 \<Rightarrow> (n + 1) div 2 | P95 \<Rightarrow> (95 * n + 99) div 100 | P99 \<Rightarrow> (99 * n + 99) div 100)),
     st_overShare = (\<lambda>over n. over * 20 > n), st_rate = (\<lambda>a b. 0), st_less = (<), st_duration = (\<lambda>_. []), st_float = (\<lambda>_. [])\<rparr>"

lemma load_stats_exact_witness:
  "\<exists>s. counts_exactly (\<lambda>_. ''boom'') (2 * second) demo_events s \<and> ls_total s = 10 \<and> ls_errors s = 1 \<and> ls_overP95Limit s = 1 \<and>
     snd (histogramQuantile demo_stats_lib (ls_buckets s) (ls_total s) P95) \<in> set loadLatencyLimits"
proof -
  have "0 < n \<Longrightarrow> 0 < st_rank demo_stats_lib n P95 \<and> st_rank demo_stats_lib n P95 \<le> n" for n
    by (auto simp: demo_stats_lib_def)
  from load_stats_exact [of demo_events demo_stats_lib P95, OF _ _ this] have
    "counts_exactly (\<lambda>_. ''boom'') (2 * second) demo_events (record_all (\<lambda>_. ''boom'') (2 * second) demo_events)"
    "snd (histogramQuantile demo_stats_lib (ls_buckets (record_all (\<lambda>_. ''boom'') (2 * second) demo_events))
       (ls_total (record_all (\<lambda>_. ''boom'') (2 * second) demo_events)) P95) \<in> set loadLatencyLimits"
    by (simp_all add: demo_events_def Let_def)
  then show ?thesis
    by (intro exI [of _ "record_all (\<lambda>_. ''boom'') (2 * second) demo_events"])
      (auto simp: counts_exactly_def howmany_def demo_events_def second_def)
qed

end
