(* ===== verification/TestCleanup.thy ===== *)
theory TestCleanup
  imports TestRun
begin

text \<open>The test leaves nothing behind: what its cleanup deletes, given a service that does what it is asked.\<close>

text \<open>
  The laws of a service, over what it can be asked: a deleted document is absent, a logged out session is
  closed, neither comes back by these calls, and a listing without filters holds all that is owned.
\<close>

definition service_laws ::
  "'w test_env \<Rightarrow> test_config \<Rightarrow> ctx \<Rightarrow> (string \<Rightarrow> 'w \<Rightarrow> bool) \<Rightarrow> (string \<Rightarrow> 'w \<Rightarrow> bool) \<Rightarrow> (string \<Rightarrow> string \<Rightarrow> string \<Rightarrow> 'w \<Rightarrow> bool) \<Rightarrow> bool" where
  "service_laws E cfg c absent closed owned \<longleftrightarrow>
     (\<forall>i token w w'. tc_deleteDocument E cfg c i token w = (Inr (), w') \<longrightarrow> absent i w') \<and>
     (\<forall>token w w'. tc_logout E cfg c token w = (Inr (), w') \<longrightarrow> closed token w') \<and>
     (\<forall>i j token. keeps (absent i) (tc_deleteDocument E cfg c j token) \<and> keeps (absent i) (tc_logout E cfg c token)) \<and>
     (\<forall>t token. keeps (closed t) (tc_logout E cfg c token)) \<and>
     (\<forall>token name i w items w'. tc_list E cfg c token [] w = (Inr items, w') \<longrightarrow> owned token name i w \<longrightarrow>
        (\<exists>item \<in> set items. li_ID item = i \<and> li_Name item = name)) \<and>
     (\<forall>t name i token. keeps (owned t name i) (tc_list E cfg c token []))"

lemma service_kept:
  assumes "service_laws E cfg c absent closed owned"
  shows "tc_deleteDocument E cfg c j token w = (r, w') \<Longrightarrow> absent i w \<Longrightarrow> absent i w'"
    "tc_logout E cfg c token w = (r, w') \<Longrightarrow> absent i w \<Longrightarrow> absent i w'"
    "tc_logout E cfg c token w = (r, w') \<Longrightarrow> closed t w \<Longrightarrow> closed t w'"
    "tc_list E cfg c token [] w = (items, w') \<Longrightarrow> owned t name i w \<Longrightarrow> owned t name i w'"
  using assms unfolding service_laws_def keeps_def by (metis snd_conv)+

lemma service_done:
  assumes "service_laws E cfg c absent closed owned"
  shows "tc_deleteDocument E cfg c i token w = (Inr u, w') \<Longrightarrow> absent i w'" "tc_logout E cfg c token w = (Inr u, w') \<Longrightarrow> closed token w'"
  using assms unfolding service_laws_def by (metis (full_types) old.unit.exhaust)+

lemma discover_items_grow: "set docs \<subseteq> set (discover_items target items docs)"
  by (induction target items docs rule: discover_items.induct) auto

lemma discover_items_found:
  "item \<in> set items \<Longrightarrow> li_Name item = on_name target \<Longrightarrow> li_ID item \<in> od_id ` set (discover_items target items docs)"
proof (induction target items docs rule: discover_items.induct)
  case (2 target item' items docs)
  show ?case
  proof (cases "item = item'")
    case True
    let ?new = "docs @ [\<lparr>od_id = li_ID item, od_token = on_token target\<rparr>]"
    have "li_ID item \<in> od_id ` set (discover_items target items ?new)"
      using discover_items_grow [of ?new target items] by force
    moreover have "li_ID item \<in> od_id ` set docs \<Longrightarrow> li_ID item \<in> od_id ` set (discover_items target items docs)"
      using discover_items_grow [of docs target items] by blast
    ultimately show ?thesis using True "2.prems"(2) by simp
  qed (use 2 in auto)
qed simp

lemma discover_shape:
  assumes "discover E cfg c names docs errs w = ((docs', errs'), w')"
  shows "set docs \<subseteq> set docs' \<and> set errs \<subseteq> set errs'"
  using assms discover_items_grow
  by (induction E cfg c names docs errs w rule: discover.induct) (force split: prod.splits sum.splits)+

lemma discover_all:
  assumes "service_laws E cfg c absent closed owned" "discover E cfg c names docs errs w = ((docs', errs'), w')"
    "\<forall>e \<in> set errs'. e = None" "target \<in> set names" "owned (on_token target) (on_name target) i w"
  shows "i \<in> od_id ` set docs'"
  using assms(2-5)
proof (induction names arbitrary: docs errs w)
  case (Cons n names)
  obtain r w1 where l: "tc_list E cfg c (on_token n) [] w = (r, w1)" by fastforce
  have kept: "owned t m j w1" if "owned t m j w" for t m j
    by (rule service_kept(4) [OF assms(1) l that])
  show ?case
  proof (cases r)
    case (Inl err)
    then have "discover E cfg c names docs (errs @ [Some (Wrapped (''discover '' @ on_name n) err)]) w1 = ((docs', errs'), w')"
      using Cons.prems(1) l by simp
    from discover_shape [OF this] Cons.prems(2) have False by auto
    then show ?thesis ..
  next
    case (Inr items)
    then have run: "discover E cfg c names (discover_items n items docs) errs w1 = ((docs', errs'), w')"
      using Cons.prems(1) l by simp
    show ?thesis
    proof (cases "target = n")
      case True
      then obtain item where "item \<in> set items" "li_ID item = i" "li_Name item = on_name n"
        using assms(1) Cons.prems(4) l Inr unfolding service_laws_def by blast
      from discover_items_found [OF this(1,3)] this(2) have "i \<in> od_id ` set (discover_items n items docs)" by simp
      then show ?thesis using discover_shape [OF run] by blast
    next
      case False
      with Cons.IH [OF run Cons.prems(2)] Cons.prems(3,4) kept show ?thesis by simp
    qed
  qed
qed simp

lemma delete_all_errs: "delete_all E cfg c docs errs w = (errs', w') \<Longrightarrow> set errs \<subseteq> set errs'"
  by (induction E cfg c docs errs w rule: delete_all.induct) (force split: prod.splits sum.splits)+

lemma logout_all_errs: "logout_all E cfg c tokens errs w = (errs', w') \<Longrightarrow> set errs \<subseteq> set errs'"
  by (induction E cfg c tokens errs w rule: logout_all.induct) (force split: prod.splits sum.splits if_splits)+

lemma delete_all_absent:
  assumes "service_laws E cfg c absent closed owned" "delete_all E cfg c docs errs w = (errs', w')" "\<forall>e \<in> set errs'. e = None"
    "absent i w \<or> i \<in> od_id ` set docs"
  shows "absent i w'"
  using assms(2-4)
proof (induction docs arbitrary: errs w)
  case (Cons doc docs)
  obtain r w1 where d: "tc_deleteDocument E cfg c (od_id doc) (od_token doc) w = (r, w1)" by fastforce
  have kept: "absent i w1" if "absent i w" by (rule service_kept(1) [OF assms(1) d that])
  show ?case
  proof (cases r)
    case (Inl err)
    then have "delete_all E cfg c docs (errs @ [Some (Wrapped ''document'' err)]) w1 = (errs', w')" using Cons.prems(1) d by simp
    from delete_all_errs [OF this] Cons.prems(2) have False by auto
    then show ?thesis ..
  next
    case (Inr u)
    then have "absent (od_id doc) w1" using service_done(1) [OF assms(1)] d by simp
    with Cons Inr d kept show ?thesis by auto
  qed
qed simp

lemma logout_all_closed:
  assumes "service_laws E cfg c absent closed owned" "logout_all E cfg c tokens errs w = (errs', w')" "\<forall>e \<in> set errs'. e = None"
  shows "(absent i w \<longrightarrow> absent i w') \<and> (closed t w \<or> t \<noteq> [] \<and> t \<in> snd ` set tokens \<longrightarrow> closed t w')"
  using assms(2,3)
proof (induction tokens arbitrary: errs w)
  case (Cons rt tokens)
  obtain role token where rt: "rt = (role, token)" by fastforce
  show ?case
  proof (cases "token = []")
    case True
    with Cons rt show ?thesis by auto
  next
    case False
    obtain r w1 where l: "tc_logout E cfg c token w = (r, w1)" by fastforce
    have kept: "absent i w \<Longrightarrow> absent i w1" "closed t w \<Longrightarrow> closed t w1"
      by (rule service_kept(2,3) [OF assms(1) l], assumption)+
    show ?thesis
    proof (cases r)
      case (Inl err)
      then have "logout_all E cfg c tokens (errs @ [Some (Wrapped (role @ '' session'') err)]) w1 = (errs', w')"
        using Cons.prems(1) l rt False by simp
      from logout_all_errs [OF this] Cons.prems(2) have False by auto
      then show ?thesis ..
    next
      case (Inr u)
      then have "closed token w1" using service_done(2) [OF assms(1)] l by simp
      with Cons Inr l rt False kept show ?thesis by auto
    qed
  qed
qed simp

lemma cleanup_empties: "cleanup E cfg c r = (res, r') \<Longrightarrow> rn_docs r' = [] \<and> rn_names r' = [] \<and> rn_tokens r' = []"
  by (auto simp: cleanup_def split: prod.splits)

lemma body_empties:
  assumes "run_body E L cfg c ticks latencies r = (Inr u, r')"
  shows "rn_docs r' = [] \<and> rn_names r' = [] \<and> rn_tokens r' = []"
  using assms unfolding run_body_def Let_def
  by (elim and_then_InrE map_err_InrE) (auto simp: print_def dest: cleanup_empties)

text \<open>C32: Whatever happens in a run, successful or not, it ends with a cleanup, after which the runner owns nothing. A
  cleanup that reports no error has deleted every document that was tracked, every document of a tracked
  name that the service holds for its token, whether or not its id was known, and closed every session.\<close>

theorem cleanup_leaves_nothing:
  assumes "service_laws E cfg c absent closed owned" "cleanup E cfg c r = (res, r')"
  shows "rn_docs r' = [] \<and> rn_names r' = [] \<and> rn_tokens r' = [] \<and>
    rn_docs (snd (run_test E' L cfg' c' ticks latencies r0)) = [] \<and> rn_tokens (snd (run_test E' L cfg' c' ticks latencies r0)) = [] \<and>
    (res = Inr () \<longrightarrow>
       (\<forall>doc \<in> set (rn_docs r). absent (od_id doc) (rn_world r')) \<and>
       (\<forall>target \<in> set (rn_names r). \<forall>i. owned (on_token target) (on_name target) i (rn_world r) \<longrightarrow> absent i (rn_world r')) \<and>
       (\<forall>(role, token) \<in> set (rn_tokens r). token \<noteq> [] \<longrightarrow> closed token (rn_world r')))"
proof -
  obtain docs errs1 w1 where d: "discover E cfg c (rn_names r) (rn_docs r) [] (rn_world r) = ((docs, errs1), w1)" by (metis surj_pair)
  obtain errs2 w2 where x: "delete_all E cfg c docs errs1 w1 = (errs2, w2)" by fastforce
  obtain errs3 w3 where l: "logout_all E cfg c (rn_tokens r) errs2 w2 = (errs3, w3)" by fastforce
  have res: "res = (case errors_Join errs3 of None \<Rightarrow> Inr () | Some e \<Rightarrow> Inl e)" "rn_world r' = w3"
    using assms(2) d x l by (auto simp: cleanup_def)
  have run: "rn_docs (snd (run_test E' L cfg' c' ticks latencies r0)) = [] \<and> rn_tokens (snd (run_test E' L cfg' c' ticks latencies r0)) = []"
    by (auto simp: run_test_def print_def split: prod.splits sum.splits dest: body_empties cleanup_empties)
  have good: "absent i w3" if "res = Inr ()" "i \<in> od_id ` set docs" for i
  proof -
    have "\<forall>e \<in> set errs3. e = None" using res that(1) by (auto simp: errors_Join_None_iff split: option.splits)
    moreover from this have "\<forall>e \<in> set errs2. e = None" using logout_all_errs [OF l] by blast
    ultimately show ?thesis
      using delete_all_absent [OF assms(1) x _ disjI2 [OF that(2)]] logout_all_closed [OF assms(1) l] by blast
  qed
  have "(\<forall>doc \<in> set (rn_docs r). absent (od_id doc) w3) \<and>
      (\<forall>target \<in> set (rn_names r). \<forall>i. owned (on_token target) (on_name target) i (rn_world r) \<longrightarrow> absent i w3) \<and>
      (\<forall>(role, token) \<in> set (rn_tokens r). token \<noteq> [] \<longrightarrow> closed token w3)" if ok: "res = Inr ()"
  proof -
    have none: "\<forall>e \<in> set errs3. e = None" using res ok by (auto simp: errors_Join_None_iff split: option.splits)
    then have "\<forall>e \<in> set errs1. e = None" using logout_all_errs [OF l] delete_all_errs [OF x] by blast
    note found = discover_all [OF assms(1) d this]
    have "absent (od_id doc) w3" if "doc \<in> set (rn_docs r)" for doc using good [OF ok] discover_shape [OF d] that by blast
    moreover have "absent i w3" if "target \<in> set (rn_names r)" "owned (on_token target) (on_name target) i (rn_world r)" for target i
      by (rule good [OF ok found [OF that]])
    moreover have "closed token w3" if "(role, token) \<in> set (rn_tokens r)" "token \<noteq> []" for role token
    proof -
      have "token \<in> snd ` set (rn_tokens r)" using that(1) by force
      with logout_all_closed [OF assms(1) l none, of undefined token] that(2) show ?thesis by blast
    qed
    ultimately show ?thesis by blast
  qed
  with res run cleanup_empties [OF assms(2)] show ?thesis by blast
qed

subsection \<open>Witness\<close>

text \<open>A service that holds at most one document, named \<open>n\<close>, and some sessions; a listing is the id.\<close>

definition tiny_Do :: "ctx \<Rightarrow> outgoing \<Rightarrow> string \<times> string list \<Rightarrow> (string option + response) \<times> (string \<times> string list)" where
  "tiny_Do c rq w =
     (let answer = (\<lambda>body. Inr \<lparr>rp_Status = 200, rp_Header = [], rp_Body = \<lparr>r_data = body, r_err = None\<rparr>\<rparr>)
      in if og_Method rq = ''GET'' then (answer (fst w), w)
         else if strings_HasPrefix (og_URL rq) ''/api/docs/'' then (answer [], ([], snd w))
         else (answer [], (fst w, filter (\<lambda>t. og_URL rq \<noteq> ''/api/auth/'' @ url_PathEscape t) (snd w))))"

definition tiny_env :: "(string \<times> string list) test_env" where
  "tiny_env = \<lparr>te_Do = tiny_Do, te_CtxErr = (\<lambda>c w. (None, w)), te_RandRead = (\<lambda>n w. (Inr (replicate n (CHR ''r'')), w)),
     te_urlPath = Inr, te_Error = (\<lambda>e. ''error''), te_wide = (\<lambda>_. False), te_marshalMeta = (\<lambda>m. Inr ''meta''),
     te_multipart = (\<lambda>fields part. (''body'', ''multipart/form-data'')), te_token = (\<lambda>b. Some ''tok''),
     te_docs = (\<lambda>b. Inr (if b = [] then [] else [\<lparr>li_ID = b, li_Name = ''n'', li_File = True, li_Public = False, li_Grant = []\<rparr>])),
     te_healthStatus = (\<lambda>b. Some ''ok''), te_data = Some, te_jsonValue = Some\<rparr>"

definition tiny_config :: test_config where
  "tiny_config = \<lparr>tc_baseURL = [], tc_adminToken = ''secret'', tc_readyTimeout = second, tc_requestTimeout = second, tc_mode = ''load'',
     tc_loadProfile = ''mixed'', tc_loadDuration = second, tc_workers = 1, tc_maxOPS = 0, tc_maxErrorRate = 0, tc_maxP95 = 0\<rparr>"

definition tiny_absent :: "string \<Rightarrow> string \<times> string list \<Rightarrow> bool" where
  "tiny_absent i w \<longleftrightarrow> i = [] \<or> fst w \<noteq> i"

definition tiny_closed :: "string \<Rightarrow> string \<times> string list \<Rightarrow> bool" where
  "tiny_closed t w \<longleftrightarrow> t \<notin> set (snd w)"

definition tiny_owned :: "string \<Rightarrow> string \<Rightarrow> string \<Rightarrow> string \<times> string list \<Rightarrow> bool" where
  "tiny_owned t name i w \<longleftrightarrow> i \<noteq> [] \<and> fst w = i \<and> name = ''n'' \<and> length i \<le> 2097152"

lemma tiny_calls:
  "tc_deleteDocument tiny_env tiny_config c i token w = (Inr (), ([], snd w))"
  "tc_logout tiny_env tiny_config c token w = (Inr (), (fst w, filter (\<lambda>t. url_PathEscape token \<noteq> url_PathEscape t) (snd w)))"
  by (simp_all add: tc_deleteDocument_def tc_logout_def only_status_def want_status_def http_form_def http_request_def tiny_env_def
      tiny_config_def tiny_Do_def io_ReadAll_def limited_reader_def expectStatus_def and_then_def strings_HasPrefix_def maxResponseBytes_def)

lemma tiny_list:
  "snd (tc_list tiny_env tiny_config c token [] w) = w"
  "tc_list tiny_env tiny_config c token [] w = (Inr items, w') \<Longrightarrow> tiny_owned t name i w \<Longrightarrow>
     \<exists>item \<in> set items. li_ID item = i \<and> li_Name item = name"
  by (auto simp: tc_list_def tc_listQuery_def want_status_def http_request_def tiny_env_def tiny_config_def tiny_Do_def io_ReadAll_def
      limited_reader_def expectStatus_def and_then_def maxResponseBytes_def tiny_owned_def split: if_splits)

lemma tiny_laws: "service_laws tiny_env tiny_config c tiny_absent tiny_closed tiny_owned"
  unfolding service_laws_def keeps_def
  by (auto simp: tiny_calls tiny_list(1) tiny_absent_def tiny_closed_def dest: tiny_list(2))

definition tiny_runner :: "(string \<times> string list) runner" where
  "tiny_runner = \<lparr>rn_tokens = [(''load'', ''tok'')], rn_docs = [], rn_names = [\<lparr>on_name = ''n'', on_token = ''tok''\<rparr>], rn_out = [],
     rn_world = (''d1'', [''tok''])\<rparr>"

lemma cleanup_leaves_nothing_witness:
  "\<exists>r'. cleanup tiny_env tiny_config background_ctx tiny_runner = (Inr (), r') \<and> rn_docs r' = [] \<and>
     tiny_absent ''d1'' (rn_world r') \<and> tiny_closed ''tok'' (rn_world r')"
proof -
  have "fst (cleanup tiny_env tiny_config background_ctx tiny_runner) = Inr ()" by code_simp
  then obtain r' where r': "cleanup tiny_env tiny_config background_ctx tiny_runner = (Inr (), r')" by (metis prod.collapse)
  have "tiny_owned ''tok'' ''n'' ''d1'' (rn_world tiny_runner)" by (simp add: tiny_owned_def tiny_runner_def)
  with cleanup_leaves_nothing [OF tiny_laws r', of tiny_env undefined tiny_config background_ctx 0 "[]" tiny_runner] r' show ?thesis by (auto simp: tiny_runner_def)
qed

end
