(* ===== verification/Spec2Isabelle.thy ===== *)
theory Spec2Isabelle
  imports HttpKeys HttpAccess ServerProps MigrateProps MigrateCommand TestUrls TestStats TestCleanup
begin

text \<open>
  The documents service: a verification development of its Go code, the three commands under
  \<open>cmd/\<close> and every package under \<open>internal/\<close>. Names of definitions are those of the code; where
  a name is taken or a type is meant, a short prefix tells the component (\<open>mem_\<close> the cache,
  \<open>fs_\<close> the blob directory, \<open>pg_\<close> the store, \<open>auth_\<close> and \<open>doc_\<close> the services, \<open>ob_\<close> the response writer).

  The program. A request enters \<open>ServeHTTP\<close> (\<open>internal/httptransport/handler.go\<close>), which gives it an id, a
  deadline and a guarded response writer, and runs the route's handler beside the deadline. Handlers
  authorize the session token (\<open>internal/auth\<close>), answer reads from a bounded LRU cache
  (\<open>internal/cache\<close>) or from the document service (\<open>internal/document\<close>), and change documents through
  it. The services keep users, sessions, documents, grants and a cleanup queue in PostgreSQL
  (\<open>internal/repository/postgres\<close>) and files in a directory (\<open>internal/blob\<close>). An upload stores the
  file first and its metadata after it; a deletion removes the metadata and queues the file's key in
  one transaction, and a background worker empties the queue. \<open>cmd/server\<close> wires the
  parts, \<open>cmd/migrate\<close> brings the schema up to date, \<open>cmd/stacktest\<close> tests a running deployment.
\<close>

section \<open>Theories\<close>

text \<open>
  Foundations. \<open>Prelude\<close>: machine integers with their wrap-around (\<open>wrap64\<close>, \<open>wrapu64\<close>), instants and
  durations in nanoseconds, association lists for Go maps, sorting by a comparator (locale
  \<open>comparator\<close>). \<open>GoErrors\<close>: error values with wrapping and joining, and operations that thread a state and
  may fail (\<open>op\<close>, \<open>and_then\<close>, \<open>map_err\<close>, \<open>keeps\<close>). \<open>GoStrings\<close>, \<open>GoConv\<close>, \<open>GoQuote\<close>, \<open>Uuid\<close>: the
  functions of \<open>strings\<close>, \<open>unicode/utf8\<close>, \<open>strconv\<close>, \<open>path/filepath\<close>, \<open>encoding/base64\<close> and
  \<open>google/uuid\<close> that the code calls, on strings of bytes, with the lemmas that make keys and tokens
  unambiguous: \<open>Quote\<close> can be undone, base64 is injective, a printed UUID parses to itself.
  \<open>Domain\<close>: \<open>internal/domain\<close>, the repository and blob interfaces as records of functions over a
  state, readers and contexts. \<open>World\<close>: the environment as one state, that is the tables of the migrations
  with their constraints (\<open>wf_db\<close>), the blob directory, the clock, the random source, and for every call
  whether it fails and whether before or after its effect.

  Storage. \<open>LruCache\<close> (\<open>cache.go\<close>): the linked list with its map and the byte count; an abstract bounded
  list of entries, and for every operation a refinement lemma to it. \<open>BlobStore\<close> (\<open>filesystem.go\<close>):
  temporary files, links, removal. \<open>PgStore\<close> (\<open>postgres.go\<close>): pool, executor, transactions, error classes.
  \<open>PgUsers\<close>, \<open>PgSessions\<close>, \<open>PgDocuments\<close>, \<open>PgCleanup\<close>: one per repository file, a statement being a function on
  the tables. \<open>Ports\<close> states what the services rely on as locales (\<open>user_port\<close>, \<open>session_port\<close>,
  \<open>document_port\<close>, \<open>cleanup_port\<close>; \<open>blob_port\<close> is in \<open>Domain\<close>); the repositories interpret them, one lemma
  per law (\<open>pg_user_laws\<close>, \<open>pg_session_laws\<close>, \<open>pg_cleanup_laws\<close>, and \<open>pg_document_laws\<close> in \<open>PgDocPort\<close>).

  Services. \<open>AuthService\<close> and \<open>DocService\<close> model \<open>internal/auth\<close> and \<open>internal/document\<close> over arbitrary ports and
  prove, in the locales \<open>auth_env\<close> and \<open>doc_env\<close>, what every operation does on every path (\<open>upload_cases\<close>,
  \<open>get_cases\<close>, \<open>list_cases\<close>, \<open>delete_cases\<close>). \<open>CleanupWorker\<close>: the worker with its leases and delays.
  \<open>DocSystem\<close>: users and worker together as a step relation, with the invariant between documents, blobs
  and queue. \<open>PgAuth\<close> and \<open>PgService\<close> interpret the locales on the PostgreSQL store and the blob
  directory; the properties of accounts, sessions and documents are there.

  Transport. \<open>Config\<close> (\<open>config.go\<close>), \<open>Observability\<close> (\<open>observability.go\<close>). \<open>GoHttp\<close>, \<open>HttpApi\<close>: headers,
  values, requests, and the dependencies of the handlers as records. \<open>HttpWriter\<close>: the three response
  writers; \<open>HttpResponse\<close>, \<open>HttpRead\<close>, \<open>HttpUpdate\<close>, \<open>HttpHandler\<close>: \<open>response.go\<close>, the handlers of reading
  and listing, of uploading and deleting, the rest of \<open>handler.go\<close>; the theory \<open>HttpApi\<close> has \<open>response_cache.go\<close>. A
  handler is a program in the state monad over the writer and the backend. \<open>HttpWriterInv\<close>, \<open>HttpVia\<close>,
  \<open>HttpServe\<close> show that every handler leaves one well-formed answer, wherever the deadline falls.
  \<open>HttpKeys\<close> and \<open>HttpAccess\<close>: cache keys, filters, routes, the session check. \<open>HttpLogic\<close> is a small logic of
  pre- and postconditions for handlers; \<open>HttpBody\<close> follows what has been sent; \<open>HttpCache\<close>, \<open>HttpFaithful\<close>,
  \<open>HttpReading\<close>, \<open>HttpSound\<close> prove, in the locale \<open>cached_backend\<close>, that the cache never changes what a
  client gets.

  The program. \<open>Server\<close> (\<open>cmd/server/main.go\<close>) puts database, disk, cache, epoch, metrics and log into one
  state and wires the services over it. \<open>ServerLift\<close> and \<open>ServerFrames\<close> carry the services' lemmas to this
  state, \<open>ServerSound\<close> interprets \<open>cached_backend\<close> on it (\<open>srv\<close>), \<open>ServerRun\<close> defines its runs as the inductive
  relation \<open>server_step\<close> (requests and worker batches in any order), \<open>ServerProps\<close> states the properties of the
  whole program and \<open>ServerDemo\<close> evaluates one run for their witnesses. \<open>Migrate\<close> and \<open>MigrateCommand\<close> model
  \<open>migrate.go\<close> and \<open>cmd/migrate\<close>: a migrator is a program of database calls, and any number of them are
  interleaved under the advisory lock; \<open>MigrateSafe\<close> and \<open>MigrateRules\<close> are the rely-guarantee argument,
  \<open>MigrateProps\<close> its results. \<open>TestClient\<close> and \<open>TestRun\<close> model \<open>cmd/stacktest\<close>; \<open>TestUrls\<close>, \<open>TestStats\<close>
  and \<open>TestCleanup\<close> have its properties.
\<close>

section \<open>What is shown\<close>

text \<open>
  Access: a body of a document is only sent to a session that is live and a user who may read the
  document, from the cache as from the store, after any run of the program; lists and single reads
  keep to the access rules; only owners delete; a revoked session stays revoked; accounts are created for
  the administrator's token only. Storage: files appear atomically and read back; an upload stores what was
  asked for; every stored file keeps its blob whatever fails, save those whose upload was reported as failed
  while the store may have committed it, which a ghost set of \<open>doc_step\<close> collects, and whose file is then
  shown to be lost; the worker deletes queued blobs only. Cache: bounded in bytes and
  items, an exact LRU, invalidated exactly, its keys injective, its entries true to the documents.
  Transport: one response per request, logs and labels that depend on nothing of a request but its method and
  the name of its route, the table of routes, and two races at the deadline that log or send a wrong status.
  Metrics: the exported text is the one computed from the observations alone. Configuration:
  loading agrees with a declarative reading, its bounds, and that what loads starts. Migrations: in order and
  once, whatever fails and however many run, with termination and success. The test client: what it
  encodes is decoded alike, its statistics are exact, its cleanup is complete.
\<close>

section \<open>Parameters, bounds and fuel\<close>

text \<open>
  Code outside the repository is a parameter: \<open>golib\<close> holds bcrypt, digests, JSON validity, MIME and time parsing,
  \<open>http_lib\<close> JSON encoding and multipart parsing, \<open>float_ops\<close> the floating point of the metrics,
  \<open>h_loads\<close> the flight group, \<open>pg_params\<close> how PostgreSQL reads UUIDs, texts and JSON and compares strings. What a property needs
  of them is an assumption of its statement, and its witness instantiates them.

  Integers are \<open>int\<close> with the wrap-around written out where the code can reach it: sizes, the cache's byte
  count, \<open>maxFile + 1\<close>, products of delays, \<open>int32\<close> of the pool sizes; the counters of the metrics wrap as
  \<open>uint64\<close>. Properties of uploads assume a file limit below the largest \<open>int64\<close>, since at that limit the
  code stores empty files (\<open>largest_file_limit_stores_nothing\<close>); those of the cache assume byte limits below
  half of it.

  Loops are structural recursions or have a termination proof. The eviction loop of the cache is a
  \<open>partial_function\<close> with the proof that it returns on well-formed caches. Three loops depend on
  the environment: the worker's \<open>Run\<close> takes a bound on its batches and returns \<open>None\<close> when it is not over by
  then, as a run that is never cancelled is not; the readiness loop and the phases of the load test take as many ticks
  or operations as the clock lets through. The number of token attempts is the code's own.
\<close>

section \<open>Not modelled\<close>

text \<open>
  \<open>net/http\<close> below the handlers: sockets, the cleaning of paths by \<open>ServeMux\<close>, the read, write and idle
  timeouts, draining at shutdown (the outcomes of shutdown are \<open>stop_result\<close>), signals. Goroutines: two
  requests run one after the other, save that a request's deadline may pass at any point of its handler,
  that its cache load may be joined to, or left to, another request, and that migrators are interleaved call by call;
  operations of the cache, the metrics and one SQL statement are atomic, as the mutexes and the
  database make them. The durations that \<open>ObserveDatabase\<close> records are modelled in \<open>Observability\<close> and \<open>PgStore\<close>
  but not threaded through the server's state. After a timeout the code reports a request while its handler may still run; here \<open>report\<close> reads the
  status and the cache result when the handler has finished. Runs of \<open>server_step\<close> assume that ids are drawn
  once and that no step changes a stored document or its bytes. \<open>pg_List\<close> takes the query and the collection of
  its rows as one call, which differ in the error's message only. Where the code ranges over a Go map with visible
  effects (the S3 settings of the configuration, the logouts of the test's cleanup) the model takes the source's
  or the insertion order. Temporary files of multipart forms. What the SQL of a migration
  does to a schema, which is a parameter of the migrator; the tables the store works on are \<open>World\<close>'s.
  The test's workers run one after the other, and its HTTP transport and operations per second are left out. Vendored
  packages, tests, container and build files hold no code of the program.
\<close>

end
